(* ===== verification/TT_Base.thy ===== *)
theory TT_Base
  imports Main "HOL-Library.Word"
begin

text \<open>
  Prelude of the development: the integer and byte types the C++ code uses, the collections
  of rewrite rules the component theories share, overwriting and reading a byte list at an
  offset (a pointer \<open>buf + n\<close>), and the interface of a fixed width field codec, which the
  big endian 16 and 32 bit accessors of \<open>UtilPdu.cpp\<close> implement.
\<close>

unbundle bit_operations_syntax

type_synonym u8 = "8 word"
type_synonym u16 = "16 word"
type_synonym u32 = "32 word"
type_synonym u64 = "64 word"
type_synonym bytes = "8 word list"

named_theorems const_defs "the constants of the protocol"
named_theorems at_simps "reading and writing a buffer at an offset"
named_theorems buf_simps "the abstract contents of a growing buffer"

subsection \<open>A pointer into a buffer\<close>

text \<open>
  \<open>f(buf + n)\<close> where \<open>f\<close> writes through its pointer: the first \<open>n\<close> elements stay.
\<close>

definition write_at :: "nat \<Rightarrow> ('a list \<Rightarrow> 'a list) \<Rightarrow> 'a list \<Rightarrow> 'a list" where
  "write_at n f xs = take n xs @ f (drop n xs)"

lemma length_write_at [at_simps]:
  "(\<And>ys. length (f ys) = length ys) \<Longrightarrow> length (write_at n f xs) = length xs"
  by (simp add: write_at_def)

lemma take_write_at [at_simps]:
  "m \<le> n \<Longrightarrow> m \<le> length xs \<Longrightarrow> take m (write_at n f xs) = take m xs"
  by (simp add: write_at_def min_def)

lemma drop_write_at_same [at_simps]:
  "n \<le> length xs \<Longrightarrow> drop n (write_at n f xs) = f (drop n xs)"
  by (simp add: write_at_def)

lemma drop_write_at_below [at_simps]:
  "m \<le> n \<Longrightarrow> m \<le> length xs \<Longrightarrow> drop m (write_at n f xs) = write_at (n - m) f (drop m xs)"
  by (simp add: write_at_def drop_take)

lemma write_at_0 [simp]: "write_at 0 f xs = f xs"
  by (simp add: write_at_def)

subsection \<open>Fixed width field codecs\<close>

text \<open>
  A codec of a field of \<open>width\<close> bytes: \<open>put\<close> writes the field through a pointer, \<open>get\<close>
  reads it through a pointer. The laws are what every caller of the accessors relies on.
\<close>

locale fixed_codec =
  fixes put :: "'b list \<Rightarrow> 'v \<Rightarrow> 'b list"
    and get :: "'b list \<Rightarrow> 'v"
    and width :: nat
  assumes length_put: "length (put buf v) = length buf"
    and get_put: "width \<le> length buf \<Longrightarrow> get (put buf v) = v"
    and drop_put: "drop width (put buf v) = drop width buf"
    and get_local: "width \<le> length buf \<Longrightarrow> get (buf @ rest) = get buf"
    and put_get: "width \<le> length buf \<Longrightarrow> put buf (get buf) = buf"
begin

lemma get_put_at:
  assumes "n + width \<le> length buf"
  shows "get (drop n (write_at n (\<lambda>b. put b v) buf)) = v"
  using assms by (simp add: at_simps get_put)

lemma length_put_at: "length (write_at n (\<lambda>b. put b v) buf) = length buf"
  by (rule length_write_at) (rule length_put)

lemma get_take:
  assumes "width \<le> m" and "m \<le> length buf"
  shows "get (take m buf) = get buf"
proof -
  have "get (take m buf @ drop m buf) = get (take m buf)"
    using assms by (intro get_local) simp
  then show ?thesis by simp
qed

lemma drop_put_ge:
  assumes "width \<le> m"
  shows "drop m (put buf v) = drop m buf"
proof -
  have "drop m (put buf v) = drop (m - width) (drop width (put buf v))"
    using assms by simp
  also have "\<dots> = drop m buf"
    using assms by (simp add: drop_put del: drop_drop) simp
  finally show ?thesis .
qed

lemma get_put_later:
  assumes "n + width \<le> m" "m + width \<le> length buf"
  shows "get (drop m (write_at n (\<lambda>b. put b v) buf)) = get (drop m buf)"
proof -
  have "n \<le> length buf" using assms by simp
  then have "drop m (write_at n (\<lambda>b. put b v) buf) = drop (m - n) (put (drop n buf) v)"
    using assms by (simp add: write_at_def)
  also have "\<dots> = drop m buf"
    using assms by (simp add: drop_put_ge)
  finally show ?thesis by simp
qed

lemma put_inject:
  assumes "width \<le> length buf" and "put buf v = put buf w"
  shows "v = w"
  using assms get_put by metis

end

subsection \<open>Lists\<close>

lemma drop_append_exact [simp]: "length xs = n \<Longrightarrow> drop n (xs @ ys) = ys"
  by simp

lemma take_append_exact [simp]: "length xs = n \<Longrightarrow> take n (xs @ ys) = xs"
  by simp

lemma list_all_ge4:
  assumes "4 \<le> length xs"
  obtains a b c d rest where "xs = a # b # c # d # rest"
  using assms by (auto simp: numeral_eq_Suc Suc_le_length_iff)

lemma list_all_ge2:
  assumes "2 \<le> length xs"
  obtains a b rest where "xs = a # b # rest"
  using assms by (auto simp: numeral_eq_Suc Suc_le_length_iff)

subsection \<open>Words\<close>

lemma unat_of_nat_32 [simp]: "n < 2 ^ 32 \<Longrightarrow> unat (of_nat n :: u32) = n"
  by (simp add: unat_of_nat take_bit_nat_eq_self)

lemma unat_u32_lt: "unat (w :: u32) < 2 ^ 32"
  using unsigned_less [of w] by simp

lemma quarter_fits: "(n::nat) < 3 * 2 ^ 30 \<Longrightarrow> n + n div 4 < 2 ^ 32"
  by simp

lemma unat_add_no_wrap:
  fixes a b :: "'a::len word"
  assumes "unat a + unat b < 2 ^ LENGTH('a)"
  shows "unat (a + b) = unat a + unat b"
  using assms by (simp add: unat_word_ariths)

lemma unat_sub_no_wrap:
  fixes a b :: "'a::len word"
  assumes "b \<le> a"
  shows "unat (a - b) = unat a - unat b"
  using assms by (rule unat_sub)

subsection \<open>Rounding a division up\<close>

lemma less_ceil_div_iff:
  fixes i k x :: nat
  assumes "0 < k"
  shows "i < (x + (k - 1)) div k \<longleftrightarrow> i * k < x"
proof -
  have "i < (x + (k - 1)) div k \<longleftrightarrow> Suc i * k \<le> x + (k - 1)"
    using assms by (simp add: Suc_le_eq [symmetric] less_eq_div_iff_mult_less_eq del: mult_Suc)
  also have "\<dots> \<longleftrightarrow> i * k < x" using assms by auto
  finally show ?thesis .
qed

lemma ceil_div_cases:
  fixes k x :: nat
  assumes "0 < k"
  shows "(x + (k - 1)) div k = (if x mod k = 0 then x div k else x div k + 1)"
proof -
  have "x = x div k * k + x mod k" by simp
  then have "x + (k - 1) = x div k * k + (x mod k + (k - 1))" by linarith
  then have "(x + (k - 1)) div k = (x div k * k + (x mod k + (k - 1))) div k" by (rule arg_cong)
  also have "\<dots> = x div k + (x mod k + (k - 1)) div k"
    using assms by (rule div_mult_self3 [OF less_imp_neq [THEN not_sym]])
  also have "(x mod k + (k - 1)) div k = (if x mod k = 0 then 0 else 1)"
  proof (cases "x mod k = 0")
    case False
    have "x mod k < k" using assms by simp
    then have "k \<le> x mod k + (k - 1)" "x mod k + (k - 1) < 2 * k" using False assms by linarith+
    then have "(x mod k + (k - 1)) div k = 1"
      using assms by (intro div_nat_eqI) simp_all
    with False show ?thesis by simp
  qed (use assms in simp)
  finally show ?thesis by simp
qed

subsection \<open>Searching a list for the least key\<close>

text \<open>
  The servers search for a least element with a loop that starts from a limit no key reaches: the entry
  found so far with its key, replaced on a strictly smaller key.
\<close>

fun scan_min :: "('a \<Rightarrow> bool) \<Rightarrow> ('a \<Rightarrow> 'k::linorder) \<Rightarrow> 'a list \<Rightarrow> 'k \<Rightarrow> 'a option \<Rightarrow> 'a option" where
  "scan_min P key [] lim b = b"
| "scan_min P key (x # xs) lim b =
     (if P x \<and> key x < lim then scan_min P key xs (key x) (Some x) else scan_min P key xs lim b)"

lemma scan_min_from:
  "scan_min P key xs (key y) (Some y) = Some z \<Longrightarrow>
   (z = y \<or> z \<in> set xs \<and> P z) \<and> key z \<le> key y \<and> (\<forall>x \<in> set xs. P x \<longrightarrow> key z \<le> key x)"
proof (induction xs arbitrary: y)
  case (Cons x xs)
  show ?case
  proof (cases "P x \<and> key x < key y")
    case True
    then show ?thesis using Cons.prems Cons.IH [of x] by auto
  next
    case False
    then have "scan_min P key xs (key y) (Some y) = Some z" using Cons.prems by (simp only: scan_min.simps if_False)
    from Cons.IH [OF this] show ?thesis using False by auto
  qed
qed simp

lemma scan_min_Some_start: "scan_min P key xs lim (Some y) \<noteq> None"
  by (induction xs arbitrary: lim y) auto

lemma scan_min_spec:
  assumes "\<And>x. x \<in> set xs \<Longrightarrow> P x \<Longrightarrow> key x < lim"
  shows "case scan_min P key xs lim None of None \<Rightarrow> \<forall>x \<in> set xs. \<not> P x
    | Some z \<Rightarrow> z \<in> set xs \<and> P z \<and> (\<forall>x \<in> set xs. P x \<longrightarrow> key z \<le> key x)"
  using assms
proof (induction xs)
  case (Cons x xs)
  show ?case
  proof (cases "P x")
    case True
    then have lim: "key x < lim" using Cons.prems by simp
    then have s: "scan_min P key (x # xs) lim None = scan_min P key xs (key x) (Some x)" using True by simp
    obtain z where "scan_min P key xs (key x) (Some x) = Some z"
      using scan_min_Some_start by (metis not_Some_eq)
    with scan_min_from [OF this] True lim show ?thesis by (auto simp: s)
  next
    case False
    then show ?thesis using Cons by (auto split: option.splits)
  qed
qed simp

end
