(* ===== verification/Public_Define.thy ===== *)
theory Public_Define
  imports TT_Base
begin

text \<open>
  The constants of the protocol: the enumerations of \<open>public/pb/IM.BaseDefine.proto\<close> the modelled
  servers use, and the macros and records of \<open>base/public_define.h\<close>. A PDU on its way through a
  server is its command id, sequence number and body.
\<close>

definition USER_STATUS_ONLINE :: u32 where [const_defs]: "USER_STATUS_ONLINE = 1"
definition USER_STATUS_OFFLINE :: u32 where [const_defs]: "USER_STATUS_OFFLINE = 2"
definition USER_STATUS_LEAVE :: u32 where [const_defs]: "USER_STATUS_LEAVE = 3"
definition CLIENT_TYPE_WINDOWS :: u32 where [const_defs]: "CLIENT_TYPE_WINDOWS = 1"
definition CLIENT_TYPE_MAC :: u32 where [const_defs]: "CLIENT_TYPE_MAC = 2"
definition CLIENT_TYPE_IOS :: u32 where [const_defs]: "CLIENT_TYPE_IOS = 17"
definition CLIENT_TYPE_ANDROID :: u32 where [const_defs]: "CLIENT_TYPE_ANDROID = 18"
definition REFUSE_REASON_NONE :: u32 where [const_defs]: "REFUSE_REASON_NONE = 0"
definition REFUSE_REASON_NO_MSG_SERVER :: u32 where [const_defs]: "REFUSE_REASON_NO_MSG_SERVER = 1"
definition REFUSE_REASON_MSG_SERVER_FULL :: u32 where [const_defs]: "REFUSE_REASON_MSG_SERVER_FULL = 2"
definition REFUSE_REASON_NO_DB_SERVER :: u32 where [const_defs]: "REFUSE_REASON_NO_DB_SERVER = 3"
definition REFUSE_REASON_NO_LOGIN_SERVER :: u32 where [const_defs]: "REFUSE_REASON_NO_LOGIN_SERVER = 4"
definition REFUSE_REASON_NO_ROUTE_SERVER :: u32 where [const_defs]: "REFUSE_REASON_NO_ROUTE_SERVER = 5"
definition REFUSE_REASON_DB_VALIDATE_FAILED :: u32 where [const_defs]: "REFUSE_REASON_DB_VALIDATE_FAILED = 6"
definition KICK_REASON_DUPLICATE_USER :: u32 where [const_defs]: "KICK_REASON_DUPLICATE_USER = 1"
definition KICK_REASON_MOBILE_KICK :: u32 where [const_defs]: "KICK_REASON_MOBILE_KICK = 2"
definition FILE_TYPE_ONLINE :: u32 where [const_defs]: "FILE_TYPE_ONLINE = 1"
definition FILE_TYPE_OFFLINE :: u32 where [const_defs]: "FILE_TYPE_OFFLINE = 2"
definition CLIENT_FILE_PEER_READY :: u32 where [const_defs]: "CLIENT_FILE_PEER_READY = 0"
definition CLIENT_FILE_CANCEL :: u32 where [const_defs]: "CLIENT_FILE_CANCEL = 1"
definition CLIENT_FILE_REFUSE :: u32 where [const_defs]: "CLIENT_FILE_REFUSE = 2"
definition CLIENT_FILE_DONE :: u32 where [const_defs]: "CLIENT_FILE_DONE = 3"
definition CLIENT_REALTIME_SENDER :: u32 where [const_defs]: "CLIENT_REALTIME_SENDER = 1"
definition CLIENT_REALTIME_RECVER :: u32 where [const_defs]: "CLIENT_REALTIME_RECVER = 2"
definition CLIENT_OFFLINE_UPLOAD :: u32 where [const_defs]: "CLIENT_OFFLINE_UPLOAD = 3"
definition CLIENT_OFFLINE_DOWNLOAD :: u32 where [const_defs]: "CLIENT_OFFLINE_DOWNLOAD = 4"
definition MSG_TYPE_SINGLE_TEXT :: u32 where [const_defs]: "MSG_TYPE_SINGLE_TEXT = 1"
definition MSG_TYPE_SINGLE_AUDIO :: u32 where [const_defs]: "MSG_TYPE_SINGLE_AUDIO = 2"
definition MSG_TYPE_GROUP_TEXT :: u32 where [const_defs]: "MSG_TYPE_GROUP_TEXT = 17"
definition MSG_TYPE_GROUP_AUDIO :: u32 where [const_defs]: "MSG_TYPE_GROUP_AUDIO = 18"
definition GROUP_TYPE_NORMAL :: u32 where [const_defs]: "GROUP_TYPE_NORMAL = 1"
definition SESSION_TYPE_SINGLE :: u32 where [const_defs]: "SESSION_TYPE_SINGLE = 1"
definition SESSION_TYPE_GROUP :: u32 where [const_defs]: "SESSION_TYPE_GROUP = 2"

definition CID_LOGIN_REQ_MSGSERVER :: u16 where [const_defs]: "CID_LOGIN_REQ_MSGSERVER = 0x0101"
definition CID_LOGIN_RES_MSGSERVER :: u16 where [const_defs]: "CID_LOGIN_RES_MSGSERVER = 0x0102"
definition CID_LOGIN_REQ_USERLOGIN :: u16 where [const_defs]: "CID_LOGIN_REQ_USERLOGIN = 0x0103"
definition CID_LOGIN_RES_USERLOGIN :: u16 where [const_defs]: "CID_LOGIN_RES_USERLOGIN = 0x0104"
definition CID_LOGIN_REQ_LOGINOUT :: u16 where [const_defs]: "CID_LOGIN_REQ_LOGINOUT = 0x0105"
definition CID_LOGIN_RES_LOGINOUT :: u16 where [const_defs]: "CID_LOGIN_RES_LOGINOUT = 0x0106"
definition CID_LOGIN_KICK_USER :: u16 where [const_defs]: "CID_LOGIN_KICK_USER = 0x0107"
definition CID_LOGIN_REQ_DEVICETOKEN :: u16 where [const_defs]: "CID_LOGIN_REQ_DEVICETOKEN = 0x0108"
definition CID_LOGIN_RES_DEVICETOKEN :: u16 where [const_defs]: "CID_LOGIN_RES_DEVICETOKEN = 0x0109"
definition CID_LOGIN_REQ_KICKPCCLIENT :: u16 where [const_defs]: "CID_LOGIN_REQ_KICKPCCLIENT = 0x010a"
definition CID_LOGIN_RES_KICKPCCLIENT :: u16 where [const_defs]: "CID_LOGIN_RES_KICKPCCLIENT = 0x010b"
definition CID_LOGIN_REQ_PUSH_SHIELD :: u16 where [const_defs]: "CID_LOGIN_REQ_PUSH_SHIELD = 0x010c"
definition CID_LOGIN_RES_PUSH_SHIELD :: u16 where [const_defs]: "CID_LOGIN_RES_PUSH_SHIELD = 0x010d"
definition CID_LOGIN_REQ_QUERY_PUSH_SHIELD :: u16 where [const_defs]: "CID_LOGIN_REQ_QUERY_PUSH_SHIELD = 0x010e"
definition CID_LOGIN_RES_QUERY_PUSH_SHIELD :: u16 where [const_defs]: "CID_LOGIN_RES_QUERY_PUSH_SHIELD = 0x010f"
definition CID_BUDDY_LIST_RECENT_CONTACT_SESSION_REQUEST :: u16 where [const_defs]: "CID_BUDDY_LIST_RECENT_CONTACT_SESSION_REQUEST = 0x0201"
definition CID_BUDDY_LIST_RECENT_CONTACT_SESSION_RESPONSE :: u16 where [const_defs]: "CID_BUDDY_LIST_RECENT_CONTACT_SESSION_RESPONSE = 0x0202"
definition CID_BUDDY_LIST_STATUS_NOTIFY :: u16 where [const_defs]: "CID_BUDDY_LIST_STATUS_NOTIFY = 0x0203"
definition CID_BUDDY_LIST_USER_INFO_REQUEST :: u16 where [const_defs]: "CID_BUDDY_LIST_USER_INFO_REQUEST = 0x0204"
definition CID_BUDDY_LIST_USER_INFO_RESPONSE :: u16 where [const_defs]: "CID_BUDDY_LIST_USER_INFO_RESPONSE = 0x0205"
definition CID_BUDDY_LIST_REMOVE_SESSION_REQ :: u16 where [const_defs]: "CID_BUDDY_LIST_REMOVE_SESSION_REQ = 0x0206"
definition CID_BUDDY_LIST_REMOVE_SESSION_RES :: u16 where [const_defs]: "CID_BUDDY_LIST_REMOVE_SESSION_RES = 0x0207"
definition CID_BUDDY_LIST_ALL_USER_REQUEST :: u16 where [const_defs]: "CID_BUDDY_LIST_ALL_USER_REQUEST = 0x0208"
definition CID_BUDDY_LIST_ALL_USER_RESPONSE :: u16 where [const_defs]: "CID_BUDDY_LIST_ALL_USER_RESPONSE = 0x0209"
definition CID_BUDDY_LIST_USERS_STATUS_REQUEST :: u16 where [const_defs]: "CID_BUDDY_LIST_USERS_STATUS_REQUEST = 0x020a"
definition CID_BUDDY_LIST_USERS_STATUS_RESPONSE :: u16 where [const_defs]: "CID_BUDDY_LIST_USERS_STATUS_RESPONSE = 0x020b"
definition CID_BUDDY_LIST_CHANGE_AVATAR_REQUEST :: u16 where [const_defs]: "CID_BUDDY_LIST_CHANGE_AVATAR_REQUEST = 0x020c"
definition CID_BUDDY_LIST_CHANGE_AVATAR_RESPONSE :: u16 where [const_defs]: "CID_BUDDY_LIST_CHANGE_AVATAR_RESPONSE = 0x020d"
definition CID_BUDDY_LIST_PC_LOGIN_STATUS_NOTIFY :: u16 where [const_defs]: "CID_BUDDY_LIST_PC_LOGIN_STATUS_NOTIFY = 0x020e"
definition CID_BUDDY_LIST_REMOVE_SESSION_NOTIFY :: u16 where [const_defs]: "CID_BUDDY_LIST_REMOVE_SESSION_NOTIFY = 0x020f"
definition CID_BUDDY_LIST_DEPARTMENT_REQUEST :: u16 where [const_defs]: "CID_BUDDY_LIST_DEPARTMENT_REQUEST = 0x0210"
definition CID_BUDDY_LIST_DEPARTMENT_RESPONSE :: u16 where [const_defs]: "CID_BUDDY_LIST_DEPARTMENT_RESPONSE = 0x0211"
definition CID_BUDDY_LIST_AVATAR_CHANGED_NOTIFY :: u16 where [const_defs]: "CID_BUDDY_LIST_AVATAR_CHANGED_NOTIFY = 0x0212"
definition CID_BUDDY_LIST_CHANGE_SIGN_INFO_REQUEST :: u16 where [const_defs]: "CID_BUDDY_LIST_CHANGE_SIGN_INFO_REQUEST = 0x0213"
definition CID_BUDDY_LIST_CHANGE_SIGN_INFO_RESPONSE :: u16 where [const_defs]: "CID_BUDDY_LIST_CHANGE_SIGN_INFO_RESPONSE = 0x0214"
definition CID_BUDDY_LIST_SIGN_INFO_CHANGED_NOTIFY :: u16 where [const_defs]: "CID_BUDDY_LIST_SIGN_INFO_CHANGED_NOTIFY = 0x0215"
definition CID_MSG_DATA :: u16 where [const_defs]: "CID_MSG_DATA = 0x0301"
definition CID_MSG_DATA_ACK :: u16 where [const_defs]: "CID_MSG_DATA_ACK = 0x0302"
definition CID_MSG_READ_ACK :: u16 where [const_defs]: "CID_MSG_READ_ACK = 0x0303"
definition CID_MSG_READ_NOTIFY :: u16 where [const_defs]: "CID_MSG_READ_NOTIFY = 0x0304"
definition CID_MSG_TIME_REQUEST :: u16 where [const_defs]: "CID_MSG_TIME_REQUEST = 0x0305"
definition CID_MSG_TIME_RESPONSE :: u16 where [const_defs]: "CID_MSG_TIME_RESPONSE = 0x0306"
definition CID_MSG_UNREAD_CNT_REQUEST :: u16 where [const_defs]: "CID_MSG_UNREAD_CNT_REQUEST = 0x0307"
definition CID_MSG_UNREAD_CNT_RESPONSE :: u16 where [const_defs]: "CID_MSG_UNREAD_CNT_RESPONSE = 0x0308"
definition CID_MSG_LIST_REQUEST :: u16 where [const_defs]: "CID_MSG_LIST_REQUEST = 0x0309"
definition CID_MSG_LIST_RESPONSE :: u16 where [const_defs]: "CID_MSG_LIST_RESPONSE = 0x030a"
definition CID_MSG_GET_LATEST_MSG_ID_REQ :: u16 where [const_defs]: "CID_MSG_GET_LATEST_MSG_ID_REQ = 0x030b"
definition CID_MSG_GET_LATEST_MSG_ID_RSP :: u16 where [const_defs]: "CID_MSG_GET_LATEST_MSG_ID_RSP = 0x030c"
definition CID_MSG_GET_BY_MSG_ID_REQ :: u16 where [const_defs]: "CID_MSG_GET_BY_MSG_ID_REQ = 0x030d"
definition CID_MSG_GET_BY_MSG_ID_RES :: u16 where [const_defs]: "CID_MSG_GET_BY_MSG_ID_RES = 0x030e"
definition CID_GROUP_NORMAL_LIST_REQUEST :: u16 where [const_defs]: "CID_GROUP_NORMAL_LIST_REQUEST = 0x0401"
definition CID_GROUP_NORMAL_LIST_RESPONSE :: u16 where [const_defs]: "CID_GROUP_NORMAL_LIST_RESPONSE = 0x0402"
definition CID_GROUP_INFO_REQUEST :: u16 where [const_defs]: "CID_GROUP_INFO_REQUEST = 0x0403"
definition CID_GROUP_INFO_RESPONSE :: u16 where [const_defs]: "CID_GROUP_INFO_RESPONSE = 0x0404"
definition CID_GROUP_CREATE_REQUEST :: u16 where [const_defs]: "CID_GROUP_CREATE_REQUEST = 0x0405"
definition CID_GROUP_CREATE_RESPONSE :: u16 where [const_defs]: "CID_GROUP_CREATE_RESPONSE = 0x0406"
definition CID_GROUP_CHANGE_MEMBER_REQUEST :: u16 where [const_defs]: "CID_GROUP_CHANGE_MEMBER_REQUEST = 0x0407"
definition CID_GROUP_CHANGE_MEMBER_RESPONSE :: u16 where [const_defs]: "CID_GROUP_CHANGE_MEMBER_RESPONSE = 0x0408"
definition CID_GROUP_SHIELD_GROUP_REQUEST :: u16 where [const_defs]: "CID_GROUP_SHIELD_GROUP_REQUEST = 0x0409"
definition CID_GROUP_SHIELD_GROUP_RESPONSE :: u16 where [const_defs]: "CID_GROUP_SHIELD_GROUP_RESPONSE = 0x040a"
definition CID_GROUP_CHANGE_MEMBER_NOTIFY :: u16 where [const_defs]: "CID_GROUP_CHANGE_MEMBER_NOTIFY = 0x040b"
definition CID_FILE_LOGIN_REQ :: u16 where [const_defs]: "CID_FILE_LOGIN_REQ = 0x0501"
definition CID_FILE_LOGIN_RES :: u16 where [const_defs]: "CID_FILE_LOGIN_RES = 0x0502"
definition CID_FILE_STATE :: u16 where [const_defs]: "CID_FILE_STATE = 0x0503"
definition CID_FILE_PULL_DATA_REQ :: u16 where [const_defs]: "CID_FILE_PULL_DATA_REQ = 0x0504"
definition CID_FILE_PULL_DATA_RSP :: u16 where [const_defs]: "CID_FILE_PULL_DATA_RSP = 0x0505"
definition CID_FILE_REQUEST :: u16 where [const_defs]: "CID_FILE_REQUEST = 0x0506"
definition CID_FILE_RESPONSE :: u16 where [const_defs]: "CID_FILE_RESPONSE = 0x0507"
definition CID_FILE_NOTIFY :: u16 where [const_defs]: "CID_FILE_NOTIFY = 0x0508"
definition CID_FILE_HAS_OFFLINE_REQ :: u16 where [const_defs]: "CID_FILE_HAS_OFFLINE_REQ = 0x0509"
definition CID_FILE_HAS_OFFLINE_RES :: u16 where [const_defs]: "CID_FILE_HAS_OFFLINE_RES = 0x050a"
definition CID_FILE_ADD_OFFLINE_REQ :: u16 where [const_defs]: "CID_FILE_ADD_OFFLINE_REQ = 0x050b"
definition CID_FILE_DEL_OFFLINE_REQ :: u16 where [const_defs]: "CID_FILE_DEL_OFFLINE_REQ = 0x050c"
definition CID_SWITCH_P2P_CMD :: u16 where [const_defs]: "CID_SWITCH_P2P_CMD = 0x0601"
definition CID_OTHER_HEARTBEAT :: u16 where [const_defs]: "CID_OTHER_HEARTBEAT = 0x0701"
definition CID_OTHER_STOP_RECV_PACKET :: u16 where [const_defs]: "CID_OTHER_STOP_RECV_PACKET = 0x0702"
definition CID_OTHER_VALIDATE_REQ :: u16 where [const_defs]: "CID_OTHER_VALIDATE_REQ = 0x0703"
definition CID_OTHER_VALIDATE_RSP :: u16 where [const_defs]: "CID_OTHER_VALIDATE_RSP = 0x0704"
definition CID_OTHER_GET_DEVICE_TOKEN_REQ :: u16 where [const_defs]: "CID_OTHER_GET_DEVICE_TOKEN_REQ = 0x0705"
definition CID_OTHER_GET_DEVICE_TOKEN_RSP :: u16 where [const_defs]: "CID_OTHER_GET_DEVICE_TOKEN_RSP = 0x0706"
definition CID_OTHER_ROLE_SET :: u16 where [const_defs]: "CID_OTHER_ROLE_SET = 0x0707"
definition CID_OTHER_ONLINE_USER_INFO :: u16 where [const_defs]: "CID_OTHER_ONLINE_USER_INFO = 0x0708"
definition CID_OTHER_MSG_SERV_INFO :: u16 where [const_defs]: "CID_OTHER_MSG_SERV_INFO = 0x0709"
definition CID_OTHER_USER_STATUS_UPDATE :: u16 where [const_defs]: "CID_OTHER_USER_STATUS_UPDATE = 0x070a"
definition CID_OTHER_USER_CNT_UPDATE :: u16 where [const_defs]: "CID_OTHER_USER_CNT_UPDATE = 0x070b"
definition CID_OTHER_SERVER_KICK_USER :: u16 where [const_defs]: "CID_OTHER_SERVER_KICK_USER = 0x070d"
definition CID_OTHER_LOGIN_STATUS_NOTIFY :: u16 where [const_defs]: "CID_OTHER_LOGIN_STATUS_NOTIFY = 0x070e"
definition CID_OTHER_PUSH_TO_USER_REQ :: u16 where [const_defs]: "CID_OTHER_PUSH_TO_USER_REQ = 0x070f"
definition CID_OTHER_PUSH_TO_USER_RSP :: u16 where [const_defs]: "CID_OTHER_PUSH_TO_USER_RSP = 0x0710"
definition CID_OTHER_GET_SHIELD_REQ :: u16 where [const_defs]: "CID_OTHER_GET_SHIELD_REQ = 0x0711"
definition CID_OTHER_GET_SHIELD_RSP :: u16 where [const_defs]: "CID_OTHER_GET_SHIELD_RSP = 0x0712"
definition CID_OTHER_FILE_TRANSFER_REQ :: u16 where [const_defs]: "CID_OTHER_FILE_TRANSFER_REQ = 0x0731"
definition CID_OTHER_FILE_TRANSFER_RSP :: u16 where [const_defs]: "CID_OTHER_FILE_TRANSFER_RSP = 0x0732"
definition CID_OTHER_FILE_SERVER_IP_REQ :: u16 where [const_defs]: "CID_OTHER_FILE_SERVER_IP_REQ = 0x0733"
definition CID_OTHER_FILE_SERVER_IP_RSP :: u16 where [const_defs]: "CID_OTHER_FILE_SERVER_IP_RSP = 0x0734"

definition USER_CNT_INC :: u32 where [const_defs]: "USER_CNT_INC = 1"
definition USER_CNT_DEC :: u32 where [const_defs]: "USER_CNT_DEC = 2"
definition IM_PC_LOGIN_STATUS_ON :: u32 where [const_defs]: "IM_PC_LOGIN_STATUS_ON = 1"
definition IM_PC_LOGIN_STATUS_OFF :: u32 where [const_defs]: "IM_PC_LOGIN_STATUS_OFF = 0"
definition CLIENT_TYPE_FLAG_PC :: u32 where [const_defs]: "CLIENT_TYPE_FLAG_PC = 1"
definition CLIENT_TYPE_FLAG_MOBILE :: u32 where [const_defs]: "CLIENT_TYPE_FLAG_MOBILE = 2"
definition CLIENT_TYPE_FLAG_BOTH :: u32 where [const_defs]: "CLIENT_TYPE_FLAG_BOTH = 3"

definition CHECK_MSG_TYPE_SINGLE :: "u32 \<Rightarrow> bool" where
  "CHECK_MSG_TYPE_SINGLE type = (MSG_TYPE_SINGLE_TEXT = type \<or> MSG_TYPE_SINGLE_AUDIO = type)"
definition CHECK_MSG_TYPE_GROUP :: "u32 \<Rightarrow> bool" where
  "CHECK_MSG_TYPE_GROUP type = (MSG_TYPE_GROUP_TEXT = type \<or> MSG_TYPE_GROUP_AUDIO = type)"
definition CHECK_CLIENT_TYPE_PC :: "u32 \<Rightarrow> bool" where
  "CHECK_CLIENT_TYPE_PC type = (type AND 0x10 = 0)"
definition CHECK_CLIENT_TYPE_MOBILE :: "u32 \<Rightarrow> bool" where
  "CHECK_CLIENT_TYPE_MOBILE type = (type AND 0x10 = 0x10)"

lemma status_distinct [simp]: "USER_STATUS_OFFLINE \<noteq> USER_STATUS_ONLINE" "USER_STATUS_ONLINE \<noteq> USER_STATUS_OFFLINE"
  by (simp_all add: const_defs)

text \<open>The two checks split the client types.\<close>

lemma client_type_split: "CHECK_CLIENT_TYPE_MOBILE t \<longleftrightarrow> \<not> CHECK_CLIENT_TYPE_PC t"
proof -
  have "t AND 0x10 = (if bit t 4 then 0x10 else 0)"
    by (rule bit_word_eqI) (auto simp: bit_simps bit_numeral_rec numeral_eq_Suc nat.split less_Suc_eq
        split: nat.splits)
  then show ?thesis by (simp add: CHECK_CLIENT_TYPE_PC_def CHECK_CLIENT_TYPE_MOBILE_def)
qed

record in_pdu =
  in_cid :: u16
  in_seq :: u16
  in_body :: bytes

record user_stat =
  us_user_id :: u32
  us_status :: u32
  us_client_type :: u32

end
