(* ===== verification/Conn_Map.thy ===== *)
theory Conn_Map
  imports TT_Base
begin

text \<open>
  The maps of the servers. Connections are kept in handle maps (\<open>ConnMap_t\<close>, an \<open>unordered_map\<close> from a
  socket handle to a connection): association lists in iteration order, which the standard
  library leaves open. \<open>insert\<close> keeps an entry that is already there, \<open>erase\<close> removes a key. A
  connection is a pointer, modelled by a number.
\<close>

type_synonym handle = int
type_synonym conn = nat
type_synonym conn_map = "(handle \<times> conn) list"

definition NETLIB_INVALID_HANDLE :: handle where "NETLIB_INVALID_HANDLE = -1"

definition cm_insert :: "'k \<Rightarrow> 'v \<Rightarrow> ('k \<times> 'v) list \<Rightarrow> ('k \<times> 'v) list" where
  "cm_insert h c m = (if map_of m h = None then (h, c) # m else m)"

definition cm_erase :: "'k \<Rightarrow> ('k \<times> 'v) list \<Rightarrow> ('k \<times> 'v) list" where
  "cm_erase h m = filter (\<lambda>(k, c). k \<noteq> h) m"

definition cm_ok :: "('k \<times> 'v) list \<Rightarrow> bool" where
  "cm_ok m \<longleftrightarrow> distinct (map fst m)"

text \<open>
  A \<open>std::map\<close> keeps its entries in the order of the keys; \<open>m[k] = v\<close> overwrites.
\<close>

fun om_put :: "'k::linorder \<Rightarrow> 'v \<Rightarrow> ('k \<times> 'v) list \<Rightarrow> ('k \<times> 'v) list" where
  "om_put k v [] = [(k, v)]"
| "om_put k v ((k', v') # m) =
     (if k < k' then (k, v) # (k', v') # m
      else if k = k' then (k, v) # m
      else (k', v') # om_put k v m)"

definition om_ok :: "('k::linorder \<times> 'v) list \<Rightarrow> bool" where
  "om_ok m \<longleftrightarrow> sorted (map fst m) \<and> distinct (map fst m)"

text \<open>
  What the servers rely on: the laws of a finite map, for the two ways of adding an entry.
\<close>

locale finite_map =
  fixes find :: "'m \<Rightarrow> 'k \<Rightarrow> 'v option"
    and erase :: "'k \<Rightarrow> 'm \<Rightarrow> 'm"
    and entries :: "'m \<Rightarrow> ('k \<times> 'v) list"
    and inv :: "'m \<Rightarrow> bool"
  assumes find_erase: "inv m \<Longrightarrow> find (erase k m) = (find m)(k := None)"
    and find_entries: "inv m \<Longrightarrow> find m k = Some v \<longleftrightarrow> (k, v) \<in> set (entries m)"
    and distinct_entries: "inv m \<Longrightarrow> distinct (entries m)"
    and inv_erase: "inv m \<Longrightarrow> inv (erase k m)"
begin

lemma erased_gone: "inv m \<Longrightarrow> (k, v) \<notin> set (entries (erase k m))"
  by (simp add: find_entries [symmetric] find_erase inv_erase)

lemma entries_erase: "inv m \<Longrightarrow> set (entries (erase k m)) = {(k', v) \<in> set (entries m). k' \<noteq> k}"
  by (auto simp: find_entries [symmetric] find_erase inv_erase split: if_splits)

end

locale handle_map = finite_map find erase entries inv
  for find :: "'m \<Rightarrow> 'k \<Rightarrow> 'v option" and erase and entries and inv +
  fixes insert_new :: "'k \<Rightarrow> 'v \<Rightarrow> 'm \<Rightarrow> 'm"
  assumes find_insert: "inv m \<Longrightarrow> find (insert_new k v m) =
      (find m)(k := Some (case find m k of None \<Rightarrow> v | Some w \<Rightarrow> w))"
    and inv_insert: "inv m \<Longrightarrow> inv (insert_new k v m)"
begin

lemma erase_insert_new: "inv m \<Longrightarrow> find m k = None \<Longrightarrow> find (erase k (insert_new k v m)) = find m"
  by (auto simp: find_erase find_insert inv_insert fun_eq_iff)

lemma entries_insert: "inv m \<Longrightarrow> find m k = None \<Longrightarrow>
    set (entries (insert_new k v m)) = insert (k, v) (set (entries m))"
  by (auto simp: find_entries [symmetric] find_insert inv_insert split: if_splits)

end

locale key_map = finite_map find erase entries inv
  for find :: "'m \<Rightarrow> 'k \<Rightarrow> 'v option" and erase and entries and inv +
  fixes put :: "'k \<Rightarrow> 'v \<Rightarrow> 'm \<Rightarrow> 'm"
  assumes find_put: "inv m \<Longrightarrow> find (put k v m) = (find m)(k := Some v)"
    and inv_put: "inv m \<Longrightarrow> inv (put k v m)"
begin

lemma entries_put: "inv m \<Longrightarrow>
    set (entries (put k v m)) = insert (k, v) {(k', w) \<in> set (entries m). k' \<noteq> k}"
  by (auto simp: find_entries [symmetric] find_put inv_put split: if_splits)

lemma put_put: "inv m \<Longrightarrow> find (put k v (put k w m)) = find (put k v m)"
  by (simp add: find_put inv_put)

end

lemma map_of_cm_erase: "map_of (cm_erase k m) = (map_of m)(k := None)"
  by (induction m) (auto simp: cm_erase_def fun_eq_iff)

lemma keys_cm_erase: "map fst (cm_erase k m) = filter (\<lambda>k'. k' \<noteq> k) (map fst m)"
  by (induction m) (auto simp: cm_erase_def)

lemma keys_om_put: "set (map fst (om_put k v m)) = insert k (set (map fst m))"
  by (induction k v m rule: om_put.induct) auto

interpretation cm: handle_map "\<lambda>m. map_of m" cm_erase "\<lambda>m. m" cm_ok cm_insert
proof unfold_locales
  fix m :: "('a \<times> 'b) list" and k v
  assume m: "cm_ok m"
  show "map_of (cm_insert k v m) = (map_of m)(k := Some (case map_of m k of None \<Rightarrow> v | Some w \<Rightarrow> w))"
    by (auto simp: cm_insert_def)
  show "map_of (cm_erase k m) = (map_of m)(k := None)"
    by (rule map_of_cm_erase)
  show "map_of m k = Some v \<longleftrightarrow> (k, v) \<in> set m"
    using m by (simp add: cm_ok_def)
  show "distinct m" using m by (simp add: cm_ok_def distinct_map)
  show "cm_ok (cm_insert k v m)"
    using m by (auto simp: cm_ok_def cm_insert_def map_of_eq_None_iff)
  show "cm_ok (cm_erase k m)"
    using m by (simp add: cm_ok_def keys_cm_erase)
qed

interpretation om: key_map "\<lambda>m. map_of m" cm_erase "\<lambda>m. m" om_ok om_put
proof unfold_locales
  fix m :: "('a::linorder \<times> 'b) list" and k v
  assume m: "om_ok m"
  show "map_of (cm_erase k m) = (map_of m)(k := None)"
    by (rule map_of_cm_erase)
  show "map_of m k = Some v \<longleftrightarrow> (k, v) \<in> set m"
    using m by (simp add: om_ok_def)
  show "distinct m" using m by (simp add: om_ok_def distinct_map)
  show "om_ok (cm_erase k m)"
    using m by (simp add: om_ok_def keys_cm_erase sorted_wrt_filter)
  show "map_of (om_put k v m) = (map_of m)(k := Some v)"
    by (induction k v m rule: om_put.induct) (auto simp: fun_eq_iff)
  show "om_ok (om_put k v m)"
    using m
  proof (induction k v m rule: om_put.induct)
    case (2 k v k' v' m)
    then show ?case using keys_om_put [of k v m] by (force simp: om_ok_def)
  qed (simp add: om_ok_def)
qed

lemma cm_ok_Nil [simp]: "cm_ok []"
  by (simp add: cm_ok_def)

lemma in_cm_erase [simp]: "(k, v) \<in> set (cm_erase h m) \<longleftrightarrow> k \<noteq> h \<and> (k, v) \<in> set m"
  by (auto simp: cm_erase_def)

lemma in_cm_insert: "(k, v) \<in> set (cm_insert h c m) \<Longrightarrow> (k = h \<and> v = c) \<or> (k, v) \<in> set m"
  by (auto simp: cm_insert_def split: if_splits)

end
