(* ===== verification/Byte_Buffer.thy ===== *)
theory Byte_Buffer
  imports TT_Base
begin

text \<open>
  \<open>base/UtilPdu.cpp\<close> and \<open>UtilPdu.h\<close>: the big endian accessors of \<open>CByteStream\<close>, the growing
  buffer \<open>CSimpleBuffer\<close> with its allocation arithmetic at 32 bits, the cursor \<open>CByteStream\<close> over
  a raw buffer or over a growing one, and the base 36 user ids of \<open>idtourl\<close> and \<open>urltoid\<close>.
  Allocation is taken to succeed. The bytes \<open>realloc\<close> leaves in the memory it adds are
  unspecified: the model takes them as the argument \<open>junk\<close>. A copy that leaves the allocated
  memory is the value \<open>None\<close>.
\<close>

subsection \<open>Big endian accessors\<close>

definition ReadUint16 :: "bytes \<Rightarrow> u16" where
  "ReadUint16 buf = ucast (push_bit 8 (ucast (buf ! 0) :: u32) OR ucast (buf ! 1))"

definition ReadUint32 :: "bytes \<Rightarrow> u32" where
  "ReadUint32 buf =
     push_bit 24 (ucast (buf ! 0)) OR push_bit 16 (ucast (buf ! 1))
       OR push_bit 8 (ucast (buf ! 2)) OR ucast (buf ! 3)"

text \<open>The signed readers compute the same bits; \<open>sint\<close> reads them.\<close>

definition ReadInt16 :: "bytes \<Rightarrow> int" where
  "ReadInt16 buf = sint (ReadUint16 buf)"

definition ReadInt32 :: "bytes \<Rightarrow> int" where
  "ReadInt32 buf = sint (ReadUint32 buf)"

definition WriteUint16 :: "bytes \<Rightarrow> u16 \<Rightarrow> bytes" where
  "WriteUint16 buf data = buf[0 := ucast (drop_bit 8 data), 1 := ucast (data AND 0xFF)]"

definition WriteUint32 :: "bytes \<Rightarrow> u32 \<Rightarrow> bytes" where
  "WriteUint32 buf data = buf[0 := ucast (drop_bit 24 data),
     1 := ucast (drop_bit 16 data AND 0xFF), 2 := ucast (drop_bit 8 data AND 0xFF),
     3 := ucast (data AND 0xFF)]"

text \<open>The signed writers shift arithmetically; the word holds the two's complement.\<close>

definition WriteInt16 :: "bytes \<Rightarrow> u16 \<Rightarrow> bytes" where
  "WriteInt16 buf data = buf[0 := ucast (signed_drop_bit 8 data), 1 := ucast (data AND 0xFF)]"

definition WriteInt32 :: "bytes \<Rightarrow> u32 \<Rightarrow> bytes" where
  "WriteInt32 buf data = buf[0 := ucast (signed_drop_bit 24 data),
     1 := ucast (signed_drop_bit 16 data AND 0xFF), 2 := ucast (signed_drop_bit 8 data AND 0xFF),
     3 := ucast (data AND 0xFF)]"

lemma ff_mask: "(0xFF :: 'a::len word) = mask 8"
  by (simp add: mask_eq_exp_minus_1)

lemma join16: "ucast (push_bit 8 (ucast (ucast (drop_bit 8 d) :: u8) :: u32)
    OR ucast (ucast (d AND 0xFF) :: u8)) = (d :: u16)"
  unfolding ff_mask by (rule bit_word_eqI) (auto simp: bit_simps)

lemma join32: "push_bit 24 (ucast (ucast (drop_bit 24 d) :: u8))
    OR push_bit 16 (ucast (ucast (drop_bit 16 d AND 0xFF) :: u8))
    OR push_bit 8 (ucast (ucast (drop_bit 8 d AND 0xFF) :: u8))
    OR ucast (ucast (d AND 0xFF) :: u8) = (d :: u32)" (is "?l = d")
proof (rule bit_word_eqI)
  fix n assume n: "n < LENGTH(32)"
  consider "n < 8" | "8 \<le> n" "n < 16" | "16 \<le> n" "n < 24" | "24 \<le> n"
    by linarith
  then show "bit ?l n = bit d n"
    using n unfolding ff_mask by cases (simp_all add: bit_simps less_diff_conv2)
qed

lemma bit_u8_ge: "8 \<le> n \<Longrightarrow> \<not> bit (a :: u8) n"
  using bit_imp_le_length [of a n] by auto

lemma split16:
  "ucast (drop_bit 8 (ucast (push_bit 8 (ucast a :: u32) OR ucast b) :: u16)) = (a :: u8)"
  "ucast ((ucast (push_bit 8 (ucast a :: u32) OR ucast b) :: u16) AND 0xFF) = (b :: u8)"
  unfolding ff_mask by (rule bit_word_eqI; auto simp: bit_simps bit_u8_ge)+

lemma split32:
  "ucast (drop_bit 24 (push_bit 24 (ucast a) OR push_bit 16 (ucast b)
     OR push_bit 8 (ucast c) OR ucast d :: u32)) = (a :: u8)"
  "ucast (drop_bit 16 (push_bit 24 (ucast a) OR push_bit 16 (ucast b)
     OR push_bit 8 (ucast c) OR ucast d :: u32) AND 0xFF) = (b :: u8)"
  "ucast (drop_bit 8 (push_bit 24 (ucast a) OR push_bit 16 (ucast b)
     OR push_bit 8 (ucast c) OR ucast d :: u32) AND 0xFF) = (c :: u8)"
  "ucast ((push_bit 24 (ucast a) OR push_bit 16 (ucast b)
     OR push_bit 8 (ucast c) OR ucast d :: u32) AND 0xFF) = (d :: u8)"
  unfolding ff_mask by (rule bit_word_eqI; auto simp: bit_simps bit_u8_ge)+

interpretation be16: fixed_codec WriteUint16 ReadUint16 2
proof unfold_locales
  fix buf rest :: bytes and v
  show "length (WriteUint16 buf v) = length buf"
    "drop 2 (WriteUint16 buf v) = drop 2 buf"
    by (simp_all add: WriteUint16_def)
  assume *: "2 \<le> length buf"
  then show "ReadUint16 (WriteUint16 buf v) = v"
    by (elim list_all_ge2) (simp add: ReadUint16_def WriteUint16_def join16)
  show "ReadUint16 (buf @ rest) = ReadUint16 buf"
    using * by (elim list_all_ge2) (simp add: ReadUint16_def)
  show "WriteUint16 buf (ReadUint16 buf) = buf"
    using * by (elim list_all_ge2) (simp add: ReadUint16_def WriteUint16_def split16 del: drop_bit_or)
qed

interpretation be32: fixed_codec WriteUint32 ReadUint32 4
proof unfold_locales
  fix buf rest :: bytes and v
  show "length (WriteUint32 buf v) = length buf"
    "drop 4 (WriteUint32 buf v) = drop 4 buf"
    by (simp_all add: WriteUint32_def)
  assume *: "4 \<le> length buf"
  then show "ReadUint32 (WriteUint32 buf v) = v"
    by (elim list_all_ge4) (simp add: ReadUint32_def WriteUint32_def join32)
  show "ReadUint32 (buf @ rest) = ReadUint32 buf"
    using * by (elim list_all_ge4) (simp add: ReadUint32_def)
  show "WriteUint32 buf (ReadUint32 buf) = buf"
    using * by (elim list_all_ge4) (simp add: ReadUint32_def WriteUint32_def split32 del: drop_bit_or)
qed

text \<open>Arithmetic and logical shifts differ only in bits the writers drop.\<close>

lemma WriteInt16_eq: "WriteInt16 = WriteUint16"
proof -
  have "ucast (signed_drop_bit 8 d) = (ucast (drop_bit 8 d) :: u8)" for d :: u16
    by (rule bit_word_eqI) (auto simp: bit_simps)
  then show ?thesis by (simp add: fun_eq_iff WriteInt16_def WriteUint16_def)
qed

lemma WriteInt32_eq: "WriteInt32 = WriteUint32"
proof -
  have "ucast (signed_drop_bit 24 d) = (ucast (drop_bit 24 d) :: u8)"
    "ucast (signed_drop_bit 16 d AND mask 8) = (ucast (drop_bit 16 d AND mask 8) :: u8)"
    "ucast (signed_drop_bit 8 d AND mask 8) = (ucast (drop_bit 8 d AND mask 8) :: u8)" for d :: u32
    by (rule bit_word_eqI; auto simp: bit_simps)+
  then show ?thesis by (simp only: fun_eq_iff WriteInt32_def WriteUint32_def ff_mask simp_thms)
qed

end
