(* ===== verification/Simple_Buffer.thy ===== *)
theory Simple_Buffer
  imports Byte_Buffer
begin

text \<open>
  \<open>CSimpleBuffer\<close> of \<open>base/UtilPdu.cpp\<close>: the growing buffer under every connection and every
  PDU. Its sizes are 32 bit counters and wrap as in the code. The contract (\<open>byte_queue\<close>) is a
  queue of bytes: \<open>Write\<close> appends, \<open>Read\<close> removes from the front; it holds while the total,
  with the quarter \<open>Extend\<close> adds, stays below 4 GiB, and \<open>Write_Some_iff\<close> says exactly when.
\<close>

record simple_buffer =
  m_buffer :: bytes
  m_alloc_size :: u32
  m_write_offset :: u32

definition CSimpleBuffer :: simple_buffer where
  "CSimpleBuffer = \<lparr>m_buffer = [], m_alloc_size = 0, m_write_offset = 0\<rparr>"

definition realloc :: "(nat \<Rightarrow> u8) \<Rightarrow> bytes \<Rightarrow> nat \<Rightarrow> bytes" where
  "realloc junk old n = map (\<lambda>i. if i < length old then old ! i else junk i) [0..<n]"

definition Extend :: "(nat \<Rightarrow> u8) \<Rightarrow> simple_buffer \<Rightarrow> u32 \<Rightarrow> simple_buffer" where
  "Extend junk b len =
     (let size = m_write_offset b + len;
          size = size + drop_bit 2 size
      in b\<lparr>m_buffer := realloc junk (m_buffer b) (unat size), m_alloc_size := size\<rparr>)"

text \<open>
  \<open>Write(buf, len)\<close>; a null \<open>buf\<close> (\<open>None\<close>) reserves \<open>len\<close> bytes without filling them. The
  returned length is always \<open>len\<close>. \<open>None\<close> is a \<open>memcpy\<close> outside the allocation.
\<close>

definition Write :: "(nat \<Rightarrow> u8) \<Rightarrow> simple_buffer \<Rightarrow> bytes option \<Rightarrow> u32 \<Rightarrow> simple_buffer option" where
  "Write junk b buf len =
     (let b1 = (if m_write_offset b + len > m_alloc_size b then Extend junk b len else b);
          w = unat (m_write_offset b1); n = unat len
      in case buf of
           None \<Rightarrow> Some (b1\<lparr>m_write_offset := m_write_offset b1 + len\<rparr>)
         | Some data \<Rightarrow>
             if n \<le> length data \<and> w + n \<le> length (m_buffer b1)
             then Some (b1\<lparr>m_buffer := take w (m_buffer b1) @ take n data @ drop (w + n) (m_buffer b1),
                           m_write_offset := m_write_offset b1 + len\<rparr>)
             else None)"

text \<open>\<open>Read(buf, len)\<close>: the bytes copied out (dropped for a null \<open>buf\<close>) and the new buffer.\<close>

definition Read :: "simple_buffer \<Rightarrow> u32 \<Rightarrow> bytes \<times> simple_buffer" where
  "Read b len =
     (let len = (if len > m_write_offset b then m_write_offset b else len);
          w = m_write_offset b - len; n = unat len; buf = m_buffer b
      in (take n buf,
          b\<lparr>m_write_offset := w, m_buffer := take (unat w) (drop n buf) @ drop (unat w) buf\<rparr>))"

definition IncWriteOffset :: "simple_buffer \<Rightarrow> u32 \<Rightarrow> simple_buffer" where
  "IncWriteOffset b len = b\<lparr>m_write_offset := m_write_offset b + len\<rparr>"

subsection \<open>The abstract queue\<close>

definition wf_buffer :: "simple_buffer \<Rightarrow> bool" where
  "wf_buffer b \<longleftrightarrow> length (m_buffer b) = unat (m_alloc_size b) \<and> m_write_offset b \<le> m_alloc_size b"

definition contents :: "simple_buffer \<Rightarrow> bytes" where
  "contents b = take (unat (m_write_offset b)) (m_buffer b)"

text \<open>Room for \<open>n\<close> more bytes: the sizes \<open>Extend\<close> computes do not wrap.\<close>

definition room :: "simple_buffer \<Rightarrow> nat \<Rightarrow> bool" where
  "room b n \<longleftrightarrow> (let s = length (contents b) + n in s + s div 4 < 2 ^ 32)"

lemma length_contents [buf_simps]:
  "wf_buffer b \<Longrightarrow> length (contents b) = unat (m_write_offset b)"
  by (simp add: wf_buffer_def contents_def word_le_nat_alt)

lemma wf_CSimpleBuffer [buf_simps]: "wf_buffer CSimpleBuffer"
  and contents_CSimpleBuffer [buf_simps]: "contents CSimpleBuffer = []"
  by (simp_all add: wf_buffer_def contents_def CSimpleBuffer_def)

lemma length_realloc [simp]: "length (realloc junk old n) = n"
  by (simp add: realloc_def)

lemma take_realloc: "m \<le> length old \<Longrightarrow> m \<le> n \<Longrightarrow> take m (realloc junk old n) = take m old"
  by (rule nth_equalityI) (auto simp: realloc_def)

lemma unat_quarter_more:
  fixes s :: u32
  shows "unat (s + drop_bit 2 s) = (unat s + unat s div 4) mod 2 ^ 32"
  by (simp add: unat_word_ariths unat_drop_bit_eq drop_bit_eq_div mod_simps)

lemma unat_extend_size:
  assumes "wf_buffer b" and "room b (unat len)"
  defines "s \<equiv> m_write_offset b + len"
  shows "unat s = unat (m_write_offset b) + unat len"
    and "unat (s + drop_bit 2 s) = unat s + unat s div 4"
proof -
  have lt: "unat (m_write_offset b) + unat len
      + (unat (m_write_offset b) + unat len) div 4 < 2 ^ 32"
    using assms(2) by (simp add: room_def Let_def length_contents [OF assms(1)])
  then show s: "unat s = unat (m_write_offset b) + unat len"
    unfolding s_def by (intro unat_add_no_wrap) simp
  show "unat (s + drop_bit 2 s) = unat s + unat s div 4"
    using lt by (simp add: unat_quarter_more s)
qed

lemma wf_Extend [buf_simps]:
  assumes "wf_buffer b" and "room b (unat len)"
  shows "wf_buffer (Extend junk b len)" "contents (Extend junk b len) = contents b"
    "unat (m_write_offset b) + unat len \<le> length (m_buffer (Extend junk b len))"
    "m_write_offset (Extend junk b len) = m_write_offset b"
  using assms unat_extend_size [OF assms]
  by (auto simp: Extend_def Let_def wf_buffer_def contents_def word_le_nat_alt take_realloc)

text \<open>Both branches of the guard of \<open>Write\<close> leave a buffer with the space.\<close>

lemma grown_buffer:
  fixes junk :: "nat \<Rightarrow> u8"
  assumes "wf_buffer b" and "room b (unat len)"
  defines "b1 \<equiv> (if m_write_offset b + len > m_alloc_size b then Extend junk b len else b)"
  shows "wf_buffer b1" "contents b1 = contents b" "m_write_offset b1 = m_write_offset b"
    "unat (m_write_offset b) + unat len \<le> length (m_buffer b1)"
  using assms(1,2) unat_extend_size(1) [OF assms(1,2)] wf_Extend [OF assms(1,2), of junk]
  by (auto simp: b1_def wf_buffer_def word_le_nat_alt not_less)

theorem Write_appends:
  assumes "wf_buffer b" and "room b (length data)" and "len = of_nat (length data)"
  shows "\<exists>b'. Write junk b (Some data) len = Some b' \<and> wf_buffer b'
    \<and> contents b' = contents b @ data"
proof -
  have n: "unat len = length data"
    using assms(2,3) by (simp add: room_def Let_def)
  define b1 where "b1 = (if m_write_offset b + len > m_alloc_size b then Extend junk b len else b)"
  note g = grown_buffer [OF assms(1), of len junk, unfolded n, folded b1_def, OF assms(2)]
  have s: "unat (m_write_offset b + len) = unat (m_write_offset b) + length data"
    using unat_extend_size(1) [OF assms(1), of len] assms(2) n by simp
  have c: "take (unat (m_write_offset b)) (m_buffer b1) = contents b"
    using g(2,3) by (simp add: contents_def)
  have wf1: "length (m_buffer b1) = unat (m_alloc_size b1)"
    using g(1) by (simp add: wf_buffer_def)
  show ?thesis
    unfolding Write_def Let_def b1_def [symmetric] using g(4) wf1
    by (simp add: n g(3) s wf_buffer_def contents_def [of "_\<lparr>m_write_offset := _\<rparr>"] c
        word_le_nat_alt length_contents [OF assms(1)])
qed

lemma Write_null_reserves:
  assumes "wf_buffer b" and "room b (unat len)"
  shows "\<exists>b'. Write junk b None len = Some b' \<and> wf_buffer b'
    \<and> length (contents b') = length (contents b) + unat len
    \<and> take (length (contents b)) (contents b') = contents b"
proof -
  define b1 where "b1 = (if m_write_offset b + len > m_alloc_size b then Extend junk b len else b)"
  note g = grown_buffer [OF assms, of junk, folded b1_def]
  have s: "unat (m_write_offset b + len) = unat (m_write_offset b) + unat len"
    by (rule unat_extend_size [OF assms])
  have wf1: "length (m_buffer b1) = unat (m_alloc_size b1)"
    using g(1) by (simp add: wf_buffer_def)
  have "wf_buffer (b1\<lparr>m_write_offset := m_write_offset b1 + len\<rparr>)"
    using g wf1 s by (simp add: wf_buffer_def word_le_nat_alt)
  then show ?thesis
    unfolding Write_def Let_def b1_def [symmetric]
    using g s by (simp add: length_contents assms(1)) (simp add: contents_def min_def)
qed

text \<open>
  When a copy fits: the total must fit the allocation there is, or the grown size must not wrap.
\<close>

lemma quarter_wraps:
  fixes s :: nat
  assumes "s < 2 ^ 32"
  shows "s \<le> (s + s div 4) mod 2 ^ 32 \<longleftrightarrow> s + s div 4 < 2 ^ 32"
proof (cases "s + s div 4 < 2 ^ 32")
  case False
  have "s div 4 < 2 ^ 32" using assms div_le_dividend [of s 4] by (rule le_less_trans [rotated])
  with False have "(s + s div 4) mod 2 ^ 32 = s + s div 4 - 2 ^ 32"
    using assms by (simp add: mod_if)
  then show ?thesis using False \<open>s div 4 < 2 ^ 32\<close> by linarith
qed simp

theorem Write_Some_iff:
  assumes "wf_buffer b" and "length data = unat len"
  shows "(\<exists>b'. Write junk b (Some data) len = Some b') \<longleftrightarrow>
    (let s = unat (m_write_offset b) + unat len in
       s \<le> unat (m_alloc_size b) \<or> s + s div 4 < 2 ^ 32)"
proof -
  let ?s = "unat (m_write_offset b) + unat len"
  have len_b: "length (m_buffer b) = unat (m_alloc_size b)"
    using assms(1) by (simp add: wf_buffer_def)
  have alloc_lt: "unat (m_alloc_size b) < 2 ^ 32"
    using unat_u32_lt [of "m_alloc_size b"] by simp
  show ?thesis
  proof (cases "?s < 2 ^ 32")
    case True
    then have s: "unat (m_write_offset b + len) = ?s"
      by (intro unat_add_no_wrap) simp
    have "?s \<le> (?s + ?s div 4) mod 2 ^ 32 \<longleftrightarrow> ?s + ?s div 4 < 2 ^ 32"
      using True by (rule quarter_wraps)
    then show ?thesis
      using s assms(2) len_b
      by (auto simp: Write_def Let_def Extend_def word_less_nat_alt unat_quarter_more)
  next
    case False
    have "length (m_buffer (Extend junk b len)) < 2 ^ 32"
      using unat_u32_lt [of "m_write_offset b + len + drop_bit 2 (m_write_offset b + len)"]
      by (simp add: Extend_def Let_def)
    moreover have "m_write_offset (Extend junk b len) = m_write_offset b"
      by (simp add: Extend_def Let_def)
    ultimately show ?thesis
      using False alloc_lt len_b by (auto simp: Write_def Let_def)
  qed
qed

theorem Read_removes:
  assumes "wf_buffer b"
  shows "fst (Read b len) = take (unat len) (contents b)"
    "contents (snd (Read b len)) = drop (unat len) (contents b)"
    "wf_buffer (snd (Read b len))"
proof -
  have w: "unat (m_write_offset b) \<le> length (m_buffer b)"
    using assms by (simp add: wf_buffer_def word_le_nat_alt)
  have sub: "unat (m_write_offset b - len) = unat (m_write_offset b) - unat len"
    if "len \<le> m_write_offset b" using that by (rule unat_sub)
  show "fst (Read b len) = take (unat len) (contents b)"
    using w by (auto simp: Read_def Let_def contents_def word_less_nat_alt min_def)
  show "contents (snd (Read b len)) = drop (unat len) (contents b)"
    using w sub by (auto simp: Read_def Let_def contents_def word_less_nat_alt not_less
        word_le_nat_alt drop_take)
  show "wf_buffer (snd (Read b len))"
    using w sub assms by (auto simp: Read_def Let_def wf_buffer_def word_less_nat_alt not_less
        word_le_nat_alt)
qed

subsection \<open>The interface\<close>

text \<open>What a connection relies on: bytes come out in the order they went in.\<close>

locale byte_queue =
  fixes inv :: "'q \<Rightarrow> bool"
    and cont :: "'q \<Rightarrow> bytes"
    and fits :: "'q \<Rightarrow> nat \<Rightarrow> bool"
    and push :: "'q \<Rightarrow> bytes \<Rightarrow> 'q option"
    and pop :: "'q \<Rightarrow> nat \<Rightarrow> 'q"
  assumes push_ok: "inv q \<Longrightarrow> fits q (length bs) \<Longrightarrow>
      \<exists>q'. push q bs = Some q' \<and> inv q' \<and> cont q' = cont q @ bs"
    and pop_inv: "inv q \<Longrightarrow> inv (pop q n)"
    and cont_pop: "inv q \<Longrightarrow> n \<le> length (cont q) \<Longrightarrow> cont (pop q n) = drop n (cont q)"
    and fits_def: "fits q n \<longleftrightarrow> (length (cont q) + n) + (length (cont q) + n) div 4 < 2 ^ 32"
begin

lemma push_SomeD:
  assumes "inv q" "fits q (length bs)" "push q bs = Some q'"
  shows "inv q'" "cont q' = cont q @ bs"
  using push_ok [OF assms(1,2)] assms(3) by auto

lemma fits_mono: "fits q n \<Longrightarrow> m \<le> n \<Longrightarrow> fits q m"
  unfolding fits_def using div_le_mono by (meson add_le_mono add_left_mono le_less_trans)

lemma fits_pop:
  assumes "inv q" "n \<le> length (cont q)" "fits q m"
  shows "fits (pop q n) m"
  using assms by (simp add: fits_def cont_pop)

end

text \<open>
  \<open>Write(data, len)\<close> and \<open>Read(NULL, n)\<close>; \<open>n\<close> and \<open>len\<close> are \<open>uint32_t\<close> arguments.
\<close>

definition buffer_push :: "(nat \<Rightarrow> u8) \<Rightarrow> simple_buffer \<Rightarrow> bytes \<Rightarrow> simple_buffer option" where
  "buffer_push junk b data = Write junk b (Some data) (of_nat (length data))"

definition buffer_pop :: "simple_buffer \<Rightarrow> nat \<Rightarrow> simple_buffer" where
  "buffer_pop b n = snd (Read b (of_nat n))"

interpretation sb: byte_queue wf_buffer contents room "buffer_push junk" buffer_pop
  for junk
proof unfold_locales
  fix q n
  fix bs :: bytes
  assume inv: "wf_buffer q"
  show "room q (length bs) \<Longrightarrow>
      \<exists>q'. buffer_push junk q bs = Some q' \<and> wf_buffer q' \<and> contents q' = contents q @ bs"
    unfolding buffer_push_def by (rule Write_appends [OF inv]) simp_all
  show "wf_buffer (buffer_pop q n)"
    unfolding buffer_pop_def by (rule Read_removes [OF inv])
  assume n: "n \<le> length (contents q)"
  then have "unat (of_nat n :: u32) = n"
    using unat_u32_lt [of "m_write_offset q"] length_contents [OF inv] by simp
  then show "contents (buffer_pop q n) = drop n (contents q)"
    unfolding buffer_pop_def by (simp add: Read_removes [OF inv])
qed (simp_all add: room_def Let_def)

end
