(* ===== verification/Byte_Stream.thy ===== *)
theory Byte_Stream
  imports Simple_Buffer
begin

text \<open>
  \<open>CByteStream\<close> of \<open>base/UtilPdu.cpp\<close>: a cursor over a raw buffer (\<open>m_pBuf\<close>, with \<open>m_len\<close>
  bytes) or over a \<open>CSimpleBuffer\<close>, and the exception \<open>CPduException\<close> it throws. A reader
  returns \<open>Inl\<close> the exception; a writer returns \<open>None\<close> where \<open>CSimpleBuffer::Write\<close> leaves its
  allocation. The position is a 32 bit counter and wraps.
\<close>

datatype pdu_exception =
  CPduException (m_service_id: u32) (m_command_id: u32) (m_error_code: u32) (m_error_msg: string)

definition parse_failed :: pdu_exception where
  "parse_failed = CPduException 0 0 1 ''parase packet failed!''"

record byte_stream =
  m_pSimpBuf :: "simple_buffer option"
  m_pBuf :: "bytes option"
  m_len :: u32
  m_pos :: u32

definition stream_of_raw :: "bytes \<Rightarrow> u32 \<Rightarrow> byte_stream" where
  "stream_of_raw buf len = \<lparr>m_pSimpBuf = None, m_pBuf = Some buf, m_len = len, m_pos = 0\<rparr>"

definition stream_of_simple :: "simple_buffer \<Rightarrow> u32 \<Rightarrow> byte_stream" where
  "stream_of_simple b pos = \<lparr>m_pSimpBuf = Some b, m_pBuf = None, m_len = 0, m_pos = pos\<rparr>"

definition Skip :: "byte_stream \<Rightarrow> u32 \<Rightarrow> pdu_exception + byte_stream" where
  "Skip s len = (let pos = m_pos s + len in
     if pos > m_len s then Inl parse_failed else Inr (s\<lparr>m_pos := pos\<rparr>))"

definition ReadByte :: "byte_stream \<Rightarrow> u32 \<Rightarrow> pdu_exception + bytes \<times> byte_stream" where
  "ReadByte s len =
     (if m_pos s + len > m_len s then Inl parse_failed
      else case m_pSimpBuf s of
        Some b \<Rightarrow> (let (out, b') = Read b len
                   in Inr (out, s\<lparr>m_pSimpBuf := Some b', m_pos := m_pos s + len\<rparr>))
      | None \<Rightarrow> Inr (take (unat len) (drop (unat (m_pos s)) (the (m_pBuf s))),
                    s\<lparr>m_pos := m_pos s + len\<rparr>))"

definition WriteByte :: "(nat \<Rightarrow> u8) \<Rightarrow> byte_stream \<Rightarrow> bytes \<Rightarrow> u32 \<Rightarrow> byte_stream option" where
  "WriteByte junk s data len =
     (if m_pBuf s \<noteq> None \<and> m_pos s + len > m_len s then Some s
      else case m_pSimpBuf s of
        Some b \<Rightarrow> map_option (\<lambda>b'. s\<lparr>m_pSimpBuf := Some b', m_pos := m_pos s + len\<rparr>)
                    (Write junk b (Some data) len)
      | None \<Rightarrow> Some (s\<lparr>m_pBuf := map_option (write_at (unat (m_pos s))
                    (\<lambda>xs. take (unat len) data @ drop (unat len) xs)) (m_pBuf s),
                  m_pos := m_pos s + len\<rparr>))"

definition read_u8 :: "byte_stream \<Rightarrow> pdu_exception + u8 \<times> byte_stream" where
  "read_u8 s = (case ReadByte s 1 of Inl e \<Rightarrow> Inl e | Inr (buf, s) \<Rightarrow> Inr (buf ! 0, s))"

definition read_u16 :: "byte_stream \<Rightarrow> pdu_exception + u16 \<times> byte_stream" where
  "read_u16 s = (case ReadByte s 2 of Inl e \<Rightarrow> Inl e | Inr (buf, s) \<Rightarrow> Inr (ReadUint16 buf, s))"

definition read_u32 :: "byte_stream \<Rightarrow> pdu_exception + u32 \<times> byte_stream" where
  "read_u32 s = (case ReadByte s 4 of Inl e \<Rightarrow> Inl e | Inr (buf, s) \<Rightarrow> Inr (ReadUint32 buf, s))"

definition write_u8 :: "(nat \<Rightarrow> u8) \<Rightarrow> byte_stream \<Rightarrow> u8 \<Rightarrow> byte_stream option" where
  "write_u8 junk s data = WriteByte junk s [data] 1"

definition write_u16 :: "(nat \<Rightarrow> u8) \<Rightarrow> byte_stream \<Rightarrow> u16 \<Rightarrow> byte_stream option" where
  "write_u16 junk s data = WriteByte junk s (WriteUint16 [0, 0] data) 2"

definition write_u32 :: "(nat \<Rightarrow> u8) \<Rightarrow> byte_stream \<Rightarrow> u32 \<Rightarrow> byte_stream option" where
  "write_u32 junk s data = WriteByte junk s (WriteUint32 [0, 0, 0, 0] data) 4"

definition WriteData :: "(nat \<Rightarrow> u8) \<Rightarrow> byte_stream \<Rightarrow> bytes \<Rightarrow> u32 \<Rightarrow> byte_stream option" where
  "WriteData junk s data len =
     Option.bind (write_u32 junk s len) (\<lambda>s. WriteByte junk s data len)"

text \<open>
  \<open>ReadData(len)\<close> returns the pointer \<open>GetBuf() + GetPos()\<close> and the length; the model returns
  the position the pointer stands for.
\<close>

definition ReadData :: "byte_stream \<Rightarrow> pdu_exception + (u32 \<times> u32) \<times> byte_stream" where
  "ReadData s = (case read_u32 s of Inl e \<Rightarrow> Inl e
     | Inr (len, s) \<Rightarrow> (case Skip s len of Inl e \<Rightarrow> Inl e
         | Inr s' \<Rightarrow> Inr ((m_pos s, len), s')))"

subsection \<open>Reading a raw buffer\<close>

definition raw_at :: "byte_stream \<Rightarrow> bytes \<Rightarrow> nat \<Rightarrow> bool" where
  "raw_at s buf n \<longleftrightarrow> m_pSimpBuf s = None \<and> m_pBuf s = Some buf \<and> unat (m_len s) \<le> length buf
     \<and> unat (m_pos s) = n"

lemma raw_at_start: "unat len \<le> length buf \<Longrightarrow> raw_at (stream_of_raw buf len) buf 0"
  by (simp add: raw_at_def stream_of_raw_def)

lemma raw_at_step:
  assumes "raw_at s buf n" and "n + unat k \<le> unat (m_len s)"
  shows "ReadByte s k = Inr (take (unat k) (drop n buf), s\<lparr>m_pos := m_pos s + k\<rparr>)"
    and "raw_at (s\<lparr>m_pos := m_pos s + k\<rparr>) buf (n + unat k)"
proof -
  have p: "unat (m_pos s + k) = n + unat k"
    using assms unat_u32_lt [of "m_len s"] unat_add_no_wrap [of "m_pos s" k]
    by (simp add: raw_at_def)
  then show "raw_at (s\<lparr>m_pos := m_pos s + k\<rparr>) buf (n + unat k)"
    using assms by (simp add: raw_at_def)
  show "ReadByte s k = Inr (take (unat k) (drop n buf), s\<lparr>m_pos := m_pos s + k\<rparr>)"
    using assms p by (simp add: ReadByte_def raw_at_def word_less_nat_alt)
qed

lemma read_u16_raw:
  assumes "raw_at s buf n" "n + 2 \<le> unat (m_len s)"
  shows "\<exists>s'. read_u16 s = Inr (ReadUint16 (drop n buf), s') \<and> raw_at s' buf (n + 2)
    \<and> m_len s' = m_len s"
proof -
  have "2 \<le> length (drop n buf)" using assms by (auto simp: raw_at_def)
  then have "ReadUint16 (take 2 (drop n buf)) = ReadUint16 (drop n buf)"
    by (intro be16.get_take) simp_all
  then show ?thesis
    using raw_at_step [OF assms(1), of 2] assms(2) by (simp add: read_u16_def)
qed

lemma read_u32_raw:
  assumes "raw_at s buf n" "n + 4 \<le> unat (m_len s)"
  shows "\<exists>s'. read_u32 s = Inr (ReadUint32 (drop n buf), s') \<and> raw_at s' buf (n + 4)
    \<and> m_len s' = m_len s"
proof -
  have "4 \<le> length (drop n buf)" using assms by (auto simp: raw_at_def)
  then have "ReadUint32 (take 4 (drop n buf)) = ReadUint32 (drop n buf)"
    by (intro be32.get_take) simp_all
  then show ?thesis
    using raw_at_step [OF assms(1), of 4] assms(2) by (simp add: read_u32_def)
qed

lemma read_u16_short:
  "unat (m_len s) < unat (m_pos s) + 2 \<Longrightarrow> unat (m_pos s) + 2 < 2 ^ 32 \<Longrightarrow>
    read_u16 s = Inl parse_failed"
  by (simp add: read_u16_def ReadByte_def word_less_nat_alt unat_add_no_wrap)

subsection \<open>Length prefixed data\<close>

lemma WriteData_appends:
  assumes "wf_buffer b" and "room b (4 + length data)" and "len = of_nat (length data)"
  shows "\<exists>s'. WriteData junk (stream_of_simple b pos) data len = Some s'
    \<and> (\<exists>b'. m_pSimpBuf s' = Some b' \<and> wf_buffer b'
        \<and> contents b' = contents b @ WriteUint32 [0, 0, 0, 0] len @ data)"
proof -
  let ?h = "WriteUint32 [0, 0, 0, 0] len"
  have h4: "length ?h = 4" by (simp add: WriteUint32_def)
  have "room b 4" using assms(2) by (rule sb.fits_mono) simp
  then obtain b1 where b1: "Write junk b (Some ?h) 4 = Some b1" "wf_buffer b1"
      "contents b1 = contents b @ ?h"
    using Write_appends [OF assms(1), of ?h 4 junk] h4 by auto
  have "room b1 (length data)"
    using assms(2) b1(3) h4 by (simp add: room_def Let_def ac_simps)
  then obtain b2 where "Write junk b1 (Some data) len = Some b2" "wf_buffer b2"
      "contents b2 = contents b1 @ data"
    using Write_appends [OF b1(2) _ assms(3), of junk] by auto
  with b1 show ?thesis
    by (simp add: WriteData_def write_u32_def WriteByte_def stream_of_simple_def)
qed

theorem ReadData_WriteData:
  assumes "n = length data" and "n + 4 < 2 ^ 32"
  shows "\<exists>s'. ReadData (stream_of_raw (WriteUint32 [0, 0, 0, 0] (of_nat n) @ data @ rest)
      (of_nat (n + 4))) = Inr ((4, of_nat n), s') \<and> unat (m_pos s') = n + 4"
proof -
  let ?buf = "WriteUint32 [0, 0, 0, 0] (of_nat n) @ data @ rest"
  let ?s = "stream_of_raw ?buf (of_nat (n + 4))"
  have len: "unat (m_len ?s) = n + 4"
    using assms(2) unat_of_nat_32 [of "n + 4"] by (simp add: stream_of_raw_def)
  have four: "length (WriteUint32 [0, 0, 0, 0] (of_nat n)) = 4" by (simp add: WriteUint32_def)
  have "raw_at ?s ?buf 0"
    using assms len four by (intro raw_at_start) (simp add: stream_of_raw_def)
  then obtain s1 where s1: "read_u32 ?s = Inr (ReadUint32 ?buf, s1)" "raw_at s1 ?buf 4"
      "m_len s1 = m_len ?s"
    using read_u32_raw [of ?s ?buf 0] len by auto
  have v: "ReadUint32 ?buf = of_nat n"
    using be32.get_local [of "WriteUint32 [0, 0, 0, 0] (of_nat n)"] four
    by (simp add: be32.get_put)
  have p: "m_pos s1 = 4" using s1(2) by (simp add: raw_at_def word_unat_eq_iff)
  have q: "unat (4 + of_nat n :: u32) = n + 4"
    using assms(2) unat_of_nat_32 [of "n + 4"] by (simp add: add.commute)
  then have "Skip s1 (of_nat n) = Inr (s1\<lparr>m_pos := 4 + of_nat n\<rparr>)"
    using p s1(3) len by (simp add: Skip_def word_less_nat_alt Let_def)
  then show ?thesis
    using s1(1) v p q by (simp add: ReadData_def)
qed

text \<open>
  \<open>Skip\<close> adds before it compares: a length that makes the position wrap is accepted and moves
  the cursor back.
\<close>

lemma Skip_wraps:
  assumes "2 ^ 32 \<le> unat (m_pos s) + unat len"
    and "unat (m_pos s) + unat len - 2 ^ 32 \<le> unat (m_len s)"
  shows "Skip s len = Inr (s\<lparr>m_pos := m_pos s + len\<rparr>)"
proof -
  have "unat (m_pos s + len) = unat (m_pos s) + unat len - 2 ^ 32"
    using assms(1) unat_u32_lt [of "m_pos s"] unat_u32_lt [of len]
    by (simp add: unat_word_ariths mod_if)
  then show ?thesis using assms by (simp add: Skip_def word_less_nat_alt)
qed

text \<open>The stream over a \<open>CSimpleBuffer\<close> has \<open>m_len\<close> zero, so every read of it throws.\<close>

lemma stream_of_simple_unreadable:
  "unat pos + 4 < 2 ^ 32 \<Longrightarrow> read_u32 (stream_of_simple b pos) = Inl parse_failed"
  by (simp add: read_u32_def ReadByte_def stream_of_simple_def word_less_nat_alt unat_add_no_wrap)

end
