(* ===== verification/Pdu.thy ===== *)
theory Pdu
  imports Byte_Stream
begin

text \<open>
  \<open>CImPdu\<close> of \<open>base/ImPduBase.cpp\<close>: the 16 byte header, the buffer it heads, the setters that
  patch the buffer in place, and \<open>ReadPdu\<close>, which cuts one PDU from the front of a receive
  buffer. A protobuf message enters as its serialized bytes. \<open>Undef\<close> is a copy outside an
  allocation; the \<open>length\<close> field the constructor leaves uninitialized is the argument \<open>len0\<close>.
\<close>

datatype ('e, 'a) outcome = Ret 'a | Throw 'e | Undef

definition IM_PDU_HEADER_LEN :: u32 where "IM_PDU_HEADER_LEN = 16"
definition IM_PDU_VERSION :: u16 where "IM_PDU_VERSION = 1"
definition SID_OTHER :: u16 where "SID_OTHER = 7"

record pdu_header =
  ph_length :: u32
  ph_version :: u16
  ph_flag :: u16
  ph_service_id :: u16
  ph_command_id :: u16
  ph_seq_num :: u16
  ph_reversed :: u16

record pdu =
  m_buf :: simple_buffer
  m_pdu_header :: pdu_header

definition CImPdu :: "u32 \<Rightarrow> pdu" where
  "CImPdu len0 = \<lparr>m_buf = CSimpleBuffer,
     m_pdu_header = \<lparr>ph_length = len0, ph_version = IM_PDU_VERSION, ph_flag = 0,
       ph_service_id = SID_OTHER, ph_command_id = 0, ph_seq_num = 0, ph_reversed = 0\<rparr>\<rparr>"

definition GetBuffer :: "pdu \<Rightarrow> bytes" where
  "GetBuffer p = m_buffer (m_buf p)"

definition GetLength :: "pdu \<Rightarrow> u32" where
  "GetLength p = m_write_offset (m_buf p)"

definition GetBodyData :: "pdu \<Rightarrow> bytes" where
  "GetBodyData p = drop 16 (m_buffer (m_buf p))"

definition GetBodyLength :: "pdu \<Rightarrow> u32" where
  "GetBodyLength p = m_write_offset (m_buf p) - 16"

definition put16_at :: "nat \<Rightarrow> u16 \<Rightarrow> bytes \<Rightarrow> bytes" where
  "put16_at n v = write_at n (\<lambda>b. WriteUint16 b v)"

definition patch :: "(bytes \<Rightarrow> bytes) \<Rightarrow> pdu \<Rightarrow> pdu" where
  "patch f p = p\<lparr>m_buf := (m_buf p)\<lparr>m_buffer := f (m_buffer (m_buf p))\<rparr>\<rparr>"

definition WriteHeader :: "pdu \<Rightarrow> pdu" where
  "WriteHeader p = (let h = m_pdu_header p in
     patch (put16_at 14 (ph_reversed h) \<circ> put16_at 12 (ph_seq_num h)
        \<circ> put16_at 10 (ph_command_id h) \<circ> put16_at 8 (ph_service_id h)
        \<circ> put16_at 6 (ph_flag h) \<circ> put16_at 4 (ph_version h)
        \<circ> (\<lambda>b. WriteInt32 b (GetLength p))) p)"

definition SetVersion :: "u16 \<Rightarrow> pdu \<Rightarrow> pdu" where
  "SetVersion v = patch (put16_at 4 v)"
definition SetFlag :: "u16 \<Rightarrow> pdu \<Rightarrow> pdu" where
  "SetFlag v = patch (put16_at 6 v)"
definition SetServiceId :: "u16 \<Rightarrow> pdu \<Rightarrow> pdu" where
  "SetServiceId v = patch (put16_at 8 v)"
definition SetCommandId :: "u16 \<Rightarrow> pdu \<Rightarrow> pdu" where
  "SetCommandId v = patch (put16_at 10 v)"
definition SetError :: "u16 \<Rightarrow> pdu \<Rightarrow> pdu" where
  "SetError v = patch (put16_at 12 v)"
definition SetSeqNum :: "u16 \<Rightarrow> pdu \<Rightarrow> pdu" where
  "SetSeqNum v = patch (put16_at 12 v)"
definition SetReversed :: "u32 \<Rightarrow> pdu \<Rightarrow> pdu" where
  "SetReversed v = patch (put16_at 14 (ucast v))"

text \<open>The seven \<open>>>\<close> reads of \<open>ReadPduHeader\<close>; a read can throw.\<close>

definition read_header :: "byte_stream \<Rightarrow> pdu_exception + pdu_header" where
  "read_header is =
    (case read_u32 is of Inl e \<Rightarrow> Inl e | Inr (len, is) \<Rightarrow>
     (case read_u16 is of Inl e \<Rightarrow> Inl e | Inr (version, is) \<Rightarrow>
     (case read_u16 is of Inl e \<Rightarrow> Inl e | Inr (flag, is) \<Rightarrow>
     (case read_u16 is of Inl e \<Rightarrow> Inl e | Inr (sid, is) \<Rightarrow>
     (case read_u16 is of Inl e \<Rightarrow> Inl e | Inr (cid, is) \<Rightarrow>
     (case read_u16 is of Inl e \<Rightarrow> Inl e | Inr (seq, is) \<Rightarrow>
     (case read_u16 is of Inl e \<Rightarrow> Inl e | Inr (rsv, is) \<Rightarrow>
       Inr \<lparr>ph_length = len, ph_version = version, ph_flag = flag, ph_service_id = sid,
            ph_command_id = cid, ph_seq_num = seq, ph_reversed = rsv\<rparr>)))))))"

definition ReadPduHeader :: "pdu \<Rightarrow> bytes option \<Rightarrow> u32 \<Rightarrow> pdu_exception + int \<times> pdu" where
  "ReadPduHeader p buf len =
     (case buf of
        Some b \<Rightarrow>
          if len \<ge> IM_PDU_HEADER_LEN
          then case read_header (stream_of_raw b len) of
                 Inl e \<Rightarrow> Inl e
               | Inr h \<Rightarrow> Inr (0, p\<lparr>m_pdu_header := h\<rparr>)
          else Inr (-1, p)
      | None \<Rightarrow> Inr (-1, p))"

definition pdu_len_is_0 :: pdu_exception where
  "pdu_len_is_0 = CPduException 0 0 1 ''pdu_len is 0''"

text \<open>\<open>Inr (Some pdu_len)\<close> is \<open>true\<close> with the length set, \<open>Inr None\<close> is \<open>false\<close>.\<close>

definition IsPduAvailable :: "bytes \<Rightarrow> u32 \<Rightarrow> pdu_exception + u32 option" where
  "IsPduAvailable buf len =
     (if len < IM_PDU_HEADER_LEN then Inr None
      else let pdu_len = ReadUint32 buf
           in if pdu_len > len then Inr None
              else if pdu_len = 0 then Inl pdu_len_is_0
              else Inr (Some pdu_len))"

definition ReadPdu :: "(nat \<Rightarrow> u8) \<Rightarrow> u32 \<Rightarrow> bytes \<Rightarrow> u32 \<Rightarrow> (pdu_exception, pdu option) outcome" where
  "ReadPdu junk len0 buf len =
     (case IsPduAvailable buf len of
        Inl e \<Rightarrow> Throw e
      | Inr None \<Rightarrow> Ret None
      | Inr (Some pdu_len) \<Rightarrow>
          (let p = CImPdu len0 in
           case Write junk (m_buf p) (Some buf) pdu_len of
             None \<Rightarrow> Undef
           | Some b \<Rightarrow>
               (case ReadPduHeader (p\<lparr>m_buf := b\<rparr>) (Some buf) IM_PDU_HEADER_LEN of
                  Inl e \<Rightarrow> Throw e
                | Inr (_, p) \<Rightarrow> Ret (Some p))))"

text \<open>\<open>SetPBMsg\<close>: the message is its serialized bytes. \<open>None\<close> is a copy out of bounds.\<close>

definition SetPBMsg :: "(nat \<Rightarrow> u8) \<Rightarrow> bytes \<Rightarrow> pdu \<Rightarrow> pdu option" where
  "SetPBMsg junk msg p =
     (let b = snd (Read (m_buf p) (m_write_offset (m_buf p))) in
      Option.bind (Write junk b None 16) (\<lambda>b.
      Option.bind (Write junk b (Some msg) (of_nat (length msg))) (\<lambda>b.
      Some (WriteHeader (p\<lparr>m_buf := b\<rparr>)))))"

subsection \<open>The bytes on the wire\<close>

definition be16 :: "u16 \<Rightarrow> bytes" where "be16 v = WriteUint16 [0, 0] v"
definition be32 :: "u32 \<Rightarrow> bytes" where "be32 v = WriteUint32 [0, 0, 0, 0] v"

lemma length_be [simp]: "length (be16 v) = 2" "length (be32 w) = 4"
  by (simp_all add: be16_def be32_def be16.length_put be32.length_put)

lemma ReadUint_be [simp]: "ReadUint16 (be16 v @ r) = v" "ReadUint32 (be32 w @ r) = w"
  by (simp_all add: be16_def be32_def be16.get_local be32.get_local be16.get_put be32.get_put
      be16.length_put be32.length_put)

definition encode_header :: "pdu_header \<Rightarrow> bytes" where
  "encode_header h = be32 (ph_length h) @ be16 (ph_version h) @ be16 (ph_flag h)
     @ be16 (ph_service_id h) @ be16 (ph_command_id h) @ be16 (ph_seq_num h) @ be16 (ph_reversed h)"

lemma length_encode_header [simp]: "length (encode_header h) = 16"
  by (simp add: encode_header_def)

lemma put16_at_append:
  assumes "length xs = n"
  shows "put16_at n v (xs @ be16 w @ ys) = xs @ be16 v @ ys"
  using assms by (simp add: put16_at_def write_at_def be16_def WriteUint16_def)

lemma put16_at_encode:
  "put16_at 4 v (encode_header h @ ys) = encode_header (h\<lparr>ph_version := v\<rparr>) @ ys"
  "put16_at 6 v (encode_header h @ ys) = encode_header (h\<lparr>ph_flag := v\<rparr>) @ ys"
  "put16_at 8 v (encode_header h @ ys) = encode_header (h\<lparr>ph_service_id := v\<rparr>) @ ys"
  "put16_at 10 v (encode_header h @ ys) = encode_header (h\<lparr>ph_command_id := v\<rparr>) @ ys"
  "put16_at 12 v (encode_header h @ ys) = encode_header (h\<lparr>ph_seq_num := v\<rparr>) @ ys"
  "put16_at 14 v (encode_header h @ ys) = encode_header (h\<lparr>ph_reversed := v\<rparr>) @ ys"
  unfolding encode_header_def
  using put16_at_append [of "be32 (ph_length h)" 4]
    put16_at_append [of "be32 (ph_length h) @ be16 (ph_version h)" 6]
    put16_at_append [of "be32 (ph_length h) @ be16 (ph_version h) @ be16 (ph_flag h)" 8]
    put16_at_append [of "be32 (ph_length h) @ be16 (ph_version h) @ be16 (ph_flag h)
      @ be16 (ph_service_id h)" 10]
    put16_at_append [of "be32 (ph_length h) @ be16 (ph_version h) @ be16 (ph_flag h)
      @ be16 (ph_service_id h) @ be16 (ph_command_id h)" 12]
    put16_at_append [of "be32 (ph_length h) @ be16 (ph_version h) @ be16 (ph_flag h)
      @ be16 (ph_service_id h) @ be16 (ph_command_id h) @ be16 (ph_seq_num h)" 14]
  by simp_all

lemma WriteInt32_encode:
  "WriteInt32 (encode_header h @ ys) v = encode_header (h\<lparr>ph_length := v\<rparr>) @ ys"
  by (simp add: WriteInt32_eq encode_header_def be32_def WriteUint32_def)

text \<open>Any 16 bytes are the encoding of some header.\<close>

lemma encode_surj:
  assumes "length bs = 16"
  shows "\<exists>h. bs = encode_header h"
proof -
  have two: "be16 (ReadUint16 bs) = bs" if "length bs = 2" for bs
    using that be16.put_get [of bs]
    by (auto simp: be16_def WriteUint16_def numeral_eq_Suc length_Suc_conv)
  have four: "be32 (ReadUint32 bs) = bs" if "length bs = 4" for bs
    using that be32.put_get [of bs]
    by (auto simp: be32_def WriteUint32_def numeral_eq_Suc length_Suc_conv)
  let ?f = "\<lambda>n. ReadUint16 (take 2 (drop n bs))"
  have f: "be16 (?f n) @ drop (n + 2) bs = drop n bs" if "n + 2 \<le> 16" for n
    using that assms two [of "take 2 (drop n bs)"]
    by (metis add.commute append_take_drop_id drop_drop length_drop length_take
        le_add_diff_inverse min.absorb2 add_leD2 add_le_imp_le_diff)
  have "bs = be32 (ReadUint32 (take 4 bs)) @ drop 4 bs"
    using four [of "take 4 bs"] assms by simp
  then have "bs = encode_header \<lparr>ph_length = ReadUint32 (take 4 bs), ph_version = ?f 4,
      ph_flag = ?f 6, ph_service_id = ?f 8, ph_command_id = ?f 10, ph_seq_num = ?f 12,
      ph_reversed = ?f 14\<rparr>"
    using f [of 4] f [of 6] f [of 8] f [of 10] f [of 12] f [of 14] assms
    by (simp add: encode_header_def)
  then show ?thesis ..
qed


subsection \<open>Reading and writing headers\<close>

lemma read_header_encode:
  assumes "unat len \<le> 16 + length r" and "16 \<le> unat len"
  shows "read_header (stream_of_raw (encode_header h @ r) len) = Inr h"
proof -
  let ?b = "encode_header h @ r"
  have len: "m_len (stream_of_raw ?b len) = len" by (simp add: stream_of_raw_def)
  have "raw_at (stream_of_raw ?b len) ?b 0" using assms by (intro raw_at_start) simp
  then obtain s0 where s0: "read_u32 (stream_of_raw ?b len) = Inr (ph_length h, s0)"
      "raw_at s0 ?b 4" "m_len s0 = len"
    using read_u32_raw [of _ ?b 0] assms len by (fastforce simp: encode_header_def)
  obtain s1 where s1: "read_u16 s0 = Inr (ph_version h, s1)" "raw_at s1 ?b 6" "m_len s1 = len"
    using read_u16_raw [OF s0(2)] s0(3) assms by (fastforce simp: encode_header_def)
  obtain s2 where s2: "read_u16 s1 = Inr (ph_flag h, s2)" "raw_at s2 ?b 8" "m_len s2 = len"
    using read_u16_raw [OF s1(2)] s1(3) assms by (fastforce simp: encode_header_def)
  obtain s3 where s3: "read_u16 s2 = Inr (ph_service_id h, s3)" "raw_at s3 ?b 10" "m_len s3 = len"
    using read_u16_raw [OF s2(2)] s2(3) assms by (fastforce simp: encode_header_def)
  obtain s4 where s4: "read_u16 s3 = Inr (ph_command_id h, s4)" "raw_at s4 ?b 12" "m_len s4 = len"
    using read_u16_raw [OF s3(2)] s3(3) assms by (fastforce simp: encode_header_def)
  obtain s5 where s5: "read_u16 s4 = Inr (ph_seq_num h, s5)" "raw_at s5 ?b 14" "m_len s5 = len"
    using read_u16_raw [OF s4(2)] s4(3) assms by (fastforce simp: encode_header_def)
  obtain s6 where s6: "read_u16 s5 = Inr (ph_reversed h, s6)"
    using read_u16_raw [OF s5(2)] s5(3) assms by (fastforce simp: encode_header_def)
  show ?thesis using s0 s1 s2 s3 s4 s5 s6 by (simp add: read_header_def)
qed

text \<open>\<open>ReadPdu\<close> by cases on the length field of the 16 header bytes.\<close>

lemma ReadPdu_short: "len < 16 \<Longrightarrow> ReadPdu junk len0 buf len = Ret None"
  by (simp add: ReadPdu_def IsPduAvailable_def IM_PDU_HEADER_LEN_def)

lemma ReadPdu_header:
  assumes "buf = encode_header h @ r" and "16 \<le> len" and "unat len \<le> length buf"
  shows "ph_length h > len \<Longrightarrow> ReadPdu junk len0 buf len = Ret None"
    and "ph_length h = 0 \<Longrightarrow> ReadPdu junk len0 buf len = Throw pdu_len_is_0"
  using assms
  by (simp_all add: ReadPdu_def IsPduAvailable_def IM_PDU_HEADER_LEN_def encode_header_def
      Let_def not_less)

lemma ReadPdu_Got:
  assumes buf: "buf = encode_header h @ r" and "16 \<le> len" and "unat len \<le> length buf"
    and "ph_length h \<le> len" and "ph_length h \<noteq> 0"
    and fits: "unat (ph_length h) + unat (ph_length h) div 4 < 2 ^ 32"
  shows "\<exists>p. ReadPdu junk len0 buf len = Ret (Some p) \<and> m_pdu_header p = h
    \<and> wf_buffer (m_buf p) \<and> contents (m_buf p) = take (unat (ph_length h)) buf"
proof -
  let ?n = "unat (ph_length h)" and ?data = "take (unat (ph_length h)) buf"
  have n: "?n \<le> length buf" using assms by (simp add: word_le_nat_alt)
  have "room CSimpleBuffer (length ?data)"
    using fits n by (simp add: room_def Let_def buf_simps min_absorb2)
  then obtain b where b: "Write junk CSimpleBuffer (Some ?data) (ph_length h) = Some b"
      "wf_buffer b" "contents b = ?data"
    using Write_appends [OF wf_CSimpleBuffer, of ?data "ph_length h" junk] n
    by (auto simp: buf_simps min_absorb2)
  have "Write junk CSimpleBuffer (Some buf) (ph_length h)
      = Write junk CSimpleBuffer (Some ?data) (ph_length h)"
    using n by (simp add: Write_def Let_def min_absorb2)
  moreover have "IsPduAvailable buf len = Inr (Some (ph_length h))"
    using assms by (simp add: IsPduAvailable_def IM_PDU_HEADER_LEN_def encode_header_def
      Let_def not_less)
  moreover have "read_header (stream_of_raw buf 16) = Inr h"
    unfolding buf by (rule read_header_encode) simp_all
  ultimately show ?thesis
    using b by (simp add: ReadPdu_def Let_def CImPdu_def ReadPduHeader_def IM_PDU_HEADER_LEN_def)
qed

text \<open>\<open>SetPBMsg\<close> leaves the encoded header followed by the message.\<close>

lemma SetPBMsg_contents:
  assumes "wf_buffer (m_buf p)"
    and "(16 + length msg) + (16 + length msg) div 4 < 2 ^ 32"
  shows "\<exists>p' r. SetPBMsg junk msg p = Some p' \<and> wf_buffer (m_buf p')
    \<and> m_buffer (m_buf p') = encode_header ((m_pdu_header p)\<lparr>ph_length := of_nat (16 + length msg)\<rparr>)
        @ msg @ r
    \<and> unat (m_write_offset (m_buf p')) = 16 + length msg"
proof -
  define b0 where "b0 = snd (Read (m_buf p) (m_write_offset (m_buf p)))"
  have b0: "wf_buffer b0" "contents b0 = []"
    unfolding b0_def using Read_removes [OF assms(1)] length_contents [OF assms(1)] by simp_all
  have "room b0 (16 + length msg)" using assms(2) b0 by (simp add: room_def Let_def)
  then have "room b0 (unat (16 :: u32))" by (rule sb.fits_mono) simp
  then obtain b1 where b1: "Write junk b0 None 16 = Some b1" "wf_buffer b1"
      "length (contents b1) = 16"
    using Write_null_reserves [OF b0(1), of 16 junk] b0(2) by auto
  have "room b1 (length msg)" using assms(2) b1(3) by (simp add: room_def Let_def)
  then obtain b2 where b2: "Write junk b1 (Some msg) (of_nat (length msg)) = Some b2"
      "wf_buffer b2" "contents b2 = contents b1 @ msg"
    using Write_appends [OF b1(2), of msg _ junk] by auto
  obtain h where h: "contents b1 = encode_header h" using encode_surj b1(3) by blast
  have w: "unat (m_write_offset b2) = 16 + length msg"
    using length_contents [OF b2(2)] b2(3) b1(3) by simp
  have m: "m_buffer b2 = encode_header h @ msg @ drop (16 + length msg) (m_buffer b2)"
    using b2(3) h w append_take_drop_id [of "16 + length msg" "m_buffer b2"]
    by (simp add: contents_def)
  have wo: "m_write_offset b2 = of_nat (16 + length msg)"
    using w assms(2) by (simp add: word_unat_eq_iff del: of_nat_add)
  obtain x where x: "m_buffer b2 = encode_header h @ msg @ x" using m by blast
  let ?q = "WriteHeader (p\<lparr>m_buf := b2\<rparr>)"
  have q: "m_buffer (m_buf ?q)
      = encode_header ((m_pdu_header p)\<lparr>ph_length := of_nat (16 + length msg)\<rparr>) @ msg @ x"
    by (simp add: WriteHeader_def patch_def Let_def x WriteInt32_encode put16_at_encode
        GetLength_def wo) (simp add: encode_header_def)
  have "m_write_offset (m_buf ?q) = m_write_offset b2"
    "m_alloc_size (m_buf ?q) = m_alloc_size b2"
    by (simp_all add: WriteHeader_def patch_def Let_def)
  moreover from this have "wf_buffer (m_buf ?q)"
    using b2(2) arg_cong [OF x, of length] arg_cong [OF q, of length]
    by (simp add: wf_buffer_def)
  moreover have "SetPBMsg junk msg p = Some ?q"
    by (simp add: SetPBMsg_def Let_def b0_def [symmetric] b1(1) b2(1))
  ultimately show ?thesis using q w by auto
qed

text \<open>
  C11: what one server sends, the next one reads. A PDU built with \<open>SetPBMsg\<close> and addressed with
  \<open>SetServiceId\<close>, \<open>SetCommandId\<close> and \<open>SetSeqNum\<close>, put on the wire and followed by any bytes of
  the next PDUs, is cut out by \<open>ReadPdu\<close> with the same service, command and sequence number and
  with exactly the message as its body.
\<close>

theorem ReadPdu_roundtrip:
  assumes "length msg + 16 + length rest < 3 * 2 ^ 30"
  shows "\<exists>p q wire. SetPBMsg junk msg (CImPdu len0) = Some p
    \<and> wire = contents (m_buf (SetSeqNum seq (SetCommandId cid (SetServiceId sid p))))
    \<and> length wire = 16 + length msg
    \<and> ReadPdu junk' len1 (wire @ rest) (of_nat (length (wire @ rest))) = Ret (Some q)
    \<and> ph_service_id (m_pdu_header q) = sid \<and> ph_command_id (m_pdu_header q) = cid
    \<and> ph_seq_num (m_pdu_header q) = seq \<and> ph_version (m_pdu_header q) = IM_PDU_VERSION
    \<and> unat (GetLength q) = length wire
    \<and> take (unat (GetBodyLength q)) (GetBodyData q) = msg"
proof -
  let ?n = "16 + length msg"
  have wf0: "wf_buffer (m_buf (CImPdu len0))" by (simp add: CImPdu_def buf_simps)
  obtain p r where p: "SetPBMsg junk msg (CImPdu len0) = Some p" "wf_buffer (m_buf p)"
      "m_buffer (m_buf p) = encode_header ((m_pdu_header (CImPdu len0))\<lparr>ph_length := of_nat ?n\<rparr>)
        @ msg @ r"
      "unat (m_write_offset (m_buf p)) = ?n"
    using SetPBMsg_contents [OF wf0 quarter_fits, of msg junk] assms by auto
  define h where "h = (m_pdu_header (CImPdu len0))\<lparr>ph_length := of_nat ?n, ph_service_id := sid,
    ph_command_id := cid, ph_seq_num := seq\<rparr>"
  define wire where "wire = contents (m_buf (SetSeqNum seq (SetCommandId cid (SetServiceId sid p))))"
  have wire: "wire = encode_header h @ msg"
    using p(3,4) by (simp add: wire_def h_def contents_def SetSeqNum_def SetCommandId_def
        SetServiceId_def patch_def put16_at_encode)
  have len: "unat (of_nat (length (wire @ rest)) :: u32) = length (wire @ rest)"
    using assms by (intro unat_of_nat_32) (simp add: wire)
  have hl: "unat (ph_length h) = ?n"
    using assms unat_of_nat_32 [of ?n] by (simp add: h_def)
  obtain q where q: "ReadPdu junk' len1 (wire @ rest) (of_nat (length (wire @ rest)))
      = Ret (Some q)" "m_pdu_header q = h" "wf_buffer (m_buf q)"
      "contents (m_buf q) = take ?n (wire @ rest)"
    using ReadPdu_Got [of "wire @ rest" h "msg @ rest" "of_nat (length (wire @ rest))" junk' len1]
      assms len hl wire by (fastforce simp: word_le_nat_alt h_def)
  have c: "contents (m_buf q) = wire" using q(4) by (simp add: wire)
  then have w: "unat (m_write_offset (m_buf q)) = ?n"
    using length_contents [OF q(3)] by (simp add: wire)
  then have "unat (GetBodyLength q) = length msg"
    by (simp add: GetBodyLength_def unat_sub word_le_nat_alt)
  moreover have "take (length msg) (drop 16 (m_buffer (m_buf q))) = drop 16 (contents (m_buf q))"
    using w by (simp add: contents_def drop_take)
  ultimately have "take (unat (GetBodyLength q)) (GetBodyData q) = msg"
    using c by (simp add: GetBodyData_def wire)
  then show ?thesis
    using p(1) q(1) w
    by (intro exI [of _ p] exI [of _ q] exI [of _ wire] conjI)
      (simp_all only: wire_def [symmetric], simp_all add: wire q(2) h_def GetLength_def CImPdu_def)
qed

theorem ReadPdu_roundtrip_witness:
  "\<exists>p q wire. SetPBMsg (\<lambda>_. 0) [1, 2, 3] (CImPdu 0) = Some p
    \<and> wire = contents (m_buf (SetSeqNum 7 (SetCommandId 0x301 (SetServiceId 3 p))))
    \<and> length wire = 16 + length [1, 2, 3 :: u8]
    \<and> ReadPdu (\<lambda>_. 0) 0 (wire @ [9]) (of_nat (length (wire @ [9]))) = Ret (Some q)
    \<and> ph_service_id (m_pdu_header q) = 3 \<and> ph_command_id (m_pdu_header q) = 0x301
    \<and> ph_seq_num (m_pdu_header q) = 7 \<and> ph_version (m_pdu_header q) = IM_PDU_VERSION
    \<and> unat (GetLength q) = length wire
    \<and> take (unat (GetBodyLength q)) (GetBodyData q) = [1, 2, 3]"
  by (rule ReadPdu_roundtrip) simp

text \<open>
  A length field from 1 to 15 is accepted although it is shorter than the header; the PDU it
  yields reports a body length that has wrapped below zero, near 4 GiB.
\<close>

lemma ReadPdu_short_length_wraps:
  assumes "buf = encode_header h @ r" and "length buf < 2 ^ 32"
    and "0 < ph_length h" and "ph_length h < 16"
  shows "\<exists>p. ReadPdu junk len0 buf (of_nat (length buf)) = Ret (Some p)
    \<and> unat (GetBodyLength p) = 2 ^ 32 - (16 - unat (ph_length h))"
proof -
  have len: "unat (of_nat (length buf) :: u32) = length buf"
    using assms(2) by (rule unat_of_nat_32)
  have small: "unat (ph_length h) < 16" using assms(4) by (simp add: word_less_nat_alt)
  obtain p where p: "ReadPdu junk len0 buf (of_nat (length buf)) = Ret (Some p)"
      "wf_buffer (m_buf p)" "contents (m_buf p) = take (unat (ph_length h)) buf"
    using ReadPdu_Got [OF assms(1), of "of_nat (length buf)" junk len0] assms(1,3) small len
    by (fastforce simp: word_le_nat_alt word_less_nat_alt)
  have w: "unat (m_write_offset (m_buf p)) = unat (ph_length h)"
    using length_contents [OF p(2)] p(3) small assms(1) by simp
  have "unat (GetBodyLength p) = 2 ^ 32 - (16 - unat (ph_length h))"
    using w small by (simp add: GetBodyLength_def unat_sub_if_size word_size)
  with p(1) show ?thesis by auto
qed

definition short_header :: pdu_header where
  "short_header = \<lparr>ph_length = 4, ph_version = 1, ph_flag = 0, ph_service_id = 7,
     ph_command_id = 0x701, ph_seq_num = 0, ph_reversed = 0\<rparr>"

theorem ReadPdu_short_length_wraps_witness:
  "\<exists>p. ReadPdu (\<lambda>_. 0) 0 (encode_header short_header @ [])
      (of_nat (length (encode_header short_header @ []))) = Ret (Some p)
    \<and> unat (GetBodyLength p) = 2 ^ 32 - (16 - unat (ph_length short_header))"
  by (rule ReadPdu_short_length_wraps [OF refl])
    (simp_all only: length_append length_encode_header list.size, simp_all add: short_header_def)

end
