(* ===== verification/Framing.thy ===== *)
theory Framing
  imports Pdu
begin

text \<open>
  The contract between a byte stream and the code that cuts messages from it. \<open>rd buf\<close> looks
  at the received bytes and needs more, rejects the stream, or yields a message and the number
  of bytes it used; \<open>cut_all\<close> is the receive loop. The laws make the loop independent of how the
  network splits the stream. \<open>ReadPdu\<close> implements the contract below 3 GiB of buffered bytes.
\<close>

datatype 'f reading = Need | Reject | Got 'f nat

function cut_all :: "('b list \<Rightarrow> 'f reading) \<Rightarrow> 'b list \<Rightarrow> 'f list \<times> 'b list option" where
  "cut_all rd buf =
     (case rd buf of
        Need \<Rightarrow> ([], Some buf)
      | Reject \<Rightarrow> ([], None)
      | Got f n \<Rightarrow>
          if 0 < n \<and> n \<le> length buf
          then (let (fs, r) = cut_all rd (drop n buf) in (f # fs, r))
          else ([f], None))"
  by pat_completeness auto
termination
  by (relation "measure (\<lambda>(rd, buf). length buf)") auto

declare cut_all.simps [simp del]

locale frame_reader =
  fixes rd :: "'b list \<Rightarrow> 'f reading"
    and small :: "nat \<Rightarrow> bool"
  assumes small_le: "small n \<Longrightarrow> m \<le> n \<Longrightarrow> small m"
    and got_bounds: "small (length buf) \<Longrightarrow> rd buf = Got f n \<Longrightarrow> 0 < n \<and> n \<le> length buf"
    and got_extend: "small (length (buf @ ext)) \<Longrightarrow> rd buf = Got f n \<Longrightarrow> rd (buf @ ext) = Got f n"
    and reject_extend: "small (length (buf @ ext)) \<Longrightarrow> rd buf = Reject \<Longrightarrow> rd (buf @ ext) = Reject"
begin

lemma cut_all_Got:
  assumes "small (length buf)" "rd buf = Got f n"
  shows "cut_all rd buf = (let (fs, r) = cut_all rd (drop n buf) in (f # fs, r))"
  using got_bounds [OF assms] assms(2) by (subst cut_all.simps) simp

lemma cut_all_stop:
  "rd buf = Need \<Longrightarrow> cut_all rd buf = ([], Some buf)"
  "rd buf = Reject \<Longrightarrow> cut_all rd buf = ([], None)"
  by (subst cut_all.simps, simp)+

text \<open>Bytes that arrive later only add messages after the ones already cut.\<close>

lemma cut_all_append:
  assumes "small (length (buf @ ext))"
  shows "cut_all rd (buf @ ext) =
    (case cut_all rd buf of (fs, None) \<Rightarrow> (fs, None)
     | (fs, Some r) \<Rightarrow> (let (gs, r') = cut_all rd (r @ ext) in (fs @ gs, r')))"
  using assms
proof (induction "length buf" arbitrary: buf rule: less_induct)
  case less
  have small: "small (length buf)" using less.prems by (rule small_le) simp
  show ?case
  proof (cases "rd buf")
    case Need
    then show ?thesis by (simp add: cut_all_stop split: prod.split)
  next
    case Reject
    then show ?thesis using reject_extend [OF less.prems] by (simp add: cut_all_stop)
  next
    case (Got f n)
    have n: "0 < n" "n \<le> length buf" using got_bounds [OF small Got] by auto
    have "small (length (drop n buf @ ext))" using less.prems by (rule small_le) simp
    then have IH: "cut_all rd (drop n buf @ ext) =
      (case cut_all rd (drop n buf) of (fs, None) \<Rightarrow> (fs, None)
       | (fs, Some r) \<Rightarrow> (let (gs, r') = cut_all rd (r @ ext) in (fs @ gs, r')))"
      using n by (intro less.hyps) simp_all
    have "cut_all rd (buf @ ext) = (let (fs, r) = cut_all rd (drop n buf @ ext) in (f # fs, r))"
      using cut_all_Got [OF less.prems got_extend [OF less.prems Got]] n by simp
    then show ?thesis
      by (simp add: IH cut_all_Got [OF small Got] split: prod.splits option.splits)
  qed
qed

end

text \<open>The receive loop over chunks as they arrive: messages so far, and the bytes kept.\<close>

fun cut_chunks :: "('b list \<Rightarrow> 'f reading) \<Rightarrow> 'b list \<Rightarrow> 'b list list \<Rightarrow> 'f list \<times> 'b list option" where
  "cut_chunks rd kept [] = ([], Some kept)"
| "cut_chunks rd kept (c # cs) =
     (case cut_all rd (kept @ c) of
        (fs, None) \<Rightarrow> (fs, None)
      | (fs, Some r) \<Rightarrow> (let (gs, r') = cut_chunks rd r cs in (fs @ gs, r')))"

context frame_reader
begin

lemma cut_all_rest_le: "cut_all rd buf = (fs, Some r) \<Longrightarrow> small (length buf) \<Longrightarrow> length r \<le> length buf"
proof (induction "length buf" arbitrary: buf fs rule: less_induct)
  case less
  show ?case
  proof (cases "rd buf")
    case (Got f n)
    have n: "0 < n" "n \<le> length buf" using got_bounds [OF less.prems(2) Got] by auto
    obtain gs where gs: "cut_all rd (drop n buf) = (gs, Some r)"
      using less.prems(1) by (auto simp: cut_all_Got [OF less.prems(2) Got] split: prod.splits)
    have "length r \<le> length (drop n buf)"
      using n less.prems(2) by (intro less.hyps [OF _ gs]) (auto intro: small_le)
    then show ?thesis by simp
  qed (use less.prems in \<open>auto simp: cut_all_stop\<close>)
qed

lemma cut_all_stable:
  "cut_all rd buf = (fs, Some r) \<Longrightarrow> small (length buf) \<Longrightarrow> cut_all rd r = ([], Some r)"
proof (induction "length buf" arbitrary: buf fs rule: less_induct)
  case less
  show ?case
  proof (cases "rd buf")
    case (Got f n)
    have n: "0 < n" "n \<le> length buf" using got_bounds [OF less.prems(2) Got] by auto
    obtain gs where gs: "cut_all rd (drop n buf) = (gs, Some r)"
      using less.prems(1) by (auto simp: cut_all_Got [OF less.prems(2) Got] split: prod.splits)
    show ?thesis
      using n less.prems(2) by (intro less.hyps [OF _ gs]) (auto intro: small_le)
  qed (use less.prems in \<open>auto simp: cut_all_stop\<close>)
qed

text \<open>However the stream is split into chunks, the same messages are cut, up to a rejection.\<close>

lemma cut_chunks_concat:
  assumes "small (length (kept @ concat cs))" and "cut_all rd kept = ([], Some kept)"
  shows "cut_chunks rd kept cs = cut_all rd (kept @ concat cs)"
  using assms
proof (induction cs arbitrary: kept)
  case Nil
  then show ?case by simp
next
  case (Cons c cs)
  have small: "small (length (kept @ c))" using Cons.prems(1) by (rule small_le) simp
  have app: "cut_all rd ((kept @ c) @ concat cs) =
    (case cut_all rd (kept @ c) of (fs, None) \<Rightarrow> (fs, None)
     | (fs, Some r) \<Rightarrow> (let (gs, r') = cut_all rd (r @ concat cs) in (fs @ gs, r')))"
    using Cons.prems(1) by (intro cut_all_append) simp
  show ?case
  proof (cases "cut_all rd (kept @ c)")
    case (Pair fs r)
    show ?thesis
    proof (cases r)
      case None
      then show ?thesis using app Pair by simp
    next
      case (Some r')
      have "length r' \<le> length (kept @ c)"
        using cut_all_rest_le [of "kept @ c" fs r'] Pair Some small by simp
      then have "small (length (r' @ concat cs))"
        by (intro small_le [OF Cons.prems(1)]) simp
      moreover have "cut_all rd r' = ([], Some r')"
        using cut_all_stable [of "kept @ c" fs r'] Pair Some small by simp
      ultimately have "cut_chunks rd r' cs = cut_all rd (r' @ concat cs)"
        by (rule Cons.IH)
      then show ?thesis using app Pair Some by simp
    qed
  qed
qed

end

subsection \<open>The PDU reader\<close>

definition pdu_cut :: "(nat \<Rightarrow> u8) \<Rightarrow> u32 \<Rightarrow> bytes \<Rightarrow> pdu reading" where
  "pdu_cut junk len0 buf =
     (case ReadPdu junk len0 buf (of_nat (length buf)) of
        Ret None \<Rightarrow> Need
      | Ret (Some p) \<Rightarrow> Got p (unat (GetLength p))
      | Throw e \<Rightarrow> Reject
      | Undef \<Rightarrow> Reject)"

lemma split_header: "16 \<le> length buf \<Longrightarrow> \<exists>h. buf = encode_header h @ drop 16 buf"
  using encode_surj [of "take 16 buf"] append_take_drop_id [of 16 buf]
  by (metis length_take min.absorb2)

text \<open>The reader by cases: too short, incomplete, a zero length, or a PDU.\<close>

lemma ReadPdu_complete:
  assumes "16 \<le> length buf" "length buf < 3 * 2 ^ 30"
  defines "n \<equiv> ReadUint32 buf"
  shows "length buf < unat n \<Longrightarrow> pdu_cut junk len0 buf = Need"
    and "n = 0 \<Longrightarrow> pdu_cut junk len0 buf = Reject"
    and "n \<noteq> 0 \<Longrightarrow> unat n \<le> length buf \<Longrightarrow> \<exists>p. pdu_cut junk len0 buf = Got p (unat n)
      \<and> ReadPdu junk len0 buf (of_nat (length buf)) = Ret (Some p)"
proof -
  obtain h where h: "buf = encode_header h @ drop 16 buf"
    using split_header [OF assms(1)] by blast
  have nh: "n = ph_length h"
    unfolding n_def by (subst h) (simp add: encode_header_def)
  have len: "unat (of_nat (length buf) :: u32) = length buf"
    using assms(2) by (intro unat_of_nat_32) simp
  have le: "16 \<le> (of_nat (length buf) :: u32)"
    using assms(1) len by (simp add: word_le_nat_alt)
  note cases = ReadPdu_header [OF h le eq_refl [OF len], of junk len0]
  show "length buf < unat n \<Longrightarrow> pdu_cut junk len0 buf = Need"
    using cases(1) len nh by (simp add: pdu_cut_def word_less_nat_alt)
  show "n = 0 \<Longrightarrow> pdu_cut junk len0 buf = Reject"
    using cases(2) nh by (simp add: pdu_cut_def)
  assume n: "n \<noteq> 0" "unat n \<le> length buf"
  have fits: "unat n + unat n div 4 < 2 ^ 32"
    using n(2) assms(2) by (intro quarter_fits) simp
  obtain p where p: "ReadPdu junk len0 buf (of_nat (length buf)) = Ret (Some p)"
      "wf_buffer (m_buf p)" "contents (m_buf p) = take (unat n) buf"
    using ReadPdu_Got [OF h le eq_refl [OF len], of junk len0] n len fits nh
    by (auto simp: word_le_nat_alt)
  have "unat (GetLength p) = unat n"
    using length_contents [OF p(2)] p(3) n(2) by (simp add: GetLength_def)
  with p(1) show "\<exists>p. pdu_cut junk len0 buf = Got p (unat n)
      \<and> ReadPdu junk len0 buf (of_nat (length buf)) = Ret (Some p)"
    by (simp add: pdu_cut_def)
qed

lemma pdu_cut_short: "length buf < 16 \<Longrightarrow> pdu_cut junk len0 buf = Need"
  by (simp add: pdu_cut_def ReadPdu_short word_less_nat_alt)

text \<open>The PDU depends on the first \<open>n\<close> bytes and the header only.\<close>

lemma ReadPdu_extend:
  assumes "16 \<le> length buf" "length (buf @ ext) < 3 * 2 ^ 30"
    and "ReadUint32 buf \<noteq> 0" "unat (ReadUint32 buf) \<le> length buf"
  shows "ReadPdu junk len0 (buf @ ext) (of_nat (length (buf @ ext)))
    = ReadPdu junk len0 buf (of_nat (length buf))"
proof -
  obtain h where h: "buf = encode_header h @ drop 16 buf"
    using split_header [OF assms(1)] by blast
  have nh: "ReadUint32 (buf @ ext) = ReadUint32 buf"
    using assms(1) by (intro be32.get_local) simp
  have lens: "unat (of_nat (length buf) :: u32) = length buf"
    "unat (of_nat (length (buf @ ext)) :: u32) = length (buf @ ext)"
    using assms(2) by (intro unat_of_nat_32; simp)+
  then have "IsPduAvailable (buf @ ext) (of_nat (length (buf @ ext)))
      = IsPduAvailable buf (of_nat (length buf))"
    using assms nh by (simp add: IsPduAvailable_def IM_PDU_HEADER_LEN_def word_less_nat_alt
        del: of_nat_add length_append) simp
  moreover have "Write junk b (Some (buf @ ext)) (ReadUint32 buf)
      = Write junk b (Some buf) (ReadUint32 buf)" for b
    using assms(4) by (simp add: Write_def Let_def)
  moreover have "read_header (stream_of_raw (buf @ ext) 16) = read_header (stream_of_raw buf 16)"
  proof -
    have "buf @ ext = encode_header h @ drop 16 buf @ ext" by (subst h) simp
    then have "read_header (stream_of_raw (buf @ ext) 16) = Inr h"
      by (simp only:) (rule read_header_encode; simp)
    moreover have "read_header (stream_of_raw buf 16) = Inr h"
      by (subst h) (rule read_header_encode; simp)
    ultimately show ?thesis by simp
  qed
  ultimately show ?thesis
    using assms lens by (auto simp: ReadPdu_def IsPduAvailable_def IM_PDU_HEADER_LEN_def
        ReadPduHeader_def Let_def word_less_nat_alt split: sum.splits option.splits)
qed

lemma pdu_cut_eq:
  assumes "length buf < 3 * 2 ^ 30"
  shows "pdu_cut junk len0 buf =
    (if length buf < 16 then Need
     else if length buf < unat (ReadUint32 buf) then Need
     else if ReadUint32 buf = 0 then Reject
     else Got (case ReadPdu junk len0 buf (of_nat (length buf)) of Ret (Some p) \<Rightarrow> p)
       (unat (ReadUint32 buf)))"
  using ReadPdu_complete [OF _ assms, of junk len0] pdu_cut_short [of buf junk len0] by force

interpretation pf: frame_reader "pdu_cut junk len0" "\<lambda>n. n < 3 * 2 ^ 30"
  for junk len0
proof unfold_locales
  fix buf ext :: bytes and f n
  show "length buf < 3 * 2 ^ 30 \<Longrightarrow> pdu_cut junk len0 buf = Got f n \<Longrightarrow> 0 < n \<and> n \<le> length buf"
    by (auto simp: pdu_cut_eq unat_gt_0 split: if_splits)
  assume small: "length (buf @ ext) < 3 * 2 ^ 30"
  then have small': "length buf < 3 * 2 ^ 30" by simp
  have n: "16 \<le> length buf \<Longrightarrow> ReadUint32 (buf @ ext) = ReadUint32 buf"
    by (intro be32.get_local) simp
  note eq = pdu_cut_eq [OF small, of junk len0] pdu_cut_eq [OF small', of junk len0]
  show "pdu_cut junk len0 buf = Got f n \<Longrightarrow> pdu_cut junk len0 (buf @ ext) = Got f n"
    using ReadPdu_extend [OF _ small, of junk len0] n eq
    by (simp del: of_nat_add split: if_splits)
  show "pdu_cut junk len0 buf = Reject \<Longrightarrow> pdu_cut junk len0 (buf @ ext) = Reject"
    using n eq by (simp split: if_splits)
qed simp

end
