(* ===== verification/Im_Conn.thy ===== *)
theory Im_Conn
  imports Framing
begin

text \<open>
  \<open>CImConn\<close> of \<open>base/imconn.cpp\<close>: the buffered connection every server is built on. The socket
  is a parameter: \<open>netlib_send s bytes\<close> returns the code of \<open>netlib_send\<close> (a C \<open>int\<close>, read with
  \<open>sint\<close>) and the socket's next state; of a positive answer \<open>n\<close> the first \<open>n\<close> bytes left the
  process. What \<open>netlib_recv\<close> returns until it would block is a list of chunks. \<open>HandlePdu\<close> and
  \<open>OnClose\<close> are virtual: they are parameters too, over the state \<open>'h\<close> of the server.
  \<open>None\<close> is an access outside an allocation. The return value of \<open>Send\<close> is always \<open>len\<close>. Lengths are C
  \<open>int\<close>s: the \<open>len\<close> bytes given to \<open>Send\<close> are a list, whose length is read as a signed 32 bit number, and so is
  the fill of the buffer in \<open>OnWrite\<close>. In the loops the values stay between 0 and \<open>len\<close>, so that the
  subtractions do not wrap.
\<close>

definition NETLIB_MAX_SOCKET_BUF_SIZE :: int where "NETLIB_MAX_SOCKET_BUF_SIZE = 128 * 1024"
definition READ_BUF_SIZE :: u32 where "READ_BUF_SIZE = 2048"
definition SERVER_HEARTBEAT_INTERVAL :: u64 where "SERVER_HEARTBEAT_INTERVAL = 5000"
definition SERVER_TIMEOUT :: u64 where "SERVER_TIMEOUT = 30000"
definition CLIENT_TIMEOUT :: u64 where "CLIENT_TIMEOUT = 120000"

record im_conn =
  m_busy :: bool
  m_in_buf :: simple_buffer
  m_out_buf :: simple_buffer
  m_recv_bytes :: u32
  m_last_send_tick :: u64
  m_last_recv_tick :: u64

definition CImConn :: "u64 \<Rightarrow> im_conn" where
  "CImConn tick = \<lparr>m_busy = False, m_in_buf = CSimpleBuffer, m_out_buf = CSimpleBuffer,
     m_recv_bytes = 0, m_last_send_tick = tick, m_last_recv_tick = tick\<rparr>"

type_synonym 's socket = "'s \<Rightarrow> bytes \<Rightarrow> u32 \<times> 's"

text \<open>The loop of \<open>Send\<close>: offset reached, bytes remaining, socket state.\<close>

function Send_loop :: "'s socket \<Rightarrow> bytes \<Rightarrow> nat \<Rightarrow> int \<Rightarrow> 's \<Rightarrow> nat \<times> int \<times> 's" where
  "Send_loop netlib_send data offset remain s =
     (if remain > 0 then
        (let send_size = (if remain > NETLIB_MAX_SOCKET_BUF_SIZE
                          then NETLIB_MAX_SOCKET_BUF_SIZE else remain);
             (ret, s') = netlib_send s (take (nat send_size) (drop offset data))
         in if sint ret \<le> 0 then (offset, remain, s')
            else Send_loop netlib_send data (offset + nat (sint ret)) (remain - sint ret) s')
      else (offset, remain, s))"
  by pat_completeness auto
termination
  by (relation "measure (\<lambda>(f, data, offset, remain, s). nat remain)") auto

declare Send_loop.simps [simp del]

definition Send :: "(nat \<Rightarrow> u8) \<Rightarrow> 's socket \<Rightarrow> u64 \<Rightarrow> bytes \<Rightarrow> im_conn \<times> 's \<Rightarrow>
    (bytes \<times> im_conn \<times> 's) option" where
  "Send junk netlib_send tick data = (\<lambda>(c, s).
     (let c = c\<lparr>m_last_send_tick := tick\<rparr>; len = (of_nat (length data) :: u32) in
      if m_busy c then
        map_option (\<lambda>b. ([], c\<lparr>m_out_buf := b\<rparr>, s)) (Write junk (m_out_buf c) (Some data) len)
      else
        (let (offset, remain, s) = Send_loop netlib_send data 0 (sint len) s in
         if remain > 0 then
           map_option (\<lambda>b. (take offset data, c\<lparr>m_out_buf := b, m_busy := True\<rparr>, s))
             (Write junk (m_out_buf c) (Some (drop offset data)) (of_int remain))
         else Some (take offset data, c, s))))"

text \<open>
  The loop of \<open>OnWrite\<close>: the bytes sent, the buffer, the socket state. A buffer of 2 GiB or more has a negative
  \<open>send_size\<close>, which \<open>send(2)\<close> takes for a length far beyond the buffer.
\<close>

function OnWrite_loop :: "'s socket \<Rightarrow> simple_buffer \<Rightarrow> 's \<Rightarrow> (bytes \<times> simple_buffer \<times> 's) option" where
  "OnWrite_loop netlib_send b s =
     (if m_write_offset b > 0 then
        (let send_size = sint (m_write_offset b);
             send_size = (if send_size > NETLIB_MAX_SOCKET_BUF_SIZE
                          then NETLIB_MAX_SOCKET_BUF_SIZE else send_size)
         in if send_size < 0 then None
            else (let (ret, s') = netlib_send s (take (nat send_size) (m_buffer b))
                  in if sint ret \<le> 0 then Some ([], b, s')
                     else (let (out, b') = Read b ret
                           in map_option (\<lambda>(sent, b'', s''). (out @ sent, b'', s'')) (OnWrite_loop netlib_send b' s'))))
      else Some ([], b, s))"
  by pat_completeness auto
termination
proof (relation "measure (\<lambda>(f, b, s). unat (m_write_offset b))", goal_cases)
  case (2 netlib_send b s _ _ _ ret s' x out b')
  have "ret \<noteq> 0" using 2 by auto
  then have "m_write_offset b' < m_write_offset b"
    using 2 by (auto simp: Read_def Let_def word_less_nat_alt unat_sub_if' unat_gt_0 split: if_splits)
  then show ?case by (simp add: word_less_nat_alt)
qed simp

declare OnWrite_loop.simps [simp del]

definition OnWrite :: "'s socket \<Rightarrow> im_conn \<times> 's \<Rightarrow> (bytes \<times> im_conn \<times> 's) option" where
  "OnWrite netlib_send = (\<lambda>(c, s).
     if \<not> m_busy c then Some ([], c, s)
     else map_option (\<lambda>(sent, b, s). (let c = c\<lparr>m_out_buf := b\<rparr>
           in (sent, if m_write_offset b = 0 then c\<lparr>m_busy := False\<rparr> else c, s)))
         (OnWrite_loop netlib_send (m_out_buf c) s))"

text \<open>One round of the receive loop of \<open>OnRead\<close>: room for a chunk is made, then it is stored.\<close>

definition recv_chunk :: "(nat \<Rightarrow> u8) \<Rightarrow> u64 \<Rightarrow> bytes \<Rightarrow> im_conn \<Rightarrow> im_conn" where
  "recv_chunk junk tick chunk c =
     (let b = m_in_buf c;
          free_buf_len = m_alloc_size b - m_write_offset b;
          b = (if free_buf_len < READ_BUF_SIZE then Extend junk b READ_BUF_SIZE else b);
          b = b\<lparr>m_buffer := write_at (unat (m_write_offset b))
                 (\<lambda>xs. chunk @ drop (length chunk) xs) (m_buffer b)\<rparr>
      in c\<lparr>m_in_buf := IncWriteOffset b (of_nat (length chunk)),
           m_recv_bytes := m_recv_bytes c + of_nat (length chunk), m_last_recv_tick := tick\<rparr>)"

text \<open>
  The parse loop of \<open>OnRead\<close>: each PDU is handled and its bytes are dropped; an exception stops
  it (\<open>True\<close>: the catch block calls \<open>OnClose\<close>, which closes the connection).
\<close>

definition pdu_step :: "(nat \<Rightarrow> u8) \<Rightarrow> u32 \<Rightarrow> simple_buffer \<Rightarrow> (pdu_exception, pdu option) outcome" where
  "pdu_step junk len0 b = ReadPdu junk len0 (m_buffer b) (m_write_offset b)"

function parse_loop :: "(nat \<Rightarrow> u8) \<Rightarrow> u32 \<Rightarrow> ('h \<Rightarrow> pdu \<Rightarrow> 'h) \<Rightarrow> simple_buffer \<Rightarrow> 'h \<Rightarrow>
    (simple_buffer \<times> 'h \<times> bool) option" where
  "parse_loop junk len0 HandlePdu b h =
     (case pdu_step junk len0 b of
        Undef \<Rightarrow> None
      | Throw e \<Rightarrow> Some (b, h, True)
      | Ret None \<Rightarrow> Some (b, h, False)
      | Ret (Some p) \<Rightarrow>
          if m_write_offset (snd (Read b (GetLength p))) < m_write_offset b
          then parse_loop junk len0 HandlePdu (snd (Read b (GetLength p))) (HandlePdu h p)
          else None)"
  by pat_completeness auto
termination
  by (relation "measure (\<lambda>(junk, l, f, b, h). unat (m_write_offset b))")
    (auto simp: word_less_nat_alt)

declare parse_loop.simps [simp del]

definition OnRead :: "(nat \<Rightarrow> u8) \<Rightarrow> u32 \<Rightarrow> ('h \<Rightarrow> pdu \<Rightarrow> 'h) \<Rightarrow> ('h \<Rightarrow> 'h) \<Rightarrow> u64 \<Rightarrow>
    bytes list \<Rightarrow> im_conn \<times> 'h \<Rightarrow> (im_conn \<times> 'h \<times> bool) option" where
  "OnRead junk len0 HandlePdu OnClose tick chunks = (\<lambda>(c, h).
     (let c = fold (recv_chunk junk tick) chunks c in
      map_option (\<lambda>(b, h, thrown). (c\<lparr>m_in_buf := b\<rparr>, if thrown then OnClose h else h, thrown))
        (parse_loop junk len0 HandlePdu (m_in_buf c) h)))"

subsection \<open>Sending: nothing is lost, duplicated or reordered\<close>

text \<open>\<open>send(2)\<close> never reports more than it was given.\<close>

definition honest_socket :: "'s socket \<Rightarrow> bool" where
  "honest_socket netlib_send \<longleftrightarrow> (\<forall>s bs. sint (fst (netlib_send s bs)) \<le> int (length bs))"

lemma honestD: "honest_socket f \<Longrightarrow> f s bs = (ret, s') \<Longrightarrow> sint ret \<le> int (length bs)"
  unfolding honest_socket_def by (metis fst_conv)

lemma Send_loop_offset:
  "honest_socket f \<Longrightarrow> offset \<le> length data \<Longrightarrow> remain = int (length data - offset) \<Longrightarrow>
    Send_loop f data offset remain s = (off', rem', s') \<Longrightarrow>
    offset \<le> off' \<and> off' \<le> length data \<and> rem' = int (length data - off')"
proof (induction f data offset remain s rule: Send_loop.induct)
  case (1 f data offset remain s)
  show ?case
  proof (cases "remain > 0")
    case True
    define size where "size = (if remain > NETLIB_MAX_SOCKET_BUF_SIZE
        then NETLIB_MAX_SOCKET_BUF_SIZE else remain)"
    obtain ret t where rt: "f s (take (nat size) (drop offset data)) = (ret, t)" by fastforce
    have eq: "Send_loop f data offset remain s = (if sint ret \<le> 0 then (offset, remain, t)
        else Send_loop f data (offset + nat (sint ret)) (remain - sint ret) t)"
      using True rt by (subst Send_loop.simps) (simp add: size_def Let_def)
    show ?thesis
    proof (cases "sint ret \<le> 0")
      case True
      then show ?thesis using eq "1.prems" by simp
    next
      case False
      have "sint ret \<le> int (length data - offset)"
        using honestD [OF "1.prems"(1) rt] by simp
      then have "offset + nat (sint ret) \<le> off' \<and> off' \<le> length data
          \<and> rem' = int (length data - off')"
        using "1.IH" [OF True size_def rt [symmetric] refl False] eq False "1.prems" rt by auto
      then show ?thesis by simp
    qed
  next
    case False
    then show ?thesis using "1.prems" by (subst (asm) Send_loop.simps) simp
  qed
qed


lemma sint_small:
  fixes w :: u32
  assumes "unat w < 2 ^ 31"
  shows "sint w = int (unat w)"
proof -
  obtain n where n: "unat w = n" "uint w = int n" by (metis uint_nat)
  have "uint w < 2 ^ 31" using assms unfolding n by simp
  then have "signed_take_bit 31 (uint w) = uint w" by (intro signed_take_bit_int_eq_self) (simp_all add: n)
  then show ?thesis unfolding n(1) by (simp add: sint_uint n(2))
qed

lemma sint_large:
  fixes w :: u32
  assumes "2 ^ 31 \<le> unat w"
  shows "sint w < 0"
proof (rule ccontr)
  assume "\<not> sint w < 0"
  moreover have "sint w < 2 ^ 31" using sint_lt [of w] by simp
  ultimately have "take_bit 32 (sint w) = sint w" by (simp add: take_bit_int_eq_self)
  then have "uint w < 2 ^ 31" using uint_sint [of w] \<open>sint w < 2 ^ 31\<close> by simp
  moreover obtain n where n: "unat w = n" "uint w = int n" by (metis uint_nat)
  ultimately show False using assms unfolding n by simp
qed

lemma OnWrite_loop_contents:
  "wf_buffer b \<Longrightarrow> length (contents b) < 2 ^ 31 \<Longrightarrow>
    \<exists>sent b' s'. OnWrite_loop f b s = Some (sent, b', s') \<and> wf_buffer b' \<and> sent @ contents b' = contents b"
proof (induction f b s rule: OnWrite_loop.induct)
  case (1 f b s)
  have w: "sint (m_write_offset b) = int (unat (m_write_offset b))"
    using sint_small length_contents [OF "1.prems"(1)] "1.prems"(2) by simp
  show ?case
  proof (cases "m_write_offset b > 0")
    case True
    define size where "size = (if sint (m_write_offset b) > NETLIB_MAX_SOCKET_BUF_SIZE
        then NETLIB_MAX_SOCKET_BUF_SIZE else sint (m_write_offset b))"
    have pos: "\<not> size < 0" by (simp add: size_def w NETLIB_MAX_SOCKET_BUF_SIZE_def)
    obtain ret t where rt: "f s (take (nat size) (m_buffer b)) = (ret, t)" by fastforce
    obtain out b1 where rd: "Read b ret = (out, b1)" by fastforce
    have eq: "OnWrite_loop f b s = (if sint ret \<le> 0 then Some ([], b, t)
        else map_option (\<lambda>(sent, b'', s''). (out @ sent, b'', s'')) (OnWrite_loop f b1 t))"
      using True pos rt rd by (subst OnWrite_loop.simps) (simp add: size_def [symmetric] Let_def)
    show ?thesis
    proof (cases "sint ret \<le> 0")
      case True
      then show ?thesis using eq "1.prems" by simp
    next
      case False
      have wf1: "wf_buffer b1" "out @ contents b1 = contents b"
        using Read_removes [OF "1.prems"(1), of ret] rd by simp_all
      from arg_cong [OF wf1(2), of length] have "length (contents b1) < 2 ^ 31" using "1.prems"(2) by simp
      from "1.IH" [OF True refl size_def pos rt [symmetric] refl False rd [symmetric] refl wf1(1) this]
      show ?thesis using eq False wf1(2) by auto
    qed
  next
    case False
    then show ?thesis using "1.prems" by (subst OnWrite_loop.simps) simp
  qed
qed

text \<open>What every operation keeps: an idle connection has nothing queued.\<close>

definition conn_ok :: "im_conn \<Rightarrow> bool" where
  "conn_ok c \<longleftrightarrow> wf_buffer (m_out_buf c) \<and> (\<not> m_busy c \<longrightarrow> contents (m_out_buf c) = [])"

lemma conn_ok_CImConn: "conn_ok (CImConn tick)"
  by (simp add: conn_ok_def CImConn_def buf_simps)

lemma Send_ok:
  assumes "honest_socket f" "conn_ok c"
    and "length (contents (m_out_buf c)) + length data < 2 ^ 31"
  shows "\<exists>sent c' s'. Send junk f tick data (c, s) = Some (sent, c', s') \<and> conn_ok c'
    \<and> sent @ contents (m_out_buf c') = contents (m_out_buf c) @ data"
proof (cases "m_busy c")
  case True
  have "room (m_out_buf c) (length data)"
    using assms(3) quarter_fits [of "length (contents (m_out_buf c)) + length data"] unfolding sb.fits_def by simp
  then obtain b where "buffer_push junk (m_out_buf c) data = Some b" "wf_buffer b"
      "contents b = contents (m_out_buf c) @ data"
    using sb.push_ok assms(2) unfolding conn_ok_def by blast
  then show ?thesis using True by (simp add: Send_def Let_def conn_ok_def buffer_push_def)
next
  case False
  then have empty: "contents (m_out_buf c) = []" using assms(2) by (simp add: conn_ok_def)
  have "unat (of_nat (length data) :: u32) = length data" using assms(3) by (intro unat_of_nat_32) simp
  then have len: "sint (of_nat (length data) :: u32) = int (length data)"
    using sint_small [of "of_nat (length data)"] assms(3) by linarith
  obtain off rem t where loop: "Send_loop f data 0 (int (length data)) s = (off, rem, t)"
    by (cases "Send_loop f data 0 (int (length data)) s") auto
  have off: "off \<le> length data" "rem = int (length data - off)"
    using Send_loop_offset [OF assms(1) _ _ loop] by simp_all
  then have rem: "(of_int rem :: u32) = of_nat (length (drop off data))" by simp
  show ?thesis
  proof (cases "rem > 0")
    case True
    have "room (m_out_buf c) (length (drop off data))"
      unfolding sb.fits_def using assms(3) quarter_fits [of "length (drop off data)"] empty by simp
    then obtain b where "buffer_push junk (m_out_buf c) (drop off data) = Some b" "wf_buffer b"
        "contents b = drop off data"
      using sb.push_ok assms(2) empty unfolding conn_ok_def by force
    then show ?thesis using True False loop empty rem len by (simp add: Send_def Let_def conn_ok_def buffer_push_def)
  next
    case False': False
    then have "take off data = data" using off by simp
    then show ?thesis using False' False loop empty assms(2) len by (simp add: Send_def Let_def conn_ok_def)
  qed
qed

text \<open>From 2 GiB on the length is negative: an idle connection loses the data.\<close>

lemma Send_negative_length:
  assumes "\<not> m_busy c" "2 ^ 31 \<le> length data" "length data < 2 ^ 32"
  shows "Send junk f tick data (c, s) = Some ([], c\<lparr>m_last_send_tick := tick\<rparr>, s)"
proof -
  have "unat (of_nat (length data) :: u32) = length data" using assms(3) by (intro unat_of_nat_32) simp
  then have "sint (of_nat (length data) :: u32) < 0" using sint_large [of "of_nat (length data)"] assms(2) by simp
  moreover from this have "Send_loop f data 0 (sint (of_nat (length data) :: u32)) s = (0, sint (of_nat (length data) :: u32), s)"
    by (subst Send_loop.simps) simp
  ultimately show ?thesis using assms(1) by (simp add: Send_def Let_def)
qed

lemma OnWrite_ok:
  assumes "conn_ok c" "length (contents (m_out_buf c)) < 2 ^ 31"
  shows "\<exists>sent c' s'. OnWrite f (c, s) = Some (sent, c', s') \<and> conn_ok c'
    \<and> sent @ contents (m_out_buf c') = contents (m_out_buf c)"
proof (cases "m_busy c")
  case True
  obtain sent b s' where loop: "OnWrite_loop f (m_out_buf c) s = Some (sent, b, s')" "wf_buffer b"
    "sent @ contents b = contents (m_out_buf c)"
    using OnWrite_loop_contents [OF _ assms(2), of f s] assms(1) unfolding conn_ok_def by blast
  moreover have "m_write_offset b = 0 \<Longrightarrow> contents b = []" by (simp add: contents_def)
  ultimately show ?thesis
    using True by (cases "m_write_offset b = 0") (auto simp: OnWrite_def Let_def conn_ok_def)
next
  case False
  then show ?thesis using assms by (simp add: OnWrite_def)
qed

datatype conn_op = OpSend bytes | OpWrite

fun op_data :: "conn_op \<Rightarrow> bytes" where
  "op_data (OpSend data) = data"
| "op_data OpWrite = []"

fun conn_run :: "(nat \<Rightarrow> u8) \<Rightarrow> 's socket \<Rightarrow> u64 \<Rightarrow> conn_op list \<Rightarrow> im_conn \<times> 's \<Rightarrow>
    (bytes \<times> im_conn \<times> 's) option" where
  "conn_run junk f tick [] cs = Some ([], cs)"
| "conn_run junk f tick (OpSend data # ops) cs =
     Option.bind (Send junk f tick data cs) (\<lambda>(sent, cs).
     map_option (\<lambda>(sent', cs). (sent @ sent', cs)) (conn_run junk f tick ops cs))"
| "conn_run junk f tick (OpWrite # ops) cs =
     Option.bind (OnWrite f cs) (\<lambda>(sent, cs).
     map_option (\<lambda>(sent', cs). (sent @ sent', cs)) (conn_run junk f tick ops cs))"

lemma conn_run_ok:
  assumes "honest_socket f"
  shows "conn_ok c \<Longrightarrow>
    length (contents (m_out_buf c)) + length (concat (map op_data ops)) < 2 ^ 31 \<Longrightarrow>
    \<exists>sent c' s'. conn_run junk f tick ops (c, s) = Some (sent, c', s') \<and> conn_ok c'
      \<and> sent @ contents (m_out_buf c') = contents (m_out_buf c) @ concat (map op_data ops)"
proof (induction ops arbitrary: c s)
  case Nil
  then show ?case by simp
next
  case (Cons x ops)
  have "\<exists>sent c1 s1. (case x of OpSend data \<Rightarrow> Send junk f tick data (c, s)
        | OpWrite \<Rightarrow> OnWrite f (c, s)) = Some (sent, c1, s1)
      \<and> conn_ok c1 \<and> sent @ contents (m_out_buf c1) = contents (m_out_buf c) @ op_data x"
    using Send_ok [OF assms Cons.prems(1)] OnWrite_ok [OF Cons.prems(1), of f s] Cons.prems(2)
    by (cases x) simp_all
  then obtain sent c1 s1 where step: "(case x of OpSend data \<Rightarrow> Send junk f tick data (c, s)
        | OpWrite \<Rightarrow> OnWrite f (c, s)) = Some (sent, c1, s1)" "conn_ok c1"
      and c1: "sent @ contents (m_out_buf c1) = contents (m_out_buf c) @ op_data x" by blast
  have "length (contents (m_out_buf c1)) \<le> length (contents (m_out_buf c)) + length (op_data x)"
    using arg_cong [OF c1, of length] by simp
  then obtain sent' c' s' where rest: "conn_run junk f tick ops (c1, s1) = Some (sent', c', s')"
      "conn_ok c'" "sent' @ contents (m_out_buf c') = contents (m_out_buf c1) @ concat (map op_data ops)"
    using Cons.IH [OF step(2), of s1] Cons.prems(2) by auto
  have "conn_run junk f tick (x # ops) (c, s) = Some (sent @ sent', c', s')"
    using step(1) rest(1) by (cases x) simp_all
  moreover have "(sent @ sent') @ contents (m_out_buf c')
      = contents (m_out_buf c) @ concat (map op_data (x # ops))"
    using c1 rest(3) by simp
  ultimately show ?case using rest(2) by blast
qed

text \<open>
  C10: a connection delivers exactly what was sent through it. For every sequence of \<open>Send\<close> calls
  and writable events, and every behaviour of the socket (partial writes, errors, blocking), the
  bytes that left through the socket followed by the bytes still queued are the bytes handed to
  \<open>Send\<close>, in order; when the connection is not busy, everything has left. The data are less than 2 GiB in all, so
  that no length is negative as an \<open>int\<close>.
\<close>

theorem conn_no_loss:
  assumes "honest_socket netlib_send"
    and "length (concat (map op_data ops)) < 2 ^ 31"
  shows "\<exists>sent c s'. conn_run junk netlib_send tick ops (CImConn tick0, s) = Some (sent, c, s')
    \<and> sent @ contents (m_out_buf c) = concat (map op_data ops)
    \<and> (\<not> m_busy c \<longrightarrow> sent = concat (map op_data ops))"
proof -
  have "contents (m_out_buf (CImConn tick0)) = []" by (simp add: CImConn_def buf_simps)
  then show ?thesis
    using conn_run_ok [OF assms(1) conn_ok_CImConn, of tick0 ops junk tick s] assms(2)
    by (force simp: conn_ok_def)
qed

text \<open>A socket that takes two bytes at a time and blocks at every third call.\<close>

definition slow_socket :: "nat socket" where
  "slow_socket n bs = (if n mod 3 = 2 then (-1, Suc n)
     else (if length bs < 2 then of_nat (length bs) else 2, Suc n))"

lemma slow_socket_honest: "honest_socket slow_socket"
proof -
  have "sint (of_nat n :: u32) \<le> int n" if "n < 2" for n
    using that by (auto simp: less_2_cases_iff)
  then show ?thesis by (auto simp: honest_socket_def slow_socket_def not_less)
qed

theorem conn_no_loss_witness:
  "\<exists>sent c s'. conn_run (\<lambda>_. 0) slow_socket 5 [OpSend [1, 2, 3, 4, 5, 6], OpWrite, OpSend [7]]
      (CImConn 0, 0) = Some (sent, c, s')
    \<and> sent @ contents (m_out_buf c) = [1, 2, 3, 4, 5, 6, 7]
    \<and> (\<not> m_busy c \<longrightarrow> sent = [1, 2, 3, 4, 5, 6, 7])"
  using conn_no_loss [OF slow_socket_honest,
      of "[OpSend [1, 2, 3, 4, 5, 6], OpWrite, OpSend [7]]" "\<lambda>_. 0" 5 0 0]
  by simp


subsection \<open>Receiving: the PDUs do not depend on how the stream arrives\<close>

lemma recv_chunk_ok:
  assumes "wf_buffer (m_in_buf c)" and "length chunk \<le> 2048"
    and "length (contents (m_in_buf c)) + 2048 < 3 * 2 ^ 30"
  shows "wf_buffer (m_in_buf (recv_chunk junk tick chunk c))"
    and "contents (m_in_buf (recv_chunk junk tick chunk c)) = contents (m_in_buf c) @ chunk"
proof -
  let ?b = "m_in_buf c"
  define b1 where "b1 = (if m_alloc_size ?b - m_write_offset ?b < READ_BUF_SIZE
    then Extend junk ?b READ_BUF_SIZE else ?b)"
  have room: "room ?b (unat READ_BUF_SIZE)"
    unfolding sb.fits_def using assms(3) quarter_fits by (simp add: READ_BUF_SIZE_def)
  have w_le: "m_write_offset ?b \<le> m_alloc_size ?b" using assms(1) by (simp add: wf_buffer_def)
  have b1: "wf_buffer b1" "contents b1 = contents ?b" "m_write_offset b1 = m_write_offset ?b"
    "unat (m_write_offset ?b) + 2048 \<le> length (m_buffer b1)"
    using wf_Extend [OF assms(1) room, of junk] assms(1) w_le
    by (auto simp: b1_def READ_BUF_SIZE_def word_less_nat_alt unat_sub wf_buffer_def word_le_nat_alt)
  have w: "unat (m_write_offset ?b) = length (contents ?b)" using length_contents [OF assms(1)] by simp
  have n: "unat (of_nat (length chunk) :: u32) = length chunk"
    using assms(2) by (intro unat_of_nat_32) simp
  have sum: "unat (m_write_offset ?b + of_nat (length chunk)) = unat (m_write_offset ?b) + length chunk"
    using unat_add_no_wrap [of "m_write_offset ?b" "of_nat (length chunk)"] n w assms(2,3) by simp
  have c1: "take (unat (m_write_offset ?b)) (m_buffer b1) = contents ?b"
    using b1(2,3) by (simp add: contents_def)
  have in_buf: "m_in_buf (recv_chunk junk tick chunk c) = IncWriteOffset
      (b1\<lparr>m_buffer := write_at (unat (m_write_offset ?b)) (\<lambda>xs. chunk @ drop (length chunk) xs)
        (m_buffer b1)\<rparr>) (of_nat (length chunk))"
    by (simp add: recv_chunk_def Let_def b1_def [symmetric] b1(3))
  show "wf_buffer (m_in_buf (recv_chunk junk tick chunk c))"
    using b1 assms(2) sum unfolding in_buf
    by (simp add: IncWriteOffset_def wf_buffer_def write_at_def word_le_nat_alt)
  show "contents (m_in_buf (recv_chunk junk tick chunk c)) = contents ?b @ chunk"
    using b1(3,4) sum c1 [unfolded w] unfolding in_buf
    by (simp add: IncWriteOffset_def contents_def [of "_\<lparr>m_write_offset := _\<rparr>"] write_at_def c1 w)
qed

lemma recv_chunks_ok:
  "wf_buffer (m_in_buf c) \<Longrightarrow> \<forall>x \<in> set chunks. length x \<le> 2048 \<Longrightarrow>
    length (contents (m_in_buf c)) + length (concat chunks) + 2048 < 3 * 2 ^ 30 \<Longrightarrow>
    wf_buffer (m_in_buf (fold (recv_chunk junk tick) chunks c))
    \<and> contents (m_in_buf (fold (recv_chunk junk tick) chunks c))
        = contents (m_in_buf c) @ concat chunks"
proof (induction chunks arbitrary: c)
  case (Cons x xs)
  note step = recv_chunk_ok [OF Cons.prems(1), of x junk tick]
  show ?case
    using Cons.IH [of "recv_chunk junk tick x c"] step Cons.prems by simp
qed simp

text \<open>Only the bytes below the write offset are looked at.\<close>

lemma ReadPdu_prefix:
  assumes "unat len \<le> length buf"
  shows "ReadPdu junk len0 buf len = ReadPdu junk len0 (take (unat len) buf) len"
proof (cases "len < 16")
  case False
  let ?t = "take (unat len) buf"
  have l16: "16 \<le> unat len" using False by (simp add: not_less word_le_nat_alt)
  have hd: "ReadUint32 ?t = ReadUint32 buf" using assms l16 by (intro be32.get_take) simp_all
  obtain h where h: "?t = encode_header h @ drop 16 ?t"
    using split_header [of ?t] assms l16 by auto
  have eq: "buf = encode_header h @ drop 16 ?t @ drop (unat len) buf"
    using h append_take_drop_id [of "unat len" buf] by (metis append.assoc)
  have rd: "read_header (stream_of_raw buf 16) = Inr h"
    by (subst eq) (rule read_header_encode; simp)
  have rd': "read_header (stream_of_raw ?t 16) = Inr h"
    by (subst h) (rule read_header_encode; simp)
  have "Write junk b (Some buf) n = Write junk b (Some ?t) n" if "n \<le> len" for b n
    using that assms by (simp add: Write_def Let_def word_le_nat_alt min_absorb1)
  then show ?thesis
    using hd rd rd' by (auto simp: ReadPdu_def IsPduAvailable_def ReadPduHeader_def Let_def
        IM_PDU_HEADER_LEN_def split: sum.splits option.splits)
qed (simp add: ReadPdu_short)

lemma pdu_step_cut:
  assumes "wf_buffer b" "length (contents b) < 3 * 2 ^ 30"
  shows "pdu_cut junk len0 (contents b) =
    (case pdu_step junk len0 b of Ret None \<Rightarrow> Need | Ret (Some p) \<Rightarrow> Got p (unat (GetLength p))
     | Throw e \<Rightarrow> Reject | Undef \<Rightarrow> Reject)"
    and "pdu_step junk len0 b \<noteq> Undef"
proof -
  have w: "unat (m_write_offset b) = length (contents b)" using length_contents [OF assms(1)] by simp
  have "unat (m_write_offset b) \<le> length (m_buffer b)"
    using assms(1) by (simp add: wf_buffer_def word_le_nat_alt)
  then have step: "pdu_step junk len0 b = ReadPdu junk len0 (contents b) (m_write_offset b)"
    unfolding pdu_step_def contents_def by (rule ReadPdu_prefix)
  have of: "of_nat (length (contents b)) = m_write_offset b" by (simp only: w [symmetric]) simp
  show "pdu_cut junk len0 (contents b) =
    (case pdu_step junk len0 b of Ret None \<Rightarrow> Need | Ret (Some p) \<Rightarrow> Got p (unat (GetLength p))
     | Throw e \<Rightarrow> Reject | Undef \<Rightarrow> Reject)"
    by (simp add: pdu_cut_def of step)
  show "pdu_step junk len0 b \<noteq> Undef"
  proof (cases "length (contents b) < 16")
    case True
    then show ?thesis by (simp add: step ReadPdu_short word_less_nat_alt w)
  next
    case False
    note c = ReadPdu_complete [OF _ assms(2), of junk len0, unfolded pdu_cut_def of]
    have "ReadPdu junk len0 (contents b) (m_write_offset b) \<noteq> Undef"
    proof (cases "ReadUint32 (contents b) = 0 \<or> length (contents b) < unat (ReadUint32 (contents b))")
      case True
      then show ?thesis
        using False w by (auto simp: ReadPdu_def IsPduAvailable_def IM_PDU_HEADER_LEN_def Let_def
          word_less_nat_alt)
    next
      case False': False
      then show ?thesis using c(3) False by auto
    qed
    then show ?thesis by (simp add: step)
  qed
qed

lemma parse_loop_cut_all:
  "wf_buffer b \<Longrightarrow> length (contents b) < 3 * 2 ^ 30 \<Longrightarrow>
    cut_all (pdu_cut junk len0) (contents b) = (fs, r) \<Longrightarrow>
    \<exists>b'. parse_loop junk len0 HandlePdu b h = Some (b', foldl HandlePdu h fs, r = None)
      \<and> wf_buffer b' \<and> (\<forall>rest. r = Some rest \<longrightarrow> contents b' = rest)"
proof (induction junk len0 HandlePdu b h arbitrary: fs rule: parse_loop.induct)
  case (1 junk len0 HandlePdu b h)
  note cut = pdu_step_cut [OF "1.prems"(1,2), of junk len0]
  show ?case
  proof (cases "pdu_step junk len0 b")
    case Undef
    then show ?thesis using cut(2) by simp
  next
    case (Throw e)
    then have "pdu_cut junk len0 (contents b) = Reject" using cut(1) by simp
    then have "fs = [] \<and> r = None" using "1.prems"(3) by (simp add: pf.cut_all_stop)
    then show ?thesis using Throw "1.prems"(1) by (simp add: parse_loop.simps [of _ _ _ b])
  next
    case (Ret q)
    show ?thesis
    proof (cases q)
      case None
      then have "pdu_cut junk len0 (contents b) = Need" using cut(1) Ret by simp
      then have "fs = [] \<and> r = Some (contents b)" using "1.prems"(3) by (simp add: pf.cut_all_stop)
      then show ?thesis using Ret None "1.prems"(1) by (simp add: parse_loop.simps [of _ _ _ b])
    next
      case (Some p)
      let ?n = "unat (GetLength p)" and ?b' = "snd (Read b (GetLength p))"
      have got: "pdu_cut junk len0 (contents b) = Got p ?n" using cut(1) Ret Some by simp
      have n: "0 < ?n" "?n \<le> length (contents b)"
        using pf.got_bounds [OF "1.prems"(2) got] by auto
      have b': "contents ?b' = drop ?n (contents b)" "wf_buffer ?b'"
        using Read_removes [OF "1.prems"(1)] by simp_all
      have "unat (m_write_offset ?b') < unat (m_write_offset b)"
        using n b' length_contents [OF b'(2)] length_contents [OF "1.prems"(1)] by simp
      then have less: "m_write_offset ?b' < m_write_offset b" by (simp add: word_less_nat_alt)
      obtain gs where gs: "cut_all (pdu_cut junk len0) (contents ?b') = (gs, r)" "fs = p # gs"
        using "1.prems"(3) by (auto simp: pf.cut_all_Got [OF "1.prems"(2) got] b'(1) split: prod.splits)
      have "\<exists>b2. parse_loop junk len0 HandlePdu ?b' (HandlePdu h p)
            = Some (b2, foldl HandlePdu (HandlePdu h p) gs, r = None)
          \<and> wf_buffer b2 \<and> (\<forall>rest. r = Some rest \<longrightarrow> contents b2 = rest)"
        using "1.prems"(2) b' by (intro "1.IH" [OF Ret Some less _ _ gs(1)]) simp_all
      then show ?thesis using Ret Some less gs(2) by (simp add: parse_loop.simps [of _ _ _ b])
    qed
  qed
qed

text \<open>
  A connection's read events, each with the chunks \<open>netlib_recv\<close> returned in it. After an exception the connection
  is closed and gets no more of them; the last component says whether it came to that.
\<close>

fun read_events :: "(nat \<Rightarrow> u8) \<Rightarrow> u32 \<Rightarrow> ('h \<Rightarrow> pdu \<Rightarrow> 'h) \<Rightarrow> ('h \<Rightarrow> 'h) \<Rightarrow> u64 \<Rightarrow>
    bytes list list \<Rightarrow> im_conn \<times> 'h \<Rightarrow> (im_conn \<times> 'h \<times> bool) option" where
  "read_events junk len0 HandlePdu OnClose tick [] (c, h) = Some (c, h, False)"
| "read_events junk len0 HandlePdu OnClose tick (e # es) ch =
     Option.bind (OnRead junk len0 HandlePdu OnClose tick e ch) (\<lambda>(c, h, thrown).
       if thrown then Some (c, h, True) else read_events junk len0 HandlePdu OnClose tick es (c, h))"

lemma read_events_cut_chunks:
  "wf_buffer (m_in_buf c) \<Longrightarrow> \<forall>e \<in> set evs. \<forall>x \<in> set e. length x \<le> 2048 \<Longrightarrow>
    length (contents (m_in_buf c)) + length (concat (map concat evs)) + 2048 < 3 * 2 ^ 30 \<Longrightarrow>
    cut_chunks (pdu_cut junk len0) (contents (m_in_buf c)) (map concat evs) = (fs, r) \<Longrightarrow>
    \<exists>c'. read_events junk len0 HandlePdu OnClose tick evs (c, h) =
        Some (c', (if r = None then OnClose else id) (foldl HandlePdu h fs), r = None)
      \<and> (\<forall>rest. r = Some rest \<longrightarrow> contents (m_in_buf c') = rest)"
proof (induction evs arbitrary: c h fs)
  case (Cons e es)
  define c1 where "c1 = fold (recv_chunk junk tick) e c"
  have c1: "wf_buffer (m_in_buf c1)" "contents (m_in_buf c1) = contents (m_in_buf c) @ concat e"
    unfolding c1_def using recv_chunks_ok [OF Cons.prems(1), of e junk tick] Cons.prems(2,3) by simp_all
  have small: "length (contents (m_in_buf c1)) < 3 * 2 ^ 30" using Cons.prems(3) c1(2) by simp
  obtain gs ro where cut: "cut_all (pdu_cut junk len0) (contents (m_in_buf c1)) = (gs, ro)" by fastforce
  obtain b' where b': "parse_loop junk len0 HandlePdu (m_in_buf c1) h = Some (b', foldl HandlePdu h gs, ro = None)"
      "wf_buffer b'" "\<And>rest. ro = Some rest \<Longrightarrow> contents b' = rest"
    using parse_loop_cut_all [OF c1(1) small cut, of HandlePdu h] by auto
  have step: "OnRead junk len0 HandlePdu OnClose tick e (c, h)
      = Some (c1\<lparr>m_in_buf := b'\<rparr>, (if ro = None then OnClose else id) (foldl HandlePdu h gs), ro = None)"
    by (simp add: OnRead_def Let_def c1_def [symmetric] b'(1))
  show ?case
  proof (cases ro)
    case None
    then have "fs = gs" "r = None" using Cons.prems(4) cut c1(2) by auto
    then show ?thesis using step None by simp
  next
    case (Some r1)
    then obtain fs' where fs': "fs = gs @ fs'" "cut_chunks (pdu_cut junk len0) r1 (map concat es) = (fs', r)"
      using Cons.prems(4) cut c1(2) by (auto split: prod.splits)
    have "length r1 \<le> length (contents (m_in_buf c1))"
      using pf.cut_all_rest_le [OF cut [unfolded Some]] small by simp
    then have "length r1 + length (concat (map concat es)) + 2048 < 3 * 2 ^ 30"
      using Cons.prems(3) c1(2) by simp
    then have "\<exists>c'. read_events junk len0 HandlePdu OnClose tick es (c1\<lparr>m_in_buf := b'\<rparr>, foldl HandlePdu h gs)
        = Some (c', (if r = None then OnClose else id) (foldl HandlePdu (foldl HandlePdu h gs) fs'), r = None)
        \<and> (\<forall>rest. r = Some rest \<longrightarrow> contents (m_in_buf c') = rest)"
      using b'(2,3) Some fs'(2) Cons.prems(2) by (intro Cons.IH) simp_all
    then show ?thesis using step Some fs'(1) by simp
  qed
qed auto

text \<open>
  C9: the handlers see the PDUs of the stream, whatever the network does. The stream cuts into the PDUs \<open>fs\<close> and
  either a rest \<open>r\<close> or a place where it is rejected. Any number of read events that deliver it in any
  chunks of at most the read size call \<open>HandlePdu\<close> exactly on \<open>fs\<close>, in order; if the stream is not rejected they
  leave exactly \<open>r\<close> in the input buffer, and if it is, \<open>OnClose\<close> is called after \<open>fs\<close> and nothing more is handled.
\<close>

theorem OnRead_chunk_independent:
  assumes "\<forall>e \<in> set evs. \<forall>x \<in> set e. length x \<le> 2048"
    and "length (concat (map concat evs)) + 2048 < 3 * 2 ^ 30"
    and "cut_all (pdu_cut junk len0) (concat (map concat evs)) = (fs, r)"
  shows "\<exists>c'. read_events junk len0 HandlePdu OnClose tick evs (CImConn tick0, h)
      = Some (c', (if r = None then OnClose else id) (foldl HandlePdu h fs), r = None)
      \<and> (\<forall>rest. r = Some rest \<longrightarrow> contents (m_in_buf c') = rest)"
proof -
  have c0: "wf_buffer (m_in_buf (CImConn tick0))" "contents (m_in_buf (CImConn tick0)) = []"
    by (simp_all add: CImConn_def buf_simps)
  have "cut_all (pdu_cut junk len0) [] = ([], Some [])"
    by (rule pf.cut_all_stop) (simp add: pdu_cut_short)
  then have "cut_chunks (pdu_cut junk len0) [] (map concat evs)
      = cut_all (pdu_cut junk len0) ([] @ concat (map concat evs))"
    using assms(2) by (intro pf.cut_chunks_concat) simp_all
  then show ?thesis
    using read_events_cut_chunks [OF c0(1) assms(1), of junk len0 fs r HandlePdu OnClose tick h]
      assms(2,3) c0(2) by simp
qed

text \<open>A heartbeat of 17 bytes, then 16 bytes with the length zero, in pieces: one PDU is handled, then the stream is rejected.\<close>

definition beat_bytes :: bytes where
  "beat_bytes = [0, 0, 0, 17, 0, 1, 0, 0, 0, 7, 7, 1, 0, 9, 0, 0, 5]"

lemma beat_cut: "\<exists>p. cut_all (pdu_cut (\<lambda>_. 0) 0) (beat_bytes @ replicate 16 0) = ([p], None) \<and> GetLength p = 17"
proof -
  let ?s = "beat_bytes @ replicate 16 0"
  have len: "length ?s = 33" by (simp add: beat_bytes_def)
  have n: "ReadUint32 ?s = 17" by code_simp
  have rest: "drop 17 ?s = replicate 16 0" by (simp add: beat_bytes_def)
  obtain p where p: "pdu_cut (\<lambda>_. 0) 0 ?s = Got p 17" "ReadPdu (\<lambda>_. 0) 0 ?s (of_nat (length ?s)) = Ret (Some p)"
    using ReadPdu_complete(3) [of ?s "\<lambda>_. 0" 0] len n by auto
  then have "unat (GetLength p) = unat (17 :: u32)" by (simp add: pdu_cut_def)
  then have g: "GetLength p = 17" by (simp only: word_unat_eq_iff)
  have "ReadUint32 (replicate 16 0) = 0" by code_simp
  then have "pdu_cut (\<lambda>_. 0) 0 (replicate 16 0) = Reject" by (intro ReadPdu_complete(2)) simp_all
  then have "cut_all (pdu_cut (\<lambda>_. 0) 0) (replicate 16 0) = ([], None)" by (rule pf.cut_all_stop)
  then have "cut_all (pdu_cut (\<lambda>_. 0) 0) ?s = ([p], None)"
    using pf.cut_all_Got [OF _ p(1)] len by (simp add: rest)
  with g show ?thesis by blast
qed

lemma OnRead_chunk_independent_witness:
  "\<exists>c'. read_events (\<lambda>_. 0) 0 (\<lambda>ns p. ns @ [Some (GetLength p)]) (\<lambda>ns. ns @ [None]) 5
      [[take 3 beat_bytes, drop 3 beat_bytes], [[0, 0]], [replicate 14 0]] (CImConn 0, [])
    = Some (c', [Some 17, None], True)"
proof -
  let ?e = "[[take 3 beat_bytes, drop 3 beat_bytes], [[0, 0]], [replicate 14 0]]"
  have e: "concat (map concat ?e) = beat_bytes @ replicate 16 0" "\<forall>e \<in> set ?e. \<forall>x \<in> set e. length x \<le> 2048"
    by (simp_all add: beat_bytes_def eval_nat_numeral)
  obtain p where p: "cut_all (pdu_cut (\<lambda>_. 0) 0) (concat (map concat ?e)) = ([p], None)" "GetLength p = 17"
    using beat_cut unfolding e(1) by blast
  have "length (concat (map concat ?e)) + 2048 < 3 * 2 ^ 30" unfolding e(1) by (simp add: beat_bytes_def)
  from OnRead_chunk_independent [OF e(2) this p(1), of "\<lambda>ns p. ns @ [Some (GetLength p)]" "\<lambda>ns. ns @ [None]" 5 0 "[]"] p(2)
  show ?thesis by auto
qed

end
