(* ===== verification/Route_Server.thy ===== *)
theory Route_Server
  imports Public_Define Conn_Map Im_Conn "HOL-Library.Multiset" "HOL-Library.AList"
begin

text \<open>
  The route server: \<open>route_server/UserInfo.cpp\<close> and \<open>RouteConn.cpp\<close>. Message servers connect to
  it and report which users are logged in; it keeps, per user, the set of message server
  connections and a count per client type, answers status queries and forwards notifications.
  Protobuf parsing is generated code: the record \<open>route_pb\<close> of parsers is a parameter. \<open>SendPdu\<close>
  appends to the outbox of the connection (\<open>Im_Conn\<close> shows that an outbox is delivered in order).
  \<open>netlib_close\<close> records the handle; object lifetime (\<open>ReleaseRef\<close>) is not modelled.
\<close>

subsection \<open>CUserInfo\<close>

record user_info =
  m_RouteConnSet :: "conn set"
  m_ClientTypeList :: "(u32 \<times> u32) list"

definition CUserInfo :: user_info where
  "CUserInfo = \<lparr>m_RouteConnSet = {}, m_ClientTypeList = []\<rparr>"

definition AddRouteConn :: "conn \<Rightarrow> user_info \<Rightarrow> user_info" where
  "AddRouteConn c u = u\<lparr>m_RouteConnSet := insert c (m_RouteConnSet u)\<rparr>"
definition RemoveRouteConn :: "conn \<Rightarrow> user_info \<Rightarrow> user_info" where
  "RemoveRouteConn c u = u\<lparr>m_RouteConnSet := m_RouteConnSet u - {c}\<rparr>"
definition FindRouteConn :: "conn \<Rightarrow> user_info \<Rightarrow> bool" where
  "FindRouteConn c u \<longleftrightarrow> c \<in> m_RouteConnSet u"

text \<open>\<open>GetRouteConnCount() == 0\<close>.\<close>

definition NoRouteConn :: "user_info \<Rightarrow> bool" where
  "NoRouteConn u \<longleftrightarrow> m_RouteConnSet u = {}"

definition AddClientType :: "u32 \<Rightarrow> user_info \<Rightarrow> user_info" where
  "AddClientType t u = u\<lparr>m_ClientTypeList :=
     (case map_of (m_ClientTypeList u) t of
        Some n \<Rightarrow> AList.update t (n + 1) (m_ClientTypeList u)
      | None \<Rightarrow> AList.update t 1 (m_ClientTypeList u))\<rparr>"

definition RemoveClientType :: "u32 \<Rightarrow> user_info \<Rightarrow> user_info" where
  "RemoveClientType t u =
     (case map_of (m_ClientTypeList u) t of
        Some n \<Rightarrow>
          (let n1 = n - 1 in
           u\<lparr>m_ClientTypeList := (if n1 > 0 then AList.update t n1 (m_ClientTypeList u)
                                  else AList.delete t (m_ClientTypeList u))\<rparr>)
      | None \<Rightarrow> u)"

definition GetCountByClientType :: "u32 \<Rightarrow> user_info \<Rightarrow> u32" where
  "GetCountByClientType t u = (case map_of (m_ClientTypeList u) t of Some n \<Rightarrow> n | None \<Rightarrow> 0)"

definition IsMsgConnNULL :: "user_info \<Rightarrow> bool" where
  "IsMsgConnNULL u \<longleftrightarrow> length (m_ClientTypeList u) = 0"

fun any_type :: "(u32 \<Rightarrow> bool) \<Rightarrow> (u32 \<times> u32) list \<Rightarrow> bool" where
  "any_type P [] = False"
| "any_type P ((client_type, n) # it) = (if P client_type then True else any_type P it)"

definition IsPCClientLogin :: "user_info \<Rightarrow> bool" where
  "IsPCClientLogin u = any_type CHECK_CLIENT_TYPE_PC (m_ClientTypeList u)"
definition IsMobileClientLogin :: "user_info \<Rightarrow> bool" where
  "IsMobileClientLogin u = any_type CHECK_CLIENT_TYPE_MOBILE (m_ClientTypeList u)"

definition GetStatus :: "user_info \<Rightarrow> u32" where
  "GetStatus u = (if any_type CHECK_CLIENT_TYPE_PC (m_ClientTypeList u)
                  then USER_STATUS_ONLINE else USER_STATUS_OFFLINE)"

subsection \<open>Messages\<close>

record route_pb =
  pb_online_user_info :: "bytes \<Rightarrow> user_stat list option"
  pb_user_status_update :: "bytes \<Rightarrow> user_stat option"
  pb_role_set :: "bytes \<Rightarrow> u32 option"
  pb_users_stat_req :: "bytes \<Rightarrow> (u32 \<times> u32 list \<times> bytes) option"

datatype route_out =
    RHeartBeat
  | RForward in_pdu
  | RPCLoginStatusNotify u32 u32
  | RUserStatNotify u32 u32
  | RUsersStatRsp u16 u32 bytes "(u32 \<times> u32) list"

definition relayed_cids :: "u16 list" where
  "relayed_cids = [CID_MSG_DATA, CID_SWITCH_P2P_CMD, CID_MSG_READ_NOTIFY, CID_OTHER_SERVER_KICK_USER,
     CID_GROUP_CHANGE_MEMBER_NOTIFY, CID_FILE_NOTIFY, CID_BUDDY_LIST_REMOVE_SESSION_NOTIFY]"

subsection \<open>CRouteConn\<close>

record route_conn =
  rc_handle :: handle
  m_bMaster :: bool
  rc_last_send_tick :: u64
  rc_last_recv_tick :: u64

record route_state =
  g_route_conn_map :: conn_map
  g_user_map :: "u32 \<rightharpoonup> user_info"
  rconn :: "conn \<Rightarrow> route_conn"
  outbox :: "conn \<Rightarrow> route_out list"
  closed :: "handle list"

definition SendPdu :: "u64 \<Rightarrow> route_out \<Rightarrow> conn \<Rightarrow> route_state \<Rightarrow> route_state" where
  "SendPdu now m c st = st\<lparr>outbox := (outbox st)(c := outbox st c @ [m]),
     rconn := (rconn st)(c := (rconn st c)\<lparr>rc_last_send_tick := now\<rparr>)\<rparr>"

definition BroadcastMsg :: "u64 \<Rightarrow> route_out \<Rightarrow> conn option \<Rightarrow> route_state \<Rightarrow> route_state" where
  "BroadcastMsg now m pFromConn st =
     fold (\<lambda>(h, c) st. if Some c \<noteq> pFromConn then SendPdu now m c st else st)
       (g_route_conn_map st) st"

text \<open>\<open>OnConnect\<close> on the fresh object \<open>new CRouteConn()\<close>.\<close>

definition OnConnect :: "u64 \<Rightarrow> conn \<Rightarrow> handle \<Rightarrow> route_state \<Rightarrow> route_state" where
  "OnConnect now this h st =
     st\<lparr>rconn := (rconn st)(this := \<lparr>rc_handle = h, m_bMaster = False,
          rc_last_send_tick = now, rc_last_recv_tick = now\<rparr>),
        g_route_conn_map := cm_insert h this (g_route_conn_map st)\<rparr>"

definition Close :: "conn \<Rightarrow> route_state \<Rightarrow> route_state" where
  "Close this st =
     (let h = rc_handle (rconn st this);
          st = (if h \<noteq> NETLIB_INVALID_HANDLE
                then st\<lparr>closed := closed st @ [h], g_route_conn_map := cm_erase h (g_route_conn_map st)\<rparr>
                else st)
      in st\<lparr>g_user_map := (\<lambda>uid. case g_user_map st uid of
             None \<Rightarrow> None
           | Some u \<Rightarrow> (let u = RemoveRouteConn this u in if NoRouteConn u then None else Some u))\<rparr>)"

definition UpdateUserStatus :: "conn \<Rightarrow> u32 \<Rightarrow> u32 \<Rightarrow> u32 \<Rightarrow> route_state \<Rightarrow> route_state" where
  "UpdateUserStatus this user_id status client_type st =
     (case g_user_map st user_id of
        Some u \<Rightarrow>
          if FindRouteConn this u then
            if status = USER_STATUS_OFFLINE then
              (let u = RemoveClientType client_type u in
               if IsMsgConnNULL u then
                 (let u = RemoveRouteConn this u in
                  if NoRouteConn u then st\<lparr>g_user_map := (g_user_map st)(user_id := None)\<rparr>
                  else st\<lparr>g_user_map := (g_user_map st)(user_id \<mapsto> u)\<rparr>)
               else st\<lparr>g_user_map := (g_user_map st)(user_id \<mapsto> u)\<rparr>)
            else st\<lparr>g_user_map := (g_user_map st)(user_id \<mapsto> AddClientType client_type u)\<rparr>
          else if status \<noteq> USER_STATUS_OFFLINE then
            st\<lparr>g_user_map := (g_user_map st)(user_id \<mapsto> AddClientType client_type (AddRouteConn this u))\<rparr>
          else st
      | None \<Rightarrow>
          if status \<noteq> USER_STATUS_OFFLINE then
            st\<lparr>g_user_map := (g_user_map st)
              (user_id \<mapsto> AddClientType client_type (AddRouteConn this CUserInfo))\<rparr>
          else st)"

definition HandleOnlineUserInfo :: "route_pb \<Rightarrow> conn \<Rightarrow> in_pdu \<Rightarrow> route_state \<Rightarrow> route_state" where
  "HandleOnlineUserInfo pb this p st =
     (case pb_online_user_info pb (in_body p) of
        None \<Rightarrow> st
      | Some stats \<Rightarrow> fold (\<lambda>s. UpdateUserStatus this (us_user_id s) (us_status s) (us_client_type s)) stats st)"

definition notify_status :: "u64 \<Rightarrow> u32 \<Rightarrow> u32 \<Rightarrow> u32 \<Rightarrow> route_state \<Rightarrow> route_state" where
  "notify_status now uid status ct st =
     (let pUser = g_user_map st uid;
          msg2 = RPCLoginStatusNotify uid
            (if status = USER_STATUS_OFFLINE then IM_PC_LOGIN_STATUS_OFF else IM_PC_LOGIN_STATUS_ON);
          st = (case pUser of
                  Some u \<Rightarrow>
                    if status = USER_STATUS_OFFLINE then
                      if CHECK_CLIENT_TYPE_PC ct \<and> \<not> IsPCClientLogin u
                      then BroadcastMsg now msg2 None st else st
                    else if IsPCClientLogin u then BroadcastMsg now msg2 None st else st
                | None \<Rightarrow> st)
      in if CHECK_CLIENT_TYPE_PC ct then
           (case pUser of
              Some u \<Rightarrow>
                if USER_STATUS_OFFLINE = status \<and> IsPCClientLogin u then st
                else BroadcastMsg now (RUserStatNotify uid status) None st
            | None \<Rightarrow> BroadcastMsg now (RUserStatNotify uid status) None st)
         else st)"

definition HandleUserStatusUpdate :: "route_pb \<Rightarrow> u64 \<Rightarrow> conn \<Rightarrow> in_pdu \<Rightarrow> route_state \<Rightarrow> route_state" where
  "HandleUserStatusUpdate pb now this p st =
     (case pb_user_status_update pb (in_body p) of
        None \<Rightarrow> st
      | Some s \<Rightarrow> notify_status now (us_user_id s) (us_status s) (us_client_type s)
          (UpdateUserStatus this (us_user_id s) (us_status s) (us_client_type s) st))"

definition HandleRoleSet :: "route_pb \<Rightarrow> conn \<Rightarrow> in_pdu \<Rightarrow> route_state \<Rightarrow> route_state" where
  "HandleRoleSet pb this p st =
     (case pb_role_set pb (in_body p) of
        None \<Rightarrow> st
      | Some master \<Rightarrow> st\<lparr>rconn := (rconn st)(this := (rconn st this)\<lparr>m_bMaster := (master = 1)\<rparr>)\<rparr>)"

definition HandleUsersStatusRequest :: "route_pb \<Rightarrow> u64 \<Rightarrow> conn \<Rightarrow> in_pdu \<Rightarrow> route_state \<Rightarrow> route_state" where
  "HandleUsersStatusRequest pb now this p st =
     (case pb_users_stat_req pb (in_body p) of
        None \<Rightarrow> st
      | Some (request_id, user_ids, attach) \<Rightarrow>
          SendPdu now (RUsersStatRsp (in_seq p) request_id attach
            (map (\<lambda>uid. (uid, case g_user_map st uid of Some u \<Rightarrow> GetStatus u | None \<Rightarrow> USER_STATUS_OFFLINE))
              user_ids)) this st)"

definition HandlePdu :: "route_pb \<Rightarrow> u64 \<Rightarrow> conn \<Rightarrow> in_pdu \<Rightarrow> route_state \<Rightarrow> route_state" where
  "HandlePdu pb now this p st =
     (let cid = in_cid p in
      if cid = CID_OTHER_HEARTBEAT then st
      else if cid = CID_OTHER_ONLINE_USER_INFO then HandleOnlineUserInfo pb this p st
      else if cid = CID_OTHER_USER_STATUS_UPDATE then HandleUserStatusUpdate pb now this p st
      else if cid = CID_OTHER_ROLE_SET then HandleRoleSet pb this p st
      else if cid = CID_BUDDY_LIST_USERS_STATUS_REQUEST then HandleUsersStatusRequest pb now this p st
      else if cid \<in> set relayed_cids then BroadcastMsg now (RForward p) (Some this) st
      else if cid = CID_BUDDY_LIST_SIGN_INFO_CHANGED_NOTIFY then BroadcastMsg now (RForward p) None st
      else st)"

text \<open>
  A PDU that \<open>CImConn::OnRead\<close> takes off the connection: the receive tick is set, then the handler
  runs. A body that does not parse makes the handler return (\<open>CHECK_PB_PARSE_MSG\<close>).
\<close>

definition RouteRead :: "route_pb \<Rightarrow> u64 \<Rightarrow> conn \<Rightarrow> in_pdu \<Rightarrow> route_state \<Rightarrow> route_state" where
  "RouteRead pb now this p st =
     HandlePdu pb now this p
       (st\<lparr>rconn := (rconn st)(this := (rconn st this)\<lparr>rc_last_recv_tick := now\<rparr>)\<rparr>)"

definition OnTimer :: "u64 \<Rightarrow> conn \<Rightarrow> route_state \<Rightarrow> route_state" where
  "OnTimer curr_tick this st =
     (let st = (if curr_tick > rc_last_send_tick (rconn st this) + SERVER_HEARTBEAT_INTERVAL
                then SendPdu curr_tick RHeartBeat this st else st)
      in if curr_tick > rc_last_recv_tick (rconn st this) + SERVER_TIMEOUT then Close this st else st)"

definition route_serv_timer_callback :: "u64 \<Rightarrow> route_state \<Rightarrow> route_state" where
  "route_serv_timer_callback cur_time st =
     fold (\<lambda>(h, c). OnTimer cur_time c) (g_route_conn_map st) st"

text \<open>\<open>_SendPduToUser\<close>: the connections it sends to.\<close>

definition SendPduToUser_targets :: "conn \<Rightarrow> u32 \<Rightarrow> bool \<Rightarrow> route_state \<Rightarrow> conn set" where
  "SendPduToUser_targets this user_id bAll st =
     (case g_user_map st user_id of None \<Rightarrow> {}
      | Some u \<Rightarrow> {c \<in> m_RouteConnSet u. bAll \<or> c \<noteq> this})"

subsection \<open>The client type counts as a multiset\<close>

lemma any_type_iff: "any_type P xs \<longleftrightarrow> (\<exists>t \<in> dom (map_of xs). P t)"
proof -
  have "any_type P xs \<longleftrightarrow> (\<exists>t \<in> fst ` set xs. P t)"
    by (induction P xs rule: any_type.induct) auto
  then show ?thesis by (simp add: dom_map_of_conv_image_fst)
qed

definition shows_types :: "user_info \<Rightarrow> u32 multiset \<Rightarrow> bool" where
  "shows_types u M \<longleftrightarrow> (\<forall>t. map_of (m_ClientTypeList u) t =
     (if t \<in># M then Some (of_nat (count M t)) else None))"

lemma shows_types_add:
  "shows_types u M \<Longrightarrow> shows_types (AddClientType t u) (add_mset t M)"
  by (auto simp: shows_types_def AddClientType_def update_conv not_in_iff split: option.splits if_splits)

lemma shows_types_remove:
  assumes "shows_types u M" and "size M < 2 ^ 32"
  shows "shows_types (RemoveClientType t u) (M - {#t#})"
proof (cases "t \<in># M")
  case False
  then show ?thesis
    using assms(1) by (simp add: shows_types_def RemoveClientType_def diff_single_trivial)
next
  case True
  have "count M t < 2 ^ 32"
    using assms(2) count_le_size [of M t] by linarith
  moreover obtain n where n: "count M t = Suc n" using True by (cases "count M t") (auto simp: count_eq_zero_iff)
  ultimately have "(of_nat n :: u32) > 0 \<longleftrightarrow> n > 0"
    by (cases "n = 0") (auto simp: word_greater_zero_iff word_of_nat_eq_0_iff dest: dvd_imp_le)
  then show ?thesis
    using assms(1) n True
    by (auto simp: shows_types_def RemoveClientType_def Let_def update_conv delete_conv'
        in_diff_count)
qed

lemma shows_types_null: "shows_types u M \<Longrightarrow> IsMsgConnNULL u \<longleftrightarrow> M = {#}"
proof -
  assume s: "shows_types u M"
  have "IsMsgConnNULL u \<longleftrightarrow> map_of (m_ClientTypeList u) = Map.empty"
    by (simp add: IsMsgConnNULL_def)
  also have "\<dots> \<longleftrightarrow> (\<forall>t. t \<notin># M)"
    using s by (simp add: shows_types_def fun_eq_iff)
  also have "\<dots> \<longleftrightarrow> M = {#}" by (metis empty_not_add_mset multiset_cases union_single_eq_member set_mset_empty empty_iff)
  finally show ?thesis .
qed

lemma shows_types_any:
  "shows_types u M \<Longrightarrow> any_type P (m_ClientTypeList u) \<longleftrightarrow> (\<exists>t \<in># M. P t)"
  by (auto simp: any_type_iff shows_types_def dom_def split: if_splits)

lemma shows_types_count: "shows_types u M \<Longrightarrow> GetCountByClientType t u = of_nat (count M t)"
  by (simp add: shows_types_def GetCountByClientType_def not_in_iff)

lemma set_conns_types [simp]:
  "m_ClientTypeList (AddRouteConn c u) = m_ClientTypeList u"
  "m_ClientTypeList (RemoveRouteConn c u) = m_ClientTypeList u"
  "m_RouteConnSet (AddClientType t u) = m_RouteConnSet u"
  "m_RouteConnSet (RemoveClientType t u) = m_RouteConnSet u"
  by (simp_all add: AddRouteConn_def RemoveRouteConn_def AddClientType_def RemoveClientType_def
      Let_def split: option.splits)

lemma AddRouteConn_conns [simp]: "m_RouteConnSet (AddRouteConn c u) = insert c (m_RouteConnSet u)"
  by (simp add: AddRouteConn_def)

lemma shows_types_conns [simp]:
  "shows_types (AddRouteConn c u) M = shows_types u M"
  "shows_types (RemoveRouteConn c u) M = shows_types u M"
  by (simp_all add: shows_types_def)


subsection \<open>The user map as the live sessions\<close>

text \<open>
  A report is a message server and one status it sends. The live sessions of a user are a multiset
  of pairs (message server, client type); an honest server reports offline only a session it has
  reported online.
\<close>

type_synonym report = "conn \<times> user_stat"

definition report_session :: "report \<Rightarrow> conn \<times> u32" where
  "report_session r = (fst r, us_client_type (snd r))"

fun live :: "u32 \<Rightarrow> report list \<Rightarrow> (conn \<times> u32) multiset \<Rightarrow> (conn \<times> u32) multiset" where
  "live uid [] P = P"
| "live uid (r # rs) P =
     (if us_user_id (snd r) \<noteq> uid then live uid rs P
      else if us_status (snd r) = USER_STATUS_OFFLINE then live uid rs (P - {#report_session r#})
      else live uid rs (add_mset (report_session r) P))"

fun honest :: "u32 \<Rightarrow> report list \<Rightarrow> (conn \<times> u32) multiset \<Rightarrow> bool" where
  "honest uid [] P \<longleftrightarrow> True"
| "honest uid (r # rs) P \<longleftrightarrow>
     (if us_user_id (snd r) \<noteq> uid then honest uid rs P
      else if us_status (snd r) = USER_STATUS_OFFLINE
      then report_session r \<in># P \<and> honest uid rs (P - {#report_session r#})
      else honest uid rs (add_mset (report_session r) P))"

definition apply_reports :: "report list \<Rightarrow> route_state \<Rightarrow> route_state" where
  "apply_reports rs st =
     fold (\<lambda>(c, s). UpdateUserStatus c (us_user_id s) (us_status s) (us_client_type s)) rs st"

definition shows_live :: "u32 \<Rightarrow> (conn \<times> u32) multiset \<Rightarrow> route_state \<Rightarrow> bool" where
  "shows_live uid P st \<longleftrightarrow>
     (case g_user_map st uid of
        None \<Rightarrow> P = {#}
      | Some u \<Rightarrow> shows_types u (image_mset snd P) \<and> fst ` set_mset P \<subseteq> m_RouteConnSet u)"

lemma shows_live_other:
  "uid' \<noteq> uid \<Longrightarrow> shows_live uid P (UpdateUserStatus c uid' s t st) = shows_live uid P st"
  by (simp add: shows_live_def UpdateUserStatus_def Let_def split: option.splits)

lemma shows_live_online:
  assumes "shows_live uid P st" and "s \<noteq> USER_STATUS_OFFLINE"
  shows "shows_live uid (add_mset (c, t) P) (UpdateUserStatus c uid s t st)"
proof (cases "g_user_map st uid")
  case None
  have "shows_types CUserInfo {#}" by (simp add: shows_types_def CUserInfo_def)
  from shows_types_add [OF this, of t] show ?thesis
    using assms None by (simp add: shows_live_def UpdateUserStatus_def shows_types_def
        AddRouteConn_def AddClientType_def CUserInfo_def)
next
  case (Some u)
  then show ?thesis
    using assms by (auto simp: shows_live_def UpdateUserStatus_def FindRouteConn_def
        intro!: shows_types_add)
qed

lemma shows_live_offline:
  assumes l: "shows_live uid P st" and p: "(c, t) \<in># P" and small: "size P < 2 ^ 32"
  shows "shows_live uid (P - {#(c, t)#}) (UpdateUserStatus c uid USER_STATUS_OFFLINE t st)"
proof -
  obtain u where u: "g_user_map st uid = Some u" "shows_types u (image_mset snd P)"
      "fst ` set_mset P \<subseteq> m_RouteConnSet u"
    using l p by (cases "g_user_map st uid") (auto simp: shows_live_def)
  then have c: "FindRouteConn c u" using p by (force simp: FindRouteConn_def)
  have img: "image_mset snd (P - {#(c, t)#}) = image_mset snd P - {#t#}"
    using p by (simp add: image_mset_Diff)
  have types: "shows_types (RemoveClientType t u) (image_mset snd (P - {#(c, t)#}))"
    unfolding img using u(2) small by (intro shows_types_remove) auto
  have null: "IsMsgConnNULL (RemoveClientType t u) \<longleftrightarrow> P - {#(c, t)#} = {#}"
    using shows_types_null [OF types] by simp
  show ?thesis
  proof (cases "P - {#(c, t)#} = {#}")
    case True
    then show ?thesis using u(1) c types null
      by (simp add: shows_live_def UpdateUserStatus_def Let_def)
  next
    case False
    then have "fst ` set_mset (P - {#(c, t)#}) \<subseteq> m_RouteConnSet u"
      using u(3) by (auto dest: in_diffD)
    then show ?thesis using False u(1) c types null
      by (simp add: shows_live_def UpdateUserStatus_def Let_def)
  qed
qed

lemma live_reports:
  "shows_live uid P st \<Longrightarrow> honest uid rs P \<Longrightarrow> size P + length rs < 2 ^ 32
   \<Longrightarrow> shows_live uid (live uid rs P) (apply_reports rs st)"
proof (induction uid rs P arbitrary: st rule: live.induct)
  case (1 uid P)
  then show ?case by (simp add: apply_reports_def)
next
  case (2 uid r rs P)
  obtain c s where r: "r = (c, s)" by (cases r)
  have step: "apply_reports ((c, s) # rs) st = apply_reports rs
      (UpdateUserStatus c (us_user_id s) (us_status s) (us_client_type s) st)"
    by (simp add: apply_reports_def)
  consider (other) "us_user_id s \<noteq> uid" | (off) "us_user_id s = uid" "us_status s = USER_STATUS_OFFLINE"
    | (on) "us_user_id s = uid" "us_status s \<noteq> USER_STATUS_OFFLINE" by blast
  then show ?case
  proof cases
    case other
    then show ?thesis using 2 by (simp add: step r shows_live_other)
  next
    case off
    then have m: "(c, us_client_type s) \<in># P" using "2.prems"(2) by (simp add: r report_session_def)
    then have "size (P - {#(c, us_client_type s)#}) + length rs < 2 ^ 32"
      using "2.prems"(3) by (simp add: size_Diff_singleton)
    then show ?thesis using off 2 m shows_live_offline [OF "2.prems"(1) m]
      by (simp add: step r report_session_def)
  next
    case on
    then show ?thesis using 2 shows_live_online [OF "2.prems"(1) on(2), of c "us_client_type s"]
      by (simp add: step r report_session_def)
  qed
qed


text \<open>What one server reports in a list is a list of reports.\<close>

lemma HandleOnlineUserInfo_reports:
  "pb_online_user_info pb (in_body p) = Some stats \<Longrightarrow>
   HandleOnlineUserInfo pb c p st = apply_reports (map (Pair c) stats) st"
  by (simp add: HandleOnlineUserInfo_def apply_reports_def fold_map comp_def)

text \<open>The state when the process starts.\<close>

definition route_init :: route_state where
  "route_init = \<lparr>g_route_conn_map = [], g_user_map = Map.empty,
     rconn = (\<lambda>_. \<lparr>rc_handle = NETLIB_INVALID_HANDLE, m_bMaster = False,
                rc_last_send_tick = 0, rc_last_recv_tick = 0\<rparr>),
     outbox = (\<lambda>_. []), closed = []\<rparr>"

definition status_of_sessions :: "(conn \<times> u32) multiset \<Rightarrow> u32" where
  "status_of_sessions P = (if \<exists>x \<in># P. CHECK_CLIENT_TYPE_PC (snd x)
                           then USER_STATUS_ONLINE else USER_STATUS_OFFLINE)"

lemma shows_live_status:
  "shows_live uid P st \<Longrightarrow>
   (case g_user_map st uid of Some u \<Rightarrow> GetStatus u | None \<Rightarrow> USER_STATUS_OFFLINE) = status_of_sessions P"
  by (cases "g_user_map st uid")
    (simp_all add: shows_live_def GetStatus_def status_of_sessions_def
      shows_types_any [of _ "image_mset snd P"])

text \<open>
  C12: the route server answers a status query for any users with ONLINE exactly for those that have
  a live session on a PC client on some message server. Any interleaving of honest reports from
  any number of servers, fewer than 2 to the 32.
\<close>

theorem route_status_correct:
  assumes new: "g_user_map st = Map.empty" and hon: "\<forall>uid \<in> set uids. honest uid rs {#}"
    and len: "length rs < 2 ^ 32"
    and req: "pb_users_stat_req pb (in_body p) = Some (request_id, uids, attach)"
  shows "outbox (HandleUsersStatusRequest pb now c p (apply_reports rs st)) c =
    outbox (apply_reports rs st) c @
      [RUsersStatRsp (in_seq p) request_id attach
        (map (\<lambda>uid. (uid, status_of_sessions (live uid rs {#}))) uids)]"
proof -
  have "shows_live uid (live uid rs {#}) (apply_reports rs st)" if "uid \<in> set uids" for uid
    using new hon len that by (intro live_reports) (auto simp: shows_live_def)
  then show ?thesis
    by (simp add: HandleUsersStatusRequest_def req SendPdu_def shows_live_status)
qed

definition example_reports :: "report list" where
  "example_reports =
    [(1, \<lparr>us_user_id = 7, us_status = 1, us_client_type = 1\<rparr>),
     (2, \<lparr>us_user_id = 7, us_status = 1, us_client_type = 0x11\<rparr>),
     (2, \<lparr>us_user_id = 8, us_status = 1, us_client_type = 0x12\<rparr>),
     (1, \<lparr>us_user_id = 7, us_status = 2, us_client_type = 1\<rparr>),
     (2, \<lparr>us_user_id = 7, us_status = 1, us_client_type = 2\<rparr>)]"

definition example_pb :: route_pb where
  "example_pb = \<lparr>pb_online_user_info = (\<lambda>_. None), pb_user_status_update = (\<lambda>_. None),
     pb_role_set = (\<lambda>_. None), pb_users_stat_req = (\<lambda>_. Some (5, [7, 8, 9], []))\<rparr>"

lemma route_status_correct_witness:
  "outbox (HandleUsersStatusRequest example_pb 0 3 \<lparr>in_cid = 0x20a, in_seq = 4, in_body = []\<rparr>
     (apply_reports example_reports route_init)) 3 =
   outbox (apply_reports example_reports route_init) 3 @
     [RUsersStatRsp 4 5 [] [(7, USER_STATUS_ONLINE), (8, USER_STATUS_OFFLINE), (9, USER_STATUS_OFFLINE)]]"
  using route_status_correct [of route_init "[7, 8, 9]" example_reports example_pb
      "\<lparr>in_cid = 0x20a, in_seq = 4, in_body = []\<rparr>" 5 "[]" 0 3]
  by (simp add: route_init_def example_pb_def example_reports_def report_session_def
      USER_STATUS_OFFLINE_def status_of_sessions_def CHECK_CLIENT_TYPE_PC_def)

subsection \<open>Broadcasts\<close>

text \<open>Every registered connection knows the handle it is registered under.\<close>

definition conns_ok :: "route_state \<Rightarrow> bool" where
  "conns_ok st \<longleftrightarrow> cm_ok (g_route_conn_map st) \<and>
     (\<forall>(h, c) \<in> set (g_route_conn_map st). rc_handle (rconn st c) = h \<and> h \<noteq> NETLIB_INVALID_HANDLE)"

lemma conns_distinct: "conns_ok st \<Longrightarrow> distinct (map snd (g_route_conn_map st))"
  by (fastforce simp: conns_ok_def cm_ok_def distinct_map inj_on_def)

lemma SendPdu_frame [simp]:
  "g_route_conn_map (SendPdu now m c st) = g_route_conn_map st"
  "g_user_map (SendPdu now m c st) = g_user_map st"
  "closed (SendPdu now m c st) = closed st"
  "rc_handle (rconn (SendPdu now m c st) d) = rc_handle (rconn st d)"
  by (simp_all add: SendPdu_def)

lemma fold_send_frame:
  "let st' = fold (\<lambda>(h, c) st. if Some c \<noteq> from then SendPdu now m c st else st) xs st in
     g_route_conn_map st' = g_route_conn_map st \<and> g_user_map st' = g_user_map st \<and>
     closed st' = closed st \<and> (\<forall>d. rc_handle (rconn st' d) = rc_handle (rconn st d))"
  by (induction xs arbitrary: st) (auto simp: Let_def)

lemma BroadcastMsg_frame [simp]:
  "g_route_conn_map (BroadcastMsg now m from st) = g_route_conn_map st"
  "g_user_map (BroadcastMsg now m from st) = g_user_map st"
  "closed (BroadcastMsg now m from st) = closed st"
  "rc_handle (rconn (BroadcastMsg now m from st) d) = rc_handle (rconn st d)"
  using fold_send_frame [of "from" now m "g_route_conn_map st" st]
  by (simp_all add: BroadcastMsg_def Let_def)

lemma fold_send_outbox:
  "distinct (map snd xs) \<Longrightarrow>
   outbox (fold (\<lambda>(h, c) st. if Some c \<noteq> from then SendPdu now m c st else st) xs st) d =
   outbox st d @ (if d \<in> snd ` set xs \<and> Some d \<noteq> from then [m] else [])"
  by (induction xs arbitrary: st) (auto simp: SendPdu_def image_iff)

lemma BroadcastMsg_outbox:
  "conns_ok st \<Longrightarrow> outbox (BroadcastMsg now m from st) d =
   outbox st d @ (if d \<in> snd ` set (g_route_conn_map st) \<and> Some d \<noteq> from then [m] else [])"
  unfolding BroadcastMsg_def by (rule fold_send_outbox) (rule conns_distinct)

subsection \<open>Reachable states\<close>

lemma rc_upd_frame [simp]:
  "conns_ok (st\<lparr>g_user_map := u\<rparr>) = conns_ok st"
  by (simp add: conns_ok_def)

definition registered :: "route_state \<Rightarrow> conn set" where
  "registered st = snd ` set (g_route_conn_map st)"

lemma in_registered: "d \<in> registered st \<longleftrightarrow> (\<exists>k. (k, d) \<in> set (g_route_conn_map st))"
  by (force simp: registered_def)

definition route_inv :: "route_state \<Rightarrow> bool" where
  "route_inv st \<longleftrightarrow> conns_ok st \<and>
     (\<forall>uid u. g_user_map st uid = Some u \<longrightarrow>
        m_RouteConnSet u \<noteq> {} \<and> m_RouteConnSet u \<subseteq> registered st)"

lemma route_inv_cong:
  "g_route_conn_map st' = g_route_conn_map st \<Longrightarrow> g_user_map st' = g_user_map st \<Longrightarrow>
   (\<forall>d. rc_handle (rconn st' d) = rc_handle (rconn st d)) \<Longrightarrow> route_inv st' = route_inv st"
  by (simp add: route_inv_def conns_ok_def registered_def)

lemma route_inv_send [simp]:
  "route_inv (SendPdu now m c st) = route_inv st"
  "route_inv (BroadcastMsg now m from st) = route_inv st"
  by (rule route_inv_cong; simp)+

lemma route_inv_init: "route_inv route_init"
  by (simp add: route_inv_def route_init_def conns_ok_def)

lemma route_inv_connect:
  assumes inv: "route_inv st" and c: "c \<notin> registered st" and h: "h \<noteq> NETLIB_INVALID_HANDLE"
    and fresh: "map_of (g_route_conn_map st) h = None"
  shows "route_inv (OnConnect now c h st)"
proof -
  have map: "g_route_conn_map (OnConnect now c h st) = (h, c) # g_route_conn_map st"
    using fresh by (simp add: OnConnect_def cm_insert_def)
  have "registered st \<subseteq> registered (OnConnect now c h st)"
    by (auto simp: registered_def map)
  moreover have "conns_ok (OnConnect now c h st)"
    unfolding conns_ok_def map using inv c h fresh
    by (auto simp: route_inv_def conns_ok_def OnConnect_def cm_ok_def in_registered map_of_eq_None_iff)
  ultimately show ?thesis
    using inv by (fastforce simp: route_inv_def OnConnect_def)
qed

lemma Close_conns:
  assumes ok: "conns_ok st" and reg: "(h, c) \<in> set (g_route_conn_map st)"
  shows "conns_ok (Close c st)" and "registered (Close c st) = registered st - {c}"
proof -
  have h: "rc_handle (rconn st c) = h" "h \<noteq> NETLIB_INVALID_HANDLE"
    using assms by (auto simp: conns_ok_def)
  have map: "g_route_conn_map (Close c st) = cm_erase h (g_route_conn_map st)"
    using h by (simp add: Close_def Let_def)
  show "conns_ok (Close c st)"
    unfolding conns_ok_def map using ok h cm.inv_erase [of "g_route_conn_map st" h]
    by (auto simp: conns_ok_def Close_def Let_def)
  have "k = h \<longleftrightarrow> d = c" if "(k, d) \<in> set (g_route_conn_map st)" for k d
    using that ok reg h by (auto simp: conns_ok_def cm_ok_def dest: eq_key_imp_eq_value)
  then show "registered (Close c st) = registered st - {c}"
    by (auto simp: set_eq_iff in_registered map)
qed

lemma Close_users:
  "g_user_map (Close c st) uid = (case g_user_map st uid of None \<Rightarrow> None
     | Some u \<Rightarrow> if m_RouteConnSet u \<subseteq> {c} then None else Some (RemoveRouteConn c u))"
  by (simp add: Close_def Let_def RemoveRouteConn_def NoRouteConn_def Diff_eq_empty_iff split: option.splits)

lemma route_inv_Close:
  assumes "route_inv st" and "c \<in> registered st"
  shows "route_inv (Close c st)"
proof -
  obtain h where h: "(h, c) \<in> set (g_route_conn_map st)" using assms(2) by (auto simp: registered_def)
  have "conns_ok st" using assms(1) by (simp add: route_inv_def)
  from Close_conns [OF this h] show ?thesis
    using assms(1) by (auto simp: route_inv_def Close_users RemoveRouteConn_def split: option.splits if_splits)
qed

lemma route_inv_update:
  assumes "route_inv st" and "c \<in> registered st"
  shows "route_inv (UpdateUserStatus c uid s t st) \<and> c \<in> registered (UpdateUserStatus c uid s t st)"
proof -
  have frame: "g_route_conn_map (UpdateUserStatus c uid s t st) = g_route_conn_map st"
      "rconn (UpdateUserStatus c uid s t st) = rconn st"
    by (simp_all add: UpdateUserStatus_def Let_def split: option.splits)
  have "\<forall>uid' u. g_user_map (UpdateUserStatus c uid s t st) uid' = Some u \<longrightarrow>
      m_RouteConnSet u \<noteq> {} \<and> m_RouteConnSet u \<subseteq> registered st"
    using assms by (auto simp: route_inv_def UpdateUserStatus_def Let_def NoRouteConn_def
        CUserInfo_def split: option.splits if_splits) (auto simp: RemoveRouteConn_def)
  then show ?thesis
    using assms frame by (simp add: route_inv_def registered_def conns_ok_def)
qed

lemma UpdateUserStatus_frame [simp]:
  "g_route_conn_map (UpdateUserStatus c uid s t st) = g_route_conn_map st"
  "rconn (UpdateUserStatus c uid s t st) = rconn st"
  "outbox (UpdateUserStatus c uid s t st) = outbox st"
  by (simp_all add: UpdateUserStatus_def Let_def split: option.splits)

lemma route_inv_updates:
  "route_inv st \<Longrightarrow> c \<in> registered st \<Longrightarrow>
   route_inv (fold (\<lambda>s. UpdateUserStatus c (us_user_id s) (us_status s) (us_client_type s)) stats st)"
  by (induction stats arbitrary: st) (auto simp: route_inv_update)

lemma notify_status_frame [simp]:
  "g_route_conn_map (notify_status now uid s t st) = g_route_conn_map st"
  "g_user_map (notify_status now uid s t st) = g_user_map st"
  by (simp_all add: notify_status_def Let_def split: option.split)

lemma route_inv_notify [simp]: "route_inv (notify_status now uid s t st) = route_inv st"
  by (auto simp: notify_status_def Let_def split: option.splits)

lemma route_inv_rconn:
  "\<forall>d. rc_handle (f d) = rc_handle (rconn st d) \<Longrightarrow> route_inv st \<Longrightarrow> route_inv (st\<lparr>rconn := f\<rparr>)"
  by (rule route_inv_cong [THEN iffD2]) auto

lemma route_inv_handlers:
  assumes "route_inv st" and "c \<in> registered st"
  shows "route_inv (HandleOnlineUserInfo pb c p st)"
    and "route_inv (HandleUserStatusUpdate pb now c p st)"
    and "route_inv (HandleRoleSet pb c p st)"
    and "route_inv (HandleUsersStatusRequest pb now c p st)"
  using assms
  by (auto simp: HandleOnlineUserInfo_def HandleUserStatusUpdate_def HandleRoleSet_def
      HandleUsersStatusRequest_def route_inv_updates route_inv_update intro!: route_inv_rconn
      split: option.split)

lemma route_inv_pdu:
  assumes "route_inv st" and "c \<in> registered st"
  shows "route_inv (RouteRead pb now c p st)"
proof -
  let ?st = "st\<lparr>rconn := (rconn st)(c := (rconn st c)\<lparr>rc_last_recv_tick := now\<rparr>)\<rparr>"
  have inv: "route_inv ?st" using assms(1) by (intro route_inv_rconn) auto
  have reg: "c \<in> registered ?st" using assms(2) by (simp add: registered_def)
  show ?thesis
    unfolding RouteRead_def HandlePdu_def Let_def
    by (simp only: route_inv_handlers [OF inv reg] route_inv_send inv split: if_split) simp
qed

lemma route_inv_OnTimer:
  assumes "route_inv st" and "c \<in> registered st"
  shows "route_inv (OnTimer now c st)" and "registered st - {c} \<subseteq> registered (OnTimer now c st)"
proof -
  obtain h where h: "(h, c) \<in> set (g_route_conn_map st)" using assms by (auto simp: in_registered)
  let ?st = "if now > rc_last_send_tick (rconn st c) + SERVER_HEARTBEAT_INTERVAL
             then SendPdu now RHeartBeat c st else st"
  have same: "route_inv ?st" "registered ?st = registered st" "(h, c) \<in> set (g_route_conn_map ?st)"
    using assms h by (auto simp: registered_def)
  then have "conns_ok ?st" by (simp add: route_inv_def)
  note close = Close_conns [OF this same(3)]
  have "route_inv (Close c ?st)" using same(1,2) assms(2) by (intro route_inv_Close) auto
  then show "route_inv (OnTimer now c st)" using same(1) by (simp add: OnTimer_def Let_def)
  show "registered st - {c} \<subseteq> registered (OnTimer now c st)"
    using same(2) close(2) by (auto simp: OnTimer_def Let_def)
qed

lemma route_inv_timers:
  "route_inv st \<Longrightarrow> snd ` set xs \<subseteq> registered st \<Longrightarrow> distinct (map snd xs) \<Longrightarrow>
   route_inv (fold (\<lambda>(h, c). OnTimer now c) xs st)"
proof (induction xs arbitrary: st)
  case (Cons x xs)
  obtain h c where x: "x = (h, c)" by (cases x)
  have c: "c \<in> registered st" using Cons.prems by (simp add: x)
  have "snd ` set xs \<subseteq> registered (OnTimer now c st)"
    using Cons.prems route_inv_OnTimer(2) [OF Cons.prems(1) c, of now] by (auto simp: x)
  then show ?case
    using Cons route_inv_OnTimer(1) [OF Cons.prems(1) c] by (simp add: x)
qed simp

text \<open>
  One event of the event loop: a message server connects (on a fresh object and handle), a PDU
  arrives on a registered connection, a connection is closed, the timer fires.
\<close>

inductive route_step :: "route_pb \<Rightarrow> route_state \<Rightarrow> route_state \<Rightarrow> bool" for pb where
  connect: "c \<notin> registered st \<Longrightarrow> h \<noteq> NETLIB_INVALID_HANDLE \<Longrightarrow>
    map_of (g_route_conn_map st) h = None \<Longrightarrow> route_step pb st (OnConnect now c h st)"
| pdu: "c \<in> registered st \<Longrightarrow> route_step pb st (RouteRead pb now c p st)"
| close: "c \<in> registered st \<Longrightarrow> route_step pb st (Close c st)"
| timer: "route_step pb st (route_serv_timer_callback now st)"

lemma route_inv_step: "route_step pb st st' \<Longrightarrow> route_inv st \<Longrightarrow> route_inv st'"
proof (induction rule: route_step.induct)
  case (timer st now)
  then show ?case
    unfolding route_serv_timer_callback_def
    by (intro route_inv_timers) (auto simp: registered_def route_inv_def conns_distinct)
qed (simp_all add: route_inv_connect route_inv_pdu route_inv_Close)

lemma route_inv_reachable: "(route_step pb)\<^sup>*\<^sup>* route_init st \<Longrightarrow> route_inv st"
  by (induction rule: rtranclp_induct) (auto simp: route_inv_init route_inv_step)

text \<open>
  In every state the route server reaches, a user it holds is on at least one message server,
  and only on servers that are connected. So no connection of a closed server is ever used, and
  with no server connected no user is held.
\<close>

lemma route_users_on_connected_servers:
  assumes "(route_step pb)\<^sup>*\<^sup>* route_init st" and "g_user_map st uid = Some u"
  shows "m_RouteConnSet u \<noteq> {} \<and> m_RouteConnSet u \<subseteq> registered st \<and> g_route_conn_map st \<noteq> []"
proof -
  have "m_RouteConnSet u \<noteq> {} \<and> m_RouteConnSet u \<subseteq> registered st"
    using route_inv_reachable [OF assms(1)] assms(2) by (auto simp: route_inv_def)
  then show ?thesis by (auto simp: registered_def)
qed

definition example_pb2 :: route_pb where
  "example_pb2 = example_pb\<lparr>pb_user_status_update :=
     (\<lambda>_. Some \<lparr>us_user_id = 7, us_status = 1, us_client_type = 1\<rparr>)\<rparr>"

definition example_state :: route_state where
  "example_state = RouteRead example_pb2 3 1 \<lparr>in_cid = 0x70a, in_seq = 0, in_body = []\<rparr>
     (OnConnect 2 2 6 (OnConnect 1 1 5 route_init))"

lemma example_state_reachable: "(route_step example_pb2)\<^sup>*\<^sup>* route_init example_state"
proof -
  have "route_step example_pb2 route_init (OnConnect 1 1 5 route_init)"
    by (rule route_step.connect) (simp_all add: registered_def route_init_def NETLIB_INVALID_HANDLE_def)
  moreover have "route_step example_pb2 (OnConnect 1 1 5 route_init) (OnConnect 2 2 6 (OnConnect 1 1 5 route_init))"
    by (rule route_step.connect)
      (simp_all add: registered_def route_init_def NETLIB_INVALID_HANDLE_def OnConnect_def cm_insert_def)
  moreover have "route_step example_pb2 (OnConnect 2 2 6 (OnConnect 1 1 5 route_init)) example_state"
    unfolding example_state_def
    by (rule route_step.pdu) (simp add: registered_def OnConnect_def cm_insert_def route_init_def)
  ultimately show ?thesis by (meson converse_rtranclp_into_rtranclp rtranclp.rtrancl_refl)
qed

lemma example_state_eval:
  "g_route_conn_map example_state = [(6, 2), (5, 1)]"
  "g_user_map example_state 7 = Some \<lparr>m_RouteConnSet = {1}, m_ClientTypeList = [(1, 1)]\<rparr>"
  by (simp_all add: example_state_def RouteRead_def HandlePdu_def HandleUserStatusUpdate_def
      example_pb2_def CID_OTHER_HEARTBEAT_def CID_OTHER_ONLINE_USER_INFO_def CID_OTHER_USER_STATUS_UPDATE_def
      OnConnect_def cm_insert_def route_init_def)
    (simp add: UpdateUserStatus_def USER_STATUS_OFFLINE_def CUserInfo_def AddRouteConn_def AddClientType_def)

lemma route_users_on_connected_servers_witness:
  "\<lparr>m_RouteConnSet = {1}, m_ClientTypeList = [(1, 1)]\<rparr> = the (g_user_map example_state 7) \<and>
   {1} \<subseteq> registered example_state"
  using route_users_on_connected_servers [OF example_state_reachable example_state_eval(2)]
  by (simp add: example_state_eval)

text \<open>
  C13: in every reachable state a broadcast puts the message once into the outbox of each connected
  message server but the one it came from, and changes no other outbox.
\<close>

theorem route_broadcast_once:
  assumes "(route_step pb)\<^sup>*\<^sup>* route_init st"
  shows "outbox (BroadcastMsg now m from st) d =
    outbox st d @ (if d \<in> registered st \<and> Some d \<noteq> from then [m] else [])"
  using route_inv_reachable [OF assms] BroadcastMsg_outbox [of st now m "from" d]
  by (simp add: route_inv_def registered_def)

lemma route_broadcast_once_witness:
  "outbox (BroadcastMsg 4 RHeartBeat (Some 1) example_state) 2 = outbox example_state 2 @ [RHeartBeat]"
  using route_broadcast_once [OF example_state_reachable, of 4 RHeartBeat "Some 1" 2]
  by (simp add: registered_def example_state_eval)

text \<open>
  When a message server is disconnected, a user who is also on another server keeps every
  client type count, the lost sessions included, and so the status the route server reports. A
  user left on mobile only is still reported ONLINE (the witness).
\<close>

lemma route_close_keeps_lost_sessions:
  assumes "g_user_map st uid = Some u" and "d \<in> m_RouteConnSet u" and "d \<noteq> c"
  shows "\<exists>u'. g_user_map (Close c st) uid = Some u' \<and> m_ClientTypeList u' = m_ClientTypeList u \<and>
     m_RouteConnSet u' = m_RouteConnSet u - {c} \<and> GetStatus u' = GetStatus u"
  using assms by (auto simp: Close_users GetStatus_def RemoveRouteConn_def)

definition two_servers :: route_state where
  "two_servers = apply_reports
    [(1, \<lparr>us_user_id = 7, us_status = 1, us_client_type = 1\<rparr>),
     (2, \<lparr>us_user_id = 7, us_status = 1, us_client_type = 0x11\<rparr>)] route_init"

lemma route_close_keeps_lost_sessions_witness:
  "\<exists>u'. g_user_map (Close 1 two_servers) 7 = Some u' \<and> m_RouteConnSet u' = {2} \<and>
     GetStatus u' = USER_STATUS_ONLINE"
proof -
  have "g_user_map two_servers 7 = Some \<lparr>m_RouteConnSet = {1, 2}, m_ClientTypeList = [(1, 1), (0x11, 1)]\<rparr>"
    by (simp add: two_servers_def apply_reports_def UpdateUserStatus_def USER_STATUS_OFFLINE_def
        route_init_def CUserInfo_def AddRouteConn_def AddClientType_def FindRouteConn_def insert_commute)
  from route_close_keeps_lost_sessions [OF this, of 2 1] show ?thesis
    by (auto simp: GetStatus_def CHECK_CLIENT_TYPE_PC_def)
qed

definition offline_notices :: "u32 \<Rightarrow> (conn \<times> u32) multiset \<Rightarrow> bool \<Rightarrow> route_out list" where
  "offline_notices uid P held =
     (if status_of_sessions P = USER_STATUS_ONLINE then []
      else (if held then [RPCLoginStatusNotify uid IM_PC_LOGIN_STATUS_OFF] else [])
           @ [RUserStatNotify uid USER_STATUS_OFFLINE])"

text \<open>
  When a PC session of a user ends, every connected message server is told once that the user
  is offline if no PC session is left (with the login notice first when the user is still on a
  mobile client), and nothing is sent while another PC session is live.
\<close>

lemma route_pc_logout_notices:
  assumes inv: "route_inv st" and live: "shows_live uid P st" and mem: "(c, t) \<in># P"
    and small: "size P < 2 ^ 32" and pc: "CHECK_CLIENT_TYPE_PC t"
    and msg: "pb_user_status_update pb (in_body p) =
        Some \<lparr>us_user_id = uid, us_status = USER_STATUS_OFFLINE, us_client_type = t\<rparr>"
    and reg: "c \<in> registered st" and d: "d \<in> registered st"
  shows "outbox (HandleUserStatusUpdate pb now c p st) d = outbox st d @
     offline_notices uid (P - {#(c, t)#})
       (g_user_map (HandleUserStatusUpdate pb now c p st) uid \<noteq> None)"
proof -
  let ?st = "UpdateUserStatus c uid USER_STATUS_OFFLINE t st"
  have ok: "conns_ok ?st" using route_inv_update [OF inv reg] by (simp add: route_inv_def)
  have d': "d \<in> snd ` set (g_route_conn_map st)" using d by (simp add: registered_def)
  have ok2: "conns_ok (BroadcastMsg now m from ?st)" for m "from"
    using ok by (simp add: conns_ok_def)
  have s: "(case g_user_map ?st uid of Some u \<Rightarrow> GetStatus u | None \<Rightarrow> USER_STATUS_OFFLINE)
      = status_of_sessions (P - {#(c, t)#})"
    by (intro shows_live_status shows_live_offline live mem small)
  then have pcs: "g_user_map ?st uid = Some u \<Longrightarrow>
      IsPCClientLogin u \<longleftrightarrow> status_of_sessions (P - {#(c, t)#}) = USER_STATUS_ONLINE" for u
    by (auto simp: GetStatus_def IsPCClientLogin_def USER_STATUS_ONLINE_def USER_STATUS_OFFLINE_def
        split: if_splits)
  show ?thesis
  proof (cases "g_user_map ?st uid")
    case None
    then have "status_of_sessions (P - {#(c, t)#}) \<noteq> USER_STATUS_ONLINE"
      using s by (auto simp: USER_STATUS_ONLINE_def USER_STATUS_OFFLINE_def)
    then show ?thesis using None pc d'
      by (simp add: HandleUserStatusUpdate_def msg notify_status_def BroadcastMsg_outbox [OF ok]
          offline_notices_def)
  next
    case (Some u)
    then show ?thesis using pcs [OF Some] pc d'
      by (simp add: HandleUserStatusUpdate_def msg notify_status_def Let_def
          BroadcastMsg_outbox [OF ok] BroadcastMsg_outbox [OF ok2] offline_notices_def)
  qed
qed

lemma route_pc_logout_notices_witness:
  "outbox (HandleUserStatusUpdate
      (example_pb2\<lparr>pb_user_status_update :=
         (\<lambda>_. Some \<lparr>us_user_id = 7, us_status = USER_STATUS_OFFLINE, us_client_type = 1\<rparr>)\<rparr>)
      9 1 \<lparr>in_cid = 0x70a, in_seq = 0, in_body = []\<rparr> example_state) 2
   = outbox example_state 2 @ [RUserStatNotify 7 USER_STATUS_OFFLINE]"
proof -
  let ?pb = "example_pb2\<lparr>pb_user_status_update :=
         (\<lambda>_. Some \<lparr>us_user_id = 7, us_status = USER_STATUS_OFFLINE, us_client_type = 1\<rparr>)\<rparr>"
  let ?p = "\<lparr>in_cid = 0x70a, in_seq = 0, in_body = []\<rparr>"
  have live: "shows_live 7 {#(1, 1)#} example_state"
    by (simp add: shows_live_def example_state_eval shows_types_def)
  have reg: "1 \<in> registered example_state" "2 \<in> registered example_state"
    by (simp_all add: registered_def example_state_eval)
  have gone: "g_user_map (HandleUserStatusUpdate ?pb 9 1 ?p example_state) 7 = None"
    by (simp add: HandleUserStatusUpdate_def)
      (simp add: UpdateUserStatus_def example_state_eval FindRouteConn_def
        RemoveClientType_def IsMsgConnNULL_def NoRouteConn_def RemoveRouteConn_def)
  show ?thesis
    using route_pc_logout_notices [OF route_inv_reachable [OF example_state_reachable] live, of 1 1 ?pb ?p 2 9]
      reg gone
    by (simp add: CHECK_CLIENT_TYPE_PC_def offline_notices_def status_of_sessions_def
        USER_STATUS_ONLINE_def USER_STATUS_OFFLINE_def)
qed

end
