(* ===== verification/Url_Id.thy ===== *)
theory Url_Id
  imports TT_Base
begin

text \<open>
  \<open>idtourl\<close> and \<open>urltoid\<close> of \<open>base/UtilPdu.cpp\<close>: user ids as base 36 strings with a leading
  version digit. \<open>p\<close> is the offset of \<open>ptr\<close> in the 64 byte static buffer.
\<close>

definition url_digits :: string where
  "url_digits = ''0123456789abcdefghijklmnopqrstuvwxyz''"

fun idtourl_loop :: "nat \<Rightarrow> u32 \<Rightarrow> string \<Rightarrow> string" where
  "idtourl_loop p val out =
     (let p' = p - 1;
          out' = url_digits ! unat (val mod 36) # out;
          val' = val div 36
      in if p' > 0 \<and> val' \<noteq> 0 then idtourl_loop p' val' out' else out')"

declare idtourl_loop.simps [simp del]

definition idtourl :: "u32 \<Rightarrow> string" where
  "idtourl uid = CHR ''1'' # idtourl_loop 63 (uid * 2 + 56) []"

text \<open>The digit of a character, as the \<open>char\<close> arithmetic computes it; \<open>None\<close> is \<open>continue\<close>.\<close>

definition url_char :: "char \<Rightarrow> u32 option" where
  "url_char c = (let v = of_char c :: nat in
     if 48 \<le> v \<and> v \<le> 57 then Some (of_nat (v - 48))
     else if 97 \<le> v \<and> v \<le> 122 then Some (of_nat (v - 87))
     else if 65 \<le> v \<and> v \<le> 90 then Some (of_nat (v - 55))
     else None)"

fun urltoid_loop :: "u32 \<Rightarrow> string \<Rightarrow> u32" where
  "urltoid_loop number [] = number"
| "urltoid_loop number (c # cs) =
     (case url_char c of None \<Rightarrow> urltoid_loop number cs
      | Some d \<Rightarrow> urltoid_loop (number * 36 + d) cs)"

text \<open>A string with at most one character leaves \<open>number\<close> zero (the loop starts at index 1).\<close>

definition urltoid :: "string \<Rightarrow> u32" where
  "urltoid url = drop_bit 1 (urltoid_loop 0 (drop 1 url) - 56)"

lemma url_chars: "map url_char url_digits = map (\<lambda>n. Some (of_nat n)) [0..<36]"
  by (simp add: url_digits_def url_char_def upt_rec numeral_eq_Suc)

lemma url_char_digit: "n < 36 \<Longrightarrow> url_char (url_digits ! n) = Some (of_nat n)"
proof -
  assume n: "n < 36"
  then have "n < length url_digits" by (simp add: url_digits_def)
  then have "url_char (url_digits ! n) = map url_char url_digits ! n" by simp
  then show ?thesis using n by (simp only: url_chars) simp
qed

lemma word_div_mod_36: "(val div 36) * 36 + val mod 36 = (val :: u32)"
  by (rule word_mod_div_equality)

lemma urltoid_loop_digit:
  "urltoid_loop n (url_digits ! unat (val mod 36 :: u32) # cs)
     = urltoid_loop (n * 36 + val mod 36) cs"
proof -
  have "unat (val mod 36) < 36" by (simp add: unat_mod)
  then show ?thesis by (simp add: url_char_digit)
qed

lemma urltoid_idtourl_loop:
  "unat val < 36 ^ p \<Longrightarrow> 0 < p \<Longrightarrow>
     urltoid_loop 0 (idtourl_loop p val out) = urltoid_loop val out"
proof (induction p val out rule: idtourl_loop.induct)
  case (1 p val out)
  let ?v = "val div 36" and ?o = "url_digits ! unat (val mod 36) # out"
  have bound: "unat ?v < 36 ^ (p - 1)"
    using "1.prems" by (cases p) (simp_all add: unat_div less_mult_imp_div_less)
  show ?case
  proof (cases "p - 1 > 0 \<and> ?v \<noteq> 0")
    case True
    have "urltoid_loop 0 (idtourl_loop (p - 1) ?v ?o) = urltoid_loop ?v ?o"
      using True bound by (intro "1.IH") simp_all
    also have "\<dots> = urltoid_loop val out"
      by (simp only: urltoid_loop_digit word_div_mod_36)
    finally show ?thesis using True by (simp add: idtourl_loop.simps [of p] Let_def)
  next
    case False
    then have "?v = 0" using bound by (auto simp: word_unat_eq_iff)
    then have "val mod 36 = val" using word_div_mod_36 [of val] by simp
    then show ?thesis
      using False urltoid_loop_digit [of 0 val out]
      by (auto simp: idtourl_loop.simps [of p] Let_def)
  qed
qed

text \<open>The round trip for every uid: the top bit is lost in \<open>uid * 2\<close>, all others survive.\<close>

theorem urltoid_idtourl_mask: "urltoid (idtourl uid) = take_bit 31 uid"
proof -
  have "unat (uid * 2 + 56) < 36 ^ 63"
    using unat_u32_lt [of "uid * 2 + 56"] by (rule less_trans) simp
  then have "urltoid (idtourl uid) = drop_bit 1 (uid * 2)"
    by (simp add: urltoid_def idtourl_def urltoid_idtourl_loop)
  also have "uid * 2 = 2 * uid" by (rule mult.commute)
  also have "drop_bit 1 (2 * uid) = take_bit 31 uid"
    by (rule bit_word_eqI) (auto simp: bit_simps)
  finally show ?thesis .
qed

end
