(* ===== verification/Str_Util.thy ===== *)
theory Str_Util
  imports TT_Base
begin

text \<open>
  Strings: the helpers of \<open>base/util.cpp\<close> (\<open>CStrExplode\<close>, \<open>replaceStr\<close>, \<open>int2string\<close>, \<open>replace_mark\<close>,
  \<open>URLEncode\<close>, \<open>memfind\<close>), the test of \<open>login_server/ipparser.cpp\<close>, and the C library functions the servers
  call on strings. A string is its bytes; a C string in memory ends at the first null byte (\<open>c_str\<close>).
  A read past the end of a string is the value \<open>None\<close>.
\<close>

subsection \<open>Decimal numbers and C strings\<close>

definition digit_char :: "nat \<Rightarrow> u8" where
  "digit_char n = of_nat (48 + n)"

fun show_nat :: "nat \<Rightarrow> bytes" where
  "show_nat n = (if n < 10 then [digit_char n] else show_nat (n div 10) @ [digit_char (n mod 10)])"

declare show_nat.simps [simp del]

text \<open>\<open>sprintf(p, "%u", id)\<close> and \<open>sprintf(p, "%ld", t)\<close>.\<close>

definition sprintf_u :: "u32 \<Rightarrow> bytes" where
  "sprintf_u n = show_nat (unat n)"

definition sprintf_ld :: "u64 \<Rightarrow> bytes" where
  "sprintf_ld t = (if sint t < 0 then 45 # show_nat (nat (- sint t)) else show_nat (nat (sint t)))"

definition is_digit :: "u8 \<Rightarrow> bool" where
  "is_digit c \<longleftrightarrow> 48 \<le> c \<and> c \<le> 57"

definition is_space :: "u8 \<Rightarrow> bool" where
  "is_space c \<longleftrightarrow> c = 32 \<or> 9 \<le> c \<and> c \<le> 13"

fun read_nat :: "nat \<Rightarrow> bytes \<Rightarrow> nat" where
  "read_nat acc [] = acc"
| "read_nat acc (c # cs) = (if is_digit c then read_nat (10 * acc + (unat c - 48)) cs else acc)"

text \<open>\<open>atoi\<close> is \<open>(int)strtol\<close>: white space, a sign, digits; \<open>strtol\<close> clamps to 64 bits.\<close>

definition strtol :: "bytes \<Rightarrow> int" where
  "strtol s = (case dropWhile is_space s of
       [] \<Rightarrow> 0
     | c # cs \<Rightarrow> if c = 45 then max (- (2 ^ 63)) (- int (read_nat 0 cs))
                 else if c = 43 then min (2 ^ 63 - 1) (int (read_nat 0 cs))
                 else min (2 ^ 63 - 1) (int (read_nat 0 (c # cs))))"

definition string2int :: "bytes \<Rightarrow> u32" where
  "string2int s = of_int (strtol s)"

definition c_str :: "bytes \<Rightarrow> bytes" where
  "c_str p = takeWhile (\<lambda>c. c \<noteq> 0) p"

text \<open>\<open>strncpy(p, s, n)\<close> with \<open>n\<close> at most the length of \<open>s\<close>, and \<open>sprintf\<close> through a pointer.\<close>

definition strncpy :: "bytes \<Rightarrow> nat \<Rightarrow> bytes \<Rightarrow> bytes" where
  "strncpy s n p = take n s @ drop n p"

definition sprintf_to :: "bytes \<Rightarrow> bytes \<Rightarrow> bytes" where
  "sprintf_to s p = s @ [0] @ drop (length s + 1) p"

subsection \<open>Printed numbers are read back\<close>

lemma digit_char_unat: "n < 10 \<Longrightarrow> unat (digit_char n) = 48 + n"
  by (simp add: digit_char_def unat_of_nat take_bit_nat_eq_self del: of_nat_add)

lemma digit_char_is_digit: "n < 10 \<Longrightarrow> is_digit (digit_char n)"
  using digit_char_unat [of n] by (simp add: is_digit_def word_le_nat_alt)

lemma show_nat_digits: "c \<in> set (show_nat n) \<Longrightarrow> is_digit c"
  by (induction n rule: show_nat.induct) (subst (asm) (2) show_nat.simps, auto simp: digit_char_is_digit split: if_splits)

lemma show_nat_nonempty: "show_nat n \<noteq> []"
  by (subst show_nat.simps) simp

lemma read_nat_append:
  "\<forall>c \<in> set xs. is_digit c \<Longrightarrow> read_nat acc (xs @ ys) = read_nat (read_nat acc xs) ys"
  by (induction xs arbitrary: acc) auto

lemma read_show_nat: "read_nat 0 (show_nat n) = n"
proof (induction n rule: show_nat.induct)
  case (1 n)
  show ?case
  proof (cases "n < 10")
    case True
    then show ?thesis by (subst show_nat.simps) (simp add: digit_char_is_digit digit_char_unat)
  next
    case False
    have "read_nat 0 (show_nat n) = read_nat (read_nat 0 (show_nat (n div 10))) [digit_char (n mod 10)]"
      using False by (subst show_nat.simps) (simp add: read_nat_append show_nat_digits)
    also have "\<dots> = 10 * (n div 10) + n mod 10"
      using 1 [OF False] by (simp add: digit_char_is_digit digit_char_unat)
    finally show ?thesis by simp
  qed
qed

lemma length_show_nat: "0 < k \<Longrightarrow> n < 10 ^ k \<Longrightarrow> length (show_nat n) \<le> k"
proof (induction k arbitrary: n)
  case (Suc k)
  show ?case
  proof (cases "n < 10")
    case True
    then show ?thesis by (subst show_nat.simps) simp
  next
    case False
    then have "0 < k" using Suc.prems by (cases k) auto
    moreover have "n div 10 < 10 ^ k" using Suc.prems by (simp add: div_less_iff_less_mult)
    ultimately have "length (show_nat (n div 10)) \<le> k" by (rule Suc.IH)
    then show ?thesis using False by (subst show_nat.simps) simp
  qed
qed simp

lemma digit_not_special: "is_digit c \<Longrightarrow> c \<noteq> 0 \<and> \<not> is_space c \<and> c \<noteq> 45 \<and> c \<noteq> 43"
  by (auto simp: is_digit_def is_space_def word_le_nat_alt)

lemma strtol_show_nat: "n < 2 ^ 63 \<Longrightarrow> strtol (show_nat n) = int n"
proof -
  assume n: "n < 2 ^ 63"
  obtain c cs where s: "show_nat n = c # cs"
    using show_nat_nonempty by (cases "show_nat n") auto
  have c: "\<not> is_space c" "c \<noteq> 45" "c \<noteq> 43"
    using digit_not_special [of c] show_nat_digits [of c n] s by auto
  have "read_nat 0 (c # cs) = n" using read_show_nat [of n] s by simp
  moreover have "int n < 2 ^ 63" using n by (metis of_nat_less_iff of_nat_numeral of_nat_power)
  ultimately show ?thesis
    unfolding strtol_def s using c by (simp del: read_nat.simps)
qed

lemma string2int_sprintf_u: "string2int (sprintf_u n) = n"
proof -
  have "unat n < 2 ^ 63" using unat_u32_lt [of n] by simp
  then show ?thesis
    by (simp add: string2int_def sprintf_u_def strtol_show_nat)
qed

lemma sprintf_u_no_nul: "c \<in> set (sprintf_u n) \<Longrightarrow> c \<noteq> 0"
  using digit_not_special show_nat_digits by (auto simp: sprintf_u_def)

lemma length_sprintf_u: "length (sprintf_u n) \<le> 10"
  unfolding sprintf_u_def using unat_u32_lt [of n] by (intro length_show_nat) simp_all

lemma length_sprintf_ld: "length (sprintf_ld t) \<le> 20"
proof -
  have b: "- (2 ^ 63) \<le> sint t" "sint t < 2 ^ 63"
    using sint_range_size [of t] by (simp_all add: word_size)
  have "length (show_nat (nat (- sint t))) \<le> 19" if "sint t < 0"
    using b that by (intro length_show_nat) (simp_all add: nat_less_iff)
  moreover have "length (show_nat (nat (sint t))) \<le> 19" if "\<not> sint t < 0"
    using b that by (intro length_show_nat) (simp_all add: nat_less_iff)
  ultimately show ?thesis unfolding sprintf_ld_def by (cases "sint t < 0") force+
qed

lemma c_str_append_nul: "\<forall>c \<in> set s. c \<noteq> 0 \<Longrightarrow> c_str (s @ 0 # rest) = s"
  by (simp add: c_str_def takeWhile_append)

subsection \<open>CStrExplode\<close>

text \<open>
  The constructor allocates one item per separator and one more; the loop fills the items in order, and
  starts an item at a separator instead of ending an empty one. An item that is not filled is an
  uninitialized pointer (\<open>None\<close>), which the destructor deletes.
\<close>

definition explode_cnt :: "u8 \<Rightarrow> bytes \<Rightarrow> nat" where
  "explode_cnt seperator str = 1 + count_list (c_str str) seperator"

fun explode_items :: "u8 \<Rightarrow> bytes \<Rightarrow> bytes \<Rightarrow> bytes list" where
  "explode_items seperator item [] = (if length item \<noteq> 0 then [item] else [])"
| "explode_items seperator item (c # pos) =
     (if length item \<noteq> 0 \<and> c = seperator then item # explode_items seperator [] pos
      else explode_items seperator (item @ [c]) pos)"

definition CStrExplode :: "u8 \<Rightarrow> bytes \<Rightarrow> bytes option list" where
  "CStrExplode seperator str =
     (let items = explode_items seperator [] (c_str str)
      in map Some items @ replicate (explode_cnt seperator str - length items) None)"

definition GetItemCnt :: "bytes option list \<Rightarrow> nat" where
  "GetItemCnt e = length e"

fun join_items :: "u8 \<Rightarrow> bytes list \<Rightarrow> bytes" where
  "join_items seperator [] = []"
| "join_items seperator [x] = x"
| "join_items seperator (x # y # xs) = x @ seperator # join_items seperator (y # xs)"

lemma explode_items_plain:
  "seperator \<notin> set x \<Longrightarrow> explode_items seperator item (x @ pos) = explode_items seperator (item @ x) pos"
  by (induction x arbitrary: item) auto

lemma explode_join:
  "\<forall>x \<in> set xs. x \<noteq> [] \<and> seperator \<notin> set x \<Longrightarrow> explode_items seperator [] (join_items seperator xs) = xs"
proof (induction seperator xs rule: join_items.induct)
  case (2 seperator x)
  then show ?case using explode_items_plain [of seperator x "[]" "[]"] by simp
next
  case (3 seperator x y xs)
  then show ?case
    using explode_items_plain [of seperator x "[]" "seperator # join_items seperator (y # xs)"] by simp
qed simp

lemma count_join: "xs \<noteq> [] \<Longrightarrow> \<forall>x \<in> set xs. seperator \<notin> set x \<Longrightarrow>
    1 + count_list (join_items seperator xs) seperator = length xs"
  by (induction seperator xs rule: join_items.induct) (auto simp: count_notin)

lemma count_explode_items:
  "length (explode_items seperator item pos) \<le> 1 + count_list pos seperator"
proof (induction seperator item pos rule: explode_items.induct)
  case (2 seperator item c pos)
  then show ?case by (auto split: if_splits)
qed simp

lemma GetItemCnt_explode: "GetItemCnt (CStrExplode seperator str) = explode_cnt seperator str"
  using count_explode_items [of seperator "[]" "c_str str"]
  by (simp add: GetItemCnt_def CStrExplode_def explode_cnt_def Let_def)

lemma c_str_id: "0 \<notin> set s \<Longrightarrow> c_str s = s"
  by (auto simp: c_str_def takeWhile_eq_all_conv)

lemma set_join_items: "set (join_items seperator xs) \<subseteq> (\<Union>x \<in> set xs. set x) \<union> {seperator}"
  by (induction seperator xs rule: join_items.induct) auto

text \<open>Strings of non-empty items are cut into exactly these items.\<close>

lemma CStrExplode_join:
  assumes "xs \<noteq> []" and "\<forall>x \<in> set xs. x \<noteq> [] \<and> seperator \<notin> set x \<and> 0 \<notin> set x" and "seperator \<noteq> 0"
  shows "CStrExplode seperator (join_items seperator xs) = map Some xs"
proof -
  have "0 \<notin> set (join_items seperator xs)" using assms(2,3) set_join_items [of seperator xs] by auto
  then show ?thesis
    using explode_join [of xs seperator] count_join [OF assms(1), of seperator] assms(2)
    by (simp add: CStrExplode_def explode_cnt_def c_str_id)
qed

text \<open>A separator at the start, at the end or after a separator leaves an item uninitialized.\<close>

lemma CStrExplode_uninitialized:
  "CStrExplode 44 [44, 97] = [Some [44, 97], None]" "CStrExplode 44 [97, 44] = [Some [97], None]"
  "CStrExplode 44 [97, 44, 44, 98] = [Some [97], Some [44, 98], None]"
  by (simp_all add: CStrExplode_def explode_cnt_def c_str_def)

text \<open>\<open>IpParser::isTelcome\<close>: any string with three dots is taken for an address of the first provider.\<close>

definition isTelcome :: "bytes option \<Rightarrow> bool" where
  "isTelcome pIp = (case pIp of None \<Rightarrow> False
     | Some ip \<Rightarrow> if GetItemCnt (CStrExplode 46 ip) \<noteq> 4 then False else True)"

lemma isTelcome_iff: "isTelcome (Some ip) \<longleftrightarrow> count_list (c_str ip) 46 = 3"
  by (simp add: isTelcome_def GetItemCnt_explode explode_cnt_def)

subsection \<open>Replacing\<close>

definition replaceStr :: "u8 \<Rightarrow> u8 \<Rightarrow> bytes \<Rightarrow> bytes" where
  "replaceStr oldChar newChar pSrc =
     map (\<lambda>c. if c = oldChar then newChar else c) (c_str pSrc) @ drop (length (c_str pSrc)) pSrc"

definition int2string :: "u32 \<Rightarrow> bytes" where
  "int2string user_id = show_nat (unat user_id)"

lemma string2int_int2string: "string2int (int2string n) = n"
  using string2int_sprintf_u [of n] by (simp add: int2string_def sprintf_u_def)

text \<open>\<open>string::find\<close> of a character from a position; the two \<open>replace_mark\<close>.\<close>

definition str_find :: "u8 \<Rightarrow> bytes \<Rightarrow> nat \<Rightarrow> nat option" where
  "str_find c str pos = List.find (\<lambda>i. str ! i = c) [pos..<length str]"

definition replace_at :: "bytes \<Rightarrow> bytes \<times> u32 \<Rightarrow> bytes \<times> u32" where
  "replace_at v = (\<lambda>(str, begin_pos).
     (case str_find 63 str (unat begin_pos) of None \<Rightarrow> (str, begin_pos)
      | Some pos \<Rightarrow> (take pos str @ v @ drop (pos + 1) str, of_nat (pos + length v))))"

definition replace_mark_str :: "bytes \<Rightarrow> bytes \<times> u32 \<Rightarrow> bytes \<times> u32" where
  "replace_mark_str new_value = replace_at (39 # new_value @ [39])"

definition replace_mark_int :: "u32 \<Rightarrow> bytes \<times> u32 \<Rightarrow> bytes \<times> u32" where
  "replace_mark_int new_value = replace_at (show_nat (unat new_value))"

datatype mark_value = MarkStr bytes | MarkInt u32

definition replace_mark :: "mark_value \<Rightarrow> bytes \<times> u32 \<Rightarrow> bytes \<times> u32" where
  "replace_mark v = (case v of MarkStr s \<Rightarrow> replace_mark_str s | MarkInt n \<Rightarrow> replace_mark_int n)"

definition mark_text :: "mark_value \<Rightarrow> bytes" where
  "mark_text v = (case v of MarkStr s \<Rightarrow> 39 # s @ [39] | MarkInt n \<Rightarrow> show_nat (unat n))"

lemma replace_mark_at: "replace_mark v = replace_at (mark_text v)"
  by (simp add: replace_mark_def mark_text_def replace_mark_str_def replace_mark_int_def split: mark_value.split)

lemma find_upt_first: "(\<And>i. a \<le> i \<Longrightarrow> i < k \<Longrightarrow> \<not> P i) \<Longrightarrow> P k \<Longrightarrow> a \<le> k \<Longrightarrow> k < b \<Longrightarrow> List.find P [a..<b] = Some k"
proof (induction "k - a" arbitrary: a)
  case 0
  then show ?case by (simp add: upt_conv_Cons)
next
  case (Suc n)
  then have "a < k" "\<not> P a" by auto
  then show ?case using Suc.hyps(1) [of "Suc a"] Suc.hyps(2) Suc.prems by (simp add: upt_conv_Cons)
qed

lemma str_find_first:
  assumes "c \<notin> set mid"
  shows "str_find c (pre @ mid @ c # rest) (length pre) = Some (length pre + length mid)"
  unfolding str_find_def
proof (rule find_upt_first)
  fix i assume "length pre \<le> i" "i < length pre + length mid"
  then have "(pre @ mid @ c # rest) ! i = mid ! (i - length pre)" "i - length pre < length mid"
    by (auto simp: nth_append)
  then show "(pre @ mid @ c # rest) ! i \<noteq> c" using assms by (metis nth_mem)
qed (auto simp: nth_append)

text \<open>A statement with marks, and with the values in their place.\<close>

definition with_marks :: "bytes \<Rightarrow> bytes list \<Rightarrow> bytes" where
  "with_marks p ps = p @ concat (map (\<lambda>q. 63 # q) ps)"

definition with_values :: "bytes \<Rightarrow> mark_value list \<Rightarrow> bytes list \<Rightarrow> bytes" where
  "with_values p vs ps = p @ concat (map2 (\<lambda>v q. mark_text v @ q) vs ps)"

lemma replace_marks_from:
  "length vs = length ps \<Longrightarrow> \<forall>q \<in> set (p # ps). 63 \<notin> set q \<Longrightarrow>
   length (pre @ with_values p vs ps) < 2 ^ 32 \<Longrightarrow>
   fst (fold replace_mark vs (pre @ with_marks p ps, of_nat (length pre))) = pre @ with_values p vs ps"
proof (induction vs ps arbitrary: p pre rule: list_induct2)
  case (Cons v vs q ps)
  have "length pre < 2 ^ 32" using Cons.prems(2) by simp
  then have start: "unat (of_nat (length pre) :: u32) = length pre" by simp
  let ?rest = "with_marks q ps"
  have "str_find 63 (pre @ p @ 63 # ?rest) (length pre) = Some (length pre + length p)"
    using Cons.prems(1) by (intro str_find_first) simp
  then have "replace_mark v (pre @ with_marks p (q # ps), of_nat (length pre)) =
      ((pre @ p @ mark_text v) @ ?rest, of_nat (length (pre @ p @ mark_text v)))"
    by (simp add: replace_mark_at replace_at_def with_marks_def start)
  moreover have "fst (fold replace_mark vs ((pre @ p @ mark_text v) @ ?rest, of_nat (length (pre @ p @ mark_text v)))) =
      (pre @ p @ mark_text v) @ with_values q vs ps"
    using Cons.prems by (intro Cons.IH) (simp_all add: with_values_def)
  ultimately show ?case by (simp add: with_values_def)
qed (simp add: with_marks_def with_values_def)

subsection \<open>URL encoding\<close>

definition isalnum :: "u8 \<Rightarrow> bool" where
  "isalnum c \<longleftrightarrow> 48 \<le> c \<and> c \<le> 57 \<or> 65 \<le> c \<and> c \<le> 90 \<or> 97 \<le> c \<and> c \<le> 122"

definition toHex :: "u8 \<Rightarrow> u8" where
  "toHex x = (if x > 9 then x - 10 + 65 else x + 48)"

definition fromHex :: "u8 \<Rightarrow> u8" where
  "fromHex x = (if is_digit x then x - 48 else x - 65 + 10)"

definition URLEncode :: "bytes \<Rightarrow> bytes" where
  "URLEncode sIn = concat (map (\<lambda>c. if isalnum c then [c] else [37, toHex (drop_bit 4 c), toHex (c mod 16)]) sIn)"

text \<open>Reading at index \<open>size\<close> of a string gives a null byte; reading beyond is undefined.\<close>

fun URLDecode :: "bytes \<Rightarrow> bytes option" where
  "URLDecode [] = Some []"
| "URLDecode (c # sIn) =
     (if c = 37 then
        (case sIn of [] \<Rightarrow> None
         | [h] \<Rightarrow> Some [push_bit 4 (fromHex h) OR fromHex 0]
         | h # l # sIn \<Rightarrow> map_option (\<lambda>sOut. (push_bit 4 (fromHex h) OR fromHex l) # sOut) (URLDecode sIn))
      else map_option (\<lambda>sOut. (if c = 43 then 32 else c) # sOut) (URLDecode sIn))"

lemma less_16_cases: "(x :: u8) < 16 \<Longrightarrow> x \<in> {0, 1, 2, 3, 4, 5, 6, 7, 8, 9, 10, 11, 12, 13, 14, 15}"
proof -
  assume "x < 16"
  then have "unat x < 16" by (simp add: word_less_nat_alt)
  then have "unat x = 0 \<or> unat x = 1 \<or> unat x = 2 \<or> unat x = 3 \<or> unat x = 4 \<or> unat x = 5 \<or> unat x = 6 \<or> unat x = 7 \<or>
    unat x = 8 \<or> unat x = 9 \<or> unat x = 10 \<or> unat x = 11 \<or> unat x = 12 \<or> unat x = 13 \<or> unat x = 14 \<or> unat x = 15"
    by presburger
  then show ?thesis by (auto simp: word_unat_eq_iff)
qed

lemma fromHex_toHex: "x < 16 \<Longrightarrow> fromHex (toHex x) = x"
  by (drule less_16_cases) (auto simp: fromHex_def toHex_def is_digit_def)

lemma drop_bit_4_less: "drop_bit 4 (c :: u8) < 16"
proof -
  have "unat c < 256" using unsigned_less [of c] by simp
  then show ?thesis by (simp add: word_less_nat_alt unat_drop_bit_eq drop_bit_eq_div unat_div)
qed

lemma nibbles: "push_bit 4 (drop_bit 4 c) OR (c mod 16) = (c :: u8)"
proof -
  have "c mod 16 = take_bit 4 c" by (simp add: take_bit_eq_mod)
  then show ?thesis by (simp add: bit_eq_iff bit_simps) (auto simp: not_less)
qed

lemma URLDecode_append_enc:
  "URLDecode (URLEncode [c] @ r) = map_option (\<lambda>s. c # s) (URLDecode r)"
proof (cases "isalnum c")
  case True
  then have "c \<noteq> 37" "c \<noteq> 43" by (auto simp: isalnum_def)
  then show ?thesis using True by (simp add: URLEncode_def)
next
  case False
  have "c mod 16 < 16" by (simp add: word_mod_less_divisor word_gt_0)
  then show ?thesis using False by (simp add: URLEncode_def fromHex_toHex drop_bit_4_less nibbles)
qed

subsection \<open>Searching\<close>

text \<open>
  \<open>memfind\<close> returns an offset; with a length of 0 the pattern is measured by \<open>strlen\<close>, and a pattern longer
  than the text makes the unsigned limit wrap, so that memory behind the text is read (\<open>None\<close>).
\<close>

definition occurs_at :: "bytes \<Rightarrow> bytes \<Rightarrow> nat \<Rightarrow> bool" where
  "occurs_at src sub i \<longleftrightarrow> take (length sub) (drop i src) = sub"

definition memfind :: "bytes \<Rightarrow> bytes \<Rightarrow> nat \<Rightarrow> bool \<Rightarrow> nat option option" where
  "memfind src sub_str sub_len flag =
     (if length src = 0 then Some None
      else if length src < sub_len then Some None
      else (let sub_len = (if sub_len = 0 then length (c_str sub_str) else sub_len); sub = take sub_len sub_str in
        if length src = sub_len then Some (if src = sub then Some 0 else None)
        else if length src < sub_len then None
        else if flag then Some (List.find (occurs_at src sub) [0..<length src - sub_len])
        else Some (List.find (occurs_at src sub) (rev [0..<length src - sub_len + 1]))))"

lemma find_Some_upt: "List.find P [a..<b] = Some i \<longleftrightarrow> a \<le> i \<and> i < b \<and> P i \<and> (\<forall>j. a \<le> j \<and> j < i \<longrightarrow> \<not> P j)"
proof
  assume "List.find P [a..<b] = Some i"
  then obtain k where k: "k < b - a" "P ([a..<b] ! k)" "i = [a..<b] ! k" "\<forall>j < k. \<not> P ([a..<b] ! j)"
    by (auto simp: find_Some_iff)
  have "\<not> P j" if "a \<le> j \<and> j < i" for j
  proof -
    have "j - a < k" "[a..<b] ! (j - a) = j" using k(1,3) that by auto
    then show ?thesis using k(4) by metis
  qed
  then show "a \<le> i \<and> i < b \<and> P i \<and> (\<forall>j. a \<le> j \<and> j < i \<longrightarrow> \<not> P j)" using k by auto
next
  assume "a \<le> i \<and> i < b \<and> P i \<and> (\<forall>j. a \<le> j \<and> j < i \<longrightarrow> \<not> P j)"
  then show "List.find P [a..<b] = Some i" by (intro find_upt_first) auto
qed

lemma find_Some_rev_upt: "List.find P (rev [0..<n]) = Some i \<longleftrightarrow> i < n \<and> P i \<and> (\<forall>j. i < j \<and> j < n \<longrightarrow> \<not> P j)"
proof (induction n)
  case (Suc n)
  then show ?case by (auto simp: less_Suc_eq)
qed simp

text \<open>
  Backwards the last occurrence is found; forwards the first one, but an occurrence that ends the text is
  overlooked: the limit of the loop leaves out the last position.
\<close>

lemma memfind_backward:
  assumes "0 < length sub" and "length sub < length src"
  shows "memfind src sub (length sub) False = Some (Some i) \<longleftrightarrow>
    i + length sub \<le> length src \<and> occurs_at src sub i \<and> (\<forall>j > i. j + length sub \<le> length src \<longrightarrow> \<not> occurs_at src sub j)"
proof -
  have l: "j < length src - length sub + 1 \<longleftrightarrow> j + length sub \<le> length src" for j using assms(2) by linarith
  have "memfind src sub (length sub) False = Some (List.find (occurs_at src sub) (rev [0..<length src - length sub + 1]))"
    using assms by (auto simp: memfind_def)
  then show ?thesis by (simp only: find_Some_rev_upt l option.inject) blast
qed

lemma memfind_forward:
  assumes "0 < length sub" and "length sub < length src"
  shows "memfind src sub (length sub) True = Some (Some i) \<longleftrightarrow>
    i + length sub < length src \<and> occurs_at src sub i \<and> (\<forall>j < i. \<not> occurs_at src sub j)"
  using assms by (auto simp: memfind_def find_Some_upt)

lemma memfind_overlooks_end: "memfind [97, 98] [98] 1 True = Some None" "memfind [97, 98] [98] 1 False = Some (Some 1)"
  by (simp_all add: memfind_def occurs_at_def)

subsection \<open>Properties\<close>

text \<open>
  C22: every string survives URL encoding: decoding the encoding reads no byte beyond the text and gives
  back the same bytes, reserved characters, percent signs, plus signs, null and high bytes included.
\<close>

theorem URLDecode_URLEncode: "URLDecode (URLEncode s) = Some s"
proof (induction s)
  case (Cons c s)
  have "URLEncode (c # s) = URLEncode [c] @ URLEncode s" by (simp add: URLEncode_def)
  then show ?case using Cons by (simp add: URLDecode_append_enc)
qed (simp add: URLEncode_def)

text \<open>
  Filling in a statement: the values replace the marks one by one and in order, and a mark inside an
  inserted value is never taken for one of the statement; a string value stands between quotes as it is,
  quotes of its own included.
\<close>

lemma replace_marks_in_order:
  assumes "length vs = length ps" and "\<forall>q \<in> set (p # ps). 63 \<notin> set q" and "length (with_values p vs ps) < 2 ^ 32"
  shows "fst (fold replace_mark vs (with_marks p ps, 0)) = with_values p vs ps"
  using replace_marks_from [of vs ps p "[]"] assms by simp

lemma replace_marks_in_order_witness:
  "fst (fold replace_mark [MarkStr [63], MarkInt 42] ([97, 63, 44, 63, 59], 0)) = [97, 39, 63, 39, 44, 52, 50, 59]"
  using replace_marks_in_order [of "[MarkStr [63], MarkInt 42]" "[[44], [59]]" "[97]"]
  by (simp add: with_marks_def with_values_def mark_text_def show_nat.simps digit_char_def)

text \<open>A string literal.\<close>

definition str :: "string \<Rightarrow> bytes" where
  "str s = map (\<lambda>c. of_nat (of_char c)) s"

text \<open>\<open>string::find\<close> of a string: the first position it occurs at.\<close>

fun find_string :: "bytes \<Rightarrow> bytes \<Rightarrow> nat option" where
  "find_string pat [] = (if pat = [] then Some 0 else None)"
| "find_string pat (x # xs) =
     (if take (length pat) (x # xs) = pat then Some 0 else map_option Suc (find_string pat xs))"

end
