(* ===== verification/Offline_File.thy ===== *)
theory Offline_File
  imports Public_Define Str_Util
begin

text \<open>
  The files of the file server: \<open>OfflineFileHeader\<close>, \<open>OpenByRead\<close> and \<open>OpenByWrite\<close> of
  \<open>file_server/transfer_task.h/.cpp\<close>, with the calls of the C library they make (\<open>fopen\<close>, \<open>fread\<close>,
  \<open>fwrite\<close>; the string functions are those of \<open>Str_Util\<close>). A disk maps a path to the bytes of the
  file; the paths on which \<open>mkdir\<close> or \<open>fopen\<close> fails are part of it. Writes to an open file succeed.
  The header is the memory of the struct, 960 bytes, and its fields are offsets in it.
\<close>

subsection \<open>OfflineFileHeader\<close>

definition HEADER_SIZE :: nat where "HEADER_SIZE = 960"

definition set_task_id :: "bytes \<Rightarrow> bytes \<Rightarrow> bytes" where
  "set_task_id task_id h = write_at 0 (strncpy task_id (min 128 (length task_id))) h"
definition set_from_user_id :: "u32 \<Rightarrow> bytes \<Rightarrow> bytes" where
  "set_from_user_id user h = write_at 128 (sprintf_to (sprintf_u user)) h"
definition set_to_user_id :: "u32 \<Rightarrow> bytes \<Rightarrow> bytes" where
  "set_to_user_id user h = write_at 192 (sprintf_to (sprintf_u user)) h"
definition set_create_time :: "u64 \<Rightarrow> bytes \<Rightarrow> bytes" where
  "set_create_time t h = write_at 256 (sprintf_to (sprintf_ld t)) h"
text \<open>Only called with the empty string, as the format.\<close>
definition set_file_name_empty :: "bytes \<Rightarrow> bytes" where
  "set_file_name_empty h = write_at 384 (sprintf_to []) h"
definition set_file_size :: "u32 \<Rightarrow> bytes \<Rightarrow> bytes" where
  "set_file_size fsize h = write_at 896 (sprintf_to (sprintf_u fsize)) h"

definition get_task_id :: "bytes \<Rightarrow> bytes" where
  "get_task_id h = c_str h"
definition get_from_user_id :: "bytes \<Rightarrow> u32" where
  "get_from_user_id h = string2int (c_str (drop 128 h))"
definition get_to_user_id :: "bytes \<Rightarrow> u32" where
  "get_to_user_id h = string2int (c_str (drop 192 h))"
definition get_file_name :: "bytes \<Rightarrow> bytes" where
  "get_file_name h = c_str (drop 384 h)"
definition get_file_size :: "bytes \<Rightarrow> u32" where
  "get_file_size h = string2int (c_str (drop 896 h))"

text \<open>The header that \<open>OfflineTransferTask::DoRecvData\<close> writes at the start of an upload.\<close>

definition upload_header :: "u64 \<Rightarrow> bytes \<Rightarrow> u32 \<Rightarrow> u32 \<Rightarrow> u32 \<Rightarrow> bytes" where
  "upload_header now task_id sender to fsize =
     set_file_size fsize (set_file_name_empty (set_to_user_id to (set_from_user_id sender
       (set_task_id task_id (set_create_time now (replicate HEADER_SIZE 0))))))"

subsection \<open>The disk\<close>

record disk =
  fs_cwd :: bytes
  fs_files :: "bytes \<Rightarrow> bytes option"
  fs_denied :: "bytes \<Rightarrow> bool"

record c_file =
  f_path :: bytes
  f_pos :: nat

definition BUFSIZ :: nat where "BUFSIZ = 8192"

text \<open>\<open>"%s/offline_file"\<close>, and \<open>"%s/%s/%s"\<close> of it, the first two letters of the id and the id.\<close>

definition offline_dir :: "bytes" where
  "offline_dir = [47, 111, 102, 102, 108, 105, 110, 101, 95, 102, 105, 108, 101]"

definition GetCurrentOfflinePath :: "disk \<Rightarrow> bytes" where
  "GetCurrentOfflinePath d = take (BUFSIZ - 1) (fs_cwd d @ offline_dir)"

definition save_path :: "disk \<Rightarrow> bytes \<Rightarrow> bytes" where
  "save_path d task_id =
     take (BUFSIZ - 1) (GetCurrentOfflinePath d @ [47] @ take 2 task_id @ [47] @ task_id)"

definition OpenByRead :: "disk \<Rightarrow> bytes \<Rightarrow> c_file option" where
  "OpenByRead d task_id =
     (if 2 \<le> length task_id \<and> fs_files d (save_path d task_id) \<noteq> None
         \<and> \<not> fs_denied d (save_path d task_id)
      then Some \<lparr>f_path = save_path d task_id, f_pos = 0\<rparr> else None)"

text \<open>\<open>mkdir\<close> and \<open>fopen(..., "ab+")\<close>: the file is made when it is missing; writes append.\<close>

definition OpenByWrite :: "disk \<Rightarrow> bytes \<Rightarrow> c_file option \<times> disk" where
  "OpenByWrite d task_id =
     (if 2 \<le> length task_id \<and> \<not> fs_denied d (save_path d task_id)
      then (Some \<lparr>f_path = save_path d task_id, f_pos = 0\<rparr>,
            case fs_files d (save_path d task_id) of
              None \<Rightarrow> d\<lparr>fs_files := (fs_files d)(save_path d task_id \<mapsto> [])\<rparr>
            | Some _ \<Rightarrow> d)
      else (None, d))"

definition file_bytes :: "disk \<Rightarrow> bytes \<Rightarrow> bytes" where
  "file_bytes d p = (case fs_files d p of None \<Rightarrow> [] | Some b \<Rightarrow> b)"

definition fwrite :: "bytes \<Rightarrow> c_file \<Rightarrow> disk \<Rightarrow> disk" where
  "fwrite b f d = d\<lparr>fs_files := (fs_files d)(f_path f \<mapsto> file_bytes d (f_path f) @ b)\<rparr>"

definition fread :: "nat \<Rightarrow> c_file \<Rightarrow> disk \<Rightarrow> bytes \<times> c_file" where
  "fread n f d = (let b = take n (drop (f_pos f) (file_bytes d (f_path f)))
                  in (b, f\<lparr>f_pos := f_pos f + length b\<rparr>))"

lemma fread_simp: "fread n f d = (take n (drop (f_pos f) (file_bytes d (f_path f))),
    f\<lparr>f_pos := f_pos f + length (take n (drop (f_pos f) (file_bytes d (f_path f))))\<rparr>)"
  by (simp add: fread_def Let_def)

subsection \<open>The fields of the header of an upload\<close>

lemma length_write_sprintf [at_simps]:
  "n + length s + 1 \<le> length h \<Longrightarrow> length (write_at n (sprintf_to s) h) = length h"
  by (simp add: write_at_def sprintf_to_def)

lemma length_write_strncpy [at_simps]:
  "n + k \<le> length h \<Longrightarrow> k \<le> length s \<Longrightarrow> length (write_at n (strncpy s k) h) = length h"
  by (simp add: write_at_def strncpy_def)

lemma length_sprintf_to [at_simps]: "length s + 1 \<le> length p \<Longrightarrow> length (sprintf_to s p) = length p"
  by (simp add: sprintf_to_def)

lemma length_strncpy [at_simps]:
  "k \<le> length p \<Longrightarrow> k \<le> length s \<Longrightarrow> length (strncpy s k p) = length p"
  by (simp add: strncpy_def)

lemma c_str_sprintf: "\<forall>c \<in> set s. c \<noteq> 0 \<Longrightarrow> c_str (sprintf_to s p) = s"
  by (simp add: sprintf_to_def c_str_append_nul)

lemma c_str_write_later:
  assumes "length (c_str p) < n" "n \<le> length p"
  shows "c_str (write_at n f p) = c_str p"
proof -
  have "c_str (take n p @ ys) = c_str p" for ys
    using assms
  proof (induction p arbitrary: n)
    case (Cons a p)
    then show ?case by (cases n) (auto simp: c_str_def)
  qed (simp add: c_str_def)
  then show ?thesis by (simp add: write_at_def)
qed

lemma length_upload_header:
  "length task_id \<le> 128 \<Longrightarrow> length (upload_header now task_id sender to fsize) = HEADER_SIZE"
  using length_sprintf_u [of sender] length_sprintf_u [of to] length_sprintf_u [of fsize] length_sprintf_ld [of now]
  by (simp add: upload_header_def set_file_size_def set_file_name_empty_def set_to_user_id_def
      set_from_user_id_def set_task_id_def set_create_time_def HEADER_SIZE_def at_simps)

lemma u_nonul: "\<forall>c \<in> set (sprintf_u n). c \<noteq> 0"
  using sprintf_u_no_nul by blast

lemma get_upload_header:
  assumes id: "length task_id < 128" "\<forall>c \<in> set task_id. c \<noteq> 0"
  shows "get_task_id (upload_header now task_id sender to fsize) = task_id"
    and "get_from_user_id (upload_header now task_id sender to fsize) = sender"
    and "get_to_user_id (upload_header now task_id sender to fsize) = to"
    and "get_file_size (upload_header now task_id sender to fsize) = fsize"
proof -
  note len = length_sprintf_u [of sender] length_sprintf_u [of to] length_sprintf_u [of fsize] length_sprintf_ld [of now]
  note sets = upload_header_def set_file_size_def set_file_name_empty_def set_to_user_id_def
      set_from_user_id_def set_task_id_def set_create_time_def HEADER_SIZE_def
  define h0 where "h0 = write_at 0 (strncpy task_id (min 128 (length task_id)))
    (write_at 256 (sprintf_to (sprintf_ld now)) (replicate 960 0))"
  have h0: "length h0 = 960" using id len by (simp add: h0_def at_simps)
  have "h0 = task_id @ drop (length task_id) (write_at 256 (sprintf_to (sprintf_ld now)) (replicate 960 0))"
    using id by (simp add: h0_def strncpy_def)
  also have "\<dots> = task_id @ 0 # drop (Suc (length task_id)) (write_at 256 (sprintf_to (sprintf_ld now)) (replicate 960 0))"
    using id len replicate_Suc [of "255 - length task_id" "0 :: u8"]
    by (simp add: write_at_def Suc_diff_le [symmetric])
  finally have "c_str h0 = task_id" using c_str_append_nul [OF id(2)] by simp
  then show "get_task_id (upload_header now task_id sender to fsize) = task_id"
    using id len h0 unfolding sets h0_def [symmetric] get_task_id_def
    by (simp add: c_str_write_later at_simps)
  show "get_from_user_id (upload_header now task_id sender to fsize) = sender"
    using len h0 unfolding sets h0_def [symmetric] get_from_user_id_def
    by (simp add: c_str_write_later at_simps c_str_sprintf u_nonul string2int_sprintf_u)
  show "get_to_user_id (upload_header now task_id sender to fsize) = to"
    using len h0 unfolding sets h0_def [symmetric] get_to_user_id_def
    by (simp add: c_str_write_later at_simps c_str_sprintf u_nonul string2int_sprintf_u)
  show "get_file_size (upload_header now task_id sender to fsize) = fsize"
    using len h0 unfolding sets h0_def [symmetric] get_file_size_def
    by (simp add: c_str_write_later at_simps c_str_sprintf u_nonul string2int_sprintf_u)
qed

end
