(* ===== verification/Transfer_Task.thy ===== *)
theory Transfer_Task
  imports Offline_File Conn_Map
begin

text \<open>
  \<open>file_server/transfer_task.h/.cpp\<close>: the tasks of the file server and their state machine. The
  classes \<open>OnlineTransferTask\<close> and \<open>OfflineTransferTask\<close> are one record with the class as a field;
  a method of a class carries its name, and the virtual method selects by the class. The methods
  return the C++ result with the task and the disk after the call; \<open>None\<close> is a read past the end
  of the received data. Indexes of segments are natural numbers and their products wrap to 32 bits
  (below 2 GiB the code's \<open>int\<close> holds them, lemma \<open>task_offsets_fit_int\<close>).
\<close>

subsection \<open>States\<close>

datatype TransferTaskState =
    kTransferTaskStateInvalid
  | kTransferTaskStateReady
  | kTransferTaskStateWaitingSender
  | kTransferTaskStateWaitingReceiver
  | kTransferTaskStateWaitingTransfer
  | kTransferTaskStateTransfering
  | kTransferTaskStateTransferDone
  | kTransferTaskStateWaitingUpload
  | kTransferTaskStateUploading
  | kTransferTaskStateUploadEnd
  | kTransferTaskStateWaitingDownload
  | kTransferTaskStateDownloading
  | kTransferTaskStateDownloadEnd
  | kTransferTaskStateError

primrec state_num :: "TransferTaskState \<Rightarrow> nat" where
  "state_num kTransferTaskStateInvalid = 0"
| "state_num kTransferTaskStateReady = 1"
| "state_num kTransferTaskStateWaitingSender = 2"
| "state_num kTransferTaskStateWaitingReceiver = 3"
| "state_num kTransferTaskStateWaitingTransfer = 4"
| "state_num kTransferTaskStateTransfering = 5"
| "state_num kTransferTaskStateTransferDone = 6"
| "state_num kTransferTaskStateWaitingUpload = 7"
| "state_num kTransferTaskStateUploading = 8"
| "state_num kTransferTaskStateUploadEnd = 9"
| "state_num kTransferTaskStateWaitingDownload = 10"
| "state_num kTransferTaskStateDownloading = 11"
| "state_num kTransferTaskStateDownloadEnd = 12"
| "state_num kTransferTaskStateError = 13"

lemma state_num_inject: "state_num s = state_num t \<longleftrightarrow> s = t"
  by (cases s; cases t) simp_all

instantiation TransferTaskState :: linorder
begin

definition less_eq_TransferTaskState :: "TransferTaskState \<Rightarrow> TransferTaskState \<Rightarrow> bool" where
  "less_eq_TransferTaskState s t \<longleftrightarrow> state_num s \<le> state_num t"
definition less_TransferTaskState :: "TransferTaskState \<Rightarrow> TransferTaskState \<Rightarrow> bool" where
  "less_TransferTaskState s t \<longleftrightarrow> state_num s < state_num t"

instance
  by standard (auto simp: less_eq_TransferTaskState_def less_TransferTaskState_def state_num_inject)

end

subsection \<open>BaseTransferTask\<close>

datatype task_class = OnlineTransferTask | OfflineTransferTask

record transfer_task =
  t_class :: task_class
  task_id :: bytes
  from_user_id :: u32
  to_user_id :: u32
  t_file_name :: bytes
  file_size :: u32
  create_time :: u64
  t_state :: TransferTaskState
  from_conn :: "conn option"
  to_conn :: "conn option"
  mac_seq_num :: u32
  fp :: "c_file option"
  transfered_idx :: nat
  sengment_size :: nat

definition SEGMENT_SIZE :: u32 where "SEGMENT_SIZE = 32768"

definition SetMaxSegmentSize :: "u32 \<Rightarrow> nat" where
  "SetMaxSegmentSize fsize = (if fsize mod SEGMENT_SIZE \<noteq> 0 then unat (fsize div SEGMENT_SIZE + 1)
     else unat (fsize div SEGMENT_SIZE))"

definition NewTask :: "task_class \<Rightarrow> u64 \<Rightarrow> bytes \<Rightarrow> u32 \<Rightarrow> u32 \<Rightarrow> bytes \<Rightarrow> u32 \<Rightarrow> transfer_task" where
  "NewTask cl now tid from_user to_user name fsize =
     \<lparr>t_class = cl, task_id = tid, from_user_id = from_user, to_user_id = to_user,
      t_file_name = name, file_size = fsize, create_time = now, t_state = kTransferTaskStateReady,
      from_conn = None, to_conn = None, mac_seq_num = 0, fp = None, transfered_idx = 0,
      sengment_size = SetMaxSegmentSize fsize\<rparr>"

definition GetOpponent :: "u32 \<Rightarrow> transfer_task \<Rightarrow> u32" where
  "GetOpponent user_id t = (if user_id = from_user_id t then user_id else from_user_id t)"
definition GetOpponentConn :: "u32 \<Rightarrow> transfer_task \<Rightarrow> conn option" where
  "GetOpponentConn user_id t = (if user_id = from_user_id t then to_conn t else from_conn t)"
definition GetConnByUserID :: "u32 \<Rightarrow> transfer_task \<Rightarrow> conn option" where
  "GetConnByUserID user_id t = (if from_user_id t = user_id then from_conn t
     else if to_user_id t = user_id then to_conn t else None)"
definition SetConnByUserID :: "u32 \<Rightarrow> conn option \<Rightarrow> transfer_task \<Rightarrow> transfer_task" where
  "SetConnByUserID user_id c t = (if from_user_id t = user_id then t\<lparr>from_conn := c\<rparr>
     else if to_user_id t = user_id then t\<lparr>to_conn := c\<rparr> else t)"
definition CheckFromUserID :: "u32 \<Rightarrow> transfer_task \<Rightarrow> bool" where
  "CheckFromUserID user_id t \<longleftrightarrow> from_user_id t = user_id"
definition CheckToUserID :: "u32 \<Rightarrow> transfer_task \<Rightarrow> bool" where
  "CheckToUserID user_id t \<longleftrightarrow> to_user_id t = user_id"
definition SetLastUpdateTime :: "u64 \<Rightarrow> transfer_task \<Rightarrow> transfer_task" where
  "SetLastUpdateTime now t = t\<lparr>create_time := now\<rparr>"
definition set_state :: "TransferTaskState \<Rightarrow> transfer_task \<Rightarrow> transfer_task" where
  "set_state s t = t\<lparr>t_state := s\<rparr>"
definition GetTransMode :: "transfer_task \<Rightarrow> u32" where
  "GetTransMode t = (case t_class t of OnlineTransferTask \<Rightarrow> FILE_TYPE_ONLINE
     | OfflineTransferTask \<Rightarrow> FILE_TYPE_OFFLINE)"

text \<open>\<open>kTransferTaskStateWaitingDownload\<close> stands alone in the condition, as a constant that is true.\<close>

definition IsWaitTranfering :: "transfer_task \<Rightarrow> bool" where
  "IsWaitTranfering t \<longleftrightarrow> t_state t = kTransferTaskStateWaitingTransfer
     \<or> t_state t = kTransferTaskStateWaitingUpload
     \<or> state_num kTransferTaskStateWaitingDownload \<noteq> 0"

subsection \<open>OnlineTransferTask\<close>

definition Online_CheckByUserIDAndFileRole :: "u32 \<Rightarrow> u32 \<Rightarrow> transfer_task \<Rightarrow> bool" where
  "Online_CheckByUserIDAndFileRole user_id file_role t =
     (if file_role = CLIENT_REALTIME_SENDER then CheckFromUserID user_id t
      else if file_role = CLIENT_REALTIME_RECVER then CheckToUserID user_id t
      else False)"

text \<open>\<open>rv\<close> is already true when a later check leaves the loop.\<close>

definition Online_ChangePullState :: "u64 \<Rightarrow> u32 \<Rightarrow> u32 \<Rightarrow> transfer_task \<Rightarrow> bool \<times> transfer_task" where
  "Online_ChangePullState now user_id file_role t =
     (let rv = Online_CheckByUserIDAndFileRole user_id file_role t in
      if \<not> rv then (rv, t)
      else if t_state t \<noteq> kTransferTaskStateReady \<and> t_state t \<noteq> kTransferTaskStateWaitingSender
        \<and> t_state t \<noteq> kTransferTaskStateWaitingReceiver then (rv, t)
      else if t_state t = kTransferTaskStateReady
        then (True, SetLastUpdateTime now
          (set_state (if file_role = CLIENT_REALTIME_SENDER then kTransferTaskStateWaitingReceiver
                      else kTransferTaskStateWaitingSender) t))
      else if t_state t = kTransferTaskStateWaitingReceiver \<and> file_role \<noteq> CLIENT_REALTIME_RECVER
        then (rv, t)
      else if t_state t = kTransferTaskStateWaitingSender \<and> file_role \<noteq> CLIENT_REALTIME_SENDER
        then (rv, t)
      else (True, SetLastUpdateTime now (set_state kTransferTaskStateWaitingTransfer t)))"

definition may_transfer :: "transfer_task \<Rightarrow> bool" where
  "may_transfer t \<longleftrightarrow>
     t_state t = kTransferTaskStateWaitingTransfer \<or> t_state t = kTransferTaskStateTransfering"

definition start_transfer :: "u64 \<Rightarrow> transfer_task \<Rightarrow> transfer_task" where
  "start_transfer now t = SetLastUpdateTime now
     (if t_state t = kTransferTaskStateWaitingTransfer then set_state kTransferTaskStateTransfering t
      else t)"

definition Online_DoRecvData :: "u64 \<Rightarrow> u32 \<Rightarrow> transfer_task \<Rightarrow> int \<times> transfer_task" where
  "Online_DoRecvData now user_id t =
     (if \<not> CheckFromUserID user_id t then (-1, t)
      else if \<not> may_transfer t then (-1, t)
      else (0, start_transfer now t))"

definition Online_DoPullFileRequest :: "u64 \<Rightarrow> transfer_task \<Rightarrow> int \<times> transfer_task" where
  "Online_DoPullFileRequest now t =
     (if \<not> may_transfer t then (-1, t) else (0, start_transfer now t))"

subsection \<open>OfflineTransferTask\<close>

definition segment_offset :: "transfer_task \<Rightarrow> u32" where
  "segment_offset t = of_nat (transfered_idx t) * SEGMENT_SIZE"

definition GetNextSegmentBlockSize :: "transfer_task \<Rightarrow> u32" where
  "GetNextSegmentBlockSize t =
     (if transfered_idx t + 1 = sengment_size t then file_size t - segment_offset t else SEGMENT_SIZE)"

definition GetNextOffset :: "transfer_task \<Rightarrow> u32" where
  "GetNextOffset t = SEGMENT_SIZE * of_nat (transfered_idx t)"

definition LoadFromDisk :: "u64 \<Rightarrow> bytes \<Rightarrow> disk \<Rightarrow> transfer_task option" where
  "LoadFromDisk now tid d =
     (case OpenByRead d tid of None \<Rightarrow> None
      | Some f \<Rightarrow>
         (let (file_header, f) = fread HEADER_SIZE f d in
          if length file_header = HEADER_SIZE then
            (if length (file_bytes d (f_path f)) - HEADER_SIZE = unat (get_file_size file_header)
             then Some (set_state kTransferTaskStateWaitingDownload
               (NewTask OfflineTransferTask now (get_task_id file_header) (get_from_user_id file_header)
                  (get_to_user_id file_header) (get_file_name file_header) (get_file_size file_header)))
             else None)
          else None))"

definition Offline_CheckByUserIDAndFileRole :: "u32 \<Rightarrow> u32 \<Rightarrow> transfer_task \<Rightarrow> bool" where
  "Offline_CheckByUserIDAndFileRole user_id file_role t =
     (if file_role = CLIENT_OFFLINE_UPLOAD then CheckFromUserID user_id t
      else if file_role = CLIENT_OFFLINE_DOWNLOAD then CheckToUserID user_id t
      else False)"

definition Offline_ChangePullState :: "u64 \<Rightarrow> u32 \<Rightarrow> u32 \<Rightarrow> transfer_task \<Rightarrow> bool \<times> transfer_task" where
  "Offline_ChangePullState now user_id file_role t =
     (let rv = Offline_CheckByUserIDAndFileRole user_id file_role t in
      if \<not> rv then (rv, t)
      else if t_state t \<noteq> kTransferTaskStateReady \<and> t_state t \<noteq> kTransferTaskStateUploadEnd
        \<and> t_state t \<noteq> kTransferTaskStateWaitingDownload then (rv, t)
      else if t_state t = kTransferTaskStateReady then
        (if file_role = CLIENT_OFFLINE_UPLOAD
         then (True, SetLastUpdateTime now (set_state kTransferTaskStateWaitingUpload t))
         else (rv, t))
      else if file_role = CLIENT_OFFLINE_DOWNLOAD
        then (True, SetLastUpdateTime now (set_state kTransferTaskStateWaitingDownload t))
      else (rv, t))"

text \<open>The first packet of an upload opens the file and writes the header; \<open>None\<close>: the open failed.\<close>

definition begin_upload :: "u64 \<Rightarrow> transfer_task \<Rightarrow> disk \<Rightarrow> (transfer_task \<times> disk) option" where
  "begin_upload now t d =
     (if t_state t = kTransferTaskStateWaitingUpload then
       (let (f, d) = (case fp t of None \<Rightarrow> OpenByWrite d (task_id t) | Some f \<Rightarrow> (Some f, d)) in
        case f of None \<Rightarrow> None
        | Some f \<Rightarrow> Some (t\<lparr>fp := Some f, t_state := kTransferTaskStateUploading\<rparr>,
            fwrite (upload_header now (task_id t) (from_user_id t) (to_user_id t) (file_size t)) f d))
      else Some (t, d))"

definition store_segment :: "u64 \<Rightarrow> bytes \<Rightarrow> c_file \<Rightarrow> transfer_task \<Rightarrow> disk \<Rightarrow> int \<times> transfer_task \<times> disk" where
  "store_segment now seg f t d =
     (let d = fwrite seg f d;
          t = SetLastUpdateTime now (t\<lparr>transfered_idx := transfered_idx t + 1\<rparr>) in
      if transfered_idx t = sengment_size t
      then (1, t\<lparr>t_state := kTransferTaskStateUploadEnd, fp := None\<rparr>, d)
      else (0, t, d))"

text \<open>
  The size of the packet is replaced by the size of the next segment; the buffer of the packet is
  readable up to the null that ends it.
\<close>

definition Offline_DoRecvData ::
  "u64 \<Rightarrow> u32 \<Rightarrow> u32 \<Rightarrow> bytes \<Rightarrow> transfer_task \<Rightarrow> disk \<Rightarrow> (int \<times> transfer_task \<times> disk) option" where
  "Offline_DoRecvData now user_id offset data t d =
     (if \<not> CheckFromUserID user_id t then Some (-1, t, d)
      else if t_state t \<noteq> kTransferTaskStateWaitingUpload \<and> t_state t \<noteq> kTransferTaskStateUploading
        then Some (-1, t, d)
      else if offset \<noteq> segment_offset t then Some (-1, t, d)
      else let data_size = GetNextSegmentBlockSize t in
        case begin_upload now t d of None \<Rightarrow> Some (-1, t, d)
        | Some (t, d) \<Rightarrow>
           (case fp t of None \<Rightarrow> Some (-1, t, d)
            | Some f \<Rightarrow> if length data + 1 < unat data_size then None
                else Some (store_segment now (take (unat data_size) (data @ [0])) f t d)))"

text \<open>A download starts by reopening the file and reading its header.\<close>

definition begin_download :: "transfer_task \<Rightarrow> disk \<Rightarrow> bool \<times> transfer_task" where
  "begin_download t d =
     (if t_state t = kTransferTaskStateWaitingDownload then
       (let t = t\<lparr>transfered_idx := 0, fp := OpenByRead d (task_id t)\<rparr> in
        case fp t of None \<Rightarrow> (False, t)
        | Some f \<Rightarrow>
           (let (file_header, f) = fread HEADER_SIZE f d in
            if length file_header \<noteq> HEADER_SIZE then (False, t\<lparr>fp := None\<rparr>)
            else (True, t\<lparr>fp := Some f, t_state := kTransferTaskStateDownloading\<rparr>)))
      else (fp t \<noteq> None, t))"

definition load_segment :: "u64 \<Rightarrow> transfer_task \<Rightarrow> disk \<Rightarrow> int \<times> bytes \<times> transfer_task" where
  "load_segment now t d =
     (case fp t of None \<Rightarrow> (-1, [], t)
      | Some f \<Rightarrow>
         (let data_size = unat (GetNextSegmentBlockSize t); (tmpbuf, f) = fread data_size f d in
          if length tmpbuf \<noteq> data_size then (-1, [], t\<lparr>fp := Some f\<rparr>)
          else
            (let t = SetLastUpdateTime now (t\<lparr>fp := Some f, transfered_idx := transfered_idx t + 1\<rparr>) in
             if transfered_idx t = sengment_size t
             then (1, tmpbuf, t\<lparr>t_state := kTransferTaskStateUploadEnd, fp := None\<rparr>)
             else (0, tmpbuf, t))))"

definition Offline_DoPullFileRequest ::
  "u64 \<Rightarrow> u32 \<Rightarrow> transfer_task \<Rightarrow> disk \<Rightarrow> int \<times> bytes \<times> transfer_task" where
  "Offline_DoPullFileRequest now offset t d =
     (if t_state t \<noteq> kTransferTaskStateWaitingDownload \<and> t_state t \<noteq> kTransferTaskStateDownloading
      then (-1, [], t)
      else
        (let (ok, t) = begin_download t d in
         if \<not> ok then (-1, [], t)
         else if offset \<noteq> segment_offset t then (-1, [], t)
         else load_segment now t d))"

subsection \<open>The virtual methods\<close>

definition ChangePullState :: "u64 \<Rightarrow> u32 \<Rightarrow> u32 \<Rightarrow> transfer_task \<Rightarrow> bool \<times> transfer_task" where
  "ChangePullState now user_id file_role t = (case t_class t of
     OnlineTransferTask \<Rightarrow> Online_ChangePullState now user_id file_role t
   | OfflineTransferTask \<Rightarrow> Offline_ChangePullState now user_id file_role t)"

definition CheckByUserIDAndFileRole :: "u32 \<Rightarrow> u32 \<Rightarrow> transfer_task \<Rightarrow> bool" where
  "CheckByUserIDAndFileRole user_id file_role t = (case t_class t of
     OnlineTransferTask \<Rightarrow> Online_CheckByUserIDAndFileRole user_id file_role t
   | OfflineTransferTask \<Rightarrow> Offline_CheckByUserIDAndFileRole user_id file_role t)"

definition DoRecvData ::
  "u64 \<Rightarrow> u32 \<Rightarrow> u32 \<Rightarrow> bytes \<Rightarrow> transfer_task \<Rightarrow> disk \<Rightarrow> (int \<times> transfer_task \<times> disk) option" where
  "DoRecvData now user_id offset data t d = (case t_class t of
     OnlineTransferTask \<Rightarrow> (let (rv, t) = Online_DoRecvData now user_id t in Some (rv, t, d))
   | OfflineTransferTask \<Rightarrow> Offline_DoRecvData now user_id offset data t d)"

definition DoPullFileRequest ::
  "u64 \<Rightarrow> u32 \<Rightarrow> transfer_task \<Rightarrow> disk \<Rightarrow> int \<times> bytes \<times> transfer_task" where
  "DoPullFileRequest now offset t d = (case t_class t of
     OnlineTransferTask \<Rightarrow> (let (rv, t) = Online_DoPullFileRequest now t in (rv, [], t))
   | OfflineTransferTask \<Rightarrow> Offline_DoPullFileRequest now offset t d)"

subsection \<open>Logins\<close>

lemma ChangePullState_class [simp]: "t_class (snd (ChangePullState now u r t)) = t_class t"
  by (simp add: ChangePullState_def Online_ChangePullState_def Offline_ChangePullState_def
      SetLastUpdateTime_def set_state_def Let_def split: task_class.split)

lemma ChangePullState_fst:
  "fst (ChangePullState now user_id role t) = CheckByUserIDAndFileRole user_id role t"
  by (simp add: ChangePullState_def Online_ChangePullState_def Offline_ChangePullState_def
      CheckByUserIDAndFileRole_def Let_def split: task_class.split)

text \<open>
  C37: \<open>ChangePullState\<close> reports success although it refused: a second login of the sender of an online
  task, and a login to download a file that is not uploaded yet, leave the state as it is and return
  true, so that the caller lets the connection in.
\<close>

lemma refused_login_reports_success:
  assumes "t_class t = OnlineTransferTask \<and> t_state t = kTransferTaskStateWaitingReceiver
        \<and> user = from_user_id t \<and> role = CLIENT_REALTIME_SENDER
      \<or> t_class t = OfflineTransferTask \<and> t_state t \<in> {kTransferTaskStateReady, kTransferTaskStateUploading}
        \<and> user = to_user_id t \<and> role = CLIENT_OFFLINE_DOWNLOAD"
  shows "ChangePullState now user role t = (True, t)"
  using assms
  by (auto simp: ChangePullState_def Online_ChangePullState_def Offline_ChangePullState_def Let_def
      Online_CheckByUserIDAndFileRole_def Offline_CheckByUserIDAndFileRole_def CheckFromUserID_def
      CheckToUserID_def const_defs)

lemma refused_login_reports_success_witness:
  "ChangePullState 9 8 CLIENT_OFFLINE_DOWNLOAD (NewTask OfflineTransferTask 5 [97, 98] 7 8 [] 100) =
    (True, NewTask OfflineTransferTask 5 [97, 98] 7 8 [] 100)"
  by (rule refused_login_reports_success) (simp add: NewTask_def)

subsection \<open>Segments\<close>

lemma SEGMENT_SIZE_unat [simp]: "unat SEGMENT_SIZE = 32768"
  by (simp add: SEGMENT_SIZE_def)

lemma SetMaxSegmentSize_ceil: "SetMaxSegmentSize n = (unat n + (32768 - 1)) div 32768"
proof -
  have m: "n mod SEGMENT_SIZE = 0 \<longleftrightarrow> unat n mod 32768 = 0"
    by (metis SEGMENT_SIZE_unat unat_eq_zero unat_mod)
  have d: "unat (n div SEGMENT_SIZE) = unat n div 32768" by (simp add: unat_div)
  have "unat n div 32768 \<le> unat n" "unat n div 32768 * 32768 \<le> unat n" by simp_all
  then have "unat n div 32768 + 1 < 2 ^ 32" using unat_u32_lt [of n] by simp
  then have "unat (n div SEGMENT_SIZE + 1) = unat n div 32768 + 1"
    using d by (subst unat_add_no_wrap) simp_all
  then show ?thesis
    using ceil_div_cases [of 32768 "unat n"] by (simp add: SetMaxSegmentSize_def m d)
qed

lemma task_offsets_fit_int:
  assumes "sengment_size t = SetMaxSegmentSize (file_size t)" and "transfered_idx t < sengment_size t"
  shows "unat (segment_offset t) = transfered_idx t * 32768"
    and "transfered_idx t * 32768 < unat (file_size t)"
    and "unat (GetNextSegmentBlockSize t) = min 32768 (unat (file_size t) - transfered_idx t * 32768)"
proof -
  let ?n = "unat (file_size t)"
  note iff = less_ceil_div_iff [of 32768 _ ?n]
  show lt: "transfered_idx t * 32768 < ?n"
    using assms iff [of "transfered_idx t"] by (simp add: SetMaxSegmentSize_ceil)
  have next_iff: "transfered_idx t + 1 < sengment_size t \<longleftrightarrow> (transfered_idx t + 1) * 32768 < ?n"
    using assms(1) iff [of "transfered_idx t + 1"] by (simp add: SetMaxSegmentSize_ceil)
  have small: "transfered_idx t * 32768 < 2 ^ 32" using lt unat_u32_lt [of "file_size t"] by simp
  have "segment_offset t = of_nat (transfered_idx t * 32768)"
    by (simp add: segment_offset_def SEGMENT_SIZE_def)
  then show off: "unat (segment_offset t) = transfered_idx t * 32768"
    using small by (simp only: unat_of_nat_32)
  show "unat (GetNextSegmentBlockSize t) = min 32768 (?n - transfered_idx t * 32768)"
  proof (cases "transfered_idx t + 1 = sengment_size t")
    case True
    have "segment_offset t \<le> file_size t" using off lt by (simp add: word_le_nat_alt)
    then have "unat (file_size t - segment_offset t) = ?n - transfered_idx t * 32768"
      using off by (simp add: unat_sub_no_wrap)
    then show ?thesis using True next_iff by (simp add: GetNextSegmentBlockSize_def)
  next
    case False
    then have "(transfered_idx t + 1) * 32768 < ?n" using next_iff assms(2) by linarith
    then show ?thesis using False by (simp add: GetNextSegmentBlockSize_def)
  qed
qed

lemma GetNextOffset_eq: "GetNextOffset t = segment_offset t"
  by (simp add: GetNextOffset_def segment_offset_def)

subsection \<open>A file is uploaded and downloaded\<close>

text \<open>
  The sender answers the request for the next segment, and the receiver asks for the next segment,
  as the requests of the server and of the client do; both stop after \<open>n\<close> packets.
\<close>

definition answer_request :: "bytes \<Rightarrow> transfer_task \<Rightarrow> bytes" where
  "answer_request content t =
     take (unat (GetNextSegmentBlockSize t)) (drop (unat (GetNextOffset t)) content)"

fun upload_run :: "u64 \<Rightarrow> bytes \<Rightarrow> nat \<Rightarrow> transfer_task \<Rightarrow> disk \<Rightarrow> (int list \<times> transfer_task \<times> disk) option" where
  "upload_run now content 0 t d = Some ([], t, d)"
| "upload_run now content (Suc n) t d =
     (case Offline_DoRecvData now (from_user_id t) (GetNextOffset t) (answer_request content t) t d of
        None \<Rightarrow> None
      | Some (rv, t, d) \<Rightarrow> (case upload_run now content n t d of None \<Rightarrow> None
          | Some (rvs, t, d) \<Rightarrow> Some (rv # rvs, t, d)))"

fun download_run :: "u64 \<Rightarrow> nat \<Rightarrow> transfer_task \<Rightarrow> disk \<Rightarrow> int list \<times> bytes" where
  "download_run now 0 t d = ([], [])"
| "download_run now (Suc n) t d =
     (let (rv, seg, t) = Offline_DoPullFileRequest now (GetNextOffset t) t d;
          (rvs, rest) = download_run now n t d
      in (rv # rvs, seg @ rest))"

text \<open>The state between two segments of an upload and of a download.\<close>

definition offline_task_for :: "bytes \<Rightarrow> transfer_task \<Rightarrow> bool" where
  "offline_task_for content t \<longleftrightarrow> unat (file_size t) = length content
     \<and> sengment_size t = SetMaxSegmentSize (file_size t)"

definition upload_path_ok :: "transfer_task \<Rightarrow> disk \<Rightarrow> bool" where
  "upload_path_ok t d \<longleftrightarrow> 2 \<le> length (task_id t) \<and> \<not> fs_denied d (save_path d (task_id t))"

definition uploading :: "bytes \<Rightarrow> bytes \<Rightarrow> transfer_task \<Rightarrow> disk \<Rightarrow> bool" where
  "uploading hdr content t d \<longleftrightarrow> offline_task_for content t
     \<and> t_state t = kTransferTaskStateUploading
     \<and> (\<exists>f. fp t = Some f \<and> f_path f = save_path d (task_id t))
     \<and> fs_files d (save_path d (task_id t)) = Some (hdr @ take (transfered_idx t * 32768) content)"

definition downloading :: "bytes \<Rightarrow> bytes \<Rightarrow> transfer_task \<Rightarrow> disk \<Rightarrow> bool" where
  "downloading hdr content t d \<longleftrightarrow> offline_task_for content t
     \<and> t_state t = kTransferTaskStateDownloading
     \<and> (\<exists>f. fp t = Some f \<and> f_path f = save_path d (task_id t)
           \<and> f_pos f = length hdr + transfered_idx t * 32768)
     \<and> fs_files d (save_path d (task_id t)) = Some (hdr @ content)"

lemma save_path_files [simp]: "save_path (d\<lparr>fs_files := fs\<rparr>) tid = save_path d tid"
  by (simp add: save_path_def GetCurrentOfflinePath_def)

lemma save_path_fwrite [simp]: "save_path (fwrite b f d) tid = save_path d tid"
  by (simp add: fwrite_def)

lemma answer_request_segment:
  assumes "offline_task_for content t" "transfered_idx t < sengment_size t"
  shows "length (answer_request content t) = unat (GetNextSegmentBlockSize t)"
    and "answer_request content t = take 32768 (drop (transfered_idx t * 32768) content)"
  using assms task_offsets_fit_int [of t]
  by (simp_all add: answer_request_def GetNextOffset_eq offline_task_for_def min_def)

lemma take_segment:
  "take (k * n) xs @ take n (drop (k * n) xs) = take (Suc k * n) xs"
  by (simp add: take_add add.commute [of n])

definition same_task :: "transfer_task \<Rightarrow> transfer_task \<Rightarrow> bool" where
  "same_task t t' \<longleftrightarrow> t_class t' = t_class t \<and> task_id t' = task_id t \<and> from_user_id t' = from_user_id t
     \<and> to_user_id t' = to_user_id t \<and> file_size t' = file_size t \<and> sengment_size t' = sengment_size t"

definition same_place :: "disk \<Rightarrow> disk \<Rightarrow> bool" where
  "same_place d d' \<longleftrightarrow> fs_cwd d' = fs_cwd d \<and> fs_denied d' = fs_denied d"

lemma same_place_save_path: "same_place d d' \<Longrightarrow> save_path d' tid = save_path d tid"
  by (simp add: same_place_def save_path_def GetCurrentOfflinePath_def)

lemma same_task_trans: "same_task t u \<Longrightarrow> same_task u v \<Longrightarrow> same_task t v"
  by (simp add: same_task_def)

lemma same_place_trans: "same_place d e \<Longrightarrow> same_place e f \<Longrightarrow> same_place d f"
  by (simp add: same_place_def)

text \<open>What one stored segment does to the task and the file.\<close>

lemma store_segment_step:
  assumes "uploading hdr content t d" and "fp t = Some f" and "transfered_idx t < sengment_size t"
  obtains t' d' where
    "store_segment now (answer_request content t) f t d =
       (if transfered_idx t + 1 = sengment_size t then 1 else 0, t', d')"
    "same_task t t'" "same_place d d'" "transfered_idx t' = transfered_idx t + 1"
    "fs_files d' (save_path d (task_id t)) = Some (hdr @ take (transfered_idx t' * 32768) content)"
    "transfered_idx t' < sengment_size t \<Longrightarrow> uploading hdr content t' d'"
    "transfered_idx t' = sengment_size t \<Longrightarrow> t_state t' = kTransferTaskStateUploadEnd"
proof -
  obtain r t' d' where eq: "store_segment now (answer_request content t) f t d = (r, t', d')"
    by (cases "store_segment now (answer_request content t) f t d") auto
  have seg: "answer_request content t = take 32768 (drop (transfered_idx t * 32768) content)"
    using assms by (simp add: uploading_def answer_request_segment)
  have files: "fs_files d' (save_path d (task_id t)) = Some (hdr @ take (Suc (transfered_idx t) * 32768) content)"
    using assms eq
    by (auto simp: store_segment_def Let_def fwrite_def file_bytes_def uploading_def seg take_segment
        simp del: mult_Suc split: if_splits)
  have same: "same_task t t'" "same_place d d'" "transfered_idx t' = transfered_idx t + 1"
    and r: "r = (if transfered_idx t + 1 = sengment_size t then 1 else 0)"
    using eq by (auto simp: store_segment_def Let_def same_task_def same_place_def fwrite_def
        SetLastUpdateTime_def split: if_splits)
  have "uploading hdr content t' d'" if "transfered_idx t' < sengment_size t"
    using assms eq files same that
    by (auto simp: uploading_def offline_task_for_def same_task_def same_place_save_path store_segment_def
        Let_def SetLastUpdateTime_def split: if_splits)
  moreover have "t_state t' = kTransferTaskStateUploadEnd" if "transfered_idx t' = sengment_size t"
    using eq same(3) that by (auto simp: store_segment_def Let_def SetLastUpdateTime_def split: if_splits)
  ultimately show ?thesis using that eq r same files by simp
qed

lemma recv_while_uploading:
  assumes "uploading hdr content t d" and "fp t = Some f" and "transfered_idx t < sengment_size t"
  shows "Offline_DoRecvData now (from_user_id t) (GetNextOffset t) (answer_request content t) t d =
    Some (store_segment now (answer_request content t) f t d)"
  using assms answer_request_segment(1) [of content t]
  by (simp add: Offline_DoRecvData_def uploading_def CheckFromUserID_def GetNextOffset_eq Let_def
      begin_upload_def)

text \<open>The first packet writes the header and then is stored as every other.\<close>

lemma recv_first:
  assumes "offline_task_for content t" and "t_state t = kTransferTaskStateWaitingUpload"
    and "transfered_idx t = 0" and "fp t = None" and "upload_path_ok t d"
    and "fs_files d (save_path d (task_id t)) = None" and "0 < sengment_size t"
  obtains t' d' f where
    "Offline_DoRecvData now (from_user_id t) (GetNextOffset t) (answer_request content t) t d =
       Some (store_segment now (answer_request content t') f t' d')"
    "uploading (upload_header now (task_id t) (from_user_id t) (to_user_id t) (file_size t)) content t' d'"
    "fp t' = Some f" "same_task t t'" "same_place d d'" "transfered_idx t' = 0"
proof -
  let ?p = "save_path d (task_id t)"
  let ?f = "\<lparr>f_path = ?p, f_pos = 0\<rparr>"
  let ?h = "upload_header now (task_id t) (from_user_id t) (to_user_id t) (file_size t)"
  define t' where "t' = t\<lparr>fp := Some ?f, t_state := kTransferTaskStateUploading\<rparr>"
  define d' where "d' = fwrite ?h ?f (d\<lparr>fs_files := (fs_files d)(?p \<mapsto> [])\<rparr>)"
  have opened: "begin_upload now t d = Some (t', d')"
    using assms by (simp add: begin_upload_def OpenByWrite_def upload_path_ok_def t'_def d'_def)
  have ans: "answer_request content t' = answer_request content t"
    by (simp add: t'_def answer_request_def GetNextOffset_def GetNextSegmentBlockSize_def segment_offset_def)
  have "Offline_DoRecvData now (from_user_id t) (GetNextOffset t) (answer_request content t) t d =
      Some (store_segment now (answer_request content t') ?f t' d')"
    using assms opened answer_request_segment(1) [of content t]
    by (simp add: Offline_DoRecvData_def CheckFromUserID_def GetNextOffset_eq Let_def ans) (simp add: t'_def)
  moreover have "uploading ?h content t' d'"
    using assms by (simp add: uploading_def t'_def d'_def offline_task_for_def fwrite_def file_bytes_def)
  moreover have "same_task t t'" "same_place d d'" "transfered_idx t' = 0" "fp t' = Some ?f"
    using assms by (simp_all add: t'_def d'_def same_task_def same_place_def fwrite_def)
  ultimately show ?thesis using that by blast
qed

definition packet_results :: "nat \<Rightarrow> nat \<Rightarrow> nat \<Rightarrow> int list" where
  "packet_results segs i n = map (\<lambda>k. if k + 1 = segs then 1 else 0) [i..<i + n]"

lemma packet_results_Suc:
  "packet_results segs i (Suc n) = (if i + 1 = segs then 1 else 0) # packet_results segs (Suc i) n"
  unfolding packet_results_def by (subst upt_conv_Cons) simp_all

definition upload_reaches ::
  "bytes \<Rightarrow> bytes \<Rightarrow> transfer_task \<Rightarrow> disk \<Rightarrow> nat \<Rightarrow> transfer_task \<Rightarrow> disk \<Rightarrow> bool" where
  "upload_reaches hdr content t d k t' d' \<longleftrightarrow> same_task t t' \<and> same_place d d' \<and> transfered_idx t' = k
     \<and> fs_files d' (save_path d (task_id t)) = Some (hdr @ take (k * 32768) content)
     \<and> (k < sengment_size t \<longrightarrow> uploading hdr content t' d')
     \<and> (0 < k \<and> k = sengment_size t \<longrightarrow> t_state t' = kTransferTaskStateUploadEnd)"

lemma upload_reaches_trans:
  assumes "upload_reaches hdr content t d k u e" and "upload_reaches hdr content u e m t' d'"
  shows "upload_reaches hdr content t d m t' d'"
proof -
  have "same_task t u" "same_place d e" "same_task u t'" "same_place e d'"
    using assms by (simp_all add: upload_reaches_def)
  moreover from this have "save_path e (task_id u) = save_path d (task_id t)" "sengment_size u = sengment_size t"
    by (simp_all add: same_place_save_path same_task_def)
  ultimately show ?thesis
    using assms(2) same_task_trans [of t u t'] same_place_trans [of d e d']
    by (simp add: upload_reaches_def)
qed

lemma upload_reaches_refl:
  assumes "uploading hdr content t d" "transfered_idx t < sengment_size t"
  shows "upload_reaches hdr content t d (transfered_idx t) t d"
  using assms by (simp add: upload_reaches_def uploading_def same_task_def same_place_def)

lemma store_segment_reaches:
  assumes "uploading hdr content t d" and "fp t = Some f" and "transfered_idx t < sengment_size t"
  obtains t' d' where
    "store_segment now (answer_request content t) f t d =
       (if transfered_idx t + 1 = sengment_size t then 1 else 0, t', d')"
    "upload_reaches hdr content t d (transfered_idx t + 1) t' d'"
  by (rule store_segment_step [OF assms, of now], rule that, assumption)
    (use assms in \<open>simp add: upload_reaches_def\<close>)

lemma upload_run_from:
  assumes "uploading hdr content t d" and "transfered_idx t < sengment_size t"
    and "transfered_idx t + n \<le> sengment_size t"
  shows "\<exists>t' d'. upload_run now content n t d =
      Some (packet_results (sengment_size t) (transfered_idx t) n, t', d')
    \<and> upload_reaches hdr content t d (transfered_idx t + n) t' d'"
  using assms
proof (induction n arbitrary: t d)
  case 0
  then show ?case by (simp add: packet_results_def upload_reaches_refl)
next
  case (Suc n)
  obtain f where f: "fp t = Some f" using Suc.prems by (auto simp: uploading_def)
  obtain u e where ue: "store_segment now (answer_request content t) f t d =
       (if transfered_idx t + 1 = sengment_size t then 1 else 0, u, e)"
    and reach: "upload_reaches hdr content t d (transfered_idx t + 1) u e"
    by (rule store_segment_reaches [OF Suc.prems(1) f Suc.prems(2)])
  have idx: "transfered_idx u = transfered_idx t + 1" "sengment_size u = sengment_size t"
    using reach by (simp_all add: upload_reaches_def same_task_def)
  have rec: "\<exists>t' d'. upload_run now content n u e =
        Some (packet_results (sengment_size t) (Suc (transfered_idx t)) n, t', d')
      \<and> upload_reaches hdr content t d (transfered_idx t + Suc n) t' d'"
  proof (cases "n = 0")
    case True
    then show ?thesis using reach by (simp add: packet_results_def)
  next
    case False
    then have "transfered_idx u < sengment_size u" using Suc.prems idx by simp
    moreover have "uploading hdr content u e"
      using reach idx calculation by (simp add: upload_reaches_def)
    moreover have "transfered_idx u + n \<le> sengment_size u" using Suc.prems(3) idx by simp
    ultimately show ?thesis
      using Suc.IH [of u e] upload_reaches_trans [OF reach] idx by auto
  qed
  then show ?case
    using recv_while_uploading [OF Suc.prems(1) f Suc.prems(2), of now] ue
    by (auto simp: packet_results_Suc)
qed

text \<open>From the state after the sender's login: the first packet opens the file.\<close>

definition upload_waiting :: "bytes \<Rightarrow> transfer_task \<Rightarrow> disk \<Rightarrow> bool" where
  "upload_waiting content t d \<longleftrightarrow> offline_task_for content t
     \<and> t_state t = kTransferTaskStateWaitingUpload \<and> transfered_idx t = 0 \<and> fp t = None
     \<and> upload_path_ok t d \<and> fs_files d (save_path d (task_id t)) = None"

definition header_of :: "u64 \<Rightarrow> transfer_task \<Rightarrow> bytes" where
  "header_of now t = upload_header now (task_id t) (from_user_id t) (to_user_id t) (file_size t)"

lemma upload_run_waiting:
  assumes "upload_waiting content t d" and "0 < n" and "n \<le> sengment_size t"
  shows "\<exists>t' d'. upload_run now content n t d = Some (packet_results (sengment_size t) 0 n, t', d')
    \<and> upload_reaches (header_of now t) content t d n t' d'"
proof -
  obtain u e f where first:
      "Offline_DoRecvData now (from_user_id t) (GetNextOffset t) (answer_request content t) t d =
         Some (store_segment now (answer_request content u) f u e)"
    and up: "uploading (header_of now t) content u e" and f: "fp u = Some f"
    and same: "same_task t u" "same_place d e" "transfered_idx u = 0"
    by (rule recv_first [of content t d now])
      (use assms in \<open>simp_all add: upload_waiting_def header_of_def\<close>)
  have seg: "sengment_size u = sengment_size t" using same by (simp add: same_task_def)
  have lt: "transfered_idx u < sengment_size u" using assms seg same(3) by simp
  have "\<exists>t' d'. upload_run now content n u e = Some (packet_results (sengment_size u) 0 n, t', d')
    \<and> upload_reaches (header_of now t) content u e n t' d'"
    using upload_run_from [OF up lt, of n now] assms seg same(3) by simp
  moreover have "upload_run now content n t d = upload_run now content n u e"
  proof (cases n)
    case (Suc m)
    then show ?thesis using first recv_while_uploading [OF up f lt, of now] by simp
  qed (use assms in simp)
  moreover have "upload_reaches (header_of now t) content t d m t' d'"
    if "upload_reaches (header_of now t) content u e m t' d'" for m t' d'
  proof -
    have "save_path e (task_id u) = save_path d (task_id t)"
      using same by (simp add: same_place_save_path same_task_def)
    then show ?thesis
      using that seg same_task_trans [OF same(1), of t'] same_place_trans [OF same(2), of d']
      by (simp add: upload_reaches_def)
  qed
  ultimately show ?thesis using seg by auto
qed

lemma load_segment_step:
  assumes "downloading hdr content t d" and "transfered_idx t < sengment_size t"
  obtains t' where
    "load_segment now t d = (if transfered_idx t + 1 = sengment_size t then 1 else 0,
       take 32768 (drop (transfered_idx t * 32768) content), t')"
    "same_task t t'" "transfered_idx t' = transfered_idx t + 1"
    "transfered_idx t' < sengment_size t \<Longrightarrow> downloading hdr content t' d"
proof -
  let ?seg = "take 32768 (drop (transfered_idx t * 32768) content)"
  obtain f where f: "fp t = Some f" "f_path f = save_path d (task_id t)"
      "f_pos f = length hdr + transfered_idx t * 32768"
    and onfile: "fs_files d (save_path d (task_id t)) = Some (hdr @ content)"
    and task: "offline_task_for content t" and state: "t_state t = kTransferTaskStateDownloading"
    using assms(1) by (auto simp: downloading_def)
  note size = task_offsets_fit_int [of t]
  have n: "unat (GetNextSegmentBlockSize t) = length ?seg"
    using size task assms(2) by (simp add: offline_task_for_def min.commute)
  have read: "fread (length ?seg) f d = (?seg, f\<lparr>f_pos := f_pos f + length ?seg\<rparr>)"
    using f onfile by (simp add: fread_simp file_bytes_def) (simp add: min_def)
  obtain r b t' where eq: "load_segment now t d = (r, b, t')" by (cases "load_segment now t d") auto
  have rb: "r = (if transfered_idx t + 1 = sengment_size t then 1 else 0)" "b = ?seg"
      "same_task t t'" "transfered_idx t' = transfered_idx t + 1"
    using eq f(1) unfolding load_segment_def n by (auto simp: read Let_def SetLastUpdateTime_def same_task_def
        simp del: length_take split: if_splits)
  have "downloading hdr content t' d" if "transfered_idx t' < sengment_size t"
  proof -
    have next_lt: "transfered_idx t + 1 < sengment_size t" using that rb(4) by simp
    have "length ?seg = 32768"
      using less_ceil_div_iff [of 32768 "transfered_idx t + 1" "length content"] next_lt task
      by (simp add: offline_task_for_def SetMaxSegmentSize_ceil)
    moreover have "t' = SetLastUpdateTime now (t\<lparr>fp := Some (f\<lparr>f_pos := f_pos f + length ?seg\<rparr>),
        transfered_idx := transfered_idx t + 1\<rparr>)"
      using eq f(1) next_lt unfolding load_segment_def n
      by (auto simp: read Let_def SetLastUpdateTime_def simp del: length_take)
    ultimately show ?thesis
      using f onfile task state
      by (simp add: SetLastUpdateTime_def downloading_def offline_task_for_def del: length_take)
  qed
  then show ?thesis using that eq rb by simp
qed

lemma pull_while_downloading:
  assumes "downloading hdr content t d" "transfered_idx t < sengment_size t"
  shows "Offline_DoPullFileRequest now (GetNextOffset t) t d = load_segment now t d"
  using assms by (auto simp: Offline_DoPullFileRequest_def downloading_def begin_download_def GetNextOffset_eq)

lemma packet_results_1: "packet_results segs i (Suc 0) = [if i + 1 = segs then 1 else 0]"
  by (simp add: packet_results_def)

lemma download_run_from:
  assumes "downloading hdr content t d" and "transfered_idx t + Suc n = sengment_size t"
  shows "download_run now (Suc n) t d =
    (packet_results (sengment_size t) (transfered_idx t) (Suc n), drop (transfered_idx t * 32768) content)"
  using assms
proof (induction n arbitrary: t)
  case 0
  obtain t' where "load_segment now t d = (if transfered_idx t + 1 = sengment_size t then 1 else 0,
       take 32768 (drop (transfered_idx t * 32768) content), t')"
    using load_segment_step [OF 0(1), of now] 0(2) by auto
  moreover have "length (drop (transfered_idx t * 32768) content) \<le> 32768"
    using 0 less_ceil_div_iff [of 32768 "transfered_idx t + 1" "length content"]
    by (simp add: downloading_def offline_task_for_def SetMaxSegmentSize_ceil)
  ultimately show ?case
    using 0 pull_while_downloading [OF 0(1), of now] by (simp add: packet_results_1)
next
  case (Suc n)
  obtain t' where t': "load_segment now t d = (if transfered_idx t + 1 = sengment_size t then 1 else 0,
       take 32768 (drop (transfered_idx t * 32768) content), t')"
      "same_task t t'" "transfered_idx t' = transfered_idx t + 1"
      "transfered_idx t' < sengment_size t \<Longrightarrow> downloading hdr content t' d"
    using load_segment_step [OF Suc.prems(1), of now] Suc.prems(2) by auto
  have "sengment_size t' = sengment_size t" using t'(2) by (simp add: same_task_def)
  then have "download_run now (Suc n) t' d =
      (packet_results (sengment_size t) (Suc (transfered_idx t)) (Suc n), drop (Suc (transfered_idx t) * 32768) content)"
    using Suc.IH [of t'] t' Suc.prems(2) by simp
  moreover have "take 32768 (drop (k * 32768) content) @ drop (Suc k * 32768) content = drop (k * 32768) content" for k
    using append_take_drop_id [of 32768 "drop (k * 32768) content"]
    by (simp add: add.commute del: append_take_drop_id)
  ultimately show ?case
    using t'(1) pull_while_downloading [OF Suc.prems(1), of now] Suc.prems(2)
    by (simp add: packet_results_Suc del: mult_Suc download_run.simps(2))
      (simp add: packet_results_Suc del: mult_Suc)
qed

lemma LoadFromDisk_header:
  assumes id: "2 \<le> length tid" "length tid < 128" "\<forall>c \<in> set tid. c \<noteq> 0"
    and onfile: "fs_files d (save_path d tid) = Some (upload_header then_t tid s r fsize @ body)"
    and ok: "\<not> fs_denied d (save_path d tid)"
  shows "LoadFromDisk now tid d = (if length body = unat fsize
    then Some (set_state kTransferTaskStateWaitingDownload
      (NewTask OfflineTransferTask now tid s r (get_file_name (upload_header then_t tid s r fsize)) fsize))
    else None)"
proof -
  let ?h = "upload_header then_t tid s r fsize"
  have h: "length ?h = HEADER_SIZE" using id by (simp add: length_upload_header)
  have "OpenByRead d tid = Some \<lparr>f_path = save_path d tid, f_pos = 0\<rparr>"
    using id onfile ok by (simp add: OpenByRead_def)
  moreover have "fread HEADER_SIZE \<lparr>f_path = save_path d tid, f_pos = 0\<rparr> d =
      (?h, \<lparr>f_path = save_path d tid, f_pos = HEADER_SIZE\<rparr>)"
    using onfile h by (simp add: fread_simp file_bytes_def)
  ultimately show ?thesis
    using h onfile by (auto simp: LoadFromDisk_def file_bytes_def get_upload_header [OF id(2,3)])
qed

definition download_waiting :: "bytes \<Rightarrow> transfer_task \<Rightarrow> disk \<Rightarrow> bool" where
  "download_waiting content t d \<longleftrightarrow> offline_task_for content t
     \<and> t_state t = kTransferTaskStateWaitingDownload \<and> transfered_idx t = 0 \<and> upload_path_ok t d
     \<and> (\<exists>hdr. length hdr = HEADER_SIZE \<and> fs_files d (save_path d (task_id t)) = Some (hdr @ content))"

lemma download_run_waiting:
  assumes "download_waiting content t d" and "0 < sengment_size t"
  shows "download_run now (sengment_size t) t d = (packet_results (sengment_size t) 0 (sengment_size t), content)"
proof -
  let ?p = "save_path d (task_id t)"
  obtain hdr where hdr: "length hdr = HEADER_SIZE" "fs_files d ?p = Some (hdr @ content)"
    using assms(1) by (auto simp: download_waiting_def)
  define u where "u = t\<lparr>transfered_idx := 0, fp := Some \<lparr>f_path = ?p, f_pos = HEADER_SIZE\<rparr>,
    t_state := kTransferTaskStateDownloading\<rparr>"
  have "begin_download t d = (True, u)"
    using assms hdr by (simp add: begin_download_def download_waiting_def OpenByRead_def upload_path_ok_def
        fread_simp file_bytes_def u_def)
  then have first: "Offline_DoPullFileRequest now (GetNextOffset t) t d = load_segment now u d"
    using assms by (simp add: Offline_DoPullFileRequest_def download_waiting_def GetNextOffset_eq
        segment_offset_def u_def)
  have down: "downloading hdr content u d"
    using assms hdr by (simp add: downloading_def download_waiting_def u_def offline_task_for_def)
  have u: "sengment_size u = sengment_size t" "transfered_idx u = 0" by (simp_all add: u_def)
  obtain n where n: "sengment_size t = Suc n" using assms(2) by (cases "sengment_size t") auto
  have "download_run now (Suc n) t d = download_run now (Suc n) u d"
    using first pull_while_downloading [OF down, of now] u assms(2) by simp
  also have "\<dots> = (packet_results (Suc n) 0 (Suc n), content)"
    using download_run_from [OF down, of n now] u n by simp
  finally show ?thesis by (simp add: n)
qed

definition offline_task :: "u64 \<Rightarrow> bytes \<Rightarrow> u32 \<Rightarrow> u32 \<Rightarrow> bytes \<Rightarrow> bytes \<Rightarrow> transfer_task" where
  "offline_task now tid sender receiver name content =
     NewTask OfflineTransferTask now tid sender receiver name (of_nat (length content))"

definition uploadable :: "bytes \<Rightarrow> bytes \<Rightarrow> disk \<Rightarrow> bool" where
  "uploadable tid content d \<longleftrightarrow> 0 < length content \<and> length content < 2 ^ 31
     \<and> 2 \<le> length tid \<and> length tid < 128 \<and> (\<forall>c \<in> set tid. c \<noteq> 0)
     \<and> fs_files d (save_path d tid) = None \<and> \<not> fs_denied d (save_path d tid)"

definition segments :: "bytes \<Rightarrow> nat" where
  "segments content = (length content + (32768 - 1)) div 32768"

lemma segments_pos: "0 < length content \<Longrightarrow> 0 < segments content"
  using less_ceil_div_iff [of 32768 0 "length content"] by (simp add: segments_def)

lemma login_upload_waiting:
  assumes "uploadable tid content d"
  shows "upload_waiting content (snd (ChangePullState now s CLIENT_OFFLINE_UPLOAD
      (offline_task now tid s r name content))) d"
    and "sengment_size (snd (ChangePullState now s CLIENT_OFFLINE_UPLOAD
      (offline_task now tid s r name content))) = segments content"
    and "header_of now' (snd (ChangePullState now s CLIENT_OFFLINE_UPLOAD
      (offline_task now tid s r name content))) = upload_header now' tid s r (of_nat (length content))"
    and "task_id (snd (ChangePullState now s CLIENT_OFFLINE_UPLOAD
      (offline_task now tid s r name content))) = tid"
proof -
  have "unat (of_nat (length content) :: u32) = length content"
    using assms by (intro unat_of_nat_32) (simp add: uploadable_def)
  moreover have "snd (ChangePullState now s CLIENT_OFFLINE_UPLOAD (offline_task now tid s r name content)) =
      (offline_task now tid s r name content)\<lparr>t_state := kTransferTaskStateWaitingUpload\<rparr>"
    by (simp add: ChangePullState_def offline_task_def NewTask_def Offline_ChangePullState_def
        Offline_CheckByUserIDAndFileRole_def CheckFromUserID_def SetLastUpdateTime_def set_state_def)
  ultimately show "upload_waiting content (snd (ChangePullState now s CLIENT_OFFLINE_UPLOAD
      (offline_task now tid s r name content))) d"
    "sengment_size (snd (ChangePullState now s CLIENT_OFFLINE_UPLOAD
      (offline_task now tid s r name content))) = segments content"
    "header_of now' (snd (ChangePullState now s CLIENT_OFFLINE_UPLOAD
      (offline_task now tid s r name content))) = upload_header now' tid s r (of_nat (length content))"
    "task_id (snd (ChangePullState now s CLIENT_OFFLINE_UPLOAD
      (offline_task now tid s r name content))) = tid"
    using assms by (simp_all add: upload_waiting_def offline_task_for_def offline_task_def NewTask_def
        upload_path_ok_def uploadable_def header_of_def SetMaxSegmentSize_ceil segments_def)
qed

text \<open>
  C37: a file sent to the file server is delivered: after the sender's login every request is answered
  with the segment it asks for, exactly the last packet ends the upload, and the receiver, for whom
  the task is loaded from the disk (as after a restart of the server), downloads the same bytes in
  as many segments.
\<close>

theorem upload_download:
  assumes "uploadable tid content d"
  shows "\<exists>t1 d1 t2.
    upload_run now content (segments content)
      (snd (ChangePullState now s CLIENT_OFFLINE_UPLOAD (offline_task now tid s r name content))) d =
        Some (replicate (segments content - 1) 0 @ [1], t1, d1)
    \<and> t_state t1 = kTransferTaskStateUploadEnd
    \<and> LoadFromDisk later tid d1 = Some t2 \<and> from_user_id t2 = s \<and> to_user_id t2 = r
    \<and> download_run later (segments content) (snd (ChangePullState later r CLIENT_OFFLINE_DOWNLOAD t2)) d1 =
        (replicate (segments content - 1) 0 @ [1], content)"
proof -
  let ?t = "snd (ChangePullState now s CLIENT_OFFLINE_UPLOAD (offline_task now tid s r name content))"
  let ?n = "segments content" and ?h = "upload_header now tid s r (of_nat (length content))"
  note up = login_upload_waiting [OF assms, where now = now and s = s and r = r and name = name]
  have len: "unat (of_nat (length content) :: u32) = length content"
    using assms by (intro unat_of_nat_32) (simp add: uploadable_def)
  have pos: "0 < ?n" using assms by (simp add: segments_pos uploadable_def)
  have whole: "take (?n * 32768) content = content"
    using less_ceil_div_iff [of 32768 ?n "length content"] by (simp add: segments_def)
  have codes: "packet_results ?n 0 ?n = replicate (?n - 1) 0 @ [1]"
    using pos by (cases ?n) (auto simp: packet_results_def map_replicate_const intro: nth_equalityI)
  obtain t1 d1 where run: "upload_run now content ?n ?t d = Some (packet_results ?n 0 ?n, t1, d1)"
    and reach: "upload_reaches ?h content ?t d ?n t1 d1"
    using upload_run_waiting [OF up(1) pos, of now] up(2,3) by auto
  have place: "same_place d d1" "save_path d1 tid = save_path d tid"
    using reach same_place_save_path [of d d1] by (simp_all add: upload_reaches_def)
  have onfile: "fs_files d1 (save_path d1 tid) = Some (?h @ content)"
    using reach whole up(4) place by (simp add: upload_reaches_def)
  have ended: "t_state t1 = kTransferTaskStateUploadEnd"
    using reach pos up(2) by (simp add: upload_reaches_def)
  define t2 where "t2 = set_state kTransferTaskStateWaitingDownload
      (NewTask OfflineTransferTask later tid s r (get_file_name ?h) (of_nat (length content)))"
  have load: "LoadFromDisk later tid d1 = Some t2"
    using LoadFromDisk_header [OF _ _ _ onfile] assms place len
    by (simp add: uploadable_def same_place_def t2_def)
  let ?u = "snd (ChangePullState later r CLIENT_OFFLINE_DOWNLOAD t2)"
  have u: "?u = t2"
    by (simp add: t2_def ChangePullState_def Offline_ChangePullState_def NewTask_def set_state_def
        Offline_CheckByUserIDAndFileRole_def CheckToUserID_def SetLastUpdateTime_def const_defs)
  have seg: "sengment_size t2 = ?n"
    using len by (simp add: t2_def NewTask_def set_state_def SetMaxSegmentSize_ceil segments_def)
  have "length ?h = HEADER_SIZE" using assms by (simp add: length_upload_header uploadable_def)
  then have "download_waiting content t2 d1"
    using onfile assms place len
    by (auto simp: download_waiting_def t2_def NewTask_def set_state_def offline_task_for_def
        upload_path_ok_def uploadable_def same_place_def)
  then have "download_run later ?n ?u d1 = (packet_results ?n 0 ?n, content)"
    using download_run_waiting [of content t2 d1 later] pos seg u by simp
  then show ?thesis
    using run ended load codes by (simp add: t2_def NewTask_def set_state_def)
qed

definition empty_disk :: disk where
  "empty_disk = \<lparr>fs_cwd = [47], fs_files = (\<lambda>_. None), fs_denied = (\<lambda>_. False)\<rparr>"

lemma upload_download_witness:
  "\<exists>t1 d1 t2.
    upload_run 5 [1, 2, 3] (segments [1, 2, 3])
      (snd (ChangePullState 5 7 CLIENT_OFFLINE_UPLOAD (offline_task 5 [97, 98] 7 8 [] [1, 2, 3]))) empty_disk =
        Some (replicate (segments [1::u8, 2, 3] - 1) 0 @ [1], t1, d1)
    \<and> t_state t1 = kTransferTaskStateUploadEnd
    \<and> LoadFromDisk 6 [97, 98] d1 = Some t2 \<and> from_user_id t2 = 7 \<and> to_user_id t2 = 8
    \<and> download_run 6 (segments [1::u8, 2, 3]) (snd (ChangePullState 6 8 CLIENT_OFFLINE_DOWNLOAD t2)) d1 =
        (replicate (segments [1::u8, 2, 3] - 1) 0 @ [1], [1, 2, 3])"
  by (rule upload_download) (simp add: uploadable_def empty_disk_def)

text \<open>
  An upload that stops before its last segment leaves nothing to download: the file on the disk is
  shorter than its header says, and \<open>LoadFromDisk\<close> refuses it.
\<close>

lemma interrupted_upload_not_offered:
  assumes "uploadable tid content d" and "k < segments content"
    and "upload_run now content k
      (snd (ChangePullState now s CLIENT_OFFLINE_UPLOAD (offline_task now tid s r name content))) d =
        Some (rvs, t1, d1)"
  shows "rvs = replicate k 0 \<and> LoadFromDisk later tid d1 = None"
proof (cases "k = 0")
  case True
  then have "d1 = d" "rvs = []" using assms(3) by simp_all
  then show ?thesis using assms(1) True by (simp add: LoadFromDisk_def OpenByRead_def uploadable_def)
next
  case False
  let ?t = "snd (ChangePullState now s CLIENT_OFFLINE_UPLOAD (offline_task now tid s r name content))"
  let ?h = "upload_header now tid s r (of_nat (length content))"
  note up = login_upload_waiting [OF assms(1), where now = now and s = s and r = r and name = name]
  have len: "unat (of_nat (length content) :: u32) = length content"
    using assms by (intro unat_of_nat_32) (simp add: uploadable_def)
  obtain t' d' where run: "upload_run now content k ?t d = Some (packet_results (segments content) 0 k, t', d')"
    and reach: "upload_reaches ?h content ?t d k t' d'"
    using upload_run_waiting [OF up(1), of k now] up(2,3) False assms(2) by auto
  have place: "same_place d d1" "save_path d1 tid = save_path d tid"
    using reach run assms(3) same_place_save_path [of d d1] by (simp_all add: upload_reaches_def)
  have onfile: "fs_files d1 (save_path d1 tid) = Some (?h @ take (k * 32768) content)"
    using reach run assms(3) place up(4) by (simp add: upload_reaches_def)
  have "k * 32768 < length content"
    using less_ceil_div_iff [of 32768 k "length content"] assms(2) by (simp add: segments_def)
  then have "LoadFromDisk later tid d1 = None"
    using LoadFromDisk_header [OF _ _ _ onfile] assms(1) place len
    by (simp add: uploadable_def same_place_def)
  moreover have "rvs = replicate k 0"
    using run assms(2,3) by (auto simp: packet_results_def map_replicate_const intro: nth_equalityI)
  ultimately show ?thesis by simp
qed

lemma interrupted_upload_not_offered_witness:
  "LoadFromDisk 6 [97, 98] empty_disk = None"
  using interrupted_upload_not_offered [where k = 0 and content = "[1, 2, 3]" and d = empty_disk
      and tid = "[97, 98]" and now = 5 and s = 7 and r = 8 and name = "[]" and later = 6]
    segments_pos [of "[1, 2, 3]"]
  by (simp add: uploadable_def empty_disk_def)

subsection \<open>An online task relays only between two logged in users\<close>

text \<open>
  The calls a connection makes on an online task: a login, a data packet, a request, and the state
  that \<open>FileClientConn::Close\<close> sets.
\<close>

datatype task_call = CallLogin u64 u32 u32 | CallRecv u64 u32 | CallPull u64 | CallClose

fun task_step :: "task_call \<Rightarrow> transfer_task \<Rightarrow> transfer_task" where
  "task_step (CallLogin now user role) t = snd (ChangePullState now user role t)"
| "task_step (CallRecv now user) t = snd (Online_DoRecvData now user t)"
| "task_step (CallPull now) t = snd (Online_DoPullFileRequest now t)"
| "task_step CallClose t = set_state kTransferTaskStateInvalid t"

definition logged_in :: "u32 \<Rightarrow> u32 \<Rightarrow> task_call list \<Rightarrow> bool" where
  "logged_in user role cs \<longleftrightarrow> (\<exists>now. CallLogin now user role \<in> set cs)"

text \<open>What the state of an online task says about the calls made so far.\<close>

definition online_history :: "task_call list \<Rightarrow> transfer_task \<Rightarrow> bool" where
  "online_history cs t \<longleftrightarrow> t_class t = OnlineTransferTask
     \<and> (t_state t \<in> {kTransferTaskStateWaitingReceiver, kTransferTaskStateWaitingTransfer, kTransferTaskStateTransfering}
          \<longrightarrow> logged_in (from_user_id t) CLIENT_REALTIME_SENDER cs)
     \<and> (t_state t \<in> {kTransferTaskStateWaitingSender, kTransferTaskStateWaitingTransfer, kTransferTaskStateTransfering}
          \<longrightarrow> logged_in (to_user_id t) CLIENT_REALTIME_RECVER cs)"

lemma logged_in_more: "logged_in u r cs \<Longrightarrow> logged_in u r (cs @ [c])"
  by (auto simp: logged_in_def)

lemma logged_in_now: "logged_in u r (cs @ [CallLogin now u r])"
  by (auto simp: logged_in_def)

lemma Online_ChangePullState_state:
  "snd (Online_ChangePullState now u r t) =
    (if \<not> Online_CheckByUserIDAndFileRole u r t then t else
     case t_state t of
       kTransferTaskStateReady \<Rightarrow> t\<lparr>t_state := if r = CLIENT_REALTIME_SENDER
         then kTransferTaskStateWaitingReceiver else kTransferTaskStateWaitingSender, create_time := now\<rparr>
     | kTransferTaskStateWaitingReceiver \<Rightarrow> if r = CLIENT_REALTIME_RECVER
         then t\<lparr>t_state := kTransferTaskStateWaitingTransfer, create_time := now\<rparr> else t
     | kTransferTaskStateWaitingSender \<Rightarrow> if r = CLIENT_REALTIME_SENDER
         then t\<lparr>t_state := kTransferTaskStateWaitingTransfer, create_time := now\<rparr> else t
     | _ \<Rightarrow> t)"
  by (cases "t_state t") (simp_all add: Online_ChangePullState_def Let_def SetLastUpdateTime_def set_state_def)

lemma online_check_roles:
  "Online_CheckByUserIDAndFileRole u r t \<longleftrightarrow>
     r = CLIENT_REALTIME_SENDER \<and> from_user_id t = u \<or> r = CLIENT_REALTIME_RECVER \<and> to_user_id t = u"
  by (simp add: Online_CheckByUserIDAndFileRole_def CheckFromUserID_def CheckToUserID_def const_defs)

lemma online_history_login:
  assumes "online_history cs t"
  shows "online_history (cs @ [CallLogin now u r]) (snd (Online_ChangePullState now u r t))"
proof (cases "Online_CheckByUserIDAndFileRole u r t")
  case True
  then consider (s) "r = CLIENT_REALTIME_SENDER" "u = from_user_id t"
    | (r) "r = CLIENT_REALTIME_RECVER" "u = to_user_id t" by (auto simp: online_check_roles)
  then show ?thesis
  proof cases
    case s
    moreover have "CLIENT_REALTIME_SENDER \<noteq> CLIENT_REALTIME_RECVER" by (simp add: const_defs)
    ultimately show ?thesis using assms True
      by (cases "t_state t") (simp_all add: Online_ChangePullState_state online_history_def logged_in_more logged_in_now)
  next
    case r
    moreover have "CLIENT_REALTIME_SENDER \<noteq> CLIENT_REALTIME_RECVER" by (simp add: const_defs)
    ultimately show ?thesis using assms True
      by (cases "t_state t") (simp_all add: Online_ChangePullState_state online_history_def logged_in_more logged_in_now)
  qed
qed (use assms in \<open>simp add: Online_ChangePullState_state online_history_def logged_in_more\<close>)

lemma online_history_step:
  assumes "online_history cs t"
  shows "online_history (cs @ [c]) (task_step c t)"
proof (cases c)
  case (CallLogin now u r)
  then show ?thesis
    using online_history_login [OF assms] assms
    by (simp add: ChangePullState_def online_history_def)
next
  case (CallRecv now u)
  then show ?thesis
    using assms by (auto simp: online_history_def Online_DoRecvData_def may_transfer_def start_transfer_def
        SetLastUpdateTime_def set_state_def intro: logged_in_more)
next
  case (CallPull now)
  then show ?thesis
    using assms by (auto simp: online_history_def Online_DoPullFileRequest_def may_transfer_def
        start_transfer_def SetLastUpdateTime_def set_state_def intro: logged_in_more)
next
  case CallClose
  then show ?thesis
    using assms by (auto simp: online_history_def set_state_def intro: logged_in_more)
qed

lemma online_history_run:
  "online_history cs t \<Longrightarrow> online_history (cs @ ds) (fold task_step ds t)"
proof (induction ds arbitrary: cs t)
  case (Cons c ds)
  then show ?case using Cons.IH [OF online_history_step [OF Cons.prems, of c]] by simp
qed simp

lemma ChangePullState_users [simp]:
  "from_user_id (snd (ChangePullState now u r t)) = from_user_id t"
  "to_user_id (snd (ChangePullState now u r t)) = to_user_id t"
  by (simp_all add: ChangePullState_def Online_ChangePullState_def Offline_ChangePullState_def Let_def
      SetLastUpdateTime_def set_state_def split: task_class.split)

lemma task_step_users: "from_user_id (task_step c t) = from_user_id t \<and> to_user_id (task_step c t) = to_user_id t"
  by (cases c) (simp_all add: SetLastUpdateTime_def set_state_def Online_DoRecvData_def
      Online_DoPullFileRequest_def start_transfer_def)

lemma task_run_users: "from_user_id (fold task_step cs t) = from_user_id t \<and> to_user_id (fold task_step cs t) = to_user_id t"
  by (induction cs arbitrary: t) (simp_all add: task_step_users)

text \<open>
  C40: whatever calls the connections make, an online task lets data through only after its sender
  logged in as sender and its receiver as receiver, and only data of the sender.
\<close>

theorem online_relay_needs_both:
  assumes "t = fold task_step cs (NewTask OnlineTransferTask now tid s r name fsize)"
    and "fst (Online_DoRecvData later user t) = 0"
  shows "user = s \<and> logged_in s CLIENT_REALTIME_SENDER cs \<and> logged_in r CLIENT_REALTIME_RECVER cs"
proof -
  let ?t = "NewTask OnlineTransferTask now tid s r name fsize"
  have "online_history [] ?t" by (simp add: online_history_def NewTask_def)
  then have "online_history cs t" using online_history_run [of "[]" ?t cs] assms(1) by simp
  moreover have "from_user_id t = s" "to_user_id t = r"
    using task_run_users [of cs ?t] assms(1) by (simp_all add: NewTask_def)
  moreover have "may_transfer t" "from_user_id t = user"
    using assms(2) by (simp_all add: Online_DoRecvData_def CheckFromUserID_def split: if_splits)
  ultimately show ?thesis by (auto simp: online_history_def may_transfer_def)
qed

definition both_login :: "task_call list" where
  "both_login = [CallLogin 1 7 CLIENT_REALTIME_SENDER, CallLogin 2 8 CLIENT_REALTIME_RECVER]"

lemma online_relay_needs_both_witness:
  "logged_in 7 CLIENT_REALTIME_SENDER both_login \<and> logged_in 8 CLIENT_REALTIME_RECVER both_login"
  using online_relay_needs_both [OF refl, where cs = both_login and s = 7 and r = 8 and user = 7 and now = 0
      and tid = "[]" and name = "[]" and fsize = 1 and later = 3]
  by (simp add: both_login_def NewTask_def ChangePullState_def Online_ChangePullState_def Let_def
      Online_CheckByUserIDAndFileRole_def CheckFromUserID_def CheckToUserID_def SetLastUpdateTime_def
      set_state_def Online_DoRecvData_def may_transfer_def const_defs)

end
