(* ===== verification/File_Server.thy ===== *)
theory File_Server
  imports Transfer_Task Im_Conn "HOL-Library.Monad_Syntax"
begin

text \<open>
  The connections of the file server: \<open>file_client_conn.cpp\<close>, \<open>file_msg_server_conn.cpp\<close> and
  \<open>transfer_task_manager.cpp\<close>. Tasks live in a heap (\<open>None\<close>: deleted); a connection that was closed
  is deleted when the callback that closed it returns (\<open>imconn_callback\<close> holds a reference). A
  handler returns \<open>None\<close> when it reads a deleted task or connection, closes a connection twice (the
  second \<open>ReleaseRef\<close> deletes it under the running callback), or reads past received data. The
  protobuf parsers are generated code: a handler receives the parsed message, and \<open>None\<close> when the
  body does not parse (\<open>CHECK_PB_PARSE_MSG\<close> returns).
\<close>

type_synonym tptr = nat

subsection \<open>Messages\<close>

record file_login_req =
  fl_user_id :: u32
  fl_task_id :: bytes
  fl_file_role :: u32

record file_state_msg =
  fs_state :: u32
  fs_task_id :: bytes
  fs_user_id :: u32

record pull_data_req =
  pq_task_id :: bytes
  pq_user_id :: u32
  pq_trans_mode :: u32
  pq_offset :: u32
  pq_data_size :: u32

record pull_data_rsp =
  pr_result_code :: u32
  pr_task_id :: bytes
  pr_user_id :: u32
  pr_offset :: u32
  pr_file_data :: bytes

record file_transfer_req =
  tr_from_user_id :: u32
  tr_to_user_id :: u32
  tr_file_name :: bytes
  tr_file_size :: u32
  tr_trans_mode :: u32
  tr_attach_data :: bytes

record file_transfer_rsp =
  ts_result_code :: u32
  ts_req :: file_transfer_req
  ts_task_id :: bytes

text \<open>What is sent to a client, with the sequence number of the PDU where the code sets it.\<close>

datatype file_out =
    FHeartBeat
  | FLoginRes u16 u32 bytes
  | FState file_state_msg
  | FPullReq u16 pull_data_req
  | FPullRsp u16 pull_data_rsp

subsection \<open>State\<close>

record file_conn =
  fc_handle :: handle
  fc_auth :: bool
  fc_user_id :: u32
  fc_task :: "tptr option"
  fc_last_recv_tick :: u64
  fc_out :: "file_out list"

text \<open>A connection of a message server, with the answers sent to it.\<close>

datatype file_msg_out =
    FMHeartBeat
  | FMTransferRsp u16 file_transfer_rsp
  | FMAddresses u16 "(bytes \<times> u32) list"

record file_msg_conn =
  fm_handle :: handle
  fm_connected :: bool
  fm_last_recv_tick :: u64
  fm_out :: "file_msg_out list"

record file_state =
  fconns :: "conn \<Rightarrow> file_conn"
  fclosed :: "conn set"
  fdead :: "conn set"
  g_file_client_conn_map :: conn_map
  tasks :: "tptr \<Rightarrow> transfer_task option"
  next_task :: tptr
  transfer_tasks :: "(bytes \<times> tptr) list"
  fdisk :: disk
  fmconns :: "conn \<Rightarrow> file_msg_conn"
  g_file_msg_server_conn_map :: conn_map

definition FileClientConn :: "u64 \<Rightarrow> file_conn" where
  "FileClientConn tick = \<lparr>fc_handle = NETLIB_INVALID_HANDLE, fc_auth = False, fc_user_id = 0,
     fc_task = None, fc_last_recv_tick = tick, fc_out = []\<rparr>"

definition upd_fconn :: "conn \<Rightarrow> (file_conn \<Rightarrow> file_conn) \<Rightarrow> file_state \<Rightarrow> file_state" where
  "upd_fconn c f st = st\<lparr>fconns := (fconns st)(c := f (fconns st c))\<rparr>"

definition set_task :: "tptr \<Rightarrow> transfer_task \<Rightarrow> file_state \<Rightarrow> file_state" where
  "set_task p t st = st\<lparr>tasks := (tasks st)(p \<mapsto> t)\<rparr>"

text \<open>\<open>SendPdu\<close> on a connection: its members are read.\<close>

definition fsend :: "file_out \<Rightarrow> conn \<Rightarrow> file_state \<Rightarrow> file_state option" where
  "fsend m c st = (if c \<in> fdead st then None
     else Some (upd_fconn c (\<lambda>x. x\<lparr>fc_out := fc_out x @ [m]\<rparr>) st))"

definition fsend_opt :: "file_out \<Rightarrow> conn option \<Rightarrow> file_state \<Rightarrow> file_state option" where
  "fsend_opt m c st = (case c of None \<Rightarrow> Some st | Some c \<Rightarrow> fsend m c st)"

subsection \<open>TransferTaskManager\<close>

definition FindByTaskID :: "bytes \<Rightarrow> file_state \<Rightarrow> tptr option" where
  "FindByTaskID tid st = map_of (transfer_tasks st) tid"

definition add_task :: "bytes \<Rightarrow> transfer_task \<Rightarrow> file_state \<Rightarrow> tptr \<times> file_state" where
  "add_task tid t st = (next_task st, st\<lparr>tasks := (tasks st)(next_task st \<mapsto> t),
     next_task := next_task st + 1, transfer_tasks := cm_insert tid (next_task st) (transfer_tasks st)\<rparr>)"

definition NewTransferTask ::
  "u64 \<Rightarrow> u32 \<Rightarrow> bytes \<Rightarrow> u32 \<Rightarrow> u32 \<Rightarrow> bytes \<Rightarrow> u32 \<Rightarrow> file_state \<Rightarrow> tptr option \<times> file_state" where
  "NewTransferTask now trans_mode tid from_user to_user name fsize st =
     (if FindByTaskID tid st = None then
       (if trans_mode = FILE_TYPE_ONLINE then
          (let (p, st) = add_task tid (NewTask OnlineTransferTask now tid from_user to_user name fsize) st
           in (Some p, st))
        else if trans_mode = FILE_TYPE_OFFLINE then
          (let (p, st) = add_task tid (NewTask OfflineTransferTask now tid from_user to_user name fsize) st
           in (Some p, st))
        else (None, st))
      else (None, st))"

definition NewTransferTaskFromDisk :: "u64 \<Rightarrow> bytes \<Rightarrow> file_state \<Rightarrow> tptr option \<times> file_state" where
  "NewTransferTaskFromDisk now tid st =
     (case LoadFromDisk now tid (fdisk st) of None \<Rightarrow> (None, st)
      | Some t \<Rightarrow> (let (p, st) = add_task tid t st in (Some p, st)))"

definition delete_task :: "bytes \<Rightarrow> tptr \<Rightarrow> file_state \<Rightarrow> file_state" where
  "delete_task tid p st = st\<lparr>tasks := (tasks st)(p := None),
     transfer_tasks := cm_erase tid (transfer_tasks st)\<rparr>"

definition DeleteTransferTaskByConnClose :: "bytes \<Rightarrow> file_state \<Rightarrow> (bool \<times> file_state) option" where
  "DeleteTransferTaskByConnClose tid st =
     (case FindByTaskID tid st of None \<Rightarrow> Some (False, st)
      | Some p \<Rightarrow> do {
          t \<leftarrow> tasks st p;
          if GetTransMode t = FILE_TYPE_ONLINE then
            (if from_conn t = None \<and> to_conn t = None then Some (True, delete_task tid p st)
             else Some (False, st))
          else if t_state t \<noteq> kTransferTaskStateWaitingUpload then Some (True, delete_task tid p st)
          else Some (False, st)})"

text \<open>Returns false also when the task was deleted.\<close>

definition DeleteTransferTask :: "bytes \<Rightarrow> file_state \<Rightarrow> bool \<times> file_state" where
  "DeleteTransferTask tid st =
     (case FindByTaskID tid st of None \<Rightarrow> (False, st) | Some p \<Rightarrow> (False, delete_task tid p st))"

definition ClearTransferTask :: "conn option \<Rightarrow> file_state \<Rightarrow> file_state option" where
  "ClearTransferTask c st = (case c of None \<Rightarrow> Some st
     | Some c \<Rightarrow> if c \<in> fdead st then None
         else Some (upd_fconn c (\<lambda>x. x\<lparr>fc_user_id := 0, fc_task := None\<rparr>) st))"

definition task_timeout :: u64 where "task_timeout = 3600"

text \<open>
  One entry of the loop of \<open>TransferTaskManager::OnTimer\<close>: \<open>now\<close> and the time of the task are
  compared as \<open>long\<close>.
\<close>

definition task_timer_entry :: "u64 \<Rightarrow> bytes \<times> tptr \<Rightarrow> file_state \<Rightarrow> file_state option" where
  "task_timer_entry now = (\<lambda>(tid, p) st. do {
     t \<leftarrow> tasks st p;
     if t_state t \<noteq> kTransferTaskStateWaitingUpload \<and> t_state t = kTransferTaskStateTransferDone
       \<and> sint task_timeout < sint (now - create_time t)
     then do {
       st \<leftarrow> ClearTransferTask (from_conn t) st;
       st \<leftarrow> ClearTransferTask (to_conn t) st;
       Some (delete_task tid p st)}
     else Some st})"

definition TaskManagerOnTimer :: "u64 \<Rightarrow> file_state \<Rightarrow> file_state option" where
  "TaskManagerOnTimer now st =
     fold (\<lambda>e st. Option.bind st (task_timer_entry now e)) (transfer_tasks st) (Some st)"

subsection \<open>FileClientConn\<close>

text \<open>The part of \<open>Close\<close> that lets go of the task.\<close>

definition close_task_state :: "transfer_task \<Rightarrow> transfer_task" where
  "close_task_state t =
     (if GetTransMode t = FILE_TYPE_ONLINE then set_state kTransferTaskStateInvalid t
      else if kTransferTaskStateUploadEnd \<le> t_state t then set_state kTransferTaskStateWaitingDownload t
      else t)"

definition leave_task :: "conn \<Rightarrow> file_state \<Rightarrow> file_state option" where
  "leave_task this st = (case fc_task (fconns st this) of None \<Rightarrow> Some st
     | Some p \<Rightarrow> do {
         t \<leftarrow> tasks st p;
         let t = SetConnByUserID (fc_user_id (fconns st this)) None (close_task_state t);
         (rv, st) \<leftarrow> DeleteTransferTaskByConnClose (task_id t) (set_task p t st);
         Some (upd_fconn this (\<lambda>x. x\<lparr>fc_task := None\<rparr>) st)})"

definition FileClose :: "conn \<Rightarrow> file_state \<Rightarrow> file_state option" where
  "FileClose this st =
     (if this \<in> fclosed st then None else do {
        st \<leftarrow> leave_task this st;
        let st = upd_fconn this (\<lambda>x. x\<lparr>fc_auth := False\<rparr>) st;
        let h = fc_handle (fconns st this);
        let st = (if h \<noteq> NETLIB_INVALID_HANDLE
          then st\<lparr>g_file_client_conn_map := cm_erase h (g_file_client_conn_map st)\<rparr> else st);
        Some (st\<lparr>fclosed := insert this (fclosed st)\<rparr>)})"

definition FileOnConnect :: "u64 \<Rightarrow> conn \<Rightarrow> handle \<Rightarrow> file_state \<Rightarrow> file_state" where
  "FileOnConnect tick this h st = st\<lparr>fconns := (fconns st)(this := (FileClientConn tick)\<lparr>fc_handle := h\<rparr>),
     g_file_client_conn_map := cm_insert h this (g_file_client_conn_map st)\<rparr>"

definition FileOnTimer :: "u64 \<Rightarrow> conn \<Rightarrow> file_state \<Rightarrow> file_state option" where
  "FileOnTimer curr_tick this st = do {
     peer_left \<leftarrow> (case fc_task (fconns st this) of None \<Rightarrow> Some False
       | Some p \<Rightarrow> do {
           t \<leftarrow> tasks st p;
           Some (GetTransMode t = FILE_TYPE_ONLINE \<and> t_state t = kTransferTaskStateInvalid)});
     if peer_left then FileClose this st
     else if curr_tick > fc_last_recv_tick (fconns st this) + CLIENT_TIMEOUT then FileClose this st
     else Some st}"

definition StatesNotify :: "u32 \<Rightarrow> bytes \<Rightarrow> u32 \<Rightarrow> conn \<Rightarrow> file_state \<Rightarrow> file_state option" where
  "StatesNotify s tid user_id c st = fsend (FState \<lparr>fs_state = s, fs_task_id = tid, fs_user_id = user_id\<rparr>) c st"

text \<open>\<open>_HandleClientFileloginReq\<close>: find or load the task, log in to it, then tell the client.\<close>

definition find_or_load :: "u64 \<Rightarrow> file_login_req \<Rightarrow> file_state \<Rightarrow> tptr option \<times> file_state" where
  "find_or_load now m st =
     (case FindByTaskID (fl_task_id m) st of Some p \<Rightarrow> (Some p, st)
      | None \<Rightarrow> if fl_file_role m = CLIENT_OFFLINE_DOWNLOAD
          then NewTransferTaskFromDisk now (fl_task_id m) st else (None, st))"

definition enter_task :: "u64 \<Rightarrow> file_login_req \<Rightarrow> conn \<Rightarrow> tptr \<Rightarrow> file_state \<Rightarrow> (bool \<times> file_state) option" where
  "enter_task now m this p st = do {
     t \<leftarrow> tasks st p;
     let (rv, t) = ChangePullState now (fl_user_id m) (fl_file_role m) t;
     if \<not> rv then Some (False, set_task p t st)
     else Some (True, set_task p (SetConnByUserID (fl_user_id m) (Some this) t)
       (upd_fconn this (\<lambda>x. x\<lparr>fc_auth := True, fc_task := Some p, fc_user_id := fl_user_id m\<rparr>) st))}"

definition login_notify :: "conn \<Rightarrow> file_login_req \<Rightarrow> tptr \<Rightarrow> file_state \<Rightarrow> file_state option" where
  "login_notify this m p st = do {
     t \<leftarrow> tasks st p;
     if GetTransMode t = FILE_TYPE_ONLINE then
       (if t_state t = kTransferTaskStateWaitingTransfer then
          (case to_conn t of Some c \<Rightarrow> StatesNotify CLIENT_FILE_PEER_READY (fl_task_id m) (from_user_id t) c st
           | None \<Rightarrow> FileClose this st)
        else Some st)
     else if t_state t = kTransferTaskStateWaitingUpload then
       fsend (FPullReq 0 \<lparr>pq_task_id = fl_task_id m, pq_user_id = fl_user_id m,
         pq_trans_mode = FILE_TYPE_OFFLINE, pq_offset = 0, pq_data_size = GetNextSegmentBlockSize t\<rparr>) this st
     else Some st}"

definition HandleClientFileloginReq ::
  "u64 \<Rightarrow> conn \<Rightarrow> u16 \<Rightarrow> file_login_req \<Rightarrow> file_state \<Rightarrow> file_state option" where
  "HandleClientFileloginReq now this seq m st =
     (let (found, st) = find_or_load now m st in do {
        (rv, st) \<leftarrow> (case found of None \<Rightarrow> Some (False, st) | Some p \<Rightarrow> enter_task now m this p st);
        st \<leftarrow> fsend (FLoginRes seq (if rv then 0 else 1) (fl_task_id m)) this st;
        (case found of Some p \<Rightarrow> if rv then login_notify this m p st else FileClose this st
         | None \<Rightarrow> FileClose this st)})"

definition HandleClientFileStates :: "conn \<Rightarrow> file_state_msg \<Rightarrow> file_state \<Rightarrow> file_state option" where
  "HandleClientFileStates this m st =
     (if \<not> fc_auth (fconns st this) then Some st else
      case fc_task (fconns st this) of None \<Rightarrow> Some st
      | Some p \<Rightarrow> do {
          t \<leftarrow> tasks st p;
          st \<leftarrow> (if fs_user_id m \<noteq> fc_user_id (fconns st this) then Some st
                else if task_id t \<noteq> fs_task_id m then Some st
                else if fs_state m \<in> {CLIENT_FILE_CANCEL, CLIENT_FILE_DONE, CLIENT_FILE_REFUSE}
                then fsend_opt (FState m) (GetOpponentConn (fs_user_id m) t) st
                else Some st);
          FileClose this st})"

text \<open>
  \<open>_HandleClientFilePullFileReq\<close>: the checks, then the task's answer; the result code decides
  whether the connection is closed.
\<close>

definition pull_request :: "u64 \<Rightarrow> conn \<Rightarrow> u16 \<Rightarrow> pull_data_req \<Rightarrow> tptr \<Rightarrow> file_state \<Rightarrow> (int \<times> file_state) option" where
  "pull_request now this seq m p st = do {
     t \<leftarrow> tasks st p;
     let (rv, data, t) = DoPullFileRequest now (pq_offset m) t (fdisk st);
     if rv = -1 then Some (-1, set_task p t st)
     else if GetTransMode t = FILE_TYPE_ONLINE then do {
       let t = t\<lparr>mac_seq_num := ucast seq\<rparr>;
       st \<leftarrow> fsend_opt (FPullReq seq m) (GetOpponentConn (pq_user_id m) t) (set_task p t st);
       Some (rv, st)}
     else do {
       st \<leftarrow> fsend (FPullRsp seq \<lparr>pr_result_code = 0, pr_task_id = pq_task_id m, pr_user_id = pq_user_id m,
         pr_offset = pq_offset m, pr_file_data = data\<rparr>) this (set_task p t st);
       st \<leftarrow> (if rv = 1 then StatesNotify CLIENT_FILE_DONE (pq_task_id m) (from_user_id t) this st else Some st);
       Some (rv, st)}}"

definition HandleClientFilePullFileReq ::
  "u64 \<Rightarrow> conn \<Rightarrow> u16 \<Rightarrow> pull_data_req \<Rightarrow> file_state \<Rightarrow> file_state option" where
  "HandleClientFilePullFileReq now this seq m st =
     (if \<not> fc_auth (fconns st this) then Some st else
      case fc_task (fconns st this) of None \<Rightarrow> Some st
      | Some p \<Rightarrow> do {
          t \<leftarrow> tasks st p;
          (rv, st) \<leftarrow> (if pq_user_id m \<noteq> fc_user_id (fconns st this) then Some (-1, st)
                else if task_id t \<noteq> pq_task_id m then Some (-1, st)
                else if \<not> CheckToUserID (pq_user_id m) t then Some (-1, st)
                else pull_request now this seq m p st);
          if rv \<noteq> 0 then FileClose this st else Some st})"

definition data_response :: "u64 \<Rightarrow> conn \<Rightarrow> u16 \<Rightarrow> pull_data_rsp \<Rightarrow> tptr \<Rightarrow> file_state \<Rightarrow> (int \<times> file_state) option" where
  "data_response now this seq m p st = do {
     t \<leftarrow> tasks st p;
     (rv, t, d) \<leftarrow> DoRecvData now (pr_user_id m) (pr_offset m) (pr_file_data m) t (fdisk st);
     let st = (set_task p t st)\<lparr>fdisk := d\<rparr>;
     if rv = -1 then Some (-1, st)
     else if GetTransMode t = FILE_TYPE_ONLINE then do {
       st \<leftarrow> fsend_opt (FPullRsp (ucast (mac_seq_num t)) m) (to_conn t) st;
       Some (rv, st)}
     else if rv = 1 then do {
       st \<leftarrow> StatesNotify CLIENT_FILE_DONE (pr_task_id m) (pr_user_id m) this st;
       Some (rv, st)}
     else do {
       st \<leftarrow> fsend (FPullReq 0 \<lparr>pq_task_id = pr_task_id m, pq_user_id = pr_user_id m,
         pq_trans_mode = GetTransMode t, pq_offset = GetNextOffset t,
         pq_data_size = GetNextSegmentBlockSize t\<rparr>) this st;
       Some (rv, st)}}"

definition HandleClientFilePullFileRsp ::
  "u64 \<Rightarrow> conn \<Rightarrow> u16 \<Rightarrow> pull_data_rsp \<Rightarrow> file_state \<Rightarrow> file_state option" where
  "HandleClientFilePullFileRsp now this seq m st =
     (if \<not> fc_auth (fconns st this) then Some st else
      case fc_task (fconns st this) of None \<Rightarrow> Some st
      | Some p \<Rightarrow> do {
          t \<leftarrow> tasks st p;
          (rv, st) \<leftarrow> (if pr_user_id m \<noteq> fc_user_id (fconns st this) then Some (-1, st)
                else if task_id t \<noteq> pr_task_id m then Some (-1, st)
                else data_response now this seq m p st);
          if rv \<noteq> 0 then FileClose this st else Some st})"

text \<open>The parsers of the messages a client sends.\<close>

record file_pb =
  pb_login :: "bytes \<Rightarrow> file_login_req option"
  pb_state :: "bytes \<Rightarrow> file_state_msg option"
  pb_pull_req :: "bytes \<Rightarrow> pull_data_req option"
  pb_pull_rsp :: "bytes \<Rightarrow> pull_data_rsp option"

definition on_parsed :: "'m option \<Rightarrow> ('m \<Rightarrow> 's \<Rightarrow> 's option) \<Rightarrow> 's \<Rightarrow> 's option" where
  "on_parsed r f st = (case r of None \<Rightarrow> Some st | Some m \<Rightarrow> f m st)"

definition FileHandlePdu :: "file_pb \<Rightarrow> u64 \<Rightarrow> conn \<Rightarrow> in_pdu \<Rightarrow> file_state \<Rightarrow> file_state option" where
  "FileHandlePdu pb now this p st =
     (let cid = in_cid p; seq = in_seq p; body = in_body p in
      if cid = CID_OTHER_HEARTBEAT then fsend FHeartBeat this st
      else if cid = CID_FILE_LOGIN_REQ
        then on_parsed (pb_login pb body) (HandleClientFileloginReq now this seq) st
      else if cid = CID_FILE_STATE
        then on_parsed (pb_state pb body) (HandleClientFileStates this) st
      else if cid = CID_FILE_PULL_DATA_REQ
        then on_parsed (pb_pull_req pb body) (HandleClientFilePullFileReq now this seq) st
      else if cid = CID_FILE_PULL_DATA_RSP
        then on_parsed (pb_pull_rsp pb body) (HandleClientFilePullFileRsp now this seq) st
      else Some st)"

text \<open>A connection that was closed is deleted when the callback ends.\<close>

definition reap :: "file_state \<Rightarrow> file_state" where
  "reap st = st\<lparr>fdead := fdead st \<union> fclosed st\<rparr>"

text \<open>The read callback: the PDUs that \<open>CImConn::OnRead\<close> frames are handled one after the other.\<close>

fun handle_pdus :: "file_pb \<Rightarrow> u64 \<Rightarrow> conn \<Rightarrow> in_pdu list \<Rightarrow> file_state \<Rightarrow> file_state option" where
  "handle_pdus pb now this [] st = Some st"
| "handle_pdus pb now this (p # ps) st =
     do { st \<leftarrow> FileHandlePdu pb now this p st; handle_pdus pb now this ps st }"

definition FileRead :: "file_pb \<Rightarrow> u64 \<Rightarrow> conn \<Rightarrow> in_pdu list \<Rightarrow> file_state \<Rightarrow> file_state option" where
  "FileRead pb now this ps st = map_option reap
     (handle_pdus pb now this ps (upd_fconn this (\<lambda>x. x\<lparr>fc_last_recv_tick := now\<rparr>) st))"

definition FileOnClose :: "conn \<Rightarrow> file_state \<Rightarrow> file_state option" where
  "FileOnClose this st = map_option reap (FileClose this st)"

definition FileClientConnTimerCallback :: "u64 \<Rightarrow> file_state \<Rightarrow> file_state option" where
  "FileClientConnTimerCallback cur_time st =
     fold (\<lambda>(h, c) st. Option.bind st (\<lambda>st. map_option reap (FileOnTimer cur_time c st)))
       (g_file_client_conn_map st) (Some st)"

subsection \<open>FileMsgServerConn\<close>

definition upd_fmconn :: "conn \<Rightarrow> (file_msg_conn \<Rightarrow> file_msg_conn) \<Rightarrow> file_state \<Rightarrow> file_state" where
  "upd_fmconn c f st = st\<lparr>fmconns := (fmconns st)(c := f (fmconns st c))\<rparr>"

definition FileMsgClose :: "conn \<Rightarrow> file_state \<Rightarrow> file_state" where
  "FileMsgClose this st =
     (let st = upd_fmconn this (\<lambda>x. x\<lparr>fm_connected := False\<rparr>) st; h = fm_handle (fmconns st this) in
      if h \<noteq> NETLIB_INVALID_HANDLE
      then st\<lparr>g_file_msg_server_conn_map := cm_erase h (g_file_msg_server_conn_map st)\<rparr> else st)"

definition FileMsgOnConnect :: "u64 \<Rightarrow> conn \<Rightarrow> handle \<Rightarrow> file_state \<Rightarrow> file_state" where
  "FileMsgOnConnect tick this h st =
     (upd_fmconn this (\<lambda>_. \<lparr>fm_handle = h, fm_connected = False, fm_last_recv_tick = tick, fm_out = []\<rparr>) st)
       \<lparr>g_file_msg_server_conn_map := cm_insert h this (g_file_msg_server_conn_map st)\<rparr>"

definition FileMsgOnTimer :: "u64 \<Rightarrow> conn \<Rightarrow> file_state \<Rightarrow> file_state" where
  "FileMsgOnTimer curr_tick this st =
     (if curr_tick > fm_last_recv_tick (fmconns st this) + SERVER_TIMEOUT then FileMsgClose this st else st)"

definition fm_send :: "file_msg_out \<Rightarrow> conn \<Rightarrow> file_state \<Rightarrow> file_state" where
  "fm_send m c st = upd_fmconn c (\<lambda>x. x\<lparr>fm_out := fm_out x @ [m]\<rparr>) st"

text \<open>
  \<open>_HandleMsgFileTransferReq\<close>; \<open>task_id\<close> is what \<open>GenerateUUID\<close> returns, empty when it fails. A request
  that makes no task closes the message server's connection.
\<close>

definition HandleMsgFileTransferReq ::
  "u64 \<Rightarrow> bytes \<Rightarrow> conn \<Rightarrow> u16 \<Rightarrow> file_transfer_req \<Rightarrow> file_state \<Rightarrow> file_state" where
  "HandleMsgFileTransferReq now tid this seq m st =
     (let (p, st) = (if tid = [] then (None, st)
        else NewTransferTask now (tr_trans_mode m) tid (tr_from_user_id m) (tr_to_user_id m)
          (tr_file_name m) (tr_file_size m) st);
        rsp = (if p = None then \<lparr>ts_result_code = 1, ts_req = m, ts_task_id = []\<rparr>
               else \<lparr>ts_result_code = 0, ts_req = m, ts_task_id = tid\<rparr>);
        st = fm_send (FMTransferRsp seq rsp) this st
      in if p = None then FileMsgClose this st else st)"

definition HandleGetServerAddressReq :: "(bytes \<times> u32) list \<Rightarrow> conn \<Rightarrow> u16 \<Rightarrow> file_state \<Rightarrow> file_state" where
  "HandleGetServerAddressReq addrs this seq st = fm_send (FMAddresses seq addrs) this st"

definition FileMsgHandlePdu ::
  "(bytes \<Rightarrow> file_transfer_req option) \<Rightarrow> (bytes \<times> u32) list \<Rightarrow> u64 \<Rightarrow> bytes \<Rightarrow> conn \<Rightarrow> in_pdu \<Rightarrow> file_state \<Rightarrow> file_state" where
  "FileMsgHandlePdu parse addrs now tid this p st =
     (if in_cid p = CID_OTHER_HEARTBEAT then fm_send FMHeartBeat this st
      else if in_cid p = CID_OTHER_FILE_TRANSFER_REQ then
        (case parse (in_body p) of None \<Rightarrow> st
         | Some m \<Rightarrow> HandleMsgFileTransferReq now tid this (in_seq p) m st)
      else if in_cid p = CID_OTHER_FILE_SERVER_IP_REQ then HandleGetServerAddressReq addrs this (in_seq p) st
      else st)"

end
