(* ===== verification/File_Safety.thy ===== *)
theory File_Safety
  imports File_Server
begin

text \<open>
  The file server reads no deleted task or connection: the invariant that ties the connections to
  their tasks, its preservation by every handler, the event loop, and the client behaviours that
  break it.
\<close>

subsection \<open>The invariant\<close>

definition freg :: "file_state \<Rightarrow> conn set" where
  "freg st = snd ` set (g_file_client_conn_map st)"

text \<open>What ties a task to its connections, and whether it is in the state the task timer looks for.\<close>

definition links :: "transfer_task \<Rightarrow> task_class \<times> bytes \<times> u32 \<times> u32 \<times> conn option \<times> conn option \<times> bool" where
  "links t = (t_class t, task_id t, from_user_id t, to_user_id t, from_conn t, to_conn t,
     t_state t = kTransferTaskStateTransferDone)"

definition member_of :: "file_state \<Rightarrow> conn \<Rightarrow> tptr \<Rightarrow> u32 \<Rightarrow> bool" where
  "member_of st c p u \<longleftrightarrow> c \<in> freg st \<and> fc_task (fconns st c) = Some p \<and> fc_user_id (fconns st c) = u"

definition task_inv :: "file_state \<Rightarrow> tptr \<Rightarrow> transfer_task \<Rightarrow> bool" where
  "task_inv st p t \<longleftrightarrow> from_user_id t \<noteq> to_user_id t \<and> t_state t \<noteq> kTransferTaskStateTransferDone
     \<and> (\<forall>c. from_conn t = Some c \<longrightarrow> member_of st c p (from_user_id t))
     \<and> (\<forall>c. to_conn t = Some c \<longrightarrow> member_of st c p (to_user_id t))
     \<and> (t_class t = OfflineTransferTask \<longrightarrow> from_conn t = None \<or> to_conn t = None)"

definition conn_inv :: "file_state \<Rightarrow> conn \<Rightarrow> bool" where
  "conn_inv st c \<longleftrightarrow> c \<notin> fdead st \<and> c \<notin> fclosed st
     \<and> (\<forall>p. fc_task (fconns st c) = Some p \<longrightarrow>
          (\<exists>t. tasks st p = Some t \<and> GetConnByUserID (fc_user_id (fconns st c)) t = Some c))"

definition map_inv :: "file_state \<Rightarrow> bool" where
  "map_inv st \<longleftrightarrow> cm_ok (g_file_client_conn_map st)
     \<and> (\<forall>(h, c) \<in> set (g_file_client_conn_map st). fc_handle (fconns st c) = h \<and> h \<noteq> NETLIB_INVALID_HANDLE)"

definition table_inv :: "file_state \<Rightarrow> bool" where
  "table_inv st \<longleftrightarrow> cm_ok (transfer_tasks st) \<and> (\<forall>p. next_task st \<le> p \<longrightarrow> tasks st p = None)
     \<and> (\<forall>tid p. map_of (transfer_tasks st) tid = Some p \<longleftrightarrow> map_option task_id (tasks st p) = Some tid)"

definition file_inv :: "file_state \<Rightarrow> bool" where
  "file_inv st \<longleftrightarrow> map_inv st \<and> table_inv st \<and> (\<forall>c \<in> freg st. conn_inv st c)
     \<and> (\<forall>p t. tasks st p = Some t \<longrightarrow> task_inv st p t)"

lemmas inv_defs = map_inv_def table_inv_def conn_inv_def task_inv_def member_of_def

lemma file_inv_task: "file_inv st \<Longrightarrow> tasks st p = Some t \<Longrightarrow> task_inv st p t"
  by (simp add: file_inv_def)

lemma file_inv_conn: "file_inv st \<Longrightarrow> c \<in> freg st \<Longrightarrow> conn_inv st c"
  by (simp add: file_inv_def)

lemma member_task:
  assumes "file_inv st" "c \<in> freg st" "fc_task (fconns st c) = Some p"
  obtains t where "tasks st p = Some t" "GetConnByUserID (fc_user_id (fconns st c)) t = Some c"
  using file_inv_conn [OF assms(1,2)] assms(3) by (auto simp: conn_inv_def)

lemma task_conn_alive:
  assumes "file_inv st" "tasks st p = Some t" "from_conn t = Some c \<or> to_conn t = Some c"
  shows "c \<in> freg st" "c \<notin> fdead st" "fc_task (fconns st c) = Some p"
proof -
  show reg: "c \<in> freg st" and "fc_task (fconns st c) = Some p"
    using file_inv_task [OF assms(1,2)] assms(3) by (auto simp: inv_defs)
  show "c \<notin> fdead st" using file_inv_conn [OF assms(1) reg] by (simp add: conn_inv_def)
qed

text \<open>Two connections never share a task slot, and a connection fills one slot of one task.\<close>

lemma slot_unique:
  assumes "file_inv st" "tasks st p = Some t" "tasks st q = Some t'"
    and "GetConnByUserID u t = Some c" "GetConnByUserID v t' = Some c"
  shows "p = q" "u = v"
  using file_inv_task [OF assms(1,2)] file_inv_task [OF assms(1,3)] assms(4,5)
  by (auto simp: inv_defs GetConnByUserID_def split: if_splits)

subsection \<open>Updates that leave the links alone\<close>

definition same_links :: "file_state \<Rightarrow> file_state \<Rightarrow> bool" where
  "same_links st st' \<longleftrightarrow> g_file_client_conn_map st' = g_file_client_conn_map st
     \<and> fclosed st' = fclosed st \<and> fdead st' = fdead st \<and> transfer_tasks st' = transfer_tasks st
     \<and> next_task st' = next_task st
     \<and> (\<forall>c. fc_handle (fconns st' c) = fc_handle (fconns st c) \<and> fc_task (fconns st' c) = fc_task (fconns st c)
          \<and> fc_user_id (fconns st' c) = fc_user_id (fconns st c))
     \<and> (\<forall>p. map_option links (tasks st' p) = map_option links (tasks st p))"

lemma same_links_refl [simp]: "same_links st st"
  by (simp add: same_links_def)

lemma same_links_trans: "same_links st st' \<Longrightarrow> same_links st' st'' \<Longrightarrow> same_links st st''"
  by (simp add: same_links_def)

lemma links_task:
  assumes "same_links st st'" "tasks st' p = Some t'"
  obtains t where "tasks st p = Some t" "links t' = links t"
proof -
  have "map_option links (tasks st' p) = map_option links (tasks st p)"
    using assms(1) unfolding same_links_def by (elim conjE) (erule spec)
  then have "map_option links (tasks st p) = Some (links t')" using assms(2) by simp
  then show ?thesis using that by auto
qed

lemma same_links_sym: "same_links st st' \<Longrightarrow> same_links st' st"
  by (simp add: same_links_def)

lemma links_GetConn: "links t' = links t \<Longrightarrow> GetConnByUserID u t' = GetConnByUserID u t"
  by (simp add: links_def GetConnByUserID_def)

lemma same_links_freg: "same_links st st' \<Longrightarrow> freg st' = freg st"
  by (simp add: same_links_def freg_def)

lemma file_inv_links:
  assumes "same_links st st'" "file_inv st"
  shows "file_inv st'"
  unfolding file_inv_def
proof (intro conjI ballI allI impI)
  note reg = same_links_freg [OF assms(1)]
  show "map_inv st'" using assms by (simp add: file_inv_def map_inv_def same_links_def)
  show "conn_inv st' c" if c: "c \<in> freg st'" for c
  proof -
    have "\<exists>t. tasks st' p = Some t \<and> GetConnByUserID (fc_user_id (fconns st c)) t = Some c"
      if tk: "fc_task (fconns st c) = Some p" for p
    proof -
      have "c \<in> freg st" using c reg by simp
      then obtain t where t: "tasks st p = Some t" "GetConnByUserID (fc_user_id (fconns st c)) t = Some c"
        using tk by (rule member_task [OF assms(2)])
      obtain t' where "tasks st' p = Some t'" "links t = links t'"
        by (rule links_task [OF same_links_sym [OF assms(1)] t(1)])
      then show ?thesis using t(2) links_GetConn by metis
    qed
    then show ?thesis
      using assms file_inv_conn [OF assms(2), of c] c reg by (simp add: conn_inv_def same_links_def)
  qed
  show "task_inv st' p t" if t: "tasks st' p = Some t" for p t
  proof -
    obtain t0 where t0: "tasks st p = Some t0" "links t = links t0" by (rule links_task [OF assms(1) t])
    have "task_inv st p t0" using file_inv_task [OF assms(2) t0(1)] .
    then show ?thesis
      using t0(2) assms(1) reg by (simp add: task_inv_def member_of_def links_def same_links_def)
  qed
  have "map_option task_id x = map_option (\<lambda>l. fst (snd l)) (map_option links x)" for x
    by (cases x) (simp_all add: links_def)
  moreover have eq: "map_option links (tasks st' p) = map_option links (tasks st p)" for p
    using assms(1) unfolding same_links_def by (elim conjE) (erule spec)
  ultimately have "map_option task_id (tasks st' p) = map_option task_id (tasks st p)" for p by simp
  moreover have "tasks st' p = None \<longleftrightarrow> tasks st p = None" for p
    using eq [of p] by (cases "tasks st' p"; cases "tasks st p") simp_all
  ultimately show "table_inv st'"
    using assms by (simp add: file_inv_def table_inv_def same_links_def)
qed

lemma same_links_upd_fconn:
  assumes "\<And>x. fc_handle (f x) = fc_handle x" "\<And>x. fc_task (f x) = fc_task x"
    "\<And>x. fc_user_id (f x) = fc_user_id x"
  shows "same_links st (upd_fconn c f st)"
  using assms by (simp add: same_links_def upd_fconn_def)

lemma same_links_set_task:
  "tasks st p = Some t \<Longrightarrow> links t' = links t \<Longrightarrow> same_links st (set_task p t' st)"
  by (simp add: same_links_def set_task_def)

lemma same_links_disk: "same_links st (st\<lparr>fdisk := d\<rparr>)"
  by (simp add: same_links_def)

lemma fsend_alive:
  assumes "file_inv st" "c \<in> freg st"
  obtains st' where "fsend m c st = Some st'" "same_links st st'"
  using file_inv_conn [OF assms] same_links_upd_fconn [of "\<lambda>x. x\<lparr>fc_out := fc_out x @ [m]\<rparr>" st c]
  by (auto simp: fsend_def conn_inv_def)

lemma fsend_not_dead:
  assumes "c \<notin> fdead st"
  obtains st' where "fsend m c st = Some st'" "same_links st st'"
  using assms same_links_upd_fconn [of "\<lambda>x. x\<lparr>fc_out := fc_out x @ [m]\<rparr>" st c]
  by (auto simp: fsend_def)

lemma fsend_opt_task:
  assumes "file_inv st" "tasks st p = Some t" "c = None \<or> c = from_conn t \<or> c = to_conn t"
  obtains st' where "fsend_opt m c st = Some st'" "same_links st st'"
proof (cases c)
  case None
  then show ?thesis using that by (simp add: fsend_opt_def)
next
  case (Some d)
  then have "d \<in> freg st" using task_conn_alive(1) [OF assms(1,2)] assms(3) by auto
  then obtain st' where "fsend m d st = Some st'" "same_links st st'" by (rule fsend_alive [OF assms(1)])
  then show ?thesis using that Some by (simp add: fsend_opt_def)
qed

subsection \<open>The calls on a task keep its links\<close>

lemma links_ChangePullState: "links (snd (ChangePullState now u r t)) = links t"
  by (simp add: ChangePullState_def Online_ChangePullState_def Offline_ChangePullState_def Let_def
      SetLastUpdateTime_def set_state_def links_def split: task_class.split)

lemma links_begin_upload: "begin_upload now t d = Some (t', d') \<Longrightarrow> links t' = links t"
  by (auto simp: begin_upload_def Let_def links_def split: if_splits option.splits prod.splits)

lemma links_store_segment:
  "store_segment now b f t d = (rv, t', d') \<Longrightarrow> t_state t \<noteq> kTransferTaskStateTransferDone \<Longrightarrow> links t' = links t"
  by (auto simp: store_segment_def Let_def SetLastUpdateTime_def links_def split: if_splits)

lemma links_Offline_DoRecvData:
  assumes "Offline_DoRecvData now u off b t d = Some (rv, t', d')"
  shows "links t' = links t"
proof (cases "begin_upload now t d")
  case None
  then show ?thesis using assms by (auto simp: Offline_DoRecvData_def Let_def split: if_splits)
next
  case (Some td)
  obtain t1 d1 where td: "td = (t1, d1)" by (cases td)
  have same: "links t1 = links t" using links_begin_upload Some td by blast
  then have "t_state t1 \<noteq> kTransferTaskStateTransferDone" if "t_state t \<noteq> kTransferTaskStateTransferDone"
    using that by (simp add: links_def)
  then show ?thesis
    using assms Some td same by (auto simp: Offline_DoRecvData_def Let_def split: if_splits option.splits
        dest: links_store_segment)
qed

lemma links_DoRecvData: "DoRecvData now u off b t d = Some (rv, t', d') \<Longrightarrow> links t' = links t"
  by (cases "t_class t")
    (auto simp: DoRecvData_def Online_DoRecvData_def start_transfer_def SetLastUpdateTime_def
      set_state_def links_def [of t] links_def [of t'] split: if_splits
      dest!: links_Offline_DoRecvData)

lemma links_begin_download: "begin_download t d = (ok, t') \<Longrightarrow> links t' = links t"
  by (auto simp: begin_download_def Let_def fread_simp links_def split: if_splits option.splits)

lemma links_load_segment:
  "load_segment now t d = (rv, b, t') \<Longrightarrow> t_state t \<noteq> kTransferTaskStateTransferDone \<Longrightarrow> links t' = links t"
  by (auto simp: load_segment_def Let_def fread_simp SetLastUpdateTime_def links_def
      split: if_splits option.splits)

lemma links_DoPullFileRequest: "DoPullFileRequest now off t d = (rv, b, t') \<Longrightarrow> links t' = links t"
proof (cases "t_class t")
  case OnlineTransferTask
  assume "DoPullFileRequest now off t d = (rv, b, t')"
  then show ?thesis using OnlineTransferTask
    by (auto simp: DoPullFileRequest_def Online_DoPullFileRequest_def start_transfer_def
        SetLastUpdateTime_def set_state_def links_def split: if_splits)
next
  case OfflineTransferTask
  assume eq: "DoPullFileRequest now off t d = (rv, b, t')"
  obtain ok u where "begin_download t d = (ok, u)" by (cases "begin_download t d")
  moreover from this have "t_state u \<noteq> kTransferTaskStateTransferDone" if "t_state t \<noteq> kTransferTaskStateTransferDone"
    using that links_begin_download [of t d ok u] by (simp add: links_def)
  ultimately show ?thesis using eq OfflineTransferTask links_begin_download [of t d ok u]
      links_load_segment [of now u d rv b t']
    by (auto simp: DoPullFileRequest_def Offline_DoPullFileRequest_def Let_def split: if_splits)
qed

subsection \<open>Closing\<close>

lemma links_close_task_state:
  "t_state t \<noteq> kTransferTaskStateTransferDone \<Longrightarrow> links (close_task_state t) = links t"
  by (simp add: close_task_state_def set_state_def links_def)

lemma GetConn_SetConn:
  assumes "from_user_id t \<noteq> to_user_id t" and "GetConnByUserID u t \<noteq> None"
  shows "GetConnByUserID v (SetConnByUserID u x t) = (if v = u then x else GetConnByUserID v t)"
  using assms by (auto simp: GetConnByUserID_def SetConnByUserID_def split: if_splits)

text \<open>The state in which connection \<open>c\<close> has let go of its task.\<close>

definition let_go :: "conn \<Rightarrow> tptr \<Rightarrow> transfer_task \<Rightarrow> file_state \<Rightarrow> file_state" where
  "let_go c p t st = upd_fconn c (\<lambda>x. x\<lparr>fc_task := None\<rparr>) (set_task p t st)"

lemma file_inv_let_go:
  assumes inv: "file_inv st" and c: "c \<in> freg st" "fc_task (fconns st c) = Some p"
    and t: "tasks st p = Some t" "GetConnByUserID (fc_user_id (fconns st c)) t = Some c"
    and t': "links t' = links (SetConnByUserID (fc_user_id (fconns st c)) None t)"
  shows "file_inv (let_go c p t' st)"
proof -
  let ?u = "fc_user_id (fconns st c)" and ?st = "let_go c p t' st"
  have ti: "task_inv st p t" using file_inv_task [OF inv t(1)] .
  have ne: "from_user_id t \<noteq> to_user_id t" using ti by (simp add: task_inv_def)
  have get: "GetConnByUserID v t' = (if v = ?u then None else GetConnByUserID v t)" for v
    using links_GetConn [OF t', of v] GetConn_SetConn [OF ne, of ?u] t(2) by simp
  have fields: "t_class t' = t_class t" "task_id t' = task_id t" "from_user_id t' = from_user_id t"
      "to_user_id t' = to_user_id t"
      "t_state t' = kTransferTaskStateTransferDone \<longleftrightarrow> t_state t = kTransferTaskStateTransferDone"
    and slots: "from_conn t' = (if from_user_id t = ?u then None else from_conn t)"
      "to_conn t' = (if to_user_id t = ?u then None else to_conn t)"
    using t' ne by (auto simp: links_def SetConnByUserID_def split: if_splits)
  have reg: "freg ?st = freg st" by (simp add: freg_def let_go_def upd_fconn_def set_task_def)
  have m: "map_inv ?st"
    using inv by (auto simp: file_inv_def map_inv_def let_go_def upd_fconn_def set_task_def)
  have tab: "table_inv ?st"
    using inv t(1) fields(2)
    by (auto simp: file_inv_def table_inv_def let_go_def upd_fconn_def set_task_def)
  have cs: "conn_inv ?st d" if d: "d \<in> freg st" for d
  proof (cases "d = c")
    case True
    then show ?thesis using file_inv_conn [OF inv d]
      by (simp add: conn_inv_def let_go_def upd_fconn_def set_task_def)
  next
    case False
    have "\<exists>x. tasks ?st q = Some x \<and> GetConnByUserID (fc_user_id (fconns st d)) x = Some d"
      if q: "fc_task (fconns st d) = Some q" for q
    proof -
      obtain x where x: "tasks st q = Some x" "GetConnByUserID (fc_user_id (fconns st d)) x = Some d"
        by (rule member_task [OF inv d q])
      show ?thesis
      proof (cases "q = p")
        case True
        then have "fc_user_id (fconns st d) \<noteq> ?u" using x t False by auto
        then show ?thesis using True x t(1) get by (simp add: let_go_def upd_fconn_def set_task_def)
      qed (use x in \<open>simp add: let_go_def upd_fconn_def set_task_def\<close>)
    qed
    then show ?thesis using False file_inv_conn [OF inv d]
      by (simp add: conn_inv_def let_go_def upd_fconn_def set_task_def)
  qed
  have mem: "member_of ?st d q v" if "member_of st d q v" "d \<noteq> c" for d q v
    using that reg by (simp add: member_of_def let_go_def upd_fconn_def set_task_def)
  have ts: "task_inv ?st q x" if x: "tasks ?st q = Some x" for q x
  proof (cases "q = p")
    case True
    then have "x = t'" using x by (simp add: let_go_def upd_fconn_def set_task_def)
    moreover have "d \<noteq> c" if "member_of st d p v" "v \<noteq> ?u" for d v
      using that by (auto simp: member_of_def)
    ultimately show ?thesis
      using True ti fields slots mem by (auto simp: task_inv_def split: if_splits)
  next
    case False
    then have "tasks st q = Some x" using x by (simp add: let_go_def upd_fconn_def set_task_def)
    then have "task_inv st q x" by (rule file_inv_task [OF inv])
    moreover have "d \<noteq> c" if "member_of st d q v" for d v
      using that c(2) False by (auto simp: member_of_def)
    ultimately show ?thesis using mem by (auto simp: task_inv_def)
  qed
  show ?thesis using m tab cs ts reg by (simp add: file_inv_def)
qed

lemma file_inv_delete_task:
  assumes inv: "file_inv st" and t: "tasks st p = Some t" "from_conn t = None" "to_conn t = None"
  shows "file_inv (delete_task (task_id t) p st)"
proof -
  let ?st = "delete_task (task_id t) p st"
  have reg: "freg ?st = freg st" by (simp add: freg_def delete_task_def)
  have other: "tasks ?st q = Some x \<longleftrightarrow> q \<noteq> p \<and> tasks st q = Some x" for q x
    by (simp add: delete_task_def)
  have notp: "fc_task (fconns st d) \<noteq> Some p" if d: "d \<in> freg st" for d
  proof
    assume "fc_task (fconns st d) = Some p"
    then obtain x where "tasks st p = Some x" "GetConnByUserID (fc_user_id (fconns st d)) x = Some d"
      by (rule member_task [OF inv d])
    then show False using t by (auto simp: GetConnByUserID_def split: if_splits)
  qed
  have "map_inv ?st" using inv by (simp add: file_inv_def map_inv_def delete_task_def)
  moreover have "conn_inv ?st d" if "d \<in> freg st" for d
    using file_inv_conn [OF inv that] notp [OF that] by (auto simp: conn_inv_def delete_task_def)
  moreover have "task_inv ?st q x" if "tasks ?st q = Some x" for q x
    using that other reg file_inv_task [OF inv, of q x] by (simp add: task_inv_def member_of_def delete_task_def)
  moreover have "table_inv ?st"
    unfolding table_inv_def
  proof (intro conjI allI impI)
    have tab: "table_inv st" using inv by (simp add: file_inv_def)
    have unique: "map_option task_id (tasks st q) = Some (task_id t) \<longleftrightarrow> q = p" for q
      using tab t(1) unfolding table_inv_def by (metis option.map(2) option.inject)
    show "cm_ok (transfer_tasks ?st)" using tab by (auto simp: table_inv_def delete_task_def cm_ok_def cm_erase_def
          intro: distinct_map_filter)
    show "tasks ?st q = None" if "next_task ?st \<le> q" for q
      using that tab by (simp add: table_inv_def delete_task_def)
    show "map_of (transfer_tasks ?st) tid = Some q \<longleftrightarrow> map_option task_id (tasks ?st q) = Some tid" for tid q
      using tab unique [of q] t(1)
      by (cases "tid = task_id t"; cases "q = p") (auto simp: table_inv_def delete_task_def map_of_cm_erase)
  qed
  ultimately show ?thesis by (simp add: file_inv_def reg)
qed

lemma upd_fconn_delete_task:
  "upd_fconn c f (delete_task tid p st) = delete_task tid p (upd_fconn c f st)"
  by (cases st) (simp add: upd_fconn_def delete_task_def)

lemma find_own_task:
  assumes "file_inv st" "tasks st p = Some t"
  shows "FindByTaskID (task_id t) st = Some p"
  using assms by (simp add: file_inv_def table_inv_def FindByTaskID_def)

text \<open>What \<open>Close\<close> leaves: the connections and the maps but for the one that left.\<close>

definition left_task :: "conn \<Rightarrow> file_state \<Rightarrow> file_state \<Rightarrow> bool" where
  "left_task c st st' \<longleftrightarrow> fconns st' = (fconns st)(c := (fconns st c)\<lparr>fc_task := None\<rparr>)
     \<and> g_file_client_conn_map st' = g_file_client_conn_map st \<and> fclosed st' = fclosed st
     \<and> fdead st' = fdead st"

lemma leave_task_safe:
  assumes inv: "file_inv st" and c: "c \<in> freg st"
  obtains st' where "leave_task c st = Some st'" "file_inv st'" "left_task c st st'"
proof (cases "fc_task (fconns st c)")
  case None
  then have "(fconns st)(c := (fconns st c)\<lparr>fc_task := None\<rparr>) = fconns st" by (simp add: fun_eq_iff)
  then show ?thesis using that inv None by (simp add: leave_task_def left_task_def)
next
  case (Some p)
  obtain t where t: "tasks st p = Some t" "GetConnByUserID (fc_user_id (fconns st c)) t = Some c"
    by (rule member_task [OF inv c Some])
  let ?u = "fc_user_id (fconns st c)"
  define t1 where "t1 = SetConnByUserID ?u None (close_task_state t)"
  have t1: "links t1 = links (SetConnByUserID ?u None t)"
    using links_close_task_state [of t] file_inv_task [OF inv t(1)]
    by (auto simp: t1_def SetConnByUserID_def links_def task_inv_def)
  have inv1: "file_inv (let_go c p t1 st)" by (rule file_inv_let_go [OF inv c Some t t1])
  have p1: "tasks (let_go c p t1 st) p = Some t1" by (simp add: let_go_def upd_fconn_def set_task_def)
  have id: "task_id t1 = task_id t" using t1 by (simp add: links_def SetConnByUserID_def split: if_splits)
  have found: "FindByTaskID (task_id t1) (set_task p t1 st) = Some p"
    using find_own_task [OF inv t(1)] id by (simp add: FindByTaskID_def set_task_def)
  have slots: "from_conn t1 = None \<and> to_conn t1 = None" if "t_class t1 = OfflineTransferTask"
    using file_inv_task [OF inv t(1)] t(2) t1 that
    by (auto simp: task_inv_def links_def SetConnByUserID_def GetConnByUserID_def split: if_splits)
  have mode: "GetTransMode t1 = FILE_TYPE_ONLINE \<longleftrightarrow> t_class t1 = OnlineTransferTask"
    by (cases "t_class t1") (simp_all add: GetTransMode_def const_defs)
  have tp: "tasks (set_task p t1 st) p = Some t1" by (simp add: set_task_def)
  define gone where "gone \<longleftrightarrow> (if t_class t1 = OnlineTransferTask then from_conn t1 = None \<and> to_conn t1 = None
    else t_state t1 \<noteq> kTransferTaskStateWaitingUpload)"
  have del: "DeleteTransferTaskByConnClose (task_id t1) (set_task p t1 st) =
      Some (gone, if gone then delete_task (task_id t1) p (set_task p t1 st) else set_task p t1 st)"
    unfolding DeleteTransferTaskByConnClose_def found option.case tp bind.bind_lunit mode gone_def by simp
  have "leave_task c st = Some (if gone then delete_task (task_id t1) p (let_go c p t1 st) else let_go c p t1 st)"
    using Some t(1) del by (simp add: leave_task_def Let_def t1_def let_go_def upd_fconn_delete_task)
  moreover have "file_inv (delete_task (task_id t1) p (let_go c p t1 st))" if gone
    using that slots file_inv_delete_task [OF inv1 p1]
    by (cases "t_class t1") (simp_all add: gone_def)
  moreover have "left_task c st (if gone then delete_task (task_id t1) p (let_go c p t1 st) else let_go c p t1 st)"
    by (simp add: left_task_def delete_task_def let_go_def upd_fconn_def set_task_def)
  ultimately show ?thesis using that inv1 by auto
qed

lemma file_inv_unregister:
  assumes inv: "file_inv st" and c: "c \<in> freg st" "fc_task (fconns st c) = None"
  shows "file_inv (st\<lparr>g_file_client_conn_map := cm_erase (fc_handle (fconns st c)) (g_file_client_conn_map st),
      fclosed := insert c (fclosed st)\<rparr>)" (is "file_inv ?st")
    and "freg (st\<lparr>g_file_client_conn_map := cm_erase (fc_handle (fconns st c)) (g_file_client_conn_map st),
      fclosed := insert c (fclosed st)\<rparr>) = freg st - {c}"
proof -
  have m: "map_inv st" using inv by (simp add: file_inv_def)
  then have key: "k = fc_handle (fconns st d)" if "(k, d) \<in> set (g_file_client_conn_map st)" for k d
    using that by (auto simp: map_inv_def)
  have own: "(fc_handle (fconns st c), c) \<in> set (g_file_client_conn_map st)"
    using c(1) key by (auto simp: freg_def)
  have inj: "d = c" if "(fc_handle (fconns st c), d) \<in> set (g_file_client_conn_map st)" for d
    using m that own by (auto simp: map_inv_def cm_ok_def dest: eq_key_imp_eq_value)
  have erased: "set (g_file_client_conn_map ?st) =
      {(k, d) \<in> set (g_file_client_conn_map st). k \<noteq> fc_handle (fconns st c)}"
    by (auto simp: cm_erase_def)
  show reg: "freg ?st = freg st - {c}"
  proof (intro set_eqI iffI)
    fix d assume "d \<in> freg ?st"
    then obtain k where "(k, d) \<in> set (g_file_client_conn_map st)" "k \<noteq> fc_handle (fconns st c)"
      unfolding freg_def erased by auto
    then show "d \<in> freg st - {c}" using key by (force simp: freg_def)
  next
    fix d assume d: "d \<in> freg st - {c}"
    then obtain k where k: "(k, d) \<in> set (g_file_client_conn_map st)" by (auto simp: freg_def)
    then have "k \<noteq> fc_handle (fconns st c)" using inj d by auto
    then have "(k, d) \<in> set (g_file_client_conn_map ?st)" using k unfolding erased by simp
    then show "d \<in> freg ?st" unfolding freg_def by (metis image_eqI snd_conv)
  qed
  have "map_inv ?st" using m
    by (auto simp: map_inv_def cm_erase_def cm_ok_def intro: distinct_map_filter)
  moreover have "conn_inv ?st d" if "d \<in> freg ?st" for d
    using file_inv_conn [OF inv, of d] that reg by (auto simp: conn_inv_def)
  moreover have "task_inv ?st p t" if "tasks ?st p = Some t" for p t
  proof -
    have "task_inv st p t" using file_inv_task [OF inv] that by simp
    then show ?thesis using c(2) unfolding task_inv_def member_of_def reg by auto
  qed
  moreover have "table_inv ?st" using inv by (simp add: file_inv_def table_inv_def)
  ultimately show "file_inv ?st" by (simp add: file_inv_def)
qed

lemma file_inv_auth: "file_inv st \<Longrightarrow> file_inv (upd_fconn c (\<lambda>x. x\<lparr>fc_auth := b\<rparr>) st)"
  by (erule file_inv_links [rotated]) (rule same_links_upd_fconn, simp_all)

text \<open>Closing a registered connection.\<close>

definition closed_conn :: "conn \<Rightarrow> file_state \<Rightarrow> file_state \<Rightarrow> bool" where
  "closed_conn c st st' \<longleftrightarrow> freg st' = freg st - {c} \<and> fclosed st' = insert c (fclosed st)
     \<and> fdead st' = fdead st \<and> \<not> fc_auth (fconns st' c)
     \<and> (\<forall>d. d \<noteq> c \<longrightarrow> fconns st' d = fconns st d)"

lemma FileClose_safe:
  assumes inv: "file_inv st" and c: "c \<in> freg st"
  obtains st' where "FileClose c st = Some st'" "file_inv st'" "closed_conn c st st'"
proof -
  obtain s1 where s1: "leave_task c st = Some s1" "file_inv s1" "left_task c st s1"
    by (rule leave_task_safe [OF inv c])
  define s2 where "s2 = upd_fconn c (\<lambda>x. x\<lparr>fc_auth := False\<rparr>) s1"
  have inv2: "file_inv s2" unfolding s2_def by (rule file_inv_auth [OF s1(2)])
  have reg2: "freg s2 = freg st" using s1(3) by (simp add: s2_def left_task_def freg_def upd_fconn_def)
  have notclosed: "c \<notin> fclosed st" using file_inv_conn [OF inv c] by (simp add: conn_inv_def)
  have handle: "fc_handle (fconns s2 c) \<noteq> NETLIB_INVALID_HANDLE"
  proof -
    have "c \<in> freg s2" using reg2 c by simp
    then obtain h where "(h, c) \<in> set (g_file_client_conn_map s2)" by (auto simp: freg_def)
    then show ?thesis using inv2 by (auto simp: file_inv_def map_inv_def)
  qed
  have notask: "fc_task (fconns s2 c) = None" using s1(3) by (simp add: s2_def left_task_def upd_fconn_def)
  have c2: "c \<in> freg s2" using c reg2 by simp
  note un = file_inv_unregister [OF inv2 c2 notask]
  have "FileClose c st = Some (s2\<lparr>g_file_client_conn_map :=
      cm_erase (fc_handle (fconns s2 c)) (g_file_client_conn_map s2), fclosed := insert c (fclosed s2)\<rparr>)"
    using s1(1) notclosed handle by (simp add: FileClose_def Let_def s2_def [symmetric])
  moreover have "closed_conn c st (s2\<lparr>g_file_client_conn_map :=
      cm_erase (fc_handle (fconns s2 c)) (g_file_client_conn_map s2), fclosed := insert c (fclosed s2)\<rparr>)"
    using s1(3) un(2) reg2 by (simp add: closed_conn_def s2_def left_task_def upd_fconn_def)
  ultimately show ?thesis using that un(1) by blast
qed

subsection \<open>New tasks and logins\<close>

lemma file_inv_add_task:
  assumes inv: "file_inv st" and t: "FindByTaskID tid st = None" "task_id t = tid"
      "from_user_id t \<noteq> to_user_id t" "from_conn t = None" "to_conn t = None"
      "t_state t \<noteq> kTransferTaskStateTransferDone"
  shows "file_inv (snd (add_task tid t st))"
proof -
  let ?st = "snd (add_task tid t st)" and ?n = "next_task st"
  have none: "tasks st ?n = None" using inv by (simp add: file_inv_def table_inv_def)
  have tasks: "tasks ?st q = (if q = ?n then Some t else tasks st q)" for q by (simp add: add_task_def)
  have reg: "freg ?st = freg st" by (simp add: freg_def add_task_def)
  have "map_inv ?st" using inv by (simp add: file_inv_def map_inv_def add_task_def)
  moreover have "conn_inv ?st d" if "d \<in> freg st" for d
    using file_inv_conn [OF inv that] none by (auto simp: conn_inv_def add_task_def)
  moreover have "task_inv ?st q x" if "tasks ?st q = Some x" for q x
  proof (cases "q = ?n")
    case True
    then show ?thesis using that t tasks by (simp add: task_inv_def)
  next
    case False
    then have "task_inv st q x" using file_inv_task [OF inv] that tasks by simp
    then show ?thesis using reg by (simp add: task_inv_def member_of_def add_task_def)
  qed
  moreover have "table_inv ?st"
    unfolding table_inv_def
  proof (intro conjI allI impI)
    have tab: "table_inv st" using inv by (simp add: file_inv_def)
    have new: "map_of (transfer_tasks st) tid = None" using t(1) by (simp add: FindByTaskID_def)
    show "cm_ok (transfer_tasks ?st)"
      using tab new by (simp add: table_inv_def add_task_def cm_insert_def cm_ok_def map_of_eq_None_iff)
    show "tasks ?st q = None" if "next_task ?st \<le> q" for q
      using that tab by (simp add: table_inv_def add_task_def)
    have "map_of (transfer_tasks ?st) = (map_of (transfer_tasks st))(tid \<mapsto> ?n)"
      using new by (simp add: add_task_def cm_insert_def)
    moreover have "map_option task_id (tasks st q) \<noteq> Some tid" for q
      using tab new unfolding table_inv_def by (metis option.distinct(1))
    ultimately show "map_of (transfer_tasks ?st) x = Some q \<longleftrightarrow> map_option task_id (tasks ?st q) = Some x" for x q
      using tab none t(2) tasks
      by (cases "q = ?n"; cases "x = tid") (auto simp: table_inv_def)
  qed
  ultimately show ?thesis by (simp add: file_inv_def reg)
qed

definition joined :: "conn \<Rightarrow> tptr \<Rightarrow> u32 \<Rightarrow> transfer_task \<Rightarrow> file_state \<Rightarrow> file_state" where
  "joined c p u t st = set_task p (SetConnByUserID u (Some c) t)
     (upd_fconn c (\<lambda>x. x\<lparr>fc_auth := True, fc_task := Some p, fc_user_id := u\<rparr>) st)"

text \<open>A slot is free for the user, and an offline task has nobody else connected.\<close>

definition slot_free :: "u32 \<Rightarrow> transfer_task \<Rightarrow> bool" where
  "slot_free u t \<longleftrightarrow> GetConnByUserID u t = None
     \<and> (t_class t = OfflineTransferTask \<longrightarrow> from_conn t = None \<and> to_conn t = None)"

lemma file_inv_joined:
  assumes inv: "file_inv st" and c: "c \<in> freg st" "fc_task (fconns st c) = None"
    and t: "tasks st p = Some t" "links t1 = links t"
    and u: "u = from_user_id t \<or> u = to_user_id t" "slot_free u t"
  shows "file_inv (joined c p u t1 st)"
proof -
  let ?st = "joined c p u t1 st" and ?t = "SetConnByUserID u (Some c) t1"
  have ti: "task_inv st p t" using file_inv_task [OF inv t(1)] .
  have fields: "t_class ?t = t_class t" "task_id ?t = task_id t" "from_user_id ?t = from_user_id t"
      "to_user_id ?t = to_user_id t" "from_conn ?t = (if u = from_user_id t then Some c else from_conn t)"
      "to_conn ?t = (if u = to_user_id t then Some c else to_conn t)"
      "t_state ?t = kTransferTaskStateTransferDone \<longleftrightarrow> t_state t = kTransferTaskStateTransferDone"
    using t(2) ti by (auto simp: links_def SetConnByUserID_def task_inv_def)
  have tasks: "tasks ?st q = (if q = p then Some ?t else tasks st q)" for q
    by (simp add: joined_def set_task_def upd_fconn_def)
  have conns: "fconns ?st = (fconns st)(c := (fconns st c)\<lparr>fc_auth := True, fc_task := Some p, fc_user_id := u\<rparr>)"
    by (simp add: joined_def set_task_def upd_fconn_def)
  have same: "g_file_client_conn_map ?st = g_file_client_conn_map st" "fclosed ?st = fclosed st"
      "fdead ?st = fdead st" "transfer_tasks ?st = transfer_tasks st" "next_task ?st = next_task st"
    by (simp_all add: joined_def set_task_def upd_fconn_def)
  have reg: "freg ?st = freg st" using same by (simp add: freg_def)
  have mem: "member_of ?st d q v" if "member_of st d q v" for d q v
    using that c(2) conns reg by (auto simp: member_of_def)
  have memc: "member_of ?st c p u" using c conns reg by (simp add: member_of_def)
  have "map_inv ?st" using inv same conns by (auto simp: file_inv_def map_inv_def)
  moreover have "table_inv ?st"
    using inv t(1) fields(2) same tasks by (auto simp: file_inv_def table_inv_def)
  moreover have "conn_inv ?st d" if d: "d \<in> freg st" for d
  proof (cases "d = c")
    case True
    have "GetConnByUserID u ?t = Some c" using u(1) fields by (auto simp: GetConnByUserID_def)
    then show ?thesis using True file_inv_conn [OF inv d] same conns tasks by (simp add: conn_inv_def)
  next
    case False
    have "\<exists>x. tasks ?st q = Some x \<and> GetConnByUserID (fc_user_id (fconns st d)) x = Some d"
      if q: "fc_task (fconns st d) = Some q" for q
    proof -
      obtain x where x: "tasks st q = Some x" "GetConnByUserID (fc_user_id (fconns st d)) x = Some d"
        by (rule member_task [OF inv d q])
      have "GetConnByUserID (fc_user_id (fconns st d)) ?t = Some d" if "q = p"
        using that x t(1) u(2) fields by (auto simp: GetConnByUserID_def slot_free_def split: if_splits)
      then show ?thesis using x tasks by (cases "q = p") auto
    qed
    then show ?thesis using False file_inv_conn [OF inv d] same conns by (simp add: conn_inv_def)
  qed
  moreover have "task_inv ?st q x" if x: "tasks ?st q = Some x" for q x
  proof (cases "q = p")
    case True
    then have "x = ?t" using x tasks by simp
    then show ?thesis using True ti fields mem memc u(2) by (auto simp: task_inv_def slot_free_def split: if_splits)
  next
    case False
    then have "task_inv st q x" using file_inv_task [OF inv] x tasks by simp
    then show ?thesis using mem by (auto simp: task_inv_def)
  qed
  ultimately show ?thesis by (simp add: file_inv_def reg)
qed

subsection \<open>The handlers\<close>

text \<open>After a handler either the connections are as before, or the handler closed its own.\<close>

definition steady :: "file_state \<Rightarrow> file_state \<Rightarrow> bool" where
  "steady st st' \<longleftrightarrow> file_inv st' \<and> freg st' = freg st \<and> fclosed st' = fclosed st \<and> fdead st' = fdead st"

definition handled :: "conn \<Rightarrow> file_state \<Rightarrow> file_state \<Rightarrow> bool" where
  "handled c st st' \<longleftrightarrow> steady st st'
     \<or> (file_inv st' \<and> freg st' = freg st - {c} \<and> fclosed st' = insert c (fclosed st)
         \<and> fdead st' = fdead st \<and> \<not> fc_auth (fconns st' c))"

lemma steady_refl: "file_inv st \<Longrightarrow> steady st st"
  by (simp add: steady_def)

lemma steady_links: "file_inv st \<Longrightarrow> same_links st st' \<Longrightarrow> steady st st'"
  using file_inv_links [of st st'] same_links_freg [of st st']
  by (simp add: steady_def) (simp add: same_links_def)

lemma steady_trans: "steady st st' \<Longrightarrow> steady st' st'' \<Longrightarrow> steady st st''"
  by (simp add: steady_def)

lemma steady_handled: "steady st st' \<Longrightarrow> handled c st st'"
  by (simp add: handled_def)

lemma close_handled:
  assumes "steady st s1" "c \<in> freg st"
  shows "\<exists>st'. FileClose c s1 = Some st' \<and> handled c st st'"
proof -
  have "file_inv s1" "c \<in> freg s1" using assms by (simp_all add: steady_def)
  then obtain st' where "FileClose c s1 = Some st'" "file_inv st'" "closed_conn c s1 st'"
    by (rule FileClose_safe)
  then show ?thesis using assms by (auto simp: handled_def steady_def closed_conn_def)
qed

lemma send_steady:
  assumes "file_inv st" "c \<in> freg st"
  shows "\<exists>st'. fsend m c st = Some st' \<and> steady st st'"
  using fsend_alive [OF assms, of m] steady_links [OF assms(1)] by metis

lemma send_opt_steady:
  assumes "file_inv st" "tasks st p = Some t" "c = None \<or> c = from_conn t \<or> c = to_conn t"
  shows "\<exists>st'. fsend_opt m c st = Some st' \<and> steady st st'"
  using fsend_opt_task [OF assms, of m] steady_links [OF assms(1)] by metis

lemma opponent_slot: "GetOpponentConn u t = from_conn t \<or> GetOpponentConn u t = to_conn t"
  by (simp add: GetOpponentConn_def)

lemma states_handled:
  assumes "file_inv st" "c \<in> freg st"
  shows "\<exists>st'. HandleClientFileStates c m st = Some st' \<and> handled c st st'"
proof (cases "fc_auth (fconns st c) \<and> fc_task (fconns st c) \<noteq> None")
  case True
  then obtain p where p: "fc_task (fconns st c) = Some p" by auto
  obtain t where t: "tasks st p = Some t" by (rule member_task [OF assms p])
  have "\<exists>s1. (if fs_user_id m \<noteq> fc_user_id (fconns st c) then Some st
      else if task_id t \<noteq> fs_task_id m then Some st
      else if fs_state m \<in> {CLIENT_FILE_CANCEL, CLIENT_FILE_DONE, CLIENT_FILE_REFUSE}
      then fsend_opt (FState m) (GetOpponentConn (fs_user_id m) t) st
      else Some st) = Some s1 \<and> steady st s1"
    using send_opt_steady [OF assms(1) t, of "GetOpponentConn (fs_user_id m) t" "FState m"]
      opponent_slot [of "fs_user_id m" t] steady_refl [OF assms(1)] by auto
  then show ?thesis
    using True p t close_handled [OF _ assms(2)] by (auto simp: HandleClientFileStates_def)
next
  case False
  then show ?thesis
    using steady_handled [OF steady_refl [OF assms(1)]]
    by (auto simp: HandleClientFileStates_def split: option.split)
qed

lemma set_task_steady:
  assumes "file_inv st" "tasks st p = Some t" "links t' = links t"
  shows "steady st (set_task p t' st)"
  using assms by (intro steady_links same_links_set_task)

lemma links_conns: "links t' = links t \<Longrightarrow> from_conn t' = from_conn t \<and> to_conn t' = to_conn t"
  by (simp add: links_def)

lemma pull_request_handled:
  assumes "file_inv st" "c \<in> freg st" "tasks st p = Some t"
  shows "\<exists>rv st'. pull_request now c seq m p st = Some (rv, st') \<and> steady st st'"
proof -
  obtain rv b t' where pull: "DoPullFileRequest now (pq_offset m) t (fdisk st) = (rv, b, t')"
    by (cases "DoPullFileRequest now (pq_offset m) t (fdisk st)") auto
  have same: "links t' = links t" by (rule links_DoPullFileRequest [OF pull])
  let ?t1 = "if GetTransMode t' = FILE_TYPE_ONLINE then t'\<lparr>mac_seq_num := ucast seq\<rparr> else t'"
  have same1: "links (t'\<lparr>mac_seq_num := ucast seq\<rparr>) = links t" using same by (simp add: links_def)
  have st1: "steady st (set_task p t' st)" "steady st (set_task p (t'\<lparr>mac_seq_num := ucast seq\<rparr>) st)"
    using set_task_steady [OF assms(1,3)] same same1 by simp_all
  consider (fail) "rv = -1" | (online) "rv \<noteq> -1" "GetTransMode t' = FILE_TYPE_ONLINE"
    | (offline) "rv \<noteq> -1" "GetTransMode t' \<noteq> FILE_TYPE_ONLINE" by blast
  then show ?thesis
  proof cases
    case fail
    then show ?thesis using pull st1 assms(3) by (simp add: pull_request_def)
  next
    case online
    let ?s = "set_task p (t'\<lparr>mac_seq_num := ucast seq\<rparr>) st"
    have "file_inv ?s" using st1 by (simp add: steady_def)
    moreover have "tasks ?s p = Some (t'\<lparr>mac_seq_num := ucast seq\<rparr>)" by (simp add: set_task_def)
    ultimately obtain s2 where "fsend_opt (FPullReq seq m) (GetOpponentConn (pq_user_id m)
        (t'\<lparr>mac_seq_num := ucast seq\<rparr>)) ?s = Some s2" "steady ?s s2"
      using send_opt_steady opponent_slot by metis
    then show ?thesis using pull online assms(3) steady_trans [OF st1(2)] by (simp add: pull_request_def)
  next
    case offline
    let ?s = "set_task p t' st"
    have inv: "file_inv ?s" "c \<in> freg ?s" using st1(1) assms(2) by (simp_all add: steady_def)
    obtain s2 where s2: "fsend (FPullRsp seq \<lparr>pr_result_code = 0, pr_task_id = pq_task_id m,
        pr_user_id = pq_user_id m, pr_offset = pq_offset m, pr_file_data = b\<rparr>) c ?s = Some s2" "steady ?s s2"
      using send_steady [OF inv] by blast
    have inv2: "file_inv s2" "c \<in> freg s2" using s2(2) inv by (simp_all add: steady_def)
    obtain s3 where "StatesNotify CLIENT_FILE_DONE (pq_task_id m) (from_user_id t') c s2 = Some s3" "steady s2 s3"
      unfolding StatesNotify_def using send_steady [OF inv2] by blast
    then show ?thesis
      using pull offline assms(3) s2 steady_trans [OF st1(1) steady_trans [OF s2(2)]] steady_trans [OF st1(1) s2(2)]
      by (auto simp: pull_request_def)
  qed
qed

lemma pull_req_handled:
  assumes "file_inv st" "c \<in> freg st"
  shows "\<exists>st'. HandleClientFilePullFileReq now c seq m st = Some st' \<and> handled c st st'"
proof (cases "fc_auth (fconns st c) \<and> fc_task (fconns st c) \<noteq> None")
  case True
  then obtain p where p: "fc_task (fconns st c) = Some p" by auto
  obtain t where t: "tasks st p = Some t" by (rule member_task [OF assms p])
  have "\<exists>rv s1. (if pq_user_id m \<noteq> fc_user_id (fconns st c) then Some (-1, st)
      else if task_id t \<noteq> pq_task_id m then Some (-1, st)
      else if \<not> CheckToUserID (pq_user_id m) t then Some (-1, st)
      else pull_request now c seq m p st) = Some (rv, s1) \<and> steady st s1"
    using pull_request_handled [OF assms t, of now seq m] steady_refl [OF assms(1)] by auto
  then show ?thesis
    using True p t close_handled [OF _ assms(2)] steady_handled
    by (auto simp: HandleClientFilePullFileReq_def)
next
  case False
  then show ?thesis
    using steady_handled [OF steady_refl [OF assms(1)]]
    by (auto simp: HandleClientFilePullFileReq_def split: option.split)
qed

text \<open>The packet holds the segment that \<open>DoRecvData\<close> will take from it.\<close>

definition enough_data :: "transfer_task \<Rightarrow> bytes \<Rightarrow> bool" where
  "enough_data t data \<longleftrightarrow>
     (t_class t = OfflineTransferTask \<longrightarrow> unat (GetNextSegmentBlockSize t) \<le> length data + 1)"

lemma DoRecvData_enough:
  assumes "enough_data t data"
  shows "\<exists>rv t' d'. DoRecvData now u off data t d = Some (rv, t', d')"
proof (cases "t_class t")
  case OnlineTransferTask
  then show ?thesis by (simp add: DoRecvData_def split: prod.split)
next
  case OfflineTransferTask
  then have n: "\<not> length data + 1 < unat (GetNextSegmentBlockSize t)" using assms by (simp add: enough_data_def)
  have store: "\<exists>rv t' d'. store_segment now b f s e = (rv, t', d')" for b f s e
    by (cases "store_segment now b f s e") auto
  show ?thesis using OfflineTransferTask n store
    by (auto simp: DoRecvData_def Offline_DoRecvData_def Let_def split: option.split prod.split)
qed

lemma data_response_handled:
  assumes inv: "file_inv st" and c: "c \<in> freg st" and t: "tasks st p = Some t"
    and enough: "enough_data t (pr_file_data m)"
  shows "\<exists>rv st'. data_response now c seq m p st = Some (rv, st') \<and> steady st st'"
proof -
  obtain rv t' d where recv: "DoRecvData now (pr_user_id m) (pr_offset m) (pr_file_data m) t (fdisk st) = Some (rv, t', d)"
    using DoRecvData_enough [OF enough] by blast
  let ?s = "(set_task p t' st)\<lparr>fdisk := d\<rparr>"
  have same: "links t' = links t" by (rule links_DoRecvData [OF recv])
  have s: "steady st ?s"
    using set_task_steady [OF inv t same] steady_links [OF _ same_links_disk]
    by (meson steady_def steady_trans)
  have inv1: "file_inv ?s" "c \<in> freg ?s" using s c by (simp_all add: steady_def)
  have t1: "tasks ?s p = Some t'" by (simp add: set_task_def)
  have head: "data_response now c seq m p st =
    (if rv = -1 then Some (-1, ?s)
     else if GetTransMode t' = FILE_TYPE_ONLINE then do {
       st \<leftarrow> fsend_opt (FPullRsp (ucast (mac_seq_num t')) m) (to_conn t') ?s; Some (rv, st)}
     else if rv = 1 then do {
       st \<leftarrow> StatesNotify CLIENT_FILE_DONE (pr_task_id m) (pr_user_id m) c ?s; Some (rv, st)}
     else do {
       st \<leftarrow> fsend (FPullReq 0 \<lparr>pq_task_id = pr_task_id m, pq_user_id = pr_user_id m,
         pq_trans_mode = GetTransMode t', pq_offset = GetNextOffset t',
         pq_data_size = GetNextSegmentBlockSize t'\<rparr>) c ?s; Some (rv, st)})"
    using t recv by (simp add: data_response_def)
  obtain s1 where "fsend_opt (FPullRsp (ucast (mac_seq_num t')) m) (to_conn t') ?s = Some s1" "steady ?s s1"
    using send_opt_steady [OF inv1(1) t1] by blast
  moreover obtain s2 where "StatesNotify CLIENT_FILE_DONE (pr_task_id m) (pr_user_id m) c ?s = Some s2" "steady ?s s2"
    unfolding StatesNotify_def using send_steady [OF inv1] by blast
  moreover obtain s3 where "fsend (FPullReq 0 \<lparr>pq_task_id = pr_task_id m, pq_user_id = pr_user_id m,
         pq_trans_mode = GetTransMode t', pq_offset = GetNextOffset t',
         pq_data_size = GetNextSegmentBlockSize t'\<rparr>) c ?s = Some s3" "steady ?s s3"
    using send_steady [OF inv1] by blast
  ultimately show ?thesis unfolding head using s steady_trans [OF s] by simp
qed

definition enough_for :: "conn \<Rightarrow> pull_data_rsp \<Rightarrow> file_state \<Rightarrow> bool" where
  "enough_for c m st \<longleftrightarrow> (case fc_task (fconns st c) of None \<Rightarrow> True
     | Some p \<Rightarrow> (case tasks st p of None \<Rightarrow> True | Some t \<Rightarrow> enough_data t (pr_file_data m)))"

lemma pull_rsp_handled:
  assumes "file_inv st" "c \<in> freg st" "enough_for c m st"
  shows "\<exists>st'. HandleClientFilePullFileRsp now c seq m st = Some st' \<and> handled c st st'"
proof (cases "fc_auth (fconns st c) \<and> fc_task (fconns st c) \<noteq> None")
  case True
  then obtain p where p: "fc_task (fconns st c) = Some p" by auto
  obtain t where t: "tasks st p = Some t" by (rule member_task [OF assms(1,2) p])
  have "enough_data t (pr_file_data m)" using assms(3) p t by (simp add: enough_for_def)
  then have "\<exists>rv s1. (if pr_user_id m \<noteq> fc_user_id (fconns st c) then Some (-1, st)
      else if task_id t \<noteq> pr_task_id m then Some (-1, st)
      else data_response now c seq m p st) = Some (rv, s1) \<and> steady st s1"
    using data_response_handled [OF assms(1,2) t, of m now seq] steady_refl [OF assms(1)] by auto
  then show ?thesis
    using True p t close_handled [OF _ assms(2)] steady_handled
    by (auto simp: HandleClientFilePullFileRsp_def)
next
  case False
  then show ?thesis
    using steady_handled [OF steady_refl [OF assms(1)]]
    by (auto simp: HandleClientFilePullFileRsp_def split: option.split)
qed

text \<open>
  A login that the server can hold: the connection is in no task yet, the user's place in the task is
  free, an offline task has nobody connected, and a file found on the disk is the file of the task
  that was asked for.
\<close>

definition polite_login :: "u64 \<Rightarrow> conn \<Rightarrow> file_login_req \<Rightarrow> file_state \<Rightarrow> bool" where
  "polite_login now c m st \<longleftrightarrow> c \<in> freg st \<and> fc_task (fconns st c) = None
     \<and> (case FindByTaskID (fl_task_id m) st of
          Some p \<Rightarrow> (case tasks st p of None \<Rightarrow> True | Some t \<Rightarrow> slot_free (fl_user_id m) t)
        | None \<Rightarrow> (case LoadFromDisk now (fl_task_id m) (fdisk st) of None \<Rightarrow> True
            | Some t \<Rightarrow> task_id t = fl_task_id m \<and> from_user_id t \<noteq> to_user_id t))"

lemma LoadFromDisk_conns:
  "LoadFromDisk now tid d = Some t \<Longrightarrow> from_conn t = None \<and> to_conn t = None
    \<and> t_state t \<noteq> kTransferTaskStateTransferDone"
  by (auto simp: LoadFromDisk_def fread_simp NewTask_def set_state_def split: option.splits if_splits)

lemma find_or_load_safe:
  assumes inv: "file_inv st" and polite: "polite_login now c m st" and eq: "find_or_load now m st = (found, s1)"
  shows "steady st s1" and "fconns s1 = fconns st"
    and "\<And>p. found = Some p \<Longrightarrow> \<exists>t. tasks s1 p = Some t \<and> slot_free (fl_user_id m) t"
proof -
  have "steady st s1 \<and> fconns s1 = fconns st
    \<and> (\<forall>p. found = Some p \<longrightarrow> (\<exists>t. tasks s1 p = Some t \<and> slot_free (fl_user_id m) t))"
  proof (cases "FindByTaskID (fl_task_id m) st")
    case (Some p)
    then have "map_option task_id (tasks st p) = Some (fl_task_id m)"
      using inv by (simp add: file_inv_def table_inv_def FindByTaskID_def)
    then show ?thesis using eq polite Some steady_refl [OF inv]
      by (auto simp: find_or_load_def polite_login_def)
  next
    case None
    show ?thesis
    proof (cases "fl_file_role m = CLIENT_OFFLINE_DOWNLOAD \<and> LoadFromDisk now (fl_task_id m) (fdisk st) \<noteq> None")
      case True
      then obtain t where t: "LoadFromDisk now (fl_task_id m) (fdisk st) = Some t" by auto
      have conns: "from_conn t = None" "to_conn t = None" "t_state t \<noteq> kTransferTaskStateTransferDone"
        using LoadFromDisk_conns [OF t] by simp_all
      have s1: "found = Some (next_task st)" "s1 = snd (add_task (fl_task_id m) t st)"
        using eq None True t
        by (auto simp: find_or_load_def NewTransferTaskFromDisk_def add_task_def)
      have "file_inv s1" unfolding s1(2)
        by (rule file_inv_add_task [OF inv None]) (use polite None t conns in \<open>simp_all add: polite_login_def\<close>)
      then have "steady st s1" by (simp add: steady_def s1(2) add_task_def freg_def)
      then show ?thesis using s1 conns by (simp add: add_task_def slot_free_def GetConnByUserID_def)
    next
      case False
      then have "found = None" "s1 = st"
        using eq None by (auto simp: find_or_load_def NewTransferTaskFromDisk_def split: if_splits option.splits)
      then show ?thesis using steady_refl [OF inv] by simp
    qed
  qed
  then show "steady st s1" "fconns s1 = fconns st"
    "\<And>p. found = Some p \<Longrightarrow> \<exists>t. tasks s1 p = Some t \<and> slot_free (fl_user_id m) t" by simp_all
qed

lemma role_user:
  "CheckByUserIDAndFileRole u r t \<Longrightarrow> u = from_user_id t \<or> u = to_user_id t"
  by (auto simp: CheckByUserIDAndFileRole_def Online_CheckByUserIDAndFileRole_def
      Offline_CheckByUserIDAndFileRole_def CheckFromUserID_def CheckToUserID_def
      split: task_class.splits if_splits)

lemma enter_task_safe:
  assumes inv: "file_inv st" and c: "c \<in> freg st" "fc_task (fconns st c) = None"
    and t: "tasks st p = Some t" "slot_free (fl_user_id m) t"
  shows "\<exists>rv s1 t1. enter_task now m c p st = Some (rv, s1) \<and> steady st s1 \<and> tasks s1 p = Some t1"
proof -
  let ?u = "fl_user_id m"
  obtain rv t1 where chg: "ChangePullState now ?u (fl_file_role m) t = (rv, t1)"
    by (cases "ChangePullState now ?u (fl_file_role m) t")
  have same: "links t1 = links t" using links_ChangePullState [of now ?u "fl_file_role m" t] chg by simp
  show ?thesis
  proof (cases rv)
    case False
    then have "enter_task now m c p st = Some (False, set_task p t1 st)"
      using t(1) chg by (simp add: enter_task_def)
    then show ?thesis using set_task_steady [OF inv t(1) same]
      by (intro exI [of _ False] exI [of _ "set_task p t1 st"]) (simp add: set_task_def)
  next
    case True
    have "?u = from_user_id t \<or> ?u = to_user_id t"
      using ChangePullState_fst [of now ?u "fl_file_role m" t] chg True by (intro role_user) simp
    then have "file_inv (joined c p ?u t1 st)" by (rule file_inv_joined [OF inv c t(1) same _ t(2)])
    then have "steady st (joined c p ?u t1 st)"
      by (simp add: steady_def joined_def set_task_def upd_fconn_def freg_def)
    moreover have "enter_task now m c p st = Some (True, joined c p ?u t1 st)"
      using t(1) chg True by (simp add: enter_task_def joined_def)
    moreover have "tasks (joined c p ?u t1 st) p = Some (SetConnByUserID ?u (Some c) t1)"
      by (simp add: joined_def set_task_def)
    ultimately show ?thesis by blast
  qed
qed

lemma login_notify_handled:
  assumes "file_inv st" "c \<in> freg st" "tasks st p = Some t"
  shows "\<exists>st'. login_notify c m p st = Some st' \<and> handled c st st'"
proof -
  have notify: "\<exists>st'. StatesNotify s tid u d st = Some st' \<and> handled c st st'"
    if "to_conn t = Some d" for d s tid u
    using send_steady [OF assms(1) task_conn_alive(1) [OF assms(1,3), of d]] that steady_handled
    unfolding StatesNotify_def by blast
  have send: "\<exists>st'. fsend x c st = Some st' \<and> handled c st st'" for x
    using send_steady [OF assms(1,2)] steady_handled by blast
  have close: "\<exists>st'. FileClose c st = Some st' \<and> handled c st st'"
    by (rule close_handled [OF steady_refl [OF assms(1)] assms(2)])
  show ?thesis
    using assms(3) notify send close steady_handled [OF steady_refl [OF assms(1)]]
    by (auto simp: login_notify_def split: option.split)
qed

lemma handled_steady: "steady st s1 \<Longrightarrow> handled c s1 st' \<Longrightarrow> handled c st st'"
  by (auto simp: handled_def steady_def)

lemma login_handled:
  assumes inv: "file_inv st" and polite: "polite_login now c m st"
  shows "\<exists>st'. HandleClientFileloginReq now c seq m st = Some st' \<and> handled c st st'"
proof -
  have c: "c \<in> freg st" "fc_task (fconns st c) = None" using polite by (simp_all add: polite_login_def)
  obtain found s1 where f: "find_or_load now m st = (found, s1)" by (cases "find_or_load now m st")
  note fl = find_or_load_safe [OF inv polite f]
  have s1: "file_inv s1" "c \<in> freg s1" "fc_task (fconns s1 c) = None"
    using fl(1,2) c by (simp_all add: steady_def)
  have "\<exists>rv s2. (case found of None \<Rightarrow> Some (False, s1) | Some p \<Rightarrow> enter_task now m c p s1) = Some (rv, s2)
      \<and> steady s1 s2 \<and> (\<forall>p. found = Some p \<longrightarrow> tasks s2 p \<noteq> None)"
  proof (cases found)
    case None
    then show ?thesis using steady_refl [OF s1(1)] by auto
  next
    case (Some p)
    then show ?thesis using fl(3) enter_task_safe [OF s1] by fastforce
  qed
  then obtain rv s2 where s2: "(case found of None \<Rightarrow> Some (False, s1) | Some p \<Rightarrow> enter_task now m c p s1) = Some (rv, s2)"
      "steady s1 s2" "\<And>p. found = Some p \<Longrightarrow> tasks s2 p \<noteq> None" by blast
  let ?msg = "FLoginRes seq (if rv then 0 else 1) (fl_task_id m)"
  have inv2: "file_inv s2" "c \<in> freg s2" using s2(2) s1 by (simp_all add: steady_def)
  obtain s3 where s3: "fsend ?msg c s2 = Some s3" "same_links s2 s3"
    by (rule fsend_alive [OF inv2])
  have st3: "steady st s3"
    using fl(1) s2(2) steady_links [OF inv2(1) s3(2)] steady_trans by blast
  have inv3: "file_inv s3" "c \<in> freg s3" using st3 c by (simp_all add: steady_def)
  have head: "HandleClientFileloginReq now c seq m st =
      (case found of Some p \<Rightarrow> if rv then login_notify c m p s3 else FileClose c s3 | None \<Rightarrow> FileClose c s3)"
    using f s2(1) s3(1) by (simp add: HandleClientFileloginReq_def)
  have close: "\<exists>st'. FileClose c s3 = Some st' \<and> handled c st st'" by (rule close_handled [OF st3 c(1)])
  show ?thesis
  proof (cases found)
    case (Some p)
    obtain t where "tasks s2 p = Some t" using s2(3) Some by auto
    then obtain t3 where "tasks s3 p = Some t3" by (rule links_task [OF same_links_sym [OF s3(2)]])
    then have "\<exists>st'. login_notify c m p s3 = Some st' \<and> handled c st st'"
      using login_notify_handled [OF inv3] handled_steady [OF st3] by blast
    then show ?thesis unfolding head using close Some by simp
  qed (use close head in simp)
qed

subsection \<open>Callbacks and the event loop\<close>

text \<open>What a client must not send: a second login, and data shorter than was asked for.\<close>

definition polite_pdu :: "file_pb \<Rightarrow> u64 \<Rightarrow> conn \<Rightarrow> in_pdu \<Rightarrow> file_state \<Rightarrow> bool" where
  "polite_pdu pb now c p st \<longleftrightarrow>
     (if in_cid p = CID_FILE_LOGIN_REQ
      then (case pb_login pb (in_body p) of None \<Rightarrow> True | Some m \<Rightarrow> polite_login now c m st)
      else if in_cid p = CID_FILE_PULL_DATA_RSP
      then (case pb_pull_rsp pb (in_body p) of None \<Rightarrow> True | Some m \<Rightarrow> enough_for c m st)
      else True)"

text \<open>The connection is registered, or was closed earlier in the same callback.\<close>

definition in_callback :: "conn \<Rightarrow> file_state \<Rightarrow> bool" where
  "in_callback c st \<longleftrightarrow> file_inv st \<and> c \<notin> fdead st
     \<and> (c \<in> freg st \<or> c \<in> fclosed st \<and> \<not> fc_auth (fconns st c))"

lemma handled_in_callback:
  assumes "in_callback c st" "handled c st st'" "c \<in> freg st"
  shows "in_callback c st'"
  using assms by (auto simp: in_callback_def handled_def steady_def)

lemma handled_refl: "file_inv st \<Longrightarrow> handled c st st"
  by (simp add: handled_def steady_refl)

lemma registered_pdu:
  assumes "file_inv st" "c \<in> freg st" "polite_pdu pb now c p st"
  shows "\<exists>st'. FileHandlePdu pb now c p st = Some st' \<and> handled c st st'"
proof -
  have heart: "\<exists>st'. fsend FHeartBeat c st = Some st' \<and> handled c st st'"
    using send_steady [OF assms(1,2)] steady_handled by blast
  have login: "\<exists>st'. on_parsed (pb_login pb b) (HandleClientFileloginReq now c q) st = Some st' \<and> handled c st st'"
    if "in_cid p = CID_FILE_LOGIN_REQ" "b = in_body p" for b q
    using assms that login_handled [OF assms(1)] handled_refl [OF assms(1)]
    by (auto simp: on_parsed_def polite_pdu_def split: option.splits)
  have rsp: "\<exists>st'. on_parsed (pb_pull_rsp pb b) (HandleClientFilePullFileRsp now c q) st = Some st' \<and> handled c st st'"
    if "in_cid p = CID_FILE_PULL_DATA_RSP" "b = in_body p" for b q
  proof -
    have "CID_FILE_PULL_DATA_RSP \<noteq> CID_FILE_LOGIN_REQ" by (simp add: const_defs)
    then show ?thesis using assms that pull_rsp_handled [OF assms(1,2)] handled_refl [OF assms(1)]
      by (auto simp: on_parsed_def polite_pdu_def split: option.splits)
  qed
  have state: "\<exists>st'. on_parsed m (HandleClientFileStates c) st = Some st' \<and> handled c st st'" for m
    using states_handled [OF assms(1,2)] handled_refl [OF assms(1)] by (cases m) (simp_all add: on_parsed_def)
  have req: "\<exists>st'. on_parsed m (HandleClientFilePullFileReq now c q) st = Some st' \<and> handled c st st'" for m q
    using pull_req_handled [OF assms(1,2)] handled_refl [OF assms(1)] by (cases m) (simp_all add: on_parsed_def)
  show ?thesis
    unfolding FileHandlePdu_def Let_def
    using heart login rsp state req handled_refl [OF assms(1)] by (simp split: if_split)
qed

lemma closed_pdu:
  assumes "in_callback c st" "c \<notin> freg st" "polite_pdu pb now c p st"
  shows "\<exists>st'. FileHandlePdu pb now c p st = Some st' \<and> in_callback c st'"
proof -
  have auth: "\<not> fc_auth (fconns st c)" and closed: "c \<in> fclosed st" and dead: "c \<notin> fdead st"
    and inv: "file_inv st"
    using assms by (auto simp: in_callback_def)
  have "in_callback c (upd_fconn c (\<lambda>x. x\<lparr>fc_out := fc_out x @ [m]\<rparr>) st)" for m
  proof -
    have "same_links st (upd_fconn c (\<lambda>x. x\<lparr>fc_out := fc_out x @ [m]\<rparr>) st)"
      by (rule same_links_upd_fconn) simp_all
    then have "file_inv (upd_fconn c (\<lambda>x. x\<lparr>fc_out := fc_out x @ [m]\<rparr>) st)"
      using inv by (rule file_inv_links)
    then show ?thesis using auth closed dead by (simp add: in_callback_def upd_fconn_def)
  qed
  then have heart: "\<exists>st'. fsend FHeartBeat c st = Some st' \<and> in_callback c st'"
    using dead by (simp add: fsend_def)
  have "pb_login pb (in_body p) = None" if "in_cid p = CID_FILE_LOGIN_REQ"
    using assms(2,3) that by (auto simp: polite_pdu_def polite_login_def split: option.splits)
  then show ?thesis
    using heart assms(1) auth
    by (auto simp: FileHandlePdu_def Let_def on_parsed_def HandleClientFileStates_def
        HandleClientFilePullFileReq_def HandleClientFilePullFileRsp_def split: option.split)
qed

fun polite_pdus :: "file_pb \<Rightarrow> u64 \<Rightarrow> conn \<Rightarrow> in_pdu list \<Rightarrow> file_state \<Rightarrow> bool" where
  "polite_pdus pb now c [] st \<longleftrightarrow> True"
| "polite_pdus pb now c (p # ps) st \<longleftrightarrow> polite_pdu pb now c p st
     \<and> (case FileHandlePdu pb now c p st of None \<Rightarrow> True | Some st' \<Rightarrow> polite_pdus pb now c ps st')"

lemma handle_pdus_safe:
  "in_callback c st \<Longrightarrow> polite_pdus pb now c ps st \<Longrightarrow>
    \<exists>st'. handle_pdus pb now c ps st = Some st' \<and> in_callback c st'"
proof (induction ps arbitrary: st)
  case (Cons p ps)
  have "\<exists>st'. FileHandlePdu pb now c p st = Some st' \<and> in_callback c st'"
  proof (cases "c \<in> freg st")
    case True
    have "file_inv st" using Cons.prems(1) by (simp add: in_callback_def)
    moreover have "polite_pdu pb now c p st" using Cons.prems(2) by simp
    ultimately obtain st' where "FileHandlePdu pb now c p st = Some st'" "handled c st st'"
      using registered_pdu [OF _ True] by blast
    then show ?thesis using handled_in_callback [OF Cons.prems(1) _ True] by blast
  next
    case False
    then show ?thesis using closed_pdu [OF Cons.prems(1) False] Cons.prems(2) by simp
  qed
  then obtain s1 where "FileHandlePdu pb now c p st = Some s1" "in_callback c s1" by blast
  then show ?case using Cons.IH [of s1] Cons.prems(2) by simp
qed simp

lemma file_inv_reap: "file_inv st \<Longrightarrow> file_inv (reap st)"
  unfolding file_inv_def
  by (auto simp: reap_def map_inv_def table_inv_def conn_inv_def task_inv_def member_of_def freg_def)

lemma freg_reap [simp]: "freg (reap st) = freg st"
  by (simp add: reap_def freg_def)

lemma timer_conn_safe:
  assumes "file_inv st" "c \<in> freg st"
  shows "\<exists>st'. FileOnTimer now c st = Some st' \<and> file_inv (reap st') \<and> freg st - {c} \<subseteq> freg (reap st')"
proof -
  have close: "\<exists>st'. FileClose c st = Some st' \<and> file_inv (reap st') \<and> freg st - {c} \<subseteq> freg (reap st')"
    using close_handled [OF steady_refl [OF assms(1)] assms(2)] file_inv_reap
    by (auto simp: handled_def steady_def)
  have stay: "file_inv (reap st)" using assms(1) by (rule file_inv_reap)
  have "\<exists>b. (case fc_task (fconns st c) of None \<Rightarrow> Some False
       | Some p \<Rightarrow> do { t \<leftarrow> tasks st p;
           Some (GetTransMode t = FILE_TYPE_ONLINE \<and> t_state t = kTransferTaskStateInvalid)}) = Some b"
  proof (cases "fc_task (fconns st c)")
    case (Some p)
    obtain t where "tasks st p = Some t" by (rule member_task [OF assms Some])
    then show ?thesis using Some by simp
  qed auto
  then show ?thesis using close stay by (auto simp: FileOnTimer_def)
qed

lemma timer_conns_safe:
  "file_inv st \<Longrightarrow> set (map snd xs) \<subseteq> freg st \<Longrightarrow> distinct (map snd xs) \<Longrightarrow>
    \<exists>st'. fold (\<lambda>(h, c) st. Option.bind st (\<lambda>st. map_option reap (FileOnTimer now c st))) xs (Some st) = Some st'
      \<and> file_inv st'"
proof (induction xs arbitrary: st)
  case (Cons x xs)
  obtain h c where x: "x = (h, c)" by (cases x)
  obtain s1 where s1: "FileOnTimer now c st = Some s1" "file_inv (reap s1)" "freg st - {c} \<subseteq> freg (reap s1)"
    using timer_conn_safe [of st c now] Cons.prems x by auto
  have "set (map snd xs) \<subseteq> freg (reap s1)" using s1(3) Cons.prems(2,3) x by auto
  then show ?case using Cons.IH [OF s1(2)] Cons.prems(3) s1(1) x by simp
qed simp

lemma distinct_registered: "file_inv st \<Longrightarrow> distinct (map snd (g_file_client_conn_map st))"
proof -
  assume "file_inv st"
  then have ok: "distinct (map fst (g_file_client_conn_map st))"
    and key: "\<forall>(h, c) \<in> set (g_file_client_conn_map st). fc_handle (fconns st c) = h"
    by (auto simp: file_inv_def map_inv_def cm_ok_def)
  have "distinct (map fst m) \<Longrightarrow> \<forall>(h, c) \<in> set m. fc_handle (fconns st c) = h \<Longrightarrow> distinct (map snd m)"
    for m :: conn_map
    by (induction m) force+
  then show ?thesis using ok key by blast
qed

text \<open>No task is ever in the state that the task timer removes.\<close>

lemma task_timer_idle:
  assumes "file_inv st"
  shows "TaskManagerOnTimer now st = Some st"
proof -
  have entry: "task_timer_entry now e st = Some st" if e: "e \<in> set (transfer_tasks st)" for e
  proof -
    obtain tid p where e': "e = (tid, p)" by (cases e)
    have "map_of (transfer_tasks st) tid = Some p"
      using assms e e' by (auto simp: file_inv_def table_inv_def cm_ok_def)
    then obtain t where "tasks st p = Some t" using assms by (auto simp: file_inv_def table_inv_def)
    then show ?thesis using file_inv_task [OF assms] e' by (simp add: task_timer_entry_def task_inv_def)
  qed
  have "fold (\<lambda>e st. Option.bind st (task_timer_entry now e)) xs (Some st) = Some st"
    if "set xs \<subseteq> set (transfer_tasks st)" for xs
    using that by (induction xs) (simp_all add: entry)
  then show ?thesis by (simp add: TaskManagerOnTimer_def)
qed

text \<open>
  One callback of the event loop: a client connects, sends PDUs, its socket closes, one of the two
  timers fires, a message server asks for a task (with the result of \<open>GenerateUUID\<close>).
\<close>

datatype file_event =
    FConnect u64 conn handle
  | FRead u64 conn "in_pdu list"
  | FClosed conn
  | FConnTimer u64
  | FTaskTimer u64
  | FTransferReq u64 bytes conn u16 file_transfer_req

fun run_file_event :: "file_pb \<Rightarrow> file_event \<Rightarrow> file_state \<Rightarrow> file_state option" where
  "run_file_event pb (FConnect tick c h) st = Some (FileOnConnect tick c h st)"
| "run_file_event pb (FRead now c ps) st = FileRead pb now c ps st"
| "run_file_event pb (FClosed c) st = FileOnClose c st"
| "run_file_event pb (FConnTimer now) st = FileClientConnTimerCallback now st"
| "run_file_event pb (FTaskTimer now) st = TaskManagerOnTimer now st"
| "run_file_event pb (FTransferReq now tid c seq m) st = Some (HandleMsgFileTransferReq now tid c seq m st)"

text \<open>A new connection has an address and a handle that nothing uses; callbacks come for registered ones.\<close>

fun file_env :: "file_pb \<Rightarrow> file_event \<Rightarrow> file_state \<Rightarrow> bool" where
  "file_env pb (FConnect tick c h) st \<longleftrightarrow> c \<notin> freg st \<and> c \<notin> fdead st \<and> c \<notin> fclosed st
     \<and> map_of (g_file_client_conn_map st) h = None \<and> h \<noteq> NETLIB_INVALID_HANDLE"
| "file_env pb (FRead now c ps) st \<longleftrightarrow> c \<in> freg st"
| "file_env pb (FClosed c) st \<longleftrightarrow> c \<in> freg st"
| "file_env pb (FConnTimer now) st \<longleftrightarrow> True"
| "file_env pb (FTaskTimer now) st \<longleftrightarrow> True"
| "file_env pb (FTransferReq now tid c seq m) st \<longleftrightarrow> True"

fun polite_event :: "file_pb \<Rightarrow> file_event \<Rightarrow> file_state \<Rightarrow> bool" where
  "polite_event pb (FRead now c ps) st \<longleftrightarrow>
     polite_pdus pb now c ps (upd_fconn c (\<lambda>x. x\<lparr>fc_last_recv_tick := now\<rparr>) st)"
| "polite_event pb (FTransferReq now tid c seq m) st \<longleftrightarrow> tr_from_user_id m \<noteq> tr_to_user_id m"
| "polite_event pb _ st \<longleftrightarrow> True"

inductive file_reach :: "file_pb \<Rightarrow> file_state \<Rightarrow> bool" for pb where
  start: "g_file_client_conn_map st = [] \<Longrightarrow> transfer_tasks st = [] \<Longrightarrow> tasks st = (\<lambda>_. None) \<Longrightarrow>
    file_reach pb st"
| step: "file_reach pb st \<Longrightarrow> file_env pb e st \<Longrightarrow> polite_event pb e st \<Longrightarrow>
    run_file_event pb e st = Some st' \<Longrightarrow> file_reach pb st'"

lemma file_inv_connect:
  assumes inv: "file_inv st" and new: "file_env pb (FConnect tick c h) st"
  shows "file_inv (FileOnConnect tick c h st)"
proof -
  let ?st = "FileOnConnect tick c h st"
  have map: "g_file_client_conn_map ?st = (h, c) # g_file_client_conn_map st"
    using new by (simp add: FileOnConnect_def cm_insert_def)
  have reg: "freg ?st = insert c (freg st)" using map by (auto simp: freg_def)
  have conns: "fconns ?st = (fconns st)(c := (FileClientConn tick)\<lparr>fc_handle := h\<rparr>)" by (simp add: FileOnConnect_def)
  have c: "c \<notin> freg st" using new by simp
  have same: "tasks ?st = tasks st" "fdead ?st = fdead st" "fclosed ?st = fclosed st"
      "transfer_tasks ?st = transfer_tasks st" "next_task ?st = next_task st"
    by (simp_all add: FileOnConnect_def)
  have notin: "(k, d) \<in> set (g_file_client_conn_map st) \<Longrightarrow> d \<noteq> c" for k d
    using c by (force simp: freg_def)
  have "map_inv ?st"
    using inv new notin unfolding file_inv_def map_inv_def map conns
    by (auto simp: cm_ok_def map_of_eq_None_iff)
  moreover have "table_inv ?st" using inv same by (simp add: file_inv_def table_inv_def)
  moreover have "conn_inv ?st d" if "d \<in> freg ?st" for d
    using that reg new same conns file_inv_conn [OF inv, of d]
    by (cases "d = c") (auto simp: conn_inv_def FileClientConn_def)
  moreover have "task_inv ?st p t" if "tasks ?st p = Some t" for p t
  proof -
    have "task_inv st p t" using file_inv_task [OF inv] that same by simp
    moreover have "member_of ?st d p u" if "member_of st d p u" for d u
      using that c reg conns by (auto simp: member_of_def)
    ultimately show ?thesis by (auto simp: task_inv_def)
  qed
  ultimately show ?thesis by (simp add: file_inv_def)
qed

lemma same_links_fm:
  "same_links st (fm_send m c st)" "same_links st (FileMsgClose c st)"
  by (simp_all add: same_links_def fm_send_def FileMsgClose_def upd_fmconn_def Let_def)

lemma file_inv_transfer_req:
  assumes "file_inv st" "tr_from_user_id m \<noteq> tr_to_user_id m"
  shows "file_inv (HandleMsgFileTransferReq now tid c seq m st)"
proof -
  obtain p s1 where ps: "(if tid = [] then (None, st) else NewTransferTask now (tr_trans_mode m) tid
      (tr_from_user_id m) (tr_to_user_id m) (tr_file_name m) (tr_file_size m) st) = (p, s1)"
    by (cases "if tid = [] then (None, st) else NewTransferTask now (tr_trans_mode m) tid
      (tr_from_user_id m) (tr_to_user_id m) (tr_file_name m) (tr_file_size m) st")
  have new: "file_inv (snd (add_task tid (NewTask cl now tid (tr_from_user_id m) (tr_to_user_id m)
      (tr_file_name m) (tr_file_size m)) st))" if "FindByTaskID tid st = None" for cl
    by (rule file_inv_add_task [OF assms(1) that]) (use assms(2) in \<open>simp_all add: NewTask_def\<close>)
  have "file_inv s1"
    using ps assms(1) new
    by (auto simp: NewTransferTask_def Let_def split: if_splits prod.splits) (metis snd_conv)+
  then have "file_inv (fm_send x c s1)" "file_inv (FileMsgClose c (fm_send x c s1))" for x
    using file_inv_links [OF same_links_fm(1)] file_inv_links [OF same_links_fm(2)] by blast+
  then show ?thesis unfolding HandleMsgFileTransferReq_def ps by (simp add: Let_def)
qed

lemma file_event_safe:
  assumes inv: "file_inv st" and env: "file_env pb e st" and polite: "polite_event pb e st"
  shows "\<exists>st'. run_file_event pb e st = Some st' \<and> file_inv st'"
proof (cases e)
  case (FConnect tick c h)
  then show ?thesis using file_inv_connect [OF inv] env by simp
next
  case (FRead now c ps)
  let ?s = "upd_fconn c (\<lambda>x. x\<lparr>fc_last_recv_tick := now\<rparr>) st"
  have c: "c \<in> freg st" using env FRead by simp
  have "steady st ?s" by (rule steady_links [OF inv same_links_upd_fconn]) simp_all
  then have "in_callback c ?s"
    using file_inv_conn [OF inv c] c by (simp add: in_callback_def steady_def conn_inv_def)
  then have "\<exists>st'. handle_pdus pb now c ps ?s = Some st' \<and> in_callback c st'"
    using polite FRead by (intro handle_pdus_safe) simp_all
  then show ?thesis using FRead file_inv_reap by (auto simp: FileRead_def in_callback_def)
next
  case (FClosed c)
  have "c \<in> freg st" using env FClosed by simp
  then obtain st' where "FileClose c st = Some st'" "file_inv st'"
    using FileClose_safe [OF inv] by blast
  then show ?thesis using FClosed file_inv_reap by (simp add: FileOnClose_def)
next
  case (FConnTimer now)
  then show ?thesis
    using timer_conns_safe [OF inv _ distinct_registered [OF inv], of now]
    by (simp add: FileClientConnTimerCallback_def freg_def)
next
  case (FTaskTimer now)
  then show ?thesis using task_timer_idle [OF inv] inv by simp
next
  case (FTransferReq now tid c seq m)
  then show ?thesis using file_inv_transfer_req [OF inv] polite by simp
qed

lemma file_reach_inv: "file_reach pb st \<Longrightarrow> file_inv st"
proof (induction rule: file_reach.induct)
  case (start st)
  then show ?case
    by (simp add: file_inv_def map_inv_def table_inv_def freg_def cm_ok_def)
next
  case (step st e st')
  then show ?case using file_event_safe [of st pb e] by auto
qed

fun run_file_events :: "file_pb \<Rightarrow> file_event list \<Rightarrow> file_state \<Rightarrow> file_state option" where
  "run_file_events pb [] st = Some st"
| "run_file_events pb (e # es) st = do { st \<leftarrow> run_file_event pb e st; run_file_events pb es st }"

text \<open>Parsers and a first state for the examples: the first byte is the user, then the role or the data.\<close>

definition example_file_pb :: file_pb where
  "example_file_pb = \<lparr>
     pb_login = (\<lambda>b. case b of [u, r] \<Rightarrow> Some \<lparr>fl_user_id = ucast u, fl_task_id = [97, 98], fl_file_role = ucast r\<rparr>
                    | _ \<Rightarrow> None),
     pb_state = (\<lambda>b. None), pb_pull_req = (\<lambda>b. None),
     pb_pull_rsp = (\<lambda>b. case b of u # data \<Rightarrow> Some \<lparr>pr_result_code = 0, pr_task_id = [97, 98],
                    pr_user_id = ucast u, pr_offset = 0, pr_file_data = data\<rparr> | _ \<Rightarrow> None)\<rparr>"

definition start_file_state :: file_state where
  "start_file_state = \<lparr>fconns = (\<lambda>_. FileClientConn 0), fclosed = {}, fdead = {}, g_file_client_conn_map = [],
     tasks = (\<lambda>_. None), next_task = 0, transfer_tasks = [], fdisk = empty_disk,
     fmconns = (\<lambda>_. \<lparr>fm_handle = 3, fm_connected = True, fm_last_recv_tick = 0, fm_out = []\<rparr>),
     g_file_msg_server_conn_map = [(3, 0)]\<rparr>"

definition offline_transfer :: file_transfer_req where
  "offline_transfer = \<lparr>tr_from_user_id = 7, tr_to_user_id = 8, tr_file_name = [], tr_file_size = 3,
     tr_trans_mode = FILE_TYPE_OFFLINE, tr_attach_data = []\<rparr>"

definition login_pdu :: "u8 \<Rightarrow> u8 \<Rightarrow> in_pdu" where
  "login_pdu user role = \<lparr>in_cid = CID_FILE_LOGIN_REQ, in_seq = 0, in_body = [user, role]\<rparr>"

definition upload_login :: "file_event list" where
  "upload_login = [FTransferReq 5 [97, 98] 0 0 offline_transfer, FConnect 5 1 11, FConnect 5 2 12,
     FRead 5 1 [login_pdu 7 3]]"

lemmas file_run_defs = upload_login_def start_file_state_def example_file_pb_def offline_transfer_def login_pdu_def
  FileClientConn_def FileRead_def FileHandlePdu_def on_parsed_def HandleClientFileloginReq_def find_or_load_def
  FindByTaskID_def enter_task_def login_notify_def HandleMsgFileTransferReq_def NewTransferTask_def add_task_def
  cm_insert_def FileOnConnect_def upd_fconn_def set_task_def fsend_def reap_def fm_send_def upd_fmconn_def
  NewTask_def ChangePullState_def Offline_ChangePullState_def Offline_CheckByUserIDAndFileRole_def
  CheckFromUserID_def CheckToUserID_def SetLastUpdateTime_def set_state_def SetConnByUserID_def GetTransMode_def
  Let_def SetMaxSegmentSize_def SEGMENT_SIZE_def const_defs NETLIB_INVALID_HANDLE_def

fun polite_run :: "file_pb \<Rightarrow> file_event list \<Rightarrow> file_state \<Rightarrow> bool" where
  "polite_run pb [] st \<longleftrightarrow> True"
| "polite_run pb (e # es) st \<longleftrightarrow> file_env pb e st \<and> polite_event pb e st
     \<and> (case run_file_event pb e st of None \<Rightarrow> True | Some st' \<Rightarrow> polite_run pb es st')"

definition fresh_file_state :: "file_state \<Rightarrow> bool" where
  "fresh_file_state st \<longleftrightarrow> g_file_client_conn_map st = [] \<and> transfer_tasks st = [] \<and> tasks st = (\<lambda>_. None)"

lemma polite_run_safe:
  "file_inv st \<Longrightarrow> polite_run pb es st \<Longrightarrow> \<exists>st'. run_file_events pb es st = Some st' \<and> file_inv st'"
proof (induction es arbitrary: st)
  case (Cons e es)
  obtain s1 where "run_file_event pb e st = Some s1" "file_inv s1"
    using file_event_safe [OF Cons.prems(1), of pb e] Cons.prems(2) by auto
  then show ?case using Cons.IH [of s1] Cons.prems(2) by simp
qed simp

lemma fresh_inv: "fresh_file_state st \<Longrightarrow> file_inv st"
  using file_reach_inv [OF file_reach.start] by (simp add: fresh_file_state_def)

text \<open>
  C38: when every client logs in once, to a free place of a task, and sends as much data as it was
  asked for, the file server never reads a deleted task or connection and never closes a connection
  twice, whatever else the clients send and in whatever order the callbacks come.
\<close>

theorem file_server_memory_safe:
  assumes "fresh_file_state st" and "polite_run pb es st"
  shows "\<exists>st'. run_file_events pb es st = Some st'"
  using polite_run_safe [OF fresh_inv [OF assms(1)] assms(2)] by blast

definition data_pdu :: "u8 \<Rightarrow> bytes \<Rightarrow> in_pdu" where
  "data_pdu user data = \<lparr>in_cid = CID_FILE_PULL_DATA_RSP, in_seq = 0, in_body = user # data\<rparr>"

lemma file_server_memory_safe_witness:
  "\<exists>st'. run_file_events example_file_pb (upload_login @ [FClosed 2, FConnTimer 9, FClosed 1]) start_file_state = Some st'"
  by (rule file_server_memory_safe)
    (simp_all add: file_run_defs fresh_file_state_def freg_def polite_pdu_def polite_login_def slot_free_def
      GetConnByUserID_def FileOnClose_def FileClose_def leave_task_def cm_erase_def
      FileClientConnTimerCallback_def FileOnTimer_def CLIENT_TIMEOUT_def close_task_state_def
      DeleteTransferTaskByConnClose_def less_eq_TransferTaskState_def)

text \<open>
  A client that logs in to download a file while it is still being uploaded is let in; the end of
  the upload deletes the task under it, and its disconnection reads the deleted task.
\<close>

lemma early_download_reads_deleted_task:
  "\<exists>st. run_file_events example_file_pb
      (upload_login @ [FRead 5 2 [login_pdu 8 4], FRead 6 1 [data_pdu 7 [1, 2, 3]]]) start_file_state = Some st
    \<and> 2 \<in> freg st \<and> run_file_event example_file_pb (FClosed 2) st = None"
  by (simp add: file_run_defs freg_def data_pdu_def HandleClientFilePullFileRsp_def data_response_def
      DoRecvData_def Offline_DoRecvData_def segment_offset_def GetNextSegmentBlockSize_def begin_upload_def
      OpenByWrite_def empty_disk_def store_segment_def StatesNotify_def FileClose_def leave_task_def
      DeleteTransferTaskByConnClose_def delete_task_def cm_erase_def close_task_state_def
      less_eq_TransferTaskState_def FileOnClose_def)

text \<open>
  Tasks are never timed out: in every state that polite clients reach, the task timer finds
  nothing to remove, however late it fires.
\<close>

lemma tasks_never_time_out:
  assumes "fresh_file_state st" and "polite_run pb es st" and "run_file_events pb es st = Some st'"
  shows "TaskManagerOnTimer now st' = Some st'"
  using polite_run_safe [OF fresh_inv [OF assms(1)] assms(2)] assms(3) task_timer_idle by auto

lemma tasks_never_time_out_witness:
  "\<exists>st. run_file_events example_file_pb upload_login start_file_state = Some st
    \<and> tasks st 0 \<noteq> None \<and> TaskManagerOnTimer 1000000 st = Some st"
proof -
  have fresh: "fresh_file_state start_file_state" by (simp add: fresh_file_state_def start_file_state_def)
  have polite: "polite_run example_file_pb upload_login start_file_state"
    by (simp add: file_run_defs freg_def polite_pdu_def polite_login_def slot_free_def GetConnByUserID_def)
  have "\<exists>st. run_file_events example_file_pb upload_login start_file_state = Some st \<and> tasks st 0 \<noteq> None"
    by (simp add: file_run_defs)
  then show ?thesis using tasks_never_time_out [OF fresh polite] by blast
qed

definition online_transfer :: file_transfer_req where
  "online_transfer = offline_transfer\<lparr>tr_trans_mode := FILE_TYPE_ONLINE\<rparr>"

definition request_pb :: file_pb where
  "request_pb = example_file_pb\<lparr>pb_pull_req := (\<lambda>b. Some \<lparr>pq_task_id = [97, 98], pq_user_id = 8,
     pq_trans_mode = FILE_TYPE_ONLINE, pq_offset = 0, pq_data_size = 3\<rparr>)\<rparr>"

text \<open>
  PDUs that arrive together are handled even after one of them closed the connection: a refused
  login followed by a good one puts the closed connection into the task, and the peer's first request
  is sent to the deleted connection.
\<close>

lemma login_after_close_reaches_deleted_connection:
  "\<exists>st. run_file_events request_pb
      [FTransferReq 5 [97, 98] 0 0 online_transfer, FConnect 5 1 11, FConnect 5 2 12,
       FRead 5 1 [login_pdu 9 1, login_pdu 7 1], FRead 5 2 [login_pdu 8 2]] start_file_state = Some st
    \<and> 1 \<in> fdead st \<and> 2 \<in> freg st
    \<and> run_file_event request_pb (FRead 6 2 [\<lparr>in_cid = CID_FILE_PULL_DATA_REQ, in_seq = 4, in_body = []\<rparr>]) st = None"
  by (simp add: file_run_defs online_transfer_def request_pb_def freg_def Online_ChangePullState_def
      Online_CheckByUserIDAndFileRole_def FileClose_def leave_task_def cm_erase_def StatesNotify_def
      HandleClientFilePullFileReq_def pull_request_def DoPullFileRequest_def Online_DoPullFileRequest_def
      may_transfer_def start_transfer_def GetOpponentConn_def fsend_opt_def)

subsection \<open>An online transfer is relayed\<close>

text \<open>Sender \<open>c\<close> and receiver \<open>r\<close> are connected to a running online task.\<close>

definition relaying :: "file_state \<Rightarrow> tptr \<Rightarrow> transfer_task \<Rightarrow> conn \<Rightarrow> conn \<Rightarrow> bool" where
  "relaying st p t c r \<longleftrightarrow> tasks st p = Some t \<and> t_class t = OnlineTransferTask \<and> may_transfer t
     \<and> from_user_id t \<noteq> to_user_id t \<and> from_conn t = Some c \<and> to_conn t = Some r \<and> c \<noteq> r
     \<and> c \<notin> fdead st \<and> r \<notin> fdead st
     \<and> fc_auth (fconns st c) \<and> fc_task (fconns st c) = Some p \<and> fc_user_id (fconns st c) = from_user_id t
     \<and> fc_auth (fconns st r) \<and> fc_task (fconns st r) = Some p \<and> fc_user_id (fconns st r) = to_user_id t"

text \<open>
  C39: the receiver's request reaches the sender unchanged, and the sender's answer reaches the receiver
  unchanged under the sequence number of the request, whatever number the sender used.
\<close>

theorem online_transfer_relayed:
  assumes "relaying st p t c r"
    and "pq_user_id m = to_user_id t" "pq_task_id m = task_id t"
    and "pr_user_id n = from_user_id t" "pr_task_id n = task_id t"
  shows "\<exists>st1 st2. HandleClientFilePullFileReq now r q m st = Some st1
    \<and> HandleClientFilePullFileRsp later c q' n st1 = Some st2
    \<and> fc_out (fconns st2 c) = fc_out (fconns st c) @ [FPullReq q m]
    \<and> fc_out (fconns st2 r) = fc_out (fconns st r) @ [FPullRsp q n]
    \<and> (\<forall>d. d \<noteq> c \<and> d \<noteq> r \<longrightarrow> fconns st2 d = fconns st d)"
proof -
  let ?t1 = "(start_transfer now t)\<lparr>mac_seq_num := ucast q\<rparr>"
  define st1 where "st1 = upd_fconn c (\<lambda>x. x\<lparr>fc_out := fc_out x @ [FPullReq q m]\<rparr>) (set_task p ?t1 st)"
  have t1: "task_id ?t1 = task_id t" "t_class ?t1 = OnlineTransferTask" "may_transfer ?t1"
      "from_user_id ?t1 = from_user_id t" "to_conn ?t1 = Some r" "GetTransMode ?t1 = FILE_TYPE_ONLINE"
    using assms(1) by (auto simp: relaying_def start_transfer_def SetLastUpdateTime_def set_state_def
        may_transfer_def GetTransMode_def)
  have "to_user_id t \<noteq> from_user_id t" using assms(1) by (auto simp: relaying_def)
  then have one: "HandleClientFilePullFileReq now r q m st = Some st1"
    using assms(1-3)
    by (simp add: Let_def HandleClientFilePullFileReq_def relaying_def CheckToUserID_def pull_request_def
        DoPullFileRequest_def Online_DoPullFileRequest_def GetTransMode_def start_transfer_def
        SetLastUpdateTime_def set_state_def GetOpponentConn_def fsend_opt_def fsend_def set_task_def st1_def)
  have q: "(ucast (ucast q :: u32) :: u16) = q"
    by (rule bit_word_eqI) (auto simp: bit_simps)
  define st2 where "st2 = upd_fconn r (\<lambda>x. x\<lparr>fc_out := fc_out x @ [FPullRsp q n]\<rparr>)
      (set_task p (start_transfer later ?t1) st1)"
  have two: "HandleClientFilePullFileRsp later c q' n st1 = Some (st2\<lparr>fdisk := fdisk st1\<rparr>)"
  proof -
    have c1: "fc_auth (fconns st1 c)" "fc_task (fconns st1 c) = Some p" "fc_user_id (fconns st1 c) = from_user_id t"
        "tasks st1 p = Some ?t1" "r \<notin> fdead st1"
      using assms(1) by (simp_all add: relaying_def st1_def upd_fconn_def set_task_def)
    have recv: "DoRecvData later (from_user_id t) (pr_offset n) (pr_file_data n) ?t1 (fdisk st1) =
        Some (0, start_transfer later ?t1, fdisk st1)"
      using t1 by (simp add: DoRecvData_def Online_DoRecvData_def CheckFromUserID_def)
    have t2: "GetTransMode (start_transfer later ?t1) = FILE_TYPE_ONLINE"
        "to_conn (start_transfer later ?t1) = Some r" "mac_seq_num (start_transfer later ?t1) = ucast q"
      using t1 by (simp_all add: start_transfer_def SetLastUpdateTime_def set_state_def GetTransMode_def)
    show ?thesis
      using c1 assms(4,5) recv t1(1) t2 q
      by (simp add: HandleClientFilePullFileRsp_def data_response_def fsend_opt_def fsend_def
          set_task_def upd_fconn_def st2_def)
  qed
  have "c \<noteq> r" using assms(1) by (simp add: relaying_def)
  then show ?thesis using one two
    by (intro exI [of _ st1] exI [of _ "st2\<lparr>fdisk := fdisk st1\<rparr>"])
      (auto simp: st1_def st2_def upd_fconn_def set_task_def)
qed

definition relay_task :: transfer_task where
  "relay_task = (NewTask OnlineTransferTask 5 [97, 98] 7 8 [] 3)\<lparr>t_state := kTransferTaskStateWaitingTransfer,
     from_conn := Some 1, to_conn := Some 2\<rparr>"

definition relay_state :: file_state where
  "relay_state = start_file_state\<lparr>tasks := [0 \<mapsto> relay_task],
     fconns := (\<lambda>c. (FileClientConn 0)\<lparr>fc_auth := True, fc_task := Some 0, fc_user_id := if c = 1 then 7 else 8\<rparr>)\<rparr>"

lemma online_transfer_relayed_witness:
  "\<exists>st1 st2. HandleClientFilePullFileReq 6 2 40
        \<lparr>pq_task_id = [97, 98], pq_user_id = 8, pq_trans_mode = 1, pq_offset = 0, pq_data_size = 3\<rparr> relay_state = Some st1
    \<and> HandleClientFilePullFileRsp 7 1 41
        \<lparr>pr_result_code = 0, pr_task_id = [97, 98], pr_user_id = 7, pr_offset = 0, pr_file_data = [1, 2, 3]\<rparr> st1 = Some st2
    \<and> fc_out (fconns st2 2) = [FPullRsp 40
        \<lparr>pr_result_code = 0, pr_task_id = [97, 98], pr_user_id = 7, pr_offset = 0, pr_file_data = [1, 2, 3]\<rparr>]"
proof -
  have "relaying relay_state 0 relay_task 1 2"
    by (simp add: relaying_def relay_state_def relay_task_def NewTask_def may_transfer_def start_file_state_def)
  from online_transfer_relayed [OF this,
      of "\<lparr>pq_task_id = [97, 98], pq_user_id = 8, pq_trans_mode = 1, pq_offset = 0, pq_data_size = 3\<rparr>"
         "\<lparr>pr_result_code = 0, pr_task_id = [97, 98], pr_user_id = 7, pr_offset = 0, pr_file_data = [1, 2, 3]\<rparr>"
         6 40 7 41]
  show ?thesis by (auto simp: relay_task_def NewTask_def relay_state_def FileClientConn_def)
qed

end
