(* ===== verification/Im_User.thy ===== *)
theory Im_User
  imports Public_Define Conn_Map
begin

text \<open>
  \<open>msg_server/ImUser.cpp\<close>: a logged in user of a message server with its client connections, and
  the manager that finds users by id and by login name. Users live in a heap (\<open>None\<close>: deleted), so
  that a pointer to a deleted user is visible. A connection is the part of \<open>CMsgConn\<close> the users
  read, with the messages sent to the client.
\<close>

type_synonym uptr = nat

record msg_ack_t =
  ack_msg_id :: u32
  ack_from_id :: u32
  ack_timestamp :: u64

text \<open>Messages to a client; \<open>MReply\<close> stands for an answer that is not inspected further.\<close>

datatype client_out =
    MForward in_pdu
  | MKickUser u32 u32
  | MLoginRefused u32 u16
  | MLoginRes u32 u32 u16
  | MLogoutRsp u16
  | MKickPCClientRsp u32 u16

record msg_conn =
  mc_handle :: u32
  mc_login_name :: string
  mc_user_id :: u32
  m_bOpen :: bool
  m_bKickOff :: bool
  m_login_time :: u64
  m_msg_cnt_per_sec :: u32
  m_client_type :: u32
  m_online_status :: u32
  m_send_msg_list :: "msg_ack_t list"
  mc_last_recv_tick :: u64
  mc_out :: "client_out list"

definition CMsgConn :: "u64 \<Rightarrow> msg_conn" where
  "CMsgConn tick = \<lparr>mc_handle = -1, mc_login_name = [], mc_user_id = 0, m_bOpen = False,
     m_bKickOff = False, m_login_time = 0, m_msg_cnt_per_sec = 0, m_client_type = 0,
     m_online_status = USER_STATUS_OFFLINE, m_send_msg_list = [], mc_last_recv_tick = tick,
     mc_out = []\<rparr>"

type_synonym conns = "conn \<Rightarrow> msg_conn"

definition client_send :: "client_out \<Rightarrow> conn \<Rightarrow> conns \<Rightarrow> conns" where
  "client_send m c cs = cs(c := (cs c)\<lparr>mc_out := mc_out (cs c) @ [m]\<rparr>)"

definition AddToSendList :: "u64 \<Rightarrow> u32 \<Rightarrow> u32 \<Rightarrow> conn \<Rightarrow> conns \<Rightarrow> conns" where
  "AddToSendList tick msg_id from_id c cs = cs(c := (cs c)\<lparr>m_send_msg_list := m_send_msg_list (cs c) @
     [\<lparr>ack_msg_id = msg_id, ack_from_id = from_id, ack_timestamp = tick\<rparr>]\<rparr>)"

fun del_ack :: "u32 \<Rightarrow> u32 \<Rightarrow> msg_ack_t list \<Rightarrow> msg_ack_t list" where
  "del_ack msg_id from_id [] = []"
| "del_ack msg_id from_id (msg # it) =
     (if ack_msg_id msg = msg_id \<and> ack_from_id msg = from_id then it
      else msg # del_ack msg_id from_id it)"

definition DelFromSendList :: "u32 \<Rightarrow> u32 \<Rightarrow> conn \<Rightarrow> conns \<Rightarrow> conns" where
  "DelFromSendList msg_id from_id c cs =
     cs(c := (cs c)\<lparr>m_send_msg_list := del_ack msg_id from_id (m_send_msg_list (cs c))\<rparr>)"

subsection \<open>CImUser\<close>

record im_user =
  iu_user_id :: u32
  iu_login_name :: string
  m_pc_login_status :: u32
  m_bValidate :: bool
  m_conn_map :: "(u32 \<times> conn) list"
  m_unvalidate_conn_set :: "conn list"

definition CImUser :: "string \<Rightarrow> im_user" where
  "CImUser user_name = \<lparr>iu_user_id = 0, iu_login_name = user_name,
     m_pc_login_status = USER_STATUS_OFFLINE, m_bValidate = False, m_conn_map = [],
     m_unvalidate_conn_set = []\<rparr>"

definition SetUserId :: "u32 \<Rightarrow> im_user \<Rightarrow> im_user" where "SetUserId i u = u\<lparr>iu_user_id := i\<rparr>"
definition SetValidated :: "im_user \<Rightarrow> im_user" where "SetValidated u = u\<lparr>m_bValidate := True\<rparr>"
definition IsMsgConnEmpty :: "im_user \<Rightarrow> bool" where "IsMsgConnEmpty u \<longleftrightarrow> m_conn_map u = []"
definition AddMsgConn :: "u32 \<Rightarrow> conn \<Rightarrow> im_user \<Rightarrow> im_user" where
  "AddMsgConn h c u = u\<lparr>m_conn_map := om_put h c (m_conn_map u)\<rparr>"
definition DelMsgConn :: "u32 \<Rightarrow> im_user \<Rightarrow> im_user" where
  "DelMsgConn h u = u\<lparr>m_conn_map := cm_erase h (m_conn_map u)\<rparr>"

text \<open>The set of pointers in its iteration order, which the allocator decides: a list.\<close>

definition AddUnValidateMsgConn :: "conn \<Rightarrow> im_user \<Rightarrow> im_user" where
  "AddUnValidateMsgConn c u = u\<lparr>m_unvalidate_conn_set := insort_insert c (m_unvalidate_conn_set u)\<rparr>"
definition DelUnValidateMsgConn :: "conn \<Rightarrow> im_user \<Rightarrow> im_user" where
  "DelUnValidateMsgConn c u = u\<lparr>m_unvalidate_conn_set := filter (\<lambda>d. d \<noteq> c) (m_unvalidate_conn_set u)\<rparr>"

fun find_handle :: "u32 \<Rightarrow> conns \<Rightarrow> conn list \<Rightarrow> conn option" where
  "find_handle handle cs [] = None"
| "find_handle handle cs (pConn # it) =
     (if mc_handle (cs pConn) = handle then Some pConn else find_handle handle cs it)"

definition GetUnValidateMsgConn :: "u32 \<Rightarrow> conns \<Rightarrow> im_user \<Rightarrow> conn option" where
  "GetUnValidateMsgConn handle cs u = find_handle handle cs (m_unvalidate_conn_set u)"

definition GetMsgConn :: "u32 \<Rightarrow> im_user \<Rightarrow> conn option" where
  "GetMsgConn handle u = map_of (m_conn_map u) handle"

definition ValidateMsgConn :: "u32 \<Rightarrow> conn \<Rightarrow> im_user \<Rightarrow> im_user" where
  "ValidateMsgConn handle c u = DelUnValidateMsgConn c (AddMsgConn handle c u)"

definition GetUserConn :: "conns \<Rightarrow> im_user \<Rightarrow> u32 \<times> u32" where
  "GetUserConn cs u = (iu_user_id u,
     fold (\<lambda>(h, c) conn_cnt. if m_bOpen (cs c) then conn_cnt + 1 else conn_cnt) (m_conn_map u) 0)"

text \<open>The loops over \<open>m_conn_map\<close> that send to every connection but one.\<close>

definition broadcast_where :: "(msg_conn \<Rightarrow> bool) \<Rightarrow> client_out \<Rightarrow> conn option \<Rightarrow> im_user \<Rightarrow> conns \<Rightarrow> conns" where
  "broadcast_where P m pFromConn u cs =
     fold (\<lambda>(h, c) cs. if Some c \<noteq> pFromConn \<and> P (cs c) then client_send m c cs else cs) (m_conn_map u) cs"

definition BroadcastPdu :: "client_out \<Rightarrow> conn option \<Rightarrow> im_user \<Rightarrow> conns \<Rightarrow> conns" where
  "BroadcastPdu = broadcast_where (\<lambda>_. True)"
definition BroadcastData :: "client_out \<Rightarrow> conn option \<Rightarrow> im_user \<Rightarrow> conns \<Rightarrow> conns" where
  "BroadcastData = broadcast_where (\<lambda>_. True)"
definition BroadcastPduWithOutMobile :: "client_out \<Rightarrow> conn option \<Rightarrow> im_user \<Rightarrow> conns \<Rightarrow> conns" where
  "BroadcastPduWithOutMobile = broadcast_where (\<lambda>c. CHECK_CLIENT_TYPE_PC (m_client_type c))"
definition BroadcastPduToMobile :: "client_out \<Rightarrow> conn option \<Rightarrow> im_user \<Rightarrow> conns \<Rightarrow> conns" where
  "BroadcastPduToMobile = broadcast_where (\<lambda>c. CHECK_CLIENT_TYPE_MOBILE (m_client_type c))"

definition BroadcastClientMsgData :: "u64 \<Rightarrow> client_out \<Rightarrow> u32 \<Rightarrow> conn option \<Rightarrow> u32 \<Rightarrow> im_user \<Rightarrow> conns \<Rightarrow> conns" where
  "BroadcastClientMsgData tick m msg_id pFromConn from_id u cs =
     fold (\<lambda>(h, c) cs. if Some c \<noteq> pFromConn
                        then AddToSendList tick msg_id from_id c (client_send m c cs) else cs) (m_conn_map u) cs"

definition HandleKickUser :: "conn \<Rightarrow> u32 \<Rightarrow> im_user \<Rightarrow> conns \<Rightarrow> conns" where
  "HandleKickUser pConn reason u cs =
     (case map_of (m_conn_map u) (mc_handle (cs pConn)) of
        None \<Rightarrow> cs
      | Some c \<Rightarrow>
          (let cs = client_send (MKickUser (iu_user_id u) reason) c cs
           in cs(c := (cs c)\<lparr>m_bKickOff := True\<rparr>)))"

fun kick_loop :: "u32 \<Rightarrow> u32 \<Rightarrow> conn option \<Rightarrow> im_user \<Rightarrow> (u32 \<times> conn) list \<Rightarrow> conns \<Rightarrow> conns" where
  "kick_loop client_type reason pFromConn u [] cs = cs"
| "kick_loop client_type reason pFromConn u ((h, pMsgConn) # it) cs =
     (if drop_bit 4 (m_client_type (cs pMsgConn) XOR client_type) = 0 \<and> Some pMsgConn \<noteq> pFromConn
      then HandleKickUser pMsgConn reason u cs
      else kick_loop client_type reason pFromConn u it cs)"

definition KickOutSameClientType :: "u32 \<Rightarrow> u32 \<Rightarrow> conn option \<Rightarrow> im_user \<Rightarrow> conns \<Rightarrow> conns" where
  "KickOutSameClientType client_type reason pFromConn u cs =
     kick_loop client_type reason pFromConn u (m_conn_map u) cs"

definition GetClientTypeFlag :: "conns \<Rightarrow> im_user \<Rightarrow> u32" where
  "GetClientTypeFlag cs u =
     fold (\<lambda>(h, c) client_type_flag.
        let client_type = m_client_type (cs c)
        in if CHECK_CLIENT_TYPE_PC client_type then client_type_flag OR CLIENT_TYPE_FLAG_PC
           else if CHECK_CLIENT_TYPE_MOBILE client_type then client_type_flag OR CLIENT_TYPE_FLAG_MOBILE
           else client_type_flag) (m_conn_map u) 0"

subsection \<open>Broadcasts to the connections of a user\<close>

lemma fold_client_send:
  "distinct (map snd xs) \<Longrightarrow>
   fold (\<lambda>(h, c) cs. if Some c \<noteq> from \<and> P (cs c) then client_send m c cs else cs) xs cs d =
   (if d \<in> snd ` set xs \<and> Some d \<noteq> from \<and> P (cs d) then (cs d)\<lparr>mc_out := mc_out (cs d) @ [m]\<rparr> else cs d)"
proof (induction xs arbitrary: cs)
  case (Cons x xs)
  then show ?case by (cases x) (auto simp: client_send_def)
qed simp

lemma broadcast_where_conn:
  "distinct (map snd (m_conn_map u)) \<Longrightarrow> broadcast_where P m from u cs d =
   (if d \<in> snd ` set (m_conn_map u) \<and> Some d \<noteq> from \<and> P (cs d)
    then (cs d)\<lparr>mc_out := mc_out (cs d) @ [m]\<rparr> else cs d)"
  unfolding broadcast_where_def by (rule fold_client_send)

text \<open>A message waits for its acknowledgement once per connection it was sent to.\<close>

lemma del_ack_count:
  "length xs = length (del_ack msg_id from_id xs) +
     (if \<exists>x \<in> set xs. ack_msg_id x = msg_id \<and> ack_from_id x = from_id then 1 else 0)"
  by (induction msg_id from_id xs rule: del_ack.induct) auto

end
