(* ===== verification/Msg_Conn.thy ===== *)
theory Msg_Conn
  imports Im_User Im_Conn "HOL-Library.Monad_Syntax" "HOL-Library.Multiset"
begin

text \<open>
  The life of a client session on a message server: \<open>msg_server/MsgConn.cpp\<close> (connect, login
  request, logout, kick, close), the answer of the database server to a login
  (\<open>CDBServConn::_HandleValidateResponse\<close>) and \<open>CImUserManager\<close> of \<open>ImUser.cpp\<close>. Every handler
  returns \<open>None\<close> when it reads a deleted user or connection. The messages to the login and route
  servers are logged (\<open>send_to_all_login_server\<close>, \<open>send_to_all_route_server\<close>).
\<close>

datatype route_msg = UserStatusUpdate u32 u32 u32 | ServerKickUser u32 u32 u32 | RoutePdu in_pdu

datatype db_msg = DbValidate string u32 | DbPdu in_pdu

record msg_state =
  conns :: conns
  dead :: "conn set"
  users :: "uptr \<Rightarrow> im_user option"
  m_im_user_map :: "(u32 \<times> uptr) list"
  m_im_user_map_by_name :: "string \<Rightarrow> uptr option"
  g_msg_conn_map :: "(u32 \<times> conn) list"
  to_login :: "(u32 \<times> u32) list"
  to_route :: "route_msg list"
  to_db :: "db_msg list"
  to_file :: "in_pdu list"
  to_push :: "in_pdu list"

definition upd_user :: "uptr \<Rightarrow> (im_user \<Rightarrow> im_user) \<Rightarrow> msg_state \<Rightarrow> msg_state option" where
  "upd_user p f st = (case users st p of None \<Rightarrow> None
     | Some u \<Rightarrow> Some (st\<lparr>users := (users st)(p \<mapsto> f u)\<rparr>))"

definition upd_conn :: "conn \<Rightarrow> (msg_conn \<Rightarrow> msg_conn) \<Rightarrow> msg_state \<Rightarrow> msg_state" where
  "upd_conn c f st = st\<lparr>conns := (conns st)(c := f (conns st c))\<rparr>"

definition reply :: "client_out \<Rightarrow> conn \<Rightarrow> msg_state \<Rightarrow> msg_state" where
  "reply m c st = st\<lparr>conns := client_send m c (conns st)\<rparr>"

subsection \<open>CImUserManager\<close>

definition GetImUserById :: "u32 \<Rightarrow> msg_state \<Rightarrow> uptr option" where
  "GetImUserById user_id st = map_of (m_im_user_map st) user_id"
definition GetImUserByloginName :: "string \<Rightarrow> msg_state \<Rightarrow> uptr option" where
  "GetImUserByloginName login_name st = m_im_user_map_by_name st login_name"

definition GetMsgConnByHandle :: "u32 \<Rightarrow> u32 \<Rightarrow> msg_state \<Rightarrow> conn option option" where
  "GetMsgConnByHandle user_id handle st =
     (case GetImUserById user_id st of None \<Rightarrow> Some None
      | Some p \<Rightarrow> do { u \<leftarrow> users st p; Some (GetMsgConn handle u) })"

definition AddImUserByloginName :: "string \<Rightarrow> uptr \<Rightarrow> msg_state \<Rightarrow> msg_state" where
  "AddImUserByloginName login_name p st =
     (if GetImUserByloginName login_name st = None
      then st\<lparr>m_im_user_map_by_name := (m_im_user_map_by_name st)(login_name \<mapsto> p)\<rparr> else st)"
definition RemoveImUserByloginName :: "string \<Rightarrow> msg_state \<Rightarrow> msg_state" where
  "RemoveImUserByloginName login_name st =
     st\<lparr>m_im_user_map_by_name := (m_im_user_map_by_name st)(login_name := None)\<rparr>"
definition AddImUserById :: "u32 \<Rightarrow> uptr \<Rightarrow> msg_state \<Rightarrow> msg_state" where
  "AddImUserById user_id p st =
     (if GetImUserById user_id st = None
      then st\<lparr>m_im_user_map := om_put user_id p (m_im_user_map st)\<rparr> else st)"
definition RemoveImUserById :: "u32 \<Rightarrow> msg_state \<Rightarrow> msg_state" where
  "RemoveImUserById user_id st = st\<lparr>m_im_user_map := cm_erase user_id (m_im_user_map st)\<rparr>"

definition delete_user :: "uptr \<Rightarrow> msg_state \<Rightarrow> msg_state" where
  "delete_user p st = st\<lparr>users := (users st)(p := None)\<rparr>"

definition RemoveImUser :: "uptr \<Rightarrow> msg_state \<Rightarrow> msg_state option" where
  "RemoveImUser p st = do {
     u \<leftarrow> users st p;
     let st = RemoveImUserById (iu_user_id u) st;
     let st = RemoveImUserByloginName (iu_login_name u) st;
     Some (delete_user p st)}"

text \<open>\<open>GetOnlineUserInfo\<close>: user, status and client type of every open connection.\<close>

definition GetOnlineUserInfo :: "msg_state \<Rightarrow> user_stat list" where
  "GetOnlineUserInfo st = concat (map (\<lambda>(i, p). case users st p of None \<Rightarrow> []
     | Some u \<Rightarrow> if m_bValidate u
         then map (\<lambda>(h, c). \<lparr>us_user_id = iu_user_id u, us_status = m_online_status (conns st c),
                             us_client_type = m_client_type (conns st c)\<rparr>)
                (filter (\<lambda>(h, c). m_bOpen (conns st c)) (m_conn_map u))
         else []) (m_im_user_map st))"

definition GetUserConnCnt :: "msg_state \<Rightarrow> (u32 \<times> u32) list \<times> u32" where
  "GetUserConnCnt st =
     fold (\<lambda>(i, p) (user_conn_list, total_conn_cnt).
        case users st p of None \<Rightarrow> (user_conn_list, total_conn_cnt)
        | Some u \<Rightarrow> if m_bValidate u
            then (let user_conn_cnt = GetUserConn (conns st) u
                  in (user_conn_list @ [user_conn_cnt], total_conn_cnt + snd user_conn_cnt))
            else (user_conn_list, total_conn_cnt)) (m_im_user_map st) ([], 0)"

definition user_broadcast :: "client_out \<Rightarrow> u32 \<Rightarrow> im_user \<Rightarrow> conns \<Rightarrow> conns" where
  "user_broadcast m client_type_flag u cs =
     (if client_type_flag = CLIENT_TYPE_FLAG_PC then BroadcastPduWithOutMobile m None u cs
      else if client_type_flag = CLIENT_TYPE_FLAG_MOBILE then BroadcastPduToMobile m None u cs
      else if client_type_flag = CLIENT_TYPE_FLAG_BOTH then BroadcastPdu m None u cs
      else cs)"

definition ManagerBroadcastPdu :: "client_out \<Rightarrow> u32 \<Rightarrow> msg_state \<Rightarrow> msg_state" where
  "ManagerBroadcastPdu m client_type_flag st = st\<lparr>conns :=
     fold (\<lambda>(i, p) cs. case users st p of None \<Rightarrow> cs
        | Some u \<Rightarrow> if m_bValidate u then user_broadcast m client_type_flag u cs else cs)
       (m_im_user_map st) (conns st)\<rparr>"

subsection \<open>CMsgConn\<close>

text \<open>The pointers in the connection map of a user are followed by the loops over it.\<close>

definition conns_alive :: "im_user \<Rightarrow> msg_state \<Rightarrow> bool" where
  "conns_alive u st \<longleftrightarrow> list_all (\<lambda>(h, c). c \<notin> dead st) (m_conn_map u)"

definition KickOut :: "uptr \<Rightarrow> u32 \<Rightarrow> u32 \<Rightarrow> conn option \<Rightarrow> msg_state \<Rightarrow> msg_state option" where
  "KickOut p client_type reason pFromConn st = do {
     u \<leftarrow> users st p;
     if conns_alive u st
     then Some (st\<lparr>conns := KickOutSameClientType client_type reason pFromConn u (conns st)\<rparr>)
     else None}"

definition SendUserStatusUpdate :: "conn \<Rightarrow> u32 \<Rightarrow> msg_state \<Rightarrow> msg_state option" where
  "SendUserStatusUpdate this user_status st =
     (if \<not> m_bOpen (conns st this) then Some st
      else case GetImUserById (mc_user_id (conns st this)) st of
        None \<Rightarrow> Some st
      | Some p \<Rightarrow> do {
          u \<leftarrow> users st p;
          let ct = m_client_type (conns st this);
          if user_status = USER_STATUS_ONLINE then
            Some (st\<lparr>to_login := to_login st @ [(USER_CNT_INC, iu_user_id u)],
                     to_route := to_route st @ [UserStatusUpdate USER_STATUS_ONLINE (iu_user_id u) ct]\<rparr>)
          else if user_status = USER_STATUS_OFFLINE then
            Some (st\<lparr>to_login := to_login st @ [(USER_CNT_DEC, iu_user_id u)],
                     to_route := to_route st @ [UserStatusUpdate USER_STATUS_OFFLINE (iu_user_id u) ct]\<rparr>)
          else Some st})"

text \<open>The two parts of \<open>Close\<close>: leave the user found by id, then the one found by login name.\<close>

definition close_by_id :: "conn \<Rightarrow> msg_state \<Rightarrow> msg_state option" where
  "close_by_id this st =
     (case GetImUserById (mc_user_id (conns st this)) st of
        None \<Rightarrow> Some st
      | Some p \<Rightarrow> do {
          st \<leftarrow> upd_user p (\<lambda>u. DelUnValidateMsgConn this (DelMsgConn (mc_handle (conns st this)) u)) st;
          st \<leftarrow> SendUserStatusUpdate this USER_STATUS_OFFLINE st;
          u \<leftarrow> users st p;
          if IsMsgConnEmpty u then RemoveImUser p st else Some st})"

definition close_by_name :: "conn \<Rightarrow> msg_state \<Rightarrow> msg_state option" where
  "close_by_name this st =
     (case GetImUserByloginName (mc_login_name (conns st this)) st of
        None \<Rightarrow> Some st
      | Some p \<Rightarrow> do {
          st \<leftarrow> upd_user p (DelUnValidateMsgConn this) st;
          u \<leftarrow> users st p;
          if IsMsgConnEmpty u then RemoveImUser p st else Some st})"

definition MsgClose :: "conn \<Rightarrow> msg_state \<Rightarrow> msg_state option" where
  "MsgClose this st = do {
     let h = mc_handle (conns st this);
     let st = (if h \<noteq> -1 then st\<lparr>g_msg_conn_map := cm_erase h (g_msg_conn_map st)\<rparr> else st);
     st \<leftarrow> close_by_id this st;
     st \<leftarrow> close_by_name this st;
     Some (st\<lparr>dead := insert this (dead st)\<rparr>)}"

text \<open>\<open>OnConnect\<close> on a fresh object, whose address may be that of a deleted one.\<close>

definition MsgOnConnect :: "u64 \<Rightarrow> conn \<Rightarrow> u32 \<Rightarrow> msg_state \<Rightarrow> msg_state" where
  "MsgOnConnect tick this handle st =
     st\<lparr>conns := (conns st)(this := (CMsgConn tick)\<lparr>mc_handle := handle, m_login_time := tick\<rparr>),
        dead := dead st - {this},
        g_msg_conn_map := cm_insert handle this (g_msg_conn_map st)\<rparr>"

text \<open>
  The login request: \<open>avail\<close> says whether a database, login and route server is connected, \<open>newp\<close>
  is the address \<open>new CImUser\<close> returns, \<open>req\<close> the parsed message.
\<close>

record login_req =
  lr_user_name :: string
  lr_online_status :: u32
  lr_client_type :: u32

definition refuse_reason :: "bool \<times> bool \<times> bool \<Rightarrow> u32" where
  "refuse_reason = (\<lambda>(db, login, route).
     if \<not> db then REFUSE_REASON_NO_DB_SERVER
     else if \<not> login then REFUSE_REASON_NO_LOGIN_SERVER
     else if \<not> route then REFUSE_REASON_NO_ROUTE_SERVER
     else 0)"

definition note_login :: "login_req \<Rightarrow> conn \<Rightarrow> msg_state \<Rightarrow> msg_state" where
  "note_login m this st =
     (let online_status = lr_online_status m;
          online_status = (if online_status < USER_STATUS_ONLINE \<or> online_status > USER_STATUS_LEAVE
                           then USER_STATUS_ONLINE else online_status)
      in upd_conn this (\<lambda>c. c\<lparr>mc_login_name := lr_user_name m, m_client_type := lr_client_type m,
                               m_online_status := online_status\<rparr>) st)"

definition user_for_login :: "string \<Rightarrow> uptr \<Rightarrow> msg_state \<Rightarrow> uptr \<times> msg_state" where
  "user_for_login login_name newp st =
     (case GetImUserByloginName login_name st of
        Some p \<Rightarrow> (p, st)
      | None \<Rightarrow> (newp, AddImUserByloginName login_name newp
                   (st\<lparr>users := (users st)(newp \<mapsto> CImUser login_name)\<rparr>)))"

definition HandleloginRequest :: "bool \<times> bool \<times> bool \<Rightarrow> uptr \<Rightarrow> u16 \<Rightarrow> login_req option \<Rightarrow> conn
    \<Rightarrow> msg_state \<Rightarrow> msg_state option" where
  "HandleloginRequest avail newp seq req this st =
     (if length (mc_login_name (conns st this)) \<noteq> 0 then Some st
      else if refuse_reason avail \<noteq> 0
      then MsgClose this (reply (MLoginRefused (refuse_reason avail) seq) this st)
      else case req of
        None \<Rightarrow> Some st
      | Some m \<Rightarrow> do {
          let st = note_login m this st;
          let (p, st) = user_for_login (lr_user_name m) newp st;
          st \<leftarrow> upd_user p (AddUnValidateMsgConn this) st;
          Some (st\<lparr>to_db := to_db st @ [DbValidate (lr_user_name m) (mc_handle (conns st this))]\<rparr>)})"

text \<open>\<open>GetUnValidateMsgConn\<close> reads the handle of the connections up to the one it returns.\<close>

fun find_unvalidated :: "u32 \<Rightarrow> msg_state \<Rightarrow> conn list \<Rightarrow> conn option option" where
  "find_unvalidated handle st [] = Some None"
| "find_unvalidated handle st (c # it) =
     (if c \<in> dead st then None
      else if mc_handle (conns st c) = handle then Some (Some c)
      else find_unvalidated handle st it)"

record validate_rsp =
  vr_user_name :: string
  vr_result :: u32
  vr_handle :: u32
  vr_user_id :: u32

text \<open>The user the validated connection belongs to: the one that has the id, or the one that waited.\<close>

definition user_for_id :: "string \<Rightarrow> u32 \<Rightarrow> uptr \<Rightarrow> conn \<Rightarrow> msg_state \<Rightarrow> (uptr \<times> msg_state) option" where
  "user_for_id login_name user_id pImUser pMsgConn st =
     (case GetImUserById user_id st of
        None \<Rightarrow> Some (pImUser, st)
      | Some pUser \<Rightarrow> do {
          st \<leftarrow> upd_user pUser (AddUnValidateMsgConn pMsgConn) st;
          st \<leftarrow> upd_user pImUser (DelUnValidateMsgConn pMsgConn) st;
          u \<leftarrow> users st pImUser;
          Some (pUser, if IsMsgConnEmpty u
            then delete_user pImUser (RemoveImUserByloginName login_name st) else st)})"

definition open_session :: "bool \<Rightarrow> u16 \<Rightarrow> u32 \<Rightarrow> uptr \<Rightarrow> conn \<Rightarrow> msg_state \<Rightarrow> msg_state option" where
  "open_session route_conn seq user_id pUser pMsgConn st = do {
     st \<leftarrow> upd_user pUser (\<lambda>u. SetValidated (SetUserId user_id u)) st;
     let st = AddImUserById user_id pUser st;
     st \<leftarrow> KickOut pUser (m_client_type (conns st pMsgConn)) KICK_REASON_DUPLICATE_USER (Some pMsgConn) st;
     let st = (if route_conn then st\<lparr>to_route := to_route st @
                [ServerKickUser user_id (m_client_type (conns st pMsgConn)) 1]\<rparr> else st);
     let st = upd_conn pMsgConn (\<lambda>c. c\<lparr>mc_user_id := user_id, m_bOpen := True\<rparr>) st;
     st \<leftarrow> SendUserStatusUpdate pMsgConn USER_STATUS_ONLINE st;
     st \<leftarrow> upd_user pUser (ValidateMsgConn (mc_handle (conns st pMsgConn)) pMsgConn) st;
     Some (reply (MLoginRes user_id (m_online_status (conns st pMsgConn)) seq) pMsgConn st)}"

definition HandleValidateResponse :: "bool \<Rightarrow> u16 \<Rightarrow> validate_rsp option \<Rightarrow> msg_state \<Rightarrow> msg_state option" where
  "HandleValidateResponse route_conn seq rsp st =
     (case rsp of None \<Rightarrow> Some st | Some msg \<Rightarrow>
      (case GetImUserByloginName (vr_user_name msg) st of None \<Rightarrow> Some st | Some pImUser \<Rightarrow> do {
        u \<leftarrow> users st pImUser;
        found \<leftarrow> find_unvalidated (vr_handle msg) st (m_unvalidate_conn_set u);
        (case found of None \<Rightarrow> Some st | Some pMsgConn \<Rightarrow>
          if m_bOpen (conns st pMsgConn) then Some st
          else if vr_result msg = 0 then do {
            (pUser, st) \<leftarrow> user_for_id (vr_user_name msg) (vr_user_id msg) pImUser pMsgConn st;
            open_session route_conn seq (vr_user_id msg) pUser pMsgConn st}
          else MsgClose pMsgConn (reply (MLoginRefused REFUSE_REASON_DB_VALIDATE_FAILED seq) pMsgConn st))}))"

text \<open>\<open>ser uid\<close>: the request that stores an empty device token for a user.\<close>

definition HandleloginOutRequest :: "(u32 \<Rightarrow> bytes) \<Rightarrow> bool \<Rightarrow> u16 \<Rightarrow> conn \<Rightarrow> msg_state \<Rightarrow> msg_state option" where
  "HandleloginOutRequest ser db_conn seq this st =
     (let st = (if db_conn then st\<lparr>to_db := to_db st @ [DbPdu \<lparr>in_cid = CID_LOGIN_REQ_DEVICETOKEN, in_seq = seq,
                  in_body = ser (mc_user_id (conns st this))\<rparr>]\<rparr> else st)
      in MsgClose this (reply (MLogoutRsp seq) this st))"

text \<open>\<open>msg\<close> is the parsed body: a request that cannot be parsed is dropped. Its user id is not read.\<close>

definition HandleKickPCClient :: "bool \<Rightarrow> u16 \<Rightarrow> u32 option \<Rightarrow> conn \<Rightarrow> msg_state \<Rightarrow> msg_state option" where
  "HandleKickPCClient route_conn seq msg this st = (if msg = None then Some st else do {
     let user_id = mc_user_id (conns st this);
     if \<not> CHECK_CLIENT_TYPE_MOBILE (m_client_type (conns st this)) then Some st
     else do {
       st \<leftarrow> (case GetImUserById user_id st of None \<Rightarrow> Some st
         | Some p \<Rightarrow> KickOut p CLIENT_TYPE_MAC KICK_REASON_MOBILE_KICK (Some this) st);
       let st = (if route_conn then st\<lparr>to_route := to_route st @
                  [ServerKickUser user_id CLIENT_TYPE_MAC KICK_REASON_MOBILE_KICK]\<rparr> else st);
       Some (reply (MKickPCClientRsp user_id seq) this st)}})"

text \<open>\<open>CRouteServConn::_HandleKickUser\<close>: another message server has seen a login.\<close>

definition HandleServerKickUser :: "u32 \<Rightarrow> u32 \<Rightarrow> u32 \<Rightarrow> msg_state \<Rightarrow> msg_state option" where
  "HandleServerKickUser user_id client_type reason st =
     (case GetImUserById user_id st of None \<Rightarrow> Some st
      | Some p \<Rightarrow> KickOut p client_type reason None st)"

definition TIMEOUT_WATI_logIN_RESPONSE :: u64 where "TIMEOUT_WATI_logIN_RESPONSE = 15000"
definition TIMEOUT_WAITING_MSG_DATA_ACK :: u64 where "TIMEOUT_WAITING_MSG_DATA_ACK = 15000"
definition MOBILE_CLIENT_TIMEOUT :: u64 where "MOBILE_CLIENT_TIMEOUT = 60000 * 5"

definition MsgOnTimer :: "u64 \<Rightarrow> conn \<Rightarrow> msg_state \<Rightarrow> msg_state option" where
  "MsgOnTimer curr_tick this st = do {
     let st = upd_conn this (\<lambda>c. c\<lparr>m_msg_cnt_per_sec := 0\<rparr>) st;
     let c = conns st this;
     if CHECK_CLIENT_TYPE_MOBILE (m_client_type c)
        \<and> curr_tick > mc_last_recv_tick c + MOBILE_CLIENT_TIMEOUT then MsgClose this st
     else if \<not> CHECK_CLIENT_TYPE_MOBILE (m_client_type c)
        \<and> curr_tick > mc_last_recv_tick c + CLIENT_TIMEOUT then MsgClose this st
     else if \<not> m_bOpen c \<and> curr_tick > m_login_time c + TIMEOUT_WATI_logIN_RESPONSE then MsgClose this st
     else Some (upd_conn this (\<lambda>c. c\<lparr>m_send_msg_list :=
       dropWhile (\<lambda>msg. curr_tick \<ge> ack_timestamp msg + TIMEOUT_WAITING_MSG_DATA_ACK) (m_send_msg_list c)\<rparr>) st)}"

text \<open>
  The check at the head of \<open>HandlePdu\<close> (``request authorization check''): true when the PDU is
  rejected.
\<close>

definition not_authorized :: "u16 \<Rightarrow> msg_conn \<Rightarrow> bool" where
  "not_authorized cid c \<longleftrightarrow> cid \<noteq> CID_LOGIN_REQ_USERLOGIN \<and> \<not> m_bOpen c \<and> m_bKickOff c"

subsection \<open>The invariant of the sessions\<close>

text \<open>
  \<open>db\<close> is the id the database has for a login name. While a connection is being closed it may still
  be in a set of waiting connections (\<open>ex\<close>), and its user may have no connection left (\<open>q\<close>).
\<close>

definition user_ok :: "(string \<Rightarrow> u32) \<Rightarrow> conn option \<Rightarrow> uptr option \<Rightarrow> msg_state \<Rightarrow> uptr \<Rightarrow> im_user \<Rightarrow> bool" where
  "user_ok db ex q st p u \<longleftrightarrow>
     m_im_user_map_by_name st (iu_login_name u) = Some p \<and> iu_login_name u \<noteq> [] \<and> om_ok (m_conn_map u) \<and>
     (if iu_user_id u = 0 then \<not> m_bValidate u \<and> m_conn_map u = []
      else m_bValidate u \<and> map_of (m_im_user_map st) (iu_user_id u) = Some p \<and>
           iu_user_id u = db (iu_login_name u) \<and> (q \<noteq> Some p \<longrightarrow> m_conn_map u \<noteq> [])) \<and>
     (\<forall>h c. map_of (m_conn_map u) h = Some c \<longrightarrow> map_of (g_msg_conn_map st) h = Some c \<and>
        m_bOpen (conns st c) \<and> mc_user_id (conns st c) = iu_user_id u) \<and>
     (\<forall>c \<in> set (m_unvalidate_conn_set u). mc_login_name (conns st c) = iu_login_name u \<and>
        (ex = Some c \<or> map_of (g_msg_conn_map st) (mc_handle (conns st c)) = Some c \<and> \<not> m_bOpen (conns st c)))"

definition client_ok :: "msg_state \<Rightarrow> u32 \<Rightarrow> conn \<Rightarrow> bool" where
  "client_ok st h c \<longleftrightarrow> mc_handle (conns st c) = h \<and> h \<noteq> -1 \<and> c \<notin> dead st \<and>
     (if m_bOpen (conns st c)
      then mc_user_id (conns st c) \<noteq> 0 \<and> mc_login_name (conns st c) \<noteq> [] \<and> (\<exists>p u. map_of (m_im_user_map st) (mc_user_id (conns st c)) = Some p \<and>
             users st p = Some u \<and> map_of (m_conn_map u) h = Some c)
      else mc_user_id (conns st c) = 0 \<and> \<not> m_bKickOff (conns st c))"

definition session_inv :: "(string \<Rightarrow> u32) \<Rightarrow> conn option \<Rightarrow> uptr option \<Rightarrow> msg_state \<Rightarrow> bool" where
  "session_inv db ex q st \<longleftrightarrow> om_ok (m_im_user_map st) \<and> cm_ok (g_msg_conn_map st) \<and>
     (\<forall>p u. users st p = Some u \<longrightarrow> user_ok db ex q st p u) \<and>
     (\<forall>n p. m_im_user_map_by_name st n = Some p \<longrightarrow> (\<exists>u. users st p = Some u \<and> iu_login_name u = n)) \<and>
     (\<forall>i p. map_of (m_im_user_map st) i = Some p \<longrightarrow> i \<noteq> 0 \<and> (\<exists>u. users st p = Some u \<and> iu_user_id u = i)) \<and>
     (\<forall>h c. map_of (g_msg_conn_map st) h = Some c \<longrightarrow> client_ok st h c)"

lemma session_invI:
  assumes "om_ok (m_im_user_map st)" "cm_ok (g_msg_conn_map st)"
    "\<And>p u. users st p = Some u \<Longrightarrow> user_ok db ex q st p u"
    "\<And>n p. m_im_user_map_by_name st n = Some p \<Longrightarrow> \<exists>u. users st p = Some u \<and> iu_login_name u = n"
    "\<And>i p. map_of (m_im_user_map st) i = Some p \<Longrightarrow> i \<noteq> 0 \<and> (\<exists>u. users st p = Some u \<and> iu_user_id u = i)"
    "\<And>h c. map_of (g_msg_conn_map st) h = Some c \<Longrightarrow> client_ok st h c"
  shows "session_inv db ex q st"
  using assms by (simp add: session_inv_def)

lemma session_invD:
  assumes "session_inv db ex q st"
  shows "om_ok (m_im_user_map st)" "cm_ok (g_msg_conn_map st)"
    "users st p = Some u \<Longrightarrow> user_ok db ex q st p u"
    "m_im_user_map_by_name st n = Some p \<Longrightarrow> \<exists>u. users st p = Some u \<and> iu_login_name u = n"
    "map_of (m_im_user_map st) i = Some p \<Longrightarrow> i \<noteq> 0 \<and> (\<exists>u. users st p = Some u \<and> iu_user_id u = i)"
    "map_of (g_msg_conn_map st) h = Some c \<Longrightarrow> client_ok st h c"
  using assms by (simp_all add: session_inv_def)

lemma no_user_0: "session_inv db ex q st \<Longrightarrow> map_of (m_im_user_map st) 0 = None"
  using session_invD(5) [of db ex q st 0] by (cases "map_of (m_im_user_map st) 0") auto

text \<open>Two users have different names, and a user has one id.\<close>

lemma user_names: "session_inv db ex q st \<Longrightarrow> users st p = Some u \<Longrightarrow> users st p' = Some u' \<Longrightarrow>
    iu_login_name u = iu_login_name u' \<longleftrightarrow> p = p'"
  using session_invD(3) [of db ex q st p u] session_invD(3) [of db ex q st p' u']
  by (auto simp: user_ok_def)

lemma user_by_id: "session_inv db ex q st \<Longrightarrow> users st p = Some u \<Longrightarrow>
    map_of (m_im_user_map st) i = Some p \<longleftrightarrow> i = iu_user_id u \<and> i \<noteq> 0"
  using session_invD(3) [of db ex q st p u] session_invD(5) [of db ex q st i p]
  by (auto simp: user_ok_def split: if_splits)

lemma emptied_None:
  assumes inv: "session_inv db ex (Some p) st" and u: "users st p = Some u" "\<not> IsMsgConnEmpty u"
  shows "session_inv db ex None st"
proof (rule session_invI)
  fix p' u' assume p': "users st p' = Some u'"
  show "user_ok db ex None st p' u'"
    using session_invD(3) [OF inv p'] u p' by (cases "p' = p") (auto simp: user_ok_def IsMsgConnEmpty_def)
qed (use session_invD [OF inv] in \<open>blast+\<close>)

lemma RemoveImUser_ok:
  assumes inv: "session_inv db ex (Some p) st" and u: "users st p = Some u" and e: "IsMsgConnEmpty u"
  shows "\<exists>st'. RemoveImUser p st = Some st' \<and> session_inv db ex None st' \<and> conns st' = conns st \<and>
     dead st' = dead st \<and> g_msg_conn_map st' = g_msg_conn_map st \<and> to_login st' = to_login st \<and>
     users st' = (users st)(p := None)"
proof -
  define st' where "st' = st\<lparr>m_im_user_map := cm_erase (iu_user_id u) (m_im_user_map st),
     m_im_user_map_by_name := (m_im_user_map_by_name st)(iu_login_name u := None),
     users := (users st)(p := None)\<rparr>"
  have sel: "conns st' = conns st" "dead st' = dead st" "g_msg_conn_map st' = g_msg_conn_map st"
      "users st' = (users st)(p := None)"
      "m_im_user_map_by_name st' = (m_im_user_map_by_name st)(iu_login_name u := None)"
    by (simp_all add: st'_def)
  have r: "RemoveImUser p st = Some st'"
    by (simp add: RemoveImUser_def u RemoveImUserById_def RemoveImUserByloginName_def delete_user_def st'_def)
  have byid: "map_of (m_im_user_map st') i = Some p' \<longleftrightarrow> p' \<noteq> p \<and> map_of (m_im_user_map st) i = Some p'" for i p'
    using user_by_id [OF inv u, of i] user_by_id [OF inv u, of "iu_user_id u"] no_user_0 [OF inv]
    by (auto simp: st'_def map_of_cm_erase)
  have "session_inv db ex None st'"
  proof (rule session_invI)
    show "om_ok (m_im_user_map st')" using om.inv_erase session_invD(1) [OF inv] by (simp add: st'_def)
    show "cm_ok (g_msg_conn_map st')" using session_invD(2) [OF inv] by (simp add: sel)
  next
    fix p' u' assume "users st' p' = Some u'"
    then have p': "users st p' = Some u'" "p' \<noteq> p" by (auto simp: sel split: if_splits)
    then show "user_ok db ex None st' p' u'"
      using session_invD(3) [OF inv p'(1)] user_names [OF inv p'(1) u] by (auto simp: user_ok_def sel byid)
  next
    fix n p' assume "m_im_user_map_by_name st' n = Some p'"
    then have n: "m_im_user_map_by_name st n = Some p'" "n \<noteq> iu_login_name u" by (auto simp: sel split: if_splits)
    then have "p' \<noteq> p" using session_invD(4) [OF inv n(1)] u by auto
    then show "\<exists>u. users st' p' = Some u \<and> iu_login_name u = n" using session_invD(4) [OF inv n(1)] by (simp add: sel)
  next
    fix i p' assume "map_of (m_im_user_map st') i = Some p'"
    then show "i \<noteq> 0 \<and> (\<exists>u. users st' p' = Some u \<and> iu_user_id u = i)"
      using session_invD(5) [OF inv] by (auto simp: sel byid)
  next
    fix h c assume "map_of (g_msg_conn_map st') h = Some c"
    then have "client_ok st h c" using session_invD(6) [OF inv] by (simp add: sel)
    then show "client_ok st' h c"
      using e u by (cases "map_of (m_im_user_map st) (mc_user_id (conns st c)) = Some p")
        (auto simp: client_ok_def sel byid IsMsgConnEmpty_def, blast)
  qed
  then show ?thesis using r by (auto simp: st'_def)
qed

lemma drop_if_empty:
  assumes inv: "session_inv db ex (Some p) st" and u: "users st p = Some u"
  shows "\<exists>st'. (if IsMsgConnEmpty u then RemoveImUser p st else Some st) = Some st' \<and>
     session_inv db ex None st' \<and> conns st' = conns st \<and> dead st' = dead st \<and>
     g_msg_conn_map st' = g_msg_conn_map st \<and> to_login st' = to_login st \<and>
     (\<forall>p' u'. users st' p' = Some u' \<longrightarrow> users st p' = Some u')"
  using RemoveImUser_ok [OF inv u] emptied_None [OF inv u] by (cases "IsMsgConnEmpty u") auto

subsection \<open>Closing a connection\<close>

text \<open>The state after \<open>Close\<close> has taken the connection out of the map of connections.\<close>

definition unmapped :: "conn \<Rightarrow> msg_state \<Rightarrow> msg_state" where
  "unmapped c st = st\<lparr>g_msg_conn_map := cm_erase (mc_handle (conns st c)) (g_msg_conn_map st)\<rparr>"

definition leave_user :: "conn \<Rightarrow> u32 \<Rightarrow> im_user \<Rightarrow> im_user" where
  "leave_user c h u = DelUnValidateMsgConn c (DelMsgConn h u)"

lemma leave_user_sel [simp]:
  "iu_user_id (leave_user c h u) = iu_user_id u" "iu_login_name (leave_user c h u) = iu_login_name u"
  "m_bValidate (leave_user c h u) = m_bValidate u" "m_conn_map (leave_user c h u) = cm_erase h (m_conn_map u)"
  "set (m_unvalidate_conn_set (leave_user c h u)) = set (m_unvalidate_conn_set u) - {c}"
  by (auto simp: leave_user_def DelUnValidateMsgConn_def DelMsgConn_def)

lemma DelUnValidate_sel [simp]:
  "iu_user_id (DelUnValidateMsgConn c u) = iu_user_id u" "iu_login_name (DelUnValidateMsgConn c u) = iu_login_name u"
  "m_bValidate (DelUnValidateMsgConn c u) = m_bValidate u" "m_conn_map (DelUnValidateMsgConn c u) = m_conn_map u"
  "set (m_unvalidate_conn_set (DelUnValidateMsgConn c u)) = set (m_unvalidate_conn_set u) - {c}"
  by (auto simp: DelUnValidateMsgConn_def)

lemma client_unique:
  assumes "session_inv db ex q st" and "map_of (g_msg_conn_map st) h = Some c"
    and "map_of (g_msg_conn_map st) h' = Some c'"
  shows "h = h' \<longleftrightarrow> c = c'"
proof -
  have "mc_handle (conns st c) = h" "mc_handle (conns st c') = h'"
    using session_invD(6) [OF assms(1,2)] session_invD(6) [OF assms(1,3)] by (simp_all add: client_ok_def)
  then show ?thesis using assms(2,3) by (cases "c = c'") auto
qed

text \<open>A connection that is not validated: nothing but the map changes before the second part.\<close>

lemma unmapped_waiting:
  assumes inv: "session_inv db None None st" and c: "map_of (g_msg_conn_map st) h = Some c"
    and n: "\<not> m_bOpen (conns st c)"
  shows "session_inv db (Some c) None (unmapped c st)"
proof -
  have h: "mc_handle (conns st c) = h" using session_invD(6) [OF inv c] by (simp add: client_ok_def)
  note un = unmapped_def h map_of_cm_erase
  show ?thesis
  proof (rule session_invI)
    fix p u assume "users (unmapped c st) p = Some u"
    then have u: "user_ok db None None st p u" using session_invD(3) [OF inv] by (simp add: un)
    have "map_of (m_conn_map u) h' = Some c' \<Longrightarrow> h' \<noteq> h" for h' c'
      using u c n by (auto simp: user_ok_def)
    then show "user_ok db (Some c) None (unmapped c st) p u"
      using u c by (auto simp: user_ok_def un)
  next
    fix h' c' assume "map_of (g_msg_conn_map (unmapped c st)) h' = Some c'"
    then have "map_of (g_msg_conn_map st) h' = Some c'" by (auto simp: un split: if_splits)
    from session_invD(6) [OF inv this] show "client_ok (unmapped c st) h' c'"
      by (auto simp: client_ok_def un)
  qed (use session_invD [OF inv] cm.inv_erase in \<open>auto simp: un\<close>)
qed

text \<open>An open connection leaves its user, who may be left without connections.\<close>

lemma unmapped_open:
  assumes inv: "session_inv db None None st" and c: "map_of (g_msg_conn_map st) h = Some c"
    and o: "m_bOpen (conns st c)" and p: "map_of (m_im_user_map st) (mc_user_id (conns st c)) = Some p"
    and u: "users st p = Some u"
  shows "session_inv db (Some c) (Some p) ((unmapped c st)\<lparr>users := (users st)(p \<mapsto> leave_user c h u)\<rparr>)"
    (is "session_inv db (Some c) (Some p) ?st")
proof -
  have cl: "client_ok st h c" by (rule session_invD(6) [OF inv c])
  then have h: "mc_handle (conns st c) = h" by (simp add: client_ok_def)
  have mem: "map_of (m_conn_map u) h = Some c" using cl o p u by (simp add: client_ok_def)
  have uid: "iu_user_id u = mc_user_id (conns st c)" using session_invD(5) [OF inv p] u by auto
  note un = unmapped_def h map_of_cm_erase
  have u_ok: "user_ok db None None st p u" by (rule session_invD(3) [OF inv u])
  show ?thesis
  proof (rule session_invI)
    fix p' u' assume p': "users ?st p' = Some u'"
    show "user_ok db (Some c) (Some p) ?st p' u'"
    proof (cases "p' = p")
      case True
      then have "u' = leave_user c h u" using p' by simp
      then show ?thesis using u_ok True mem c om.inv_erase [of "m_conn_map u" h]
        by (auto simp: user_ok_def un split: if_splits)
    next
      case False
      then have u': "users st p' = Some u'" using p' by (simp add: unmapped_def)
      note ok = session_invD(3) [OF inv u']
      have "map_of (m_conn_map u') h \<noteq> Some c"
      proof
        assume m: "map_of (m_conn_map u') h = Some c"
        then have "iu_user_id u' = mc_user_id (conns st c)" and "iu_user_id u' \<noteq> 0"
          using ok by (auto simp: user_ok_def split: if_splits)
        then have "map_of (m_im_user_map st) (mc_user_id (conns st c)) = Some p'"
          using user_by_id [OF inv u'] by simp
        then show False using p False by simp
      qed
      then have "map_of (m_conn_map u') h' = Some c' \<Longrightarrow> h' \<noteq> h" for h' c'
        using ok c by (auto simp: user_ok_def)
      then show ?thesis using ok c by (auto simp: user_ok_def un)
    qed
  next
    fix n p' assume "m_im_user_map_by_name ?st n = Some p'"
    then show "\<exists>u. users ?st p' = Some u \<and> iu_login_name u = n"
      using session_invD(4) [OF inv, of n p'] u by (auto simp: unmapped_def)
  next
    fix i p' assume "map_of (m_im_user_map ?st) i = Some p'"
    then show "i \<noteq> 0 \<and> (\<exists>u. users ?st p' = Some u \<and> iu_user_id u = i)"
      using session_invD(5) [OF inv, of i p'] u by (auto simp: unmapped_def)
  next
    fix h' c' assume "map_of (g_msg_conn_map ?st) h' = Some c'"
    then have c': "map_of (g_msg_conn_map st) h' = Some c'" "h' \<noteq> h" by (auto simp: un split: if_splits)
    show "client_ok ?st h' c'"
      using session_invD(6) [OF inv c'(1)] c'(2) u
      by (cases "map_of (m_im_user_map st) (mc_user_id (conns st c')) = Some p")
        (auto simp: client_ok_def un, blast)
  qed (use session_invD [OF inv] cm.inv_erase in \<open>auto simp: un\<close>)
qed

lemma emptied_weaken:
  assumes inv: "session_inv db ex None st"
  shows "session_inv db ex q st"
proof (rule session_invI)
  fix p u assume "users st p = Some u"
  then show "user_ok db ex q st p u" using session_invD(3) [OF inv] by (simp add: user_ok_def)
qed (use session_invD [OF inv] in \<open>blast+\<close>)

lemma close_waiting:
  assumes inv: "session_inv db (Some c) None st"
  shows "\<exists>st'. close_by_name c st = Some st' \<and>
     session_inv db None None st' \<and> conns st' = conns st \<and> dead st' = dead st \<and>
     g_msg_conn_map st' = g_msg_conn_map st \<and> to_login st' = to_login st"
proof (cases "GetImUserByloginName (mc_login_name (conns st c)) st")
  case None
  have "session_inv db None None st"
  proof (rule session_invI)
    fix p u assume u: "users st p = Some u"
    have "iu_login_name u \<noteq> mc_login_name (conns st c)"
      using session_invD(3) [OF inv u] None by (auto simp: user_ok_def GetImUserByloginName_def)
    then show "user_ok db None None st p u"
      using session_invD(3) [OF inv u] by (auto simp: user_ok_def)
  qed (use session_invD [OF inv] in \<open>blast+\<close>)
  then show ?thesis by (simp add: close_by_name_def None)
next
  case (Some p)
  then obtain u where u: "users st p = Some u" "iu_login_name u = mc_login_name (conns st c)"
    using session_invD(4) [OF inv] by (auto simp: GetImUserByloginName_def)
  let ?u = "DelUnValidateMsgConn c u"
  let ?st = "st\<lparr>users := (users st)(p \<mapsto> ?u)\<rparr>"
  have inv': "session_inv db None None ?st"
  proof (rule session_invI)
    fix p' u' assume p': "users ?st p' = Some u'"
    show "user_ok db None None ?st p' u'"
    proof (cases "p' = p")
      case True
      then show ?thesis using session_invD(3) [OF inv u(1)] p' by (auto simp: user_ok_def)
    next
      case False
      then have u': "users st p' = Some u'" using p' by simp
      then have "iu_login_name u' \<noteq> mc_login_name (conns st c)"
        using user_names [OF inv u(1) u'] False u(2) by auto
      then show ?thesis using session_invD(3) [OF inv u'] by (auto simp: user_ok_def)
    qed
  next
    fix n p' assume "m_im_user_map_by_name ?st n = Some p'"
    then show "\<exists>u. users ?st p' = Some u \<and> iu_login_name u = n"
      using session_invD(4) [OF inv, of n p'] u by auto
  next
    fix i p' assume "map_of (m_im_user_map ?st) i = Some p'"
    then show "i \<noteq> 0 \<and> (\<exists>u. users ?st p' = Some u \<and> iu_user_id u = i)"
      using session_invD(5) [OF inv, of i p'] u by auto
  next
    fix h' c' assume "map_of (g_msg_conn_map ?st) h' = Some c'"
    then have "client_ok st h' c'" using session_invD(6) [OF inv] by simp
    then show "client_ok ?st h' c'"
      using u by (cases "map_of (m_im_user_map st) (mc_user_id (conns st c')) = Some p")
        (auto simp: client_ok_def, blast)
  qed (use session_invD [OF inv] in auto)
  from drop_if_empty [OF emptied_weaken [OF inv'], of p ?u]
  show ?thesis by (auto simp: close_by_name_def Some upd_user_def u(1) split del: if_split)
qed

lemma session_inv_dead:
  assumes inv: "session_inv db ex q st" and c: "\<And>h. map_of (g_msg_conn_map st) h \<noteq> Some c"
  shows "session_inv db ex q (st\<lparr>dead := insert c (dead st)\<rparr>)"
proof (rule session_invI)
  fix p u assume "users (st\<lparr>dead := insert c (dead st)\<rparr>) p = Some u"
  then show "user_ok db ex q (st\<lparr>dead := insert c (dead st)\<rparr>) p u"
    using session_invD(3) [OF inv] by (simp add: user_ok_def)
next
  fix h c' assume c': "map_of (g_msg_conn_map (st\<lparr>dead := insert c (dead st)\<rparr>)) h = Some c'"
  then have "c' \<noteq> c" using c by auto
  then show "client_ok (st\<lparr>dead := insert c (dead st)\<rparr>) h c'"
    using session_invD(6) [OF inv, of h c'] c' by (auto simp: client_ok_def)
qed (use session_invD [OF inv] in auto)

lemma session_inv_logs [simp]:
  "session_inv db ex q (st\<lparr>to_login := l\<rparr>) = session_inv db ex q st"
  "session_inv db ex q (st\<lparr>to_route := r\<rparr>) = session_inv db ex q st"
  "session_inv db ex q (st\<lparr>to_db := d\<rparr>) = session_inv db ex q st"
  by (simp_all add: session_inv_def user_ok_def client_ok_def)

text \<open>Closing a registered connection never reads deleted memory, and keeps the invariant.\<close>

lemma MsgClose_ok:
  assumes inv: "session_inv db None None st" and c: "map_of (g_msg_conn_map st) h = Some c"
  shows "\<exists>st'. MsgClose c st = Some st' \<and> session_inv db None None st' \<and> conns st' = conns st \<and>
     g_msg_conn_map st' = cm_erase h (g_msg_conn_map st) \<and>
     to_login st' = to_login st @
       (if m_bOpen (conns st c) then [(USER_CNT_DEC, mc_user_id (conns st c))] else [])"
proof -
  have cl: "client_ok st h c" by (rule session_invD(6) [OF inv c])
  then have h: "mc_handle (conns st c) = h" "h \<noteq> -1" by (simp_all add: client_ok_def)
  let ?st = "unmapped c st"
  have sel: "conns ?st = conns st" "m_im_user_map ?st = m_im_user_map st" "users ?st = users st"
      "to_login ?st = to_login st" "g_msg_conn_map ?st = cm_erase h (g_msg_conn_map st)"
      "m_im_user_map_by_name ?st = m_im_user_map_by_name st" "to_route ?st = to_route st"
    by (simp_all add: unmapped_def h)
  let ?log = "if m_bOpen (conns st c) then [(USER_CNT_DEC, mc_user_id (conns st c))] else []"
  have "\<exists>st1. close_by_id c ?st = Some st1 \<and>
      session_inv db (Some c) None st1 \<and> conns st1 = conns st \<and>
      g_msg_conn_map st1 = cm_erase h (g_msg_conn_map st) \<and> to_login st1 = to_login st @ ?log"
  proof (cases "m_bOpen (conns st c)")
    case False
    then have "mc_user_id (conns st c) = 0" using cl by (simp add: client_ok_def)
    then show ?thesis using False unmapped_waiting [OF inv c] no_user_0 [OF inv]
      by (simp add: close_by_id_def GetImUserById_def sel)
  next
    case True
    then obtain p u where p: "map_of (m_im_user_map st) (mc_user_id (conns st c)) = Some p"
        "users st p = Some u" using cl by (auto simp: client_ok_def)
    let ?u = "leave_user c h u"
    let ?st1 = "?st\<lparr>users := (users st)(p \<mapsto> ?u)\<rparr>"
    have uid: "iu_user_id u = mc_user_id (conns st c)" using session_invD(5) [OF inv p(1)] p(2) by auto
    let ?st2 = "?st1\<lparr>to_login := to_login st @ [(USER_CNT_DEC, mc_user_id (conns st c))], to_route := to_route st @
        [UserStatusUpdate USER_STATUS_OFFLINE (mc_user_id (conns st c)) (m_client_type (conns st c))]\<rparr>"
    have "session_inv db (Some c) (Some p) ?st2" using unmapped_open [OF inv c True p] by simp
    from drop_if_empty [OF this, of ?u] show ?thesis
      using True uid
      by (auto simp: close_by_id_def GetImUserById_def sel p upd_user_def SendUserStatusUpdate_def h
          leave_user_def [symmetric] split del: if_split)
  qed
  then obtain st1 where st1: "close_by_id c ?st = Some st1"
      "session_inv db (Some c) None st1" "conns st1 = conns st"
      "g_msg_conn_map st1 = cm_erase h (g_msg_conn_map st)" "to_login st1 = to_login st @ ?log"
    by blast
  then obtain st2 where st2: "close_by_name c st1 = Some st2"
      "session_inv db None None st2" "conns st2 = conns st" "dead st2 = dead st1"
      "g_msg_conn_map st2 = cm_erase h (g_msg_conn_map st)" "to_login st2 = to_login st @ ?log"
    using close_waiting [OF st1(2)] by auto
  have "MsgClose c st = Some (st2\<lparr>dead := insert c (dead st2)\<rparr>)"
    using st1(1) st2(1) h by (simp add: MsgClose_def unmapped_def Let_def)
  moreover have "map_of (g_msg_conn_map st2) h' \<noteq> Some c" for h'
    using client_unique [OF inv c, of h' c] by (auto simp: st2(5) map_of_cm_erase)
  then have "session_inv db None None (st2\<lparr>dead := insert c (dead st2)\<rparr>)"
    by (intro session_inv_dead st2(2))
  ultimately show ?thesis using st2 by auto
qed

subsection \<open>The other handlers\<close>

text \<open>Changes of a connection that the invariant does not depend on.\<close>

definition same_session :: "conns \<Rightarrow> conns \<Rightarrow> bool" where
  "same_session cs cs' \<longleftrightarrow> (\<forall>c. mc_handle (cs' c) = mc_handle (cs c) \<and> mc_login_name (cs' c) = mc_login_name (cs c) \<and>
     mc_user_id (cs' c) = mc_user_id (cs c) \<and> m_bOpen (cs' c) = m_bOpen (cs c) \<and>
     (m_bKickOff (cs' c) \<longrightarrow> m_bKickOff (cs c) \<or> m_bOpen (cs c)))"

lemma same_session_refl [simp]: "same_session cs cs"
  by (simp add: same_session_def)

lemma same_session_trans: "same_session cs cs' \<Longrightarrow> same_session cs' cs'' \<Longrightarrow> same_session cs cs''"
  by (fastforce simp: same_session_def)

lemma same_session_send [simp]: "same_session cs (client_send m c cs)"
  by (simp add: same_session_def client_send_def)

lemma session_inv_conns:
  assumes inv: "session_inv db ex q st" and same: "same_session (conns st) cs"
  shows "session_inv db ex q (st\<lparr>conns := cs\<rparr>)"
proof (rule session_invI)
  fix p u assume "users (st\<lparr>conns := cs\<rparr>) p = Some u"
  then show "user_ok db ex q (st\<lparr>conns := cs\<rparr>) p u"
    using session_invD(3) [OF inv] same by (simp add: user_ok_def same_session_def)
next
  fix h c assume "map_of (g_msg_conn_map (st\<lparr>conns := cs\<rparr>)) h = Some c"
  then have "client_ok st h c" using session_invD(6) [OF inv] by simp
  then show "client_ok (st\<lparr>conns := cs\<rparr>) h c"
    using same [unfolded same_session_def, rule_format, of c] by (auto simp: client_ok_def)
qed (use session_invD [OF inv] in auto)

lemma session_inv_reply: "session_inv db ex q st \<Longrightarrow> session_inv db ex q (reply m c st)"
  by (simp add: reply_def session_inv_conns)

lemma same_session_kick:
  assumes "\<forall>h d. map_of (m_conn_map u) h = Some d \<longrightarrow> m_bOpen (cs d)"
  shows "same_session cs (HandleKickUser c reason u cs)"
  using assms by (auto simp: HandleKickUser_def same_session_def client_send_def Let_def split: option.split)

lemma same_session_kick_loop:
  assumes "\<forall>h d. map_of (m_conn_map u) h = Some d \<longrightarrow> m_bOpen (cs d)"
  shows "same_session cs (kick_loop t reason from u xs cs)"
  using assms by (induction xs) (auto intro: same_session_kick)

lemma KickOut_ok:
  assumes inv: "session_inv db ex q st" and u: "users st p = Some u"
  shows "\<exists>st'. KickOut p t reason from st = Some st' \<and> session_inv db ex q st' \<and>
     same_session (conns st) (conns st') \<and> (\<exists>cs. st' = st\<lparr>conns := cs\<rparr>)"
proof -
  have ok: "user_ok db ex q st p u" by (rule session_invD(3) [OF inv u])
  have "conns_alive u st"
    unfolding conns_alive_def list_all_iff
  proof (safe)
    fix h c assume "(h, c) \<in> set (m_conn_map u)" "c \<in> dead st"
    moreover from this ok have "map_of (m_conn_map u) h = Some c" by (simp add: user_ok_def om_ok_def)
    ultimately show False using ok session_invD(6) [OF inv, of h c] by (simp add: user_ok_def client_ok_def)
  qed
  moreover have "same_session (conns st) (KickOutSameClientType t reason from u (conns st))"
    using ok unfolding KickOutSameClientType_def by (intro same_session_kick_loop) (simp add: user_ok_def)
  ultimately show ?thesis using u session_inv_conns [OF inv] by (auto simp: KickOut_def)
qed

lemma MsgOnConnect_ok:
  assumes inv: "session_inv db None None st" and c: "c \<notin> snd ` set (g_msg_conn_map st)"
    and h: "map_of (g_msg_conn_map st) h = None" "h \<noteq> -1"
  shows "session_inv db None None (MsgOnConnect tick c h st)"
proof -
  have new: "map_of (g_msg_conn_map st) h' \<noteq> Some c" for h'
    using c map_of_SomeD by force
  show ?thesis
  proof (rule session_invI)
    show "cm_ok (g_msg_conn_map (MsgOnConnect tick c h st))"
      using cm.inv_insert session_invD(2) [OF inv] by (simp add: MsgOnConnect_def)
  next
    fix p u assume "users (MsgOnConnect tick c h st) p = Some u"
    then have ok: "user_ok db None None st p u" using session_invD(3) [OF inv] by (simp add: MsgOnConnect_def)
    have "d \<noteq> c" if "map_of (m_conn_map u) k = Some d \<or> d \<in> set (m_unvalidate_conn_set u)" for k d
      using ok that new by (auto simp: user_ok_def)
    then show "user_ok db None None (MsgOnConnect tick c h st) p u"
      using ok new h(1) by (auto simp: user_ok_def MsgOnConnect_def cm_insert_def)
  next
    fix k d assume "map_of (g_msg_conn_map (MsgOnConnect tick c h st)) k = Some d"
    then have "(k = h \<and> d = c) \<or> (k \<noteq> h \<and> d \<noteq> c \<and> map_of (g_msg_conn_map st) k = Some d)"
      using new h(1) by (auto simp: MsgOnConnect_def cm_insert_def split: if_splits)
    then show "client_ok (MsgOnConnect tick c h st) k d"
      using session_invD(6) [OF inv, of k d] h(2)
      by (auto simp: client_ok_def MsgOnConnect_def CMsgConn_def)
  qed (use session_invD [OF inv] in \<open>auto simp: MsgOnConnect_def\<close>)
qed

lemma AddUnValidate_sel [simp]:
  "iu_user_id (AddUnValidateMsgConn c u) = iu_user_id u" "iu_login_name (AddUnValidateMsgConn c u) = iu_login_name u"
  "m_bValidate (AddUnValidateMsgConn c u) = m_bValidate u" "m_conn_map (AddUnValidateMsgConn c u) = m_conn_map u"
  "set (m_unvalidate_conn_set (AddUnValidateMsgConn c u)) = insert c (set (m_unvalidate_conn_set u))"
  by (simp_all add: AddUnValidateMsgConn_def set_insort_insert)

text \<open>A connection that names a user for the first time.\<close>

lemma name_conn:
  assumes inv: "session_inv db None None st" and c: "map_of (g_msg_conn_map st) h = Some c"
    and l: "mc_login_name (conns st c) = []"
    and f: "\<And>m. mc_handle (f m) = mc_handle m \<and> mc_user_id (f m) = mc_user_id m \<and>
              m_bOpen (f m) = m_bOpen m \<and> m_bKickOff (f m) = m_bKickOff m"
  shows "session_inv db None None (upd_conn c f st)" and "\<not> m_bOpen (conns st c)"
proof -
  show no: "\<not> m_bOpen (conns st c)" using session_invD(6) [OF inv c] l by (auto simp: client_ok_def)
  show "session_inv db None None (upd_conn c f st)"
  proof (rule session_invI)
    fix p u assume "users (upd_conn c f st) p = Some u"
    then have ok: "user_ok db None None st p u" using session_invD(3) [OF inv] by (simp add: upd_conn_def)
    then have "d \<noteq> c" if "map_of (m_conn_map u) k = Some d \<or> d \<in> set (m_unvalidate_conn_set u)" for k d
      using that l no by (auto simp: user_ok_def)
    then show "user_ok db None None (upd_conn c f st) p u"
      using ok by (auto simp: user_ok_def upd_conn_def)
  next
    fix k d assume "map_of (g_msg_conn_map (upd_conn c f st)) k = Some d"
    then have "client_ok st k d" using session_invD(6) [OF inv] by (simp add: upd_conn_def)
    then show "client_ok (upd_conn c f st) k d"
      using f [of "conns st c"] no by (auto simp: client_ok_def upd_conn_def)
  qed (use session_invD [OF inv] in \<open>auto simp: upd_conn_def\<close>)
qed

lemma wait_for_user:
  assumes inv: "session_inv db None None st" and c: "map_of (g_msg_conn_map st) h = Some c"
    and no: "\<not> m_bOpen (conns st c)" and u: "users st p = Some u"
    and l: "mc_login_name (conns st c) = iu_login_name u"
  shows "session_inv db None None (st\<lparr>users := (users st)(p \<mapsto> AddUnValidateMsgConn c u)\<rparr>)"
    (is "session_inv db None None ?st")
proof (rule session_invI)
  fix p' u' assume p': "users ?st p' = Some u'"
  have h: "mc_handle (conns st c) = h" using session_invD(6) [OF inv c] by (simp add: client_ok_def)
  show "user_ok db None None ?st p' u'"
    using session_invD(3) [OF inv, of p' u'] session_invD(3) [OF inv u] p' c h no l
    by (cases "p' = p") (auto simp: user_ok_def)
next
  fix n p' assume "m_im_user_map_by_name ?st n = Some p'"
  then show "\<exists>u. users ?st p' = Some u \<and> iu_login_name u = n"
    using session_invD(4) [OF inv, of n p'] u by auto
next
  fix i p' assume "map_of (m_im_user_map ?st) i = Some p'"
  then show "i \<noteq> 0 \<and> (\<exists>u. users ?st p' = Some u \<and> iu_user_id u = i)"
    using session_invD(5) [OF inv, of i p'] u by auto
next
  fix k d assume "map_of (g_msg_conn_map ?st) k = Some d"
  then have "client_ok st k d" using session_invD(6) [OF inv] by simp
  then show "client_ok ?st k d"
    using u by (cases "map_of (m_im_user_map st) (mc_user_id (conns st d)) = Some p")
      (auto simp: client_ok_def, blast)
qed (use session_invD [OF inv] in auto)

lemma new_user:
  assumes inv: "session_inv db None None st" and p: "users st p = None"
    and n: "m_im_user_map_by_name st n = None" "n \<noteq> []"
  shows "session_inv db None None (AddImUserByloginName n p (st\<lparr>users := (users st)(p \<mapsto> CImUser n)\<rparr>))"
    (is "session_inv db None None ?st")
proof -
  have st: "?st = st\<lparr>users := (users st)(p \<mapsto> CImUser n),
      m_im_user_map_by_name := (m_im_user_map_by_name st)(n \<mapsto> p)\<rparr>"
    using n by (simp add: AddImUserByloginName_def GetImUserByloginName_def)
  show ?thesis
    unfolding st
  proof (rule session_invI, goal_cases)
    case (3 p' u')
    then show ?case
      using session_invD(3) [OF inv, of p' u'] n
      by (cases "p' = p") (auto simp: user_ok_def CImUser_def om_ok_def)
  next
    case (4 n' p')
    then show ?case using session_invD(4) [OF inv, of n' p'] p
      by (cases "n' = n") (auto simp: CImUser_def)
  next
    case (5 i p')
    then show ?case using session_invD(5) [OF inv, of i p'] p by auto
  next
    case (6 k d)
    then have "client_ok st k d" using session_invD(6) [OF inv] by simp
    then show ?case using p
      by (cases "map_of (m_im_user_map st) (mc_user_id (conns st d)) = Some p") (auto simp: client_ok_def, blast)
  qed (use session_invD [OF inv] in auto)
qed

lemma HandleloginRequest_ok:
  assumes inv: "session_inv db None None st" and c: "map_of (g_msg_conn_map st) h = Some c"
    and newp: "users st newp = None" and name: "\<And>m. req = Some m \<Longrightarrow> lr_user_name m \<noteq> []"
  shows "\<exists>st'. HandleloginRequest avail newp seq req c st = Some st' \<and> session_inv db None None st' \<and>
     (g_msg_conn_map st' = g_msg_conn_map st \<or> g_msg_conn_map st' = cm_erase h (g_msg_conn_map st) \<and> \<not> m_bOpen (conns st c)) \<and>
     (\<forall>d. m_bOpen (conns st' d) = m_bOpen (conns st d) \<and> mc_user_id (conns st' d) = mc_user_id (conns st d)) \<and>
     to_login st' = to_login st"
proof -
  consider (dup) "mc_login_name (conns st c) \<noteq> []"
    | (refuse) "mc_login_name (conns st c) = []" "refuse_reason avail \<noteq> 0"
    | (bad) "mc_login_name (conns st c) = []" "refuse_reason avail = 0" "req = None"
    | (ok) m where "mc_login_name (conns st c) = []" "refuse_reason avail = 0" "req = Some m"
    by (cases req) auto
  then show ?thesis
  proof cases
    case dup
    then show ?thesis using inv by (auto simp: HandleloginRequest_def)
  next
    case bad
    then show ?thesis using inv by (auto simp: HandleloginRequest_def)
  next
    case refuse
    have no: "\<not> m_bOpen (conns st c)" using session_invD(6) [OF inv c] refuse by (auto simp: client_ok_def)
    let ?st = "reply (MLoginRefused (refuse_reason avail) seq) c st"
    have "map_of (g_msg_conn_map ?st) h = Some c" using c by (simp add: reply_def)
    from MsgClose_ok [OF session_inv_reply [OF inv] this] show ?thesis
      using refuse no by (auto simp: HandleloginRequest_def reply_def client_send_def)
  next
    case (ok m)
    define st1 where "st1 = note_login m c st"
    have inv1: "session_inv db None None st1" and no: "\<not> m_bOpen (conns st c)"
      unfolding st1_def note_login_def Let_def using name_conn [OF inv c ok(1)] by auto
    have sel: "m_im_user_map_by_name st1 = m_im_user_map_by_name st" "users st1 = users st"
        "g_msg_conn_map st1 = g_msg_conn_map st" "to_login st1 = to_login st" "\<not> m_bOpen (conns st1 c)"
        "mc_login_name (conns st1 c) = lr_user_name m"
        "\<forall>d. m_bOpen (conns st1 d) = m_bOpen (conns st d) \<and> mc_user_id (conns st1 d) = mc_user_id (conns st d)"
      using no by (simp_all add: st1_def note_login_def upd_conn_def Let_def)
    obtain p st2 where st2: "user_for_login (lr_user_name m) newp st1 = (p, st2)"
        "session_inv db None None st2" "conns st2 = conns st1" "g_msg_conn_map st2 = g_msg_conn_map st"
        "to_login st2 = to_login st" "\<exists>u. users st2 p = Some u \<and> iu_login_name u = lr_user_name m"
    proof (cases "GetImUserByloginName (lr_user_name m) st1")
      case None
      let ?st2 = "AddImUserByloginName (lr_user_name m) newp
                    (st1\<lparr>users := (users st1)(newp \<mapsto> CImUser (lr_user_name m))\<rparr>)"
      have "session_inv db None None ?st2"
        using None newp name [OF ok(3)] by (intro new_user inv1) (simp_all add: GetImUserByloginName_def sel)
      with None show ?thesis
        by (intro that [of newp ?st2])
          (simp_all add: user_for_login_def AddImUserByloginName_def GetImUserByloginName_def sel CImUser_def)
    next
      case (Some p)
      then show ?thesis using session_invD(4) [OF inv1] inv1
        by (intro that [of p st1]) (simp_all add: user_for_login_def GetImUserByloginName_def sel)
    qed
    then obtain u where u: "users st2 p = Some u" "iu_login_name u = lr_user_name m" by blast
    have "session_inv db None None (st2\<lparr>users := (users st2)(p \<mapsto> AddUnValidateMsgConn c u)\<rparr>)"
      using c sel u st2 by (intro wait_for_user) auto
    then show ?thesis
      using ok sel st2 u
      by (simp add: HandleloginRequest_def st1_def [symmetric] upd_user_def)
  qed
qed

lemma KickOut_same:
  assumes u: "users st p = Some u"
    and alive: "\<And>h d. (h, d) \<in> set (m_conn_map u) \<Longrightarrow> m_bOpen (conns st d) \<and> d \<notin> dead st"
  shows "\<exists>cs. KickOut p t reason from st = Some (st\<lparr>conns := cs\<rparr>) \<and> same_session (conns st) cs"
proof -
  have "conns_alive u st" using alive by (auto simp: conns_alive_def list_all_iff)
  moreover have "same_session (conns st) (KickOutSameClientType t reason from u (conns st))"
    unfolding KickOutSameClientType_def using alive map_of_SomeD by (intro same_session_kick_loop) fastforce
  ultimately show ?thesis using u by (auto simp: KickOut_def)
qed

text \<open>The state once connection \<open>c\<close> of user \<open>q\<close> is validated.\<close>

definition joined :: "u32 \<Rightarrow> uptr \<Rightarrow> conn \<Rightarrow> im_user \<Rightarrow> msg_state \<Rightarrow> msg_state" where
  "joined uid q c u st = st\<lparr>users := (users st)(q \<mapsto> u),
     m_im_user_map := (if map_of (m_im_user_map st) uid = None then om_put uid q (m_im_user_map st)
                       else m_im_user_map st),
     conns := (conns st)(c := (conns st c)\<lparr>mc_user_id := uid, m_bOpen := True\<rparr>)\<rparr>"

lemma joined_ok:
  assumes inv: "session_inv db None None st" and c: "map_of (g_msg_conn_map st) h = Some c"
    and no: "\<not> m_bOpen (conns st c)" and named: "mc_login_name (conns st c) \<noteq> []"
    and q: "users st q = Some u" and uid: "uid \<noteq> 0" "uid = db (iu_login_name u)"
    and byid: "map_of (m_im_user_map st) uid = (if iu_user_id u = 0 then None else Some q)"
    and only: "\<And>p v. users st p = Some v \<Longrightarrow> p \<noteq> q \<Longrightarrow> c \<notin> set (m_unvalidate_conn_set v)"
    and u': "iu_user_id u' = uid" "iu_login_name u' = iu_login_name u" "m_bValidate u'"
      "m_conn_map u' = om_put h c (m_conn_map u)"
      "set (m_unvalidate_conn_set u') = set (m_unvalidate_conn_set u) - {c}"
  shows "session_inv db None None (joined uid q c u' st)"
proof -
  define st' where "st' = joined uid q c u' st"
  have h: "mc_handle (conns st c) = h" "h \<noteq> -1" "c \<notin> dead st"
    using session_invD(6) [OF inv c] by (simp_all add: client_ok_def)
  have u_ok: "user_ok db None None st q u" by (rule session_invD(3) [OF inv q])
  have uid_u: "iu_user_id u = 0 \<or> iu_user_id u = uid" using u_ok uid by (auto simp: user_ok_def split: if_splits)
  have om: "map_of (om_put h c (m_conn_map u)) = (map_of (m_conn_map u))(h \<mapsto> c)"
      "om_ok (om_put h c (m_conn_map u))"
    using u_ok by (simp_all add: user_ok_def om.find_put om.inv_put)
  have ids: "map_of (m_im_user_map st') = (map_of (m_im_user_map st))(uid \<mapsto> q)"
    using byid by (auto simp: st'_def joined_def fun_eq_iff om.find_put [OF session_invD(1) [OF inv]] split: if_splits)
  have sel: "users st' = (users st)(q \<mapsto> u')"
      "m_im_user_map_by_name st' = m_im_user_map_by_name st"
      "conns st' = (conns st)(c := (conns st c)\<lparr>mc_user_id := uid, m_bOpen := True\<rparr>)"
      "g_msg_conn_map st' = g_msg_conn_map st" "dead st' = dead st"
    by (simp_all add: st'_def joined_def)
  have old: "d \<noteq> c" if "map_of (m_conn_map v) k = Some d" "users st p = Some v" for k d p v
    using session_invD(3) [OF inv that(2)] that(1) no by (auto simp: user_ok_def)
  show ?thesis
    unfolding st'_def [symmetric]
  proof (rule session_invI)
    show "om_ok (m_im_user_map st')"
      using session_invD(1) [OF inv] by (simp add: st'_def joined_def om.inv_put)
    show "cm_ok (g_msg_conn_map st')"
      using session_invD(2) [OF inv] by (simp add: sel)
  next
    fix p v assume v: "users st' p = Some v"
    show "user_ok db None None st' p v"
    proof (cases "p = q")
      case True
      then have "v = u'" using v by (simp add: sel)
      moreover have "om_put h c (m_conn_map u) \<noteq> []" using om(1) by (metis fun_upd_same map_of.simps(1) option.discI)
      ultimately show ?thesis
        using u_ok u' True uid om c h uid_u old [OF _ q]
        by (auto simp: user_ok_def ids sel split: if_splits)
    next
      case False
      then have p: "users st p = Some v" using v by (simp add: sel)
      have ne: "iu_user_id v \<noteq> uid \<or> iu_user_id v = 0"
        using user_by_id [OF inv p, of uid] byid uid False by (auto split: if_splits)
      show ?thesis
        using session_invD(3) [OF inv p] old [OF _ p] only [OF p False] ne uid
        by (auto simp: user_ok_def ids sel split: if_splits)
    qed
  next
    fix n p assume "m_im_user_map_by_name st' n = Some p"
    then show "\<exists>u. users st' p = Some u \<and> iu_login_name u = n"
      using session_invD(4) [OF inv, of n p] q u'(2) by (auto simp: sel)
  next
    fix i p assume "map_of (m_im_user_map st') i = Some p"
    then show "i \<noteq> 0 \<and> (\<exists>u. users st' p = Some u \<and> iu_user_id u = i)"
      using session_invD(5) [OF inv, of i p] q u'(1) uid uid_u
      by (auto simp: ids sel split: if_splits)
  next
    fix k d assume "map_of (g_msg_conn_map st') k = Some d"
    then have d: "map_of (g_msg_conn_map st) k = Some d" by (simp add: sel)
    have dk: "d = c \<longleftrightarrow> k = h" using client_unique [OF inv d c] by auto
    show "client_ok st' k d"
    proof (cases "d = c")
      case True
      then show ?thesis using dk h uid named u' om by (auto simp: client_ok_def sel ids)
    next
      case False
      have cl: "client_ok st k d" by (rule session_invD(6) [OF inv d])
      show ?thesis
      proof (cases "m_bOpen (conns st d)")
        case op: True
        then obtain p v where p: "map_of (m_im_user_map st) (mc_user_id (conns st d)) = Some p"
            "users st p = Some v" "map_of (m_conn_map v) k = Some d"
          using cl by (auto simp: client_ok_def)
        have "map_of (m_im_user_map st') (mc_user_id (conns st d)) = Some p"
          using p(1) byid by (auto simp: ids split: if_splits)
        moreover have "\<exists>v'. users st' p = Some v' \<and> map_of (m_conn_map v') k = Some d"
          using p q u' om dk False by (cases "p = q") (auto simp: sel)
        ultimately show ?thesis using cl op False by (auto simp: client_ok_def sel)
      next
        case False
        with \<open>d \<noteq> c\<close> show ?thesis using cl by (simp add: client_ok_def sel)
      qed
    qed
  qed
qed

lemma find_unvalidated_ok:
  "\<forall>c \<in> set xs. c \<notin> dead st \<Longrightarrow>
   \<exists>r. find_unvalidated handle st xs = Some r \<and>
     (\<forall>c. r = Some c \<longrightarrow> c \<in> set xs \<and> mc_handle (conns st c) = handle)"
  by (induction xs) auto

text \<open>The rest of a successful login, once the user is known.\<close>

lemma open_session_eq:
  assumes u: "users st q = Some u"
    and byid: "map_of (m_im_user_map st) uid = (if iu_user_id u = 0 then None else Some q)"
    and om: "om_ok (m_im_user_map st)"
    and alive: "\<And>h d. (h, d) \<in> set (m_conn_map u) \<Longrightarrow> m_bOpen (conns st d) \<and> d \<notin> dead st"
  shows "\<exists>st' cs j. open_session route_conn seq uid q c st = Some st' \<and>
     same_session (conns st) cs \<and>
     j = joined uid q c (ValidateMsgConn (mc_handle (conns st c)) c (SetValidated (SetUserId uid u))) (st\<lparr>conns := cs\<rparr>) \<and>
     users st' = users j \<and> m_im_user_map st' = m_im_user_map j \<and> dead st' = dead j \<and>
     m_im_user_map_by_name st' = m_im_user_map_by_name j \<and> g_msg_conn_map st' = g_msg_conn_map j \<and>
     same_session (conns j) (conns st') \<and> to_login st' = to_login st @ [(USER_CNT_INC, uid)]"
proof -
  define u1 where "u1 = SetValidated (SetUserId uid u)"
  have u1: "iu_user_id u1 = uid" "m_conn_map u1 = m_conn_map u"
    by (simp_all add: u1_def SetValidated_def SetUserId_def)
  define st1 where "st1 = AddImUserById uid q (st\<lparr>users := (users st)(q \<mapsto> u1)\<rparr>)"
  have st1: "users st1 = (users st)(q \<mapsto> u1)" "conns st1 = conns st" "dead st1 = dead st"
      "to_login st1 = to_login st" "map_of (m_im_user_map st1) uid = Some q"
    using byid om by (auto simp: st1_def AddImUserById_def GetImUserById_def om.find_put split: if_splits)
  obtain cs where cs: "KickOut q (m_client_type (conns st c)) KICK_REASON_DUPLICATE_USER (Some c) st1
      = Some (st1\<lparr>conns := cs\<rparr>)" "same_session (conns st) cs"
    using KickOut_same [of st1 q u1 "m_client_type (conns st c)" KICK_REASON_DUPLICATE_USER "Some c"] alive
    by (auto simp: st1 u1)
  have h: "mc_handle (cs c) = mc_handle (conns st c)" using cs(2) by (simp add: same_session_def)
  have byid2: "map_of (if map_of (m_im_user_map st) uid = None then om_put uid q (m_im_user_map st)
      else m_im_user_map st) uid = Some q"
    using st1(5) by (auto simp: st1_def AddImUserById_def GetImUserById_def split: if_splits)
  have s1: "upd_user q (\<lambda>u. SetValidated (SetUserId uid u)) st = Some (st\<lparr>users := (users st)(q \<mapsto> u1)\<rparr>)"
    by (simp add: upd_user_def u u1_def)
  show ?thesis
    unfolding open_session_def s1 Let_def Option.bind.bind_lunit st1_def [symmetric]
    using byid2 cs(2)
    by (simp add: st1 cs(1) SendUserStatusUpdate_def upd_conn_def GetImUserById_def upd_user_def u1 h
        u1_def [symmetric] joined_def reply_def)
      (intro exI [of _ cs], auto simp: st1_def AddImUserById_def GetImUserById_def)
qed

lemma session_inv_cong:
  assumes inv: "session_inv db ex q j" and eq: "users st = users j" "m_im_user_map st = m_im_user_map j"
    "dead st = dead j" "m_im_user_map_by_name st = m_im_user_map_by_name j" "g_msg_conn_map st = g_msg_conn_map j"
    and same: "same_session (conns j) (conns st)"
  shows "session_inv db ex q st"
proof -
  have "session_inv db ex q (j\<lparr>conns := conns st\<rparr>)" by (rule session_inv_conns [OF inv same])
  moreover have "user_ok db ex q (j\<lparr>conns := conns st\<rparr>) = user_ok db ex q st"
    unfolding user_ok_def fun_eq_iff eq by simp
  moreover have "client_ok (j\<lparr>conns := conns st\<rparr>) = client_ok st"
    unfolding client_ok_def fun_eq_iff eq by simp
  ultimately show ?thesis unfolding session_inv_def eq by simp
qed

text \<open>The user for a validated connection, once the user that waited has been dropped.\<close>

lemma user_for_id_ok:
  assumes inv: "session_inv db None None st" and c: "map_of (g_msg_conn_map st) h = Some c"
    and p: "users st p = Some u" "iu_login_name u = n" and w: "c \<in> set (m_unvalidate_conn_set u)"
    and uid: "uid = db n" "uid \<noteq> 0"
  shows "\<exists>q v st1 st2. user_for_id n uid p c st = Some (q, st2) \<and> session_inv db None None st1 \<and>
     users st1 q = Some v \<and> uid = db (iu_login_name v) \<and>
     map_of (m_im_user_map st) uid = (if iu_user_id v = 0 then None else Some q) \<and>
     (\<forall>p' v'. users st1 p' = Some v' \<longrightarrow> p' \<noteq> q \<longrightarrow> c \<notin> set (m_unvalidate_conn_set v')) \<and>
     (\<exists>v2. st2 = st1\<lparr>users := (users st1)(q \<mapsto> v2)\<rparr> \<and> iu_user_id v2 = iu_user_id v \<and>
        iu_login_name v2 = iu_login_name v \<and> m_conn_map v2 = m_conn_map v \<and>
        set (m_unvalidate_conn_set v2) - {c} = set (m_unvalidate_conn_set v) - {c}) \<and>
     m_im_user_map st1 = m_im_user_map st \<and> conns st1 = conns st \<and> dead st1 = dead st \<and>
     g_msg_conn_map st1 = g_msg_conn_map st \<and> to_login st1 = to_login st"
proof -
  have p_ok: "user_ok db None None st p u" by (rule session_invD(3) [OF inv p(1)])
  have waits: "mc_login_name (conns st c) = n" using p_ok w p(2) by (auto simp: user_ok_def)
  have only: "p' = p" if "users st p' = Some v" "c \<in> set (m_unvalidate_conn_set v)" for p' v
    using session_invD(3) [OF inv that(1)] that waits user_names [OF inv that(1) p(1)] p(2)
    by (auto simp: user_ok_def)
  show ?thesis
  proof (cases "map_of (m_im_user_map st) uid")
    case None
    have "iu_user_id u = 0" using p_ok None uid p(2) by (auto simp: user_ok_def split: if_splits)
    then show ?thesis
      using None inv p uid only
      by (intro exI [of _ p] exI [of _ u] exI [of _ st])
        (auto simp: user_for_id_def GetImUserById_def fun_upd_idem intro!: exI [of _ u])
  next
    case (Some q)
    then obtain v where v: "users st q = Some v" "iu_user_id v = uid"
      using session_invD(5) [OF inv] by blast
    have q_ok: "user_ok db None None st q v" by (rule session_invD(3) [OF inv v(1)])
    show ?thesis
    proof (cases "q = p")
      case True
      then have "v = u" using v(1) p(1) by simp
      moreover have "m_conn_map u \<noteq> []" using q_ok \<open>v = u\<close> v(2) uid by (auto simp: user_ok_def)
      ultimately show ?thesis
        using True Some inv p v uid only
        by (intro exI [of _ p] exI [of _ u] exI [of _ st]
            exI [of _ "st\<lparr>users := (users st)(p \<mapsto> DelUnValidateMsgConn c (AddUnValidateMsgConn c u))\<rparr>"])
          (auto simp: user_for_id_def GetImUserById_def upd_user_def IsMsgConnEmpty_def
            intro!: exI [of _ "DelUnValidateMsgConn c (AddUnValidateMsgConn c u)"])
    next
      case False
      have e: "IsMsgConnEmpty u"
      proof (rule ccontr)
        assume "\<not> IsMsgConnEmpty u"
        then have "map_of (m_im_user_map st) uid = Some p"
          using p_ok uid p(2) by (auto simp: user_ok_def IsMsgConnEmpty_def split: if_splits)
        then show False using Some False by simp
      qed
      have u0: "iu_user_id u = 0" using p_ok uid p(2) Some False by (auto simp: user_ok_def split: if_splits)
      obtain st1 where st1: "RemoveImUser p st = Some st1" "session_inv db None None st1" "conns st1 = conns st"
          "dead st1 = dead st" "g_msg_conn_map st1 = g_msg_conn_map st" "to_login st1 = to_login st"
          "users st1 = (users st)(p := None)"
        using RemoveImUser_ok [OF emptied_weaken [OF inv] p(1) e] by blast
      have "cm_erase 0 (m_im_user_map st) = m_im_user_map st"
        using no_user_0 [OF inv] unfolding cm_erase_def
        by (intro filter_True) (auto simp: map_of_eq_None_iff image_iff split: prod.splits)
      then have st1': "st1 = delete_user p (RemoveImUserByloginName n st)"
        using st1(1) p u0 by (simp add: RemoveImUser_def RemoveImUserById_def)
      have "user_for_id n uid p c st = Some (q, st1\<lparr>users := (users st1)(q \<mapsto> AddUnValidateMsgConn c v)\<rparr>)"
        using Some v(1) p(1) False e
        by (auto simp: user_for_id_def GetImUserById_def upd_user_def st1' delete_user_def
            RemoveImUserByloginName_def IsMsgConnEmpty_def fun_upd_twist)
      moreover have "c \<notin> set (m_unvalidate_conn_set v')" if "users st1 p' = Some v'" for p' v'
        using that only by (auto simp: st1(7) split: if_splits)
      moreover have "m_im_user_map st1 = m_im_user_map st"
        by (simp add: st1' delete_user_def RemoveImUserByloginName_def)
      moreover have "uid = db (iu_login_name v)" using q_ok v(2) uid by (auto simp: user_ok_def)
      ultimately show ?thesis
        using st1 v Some uid(2) False
        by (intro exI [of _ q] exI [of _ v] exI [of _ st1] exI) auto
    qed
  qed
qed

text \<open>
  What an event does to the sessions: nothing to those open, or one connection leaves (and, if it was
  open, the counter goes down), or one that was waiting opens (and the counter goes up).
\<close>

definition sessions_same :: "msg_state \<Rightarrow> msg_state \<Rightarrow> bool" where
  "sessions_same st st' \<longleftrightarrow> g_msg_conn_map st' = g_msg_conn_map st \<and> to_login st' = to_login st \<and>
     (\<forall>d. m_bOpen (conns st' d) = m_bOpen (conns st d) \<and> mc_user_id (conns st' d) = mc_user_id (conns st d))"

definition session_left :: "conn \<Rightarrow> msg_state \<Rightarrow> msg_state \<Rightarrow> bool" where
  "session_left c st st' \<longleftrightarrow> (\<exists>h. map_of (g_msg_conn_map st) h = Some c \<and>
     g_msg_conn_map st' = cm_erase h (g_msg_conn_map st) \<and>
     to_login st' = to_login st @ (if m_bOpen (conns st c) then [(USER_CNT_DEC, mc_user_id (conns st c))] else []) \<and>
     (\<forall>d. m_bOpen (conns st' d) = m_bOpen (conns st d) \<and> mc_user_id (conns st' d) = mc_user_id (conns st d)))"

definition session_opened :: "conn \<Rightarrow> u32 \<Rightarrow> msg_state \<Rightarrow> msg_state \<Rightarrow> bool" where
  "session_opened c uid st st' \<longleftrightarrow> c \<in> snd ` set (g_msg_conn_map st) \<and> \<not> m_bOpen (conns st c) \<and>
     g_msg_conn_map st' = g_msg_conn_map st \<and> to_login st' = to_login st @ [(USER_CNT_INC, uid)] \<and>
     m_bOpen (conns st' c) \<and> mc_user_id (conns st' c) = uid \<and>
     (\<forall>d. d \<noteq> c \<longrightarrow> m_bOpen (conns st' d) = m_bOpen (conns st d) \<and> mc_user_id (conns st' d) = mc_user_id (conns st d))"

definition session_event :: "msg_state \<Rightarrow> msg_state \<Rightarrow> bool" where
  "session_event st st' \<longleftrightarrow> sessions_same st st' \<or> (\<exists>c. session_left c st st') \<or> (\<exists>c uid. session_opened c uid st st')"

definition fine :: "(string \<Rightarrow> u32) \<Rightarrow> msg_state \<Rightarrow> msg_state option \<Rightarrow> bool" where
  "fine db st r \<longleftrightarrow> (\<exists>st'. r = Some st' \<and> session_inv db None None st' \<and> session_event st st')"

lemma sessions_same_refl [simp]: "sessions_same st st"
  by (simp add: sessions_same_def)

lemma fine_Some: "session_inv db None None st' \<Longrightarrow> sessions_same st st' \<Longrightarrow> fine db st (Some st')"
  by (auto simp: fine_def session_event_def)

lemma reply_sel [simp]:
  "m_bOpen (conns (reply m c st) d) = m_bOpen (conns st d)"
  "mc_user_id (conns (reply m c st) d) = mc_user_id (conns st d)"
  "g_msg_conn_map (reply m c st) = g_msg_conn_map st" "to_login (reply m c st) = to_login st"
  by (simp_all add: reply_def client_send_def)

lemma session_event_reply: "session_event (reply m c st) st' = session_event st st'"
  by (simp add: session_event_def sessions_same_def session_left_def session_opened_def)

lemma fine_MsgClose:
  assumes "session_inv db None None st" and "map_of (g_msg_conn_map st) h = Some c"
  shows "fine db st (MsgClose c st)"
proof -
  obtain st' where st': "MsgClose c st = Some st'" "session_inv db None None st'" "conns st' = conns st"
     "g_msg_conn_map st' = cm_erase h (g_msg_conn_map st)"
     "to_login st' = to_login st @
       (if m_bOpen (conns st c) then [(USER_CNT_DEC, mc_user_id (conns st c))] else [])"
    using MsgClose_ok [OF assms] by blast
  then have "session_left c st st'" unfolding session_left_def using assms(2) by (intro exI [of _ h]) simp
  then show ?thesis using st'(1,2) unfolding fine_def session_event_def by blast
qed

lemma fine_MsgClose_reply:
  assumes "session_inv db None None st" and "map_of (g_msg_conn_map st) h = Some c"
  shows "fine db st (MsgClose c (reply m d st))"
proof -
  have "fine db (reply m d st) (MsgClose c (reply m d st))"
    using assms by (intro fine_MsgClose session_inv_reply) (simp_all add: reply_def)
  then show ?thesis by (simp add: fine_def session_event_reply)
qed

lemma session_event_to_db: "session_event (st\<lparr>to_db := d\<rparr>) st' = session_event st st'"
  by (simp add: session_event_def sessions_same_def session_left_def session_opened_def cong: if_cong)

lemma fine_HandleloginOutRequest:
  assumes inv: "session_inv db None None st" and c: "map_of (g_msg_conn_map st) h = Some c"
  shows "fine db st (HandleloginOutRequest ser db_conn seq c st)"
proof -
  have "fine db st (MsgClose c (reply (MLogoutRsp seq) c (st\<lparr>to_db := d\<rparr>)))" for d
    using fine_MsgClose_reply [of db "st\<lparr>to_db := d\<rparr>" h c "MLogoutRsp seq" c] inv c
    by (simp add: fine_def session_event_to_db)
  from this [of "to_db st"] this show ?thesis by (simp add: HandleloginOutRequest_def Let_def)
qed

lemma fine_HandleloginRequest:
  assumes "session_inv db None None st" and "map_of (g_msg_conn_map st) h = Some c"
    and "users st newp = None" and "\<And>m. req = Some m \<Longrightarrow> lr_user_name m \<noteq> []"
  shows "fine db st (HandleloginRequest avail newp seq req c st)"
proof -
  obtain st' where st': "HandleloginRequest avail newp seq req c st = Some st'" "session_inv db None None st'"
     "g_msg_conn_map st' = g_msg_conn_map st \<or> g_msg_conn_map st' = cm_erase h (g_msg_conn_map st) \<and> \<not> m_bOpen (conns st c)"
     "\<forall>d. m_bOpen (conns st' d) = m_bOpen (conns st d) \<and> mc_user_id (conns st' d) = mc_user_id (conns st d)"
     "to_login st' = to_login st"
    using HandleloginRequest_ok [where avail = avail and seq = seq, OF assms] by blast
  then have "sessions_same st st' \<or> session_left c st st'"
    using assms(2) by (auto simp: sessions_same_def session_left_def)
  then show ?thesis using st'(1,2) unfolding fine_def session_event_def by blast
qed

lemma fine_HandleValidateResponse:
  assumes inv: "session_inv db None None st"
    and db: "\<And>m. rsp = Some m \<Longrightarrow> vr_result m = 0 \<Longrightarrow> vr_user_id m = db (vr_user_name m) \<and> vr_user_id m \<noteq> 0"
  shows "fine db st (HandleValidateResponse route_conn seq rsp st)"
proof (cases "rsp = None \<or> GetImUserByloginName (vr_user_name (the rsp)) st = None")
  case True
  then show ?thesis using inv by (auto simp: HandleValidateResponse_def intro!: fine_Some split: option.splits)
next
  case False
  then obtain m p where m: "rsp = Some m" "GetImUserByloginName (vr_user_name m) st = Some p" by auto
  then obtain u where u: "users st p = Some u" "iu_login_name u = vr_user_name m"
    using session_invD(4) [OF inv] by (auto simp: GetImUserByloginName_def)
  have u_ok: "user_ok db None None st p u" by (rule session_invD(3) [OF inv u(1)])
  have "\<forall>c \<in> set (m_unvalidate_conn_set u). c \<notin> dead st"
    using u_ok session_invD(6) [OF inv] by (auto simp: user_ok_def client_ok_def)
  from find_unvalidated_ok [OF this, of "vr_handle m"]
  obtain r where r: "find_unvalidated (vr_handle m) st (m_unvalidate_conn_set u) = Some r"
      "\<And>c. r = Some c \<Longrightarrow> c \<in> set (m_unvalidate_conn_set u)" by blast
  have unfold: "HandleValidateResponse route_conn seq rsp st = (case r of None \<Rightarrow> Some st | Some pMsgConn \<Rightarrow>
          if m_bOpen (conns st pMsgConn) then Some st
          else if vr_result m = 0 then do {
            (pUser, st) \<leftarrow> user_for_id (vr_user_name m) (vr_user_id m) p pMsgConn st;
            open_session route_conn seq (vr_user_id m) pUser pMsgConn st}
          else MsgClose pMsgConn (reply (MLoginRefused REFUSE_REASON_DB_VALIDATE_FAILED seq) pMsgConn st))"
    by (simp add: HandleValidateResponse_def m u r(1))
  show ?thesis
  proof (cases r)
    case None
    then show ?thesis unfolding unfold using inv by (simp add: fine_Some)
  next
    case (Some c)
    then have w: "c \<in> set (m_unvalidate_conn_set u)" by (rule r(2))
    define h where "h = mc_handle (conns st c)"
    have c: "map_of (g_msg_conn_map st) h = Some c" and no: "\<not> m_bOpen (conns st c)"
      and name: "mc_login_name (conns st c) = vr_user_name m" "vr_user_name m \<noteq> []"
      using u_ok w u(2) by (auto simp: user_ok_def h_def)
    show ?thesis
    proof (cases "vr_result m = 0")
      case False
      then show ?thesis unfolding unfold using Some no fine_MsgClose_reply [OF inv c] by simp
    next
      case True
      define uid where "uid = vr_user_id m"
      have uid: "uid = db (vr_user_name m)" "uid \<noteq> 0" using db [OF m(1) True] by (auto simp: uid_def)
      obtain q v st1 st2 v2 where q: "user_for_id (vr_user_name m) uid p c st = Some (q, st2)"
          "session_inv db None None st1" "users st1 q = Some v" "uid = db (iu_login_name v)"
          "map_of (m_im_user_map st) uid = (if iu_user_id v = 0 then None else Some q)"
          "\<forall>p' v'. users st1 p' = Some v' \<longrightarrow> p' \<noteq> q \<longrightarrow> c \<notin> set (m_unvalidate_conn_set v')"
          "m_im_user_map st1 = m_im_user_map st" "conns st1 = conns st" "dead st1 = dead st"
          "g_msg_conn_map st1 = g_msg_conn_map st" "to_login st1 = to_login st"
        and v2: "st2 = st1\<lparr>users := (users st1)(q \<mapsto> v2)\<rparr>" "iu_user_id v2 = iu_user_id v"
          "iu_login_name v2 = iu_login_name v" "m_conn_map v2 = m_conn_map v"
          "set (m_unvalidate_conn_set v2) - {c} = set (m_unvalidate_conn_set v) - {c}"
        using user_for_id_ok [OF inv c u w uid] by (elim exE conjE) (rule that)
      have v_ok: "user_ok db None None st1 q v" by (rule session_invD(3) [OF q(2,3)])
      have alive: "m_bOpen (conns st2 d) \<and> d \<notin> dead st2" if "(k, d) \<in> set (m_conn_map v2)" for k d
      proof -
        have "map_of (m_conn_map v) k = Some d" using that v_ok v2(4) by (simp add: user_ok_def om_ok_def)
        then show ?thesis using v_ok session_invD(6) [OF q(2)] v2(1) by (auto simp: user_ok_def client_ok_def)
      qed
      define v3 where "v3 = ValidateMsgConn h c (SetValidated (SetUserId uid v2))"
      have v3: "iu_user_id v3 = uid" "iu_login_name v3 = iu_login_name v" "m_bValidate v3"
          "m_conn_map v3 = om_put h c (m_conn_map v)"
          "set (m_unvalidate_conn_set v3) = set (m_unvalidate_conn_set v) - {c}"
        using v2 by (auto simp: v3_def ValidateMsgConn_def AddMsgConn_def SetValidated_def SetUserId_def)
      obtain st' cs j where st': "open_session route_conn seq uid q c st2 = Some st'" "same_session (conns st2) cs"
          "j = joined uid q c v3 (st2\<lparr>conns := cs\<rparr>)"
          "users st' = users j" "m_im_user_map st' = m_im_user_map j" "dead st' = dead j"
          "m_im_user_map_by_name st' = m_im_user_map_by_name j" "g_msg_conn_map st' = g_msg_conn_map j"
          "same_session (conns j) (conns st')" "to_login st' = to_login st2 @ [(USER_CNT_INC, uid)]"
        using open_session_eq [of st2 q v2 uid route_conn seq c] alive v2 q(5,7,8) session_invD(1) [OF q(2)]
        by (auto simp: v3_def h_def)
      have j: "j = joined uid q c v3 (st1\<lparr>conns := cs\<rparr>)" by (simp add: st'(3) v2(1) joined_def)
      have same1: "same_session (conns st1) cs" using st'(2) v2(1) by simp
      have cs: "\<not> m_bOpen (cs c)" "mc_login_name (cs c) \<noteq> []"
        using same1 no name by (simp_all add: same_session_def q(8))
      have "session_inv db None None j"
        unfolding j
        using session_inv_conns [OF q(2) same1] c cs q v3 uid
        by (intro joined_ok [where h = h and u = v]) auto
      then have inv': "session_inv db None None st'" by (rule session_inv_cong) (use st' in auto)
      have "\<forall>d. m_bOpen (conns st' d) = m_bOpen (conns j d) \<and> mc_user_id (conns st' d) = mc_user_id (conns j d)"
        using st'(9) by (simp add: same_session_def)
      moreover have "conns j = cs(c := (cs c)\<lparr>mc_user_id := uid, m_bOpen := True\<rparr>)" by (simp add: j joined_def)
      moreover have "g_msg_conn_map st' = g_msg_conn_map st" using st'(8) q(10) by (simp add: j joined_def)
      moreover have "c \<in> snd ` set (g_msg_conn_map st)" using c map_of_SomeD by force
      ultimately have "session_opened c uid st st'"
        using same1 no st'(10) q(8,11) v2(1) by (simp add: session_opened_def same_session_def)
      then show ?thesis
        unfolding unfold using Some no True q(1) st'(1) inv' uid_def by (auto simp: fine_def session_event_def)
    qed
  qed
qed

lemma fine_KickOut:
  assumes "session_inv db None None st" and "users st p = Some u"
  shows "fine db st (KickOut p t reason from st)"
  using KickOut_ok [OF assms, of t reason "from"]
  by (auto simp: fine_def session_event_def sessions_same_def same_session_def)

lemma fine_HandleServerKickUser:
  assumes inv: "session_inv db None None st"
  shows "fine db st (HandleServerKickUser uid t reason st)"
proof (cases "GetImUserById uid st")
  case None
  then show ?thesis using inv by (simp add: HandleServerKickUser_def fine_Some)
next
  case (Some p)
  then obtain u where "users st p = Some u" using session_invD(5) [OF inv] by (auto simp: GetImUserById_def)
  from fine_KickOut [OF inv this] show ?thesis using Some by (simp add: HandleServerKickUser_def)
qed

lemma fine_HandleKickPCClient:
  assumes inv: "session_inv db None None st"
  shows "fine db st (HandleKickPCClient route_conn seq msg c st)"
proof (cases "msg \<noteq> None \<and> CHECK_CLIENT_TYPE_MOBILE (m_client_type (conns st c))")
  case False
  then show ?thesis using inv by (auto simp: HandleKickPCClient_def fine_Some)
next
  case True
  have "\<exists>cs. (case GetImUserById (mc_user_id (conns st c)) st of None \<Rightarrow> Some st
      | Some p \<Rightarrow> KickOut p CLIENT_TYPE_MAC KICK_REASON_MOBILE_KICK (Some c) st) = Some (st\<lparr>conns := cs\<rparr>) \<and>
      session_inv db None None (st\<lparr>conns := cs\<rparr>) \<and> same_session (conns st) cs"
  proof (cases "GetImUserById (mc_user_id (conns st c)) st")
    case None
    then show ?thesis using inv by (intro exI [of _ "conns st"]) simp
  next
    case (Some p)
    then obtain u where "users st p = Some u" using session_invD(5) [OF inv] by (auto simp: GetImUserById_def)
    from KickOut_ok [OF inv this, of CLIENT_TYPE_MAC KICK_REASON_MOBILE_KICK "Some c"]
    show ?thesis using Some by auto
  qed
  then obtain cs where cs: "(case GetImUserById (mc_user_id (conns st c)) st of None \<Rightarrow> Some st
      | Some p \<Rightarrow> KickOut p CLIENT_TYPE_MAC KICK_REASON_MOBILE_KICK (Some c) st) = Some (st\<lparr>conns := cs\<rparr>)"
      "session_inv db None None (st\<lparr>conns := cs\<rparr>)" "same_session (conns st) cs" by blast
  have "session_inv db None None (st\<lparr>conns := cs, to_route := r\<rparr>)" for r
    using cs(2) by (simp add: session_inv_logs)
  from session_inv_reply [OF this] session_inv_reply [OF cs(2)] show ?thesis
    using True cs(1,3) by (auto simp: HandleKickPCClient_def Let_def same_session_def sessions_same_def intro!: fine_Some)
qed

lemma session_inv_upd_conn:
  assumes "session_inv db None None st"
    and "\<And>m. mc_handle (f m) = mc_handle m \<and> mc_login_name (f m) = mc_login_name m \<and> mc_user_id (f m) = mc_user_id m \<and>
              m_bOpen (f m) = m_bOpen m \<and> m_bKickOff (f m) = m_bKickOff m"
  shows "session_inv db None None (upd_conn c f st)" "sessions_same st (upd_conn c f st)"
  using session_inv_conns [OF assms(1), of "(conns st)(c := f (conns st c))"] assms(2)
  by (simp_all add: upd_conn_def same_session_def sessions_same_def)

lemma session_event_upd_conn:
  assumes "\<And>m. mc_user_id (f m) = mc_user_id m \<and> m_bOpen (f m) = m_bOpen m"
  shows "session_event (upd_conn c f st) st' = session_event st st'"
proof -
  have "m_bOpen (conns (upd_conn c f st) d) = m_bOpen (conns st d)"
    "mc_user_id (conns (upd_conn c f st) d) = mc_user_id (conns st d)"
    "g_msg_conn_map (upd_conn c f st) = g_msg_conn_map st" "to_login (upd_conn c f st) = to_login st" for d
    using assms by (simp_all add: upd_conn_def)
  then show ?thesis by (simp add: session_event_def sessions_same_def session_left_def session_opened_def)
qed

lemma fine_MsgOnTimer:
  assumes inv: "session_inv db None None st" and c: "map_of (g_msg_conn_map st) h = Some c"
  shows "fine db st (MsgOnTimer tick c st)"
proof -
  let ?st = "upd_conn c (\<lambda>c. c\<lparr>m_msg_cnt_per_sec := 0\<rparr>) st"
  have inv': "session_inv db None None ?st" "sessions_same st ?st"
    using session_inv_upd_conn [OF inv] by simp_all
  have "map_of (g_msg_conn_map ?st) h = Some c" using c by (simp add: upd_conn_def)
  note close = fine_MsgClose [OF inv'(1) this]
  have "fine db st (MsgClose c ?st)" using close by (simp add: fine_def session_event_upd_conn)
  moreover have "fine db ?st (Some (upd_conn c f ?st))" if "f = (\<lambda>m. m\<lparr>m_send_msg_list := g m\<rparr>)" for f g
    unfolding that using session_inv_upd_conn [OF inv'(1)] by (intro fine_Some) simp_all
  then have "fine db st (Some (upd_conn c (\<lambda>m. m\<lparr>m_send_msg_list := g m\<rparr>) ?st))" for g
    by (simp add: fine_def session_event_upd_conn)
  ultimately show ?thesis by (simp add: MsgOnTimer_def Let_def)
qed

subsection \<open>Reachable states\<close>

text \<open>
  One event of the message server; the connection of an event is the one the event loop found in the
  map. \<open>env\<close>: a new connection has a fresh address and handle, \<open>new CImUser\<close> a fresh address.
\<close>

datatype msg_event =
    EConnect u64 conn u32
  | ELogin "bool \<times> bool \<times> bool" uptr u16 "login_req option" conn
  | EValidated bool u16 "validate_rsp option"
  | ELogout "u32 \<Rightarrow> bytes" bool u16 conn
  | EKickPC bool u16 "u32 option" conn
  | EServerKick u32 u32 u32
  | EClose conn
  | ETimer u64 conn
  | EAck u32 u32 conn

fun run_event :: "msg_event \<Rightarrow> msg_state \<Rightarrow> msg_state option" where
  "run_event (EConnect tick c h) st = Some (MsgOnConnect tick c h st)"
| "run_event (ELogin avail newp seq req c) st = HandleloginRequest avail newp seq req c st"
| "run_event (EValidated route_conn seq rsp) st = HandleValidateResponse route_conn seq rsp st"
| "run_event (ELogout ser db_conn seq c) st = HandleloginOutRequest ser db_conn seq c st"
| "run_event (EKickPC route_conn seq msg c) st = HandleKickPCClient route_conn seq msg c st"
| "run_event (EServerKick uid t reason) st = HandleServerKickUser uid t reason st"
| "run_event (EClose c) st = MsgClose c st"
| "run_event (ETimer tick c) st = MsgOnTimer tick c st"
| "run_event (EAck msg_id from_id c) st = Some (st\<lparr>conns := DelFromSendList msg_id from_id c (conns st)\<rparr>)"

definition msg_registered :: "msg_state \<Rightarrow> conn \<Rightarrow> bool" where
  "msg_registered st c \<longleftrightarrow> c \<in> snd ` set (g_msg_conn_map st)"

fun env :: "msg_state \<Rightarrow> msg_event \<Rightarrow> bool" where
  "env st (EConnect tick c h) \<longleftrightarrow> \<not> msg_registered st c \<and> map_of (g_msg_conn_map st) h = None \<and> h \<noteq> -1"
| "env st (ELogin avail newp seq req c) \<longleftrightarrow> msg_registered st c \<and> users st newp = None"
| "env st (ELogout ser db_conn seq c) \<longleftrightarrow> msg_registered st c"
| "env st (EKickPC route_conn seq msg c) \<longleftrightarrow> msg_registered st c"
| "env st (EClose c) \<longleftrightarrow> msg_registered st c"
| "env st (ETimer tick c) \<longleftrightarrow> msg_registered st c"
| "env st (EAck msg_id from_id c) \<longleftrightarrow> msg_registered st c"
| "env st _ \<longleftrightarrow> True"

text \<open>The database answers with the one non-zero id of the login name; no client logs in without a name.\<close>

fun polite :: "(string \<Rightarrow> u32) \<Rightarrow> msg_event \<Rightarrow> bool" where
  "polite db (EValidated route_conn seq (Some m)) \<longleftrightarrow>
     vr_result m = 0 \<longrightarrow> vr_user_id m = db (vr_user_name m) \<and> vr_user_id m \<noteq> 0"
| "polite db (ELogin avail newp seq (Some m) c) \<longleftrightarrow> lr_user_name m \<noteq> []"
| "polite db _ \<longleftrightarrow> True"

definition msg_init :: msg_state where
  "msg_init = \<lparr>conns = (\<lambda>_. CMsgConn 0), dead = {}, users = (\<lambda>_. None), m_im_user_map = [],
     m_im_user_map_by_name = (\<lambda>_. None), g_msg_conn_map = [], to_login = [], to_route = [], to_db = [],
     to_file = [], to_push = []\<rparr>"

inductive msg_reach :: "(string \<Rightarrow> u32) \<Rightarrow> msg_state \<Rightarrow> bool" for db where
  init: "msg_reach db msg_init"
| step: "msg_reach db st \<Longrightarrow> env st e \<Longrightarrow> polite db e \<Longrightarrow> run_event e st = Some st' \<Longrightarrow> msg_reach db st'"

lemma session_inv_init: "session_inv db None None msg_init"
  by (simp add: session_inv_def msg_init_def om_ok_def)

lemma registered_handle:
  assumes "session_inv db None None st" and "msg_registered st c"
  shows "\<exists>h. map_of (g_msg_conn_map st) h = Some c"
  using assms session_invD(2) [OF assms(1)] by (auto simp: msg_registered_def cm_ok_def)

lemma session_opens_connect:
  assumes "session_inv db None None st" and "c \<notin> snd ` set (g_msg_conn_map st)"
  shows "map_of (g_msg_conn_map st) h \<noteq> Some c"
  using assms(2) map_of_SomeD by force

lemma event_ok:
  assumes inv: "session_inv db None None st" and en: "env st e" and pol: "polite db e"
    and conn: "\<And>tick c h. e \<noteq> EConnect tick c h"
  shows "fine db st (run_event e st)"
proof (cases e)
  case (EConnect tick c h)
  then show ?thesis using conn by blast
next
  case (ELogin avail newp seq req c)
  then obtain k where "map_of (g_msg_conn_map st) k = Some c" using registered_handle [OF inv] en by auto
  from fine_HandleloginRequest [where avail = avail and newp = newp and seq = seq and req = req, OF inv this]
  show ?thesis using ELogin en pol by (cases req) auto
next
  case (EValidated r seq rsp)
  then show ?thesis using fine_HandleValidateResponse [OF inv, of rsp r seq] pol by (cases rsp) auto
next
  case (ELogout ser db_conn seq c)
  then obtain k where "map_of (g_msg_conn_map st) k = Some c" using registered_handle [OF inv] en by auto
  from fine_HandleloginOutRequest [OF inv this] show ?thesis by (simp add: ELogout)
next
  case (EClose c)
  then obtain k where "map_of (g_msg_conn_map st) k = Some c" using registered_handle [OF inv] en by auto
  from fine_MsgClose [OF inv this] show ?thesis by (simp add: EClose)
next
  case (ETimer tick c)
  then obtain k where "map_of (g_msg_conn_map st) k = Some c" using registered_handle [OF inv] en by auto
  from fine_MsgOnTimer [OF inv this] show ?thesis by (simp add: ETimer)
next
  case (EAck msg_id from_id c)
  have "same_session (conns st) (DelFromSendList msg_id from_id c (conns st))"
    by (simp add: same_session_def DelFromSendList_def)
  then show ?thesis using session_inv_conns [OF inv]
    by (auto simp: EAck sessions_same_def same_session_def intro!: fine_Some)
qed (simp_all add: fine_HandleKickPCClient fine_HandleServerKickUser inv)

lemma connect_ok:
  assumes inv: "session_inv db None None st" and en: "env st (EConnect tick c h)"
  shows "session_inv db None None (MsgOnConnect tick c h st)"
  using assms by (intro MsgOnConnect_ok) (auto simp: msg_registered_def)

lemma msg_reach_inv: "msg_reach db st \<Longrightarrow> session_inv db None None st"
proof (induction rule: msg_reach.induct)
  case (step st e st')
  show ?case
  proof (cases e)
    case (EConnect tick c h)
    then show ?thesis using connect_ok [OF step.IH, of tick c h] step.hyps by simp
  qed (use event_ok [OF step.IH step.hyps(2,3)] step.hyps(4) in \<open>simp_all add: fine_def del: run_event.simps\<close>)
qed (rule session_inv_init)

subsection \<open>Properties\<close>

text \<open>
  With named logins and a database that gives every name one id, no event of the message server
  ever reads a deleted user or connection, whatever the order of connects, logins, validations,
  kicks, time-outs and closes.
\<close>

lemma session_memory_safe:
  assumes "msg_reach db st" and "env st e" and "polite db e"
  shows "\<exists>st'. run_event e st = Some st'"
proof (cases "\<exists>tick c h. e = EConnect tick c h")
  case True
  then show ?thesis by auto
next
  case False
  then show ?thesis
    using event_ok [OF msg_reach_inv [OF assms(1)] assms(2,3)] by (auto simp: fine_def)
qed

text \<open>The handles of the sessions a user has open.\<close>

definition open_handles :: "msg_state \<Rightarrow> u32 \<Rightarrow> u32 set" where
  "open_handles st uid = {h. \<exists>c. map_of (g_msg_conn_map st) h = Some c \<and>
     m_bOpen (conns st c) \<and> mc_user_id (conns st c) = uid}"

lemma finite_open_handles: "finite (open_handles st uid)"
proof -
  have "open_handles st uid \<subseteq> dom (map_of (g_msg_conn_map st))" by (auto simp: open_handles_def)
  then show ?thesis using finite_dom_map_of finite_subset by blast
qed

definition balanced :: "msg_state \<Rightarrow> bool" where
  "balanced st \<longleftrightarrow> (\<forall>uid. count_list (to_login st) (USER_CNT_INC, uid) =
     count_list (to_login st) (USER_CNT_DEC, uid) + card (open_handles st uid))"

lemma balanced_event:
  assumes inv: "session_inv db None None st" and b: "balanced st" and ev: "session_event st st'"
  shows "balanced st'"
proof -
  consider (same) "sessions_same st st'" | (left) c where "session_left c st st'"
    | (opened) c uid where "session_opened c uid st st'" using ev by (auto simp: session_event_def)
  then show ?thesis
  proof cases
    case same
    then have "open_handles st' = open_handles st" by (auto simp: open_handles_def sessions_same_def fun_eq_iff)
    then show ?thesis using b same by (simp add: balanced_def sessions_same_def)
  next
    case (left c)
    then obtain h where h: "map_of (g_msg_conn_map st) h = Some c"
        "map_of (g_msg_conn_map st') = (map_of (g_msg_conn_map st))(h := None)"
      by (auto simp: session_left_def map_of_cm_erase)
    then have "open_handles st' uid = open_handles st uid - {h}" for uid
      using left by (auto simp: open_handles_def session_left_def)
    moreover have "h \<in> open_handles st uid \<longleftrightarrow> m_bOpen (conns st c) \<and> mc_user_id (conns st c) = uid" for uid
      using h by (simp add: open_handles_def)
    ultimately have "card (open_handles st uid) = card (open_handles st' uid) +
        (if m_bOpen (conns st c) \<and> mc_user_id (conns st c) = uid then 1 else 0)" for uid
      using card_Suc_Diff1 [OF finite_open_handles, of h st uid] by auto
    then show ?thesis
      using b left by (auto simp: balanced_def session_left_def const_defs)
  next
    case (opened c uid)
    obtain h where h: "map_of (g_msg_conn_map st) h = Some c"
      using opened registered_handle [OF inv] by (auto simp: session_opened_def msg_registered_def)
    have g: "g_msg_conn_map st' = g_msg_conn_map st" using opened by (simp add: session_opened_def)
    have "k = h \<longleftrightarrow> d = c" if "map_of (g_msg_conn_map st) k = Some d" for k d
      using client_unique [OF inv h that] by auto
    then have "open_handles st' i = open_handles st i \<union> (if i = uid then {h} else {})" for i
      using opened h unfolding open_handles_def g session_opened_def by (auto, metis+)
    moreover have "h \<notin> open_handles st i" for i
      using opened h by (auto simp: open_handles_def session_opened_def)
    ultimately have "card (open_handles st' i) = card (open_handles st i) + (if i = uid then 1 else 0)" for i
      using finite_open_handles by simp
    then show ?thesis
      using b opened by (auto simp: balanced_def session_opened_def const_defs)
  qed
qed

lemma msg_reach_balanced: "msg_reach db st \<Longrightarrow> balanced st"
proof (induction rule: msg_reach.induct)
  case init
  then show ?case by (simp add: balanced_def msg_init_def open_handles_def)
next
  case (step st e st')
  note inv = msg_reach_inv [OF step.hyps(1)]
  show ?case
  proof (cases "\<exists>tick c h. e = EConnect tick c h")
    case True
    then obtain tick c h where e: "e = EConnect tick c h" by blast
    have new: "map_of (g_msg_conn_map st) k \<noteq> Some c" for k
      using session_opens_connect [OF inv] step.hyps(2) by (simp add: e msg_registered_def)
    have "open_handles st' uid = open_handles st uid" for uid
      using step.hyps(2,4) new
      by (auto simp: e open_handles_def MsgOnConnect_def cm_insert_def CMsgConn_def split: if_splits)
    then show ?thesis using step by (auto simp: e balanced_def MsgOnConnect_def)
  next
    case False
    then have "fine db st (run_event e st)" using event_ok [OF inv step.hyps(2,3)] by blast
    then have "session_event st st'" using step.hyps(4) by (simp add: fine_def)
    then show ?thesis by (rule balanced_event [OF inv step.IH])
  qed
qed

lemma to_login_actions:
  "msg_reach db st \<Longrightarrow> (a, uid) \<in> set (to_login st) \<Longrightarrow> a = USER_CNT_INC \<or> a = USER_CNT_DEC"
proof (induction rule: msg_reach.induct)
  case (step st e st')
  note inv = msg_reach_inv [OF step.hyps(1)]
  show ?case
  proof (cases "\<exists>tick c h. e = EConnect tick c h")
    case True
    then show ?thesis using step by (auto simp: MsgOnConnect_def)
  next
    case False
    then have "session_event st st'"
      using event_ok [OF inv step.hyps(2,3)] step.hyps(4) by (force simp: fine_def)
    then show ?thesis
      using step.IH step.prems
      by (auto simp: session_event_def sessions_same_def session_left_def session_opened_def split: if_splits)
  qed
qed (simp add: msg_init_def)

text \<open>
  C8: the user counts the login servers are told are right: for every user, the increments sent minus
  the decrements sent are the open sessions of that user on this message server.
\<close>

theorem login_counts_balanced:
  assumes "msg_reach db st"
  shows "count_list (to_login st) (USER_CNT_INC, uid) =
    count_list (to_login st) (USER_CNT_DEC, uid) + card (open_handles st uid)"
  using msg_reach_balanced [OF assms] by (simp add: balanced_def)

text \<open>
  The authorization check at the head of \<open>HandlePdu\<close> rejects nothing: in every reachable state
  every command of every connected client passes it, that of a client that never logged in and that
  of one that has been kicked included.
\<close>

lemma authorization_never_refuses:
  assumes "msg_reach db st" and "msg_registered st c"
  shows "\<not> not_authorized cid (conns st c)"
proof -
  note inv = msg_reach_inv [OF assms(1)]
  obtain h where "map_of (g_msg_conn_map st) h = Some c" using registered_handle [OF inv assms(2)] by blast
  from session_invD(6) [OF inv this] show ?thesis by (auto simp: client_ok_def not_authorized_def)
qed

text \<open>A run of the server: \<open>Fault\<close> is a read of deleted memory, \<open>Impossible\<close> an event that cannot happen.\<close>

datatype run = Done msg_state | Fault | Impossible

fun run_events :: "msg_event list \<Rightarrow> msg_state \<Rightarrow> run" where
  "run_events [] st = Done st"
| "run_events (e # es) st =
     (if env st e then (case run_event e st of None \<Rightarrow> Fault | Some st' \<Rightarrow> run_events es st') else Impossible)"

lemma run_reach:
  "run_events es st = Done st' \<Longrightarrow> msg_reach db st \<Longrightarrow> \<forall>e \<in> set es. polite db e \<Longrightarrow> msg_reach db st'"
  by (induction es st rule: run_events.induct)
    (auto split: if_splits option.splits intro: msg_reach.step)

definition login_as :: "string \<Rightarrow> login_req" where
  "login_as n = \<lparr>lr_user_name = n, lr_online_status = 1, lr_client_type = 1\<rparr>"

lemmas run_simps = msg_init_def msg_registered_def MsgOnConnect_def cm_insert_def CMsgConn_def
  HandleloginRequest_def refuse_reason_def note_login_def user_for_login_def upd_conn_def upd_user_def
  GetImUserByloginName_def AddImUserByloginName_def CImUser_def AddUnValidateMsgConn_def login_as_def

lemmas close_simps = MsgClose_def close_by_id_def close_by_name_def GetImUserById_def cm_erase_def
  DelUnValidateMsgConn_def DelMsgConn_def IsMsgConnEmpty_def RemoveImUser_def RemoveImUserById_def
  RemoveImUserByloginName_def delete_user_def SendUserStatusUpdate_def

text \<open>
  C35: a client that logs in with an empty name and then with another one is left in the set of
  waiting connections of the user without name when it disconnects, so the answer of the database
  for that user makes the server read the deleted connection.
\<close>

theorem empty_login_name_reads_deleted_connection:
  assumes "n \<noteq> []" and "h \<noteq> -1" and "p \<noteq> q"
  shows "run_events
    [EConnect t c h, ELogin (True, True, True) p s1 (Some (login_as [])) c,
     ELogin (True, True, True) q s2 (Some (login_as n)) c, EClose c,
     EValidated r s3 (Some \<lparr>vr_user_name = [], vr_result = res, vr_handle = h, vr_user_id = i\<rparr>)] msg_init = Fault"
  using assms
  by (simp add: run_simps insort_insert_key_def) (simp add: close_simps HandleValidateResponse_def GetImUserByloginName_def upd_user_def)

lemma empty_login_name_reads_deleted_connection_witness:
  "run_events
    [EConnect 0 1 5, ELogin (True, True, True) 1 0 (Some (login_as [])) 1,
     ELogin (True, True, True) 2 0 (Some (login_as ''bob'')) 1, EClose 1,
     EValidated True 0 (Some \<lparr>vr_user_name = [], vr_result = 1, vr_handle = 5, vr_user_id = 0\<rparr>)] msg_init = Fault"
  by (rule empty_login_name_reads_deleted_connection) simp_all

text \<open>One user on two PC clients; the second login kicks the first.\<close>

definition two_logins :: "msg_event list" where
  "two_logins =
    [EConnect 0 1 5, ELogin (True, True, True) 1 0 (Some (login_as ''bob'')) 1,
     EValidated True 0 (Some \<lparr>vr_user_name = ''bob'', vr_result = 0, vr_handle = 5, vr_user_id = 7\<rparr>),
     EConnect 0 2 6, ELogin (True, True, True) 2 0 (Some (login_as ''bob'')) 2,
     EValidated True 0 (Some \<lparr>vr_user_name = ''bob'', vr_result = 0, vr_handle = 6, vr_user_id = 7\<rparr>)]"

definition two_logins_state :: msg_state where
  "two_logins_state = (case run_events two_logins msg_init of Done st \<Rightarrow> st | _ \<Rightarrow> msg_init)"

lemmas open_simps = HandleValidateResponse_def user_for_id_def open_session_def SetValidated_def SetUserId_def
  AddImUserById_def KickOut_def conns_alive_def KickOutSameClientType_def HandleKickUser_def client_send_def
  ValidateMsgConn_def AddMsgConn_def reply_def

lemma two_logins_run:
  "\<exists>st. run_events two_logins msg_init = Done st \<and> g_msg_conn_map st = [(6, 2), (5, 1)] \<and>
     m_bOpen (conns st 1) \<and> m_bKickOff (conns st 1) \<and> mc_user_id (conns st 1) = 7 \<and>
     m_bOpen (conns st 2) \<and> mc_user_id (conns st 2) = 7 \<and>
     to_login st = [(USER_CNT_INC, 7), (USER_CNT_INC, 7)] \<and>
     m_im_user_map st = [(7, 1)] \<and> (\<exists>u. users st 1 = Some u \<and> m_conn_map u = [(5, 1), (6, 2)] \<and> m_bValidate u)"
  by (simp add: two_logins_def run_simps insort_insert_key_def open_simps close_simps)

lemma two_logins_done: "run_events two_logins msg_init = Done two_logins_state"
  using two_logins_run by (auto simp: two_logins_state_def)

lemma two_logins_reach: "msg_reach (\<lambda>_. 7) two_logins_state"
  by (rule run_reach [OF two_logins_done msg_reach.init]) (simp add: two_logins_def login_as_def)

lemma two_logins_eval:
  "g_msg_conn_map two_logins_state = [(6, 2), (5, 1)]"
  "m_bOpen (conns two_logins_state 1)" "m_bKickOff (conns two_logins_state 1)" "mc_user_id (conns two_logins_state 1) = 7"
  "m_bOpen (conns two_logins_state 2)" "mc_user_id (conns two_logins_state 2) = 7"
  "to_login two_logins_state = [(USER_CNT_INC, 7), (USER_CNT_INC, 7)]" "m_im_user_map two_logins_state = [(7, 1)]"
  using two_logins_run by (auto simp: two_logins_done)

lemma session_memory_safe_witness: "\<exists>st'. run_event (EClose 1) two_logins_state = Some st'"
  by (rule session_memory_safe [OF two_logins_reach]) (simp_all add: msg_registered_def two_logins_eval)

lemma login_counts_balanced_witness: "card (open_handles two_logins_state 7) = 2"
  using login_counts_balanced [OF two_logins_reach, of 7] by (simp add: two_logins_eval const_defs)

lemma authorization_never_refuses_witness: "\<not> not_authorized CID_MSG_DATA (conns two_logins_state 1)"
  by (rule authorization_never_refuses [OF two_logins_reach]) (simp add: msg_registered_def two_logins_eval)

definition same_kind :: "u32 \<Rightarrow> conn option \<Rightarrow> conns \<Rightarrow> conn \<Rightarrow> bool" where
  "same_kind client_type pFromConn cs c \<longleftrightarrow>
     drop_bit 4 (m_client_type (cs c) XOR client_type) = 0 \<and> Some c \<noteq> pFromConn"

lemma kick_loop_skip:
  "\<forall>(k, d) \<in> set pre. \<not> same_kind t from cs d \<Longrightarrow>
   kick_loop t reason from u (pre @ xs) cs = kick_loop t reason from u xs cs"
  by (induction pre) (auto simp: same_kind_def)

text \<open>
  A kick reaches one connection only: the first one in the map, in the order of the handles, that
  is of the same kind as the new client and not the new client itself. It is told and marked; every
  other connection of the user stays as it is, of the same kind or not.
\<close>

lemma kick_reaches_one:
  assumes "om_ok (m_conn_map u)" and "m_conn_map u = pre @ (h, c) # post" and "mc_handle (cs c) = h"
    and "\<forall>(k, d) \<in> set pre. \<not> same_kind t from cs d" and "same_kind t from cs c"
  shows "KickOutSameClientType t reason from u cs = cs(c := (cs c)\<lparr>
    mc_out := mc_out (cs c) @ [MKickUser (iu_user_id u) reason], m_bKickOff := True\<rparr>)"
proof -
  have "map_of (m_conn_map u) h = Some c"
    using assms(1,2) by (intro map_of_is_SomeI) (auto simp: om_ok_def)
  then have "HandleKickUser c reason u cs = cs(c := (cs c)\<lparr>
      mc_out := mc_out (cs c) @ [MKickUser (iu_user_id u) reason], m_bKickOff := True\<rparr>)"
    using assms(3) by (simp add: HandleKickUser_def client_send_def)
  then show ?thesis
    using assms(2,5) kick_loop_skip [OF assms(4), of reason u "(h, c) # post"]
    by (simp add: KickOutSameClientType_def same_kind_def)
qed

definition three_pcs :: im_user where
  "three_pcs = (CImUser ''bob'')\<lparr>iu_user_id := 7, m_conn_map := [(5, 1), (6, 2), (8, 3)]\<rparr>"

definition pc_conns :: conns where
  "pc_conns = (\<lambda>c. (CMsgConn 0)\<lparr>mc_handle := [0, 5, 6, 8] ! c, m_client_type := 1\<rparr>)"

lemma kick_reaches_one_witness:
  "m_bKickOff (KickOutSameClientType 1 1 (Some 3) three_pcs pc_conns 1) \<and>
   \<not> m_bKickOff (KickOutSameClientType 1 1 (Some 3) three_pcs pc_conns 2)"
proof -
  have "KickOutSameClientType 1 1 (Some 3) three_pcs pc_conns = pc_conns(1 := (pc_conns 1)\<lparr>
    mc_out := mc_out (pc_conns 1) @ [MKickUser (iu_user_id three_pcs) 1], m_bKickOff := True\<rparr>)"
    by (rule kick_reaches_one [where pre = "[]" and h = 5 and post = "[(6, 2), (8, 3)]"])
      (simp_all add: three_pcs_def om_ok_def pc_conns_def same_kind_def)
  then show ?thesis by (simp add: pc_conns_def CMsgConn_def)
qed

text \<open>The connection count of a user is the number of open connections in the map.\<close>

lemma GetUserConn_count:
  "\<forall>(h, c) \<in> set (m_conn_map u). m_bOpen (cs c) \<Longrightarrow> snd (GetUserConn cs u) = of_nat (length (m_conn_map u))"
proof -
  have "\<forall>(h, c) \<in> set xs. m_bOpen (cs c) \<Longrightarrow>
    fold (\<lambda>(h, c) n. if m_bOpen (cs c) then n + 1 else n) xs k = k + of_nat (length xs)" for xs :: "(u32 \<times> conn) list" and k :: u32
    by (induction xs arbitrary: k) auto
  then show "\<forall>(h, c) \<in> set (m_conn_map u). m_bOpen (cs c) \<Longrightarrow> ?thesis" by (simp add: GetUserConn_def)
qed

lemma GetUserConnCnt_sum:
  assumes "\<forall>(i, p) \<in> set ps. \<exists>u. users st p = Some u \<and> m_bValidate u \<and> (\<forall>(h, c) \<in> set (m_conn_map u). m_bOpen (conns st c))"
  shows "snd (fold (\<lambda>(i, p) (user_conn_list, total_conn_cnt).
        case users st p of None \<Rightarrow> (user_conn_list, total_conn_cnt)
        | Some u \<Rightarrow> if m_bValidate u
            then (let user_conn_cnt = GetUserConn (conns st) u
                  in (user_conn_list @ [user_conn_cnt], total_conn_cnt + snd user_conn_cnt))
            else (user_conn_list, total_conn_cnt)) ps (l, t)) =
    t + of_nat (\<Sum>(i, p) \<leftarrow> ps. length (m_conn_map (the (users st p))))"
  using assms
proof (induction ps arbitrary: l t)
  case (Cons x ps)
  obtain i p where x: "x = (i, p)" by (cases x)
  then obtain u where u: "users st p = Some u" "m_bValidate u" "\<forall>(h, c) \<in> set (m_conn_map u). m_bOpen (conns st c)"
    using Cons.prems by auto
  show ?case using Cons.IH Cons.prems GetUserConn_count [OF u(3)] by (simp add: x u Let_def)
qed simp

definition all_open_handles :: "msg_state \<Rightarrow> u32 set" where
  "all_open_handles st = {h. \<exists>c. map_of (g_msg_conn_map st) h = Some c \<and> m_bOpen (conns st c)}"

lemma open_handles_split:
  assumes inv: "session_inv db None None st"
  shows "card (all_open_handles st) = (\<Sum>(i, p) \<leftarrow> m_im_user_map st. length (m_conn_map (the (users st p))))"
proof -
  define H where "H = (\<lambda>(i :: u32, p). fst ` set (m_conn_map (the (users st p))))"
  have user: "\<exists>u. users st p = Some u \<and> iu_user_id u = i \<and> i \<noteq> 0 \<and> user_ok db None None st p u"
    if "(i, p) \<in> set (m_im_user_map st)" for i p
  proof -
    have "map_of (m_im_user_map st) i = Some p" using that session_invD(1) [OF inv] by (simp add: om_ok_def)
    then show ?thesis using session_invD(3,5) [OF inv] by blast
  qed
  have mem: "h \<in> H (i, p) \<longleftrightarrow> (\<exists>c. map_of (g_msg_conn_map st) h = Some c \<and> m_bOpen (conns st c) \<and> mc_user_id (conns st c) = i)"
    if ip: "(i, p) \<in> set (m_im_user_map st)" for h i p
  proof -
    obtain u where u: "users st p = Some u" "iu_user_id u = i" "i \<noteq> 0" "user_ok db None None st p u"
      using user [OF ip] by blast
    have "h \<in> H (i, p) \<longleftrightarrow> (\<exists>c. map_of (m_conn_map u) h = Some c)"
      using u by (force simp: H_def user_ok_def om_ok_def)
    moreover have "map_of (m_conn_map u) h = Some c \<longleftrightarrow>
        map_of (g_msg_conn_map st) h = Some c \<and> m_bOpen (conns st c) \<and> mc_user_id (conns st c) = i" for c
    proof
      assume "map_of (m_conn_map u) h = Some c"
      then show "map_of (g_msg_conn_map st) h = Some c \<and> m_bOpen (conns st c) \<and> mc_user_id (conns st c) = i"
        using u by (simp add: user_ok_def)
    next
      assume c: "map_of (g_msg_conn_map st) h = Some c \<and> m_bOpen (conns st c) \<and> mc_user_id (conns st c) = i"
      have "map_of (m_im_user_map st) i = Some p" using u by (auto simp: user_ok_def)
      then show "map_of (m_conn_map u) h = Some c"
        using c u(1) session_invD(6) [OF inv, of h c] by (auto simp: client_ok_def)
    qed
    ultimately show ?thesis by blast
  qed
  have "all_open_handles st = (\<Union>x \<in> set (m_im_user_map st). H x)"
  proof (intro set_eqI iffI)
    fix h assume "h \<in> all_open_handles st"
    then obtain c where c: "map_of (g_msg_conn_map st) h = Some c" "m_bOpen (conns st c)"
      by (auto simp: all_open_handles_def)
    then obtain p where "map_of (m_im_user_map st) (mc_user_id (conns st c)) = Some p"
      using session_invD(6) [OF inv c(1)] by (auto simp: client_ok_def)
    then have "(mc_user_id (conns st c), p) \<in> set (m_im_user_map st)" by (rule map_of_SomeD)
    moreover from this have "h \<in> H (mc_user_id (conns st c), p)" using mem c by blast
    ultimately show "h \<in> (\<Union>x \<in> set (m_im_user_map st). H x)" by blast
  next
    fix h assume "h \<in> (\<Union>x \<in> set (m_im_user_map st). H x)"
    then show "h \<in> all_open_handles st" using mem by (auto simp: all_open_handles_def)
  qed
  also have "card \<dots> = (\<Sum>x \<in> set (m_im_user_map st). card (H x))"
  proof (rule card_UN_disjoint)
    show "\<forall>x \<in> set (m_im_user_map st). \<forall>y \<in> set (m_im_user_map st). x \<noteq> y \<longrightarrow> H x \<inter> H y = {}"
    proof (intro ballI impI)
      fix x y assume xy: "x \<in> set (m_im_user_map st)" "y \<in> set (m_im_user_map st)" "x \<noteq> y"
      obtain i p j q where eq: "x = (i, p)" "y = (j, q)" by (cases x, cases y)
      have "i \<noteq> j" using xy session_invD(1) [OF inv] by (auto simp: eq om_ok_def dest: eq_key_imp_eq_value)
      then show "H x \<inter> H y = {}" using mem xy(1,2) by (auto simp: eq)
    qed
  qed (auto simp: H_def)
  also have "\<dots> = (\<Sum>x \<leftarrow> m_im_user_map st. card (H x))"
    using session_invD(1) [OF inv] by (simp add: sum_list_distinct_conv_sum_set om_ok_def distinct_map)
  also have "map (\<lambda>x. card (H x)) (m_im_user_map st) =
      map (\<lambda>(i, p). length (m_conn_map (the (users st p)))) (m_im_user_map st)"
  proof (rule map_cong [OF refl])
    fix x assume x: "x \<in> set (m_im_user_map st)"
    obtain i p where eq: "x = (i, p)" by (cases x)
    obtain u where "users st p = Some u" "user_ok db None None st p u" using user [of i p] x eq by auto
    then have "om_ok (m_conn_map u)" by (simp add: user_ok_def)
    then have "card (H x) = length (map fst (m_conn_map u))"
      unfolding H_def eq using \<open>users st p = Some u\<close> distinct_card [of "map fst (m_conn_map u)"]
      by (simp add: om_ok_def)
    then show "card (H x) = (case x of (i, p) \<Rightarrow> length (m_conn_map (the (users st p))))"
      using \<open>users st p = Some u\<close> by (simp add: eq)
  qed
  finally show ?thesis .
qed

lemma reported_count:
  assumes "msg_reach db st"
  shows "snd (GetUserConnCnt st) = of_nat (card (all_open_handles st))"
proof -
  note inv = msg_reach_inv [OF assms]
  have "\<forall>(i, p) \<in> set (m_im_user_map st). \<exists>u. users st p = Some u \<and> m_bValidate u \<and>
      (\<forall>(h, c) \<in> set (m_conn_map u). m_bOpen (conns st c))"
  proof (safe)
    fix i p assume "(i, p) \<in> set (m_im_user_map st)"
    then have "map_of (m_im_user_map st) i = Some p" using session_invD(1) [OF inv] by (simp add: om_ok_def)
    then obtain u where u: "users st p = Some u" "iu_user_id u = i" "i \<noteq> 0" using session_invD(5) [OF inv] by blast
    then show "\<exists>u. users st p = Some u \<and> m_bValidate u \<and> (\<forall>(h, c) \<in> set (m_conn_map u). m_bOpen (conns st c))"
      using session_invD(3) [OF inv u(1)] by (auto simp: user_ok_def om_ok_def)
  qed
  from GetUserConnCnt_sum [OF this, of "[]" 0] show ?thesis
    by (simp add: GetUserConnCnt_def open_handles_split [OF inv])
qed

text \<open>
  The connection count a message server reports when it connects to a login server is the number
  of its open client sessions.
\<close>

lemma reported_connection_count:
  assumes "msg_reach db st"
  shows "snd (GetUserConnCnt st) = of_nat (card (all_open_handles st))"
  by (rule reported_count [OF assms])

lemma reported_connection_count_witness: "snd (GetUserConnCnt two_logins_state) = 2"
proof -
  have "all_open_handles two_logins_state = {5, 6}"
    using two_logins_eval by (auto simp: all_open_handles_def split: if_splits)
  then show ?thesis using reported_connection_count [OF two_logins_reach] by simp
qed

text \<open>The kinds of client a flag selects.\<close>

definition flag_selects :: "u32 \<Rightarrow> u32 \<Rightarrow> bool" where
  "flag_selects client_type_flag t \<longleftrightarrow>
     (if client_type_flag = CLIENT_TYPE_FLAG_PC then CHECK_CLIENT_TYPE_PC t
      else if client_type_flag = CLIENT_TYPE_FLAG_MOBILE then \<not> CHECK_CLIENT_TYPE_PC t
      else client_type_flag = CLIENT_TYPE_FLAG_BOTH)"

lemma user_broadcast_conn:
  "distinct (map snd (m_conn_map u)) \<Longrightarrow> user_broadcast m fl u cs d =
   (if d \<in> snd ` set (m_conn_map u) \<and> flag_selects fl (m_client_type (cs d))
    then (cs d)\<lparr>mc_out := mc_out (cs d) @ [m]\<rparr> else cs d)"
  by (simp add: user_broadcast_def BroadcastPduWithOutMobile_def BroadcastPduToMobile_def BroadcastPdu_def
      broadcast_where_conn flag_selects_def client_type_split)

lemma fold_user_broadcast:
  assumes "\<forall>(i, p) \<in> set ps. \<exists>u. users st p = Some u \<and> m_bValidate u \<and> distinct (map snd (m_conn_map u))"
  shows "fold (\<lambda>(i, p) cs. case users st p of None \<Rightarrow> cs
        | Some u \<Rightarrow> if m_bValidate u then user_broadcast m fl u cs else cs) ps cs d =
    (cs d)\<lparr>mc_out := mc_out (cs d) @ concat (map (\<lambda>(i, p).
       if d \<in> snd ` set (m_conn_map (the (users st p))) \<and> flag_selects fl (m_client_type (cs d)) then [m] else []) ps)\<rparr>"
  using assms
proof (induction ps arbitrary: cs)
  case (Cons x ps)
  obtain i p where x: "x = (i, p)" by (cases x)
  then obtain u where "users st p = Some u" "m_bValidate u" "distinct (map snd (m_conn_map u))"
    using Cons.prems by auto
  then show ?case using Cons by (auto simp: x user_broadcast_conn)
qed simp

lemma concat_only:
  "distinct xs \<Longrightarrow> (\<And>x. x \<in> set xs \<Longrightarrow> f x = (if x = a then [m] else [])) \<Longrightarrow>
   concat (map f xs) = (if a \<in> set xs then [m] else [])"
  by (induction xs) auto

text \<open>
  A notice for the clients of a kind (the status of a friend, for the PC clients) is sent once to
  every open connection of that kind, of whatever user, and to no other connection.
\<close>

lemma manager_broadcast_once:
  assumes "msg_reach db st" and "msg_registered st c"
  shows "conns (ManagerBroadcastPdu m fl st) c = (conns st c)\<lparr>mc_out := mc_out (conns st c) @
    (if m_bOpen (conns st c) \<and> flag_selects fl (m_client_type (conns st c)) then [m] else [])\<rparr>"
proof -
  note inv = msg_reach_inv [OF assms(1)]
  obtain h where h: "map_of (g_msg_conn_map st) h = Some c" using registered_handle [OF inv assms(2)] by blast
  have user: "\<exists>u. users st p = Some u \<and> iu_user_id u = i \<and> m_bValidate u \<and> user_ok db None None st p u"
    if "(i, p) \<in> set (m_im_user_map st)" for i p
  proof -
    have "map_of (m_im_user_map st) i = Some p" using that session_invD(1) [OF inv] by (simp add: om_ok_def)
    then obtain u where "i \<noteq> 0" "users st p = Some u" "iu_user_id u = i" using session_invD(5) [OF inv] by blast
    then show ?thesis using session_invD(3) [OF inv, of p u] by (auto simp: user_ok_def)
  qed
  have in_map: "(k, d) \<in> set (m_conn_map u) \<longleftrightarrow> map_of (m_conn_map u) k = Some d" if "user_ok db None None st p u" for k d p u
    using that by (simp add: user_ok_def om_ok_def)
  have distinct: "distinct (map snd (m_conn_map u))" if u: "user_ok db None None st p u" for p u
  proof -
    have "inj_on snd (set (m_conn_map u))"
    proof (rule inj_onI)
      fix x y assume xy: "x \<in> set (m_conn_map u)" "y \<in> set (m_conn_map u)" "snd x = snd y"
      have "map_of (m_conn_map u) (fst x) = Some (snd x)" "map_of (m_conn_map u) (fst y) = Some (snd y)"
        using xy in_map [OF u] by (metis prod.collapse)+
      then have "map_of (g_msg_conn_map st) (fst x) = Some (snd x)" "map_of (g_msg_conn_map st) (fst y) = Some (snd y)"
        using u by (simp_all add: user_ok_def)
      then show "x = y" using client_unique [OF inv] xy(3) by (metis prod.collapse)
    qed
    then show ?thesis using u by (auto simp: user_ok_def om_ok_def distinct_map)
  qed
  let ?f = "\<lambda>(i, p). if c \<in> snd ` set (m_conn_map (the (users st p))) \<and>
      flag_selects fl (m_client_type (conns st c)) then [m] else []"
  have "concat (map ?f (m_im_user_map st)) =
      (if m_bOpen (conns st c) \<and> flag_selects fl (m_client_type (conns st c)) then [m] else [])"
  proof (cases "m_bOpen (conns st c) \<and> flag_selects fl (m_client_type (conns st c))")
    case False
    have "?f x = []" if "x \<in> set (m_im_user_map st)" for x
    proof -
      obtain i p where x: "x = (i, p)" by (cases x)
      then obtain u where "users st p = Some u" "user_ok db None None st p u" using user \<open>x \<in> _\<close> by blast
      then show ?thesis using False in_map by (auto simp: x user_ok_def)
    qed
    then show ?thesis using False by (auto simp: concat_eq_Nil_conv)
  next
    case True
    obtain q v where q: "map_of (m_im_user_map st) (mc_user_id (conns st c)) = Some q" "users st q = Some v"
        "map_of (m_conn_map v) h = Some c"
      using session_invD(6) [OF inv h] True by (auto simp: client_ok_def)
    have "?f x = (if x = (mc_user_id (conns st c), q) then [m] else [])" if "x \<in> set (m_im_user_map st)" for x
    proof -
      obtain i p where x: "x = (i, p)" by (cases x)
      then obtain u where u: "users st p = Some u" "iu_user_id u = i" "user_ok db None None st p u"
        using user \<open>x \<in> _\<close> by blast
      have i: "map_of (m_im_user_map st) i = Some p"
        using that x session_invD(1) [OF inv] by (simp add: om_ok_def)
      have "c \<in> snd ` set (m_conn_map u) \<longleftrightarrow> x = (mc_user_id (conns st c), q)"
      proof
        assume "c \<in> snd ` set (m_conn_map u)"
        then obtain k where "map_of (m_conn_map u) k = Some c" using in_map [OF u(3)] by auto
        then have "mc_user_id (conns st c) = i" using u(2,3) by (simp add: user_ok_def)
        then show "x = (mc_user_id (conns st c), q)" using q(1) i x by simp
      next
        assume "x = (mc_user_id (conns st c), q)"
        then have "(h, c) \<in> set (m_conn_map u)" using x u(1) q map_of_SomeD by fastforce
        then show "c \<in> snd ` set (m_conn_map u)" by force
      qed
      then show ?thesis using True u(1) by (simp add: x)
    qed
    moreover have "distinct (m_im_user_map st)" using session_invD(1) [OF inv] by (simp add: om_ok_def distinct_map)
    ultimately show ?thesis using True q(1) map_of_SomeD by (subst concat_only) fastforce+
  qed
  moreover have "\<forall>(i, p) \<in> set (m_im_user_map st). \<exists>u. users st p = Some u \<and> m_bValidate u \<and> distinct (map snd (m_conn_map u))"
    using user distinct by blast
  ultimately show ?thesis by (simp add: ManagerBroadcastPdu_def fold_user_broadcast)
qed

lemma manager_broadcast_once_witness:
  "mc_out (conns (ManagerBroadcastPdu (MKickUser 0 0) CLIENT_TYPE_FLAG_BOTH two_logins_state) 2) =
   mc_out (conns two_logins_state 2) @ [MKickUser 0 0]"
  using manager_broadcast_once [OF two_logins_reach, of 2 "MKickUser 0 0" CLIENT_TYPE_FLAG_BOTH]
  by (simp add: msg_registered_def two_logins_eval flag_selects_def const_defs)

end
