(* ===== verification/Login_Server.thy ===== *)
theory Login_Server
  imports Public_Define Conn_Map Im_Conn "HOL-Library.Monad_Syntax"
begin

text \<open>
  \<open>login_server/LoginConn.cpp\<close>: the login server, which knows how many users every message server
  carries and sends a client to the one with the fewest. Parsing does not fail
  (\<open>ParseFromArray\<close> is called for its effect): the parsers are total parameters. A connection that is
  closed is deleted when the callback returns; closing it a second time deletes it under the
  running callback, and is \<open>None\<close>.
\<close>

subsection \<open>State\<close>

datatype login_conn_type = logIN_CONN_TYPE_CLIENT | logIN_CONN_TYPE_MSG_SERV

record msg_serv_info =
  ip_addr1 :: string
  ip_addr2 :: string
  port :: u16
  max_conn_cnt :: u32
  cur_conn_cnt :: u32
  hostname :: string

record msg_serv_rsp =
  result_code :: u32
  prior_ip :: "string option"
  backip_ip :: "string option"
  rsp_port :: "u16 option"

datatype login_out = LHeartBeat | LMsgServRsp u16 msg_serv_rsp

record login_conn =
  lg_handle :: u32
  m_conn_type :: login_conn_type
  lg_last_send_tick :: u64
  lg_last_recv_tick :: u64
  lg_out :: "login_out list"

type_synonym serv_map = "(u32 \<times> msg_serv_info) list"

record login_state =
  g_client_conn_map :: "(u32 \<times> conn) list"
  g_msg_serv_conn_map :: "(u32 \<times> conn) list"
  g_msg_serv_info :: serv_map
  g_total_online_user_cnt :: u32
  lconns :: "conn \<Rightarrow> login_conn"
  ldead :: "conn set"

text \<open>The parsed messages: of \<open>IMMsgServInfo\<close> the port is a 32 bit field.\<close>

record msg_serv_info_pb =
  mi_ip1 :: string
  mi_ip2 :: string
  mi_port :: u32
  mi_max_conn_cnt :: u32
  mi_cur_conn_cnt :: u32
  mi_host_name :: string

record login_pb =
  pb_msg_serv_info :: "bytes \<Rightarrow> msg_serv_info_pb"
  pb_user_cnt_update :: "bytes \<Rightarrow> u32"

subsection \<open>Operations\<close>

definition upd_lconn :: "conn \<Rightarrow> (login_conn \<Rightarrow> login_conn) \<Rightarrow> login_state \<Rightarrow> login_state" where
  "upd_lconn c f st = st\<lparr>lconns := (lconns st)(c := f (lconns st c))\<rparr>"

definition LoginSendPdu :: "u64 \<Rightarrow> login_out \<Rightarrow> conn \<Rightarrow> login_state \<Rightarrow> login_state" where
  "LoginSendPdu tick m this = upd_lconn this (\<lambda>c. c\<lparr>lg_last_send_tick := tick, lg_out := lg_out c @ [m]\<rparr>)"

text \<open>\<open>Close\<close> takes the users of a message server out of the total and forgets the server.\<close>

definition remove_msg_serv :: "u32 \<Rightarrow> login_state \<Rightarrow> login_state" where
  "remove_msg_serv h st = (case map_of (g_msg_serv_info st) h of None \<Rightarrow> st
     | Some pMsgServInfo \<Rightarrow>
         st\<lparr>g_total_online_user_cnt := g_total_online_user_cnt st - cur_conn_cnt pMsgServInfo,
            g_msg_serv_info := cm_erase h (g_msg_serv_info st)\<rparr>)"

definition LoginClose :: "conn \<Rightarrow> login_state \<Rightarrow> login_state option" where
  "LoginClose this st =
     (let h = lg_handle (lconns st this);
          st = (if h \<noteq> -1 then
                  (if m_conn_type (lconns st this) = logIN_CONN_TYPE_CLIENT
                   then st\<lparr>g_client_conn_map := cm_erase h (g_client_conn_map st)\<rparr>
                   else remove_msg_serv h (st\<lparr>g_msg_serv_conn_map := cm_erase h (g_msg_serv_conn_map st)\<rparr>))
                else st)
      in if this \<in> ldead st then None else Some (st\<lparr>ldead := insert this (ldead st)\<rparr>))"

text \<open>
  \<open>OnConnect2\<close> on the fresh object: the \<open>else\<close> of the type test has no statement of its own, so it
  guards the insertion, which a client connection does not get.
\<close>

definition OnConnect2 :: "u64 \<Rightarrow> conn \<Rightarrow> u32 \<Rightarrow> login_conn_type \<Rightarrow> login_state \<Rightarrow> login_state" where
  "OnConnect2 tick this handle conn_type st =
     (let st = st\<lparr>lconns := (lconns st)(this := \<lparr>lg_handle = handle, m_conn_type = conn_type,
                  lg_last_send_tick = tick, lg_last_recv_tick = tick, lg_out = []\<rparr>),
                  ldead := ldead st - {this}\<rparr>
      in if conn_type = logIN_CONN_TYPE_CLIENT then st
         else st\<lparr>g_msg_serv_conn_map := cm_insert handle this (g_msg_serv_conn_map st)\<rparr>)"

definition LoginOnTimer :: "u64 \<Rightarrow> conn \<Rightarrow> login_state \<Rightarrow> login_state option" where
  "LoginOnTimer curr_tick this st =
     (if m_conn_type (lconns st this) = logIN_CONN_TYPE_CLIENT then
        (if curr_tick > lg_last_recv_tick (lconns st this) + CLIENT_TIMEOUT then LoginClose this st else Some st)
      else
        (let st = (if curr_tick > lg_last_send_tick (lconns st this) + SERVER_HEARTBEAT_INTERVAL
                   then LoginSendPdu curr_tick LHeartBeat this st else st)
         in if curr_tick > lg_last_recv_tick (lconns st this) + SERVER_TIMEOUT then LoginClose this st else Some st))"

text \<open>The map keeps the entry it has; the total grows in any case.\<close>

definition HandleMsgServInfo :: "login_pb \<Rightarrow> conn \<Rightarrow> in_pdu \<Rightarrow> login_state \<Rightarrow> login_state" where
  "HandleMsgServInfo pb this p st =
     (let msg = pb_msg_serv_info pb (in_body p);
          pMsgServInfo = \<lparr>ip_addr1 = mi_ip1 msg, ip_addr2 = mi_ip2 msg, port = ucast (mi_port msg),
            max_conn_cnt = mi_max_conn_cnt msg, cur_conn_cnt = mi_cur_conn_cnt msg, hostname = mi_host_name msg\<rparr>;
          h = lg_handle (lconns st this)
      in st\<lparr>g_msg_serv_info := (if map_of (g_msg_serv_info st) h = None
                                 then om_put h pMsgServInfo (g_msg_serv_info st) else g_msg_serv_info st),
            g_total_online_user_cnt := g_total_online_user_cnt st + cur_conn_cnt pMsgServInfo\<rparr>)"

definition HandleUserCntUpdate :: "login_pb \<Rightarrow> conn \<Rightarrow> in_pdu \<Rightarrow> login_state \<Rightarrow> login_state" where
  "HandleUserCntUpdate pb this p st =
     (let h = lg_handle (lconns st this) in
      case map_of (g_msg_serv_info st) h of None \<Rightarrow> st
      | Some pMsgServInfo \<Rightarrow>
          (let d = (if pb_user_cnt_update pb (in_body p) = USER_CNT_INC then 1 else -1)
           in st\<lparr>g_msg_serv_info := om_put h (pMsgServInfo\<lparr>cur_conn_cnt := cur_conn_cnt pMsgServInfo + d\<rparr>)
                  (g_msg_serv_info st),
                 g_total_online_user_cnt := g_total_online_user_cnt st + d\<rparr>))"

text \<open>The search for the message server with the fewest users, over the map from its first entry.\<close>

fun min_conn_loop :: "serv_map \<Rightarrow> u32 \<Rightarrow> (u32 \<times> msg_serv_info) option \<Rightarrow> (u32 \<times> msg_serv_info) option" where
  "min_conn_loop [] min_user_cnt it_min_conn = it_min_conn"
| "min_conn_loop ((h, i) # it) min_user_cnt it_min_conn =
     (if cur_conn_cnt i < max_conn_cnt i \<and> cur_conn_cnt i < min_user_cnt
      then min_conn_loop it (cur_conn_cnt i) (Some (h, i))
      else min_conn_loop it min_user_cnt it_min_conn)"

definition min_conn :: "serv_map \<Rightarrow> (u32 \<times> msg_serv_info) option" where
  "min_conn m = min_conn_loop m (-1) None"

definition msg_serv_answer :: "serv_map \<Rightarrow> msg_serv_rsp" where
  "msg_serv_answer m =
     (if length m = 0
      then \<lparr>result_code = REFUSE_REASON_NO_MSG_SERVER, prior_ip = None, backip_ip = None, rsp_port = None\<rparr>
      else case min_conn m of
        None \<Rightarrow> \<lparr>result_code = REFUSE_REASON_MSG_SERVER_FULL, prior_ip = None, backip_ip = None, rsp_port = None\<rparr>
      | Some (h, i) \<Rightarrow> \<lparr>result_code = REFUSE_REASON_NONE, prior_ip = Some (ip_addr1 i),
            backip_ip = Some (ip_addr2 i), rsp_port = Some (port i)\<rparr>)"

definition LoginHandleMsgServRequest :: "u64 \<Rightarrow> conn \<Rightarrow> in_pdu \<Rightarrow> login_state \<Rightarrow> login_state option" where
  "LoginHandleMsgServRequest tick this p st =
     LoginClose this (LoginSendPdu tick (LMsgServRsp (in_seq p) (msg_serv_answer (g_msg_serv_info st))) this st)"

definition LoginHandlePdu :: "login_pb \<Rightarrow> u64 \<Rightarrow> conn \<Rightarrow> in_pdu \<Rightarrow> login_state \<Rightarrow> login_state option" where
  "LoginHandlePdu pb tick this p st =
     (let cid = in_cid p in
      if cid = CID_OTHER_HEARTBEAT then Some st
      else if cid = CID_OTHER_MSG_SERV_INFO then Some (HandleMsgServInfo pb this p st)
      else if cid = CID_OTHER_USER_CNT_UPDATE then Some (HandleUserCntUpdate pb this p st)
      else if cid = CID_LOGIN_REQ_MSGSERVER then LoginHandleMsgServRequest tick this p st
      else Some st)"

text \<open>\<open>CImConn::OnRead\<close> hands the PDUs it has received to the handler, one after the other.\<close>

fun login_pdus :: "login_pb \<Rightarrow> u64 \<Rightarrow> conn \<Rightarrow> in_pdu list \<Rightarrow> login_state \<Rightarrow> login_state option" where
  "login_pdus pb tick this [] st = Some st"
| "login_pdus pb tick this (p # ps) st = do {
     st \<leftarrow> LoginHandlePdu pb tick this p st;
     login_pdus pb tick this ps st}"

text \<open>
  \<open>imconn_callback\<close>: the connection is looked up in the map the socket was given, the one for its type.
\<close>

definition conn_map_of :: "login_conn_type \<Rightarrow> login_state \<Rightarrow> (u32 \<times> conn) list" where
  "conn_map_of t st = (case t of logIN_CONN_TYPE_CLIENT \<Rightarrow> g_client_conn_map st
                               | logIN_CONN_TYPE_MSG_SERV \<Rightarrow> g_msg_serv_conn_map st)"

definition LoginRead :: "login_pb \<Rightarrow> u64 \<Rightarrow> login_conn_type \<Rightarrow> u32 \<Rightarrow> in_pdu list \<Rightarrow> login_state \<Rightarrow> login_state option" where
  "LoginRead pb tick t h ps st =
     (case map_of (conn_map_of t st) h of None \<Rightarrow> Some st
      | Some c \<Rightarrow> login_pdus pb tick c ps (upd_lconn c (\<lambda>x. x\<lparr>lg_last_recv_tick := tick\<rparr>) st))"

definition LoginOnClose :: "login_conn_type \<Rightarrow> u32 \<Rightarrow> login_state \<Rightarrow> login_state option" where
  "LoginOnClose t h st =
     (case map_of (conn_map_of t st) h of None \<Rightarrow> Some st | Some c \<Rightarrow> LoginClose c st)"

fun timer_loop :: "u64 \<Rightarrow> (u32 \<times> conn) list \<Rightarrow> login_state \<Rightarrow> login_state option" where
  "timer_loop cur_time [] st = Some st"
| "timer_loop cur_time ((h, c) # it) st = do {
     st \<leftarrow> LoginOnTimer cur_time c st;
     timer_loop cur_time it st}"

definition login_conn_timer_callback :: "u64 \<Rightarrow> login_state \<Rightarrow> login_state option" where
  "login_conn_timer_callback cur_time st = do {
     st \<leftarrow> timer_loop cur_time (g_client_conn_map st) st;
     timer_loop cur_time (g_msg_serv_conn_map st) st}"

subsection \<open>The choice of a server\<close>

definition has_room :: "msg_serv_info \<Rightarrow> bool" where
  "has_room i \<longleftrightarrow> cur_conn_cnt i < max_conn_cnt i"

text \<open>The contract of the search, which the TCP and the HTTP front end share.\<close>

locale server_choice =
  fixes pick :: "serv_map \<Rightarrow> (u32 \<times> msg_serv_info) option"
  assumes pick_None: "pick m = None \<Longrightarrow> (h, i) \<in> set m \<Longrightarrow> \<not> has_room i"
    and pick_Some: "pick m = Some (h, i) \<Longrightarrow> (h, i) \<in> set m \<and> has_room i"
    and pick_least: "pick m = Some (h, i) \<Longrightarrow> (k, j) \<in> set m \<Longrightarrow> has_room j \<Longrightarrow>
      cur_conn_cnt i \<le> cur_conn_cnt j"
begin

definition free_places :: "serv_map \<Rightarrow> nat" where
  "free_places m = (\<Sum>(h, i) \<leftarrow> m. unat (max_conn_cnt i) - unat (cur_conn_cnt i))"

lemma pick_None_iff: "pick m = None \<longleftrightarrow> free_places m = 0"
proof -
  have "free_places m = 0 \<longleftrightarrow> (\<forall>(h, i) \<in> set m. \<not> has_room i)"
    by (induction m) (auto simp: free_places_def has_room_def word_less_nat_alt)
  moreover have "pick m \<noteq> None \<Longrightarrow> \<not> (\<forall>(h, i) \<in> set m. \<not> has_room i)"
    using pick_Some [of m] by fastforce
  ultimately show ?thesis using pick_None [of m] by blast
qed

lemma place_one:
  assumes m: "om_ok m" and p: "pick m = Some (h, i)"
  shows "free_places (om_put h (i\<lparr>cur_conn_cnt := cur_conn_cnt i + 1\<rparr>) m) + 1 = free_places m"
proof -
  have room: "unat (cur_conn_cnt i + 1) = unat (cur_conn_cnt i) + 1" "unat (cur_conn_cnt i) < unat (max_conn_cnt i)"
    using pick_Some [OF p] unat_u32_lt [of "max_conn_cnt i"]
    by (auto simp: has_room_def word_less_nat_alt unat_word_ariths)
  have "(h, i) \<in> set m" using pick_Some [OF p] by blast
  then show ?thesis using m
  proof (induction m)
    case (Cons x m)
    obtain k j where x: "x = (k, j)" by (cases x)
    show ?case
    proof (cases "k = h")
      case True
      then have "j = i" using Cons.prems by (force simp: x om_ok_def)
      then show ?thesis using room by (simp add: x True free_places_def)
    next
      case False
      then have "(h, i) \<in> set m" using Cons.prems by (auto simp: x)
      moreover have "k < h" using calculation Cons.prems False by (auto simp: x om_ok_def)
      then have "\<not> h < k" "h \<noteq> k" by order+
      moreover have "om_ok m" using Cons.prems by (simp add: x om_ok_def)
      moreover note \<open>\<not> h < k\<close> \<open>h \<noteq> k\<close>
      ultimately show ?thesis using Cons.IH by (simp add: x free_places_def)
    qed
  qed simp
qed

end

lemma has_room_less_max: "has_room i \<Longrightarrow> cur_conn_cnt i < -1"
  unfolding has_room_def by (metis order_less_le_trans word_order.extremum)

lemma min_conn_loop_scan:
  "min_conn_loop m lim b = scan_min (\<lambda>(h, i). has_room i) (\<lambda>(h, i). cur_conn_cnt i) m lim b"
  by (induction m lim b rule: min_conn_loop.induct) (simp_all add: has_room_def)

interpretation lc: server_choice min_conn
proof unfold_locales
  fix m :: serv_map and h i k j
  have spec: "case min_conn m of None \<Rightarrow> \<forall>x \<in> set m. \<not> (case x of (h, i) \<Rightarrow> has_room i)
    | Some z \<Rightarrow> z \<in> set m \<and> (case z of (h, i) \<Rightarrow> has_room i) \<and> (\<forall>x \<in> set m. (case x of (h, i) \<Rightarrow> has_room i) \<longrightarrow>
        (case z of (h, i) \<Rightarrow> cur_conn_cnt i) \<le> (case x of (h, i) \<Rightarrow> cur_conn_cnt i))"
    unfolding min_conn_def min_conn_loop_scan by (rule scan_min_spec) (auto simp: has_room_less_max)
  show "min_conn m = None \<Longrightarrow> (h, i) \<in> set m \<Longrightarrow> \<not> has_room i"
    and "min_conn m = Some (h, i) \<Longrightarrow> (h, i) \<in> set m \<and> has_room i"
    and "min_conn m = Some (h, i) \<Longrightarrow> (k, j) \<in> set m \<Longrightarrow> has_room j \<Longrightarrow> cur_conn_cnt i \<le> cur_conn_cnt j"
    using spec by auto
qed

subsection \<open>The total of the users\<close>

definition total_cnt :: "serv_map \<Rightarrow> u32" where
  "total_cnt m = (\<Sum>(h, i) \<leftarrow> m. cur_conn_cnt i)"

lemma total_cnt_put:
  "om_ok m \<Longrightarrow> total_cnt (om_put h j m) =
     total_cnt m - (case map_of m h of None \<Rightarrow> 0 | Some i \<Rightarrow> cur_conn_cnt i) + cur_conn_cnt j"
proof (induction h j m rule: om_put.induct)
  case (2 h j k i m)
  moreover have "map_of m h = None" if "h < k"
    using that 2(2) by (auto simp: om_ok_def map_of_eq_None_iff)
  moreover have "om_ok m" using 2(2) by (simp add: om_ok_def)
  ultimately show ?case by (simp add: total_cnt_def split: option.splits)
qed (simp add: total_cnt_def)

lemma total_cnt_erase:
  "om_ok m \<Longrightarrow> map_of m h = Some i \<Longrightarrow> total_cnt (cm_erase h m) = total_cnt m - cur_conn_cnt i"
proof (induction m)
  case (Cons x m)
  have "cm_erase h m = m" if "h \<notin> fst ` set m"
    using that by (force simp: cm_erase_def filter_id_conv)
  moreover have "om_ok m" using Cons.prems by (simp add: om_ok_def)
  ultimately show ?case
    using Cons by (cases x) (auto simp: total_cnt_def cm_erase_def om_ok_def split: if_splits)
qed simp

definition serv_ok :: "login_state \<Rightarrow> u32 \<Rightarrow> conn \<Rightarrow> bool" where
  "serv_ok st h c \<longleftrightarrow> lg_handle (lconns st c) = h \<and> h \<noteq> -1 \<and>
     m_conn_type (lconns st c) = logIN_CONN_TYPE_MSG_SERV \<and> c \<notin> ldead st"

definition login_inv :: "login_state \<Rightarrow> bool" where
  "login_inv st \<longleftrightarrow> g_client_conn_map st = [] \<and> cm_ok (g_msg_serv_conn_map st) \<and> om_ok (g_msg_serv_info st) \<and>
     (\<forall>h c. map_of (g_msg_serv_conn_map st) h = Some c \<longrightarrow> serv_ok st h c) \<and>
     (\<forall>h. map_of (g_msg_serv_info st) h \<noteq> None \<longrightarrow> map_of (g_msg_serv_conn_map st) h \<noteq> None) \<and>
     g_total_online_user_cnt st = total_cnt (g_msg_serv_info st)"

lemma login_invD:
  assumes "login_inv st"
  shows "g_client_conn_map st = []" "cm_ok (g_msg_serv_conn_map st)" "om_ok (g_msg_serv_info st)"
    "map_of (g_msg_serv_conn_map st) h = Some c \<Longrightarrow> serv_ok st h c"
    "map_of (g_msg_serv_info st) h = Some i \<Longrightarrow> map_of (g_msg_serv_conn_map st) h \<noteq> None"
    "g_total_online_user_cnt st = total_cnt (g_msg_serv_info st)"
  using assms by (auto simp: login_inv_def)

lemma upd_lconn_maps [simp]:
  "g_client_conn_map (upd_lconn c f st) = g_client_conn_map st"
  "g_msg_serv_conn_map (upd_lconn c f st) = g_msg_serv_conn_map st"
  "g_msg_serv_info (upd_lconn c f st) = g_msg_serv_info st"
  "g_total_online_user_cnt (upd_lconn c f st) = g_total_online_user_cnt st"
  "ldead (upd_lconn c f st) = ldead st"
  "lconns (upd_lconn c f st) = (lconns st)(c := f (lconns st c))"
  by (simp_all add: upd_lconn_def)

lemma login_inv_upd_lconn:
  "login_inv st \<Longrightarrow> lg_handle (f (lconns st c)) = lg_handle (lconns st c) \<Longrightarrow>
   m_conn_type (f (lconns st c)) = m_conn_type (lconns st c) \<Longrightarrow> login_inv (upd_lconn c f st)"
  by (auto simp: login_inv_def serv_ok_def)

lemma LoginClose_ok:
  assumes inv: "login_inv st" and c: "map_of (g_msg_serv_conn_map st) h = Some c"
  shows "\<exists>st'. LoginClose c st = Some st' \<and> login_inv st' \<and>
    g_msg_serv_conn_map st' = cm_erase h (g_msg_serv_conn_map st) \<and> lconns st' = lconns st \<and>
    g_msg_serv_info st' = cm_erase h (g_msg_serv_info st)"
proof -
  have ok: "lg_handle (lconns st c) = h" "h \<noteq> -1" "m_conn_type (lconns st c) = logIN_CONN_TYPE_MSG_SERV" "c \<notin> ldead st"
    using login_invD(4) [OF inv c] by (simp_all add: serv_ok_def)
  define st' where "st' = st\<lparr>g_msg_serv_conn_map := cm_erase h (g_msg_serv_conn_map st),
    g_msg_serv_info := cm_erase h (g_msg_serv_info st),
    g_total_online_user_cnt := g_total_online_user_cnt st -
      (case map_of (g_msg_serv_info st) h of None \<Rightarrow> 0 | Some i \<Rightarrow> cur_conn_cnt i),
    ldead := insert c (ldead st)\<rparr>"
  have unknown: "cm_erase h (g_msg_serv_info st) = g_msg_serv_info st" if "map_of (g_msg_serv_info st) h = None"
    using that by (force simp: cm_erase_def filter_id_conv map_of_eq_None_iff)
  have other: "c' \<noteq> c" if "map_of (g_msg_serv_conn_map st) k = Some c'" "k \<noteq> h" for k c'
    using login_invD(4) [OF inv that(1)] that(2) ok(1) by (auto simp: serv_ok_def)
  have "LoginClose c st = Some st'"
    using ok unknown by (simp add: LoginClose_def remove_msg_serv_def Let_def st'_def split: option.split)
  moreover have "login_inv st'"
    using inv other total_cnt_erase [OF login_invD(3) [OF inv], of h] om.inv_erase cm.inv_erase unknown
    by (auto simp: login_inv_def st'_def map_of_cm_erase serv_ok_def split: option.split)
  ultimately show ?thesis by (simp add: st'_def)
qed

lemma remove_msg_serv_conns [simp]:
  "lconns (remove_msg_serv h st) = lconns st" "ldead (remove_msg_serv h st) = ldead st"
  by (simp_all add: remove_msg_serv_def split: option.split)

lemma LoginClose_alive:
  "this \<notin> ldead st \<Longrightarrow> \<exists>st'. LoginClose this st = Some st' \<and> lconns st' = lconns st \<and> ldead st' = insert this (ldead st)"
  by (simp add: LoginClose_def Let_def)

lemma HandleMsgServInfo_ok:
  assumes inv: "login_inv st" and c: "map_of (g_msg_serv_conn_map st) h = Some c"
    and new: "map_of (g_msg_serv_info st) h = None"
  shows "login_inv (HandleMsgServInfo pb c p st)"
proof -
  have ok: "lg_handle (lconns st c) = h" using login_invD(4) [OF inv c] by (simp add: serv_ok_def)
  show ?thesis
    using inv new c om.find_put [OF login_invD(3) [OF inv]] om.inv_put [OF login_invD(3) [OF inv]]
    by (auto simp: login_inv_def HandleMsgServInfo_def Let_def ok total_cnt_put serv_ok_def)
qed

lemma HandleUserCntUpdate_ok:
  assumes inv: "login_inv st" and c: "map_of (g_msg_serv_conn_map st) h = Some c"
  shows "login_inv (HandleUserCntUpdate pb c p st)"
proof -
  have ok: "lg_handle (lconns st c) = h" using login_invD(4) [OF inv c] by (simp add: serv_ok_def)
  show ?thesis
  proof (cases "map_of (g_msg_serv_info st) h")
    case (Some i)
    then show ?thesis
      using inv c om.find_put [OF login_invD(3) [OF inv]] om.inv_put [OF login_invD(3) [OF inv]]
      by (auto simp: login_inv_def HandleUserCntUpdate_def Let_def ok total_cnt_put serv_ok_def)
  qed (simp add: HandleUserCntUpdate_def ok inv)
qed

text \<open>What a message server sends: its report once, before its updates or after, and no client request.\<close>

fun serv_pdus_ok :: "bool \<Rightarrow> in_pdu list \<Rightarrow> bool" where
  "serv_pdus_ok known [] \<longleftrightarrow> True"
| "serv_pdus_ok known (p # ps) \<longleftrightarrow> in_cid p \<noteq> CID_LOGIN_REQ_MSGSERVER \<and>
     (if in_cid p = CID_OTHER_MSG_SERV_INFO then \<not> known \<and> serv_pdus_ok True ps else serv_pdus_ok known ps)"

lemma login_pdus_ok:
  "login_inv st \<Longrightarrow> map_of (g_msg_serv_conn_map st) h = Some c \<Longrightarrow>
   serv_pdus_ok (map_of (g_msg_serv_info st) h \<noteq> None) ps \<Longrightarrow>
   \<exists>st'. login_pdus pb tick c ps st = Some st' \<and> login_inv st' \<and>
     g_msg_serv_conn_map st' = g_msg_serv_conn_map st"
proof (induction ps arbitrary: st)
  case (Cons p ps)
  have ok: "lg_handle (lconns st c) = h" using login_invD(4) [OF Cons.prems(1,2)] by (simp add: serv_ok_def)
  have m: "om_ok (g_msg_serv_info st)" using login_invD(3) [OF Cons.prems(1)] .
  obtain st1 where st1: "LoginHandlePdu pb tick c p st = Some st1" "login_inv st1"
    "g_msg_serv_conn_map st1 = g_msg_serv_conn_map st"
    "serv_pdus_ok (map_of (g_msg_serv_info st1) h \<noteq> None) ps"
  proof -
    consider (info) "in_cid p = CID_OTHER_MSG_SERV_INFO" | (cnt) "in_cid p = CID_OTHER_USER_CNT_UPDATE"
      | (other) "in_cid p \<noteq> CID_OTHER_MSG_SERV_INFO" "in_cid p \<noteq> CID_OTHER_USER_CNT_UPDATE" by blast
    then show thesis
    proof cases
      case info
      then have "map_of (g_msg_serv_info st) h = None" using Cons.prems(3) by simp
      from HandleMsgServInfo_ok [OF Cons.prems(1,2) this, of pb p] show thesis
        using info Cons.prems(3) that om.find_put [OF m]
        by (simp add: LoginHandlePdu_def HandleMsgServInfo_def Let_def ok const_defs)
    next
      case cnt
      from HandleUserCntUpdate_ok [OF Cons.prems(1,2), of pb p] show thesis
        using cnt Cons.prems(3) that om.find_put [OF m]
        by (simp add: LoginHandlePdu_def HandleUserCntUpdate_def ok const_defs Let_def split: option.splits)
    next
      case other
      then show thesis using Cons.prems that by (simp add: LoginHandlePdu_def Let_def)
    qed
  qed
  from Cons.IH [OF st1(2)] Cons.prems(2) st1(3,4)
  show ?case by (simp add: st1(1,3))
qed simp

lemma LoginOnTimer_ok:
  assumes inv: "login_inv st" and c: "map_of (g_msg_serv_conn_map st) h = Some c"
  shows "\<exists>st'. LoginOnTimer tick c st = Some st' \<and> login_inv st' \<and>
    (\<forall>k. k \<noteq> h \<longrightarrow> map_of (g_msg_serv_conn_map st') k = map_of (g_msg_serv_conn_map st) k)"
proof -
  let ?st = "LoginSendPdu tick LHeartBeat c st"
  have "login_inv ?st" "map_of (g_msg_serv_conn_map ?st) h = Some c" "g_msg_serv_conn_map ?st = g_msg_serv_conn_map st"
    using login_inv_upd_lconn [OF inv] c by (simp_all add: LoginSendPdu_def)
  note close = LoginClose_ok [OF this(1,2)] LoginClose_ok [OF inv c] this
  have "m_conn_type (lconns st c) = logIN_CONN_TYPE_MSG_SERV" using login_invD(4) [OF inv c] by (simp add: serv_ok_def)
  then show ?thesis
    using close inv by (auto simp: LoginOnTimer_def Let_def map_of_cm_erase)
qed

lemma timer_loop_ok:
  "login_inv st \<Longrightarrow> distinct (map fst xs) \<Longrightarrow> \<forall>(h, c) \<in> set xs. map_of (g_msg_serv_conn_map st) h = Some c \<Longrightarrow>
   \<exists>st'. timer_loop tick xs st = Some st' \<and> login_inv st'"
proof (induction xs arbitrary: st)
  case (Cons x xs)
  obtain h c where x: "x = (h, c)" by (cases x)
  have "map_of (g_msg_serv_conn_map st) h = Some c" using Cons.prems(3) by (simp add: x)
  from LoginOnTimer_ok [OF Cons.prems(1) this, of tick] obtain st1 where st1:
    "LoginOnTimer tick c st = Some st1" "login_inv st1"
    "\<forall>k. k \<noteq> h \<longrightarrow> map_of (g_msg_serv_conn_map st1) k = map_of (g_msg_serv_conn_map st) k" by blast
  have "\<forall>(k, d) \<in> set xs. map_of (g_msg_serv_conn_map st1) k = Some d"
    using Cons.prems(2,3) st1(3) by (fastforce simp: x)
  with Cons.IH [OF st1(2)] Cons.prems(2) show ?case by (simp add: x st1(1))
qed simp

subsection \<open>Reachable states\<close>

text \<open>
  Events carry the type of the socket's callback data. \<open>login_env\<close>: a new socket has a free handle and a
  new connection an address of its own; message servers follow \<open>serv_pdus_ok\<close>; clients send anything.
\<close>

datatype login_event =
    LConnect u64 conn u32 login_conn_type
  | LPdus u64 login_conn_type u32 "in_pdu list"
  | LClosed login_conn_type u32
  | LTick u64

fun run_login :: "login_pb \<Rightarrow> login_event \<Rightarrow> login_state \<Rightarrow> login_state option" where
  "run_login pb (LConnect tick c h t) st = Some (OnConnect2 tick c h t st)"
| "run_login pb (LPdus tick t h ps) st = LoginRead pb tick t h ps st"
| "run_login pb (LClosed t h) st = LoginOnClose t h st"
| "run_login pb (LTick tick) st = login_conn_timer_callback tick st"

fun login_env :: "login_state \<Rightarrow> login_event \<Rightarrow> bool" where
  "login_env st (LConnect tick c h t) \<longleftrightarrow> c \<notin> snd ` set (g_msg_serv_conn_map st) \<and> h \<noteq> -1 \<and>
     map_of (g_msg_serv_conn_map st) h = None"
| "login_env st (LPdus tick t h ps) \<longleftrightarrow>
     t = logIN_CONN_TYPE_CLIENT \<or> serv_pdus_ok (map_of (g_msg_serv_info st) h \<noteq> None) ps"
| "login_env st _ \<longleftrightarrow> True"

definition login_init :: login_state where
  "login_init = \<lparr>g_client_conn_map = [], g_msg_serv_conn_map = [], g_msg_serv_info = [],
     g_total_online_user_cnt = 0, lconns = (\<lambda>_. \<lparr>lg_handle = -1, m_conn_type = logIN_CONN_TYPE_CLIENT,
       lg_last_send_tick = 0, lg_last_recv_tick = 0, lg_out = []\<rparr>), ldead = {}\<rparr>"

inductive login_reach :: "login_pb \<Rightarrow> login_state \<Rightarrow> bool" for pb where
  init: "login_reach pb login_init"
| step: "login_reach pb st \<Longrightarrow> login_env st e \<Longrightarrow> run_login pb e st = Some st' \<Longrightarrow> login_reach pb st'"

lemma OnConnect2_ok:
  assumes inv: "login_inv st" and env: "login_env st (LConnect tick c h t)"
  shows "login_inv (OnConnect2 tick c h t st)"
proof -
  have other: "d \<noteq> c" if "map_of (g_msg_serv_conn_map st) k = Some d" for k d
    using env map_of_SomeD [OF that] by (auto simp: image_iff)
  then show ?thesis
    using inv env cm.inv_insert [OF login_invD(2) [OF inv], of h c]
    by (cases t) (auto simp: login_inv_def OnConnect2_def Let_def cm_insert_def serv_ok_def)
qed

lemma login_event_ok:
  assumes inv: "login_inv st" and env: "login_env st e"
  shows "\<exists>st'. run_login pb e st = Some st' \<and> login_inv st'"
proof (cases e)
  case (LConnect tick c h t)
  then show ?thesis using OnConnect2_ok [OF inv] env by simp
next
  case (LPdus tick t h ps)
  show ?thesis
  proof (cases "map_of (conn_map_of t st) h")
    case (Some c)
    then have t: "t = logIN_CONN_TYPE_MSG_SERV" "map_of (g_msg_serv_conn_map st) h = Some c"
      using login_invD(1) [OF inv] by (cases t; simp add: conn_map_of_def)+
    let ?st = "upd_lconn c (\<lambda>x. x\<lparr>lg_last_recv_tick := tick\<rparr>) st"
    have "login_inv ?st" by (rule login_inv_upd_lconn [OF inv]) simp_all
    from login_pdus_ok [OF this, of h c ps pb tick] env t LPdus Some
    show ?thesis by (auto simp: LoginRead_def)
  qed (simp add: LPdus LoginRead_def inv)
next
  case (LClosed t h)
  show ?thesis
  proof (cases "map_of (conn_map_of t st) h")
    case (Some c)
    then have "map_of (g_msg_serv_conn_map st) h = Some c"
      using login_invD(1) [OF inv] by (cases t; simp add: conn_map_of_def)
    from LoginClose_ok [OF inv this] show ?thesis using Some by (auto simp: LClosed LoginOnClose_def)
  qed (simp add: LClosed LoginOnClose_def inv)
next
  case (LTick tick)
  have "\<forall>(h, c) \<in> set (g_msg_serv_conn_map st). map_of (g_msg_serv_conn_map st) h = Some c"
    using login_invD(2) [OF inv] by (auto simp: cm_ok_def)
  with timer_loop_ok [OF inv, of "g_msg_serv_conn_map st" tick] login_invD(1,2) [OF inv]
  show ?thesis by (simp add: LTick login_conn_timer_callback_def cm_ok_def)
qed

lemma login_inv_init: "login_inv login_init"
  by (simp add: login_inv_def login_init_def om_ok_def total_cnt_def)

lemma login_reach_inv: "login_reach pb st \<Longrightarrow> login_inv st"
proof (induction rule: login_reach.induct)
  case (step st e st')
  then show ?case using login_event_ok [OF step.IH step.hyps(2), of pb] by simp
qed (rule login_inv_init)

subsection \<open>Properties\<close>


text \<open>
  Nothing a client sends to the client port has any effect: in every reachable state the PDUs and the
  close of a client socket leave the state as it is, so that no request is answered, and the connection
  object is never deleted.
\<close>

lemma client_port_unanswered:
  assumes "login_reach pb st"
  shows "LoginRead pb tick logIN_CONN_TYPE_CLIENT h ps st = Some st \<and>
    LoginOnClose logIN_CONN_TYPE_CLIENT h st = Some st"
  using login_invD(1) [OF login_reach_inv [OF assms]]
  by (simp_all add: LoginRead_def LoginOnClose_def conn_map_of_def)

text \<open>
  The handler of a request for a message server, which only a connection to the port of the message servers reaches: it
  answers once and closes the connection. The answer names a server with room that carries no more users than any
  other server with room, ``full'' exactly when every server is, and ``no server'' exactly when none is known.
\<close>

lemma request_handler_answers:
  assumes "this \<notin> ldead st"
  shows "\<exists>st' rsp. LoginHandleMsgServRequest tick this p st = Some st' \<and> this \<in> ldead st' \<and>
    lg_out (lconns st' this) = lg_out (lconns st this) @ [LMsgServRsp (in_seq p) rsp] \<and>
    (if g_msg_serv_info st = [] then result_code rsp = REFUSE_REASON_NO_MSG_SERVER
     else if \<forall>(h, i) \<in> set (g_msg_serv_info st). max_conn_cnt i \<le> cur_conn_cnt i
     then result_code rsp = REFUSE_REASON_MSG_SERVER_FULL
     else result_code rsp = REFUSE_REASON_NONE \<and>
       (\<exists>(h, i) \<in> set (g_msg_serv_info st). cur_conn_cnt i < max_conn_cnt i \<and>
          prior_ip rsp = Some (ip_addr1 i) \<and> backip_ip rsp = Some (ip_addr2 i) \<and> rsp_port rsp = Some (port i) \<and>
          (\<forall>(k, j) \<in> set (g_msg_serv_info st). cur_conn_cnt j < max_conn_cnt j \<longrightarrow> cur_conn_cnt i \<le> cur_conn_cnt j)))"
proof -
  let ?m = "g_msg_serv_info st" and ?rsp = "msg_serv_answer (g_msg_serv_info st)"
  let ?sent = "LoginSendPdu tick (LMsgServRsp (in_seq p) ?rsp) this st"
  have "this \<notin> ldead ?sent" using assms by (simp add: LoginSendPdu_def)
  then obtain st' where "LoginClose this ?sent = Some st'" "lconns st' = lconns ?sent" "this \<in> ldead st'"
    using LoginClose_alive by blast
  moreover have "if ?m = [] then result_code ?rsp = REFUSE_REASON_NO_MSG_SERVER
     else if \<forall>(h, i) \<in> set ?m. max_conn_cnt i \<le> cur_conn_cnt i then result_code ?rsp = REFUSE_REASON_MSG_SERVER_FULL
     else result_code ?rsp = REFUSE_REASON_NONE \<and>
       (\<exists>(h, i) \<in> set ?m. cur_conn_cnt i < max_conn_cnt i \<and>
          prior_ip ?rsp = Some (ip_addr1 i) \<and> backip_ip ?rsp = Some (ip_addr2 i) \<and> rsp_port ?rsp = Some (port i) \<and>
          (\<forall>(k, j) \<in> set ?m. cur_conn_cnt j < max_conn_cnt j \<longrightarrow> cur_conn_cnt i \<le> cur_conn_cnt j))"
  proof (cases "min_conn ?m")
    case None
    then have "\<forall>(h, i) \<in> set ?m. max_conn_cnt i \<le> cur_conn_cnt i"
      using lc.pick_None [OF None] by (fastforce simp: has_room_def)
    then show ?thesis using None by (simp add: msg_serv_answer_def)
  next
    case (Some x)
    obtain h i where x: "x = (h, i)" by (cases x)
    note pick = lc.pick_Some [OF Some [unfolded x]]
    have "\<not> (\<forall>(h, i) \<in> set ?m. max_conn_cnt i \<le> cur_conn_cnt i)" "?m \<noteq> []"
      using pick by (force simp: has_room_def)+
    then show ?thesis
      using pick lc.pick_least [OF Some [unfolded x]] Some
      by (simp add: msg_serv_answer_def has_room_def x) fast
  qed
  ultimately show ?thesis
    unfolding LoginHandleMsgServRequest_def
    by (intro exI [of _ st'] exI [of _ ?rsp]) (simp add: LoginSendPdu_def)
qed

text \<open>A client is sent to the chosen server, logs in there, and the server reports it.\<close>

definition admit :: "login_pb \<Rightarrow> in_pdu \<Rightarrow> login_state \<Rightarrow> login_state" where
  "admit pb inc st = (case min_conn (g_msg_serv_info st) of None \<Rightarrow> st
     | Some (h, i) \<Rightarrow> (case map_of (g_msg_serv_conn_map st) h of None \<Rightarrow> st
         | Some c \<Rightarrow> HandleUserCntUpdate pb c inc st))"

lemma admit_one:
  assumes inv: "login_inv st" and inc: "pb_user_cnt_update pb (in_body inc) = USER_CNT_INC"
  shows "login_inv (admit pb inc st) \<and>
    lc.free_places (g_msg_serv_info (admit pb inc st)) = lc.free_places (g_msg_serv_info st) - 1 \<and>
    ((\<forall>(h, i) \<in> set (g_msg_serv_info st). cur_conn_cnt i \<le> max_conn_cnt i) \<longrightarrow>
     (\<forall>(h, i) \<in> set (g_msg_serv_info (admit pb inc st)). cur_conn_cnt i \<le> max_conn_cnt i))"
proof (cases "min_conn (g_msg_serv_info st)")
  case None
  then show ?thesis using inv lc.pick_None_iff [of "g_msg_serv_info st"] by (simp add: admit_def)
next
  case (Some x)
  let ?m = "g_msg_serv_info st"
  obtain h i where x: "x = (h, i)" by (cases x)
  note m = login_invD(3) [OF inv] and pick = lc.pick_Some [OF Some [unfolded x]]
  have i: "map_of ?m h = Some i" using pick m by (simp add: om_ok_def)
  then obtain c where c: "map_of (g_msg_serv_conn_map st) h = Some c" using login_invD(5) [OF inv i] by blast
  have "lg_handle (lconns st c) = h" using login_invD(4) [OF inv c] by (simp add: serv_ok_def)
  then have info: "g_msg_serv_info (admit pb inc st) = om_put h (i\<lparr>cur_conn_cnt := cur_conn_cnt i + 1\<rparr>) ?m"
    using i c inc Some by (simp add: admit_def HandleUserCntUpdate_def x)
  have "cur_conn_cnt i + 1 \<le> max_conn_cnt i"
    using pick inc_le by (auto simp: has_room_def)
  then have "\<forall>(k, j) \<in> set (om_put h (i\<lparr>cur_conn_cnt := cur_conn_cnt i + 1\<rparr>) ?m). cur_conn_cnt j \<le> max_conn_cnt j"
    if "\<forall>(h, i) \<in> set ?m. cur_conn_cnt i \<le> max_conn_cnt i"
    using that om.entries_put [OF m] by auto
  moreover have "login_inv (admit pb inc st)"
    using HandleUserCntUpdate_ok [OF inv c] Some c by (simp add: admit_def x)
  ultimately show ?thesis using lc.place_one [OF m Some [unfolded x]] by (simp add: info)
qed

lemma admit_many:
  assumes inv: "login_inv st" and inc: "pb_user_cnt_update pb (in_body inc) = USER_CNT_INC"
  shows "login_inv ((admit pb inc ^^ n) st) \<and>
    lc.free_places (g_msg_serv_info ((admit pb inc ^^ n) st)) = lc.free_places (g_msg_serv_info st) - n \<and>
    ((\<forall>(h, i) \<in> set (g_msg_serv_info st). cur_conn_cnt i \<le> max_conn_cnt i) \<longrightarrow>
     (\<forall>(h, i) \<in> set (g_msg_serv_info ((admit pb inc ^^ n) st)). cur_conn_cnt i \<le> max_conn_cnt i))"
proof (induction n)
  case (Suc n)
  then show ?case using admit_one [OF _ inc, of "(admit pb inc ^^ n) st"] by auto
qed (simp add: inv)

text \<open>
  C16: admitting clients one after the other fills the message servers and never overfills one: each
  admission takes one free place, and the answer names a server as long as one is left.
\<close>

theorem admissions_fill_servers:
  assumes "login_reach pb st" and "pb_user_cnt_update pb (in_body inc) = USER_CNT_INC"
    and "\<forall>(h, i) \<in> set (g_msg_serv_info st). cur_conn_cnt i \<le> max_conn_cnt i"
  shows "(\<forall>(h, i) \<in> set (g_msg_serv_info ((admit pb inc ^^ n) st)). cur_conn_cnt i \<le> max_conn_cnt i) \<and>
    (result_code (msg_serv_answer (g_msg_serv_info ((admit pb inc ^^ n) st))) = REFUSE_REASON_NONE \<longleftrightarrow>
      n < (\<Sum>(h, i) \<leftarrow> g_msg_serv_info st. unat (max_conn_cnt i) - unat (cur_conn_cnt i)))"
proof
  let ?st = "(admit pb inc ^^ n) st"
  note many = admit_many [OF login_reach_inv [OF assms(1)] assms(2), of n]
  show "\<forall>(h, i) \<in> set (g_msg_serv_info ?st). cur_conn_cnt i \<le> max_conn_cnt i" using many assms(3) by blast
  have "result_code (msg_serv_answer (g_msg_serv_info ?st)) = REFUSE_REASON_NONE \<longleftrightarrow>
      min_conn (g_msg_serv_info ?st) \<noteq> None"
    by (auto simp: msg_serv_answer_def min_conn_def const_defs split: option.split)
  then show "result_code (msg_serv_answer (g_msg_serv_info ?st)) = REFUSE_REASON_NONE \<longleftrightarrow>
      n < (\<Sum>(h, i) \<leftarrow> g_msg_serv_info st. unat (max_conn_cnt i) - unat (cur_conn_cnt i))"
    using many lc.pick_None_iff [of "g_msg_serv_info ?st"] by (simp add: lc.free_places_def [symmetric] not_le)
qed

text \<open>
  A second report of the same connection is counted in the total and not in the map, and stays in the
  total when the server leaves; a second request in the same packet closes the connection twice.
\<close>

lemma repeated_report_counts_twice:
  assumes inv: "login_inv st" and c: "map_of (g_msg_serv_conn_map st) h = Some c"
    and known: "map_of (g_msg_serv_info st) h = Some i"
  shows "\<exists>st'. LoginClose c (HandleMsgServInfo pb c p st) = Some st' \<and>
    g_msg_serv_info st' = cm_erase h (g_msg_serv_info st) \<and>
    g_total_online_user_cnt st' = total_cnt (g_msg_serv_info st') + mi_cur_conn_cnt (pb_msg_serv_info pb (in_body p))"
proof -
  have ok: "lg_handle (lconns st c) = h" "h \<noteq> -1" "m_conn_type (lconns st c) = logIN_CONN_TYPE_MSG_SERV" "c \<notin> ldead st"
    using login_invD(4) [OF inv c] by (simp_all add: serv_ok_def)
  show ?thesis
    using ok known total_cnt_erase [OF login_invD(3) [OF inv] known] login_invD(6) [OF inv]
    by (simp add: LoginClose_def HandleMsgServInfo_def remove_msg_serv_def Let_def)
qed

lemma second_request_closes_twice:
  assumes "in_cid p = CID_LOGIN_REQ_MSGSERVER" and "in_cid q = CID_LOGIN_REQ_MSGSERVER"
  shows "login_pdus pb tick c [p, q] st = None"
  using assms by (auto simp: LoginHandlePdu_def LoginHandleMsgServRequest_def LoginClose_def LoginSendPdu_def
      const_defs Let_def split: if_splits)

subsection \<open>A run\<close>

definition example_login_pb :: login_pb where
  "example_login_pb = \<lparr>pb_msg_serv_info = (\<lambda>b. \<lparr>mi_ip1 = ''10.0.0.1'', mi_ip2 = ''10.0.0.2'', mi_port = 8000,
     mi_max_conn_cnt = 3, mi_cur_conn_cnt = of_nat (length b), mi_host_name = ''m''\<rparr>),
     pb_user_cnt_update = (\<lambda>b. of_nat (length b))\<rparr>"

definition info_pdu :: "nat \<Rightarrow> in_pdu" where
  "info_pdu n = \<lparr>in_cid = CID_OTHER_MSG_SERV_INFO, in_seq = 0, in_body = replicate n 0\<rparr>"

definition inc_pdu :: in_pdu where
  "inc_pdu = \<lparr>in_cid = CID_OTHER_USER_CNT_UPDATE, in_seq = 0, in_body = [0]\<rparr>"

text \<open>Two servers connect and report two users and one user.\<close>

definition two_servers :: login_state where
  "two_servers = login_init\<lparr>
     g_msg_serv_conn_map := [(6, 3), (5, 2)],
     g_msg_serv_info := [(5, \<lparr>ip_addr1 = ''10.0.0.1'', ip_addr2 = ''10.0.0.2'', port = 8000, max_conn_cnt = 3,
        cur_conn_cnt = 2, hostname = ''m''\<rparr>), (6, \<lparr>ip_addr1 = ''10.0.0.1'', ip_addr2 = ''10.0.0.2'', port = 8000,
        max_conn_cnt = 3, cur_conn_cnt = 1, hostname = ''m''\<rparr>)],
     g_total_online_user_cnt := 3,
     lconns := (lconns login_init)
       (2 := \<lparr>lg_handle = 5, m_conn_type = logIN_CONN_TYPE_MSG_SERV, lg_last_send_tick = 0,
              lg_last_recv_tick = 0, lg_out = []\<rparr>,
        3 := \<lparr>lg_handle = 6, m_conn_type = logIN_CONN_TYPE_MSG_SERV, lg_last_send_tick = 0,
              lg_last_recv_tick = 0, lg_out = []\<rparr>)\<rparr>"

lemma two_servers_reach: "login_reach example_login_pb two_servers"
proof -
  let ?c1 = "OnConnect2 0 2 5 logIN_CONN_TYPE_MSG_SERV login_init"
  have c1: "login_reach example_login_pb ?c1"
    by (rule login_reach.step [OF login_reach.init, where e = "LConnect 0 2 5 logIN_CONN_TYPE_MSG_SERV"])
      (simp_all add: login_init_def)
  let ?c2 = "OnConnect2 0 3 6 logIN_CONN_TYPE_MSG_SERV ?c1"
  have c2: "login_reach example_login_pb ?c2"
    by (rule login_reach.step [OF c1, where e = "LConnect 0 3 6 logIN_CONN_TYPE_MSG_SERV"])
      (simp_all add: login_init_def OnConnect2_def cm_insert_def)
  note defs = login_init_def OnConnect2_def cm_insert_def LoginRead_def conn_map_of_def upd_lconn_def info_pdu_def
    LoginHandlePdu_def HandleMsgServInfo_def const_defs example_login_pb_def Let_def two_servers_def
  define c3 where "c3 = the (LoginRead example_login_pb 0 logIN_CONN_TYPE_MSG_SERV 5 [info_pdu 2] ?c2)"
  have c3: "LoginRead example_login_pb 0 logIN_CONN_TYPE_MSG_SERV 5 [info_pdu 2] ?c2 = Some c3"
    by (simp add: c3_def defs)
  have fin: "LoginRead example_login_pb 0 logIN_CONN_TYPE_MSG_SERV 6 [info_pdu 1] c3 = Some two_servers"
    by (simp add: c3_def defs)
  have "login_reach example_login_pb c3"
    by (rule login_reach.step [OF c2, where e = "LPdus 0 logIN_CONN_TYPE_MSG_SERV 5 [info_pdu 2]"])
      (simp_all add: c3, simp add: defs)
  then show ?thesis
    by (rule login_reach.step [where e = "LPdus 0 logIN_CONN_TYPE_MSG_SERV 6 [info_pdu 1]"])
      (simp_all add: fin del: One_nat_def, simp add: c3_def defs)
qed


lemma client_port_unanswered_witness:
  "LoginRead example_login_pb 0 logIN_CONN_TYPE_CLIENT 9 [\<lparr>in_cid = CID_LOGIN_REQ_MSGSERVER, in_seq = 1, in_body = []\<rparr>]
     two_servers = Some two_servers"
  using client_port_unanswered [OF two_servers_reach] by blast

lemma request_handler_answers_witness:
  "\<exists>st' rsp. LoginHandleMsgServRequest 1 2 \<lparr>in_cid = CID_LOGIN_REQ_MSGSERVER, in_seq = 7, in_body = []\<rparr> two_servers = Some st' \<and>
     lg_out (lconns st' 2) = [LMsgServRsp 7 rsp] \<and> result_code rsp = REFUSE_REASON_NONE \<and> rsp_port rsp = Some 8000"
proof -
  have "2 \<notin> ldead two_servers" by (simp add: two_servers_def login_init_def)
  from request_handler_answers [OF this, of 1 "\<lparr>in_cid = CID_LOGIN_REQ_MSGSERVER, in_seq = 7, in_body = []\<rparr>"]
  show ?thesis by (auto simp: two_servers_def)
qed

lemma admissions_fill_servers_witness:
  "result_code (msg_serv_answer (g_msg_serv_info ((admit example_login_pb inc_pdu ^^ 2) two_servers))) = REFUSE_REASON_NONE \<and>
   result_code (msg_serv_answer (g_msg_serv_info ((admit example_login_pb inc_pdu ^^ 3) two_servers))) \<noteq> REFUSE_REASON_NONE"
proof -
  have "pb_user_cnt_update example_login_pb (in_body inc_pdu) = USER_CNT_INC"
    by (simp add: example_login_pb_def inc_pdu_def const_defs)
  note fill = admissions_fill_servers [OF two_servers_reach this]
  have "\<forall>(h, i) \<in> set (g_msg_serv_info two_servers). cur_conn_cnt i \<le> max_conn_cnt i"
    by (simp add: two_servers_def)
  from fill [OF this, of 2] fill [OF this, of 3] show ?thesis by (simp add: two_servers_def)
qed

end
