(* ===== verification/Serv_Conn.thy ===== *)
theory Serv_Conn
  imports Login_Server Im_User
begin

text \<open>
  The connections a message server opens: the templates of \<open>base/ServInfo.h\<close>, which keep one connection
  per configured server and reconnect with a growing delay, and two of the classes they are used
  with, \<open>CRouteServConn\<close> (its connect, close and timers and the choice of the master route
  server) and \<open>CloginServConn\<close>. What \<open>new\<close> and \<open>netlib_connect\<close> return is given by the environment: \<open>env i\<close> is
  the address and the handle for the \<open>i\<close>-th server; the handle is \<open>-1\<close> when the connect fails at once.
\<close>

definition MAX_RECONNECT_CNT :: u32 where "MAX_RECONNECT_CNT = 64"
definition MIN_RECONNECT_CNT :: u32 where "MIN_RECONNECT_CNT = 4"

record serv_info =
  server_name :: string
  server_ip :: string
  server_port :: u16
  idle_cnt :: u32
  reconnect_cnt :: u32
  serv_conn :: "conn option"

datatype serv_out =
    SHeartBeat
  | SFileServerIPReq
  | SRoleSet u32
  | SOnlineUserInfo "user_stat list"
  | SMsgServInfo msg_serv_info_pb
  | SUserCntUpdate u32 u32

record cs_conn =
  cs_handle :: u32
  m_serv_idx :: nat
  cs_open :: bool
  m_connect_time :: u64
  cs_last_send_tick :: u64
  cs_last_recv_tick :: u64
  cs_out :: "serv_out list"

record cs_state =
  serv_list :: "serv_info list"
  serv_conn_map :: "(u32 \<times> conn) list"
  cs_conns :: "conn \<Rightarrow> cs_conn"
  cs_dead :: "conn set"
  g_master_rs_conn :: "conn option"

type_synonym connect_env = "nat \<Rightarrow> conn \<times> u32"

definition upd_cs :: "conn \<Rightarrow> (cs_conn \<Rightarrow> cs_conn) \<Rightarrow> cs_state \<Rightarrow> cs_state" where
  "upd_cs c f st = st\<lparr>cs_conns := (cs_conns st)(c := f (cs_conns st c))\<rparr>"

definition upd_serv :: "nat \<Rightarrow> (serv_info \<Rightarrow> serv_info) \<Rightarrow> cs_state \<Rightarrow> cs_state" where
  "upd_serv i f st = st\<lparr>serv_list := (serv_list st)[i := f (serv_list st ! i)]\<rparr>"

definition cs_send :: "u64 \<Rightarrow> serv_out \<Rightarrow> conn \<Rightarrow> cs_state \<Rightarrow> cs_state" where
  "cs_send tick m c = upd_cs c (\<lambda>x. x\<lparr>cs_last_send_tick := tick, cs_out := cs_out x @ [m]\<rparr>)"

subsection \<open>The server list\<close>

text \<open>The constructor and \<open>Connect\<close>.\<close>

definition ServConnect :: "u64 \<Rightarrow> nat \<Rightarrow> conn \<times> u32 \<Rightarrow> cs_state \<Rightarrow> cs_state" where
  "ServConnect tick serv_idx = (\<lambda>(this, handle) st.
     (let st = st\<lparr>cs_conns := (cs_conns st)(this := \<lparr>cs_handle = handle, m_serv_idx = serv_idx, cs_open = False,
            m_connect_time = 0, cs_last_send_tick = tick, cs_last_recv_tick = tick, cs_out = []\<rparr>),
            cs_dead := cs_dead st - {this}\<rparr>
      in if handle \<noteq> -1 then st\<lparr>serv_conn_map := cm_insert handle this (serv_conn_map st)\<rparr> else st))"

definition serv_init :: "u64 \<Rightarrow> connect_env \<Rightarrow> cs_state \<Rightarrow> cs_state" where
  "serv_init tick env st = fold (\<lambda>i st.
     upd_serv i (\<lambda>s. s\<lparr>serv_conn := Some (fst (env i)), idle_cnt := 0, reconnect_cnt := MIN_RECONNECT_CNT div 2\<rparr>)
       (ServConnect tick i (env i) st)) [0..<length (serv_list st)] st"

definition check_one :: "u64 \<Rightarrow> connect_env \<Rightarrow> nat \<Rightarrow> cs_state \<Rightarrow> cs_state" where
  "check_one tick env i st =
     (case serv_conn (serv_list st ! i) of Some c \<Rightarrow> st
      | None \<Rightarrow>
         (let st = upd_serv i (\<lambda>s. s\<lparr>idle_cnt := idle_cnt s + 1\<rparr>) st in
          if idle_cnt (serv_list st ! i) \<ge> reconnect_cnt (serv_list st ! i)
          then upd_serv i (\<lambda>s. s\<lparr>serv_conn := Some (fst (env i))\<rparr>) (ServConnect tick i (env i) st)
          else st))"

definition serv_check_reconnect :: "u64 \<Rightarrow> connect_env \<Rightarrow> cs_state \<Rightarrow> cs_state" where
  "serv_check_reconnect tick env st = fold (check_one tick env) [0..<length (serv_list st)] st"

definition serv_reset :: "nat \<Rightarrow> cs_state \<Rightarrow> cs_state" where
  "serv_reset i st =
     (if i \<ge> length (serv_list st) then st
      else upd_serv i (\<lambda>s. s\<lparr>serv_conn := None, idle_cnt := 0,
        reconnect_cnt := (if reconnect_cnt s * 2 > MAX_RECONNECT_CNT then MIN_RECONNECT_CNT
                          else reconnect_cnt s * 2)\<rparr>) st)"

subsection \<open>CRouteServConn\<close>

fun oldest_loop :: "cs_state \<Rightarrow> serv_info list \<Rightarrow> u64 \<Rightarrow> conn option \<Rightarrow> conn option" where
  "oldest_loop st [] oldest_connect_time pOldestConn = pOldestConn"
| "oldest_loop st (s # it) oldest_connect_time pOldestConn =
     (case serv_conn s of
        Some c \<Rightarrow> if cs_open (cs_conns st c) \<and> m_connect_time (cs_conns st c) < oldest_connect_time
                  then oldest_loop st it (m_connect_time (cs_conns st c)) (Some c)
                  else oldest_loop st it oldest_connect_time pOldestConn
      | None \<Rightarrow> oldest_loop st it oldest_connect_time pOldestConn)"

definition update_master_route_serv_conn :: "u64 \<Rightarrow> cs_state \<Rightarrow> cs_state" where
  "update_master_route_serv_conn tick st =
     (let m = oldest_loop st (serv_list st) (-1) None; st = st\<lparr>g_master_rs_conn := m\<rparr> in
      case m of None \<Rightarrow> st | Some c \<Rightarrow> cs_send tick (SRoleSet 1) c st)"

definition RouteServClose :: "u64 \<Rightarrow> conn \<Rightarrow> cs_state \<Rightarrow> cs_state option" where
  "RouteServClose tick this st =
     (let st = serv_reset (m_serv_idx (cs_conns st this)) st;
          st = upd_cs this (\<lambda>c. c\<lparr>cs_open := False\<rparr>) st;
          h = cs_handle (cs_conns st this);
          st = (if h \<noteq> -1 then st\<lparr>serv_conn_map := cm_erase h (serv_conn_map st)\<rparr> else st)
      in if this \<in> cs_dead st then None
         else let st = st\<lparr>cs_dead := insert this (cs_dead st)\<rparr>
              in Some (if g_master_rs_conn st = Some this then update_master_route_serv_conn tick st else st))"

definition RouteServOnConfirm :: "u64 \<Rightarrow> user_stat list \<Rightarrow> conn \<Rightarrow> cs_state \<Rightarrow> cs_state" where
  "RouteServOnConfirm tick online_user_list this st =
     (let st = upd_cs this (\<lambda>c. c\<lparr>cs_open := True, m_connect_time := tick\<rparr>) st;
          st = upd_serv (m_serv_idx (cs_conns st this)) (\<lambda>s. s\<lparr>reconnect_cnt := MIN_RECONNECT_CNT div 2\<rparr>) st;
          st = (if g_master_rs_conn st = None then update_master_route_serv_conn tick st else st)
      in cs_send tick (SOnlineUserInfo online_user_list) this st)"

definition RouteServOnTimer :: "u64 \<Rightarrow> conn \<Rightarrow> cs_state \<Rightarrow> cs_state option" where
  "RouteServOnTimer curr_tick this st =
     (let st = (if curr_tick > cs_last_send_tick (cs_conns st this) + SERVER_HEARTBEAT_INTERVAL
                then cs_send curr_tick SHeartBeat this st else st)
      in if curr_tick > cs_last_recv_tick (cs_conns st this) + SERVER_TIMEOUT
         then RouteServClose curr_tick this st else Some st)"

fun route_timer_loop :: "u64 \<Rightarrow> (u32 \<times> conn) list \<Rightarrow> cs_state \<Rightarrow> cs_state option" where
  "route_timer_loop cur_time [] st = Some st"
| "route_timer_loop cur_time ((h, c) # it) st = do {
     st \<leftarrow> RouteServOnTimer cur_time c st;
     route_timer_loop cur_time it st}"

definition route_server_conn_timer_callback :: "u64 \<Rightarrow> connect_env \<Rightarrow> cs_state \<Rightarrow> cs_state option" where
  "route_server_conn_timer_callback cur_time env st = do {
     st \<leftarrow> route_timer_loop cur_time (serv_conn_map st) st;
     Some (serv_check_reconnect cur_time env st)}"

definition is_route_server_available :: "cs_state \<Rightarrow> bool" where
  "is_route_server_available st \<longleftrightarrow>
     (\<exists>s \<in> set (serv_list st). case serv_conn s of None \<Rightarrow> False | Some c \<Rightarrow> cs_open (cs_conns st c))"

definition send_to_all_route_server :: "u64 \<Rightarrow> serv_out \<Rightarrow> cs_state \<Rightarrow> cs_state" where
  "send_to_all_route_server tick m st = fold (\<lambda>s st. case serv_conn s of
       Some c \<Rightarrow> if cs_open (cs_conns st c) then cs_send tick m c st else st
     | None \<Rightarrow> st) (serv_list st) st"

definition get_route_serv_conn :: "cs_state \<Rightarrow> conn option" where
  "get_route_serv_conn st = g_master_rs_conn st"

subsection \<open>CloginServConn\<close>

text \<open>\<open>Close\<close> leaves \<open>m_bOpen\<close> as it is; the object is not reached any more.\<close>

definition LoginServClose :: "conn \<Rightarrow> cs_state \<Rightarrow> cs_state option" where
  "LoginServClose this st =
     (let st = serv_reset (m_serv_idx (cs_conns st this)) st;
          h = cs_handle (cs_conns st this);
          st = (if h \<noteq> -1 then st\<lparr>serv_conn_map := cm_erase h (serv_conn_map st)\<rparr> else st)
      in if this \<in> cs_dead st then None else Some (st\<lparr>cs_dead := insert this (cs_dead st)\<rparr>))"

text \<open>\<open>info\<close> holds the configured addresses and limits, \<open>cur_conn_cnt\<close> is the result of \<open>GetUserConnCnt\<close>.\<close>

definition LoginServOnConfirm :: "u64 \<Rightarrow> msg_serv_info_pb \<Rightarrow> u32 \<Rightarrow> conn \<Rightarrow> cs_state \<Rightarrow> cs_state" where
  "LoginServOnConfirm tick info cur_cnt this st =
     (let st = upd_cs this (\<lambda>c. c\<lparr>cs_open := True\<rparr>) st;
          st = upd_serv (m_serv_idx (cs_conns st this)) (\<lambda>s. s\<lparr>reconnect_cnt := MIN_RECONNECT_CNT div 2\<rparr>) st
      in cs_send tick (SMsgServInfo (info\<lparr>mi_cur_conn_cnt := cur_cnt\<rparr>)) this st)"

definition send_to_all_login_server :: "u64 \<Rightarrow> serv_out \<Rightarrow> cs_state \<Rightarrow> cs_state" where
  "send_to_all_login_server tick m st = fold (\<lambda>s st. case serv_conn s of
       Some c \<Rightarrow> if cs_open (cs_conns st c) then cs_send tick m c st else st
     | None \<Rightarrow> st) (serv_list st) st"

definition LoginServOnTimer :: "u64 \<Rightarrow> conn \<Rightarrow> cs_state \<Rightarrow> cs_state option" where
  "LoginServOnTimer curr_tick this st =
     (let st = (if curr_tick > cs_last_send_tick (cs_conns st this) + SERVER_HEARTBEAT_INTERVAL
                then cs_send curr_tick SHeartBeat this st else st)
      in if curr_tick > cs_last_recv_tick (cs_conns st this) + SERVER_TIMEOUT
         then LoginServClose this st else Some st)"

subsection \<open>The invariant\<close>

definition in_use :: "cs_state \<Rightarrow> nat \<Rightarrow> conn \<Rightarrow> bool" where
  "in_use st i c \<longleftrightarrow> i < length (serv_list st) \<and> serv_conn (serv_list st ! i) = Some c"

definition sconn_ok :: "cs_state \<Rightarrow> nat \<Rightarrow> conn \<Rightarrow> bool" where
  "sconn_ok st i c \<longleftrightarrow> m_serv_idx (cs_conns st c) = i \<and> c \<notin> cs_dead st \<and>
     (if cs_handle (cs_conns st c) = -1 then \<not> cs_open (cs_conns st c)
      else map_of (serv_conn_map st) (cs_handle (cs_conns st c)) = Some c) \<and>
     m_connect_time (cs_conns st c) < -1"

definition delays :: "u32 set" where "delays = {2, 4, 8, 16, 32, 64}"

definition delay_ok :: "serv_info \<Rightarrow> bool" where
  "delay_ok s \<longleftrightarrow> reconnect_cnt s \<in> delays \<and> (serv_conn s = None \<longrightarrow> idle_cnt s < reconnect_cnt s)"

definition master_ok :: "cs_state \<Rightarrow> bool" where
  "master_ok st \<longleftrightarrow> (case g_master_rs_conn st of
     None \<Rightarrow> \<forall>i c. in_use st i c \<longrightarrow> \<not> cs_open (cs_conns st c)
   | Some m \<Rightarrow> (\<exists>i. in_use st i m) \<and> cs_open (cs_conns st m) \<and>
       (\<forall>i c. in_use st i c \<longrightarrow> cs_open (cs_conns st c) \<longrightarrow>
          m_connect_time (cs_conns st m) \<le> m_connect_time (cs_conns st c)))"

definition conns_ok :: "cs_state \<Rightarrow> bool" where
  "conns_ok st \<longleftrightarrow> cm_ok (serv_conn_map st) \<and>
     (\<forall>i c. in_use st i c \<longrightarrow> sconn_ok st i c) \<and>
     (\<forall>h c. map_of (serv_conn_map st) h = Some c \<longrightarrow> h \<noteq> -1 \<and> cs_handle (cs_conns st c) = h \<and>
        in_use st (m_serv_idx (cs_conns st c)) c)"

definition cs_inv :: "cs_state \<Rightarrow> bool" where
  "cs_inv st \<longleftrightarrow> conns_ok st \<and> (\<forall>s \<in> set (serv_list st). delay_ok s) \<and> master_ok st"

lemma upd_cs_fields [simp]:
  "serv_list (upd_cs c f st) = serv_list st" "serv_conn_map (upd_cs c f st) = serv_conn_map st"
  "cs_dead (upd_cs c f st) = cs_dead st" "g_master_rs_conn (upd_cs c f st) = g_master_rs_conn st"
  "cs_conns (upd_cs c f st) = (cs_conns st)(c := f (cs_conns st c))"
  by (simp_all add: upd_cs_def)

lemma cs_send_fields [simp]:
  "serv_list (cs_send t m c st) = serv_list st" "serv_conn_map (cs_send t m c st) = serv_conn_map st"
  "cs_dead (cs_send t m c st) = cs_dead st" "g_master_rs_conn (cs_send t m c st) = g_master_rs_conn st"
  "cs_handle (cs_conns (cs_send t m c st) d) = cs_handle (cs_conns st d)"
  "m_serv_idx (cs_conns (cs_send t m c st) d) = m_serv_idx (cs_conns st d)"
  "cs_open (cs_conns (cs_send t m c st) d) = cs_open (cs_conns st d)"
  "m_connect_time (cs_conns (cs_send t m c st) d) = m_connect_time (cs_conns st d)"
  by (simp_all add: cs_send_def)

lemma upd_serv_fields [simp]:
  "serv_list (upd_serv i f st) = (serv_list st)[i := f (serv_list st ! i)]"
  "serv_conn_map (upd_serv i f st) = serv_conn_map st" "cs_dead (upd_serv i f st) = cs_dead st"
  "g_master_rs_conn (upd_serv i f st) = g_master_rs_conn st" "cs_conns (upd_serv i f st) = cs_conns st"
  by (simp_all add: upd_serv_def)

lemma cs_send_ok [simp]:
  "in_use (cs_send t m c st) = in_use st" "conns_ok (cs_send t m c st) = conns_ok st"
  "master_ok (cs_send t m c st) = master_ok st" "cs_inv (cs_send t m c st) = cs_inv st"
proof -
  show i: "in_use (cs_send t m c st) = in_use st" by (simp add: in_use_def fun_eq_iff)
  show c: "conns_ok (cs_send t m c st) = conns_ok st" by (simp add: conns_ok_def sconn_ok_def i)
  show "master_ok (cs_send t m c st) = master_ok st" by (simp add: master_ok_def i split: option.split)
  then show "cs_inv (cs_send t m c st) = cs_inv st" by (simp add: cs_inv_def c)
qed

lemma set_master_ok [simp]:
  "in_use (st\<lparr>g_master_rs_conn := m\<rparr>) = in_use st"
  "conns_ok (st\<lparr>g_master_rs_conn := m\<rparr>) = conns_ok st"
proof -
  show i: "in_use (st\<lparr>g_master_rs_conn := m\<rparr>) = in_use st" by (simp add: in_use_def fun_eq_iff)
  show "conns_ok (st\<lparr>g_master_rs_conn := m\<rparr>) = conns_ok st" by (simp add: conns_ok_def sconn_ok_def i)
qed

lemma oldest_loop_scan:
  "oldest_loop st ss lim b = scan_min (\<lambda>c. cs_open (cs_conns st c)) (\<lambda>c. m_connect_time (cs_conns st c))
     (List.map_filter serv_conn ss) lim b"
  by (induction st ss lim b rule: oldest_loop.induct) (simp_all add: List.map_filter_simps split: option.split)

lemma in_use_conns: "c \<in> set (List.map_filter serv_conn (serv_list st)) \<longleftrightarrow> (\<exists>i. in_use st i c)"
  by (force simp: in_use_def List.map_filter_def in_set_conv_nth)

lemma update_master_ok:
  assumes "conns_ok st"
  shows "master_ok (update_master_route_serv_conn tick st)"
proof -
  let ?cs = "List.map_filter serv_conn (serv_list st)"
  let ?m = "oldest_loop st (serv_list st) (-1) None"
  have "case ?m of None \<Rightarrow> \<forall>c \<in> set ?cs. \<not> cs_open (cs_conns st c)
    | Some z \<Rightarrow> z \<in> set ?cs \<and> cs_open (cs_conns st z) \<and>
        (\<forall>c \<in> set ?cs. cs_open (cs_conns st c) \<longrightarrow> m_connect_time (cs_conns st z) \<le> m_connect_time (cs_conns st c))"
    unfolding oldest_loop_scan
    by (rule scan_min_spec) (use assms in \<open>auto simp: in_use_conns conns_ok_def sconn_ok_def\<close>)
  then have m: "master_ok (st\<lparr>g_master_rs_conn := ?m\<rparr>)"
    by (simp add: master_ok_def in_use_conns [symmetric] split: option.splits) (auto simp: in_use_conns)
  show ?thesis
  proof (cases ?m)
    case None
    then show ?thesis using m by (simp add: update_master_route_serv_conn_def Let_def)
  next
    case (Some c)
    then show ?thesis using m by (simp add: update_master_route_serv_conn_def Let_def)
  qed
qed

lemma update_master_fields [simp]:
  "conns_ok (update_master_route_serv_conn tick st) = conns_ok st"
  "serv_list (update_master_route_serv_conn tick st) = serv_list st"
  "serv_conn_map (update_master_route_serv_conn tick st) = serv_conn_map st"
  by (simp_all add: update_master_route_serv_conn_def Let_def split: option.split)

subsection \<open>The operations keep the invariant\<close>

lemma delay_ok_upd: "\<forall>s \<in> set xs. delay_ok s \<Longrightarrow> delay_ok y \<Longrightarrow> \<forall>s \<in> set (xs[i := y]). delay_ok s"
  using set_update_subset_insert [of xs i y] by auto

lemma delays_double: "r \<in> delays \<Longrightarrow>
    (if r * 2 > MAX_RECONNECT_CNT then MIN_RECONNECT_CNT else r * 2) \<in> delays"
  by (auto simp: delays_def MAX_RECONNECT_CNT_def MIN_RECONNECT_CNT_def)

lemma delays_pos: "r \<in> delays \<Longrightarrow> 0 < r"
  by (auto simp: delays_def)

lemma conns_okD:
  assumes "conns_ok st"
  shows "in_use st i c \<Longrightarrow> sconn_ok st i c"
    and "map_of (serv_conn_map st) h = Some c \<Longrightarrow>
      h \<noteq> -1 \<and> cs_handle (cs_conns st c) = h \<and> in_use st (m_serv_idx (cs_conns st c)) c"
  using assms by (simp_all add: conns_ok_def)

definition same_ids :: "cs_state \<Rightarrow> cs_state \<Rightarrow> bool" where
  "same_ids st st' \<longleftrightarrow> (\<forall>d. cs_handle (cs_conns st' d) = cs_handle (cs_conns st d) \<and>
     m_serv_idx (cs_conns st' d) = m_serv_idx (cs_conns st d))"

lemma update_master_ids [simp]:
  "cs_handle (cs_conns (update_master_route_serv_conn tick st) d) = cs_handle (cs_conns st d)"
  "m_serv_idx (cs_conns (update_master_route_serv_conn tick st) d) = m_serv_idx (cs_conns st d)"
  by (simp_all add: update_master_route_serv_conn_def Let_def split: option.split)

text \<open>What every \<open>Close\<close> does: the entry of the connection is reset and the connection leaves the map and dies.\<close>

definition pool_ok :: "cs_state \<Rightarrow> bool" where
  "pool_ok st \<longleftrightarrow> conns_ok st \<and> (\<forall>s \<in> set (serv_list st). delay_ok s)"

lemma cs_inv_pool: "cs_inv st \<longleftrightarrow> pool_ok st \<and> master_ok st"
  by (auto simp: cs_inv_def pool_ok_def)

definition dropped :: "(cs_conn \<Rightarrow> cs_conn) \<Rightarrow> u32 \<Rightarrow> conn \<Rightarrow> cs_state \<Rightarrow> cs_state" where
  "dropped f h c st = (let st = upd_cs c f (serv_reset (m_serv_idx (cs_conns st c)) st)
     in st\<lparr>serv_conn_map := cm_erase h (serv_conn_map st), cs_dead := insert c (cs_dead st)\<rparr>)"

lemma dropped_ok:
  assumes ok: "conns_ok st" and del: "\<forall>s \<in> set (serv_list st). delay_ok s"
    and c: "map_of (serv_conn_map st) h = Some c" and st1: "st1 = dropped f h c st"
    and f: "\<And>x. cs_handle (f x) = cs_handle x \<and> m_serv_idx (f x) = m_serv_idx x"
  shows "pool_ok st1" and "serv_conn_map st1 = cm_erase h (serv_conn_map st)"
    and "in_use st1 j d \<longleftrightarrow> in_use st j d \<and> d \<noteq> c" and "same_ids st st1"
    and "length (serv_list st1) = length (serv_list st)"
    and "i \<noteq> m_serv_idx (cs_conns st c) \<Longrightarrow> serv_list st1 ! i = serv_list st ! i"
    and "cs_conns st1 = (cs_conns st)(c := f (cs_conns st c))" and "g_master_rs_conn st1 = g_master_rs_conn st"
    and "h \<noteq> -1" and "cs_handle (cs_conns st c) = h" and "c \<notin> cs_dead st" and "m_serv_idx (cs_conns st c) < length (serv_list st)"
proof -
  let ?i = "m_serv_idx (cs_conns st c)"
  show h: "h \<noteq> -1" "cs_handle (cs_conns st c) = h" "c \<notin> cs_dead st"
    using ok c by (auto simp: conns_ok_def sconn_ok_def)
  have u: "in_use st ?i c" using ok c by (auto simp: conns_ok_def)
  then show i: "?i < length (serv_list st)" by (simp add: in_use_def)
  obtain rs where rs: "serv_list st1 = (serv_list st)[?i := rs]" "serv_conn rs = None" "delay_ok rs"
  proof
    let ?s = "serv_list st ! ?i"
    let ?rs = "?s\<lparr>serv_conn := None, idle_cnt := 0, reconnect_cnt :=
      (if reconnect_cnt ?s * 2 > MAX_RECONNECT_CNT then MIN_RECONNECT_CNT else reconnect_cnt ?s * 2)\<rparr>"
    show "serv_list st1 = (serv_list st)[?i := ?rs]" using i by (simp add: st1 dropped_def serv_reset_def Let_def)
    show "serv_conn ?rs = None" by simp
    have "reconnect_cnt ?s \<in> delays" using del nth_mem [OF i] by (auto simp: delay_ok_def)
    note r = delays_double [OF this]
    show "delay_ok ?rs" using r delays_pos [OF r] by (simp add: delay_ok_def del: if_split)
  qed
  show map1: "serv_conn_map st1 = cm_erase h (serv_conn_map st)"
    and conns1: "cs_conns st1 = (cs_conns st)(c := f (cs_conns st c))"
    and m1: "g_master_rs_conn st1 = g_master_rs_conn st"
    using i by (simp_all add: st1 dropped_def serv_reset_def Let_def)
  have dead1: "cs_dead st1 = insert c (cs_dead st)" using i by (simp add: st1 dropped_def serv_reset_def Let_def)
  show len1: "length (serv_list st1) = length (serv_list st)"
    and list1: "\<And>j. j \<noteq> ?i \<Longrightarrow> serv_list st1 ! j = serv_list st ! j"
    using i rs by simp_all
  have at1: "serv_conn (serv_list st1 ! ?i) = None" "\<forall>s \<in> set (serv_list st1). delay_ok s"
    using i rs delay_ok_upd [OF del rs(3)] by simp_all
  show use: "in_use st1 j d \<longleftrightarrow> in_use st j d \<and> d \<noteq> c" for j d
  proof (cases "j = ?i")
    case True
    then show ?thesis using len1 at1 u by (auto simp: in_use_def)
  next
    case False
    have "d \<noteq> c" if "in_use st j d" using ok that False by (auto simp: conns_ok_def sconn_ok_def)
    then show ?thesis using len1 list1 [OF False] by (auto simp: in_use_def)
  qed
  have one: "d = c" if "in_use st j d" "cs_handle (cs_conns st d) = h" for j d
    using conns_okD(1) [OF ok that(1)] that(2) h(1) c by (simp add: sconn_ok_def)
  have other: "d \<noteq> c" if "map_of (serv_conn_map st) k = Some d" "k \<noteq> h" for k d
    using ok that h(2) by (auto simp: conns_ok_def)
  have same: "cs_handle (cs_conns st1 d) = cs_handle (cs_conns st d)"
    "m_serv_idx (cs_conns st1 d) = m_serv_idx (cs_conns st d)" for d by (simp_all add: conns1 f)
  then show "same_ids st st1" by (simp add: same_ids_def)
  have "sconn_ok st1 j d" if "in_use st j d" "d \<noteq> c" "sconn_ok st j d" for j d
    using that one [OF that(1)] by (auto simp: sconn_ok_def map1 conns1 dead1 map_of_cm_erase)
  moreover have "cm_ok (serv_conn_map st1)" using ok cm.inv_erase [of "serv_conn_map st" h] by (simp add: conns_ok_def map1)
  ultimately have "conns_ok st1"
    using ok other by (simp add: conns_ok_def use same) (simp add: map1 map_of_cm_erase)
  then show "pool_ok st1" using at1(2) by (simp add: pool_ok_def)
qed

lemma RouteServClose_ok:
  assumes inv: "cs_inv st" and c: "map_of (serv_conn_map st) h = Some c"
  shows "\<exists>st'. RouteServClose tick c st = Some st' \<and> cs_inv st' \<and> serv_conn_map st' = cm_erase h (serv_conn_map st) \<and>
    length (serv_list st') = length (serv_list st) \<and> same_ids st st' \<and>
    (\<forall>i. i \<noteq> m_serv_idx (cs_conns st c) \<longrightarrow> serv_list st' ! i = serv_list st ! i)"
proof -
  let ?f = "\<lambda>c. c\<lparr>cs_open := False\<rparr>"
  have ok: "conns_ok st" "\<forall>s \<in> set (serv_list st). delay_ok s" "master_ok st" using inv by (simp_all add: cs_inv_def)
  define st1 where "st1 = dropped ?f h c st"
  note st1 = dropped_ok [OF ok(1,2) c st1_def, simplified]
  have "master_ok st1" if "g_master_rs_conn st \<noteq> Some c"
    using ok(3) that by (auto simp: master_ok_def st1(3,7,8) split: option.splits)
  then have "cs_inv (if g_master_rs_conn st = Some c then update_master_route_serv_conn tick st1 else st1)"
    using st1(1) update_master_ok by (simp add: cs_inv_def pool_ok_def)
  moreover have "RouteServClose tick c st =
      Some (if g_master_rs_conn st = Some c then update_master_route_serv_conn tick st1 else st1)"
    using st1(9-12) by (simp add: RouteServClose_def st1_def dropped_def Let_def serv_reset_def)
  moreover have "same_ids st (if g_master_rs_conn st = Some c then update_master_route_serv_conn tick st1 else st1)"
    using st1(4) by (simp add: same_ids_def)
  ultimately show ?thesis using st1(2,5,6) by simp
qed

lemma RouteServOnConfirm_ok:
  assumes inv: "cs_inv st" and c: "map_of (serv_conn_map st) h = Some c"
    and new: "\<not> cs_open (cs_conns st c)" and tick: "tick < -1"
    and later: "\<forall>i d. in_use st i d \<longrightarrow> cs_open (cs_conns st d) \<longrightarrow> m_connect_time (cs_conns st d) \<le> tick"
  shows "cs_inv (RouteServOnConfirm tick us c st)"
proof -
  let ?i = "m_serv_idx (cs_conns st c)"
  have ok: "conns_ok st" "\<forall>s \<in> set (serv_list st). delay_ok s" "master_ok st" using inv by (simp_all add: cs_inv_def)
  have h: "h \<noteq> -1" "cs_handle (cs_conns st c) = h" "in_use st ?i c" using ok(1) c by (auto simp: conns_ok_def)
  then have i: "?i < length (serv_list st)" "serv_conn (serv_list st ! ?i) = Some c" by (simp_all add: in_use_def)
  define st1 where "st1 = upd_serv ?i (\<lambda>s. s\<lparr>reconnect_cnt := MIN_RECONNECT_CNT div 2\<rparr>)
    (upd_cs c (\<lambda>c. c\<lparr>cs_open := True, m_connect_time := tick\<rparr>) st)"
  have st1: "serv_conn_map st1 = serv_conn_map st" "cs_dead st1 = cs_dead st"
    "cs_conns st1 = (cs_conns st)(c := (cs_conns st c)\<lparr>cs_open := True, m_connect_time := tick\<rparr>)"
    "g_master_rs_conn st1 = g_master_rs_conn st" by (simp_all add: st1_def)
  have use: "in_use st1 = in_use st" using i by (auto simp: in_use_def st1_def fun_eq_iff nth_list_update)
  have same: "cs_handle (cs_conns st1 d) = cs_handle (cs_conns st d)"
    "m_serv_idx (cs_conns st1 d) = m_serv_idx (cs_conns st d)" for d by (simp_all add: st1(3))
  have "sconn_ok st1 j d" if "sconn_ok st j d" for j d
    using that h(1,2) tick by (cases "d = c") (simp_all add: sconn_ok_def st1)
  then have conns: "conns_ok st1"
    using ok(1) unfolding conns_ok_def use same st1(1) by blast
  have "delay_ok ((serv_list st ! ?i)\<lparr>reconnect_cnt := MIN_RECONNECT_CNT div 2\<rparr>)"
    by (simp add: delay_ok_def i(2) delays_def MIN_RECONNECT_CNT_def)
  from delay_ok_upd [OF ok(2) this, of ?i] have delay: "\<forall>s \<in> set (serv_list st1). delay_ok s"
    by (simp only: st1_def upd_serv_fields upd_cs_fields)
  have master: "master_ok st1" if some: "g_master_rs_conn st \<noteq> None"
  proof -
    obtain m where m: "g_master_rs_conn st = Some m" using some by blast
    then obtain k where k: "cs_open (cs_conns st m)" "in_use st k m"
      "\<And>i d. in_use st i d \<Longrightarrow> cs_open (cs_conns st d) \<Longrightarrow> m_connect_time (cs_conns st m) \<le> m_connect_time (cs_conns st d)"
      using ok(3) by (auto simp: master_ok_def)
    then have "m \<noteq> c" using new by blast
    have "m_connect_time (cs_conns st m) \<le> m_connect_time (cs_conns st1 d)"
      if "in_use st i d" "cs_open (cs_conns st1 d)" for i d
    proof (cases "d = c")
      case True
      then show ?thesis using later k(1,2) by (simp add: st1(3))
    next
      case False
      then show ?thesis using k(3) [OF that(1)] that(2) by (simp add: st1(3))
    qed
    moreover have "cs_conns st1 m = cs_conns st m" using \<open>m \<noteq> c\<close> by (simp add: st1(3))
    ultimately show ?thesis
      using k(1,2) unfolding master_ok_def use st1(4) m option.case by (metis (no_types))
  qed
  have "cs_inv (if g_master_rs_conn st1 = None then update_master_route_serv_conn tick st1 else st1)"
    using conns delay master update_master_ok by (simp add: cs_inv_def st1(4))
  then show ?thesis unfolding st1_def by (auto simp: RouteServOnConfirm_def Let_def split: if_splits)
qed

lemma RouteServOnTimer_ok:
  assumes inv: "cs_inv st" and c: "map_of (serv_conn_map st) h = Some c"
  shows "\<exists>st'. RouteServOnTimer tick c st = Some st' \<and> cs_inv st' \<and>
    (\<forall>k. k \<noteq> h \<longrightarrow> map_of (serv_conn_map st') k = map_of (serv_conn_map st) k) \<and>
    length (serv_list st') = length (serv_list st) \<and> same_ids st st' \<and>
    (\<forall>i. i \<noteq> m_serv_idx (cs_conns st c) \<longrightarrow> serv_list st' ! i = serv_list st ! i)"
proof -
  let ?st = "cs_send tick SHeartBeat c st"
  have "cs_inv ?st" "map_of (serv_conn_map ?st) h = Some c" using inv c by simp_all
  note close = RouteServClose_ok [OF this, of tick] RouteServClose_ok [OF inv c, of tick]
  show ?thesis using close inv by (auto simp: RouteServOnTimer_def Let_def map_of_cm_erase same_ids_def)
qed

text \<open>The timers of the connections leave every other entry alone.\<close>

lemma route_timer_loop_ok:
  "cs_inv st \<Longrightarrow> distinct (map fst xs) \<Longrightarrow> \<forall>(h, c) \<in> set xs. map_of (serv_conn_map st) h = Some c \<Longrightarrow>
   \<exists>st'. route_timer_loop tick xs st = Some st' \<and> cs_inv st' \<and> length (serv_list st') = length (serv_list st) \<and>
     same_ids st st' \<and> (\<forall>i. (\<forall>(h, c) \<in> set xs. m_serv_idx (cs_conns st c) \<noteq> i) \<longrightarrow> serv_list st' ! i = serv_list st ! i)"
proof (induction xs arbitrary: st)
  case (Cons x xs)
  obtain h c where x: "x = (h, c)" by (cases x)
  have c: "map_of (serv_conn_map st) h = Some c" using Cons.prems(3) by (simp add: x)
  from RouteServOnTimer_ok [OF Cons.prems(1) this, of tick] obtain st1 where st1:
    "RouteServOnTimer tick c st = Some st1" "cs_inv st1"
    "\<forall>k. k \<noteq> h \<longrightarrow> map_of (serv_conn_map st1) k = map_of (serv_conn_map st) k"
    "length (serv_list st1) = length (serv_list st)" "same_ids st st1"
    "\<forall>i. i \<noteq> m_serv_idx (cs_conns st c) \<longrightarrow> serv_list st1 ! i = serv_list st ! i" by blast
  have "\<forall>(k, d) \<in> set xs. map_of (serv_conn_map st1) k = Some d"
    using Cons.prems(2,3) st1(3) by (fastforce simp: x)
  with Cons.IH [OF st1(2)] Cons.prems(2) obtain st' where st': "route_timer_loop tick xs st1 = Some st'" "cs_inv st'"
    "length (serv_list st') = length (serv_list st1)" "same_ids st1 st'"
    "\<forall>i. (\<forall>(h, c) \<in> set xs. m_serv_idx (cs_conns st1 c) \<noteq> i) \<longrightarrow> serv_list st' ! i = serv_list st1 ! i"
    by auto
  have "serv_list st' ! i = serv_list st ! i" if "\<forall>(h, c) \<in> set (x # xs). m_serv_idx (cs_conns st c) \<noteq> i" for i
    using st'(5) st1(5,6) that by (force simp: x same_ids_def)
  then show ?case using st1(1,4,5) st'(1-4) by (auto simp: x same_ids_def)
qed (simp add: same_ids_def)

text \<open>What \<open>new\<close> and \<open>netlib_connect\<close> return for the entry \<open>i\<close>: a free address and a free handle.\<close>

definition fresh_at :: "connect_env \<Rightarrow> cs_state \<Rightarrow> nat \<Rightarrow> bool" where
  "fresh_at env st i \<longleftrightarrow> (\<forall>j. \<not> in_use st j (fst (env i))) \<and>
     (snd (env i) \<noteq> -1 \<longrightarrow> map_of (serv_conn_map st) (snd (env i)) = None)"

definition apart :: "connect_env \<Rightarrow> nat \<Rightarrow> bool" where
  "apart env n \<longleftrightarrow> (\<forall>i < n. \<forall>j < n. i \<noteq> j \<longrightarrow> fst (env i) \<noteq> fst (env j) \<and>
     (snd (env i) = snd (env j) \<longrightarrow> snd (env i) = -1))"

lemma ServConnect_ok:
  assumes ok: "conns_ok st" and i: "i < length (serv_list st)" and none: "serv_conn (serv_list st ! i) = None"
    and fresh: "fresh_at env st i" and f: "\<And>s. serv_conn (f s) = Some (fst (env i))"
    and st2_def: "st2 = upd_serv i f (ServConnect tick i (env i) st)"
  shows "conns_ok st2"
    and "in_use st2 j d \<longleftrightarrow> (if j = i then d = fst (env i) else in_use st j d)"
    and "cs_conns st2 d = (if d = fst (env i) then \<lparr>cs_handle = snd (env i), m_serv_idx = i, cs_open = False,
            m_connect_time = 0, cs_last_send_tick = tick, cs_last_recv_tick = tick, cs_out = []\<rparr> else cs_conns st d)"
    and "apart env n \<Longrightarrow> i < n \<Longrightarrow> j < n \<Longrightarrow> j \<noteq> i \<Longrightarrow> fresh_at env st j \<Longrightarrow> fresh_at env st2 j"
    and "serv_list st2 = (serv_list st)[i := f (serv_list st ! i)]" and "g_master_rs_conn st2 = g_master_rs_conn st"
proof -
  obtain c h where e: "env i = (c, h)" by (cases "env i")
  have new: "\<And>j. \<not> in_use st j c" "h \<noteq> -1 \<Longrightarrow> map_of (serv_conn_map st) h = None"
    using fresh by (simp_all add: fresh_at_def e)
  have st2: "serv_list st2 = (serv_list st)[i := f (serv_list st ! i)]"
    "serv_conn_map st2 = (if h \<noteq> -1 then cm_insert h c (serv_conn_map st) else serv_conn_map st)"
    "cs_dead st2 = cs_dead st - {c}" "g_master_rs_conn st2 = g_master_rs_conn st"
    "cs_conns st2 = (cs_conns st)(c := \<lparr>cs_handle = h, m_serv_idx = i, cs_open = False,
          m_connect_time = 0, cs_last_send_tick = tick, cs_last_recv_tick = tick, cs_out = []\<rparr>)"
    by (simp_all add: st2_def ServConnect_def Let_def e)
  have use2: "in_use st2 j d \<longleftrightarrow> (if j = i then d = c else in_use st j d)" for j d
    using i f by (auto simp: in_use_def st2(1) e)
  have use_i: "\<not> in_use st i d" for d using none by (simp add: in_use_def)
  have map2: "map_of (serv_conn_map st2) k = (if h \<noteq> -1 \<and> k = h then Some c else map_of (serv_conn_map st) k)" for k
    using new(2) by (auto simp: st2(2) cm_insert_def)
  have other: "d \<noteq> c" if "in_use st j d" for j d using new(1) that by blast
  have "sconn_ok st2 j d" if use: "in_use st2 j d" for j d
  proof (cases "j = i")
    case True
    have "(0::u64) < -1" by (simp add: word_gt_0)
    then show ?thesis using True use by (simp add: use2 sconn_ok_def st2(3,5) map2)
  next
    case False
    then have j: "in_use st j d" using use by (simp add: use2)
    then have "\<not> (cs_handle (cs_conns st d) = h \<and> h \<noteq> -1)"
      using conns_okD(1) [OF ok j] new(2) by (metis option.distinct(1) sconn_ok_def)
    then show ?thesis using conns_okD(1) [OF ok j] other [OF j] by (auto simp: sconn_ok_def st2(3,5) map2)
  qed
  moreover have "cm_ok (serv_conn_map st2)"
    using ok cm.inv_insert [of "serv_conn_map st" h c] by (simp add: conns_ok_def st2(2))
  moreover have "k \<noteq> -1 \<and> cs_handle (cs_conns st2 d) = k \<and> in_use st2 (m_serv_idx (cs_conns st2 d)) d"
    if m: "map_of (serv_conn_map st2) k = Some d" for k d
  proof (cases "h \<noteq> -1 \<and> k = h")
    case True
    then show ?thesis using m by (simp add: map2 st2(5) use2)
  next
    case False
    then have m': "map_of (serv_conn_map st) k = Some d" using m by (simp add: map2 del: de_Morgan_conj)
    have "in_use st (m_serv_idx (cs_conns st d)) d" using conns_okD(2) [OF ok m'] by blast
    then have "d \<noteq> c" "m_serv_idx (cs_conns st d) \<noteq> i" using other use_i by metis+
    then show ?thesis using conns_okD(2) [OF ok m'] by (simp add: st2(5) use2)
  qed
  ultimately show "conns_ok st2" by (simp add: conns_ok_def)
  show "fresh_at env st2 j" if a: "apart env n" "i < n" "j < n" "j \<noteq> i" "fresh_at env st j" for n j
  proof -
    have "fst (env j) \<noteq> c" "snd (env j) \<noteq> -1 \<longrightarrow> snd (env j) \<noteq> h"
      using a(1) [unfolded apart_def, rule_format, OF a(3,2,4)] by (auto simp: e)
    then show ?thesis using a(5) by (auto simp: fresh_at_def use2 map2)
  qed
  show "in_use st2 j d \<longleftrightarrow> (if j = i then d = fst (env i) else in_use st j d)" by (simp add: use2 e)
  show "cs_conns st2 d = (if d = fst (env i) then \<lparr>cs_handle = snd (env i), m_serv_idx = i, cs_open = False,
      m_connect_time = 0, cs_last_send_tick = tick, cs_last_recv_tick = tick, cs_out = []\<rparr> else cs_conns st d)"
    by (simp add: st2(5) e)
qed (simp_all add: st2_def ServConnect_def Let_def split_beta)

text \<open>An entry without a connection counts one more tick or gets one.\<close>

definition ages :: "serv_info \<Rightarrow> serv_info \<Rightarrow> bool" where
  "ages s s' \<longleftrightarrow> (serv_conn s = None \<longrightarrow> serv_conn s' \<noteq> None \<or>
     serv_conn s' = None \<and> idle_cnt s' = idle_cnt s + 1 \<and> reconnect_cnt s' = reconnect_cnt s) \<and>
     (serv_conn s \<noteq> None \<longrightarrow> s' = s)"

lemma check_one_ok:
  assumes inv: "cs_inv st" and i: "i < length (serv_list st)" and fresh: "fresh_at env st i"
  shows "cs_inv (check_one tick env i st) \<and> length (serv_list (check_one tick env i st)) = length (serv_list st) \<and>
    (\<forall>j. j \<noteq> i \<longrightarrow> serv_list (check_one tick env i st) ! j = serv_list st ! j) \<and>
    (\<forall>n. apart env n \<longrightarrow> i < n \<longrightarrow> (\<forall>j < n. j \<noteq> i \<longrightarrow> fresh_at env st j \<longrightarrow> fresh_at env (check_one tick env i st) j)) \<and>
    ages (serv_list st ! i) (serv_list (check_one tick env i st) ! i) \<and>
    (\<forall>j d. in_use st j d \<longrightarrow> cs_conns (check_one tick env i st) d = cs_conns st d)"
proof (cases "serv_conn (serv_list st ! i)")
  case (Some c)
  then show ?thesis using inv by (simp add: check_one_def ages_def)
next
  case None
  let ?s = "serv_list st ! i"
  have ok: "conns_ok st" "\<forall>s \<in> set (serv_list st). delay_ok s" "master_ok st" using inv by (simp_all add: cs_inv_def)
  have d: "delay_ok ?s" using ok(2) i by simp
  define st1 where "st1 = upd_serv i (\<lambda>s. s\<lparr>idle_cnt := idle_cnt s + 1\<rparr>) st"
  have st1: "serv_list st1 = (serv_list st)[i := ?s\<lparr>idle_cnt := idle_cnt ?s + 1\<rparr>]"
    "serv_conn_map st1 = serv_conn_map st" "cs_dead st1 = cs_dead st" "cs_conns st1 = cs_conns st"
    "g_master_rs_conn st1 = g_master_rs_conn st" by (simp_all add: st1_def)
  have use1: "in_use st1 = in_use st"
    using i None by (auto simp: in_use_def st1(1) fun_eq_iff nth_list_update)
  show ?thesis
  proof (cases "reconnect_cnt ?s \<le> idle_cnt ?s + 1")
    case False
    then have step: "check_one tick env i st = st1" using None i by (simp add: check_one_def st1_def Let_def)
    have "delay_ok (?s\<lparr>idle_cnt := idle_cnt ?s + 1\<rparr>)" using d False by (simp add: delay_ok_def not_le)
    from delay_ok_upd [OF ok(2) this, of i] have "\<forall>s \<in> set (serv_list st1). delay_ok s" by (simp only: st1(1))
    moreover have "conns_ok st1" using ok(1) by (simp add: conns_ok_def sconn_ok_def use1 st1(2-5))
    moreover have "master_ok st1" using ok(3) by (simp add: master_ok_def use1 st1(2-5) split: option.splits)
    ultimately show ?thesis
      using i None unfolding step
      by (simp add: cs_inv_def) (simp add: st1(1,2,4) fresh_at_def use1 ages_def)
  next
    case True
    let ?f = "\<lambda>s. s\<lparr>serv_conn := Some (fst (env i))\<rparr>"
    define st2 where "st2 = upd_serv i ?f (ServConnect tick i (env i) st1)"
    have step: "check_one tick env i st = st2" using None i True by (simp add: check_one_def st1_def st2_def Let_def)
    have "conns_ok st1" using ok(1) by (simp add: conns_ok_def sconn_ok_def use1 st1(2-5))
    moreover have "i < length (serv_list st1)" "serv_conn (serv_list st1 ! i) = None" "fresh_at env st1 i"
      using i None fresh by (simp_all add: st1(1,2) fresh_at_def use1)
    ultimately have st2: "conns_ok st2"
      "in_use st2 j d \<longleftrightarrow> (if j = i then d = fst (env i) else in_use st j d)"
      "cs_conns st2 d = (if d = fst (env i) then \<lparr>cs_handle = snd (env i), m_serv_idx = i, cs_open = False,
            m_connect_time = 0, cs_last_send_tick = tick, cs_last_recv_tick = tick, cs_out = []\<rparr> else cs_conns st d)"
      "apart env n \<Longrightarrow> i < n \<Longrightarrow> j < n \<Longrightarrow> j \<noteq> i \<Longrightarrow> fresh_at env st j \<Longrightarrow> fresh_at env st2 j"
      "serv_list st2 = (serv_list st)[i := ?s\<lparr>idle_cnt := idle_cnt ?s + 1, serv_conn := Some (fst (env i))\<rparr>]"
      "g_master_rs_conn st2 = g_master_rs_conn st" for j d n
      using ServConnect_ok [of st1 i env ?f st2 tick] i
      by (simp_all add: st2_def [symmetric] st1 use1 fresh_at_def)
    have other: "d \<noteq> fst (env i)" if "in_use st j d" for j d using fresh that by (auto simp: fresh_at_def)
    have "delay_ok (?s\<lparr>idle_cnt := idle_cnt ?s + 1, serv_conn := Some (fst (env i))\<rparr>)" using d by (simp add: delay_ok_def)
    from delay_ok_upd [OF ok(2) this, of i] have "\<forall>s \<in> set (serv_list st2). delay_ok s" by (simp only: st2(5))
    moreover have "master_ok st2"
    proof (cases "g_master_rs_conn st")
      case None
      then have "\<And>j d. in_use st j d \<Longrightarrow> \<not> cs_open (cs_conns st d)" using ok(3) by (simp add: master_ok_def)
      then show ?thesis using None other by (simp add: master_ok_def st2(2,3,6))
    next
      case (Some m)
      then obtain k where k: "cs_open (cs_conns st m)" "in_use st k m"
        "\<And>i d. in_use st i d \<Longrightarrow> cs_open (cs_conns st d) \<Longrightarrow> m_connect_time (cs_conns st m) \<le> m_connect_time (cs_conns st d)"
        using ok(3) by (auto simp: master_ok_def)
      have "k \<noteq> i" using None k(2) by (auto simp: in_use_def)
      then have "\<exists>k. in_use st2 k m" using k(2) by (intro exI [of _ k]) (simp add: st2(2))
      moreover have "m_connect_time (cs_conns st m) \<le> m_connect_time (cs_conns st2 d)"
        if "in_use st2 j d" "cs_open (cs_conns st2 d)" for j d
        using that k(3) [of j d] by (auto simp: st2(2,3) split: if_splits)
      ultimately show ?thesis using k(1) Some other [OF k(2)] by (simp add: master_ok_def st2(3,6))
    qed
    ultimately have "cs_inv st2" using st2(1) by (simp add: cs_inv_def)
    then show ?thesis using st2(4) i None other unfolding step by (auto simp: st2(3,5) ages_def)
  qed
qed

lemma check_fold_ok:
  "cs_inv st \<Longrightarrow> length (serv_list st) = n \<Longrightarrow> apart env n \<Longrightarrow> \<forall>j < n. k \<le> j \<longrightarrow> fresh_at env st j \<Longrightarrow> k \<le> n \<Longrightarrow>
   st' = fold (check_one tick env) [k..<n] st \<Longrightarrow> cs_inv st' \<and> length (serv_list st') = n \<and>
     (\<forall>j < k. serv_list st' ! j = serv_list st ! j) \<and>
     (\<forall>j < n. k \<le> j \<longrightarrow> ages (serv_list st ! j) (serv_list st' ! j)) \<and>
     (\<forall>j d. in_use st j d \<longrightarrow> cs_conns st' d = cs_conns st d)"
proof (induction "n - k" arbitrary: k st)
  case (Suc m)
  then have k: "k < n" "[k..<n] = k # [Suc k..<n]" by (simp_all add: upt_conv_Cons)
  note one = check_one_ok [OF Suc.prems(1), of k env tick] Suc.prems k
  let ?st = "check_one tick env k st"
  have "\<forall>j < n. Suc k \<le> j \<longrightarrow> fresh_at env ?st j"
    using one by (auto simp: Suc_le_eq)
  with Suc.hyps(1) [of "Suc k" ?st] Suc.hyps(2) one
  have rest: "cs_inv st'" "length (serv_list st') = n" "\<forall>j < Suc k. serv_list st' ! j = serv_list ?st ! j"
     "\<forall>j < n. Suc k \<le> j \<longrightarrow> ages (serv_list ?st ! j) (serv_list st' ! j)"
     "\<forall>j d. in_use ?st j d \<longrightarrow> cs_conns st' d = cs_conns ?st d"
    by auto
  have same: "serv_list ?st ! j = serv_list st ! j" if "j \<noteq> k" for j using one that by auto
  have "ages (serv_list st ! j) (serv_list st' ! j)" if "j < n" "k \<le> j" for j
    using rest(3,4) same [of j] one that by (cases "j = k") auto
  moreover have "cs_conns st' d = cs_conns st d" if u: "in_use st j d" for j d
  proof -
    have "in_use ?st j d" using u one same [of j] by (cases "j = k") (auto simp: in_use_def ages_def)
    then have "cs_conns st' d = cs_conns ?st d" using rest(5) by blast
    also have "\<dots> = cs_conns st d" using u one by auto
    finally show ?thesis .
  qed
  ultimately show ?case using rest(1-3) same by auto
qed simp

lemma serv_check_reconnect_ok:
  assumes "cs_inv st" and "apart env (length (serv_list st))" and "\<forall>j < length (serv_list st). fresh_at env st j"
  shows "cs_inv (serv_check_reconnect tick env st) \<and>
    length (serv_list (serv_check_reconnect tick env st)) = length (serv_list st) \<and>
    (\<forall>j < length (serv_list st). ages (serv_list st ! j) (serv_list (serv_check_reconnect tick env st) ! j)) \<and>
    (\<forall>j d. in_use st j d \<longrightarrow> cs_conns (serv_check_reconnect tick env st) d = cs_conns st d)"
  using check_fold_ok [OF assms(1) refl assms(2), of 0 _ tick] assms(3) by (simp add: serv_check_reconnect_def)

subsection \<open>Reachable states\<close>

text \<open>
  Events of the connections to the route servers. \<open>rs_env\<close>: a connection is confirmed once, at a time not
  before that of the confirmations so far; addresses and handles handed out are free.
\<close>

datatype rs_event =
    RsConfirm u64 "user_stat list" u32
  | RsClosed u64 u32
  | RsTick u64 connect_env

fun run_rs :: "rs_event \<Rightarrow> cs_state \<Rightarrow> cs_state option" where
  "run_rs (RsConfirm tick us h) st = (case map_of (serv_conn_map st) h of None \<Rightarrow> Some st
     | Some c \<Rightarrow> Some (RouteServOnConfirm tick us c st))"
| "run_rs (RsClosed tick h) st = (case map_of (serv_conn_map st) h of None \<Rightarrow> Some st
     | Some c \<Rightarrow> RouteServClose tick c st)"
| "run_rs (RsTick tick env) st = route_server_conn_timer_callback tick env st"

fun rs_env :: "cs_state \<Rightarrow> rs_event \<Rightarrow> bool" where
  "rs_env st (RsConfirm tick us h) \<longleftrightarrow> tick < -1 \<and>
     (\<forall>c. map_of (serv_conn_map st) h = Some c \<longrightarrow> \<not> cs_open (cs_conns st c)) \<and>
     (\<forall>i d. in_use st i d \<longrightarrow> cs_open (cs_conns st d) \<longrightarrow> m_connect_time (cs_conns st d) \<le> tick)"
| "rs_env st (RsClosed tick h) \<longleftrightarrow> True"
| "rs_env st (RsTick tick env) \<longleftrightarrow> apart env (length (serv_list st)) \<and>
     (\<forall>st'. route_timer_loop tick (serv_conn_map st) st = Some st' \<longrightarrow> (\<forall>j < length (serv_list st). fresh_at env st' j))"

text \<open>\<open>init_route_serv_conn\<close>: the configured servers and the first connects.\<close>

definition servers_init :: "serv_info list \<Rightarrow> cs_state" where
  "servers_init servers = \<lparr>serv_list = map (\<lambda>s. s\<lparr>serv_conn := None\<rparr>) servers, serv_conn_map = [],
     cs_conns = (\<lambda>_. \<lparr>cs_handle = -1, m_serv_idx = 0, cs_open = False, m_connect_time = 0,
       cs_last_send_tick = 0, cs_last_recv_tick = 0, cs_out = []\<rparr>), cs_dead = {}, g_master_rs_conn = None\<rparr>"

lemma tick_ok:
  assumes inv: "cs_inv st" and env: "rs_env st (RsTick tick env)"
  shows "\<exists>st'. route_server_conn_timer_callback tick env st = Some st' \<and> cs_inv st' \<and>
    length (serv_list st') = length (serv_list st) \<and>
    (\<forall>j < length (serv_list st). serv_conn (serv_list st ! j) = None \<longrightarrow> ages (serv_list st ! j) (serv_list st' ! j)) \<and>
    (\<forall>j d. in_use st j d \<longrightarrow> cs_handle (cs_conns st d) = -1 \<longrightarrow> in_use st' j d \<and> cs_handle (cs_conns st' d) = -1)"
proof -
  have ok: "conns_ok st" and m: "cm_ok (serv_conn_map st)" using inv by (simp_all add: cs_inv_def conns_ok_def)
  have "\<forall>(h, c) \<in> set (serv_conn_map st). map_of (serv_conn_map st) h = Some c"
    using m by (auto simp: cm_ok_def)
  with route_timer_loop_ok [OF inv, of "serv_conn_map st" tick] m obtain st1 where st1:
    "route_timer_loop tick (serv_conn_map st) st = Some st1" "cs_inv st1" "length (serv_list st1) = length (serv_list st)"
    "same_ids st st1"
    "\<forall>i. (\<forall>(h, c) \<in> set (serv_conn_map st). m_serv_idx (cs_conns st c) \<noteq> i) \<longrightarrow> serv_list st1 ! i = serv_list st ! i"
    by (auto simp: cm_ok_def)
  have mapped: "serv_conn (serv_list st ! m_serv_idx (cs_conns st c)) = Some c" "cs_handle (cs_conns st c) \<noteq> -1"
    if "(h, c) \<in> set (serv_conn_map st)" for h c
    using conns_okD(2) [OF ok, of h c] that m by (auto simp: cm_ok_def in_use_def)
  have kept: "serv_list st1 ! i = serv_list st ! i"
    if "\<And>h c. (h, c) \<in> set (serv_conn_map st) \<Longrightarrow> m_serv_idx (cs_conns st c) \<noteq> i" for i
    using st1(5) that by blast
  have same: "serv_list st1 ! i = serv_list st ! i" if "serv_conn (serv_list st ! i) = None" for i
    using that by (intro kept) (auto dest: mapped(1))
  have sameh: "serv_list st1 ! i = serv_list st ! i" if "in_use st i d" "cs_handle (cs_conns st d) = -1" for i d
    using that mapped by (intro kept) (metis in_use_def option.inject)
  have "apart env (length (serv_list st1))" "\<forall>j < length (serv_list st1). fresh_at env st1 j"
    using env st1(1,3) by auto
  note check = serv_check_reconnect_ok [OF st1(2) this, of tick]
  let ?st = "serv_check_reconnect tick env st1"
  have "in_use ?st j d \<and> cs_handle (cs_conns ?st d) = -1" if "in_use st j d" "cs_handle (cs_conns st d) = -1" for j d
  proof -
    have u: "in_use st1 j d" using that(1) sameh [OF that] st1(3) by (simp add: in_use_def)
    then have "serv_list ?st ! j = serv_list st1 ! j" "cs_conns ?st d = cs_conns st1 d"
      using check by (auto simp: in_use_def ages_def)
    then show ?thesis using u check st1(4) that(2) by (simp add: in_use_def same_ids_def)
  qed
  moreover have "ages (serv_list st ! j) (serv_list ?st ! j)"
    if "j < length (serv_list st)" "serv_conn (serv_list st ! j) = None" for j
    using check same [OF that(2)] that(1) st1(3) by metis
  ultimately show ?thesis using check st1(1,3) by (simp add: route_server_conn_timer_callback_def)
qed

lemma rs_event_ok:
  assumes inv: "cs_inv st" and env: "rs_env st e"
  shows "\<exists>st'. run_rs e st = Some st' \<and> cs_inv st'"
proof (cases e)
  case (RsConfirm tick us h)
  then show ?thesis using RouteServOnConfirm_ok [OF inv] env inv by (auto split: option.split)
next
  case (RsClosed tick h)
  then show ?thesis using RouteServClose_ok [OF inv, of h _ tick] inv by (cases "map_of (serv_conn_map st) h") auto
next
  case (RsTick tick env)
  then show ?thesis using tick_ok [OF inv, of tick env] assms(2) by auto
qed

lemma serv_init_fold:
  assumes "length (serv_list st) = n" and "conns_ok st" and "g_master_rs_conn st = None" and "apart env n"
    and "\<forall>i d. in_use st i d \<longrightarrow> \<not> cs_open (cs_conns st d)"
    and "\<forall>j < n. k \<le> j \<longrightarrow> fresh_at env st j \<and> serv_conn (serv_list st ! j) = None"
    and "\<forall>j < k. delay_ok (serv_list st ! j)" and "k \<le> n"
  shows "cs_inv (fold (\<lambda>i st. upd_serv i
       (\<lambda>s. s\<lparr>serv_conn := Some (fst (env i)), idle_cnt := 0, reconnect_cnt := MIN_RECONNECT_CNT div 2\<rparr>)
       (ServConnect tick i (env i) st)) [k..<n] st)"
  using assms
proof (induction "n - k" arbitrary: k st)
  case 0
  then have "\<forall>s \<in> set (serv_list st). delay_ok s" by (auto simp: in_set_conv_nth)
  then show ?case using 0 by (simp add: cs_inv_def master_ok_def)
next
  case (Suc m)
  let ?f = "\<lambda>s. s\<lparr>serv_conn := Some (fst (env k)), idle_cnt := 0, reconnect_cnt := MIN_RECONNECT_CNT div 2\<rparr>"
  define st1 where "st1 = upd_serv k ?f (ServConnect tick k (env k) st)"
  have k: "k < n" "[k..<n] = k # [Suc k..<n]" using Suc.hyps(2) by (simp_all add: upt_conv_Cons)
  have c: "conns_ok st1" "\<And>j d. in_use st1 j d \<longleftrightarrow> (if j = k then d = fst (env k) else in_use st j d)"
    "\<And>d. cs_conns st1 d = (if d = fst (env k) then \<lparr>cs_handle = snd (env k), m_serv_idx = k, cs_open = False,
       m_connect_time = 0, cs_last_send_tick = tick, cs_last_recv_tick = tick, cs_out = []\<rparr> else cs_conns st d)"
    "\<And>j. j < n \<Longrightarrow> j \<noteq> k \<Longrightarrow> fresh_at env st j \<Longrightarrow> fresh_at env st1 j"
    "serv_list st1 = (serv_list st)[k := ?f (serv_list st ! k)]" "g_master_rs_conn st1 = g_master_rs_conn st"
    using ServConnect_ok [of st k env ?f st1 tick] Suc.prems k by (simp_all add: st1_def [symmetric])
  have "cs_inv (fold (\<lambda>i st. upd_serv i
       (\<lambda>s. s\<lparr>serv_conn := Some (fst (env i)), idle_cnt := 0, reconnect_cnt := MIN_RECONNECT_CNT div 2\<rparr>)
       (ServConnect tick i (env i) st)) [Suc k..<n] st1)"
  proof (rule Suc.hyps(1))
    show "\<forall>i d. in_use st1 i d \<longrightarrow> \<not> cs_open (cs_conns st1 d)"
      using Suc.prems(5) by (auto simp: c(2,3) split: if_splits)
    show "\<forall>j < n. Suc k \<le> j \<longrightarrow> fresh_at env st1 j \<and> serv_conn (serv_list st1 ! j) = None"
      using Suc.prems(6) c(4) by (auto simp: c(5))
    show "\<forall>j < Suc k. delay_ok (serv_list st1 ! j)"
      using Suc.prems(1,7) k by (auto simp: c(5) less_Suc_eq delay_ok_def delays_def MIN_RECONNECT_CNT_def)
  qed (use Suc.hyps(2) Suc.prems k c in simp_all)
  then show ?case by (simp add: k(2) st1_def)
qed

inductive rs_reach :: "serv_info list \<Rightarrow> cs_state \<Rightarrow> bool" for servers where
  init: "apart env (length servers) \<Longrightarrow> rs_reach servers (serv_init tick env (servers_init servers))"
| step: "rs_reach servers st \<Longrightarrow> rs_env st e \<Longrightarrow> run_rs e st = Some st' \<Longrightarrow> rs_reach servers st'"

lemma rs_reach_inv: "rs_reach servers st \<Longrightarrow> cs_inv st"
proof (induction rule: rs_reach.induct)
  case (init env tick)
  then show ?case
    unfolding serv_init_def
    by (intro serv_init_fold)
      (auto simp: servers_init_def conns_ok_def in_use_def fresh_at_def)
next
  case (step st e st')
  then show ?case using rs_event_ok [OF step.IH step.hyps(2)] by simp
qed

subsection \<open>Properties\<close>

text \<open>
  C17: the master route server is always the connected route server with the oldest connection, there is
  one whenever a route server is available, and no event reads a deleted connection.
\<close>

theorem route_master_is_oldest:
  assumes "rs_reach servers st"
  shows "(case get_route_serv_conn st of None \<Rightarrow> \<not> is_route_server_available st
     | Some m \<Rightarrow> (\<exists>s \<in> set (serv_list st). serv_conn s = Some m) \<and> cs_open (cs_conns st m) \<and>
         (\<forall>s \<in> set (serv_list st). \<forall>c. serv_conn s = Some c \<longrightarrow> cs_open (cs_conns st c) \<longrightarrow>
            m_connect_time (cs_conns st m) \<le> m_connect_time (cs_conns st c))) \<and>
    (rs_env st e \<longrightarrow> (\<exists>st'. run_rs e st = Some st'))"
proof -
  note inv = rs_reach_inv [OF assms]
  have used: "(\<exists>s \<in> set (serv_list st). serv_conn s = Some c) \<longleftrightarrow> (\<exists>i. in_use st i c)" for c
    using nth_mem by (fastforce simp: in_use_def in_set_conv_nth)
  have m: "master_ok st" using inv by (simp add: cs_inv_def)
  show ?thesis
  proof (cases "g_master_rs_conn st")
    case None
    then show ?thesis
      using m used rs_event_ok [OF inv, of e]
      by (fastforce simp: master_ok_def get_route_serv_conn_def is_route_server_available_def split: option.splits)
  next
    case (Some k)
    then show ?thesis
      using m used rs_event_ok [OF inv, of e] by (auto simp: master_ok_def get_route_serv_conn_def)
  qed
qed

text \<open>Ticks of the timer, each allowed in the state the ones before lead to.\<close>

fun tick_run :: "(u64 \<times> connect_env) list \<Rightarrow> cs_state \<Rightarrow> cs_state option" where
  "tick_run [] st = Some st"
| "tick_run ((tick, env) # ts) st = do {st \<leftarrow> run_rs (RsTick tick env) st; tick_run ts st}"

fun ticks_ok :: "(u64 \<times> connect_env) list \<Rightarrow> cs_state \<Rightarrow> bool" where
  "ticks_ok [] st \<longleftrightarrow> True"
| "ticks_ok ((tick, env) # ts) st \<longleftrightarrow> rs_env st (RsTick tick env) \<and>
     (case run_rs (RsTick tick env) st of None \<Rightarrow> False | Some st \<Rightarrow> ticks_ok ts st)"

lemma reconnects:
  "cs_inv st \<Longrightarrow> i < length (serv_list st) \<Longrightarrow> serv_conn (serv_list st ! i) = None \<Longrightarrow> ticks_ok ts st \<Longrightarrow>
   length ts = unat (reconnect_cnt (serv_list st ! i)) - unat (idle_cnt (serv_list st ! i)) \<Longrightarrow>
   \<exists>k \<le> length ts. \<exists>st'. tick_run (take k ts) st = Some st' \<and> serv_conn (serv_list st' ! i) \<noteq> None"
proof (induction ts arbitrary: st)
  case Nil
  then have "idle_cnt (serv_list st ! i) < reconnect_cnt (serv_list st ! i)"
    by (simp add: cs_inv_def delay_ok_def)
  then show ?case using Nil by (simp add: word_less_nat_alt)
next
  case (Cons x ts)
  obtain tick env where x: "x = (tick, env)" by (cases x)
  let ?s = "serv_list st ! i"
  have env: "rs_env st (RsTick tick env)" using Cons.prems(4) by (simp add: x del: rs_env.simps)
  from tick_ok [OF Cons.prems(1) env] Cons.prems(2,3) obtain st1 where st1:
    "route_server_conn_timer_callback tick env st = Some st1" "cs_inv st1" "length (serv_list st1) = length (serv_list st)"
    "ages ?s (serv_list st1 ! i)" by auto
  show ?case
  proof (cases "serv_conn (serv_list st1 ! i)")
    case (Some c)
    then show ?thesis using st1(1) by (intro exI [of _ 1]) (simp add: x)
  next
    case None
    then have a: "idle_cnt (serv_list st1 ! i) = idle_cnt ?s + 1" "reconnect_cnt (serv_list st1 ! i) = reconnect_cnt ?s"
      using st1(4) Cons.prems(3) by (simp_all add: ages_def)
    have "idle_cnt ?s < reconnect_cnt ?s" using Cons.prems(1-3) by (simp add: cs_inv_def delay_ok_def)
    then have "unat (idle_cnt ?s + 1) = unat (idle_cnt ?s) + 1"
      using unat_u32_lt [of "reconnect_cnt ?s"] by (intro trans [OF unat_add_no_wrap]) (auto simp: word_less_nat_alt)
    then have "length ts = unat (reconnect_cnt (serv_list st1 ! i)) - unat (idle_cnt (serv_list st1 ! i))"
      using Cons.prems(5) by (simp add: a)
    moreover have "ticks_ok ts st1" using Cons.prems(4) st1(1) by (simp add: x)
    ultimately obtain k st' where "k \<le> length ts" "tick_run (take k ts) st1 = Some st'" "serv_conn (serv_list st' ! i) \<noteq> None"
      using Cons.IH [OF st1(2) _ None] Cons.prems(2) st1(3) by auto
    then show ?thesis using st1(1) by (intro exI [of _ "Suc k"]) (simp add: x)
  qed
qed

text \<open>
  C18: a lost server is connected to again: as long as an entry has no connection, at most 64 timer ticks
  pass until a new connect is made; the delay is what the entry says.
\<close>

theorem lost_server_reconnects:
  assumes "rs_reach servers st" and "i < length (serv_list st)" and "serv_conn (serv_list st ! i) = None"
    and "ticks_ok ts st"
    and "length ts = unat (reconnect_cnt (serv_list st ! i)) - unat (idle_cnt (serv_list st ! i))"
  shows "length ts \<le> 64 \<and>
    (\<exists>k \<le> length ts. \<exists>st'. tick_run (take k ts) st = Some st' \<and> serv_conn (serv_list st' ! i) \<noteq> None)"
proof
  note inv = rs_reach_inv [OF assms(1)]
  have "reconnect_cnt (serv_list st ! i) \<in> delays" using inv assms(2) by (simp add: cs_inv_def delay_ok_def)
  then have "unat (reconnect_cnt (serv_list st ! i)) \<le> 64" by (auto simp: delays_def)
  then show "length ts \<le> 64" using assms(5) by simp
  show "\<exists>k \<le> length ts. \<exists>st'. tick_run (take k ts) st = Some st' \<and> serv_conn (serv_list st' ! i) \<noteq> None"
    by (rule reconnects [OF inv assms(2-5)])
qed

text \<open>
  A connect that fails at once, so that \<open>netlib_connect\<close> returns no handle, is never tried again: the
  dead connection keeps its entry through every event.
\<close>

lemma failed_connect_never_retried:
  assumes "rs_reach servers st" and "i < length (serv_list st)" and "serv_conn (serv_list st ! i) = Some c"
    and "cs_handle (cs_conns st c) = -1" and "rs_env st e" and "run_rs e st = Some st'"
  shows "serv_conn (serv_list st' ! i) = Some c \<and> cs_handle (cs_conns st' c) = -1 \<and> \<not> cs_open (cs_conns st' c)"
proof -
  note inv = rs_reach_inv [OF assms(1)]
  have ok: "conns_ok st" using inv by (simp add: cs_inv_def)
  have u: "in_use st i c" using assms(2,3) by (simp add: in_use_def)
  have idx: "m_serv_idx (cs_conns st c) = i" using conns_okD(1) [OF ok u] by (simp add: sconn_ok_def)
  have "in_use st' i c \<and> cs_handle (cs_conns st' c) = -1"
  proof (cases e)
    case (RsConfirm tick us h)
    show ?thesis
    proof (cases "map_of (serv_conn_map st) h")
      case (Some d)
      then have "d \<noteq> c" using conns_okD(2) [OF ok Some] assms(4) by auto
      then show ?thesis
        using RsConfirm Some assms(6) u assms(4) conns_okD(2) [OF ok Some]
        by (auto simp: RouteServOnConfirm_def in_use_def nth_list_update Let_def)
    qed (use RsConfirm assms(4,6) u in simp)
  next
    case (RsClosed tick h)
    show ?thesis
    proof (cases "map_of (serv_conn_map st) h")
      case (Some d)
      then have "d \<noteq> c" using conns_okD(2) [OF ok Some] assms(4) by auto
      moreover have "in_use st (m_serv_idx (cs_conns st d)) d" using conns_okD(2) [OF ok Some] by blast
      ultimately have "m_serv_idx (cs_conns st d) \<noteq> i" using u by (auto simp: in_use_def)
      then show ?thesis
        using RouteServClose_ok [OF inv Some, of tick] RsClosed Some assms(4,6) u
        by (auto simp: in_use_def same_ids_def)
    qed (use RsClosed assms(4,6) u in simp)
  next
    case (RsTick tick env)
    then show ?thesis using tick_ok [OF inv, of tick env] assms(4-6) u by auto
  qed
  moreover have "cs_inv st'" using rs_event_ok [OF inv assms(5)] assms(6) by simp
  then have "\<not> cs_open (cs_conns st' c)"
    using conns_okD(1) [of st' i c] calculation by (simp add: cs_inv_def sconn_ok_def)
  ultimately show ?thesis by (simp add: in_use_def)
qed

subsection \<open>A run\<close>

text \<open>
  Two route servers: the first connect succeeds and is confirmed, the second fails at once; then the
  first is lost.
\<close>

definition two_route_servers :: "serv_info list" where
  "two_route_servers = [\<lparr>server_name = ''r1'', server_ip = ''10.0.0.1'', server_port = 8200, idle_cnt = 0,
     reconnect_cnt = 0, serv_conn = None\<rparr>, \<lparr>server_name = ''r2'', server_ip = ''10.0.0.2'', server_port = 8200,
     idle_cnt = 0, reconnect_cnt = 0, serv_conn = None\<rparr>]"

definition first_connects :: connect_env where
  "first_connects i = (if i = 0 then (2, 10) else (3, -1))"

definition route_connected :: cs_state where
  "route_connected = the (run_rs (RsConfirm 5 [] 10) (serv_init 0 first_connects (servers_init two_route_servers)))"

definition route_lost :: cs_state where
  "route_lost = the (run_rs (RsClosed 6 10) route_connected)"

lemmas rs_run_defs = route_lost_def route_connected_def first_connects_def two_route_servers_def servers_init_def
  serv_init_def ServConnect_def upd_serv_def upd_cs_def cm_insert_def RouteServOnConfirm_def
  update_master_route_serv_conn_def cs_send_def RouteServClose_def serv_reset_def cm_erase_def
  MIN_RECONNECT_CNT_def MAX_RECONNECT_CNT_def Let_def upt_rec

lemma route_connected_reach: "rs_reach two_route_servers route_connected"
proof (rule rs_reach.step)
  show "rs_reach two_route_servers (serv_init 0 first_connects (servers_init two_route_servers))"
    by (rule rs_reach.init)
      (auto simp: apart_def first_connects_def two_route_servers_def less_Suc_eq)
  show "rs_env (serv_init 0 first_connects (servers_init two_route_servers)) (RsConfirm 5 [] 10)"
    by (auto simp: rs_run_defs in_use_def less_Suc_eq)
  show "run_rs (RsConfirm 5 [] 10) (serv_init 0 first_connects (servers_init two_route_servers)) = Some route_connected"
    by (simp add: rs_run_defs)
qed

lemma route_lost_reach: "rs_reach two_route_servers route_lost"
  by (rule rs_reach.step [OF route_connected_reach, where e = "RsClosed 6 10"]) (simp_all add: rs_run_defs)

lemma route_master_is_oldest_witness:
  "get_route_serv_conn route_connected = Some 2 \<and> cs_open (cs_conns route_connected 2)"
  using route_master_is_oldest [OF route_connected_reach, of "RsClosed 6 10"]
  by (simp add: get_route_serv_conn_def rs_run_defs)

definition next_connects :: connect_env where
  "next_connects i = (i + 4, of_nat i + 20)"

text \<open>The state \<open>n\<close> ticks after the loss.\<close>

definition lost_for :: "u32 \<Rightarrow> cs_state" where
  "lost_for n = upd_serv 0 (\<lambda>s. s\<lparr>idle_cnt := n\<rparr>) route_lost"

lemma lost_for_0: "lost_for 0 = route_lost"
  by (simp add: lost_for_def rs_run_defs)

lemma lost_for_fields:
  "serv_conn_map (lost_for n) = []" "length (serv_list (lost_for n)) = 2"
  "serv_conn (serv_list (lost_for n) ! 0) = None" "serv_conn (serv_list (lost_for n) ! 1) = Some 3"
  "idle_cnt (serv_list (lost_for n) ! 0) = n" "reconnect_cnt (serv_list (lost_for n) ! 0) = 4"
  by (simp_all add: lost_for_def rs_run_defs)

lemma lost_for_env: "rs_env (lost_for n) (RsTick 7 next_connects)"
  using lost_for_fields [of n]
  by (auto simp: apart_def next_connects_def less_Suc_eq fresh_at_def in_use_def numeral_2_eq_2)

lemma lost_for_tick:
  "run_rs (RsTick 7 next_connects) (lost_for n) =
     Some (if 4 \<le> n + 1 then upd_serv 0 (\<lambda>s. s\<lparr>serv_conn := Some 4\<rparr>)
       (ServConnect 7 0 (4, 20) (lost_for (n + 1))) else lost_for (n + 1))"
proof -
  have step: "upd_serv 0 (\<lambda>s. s\<lparr>idle_cnt := idle_cnt s + 1\<rparr>) (lost_for n) = lost_for (n + 1)"
    by (simp add: lost_for_def rs_run_defs)
  have "check_one 7 next_connects 0 (lost_for n) = (if 4 \<le> n + 1 then upd_serv 0 (\<lambda>s. s\<lparr>serv_conn := Some 4\<rparr>)
       (ServConnect 7 0 (4, 20) (lost_for (n + 1))) else lost_for (n + 1))" (is "_ = ?st")
    unfolding check_one_def lost_for_fields option.case step Let_def by (simp add: next_connects_def)
  moreover have "check_one 7 next_connects (Suc 0) ?st = ?st"
    using lost_for_fields [of "n + 1"] by (auto simp: check_one_def ServConnect_def Let_def)
  moreover have "[0..<length (serv_list (lost_for n))] = [0, Suc 0]" by (simp only: lost_for_fields numeral_2_eq_2) simp
  ultimately show ?thesis
    by (simp add: route_server_conn_timer_callback_def serv_check_reconnect_def lost_for_fields(1) del: if_split)
qed

lemma lost_server_reconnects_witness:
  "\<exists>k \<le> 4. \<exists>st'. tick_run (take k [(7, next_connects), (7, next_connects), (7, next_connects), (7, next_connects)]) route_lost
     = Some st' \<and> serv_conn (serv_list st' ! 0) \<noteq> None"
proof -
  have one: "\<not> (4::u32) \<le> 1" by (simp add: word_le_nat_alt)
  have ticks: "ticks_ok [(7, next_connects), (7, next_connects), (7, next_connects), (7, next_connects)] (lost_for 0)"
    using lost_for_env one lost_for_tick [of 0] lost_for_tick [of 1] lost_for_tick [of 2] lost_for_tick [of 3]
    by (simp del: rs_env.simps run_rs.simps)
  have "0 < length (serv_list route_lost)" using lost_for_fields(2) [of 0] unfolding lost_for_0 by linarith
  from lost_server_reconnects [OF route_lost_reach this _ ticks [unfolded lost_for_0]] show ?thesis
    using lost_for_fields [of 0] by (simp add: lost_for_0)
qed

lemma failed_connect_never_retried_witness: "serv_conn (serv_list route_lost ! 1) = Some 3"
  using failed_connect_never_retried [OF route_connected_reach, of 1 3 "RsClosed 6 10" route_lost]
  by (simp add: rs_run_defs)

end
