(* ===== verification/Session_Count.thy ===== *)
theory Session_Count
  imports Msg_Conn Serv_Conn
begin

text \<open>
  How the count of a message server reaches the login server: the messages \<open>CloginServConn\<close> sends when
  it is connected and while sessions open and close, as PDUs (protobuf serialization is a parameter), and
  the open sessions of all users together.
\<close>

subsection \<open>The open sessions of all users\<close>

lemma count_all_users:
  fixes L :: "('a \<times> u32) list"
  shows "length (filter (\<lambda>x. fst x = a) L) = (\<Sum>uid \<in> UNIV. count_list L (a, uid))"
proof (induction L)
  case (Cons x L)
  obtain b u where x: "x = (b, u)" by (cases x)
  have "(\<Sum>uid \<in> UNIV. count_list (x # L) (a, uid)) =
      (\<Sum>uid \<in> UNIV. count_list L (a, uid) + (if uid = u then of_bool (b = a) else 0))"
    by (rule sum.cong) (auto simp: x)
  also have "\<dots> = (\<Sum>uid \<in> UNIV. count_list L (a, uid)) + of_bool (b = a)"
    by (simp add: sum.distrib)
  finally show ?case using Cons.IH by (cases "b = a") (simp_all add: x del: count_list.simps)
qed simp

lemma all_open_handles_sum: "card (all_open_handles st) = (\<Sum>uid \<in> UNIV. card (open_handles st uid))"
proof -
  have "all_open_handles st = (\<Union>uid. open_handles st uid)"
    by (auto simp: all_open_handles_def open_handles_def)
  moreover have "card \<dots> = (\<Sum>uid \<in> UNIV. card (open_handles st uid))"
    by (rule card_UN_disjoint) (auto simp: finite_open_handles, auto simp: open_handles_def)
  ultimately show ?thesis by simp
qed

definition net_count :: "(u32 \<times> u32) list \<Rightarrow> int" where
  "net_count L = (\<Sum>(a, uid) \<leftarrow> L. if a = USER_CNT_INC then 1 else -1)"

lemma net_count_append [simp]: "net_count (L @ M) = net_count L + net_count M"
  by (simp add: net_count_def)

lemma net_count_split:
  "\<forall>(a, uid) \<in> set L. a = USER_CNT_INC \<or> a = USER_CNT_DEC \<Longrightarrow>
   net_count L = int (length (filter (\<lambda>x. fst x = USER_CNT_INC) L)) - int (length (filter (\<lambda>x. fst x = USER_CNT_DEC) L))"
  by (induction L) (auto simp: net_count_def const_defs)

lemma net_count_open:
  assumes "msg_reach db st"
  shows "net_count (to_login st) = int (card (all_open_handles st))"
proof -
  have "(\<Sum>uid \<in> UNIV. count_list (to_login st) (USER_CNT_INC, uid)) =
      (\<Sum>uid \<in> UNIV. count_list (to_login st) (USER_CNT_DEC, uid)) + card (all_open_handles st)"
    using msg_reach_balanced [OF assms] by (simp add: balanced_def all_open_handles_sum sum.distrib)
  then show ?thesis
    using net_count_split [of "to_login st"] to_login_actions [OF assms]
    by (auto simp: count_all_users)
qed

subsection \<open>What a message server sends to a login server\<close>

lemma send_all_once:
  assumes "distinct (List.map_filter serv_conn ss)"
  shows "cs_out (cs_conns (fold (\<lambda>s st. case serv_conn s of
       Some c \<Rightarrow> if cs_open (cs_conns st c) then cs_send tick m c st else st | None \<Rightarrow> st) ss st) d) =
     cs_out (cs_conns st d) @
       (if d \<in> set (List.map_filter serv_conn ss) \<and> cs_open (cs_conns st d) then [m] else [])"
  using assms
proof (induction ss arbitrary: st)
  case (Cons s ss)
  show ?case
  proof (cases "serv_conn s")
    case None
    then show ?thesis using Cons by (simp add: List.map_filter_simps)
  next
    case (Some c)
    let ?st = "if cs_open (cs_conns st c) then cs_send tick m c st else st"
    have "cs_open (cs_conns ?st d) = cs_open (cs_conns st d)" by simp
    moreover have "cs_out (cs_conns ?st d) = cs_out (cs_conns st d) @ (if d = c \<and> cs_open (cs_conns st d) then [m] else [])"
      by (simp add: cs_send_def)
    ultimately show ?thesis
      using Cons.IH [of ?st] Cons.prems Some by (auto simp: List.map_filter_simps)
  qed
qed (simp add: List.map_filter_simps)

lemma send_all_keeps:
  "serv_list (send_to_all_login_server tick m st) = serv_list st \<and>
   cs_open (cs_conns (send_to_all_login_server tick m st) d) = cs_open (cs_conns st d)"
proof -
  have "serv_list (fold (\<lambda>s st. case serv_conn s of
       Some c \<Rightarrow> if cs_open (cs_conns st c) then cs_send tick m c st else st | None \<Rightarrow> st) ss st) = serv_list st \<and>
    cs_open (cs_conns (fold (\<lambda>s st. case serv_conn s of
       Some c \<Rightarrow> if cs_open (cs_conns st c) then cs_send tick m c st else st | None \<Rightarrow> st) ss st) d) = cs_open (cs_conns st d)" for ss
    by (induction ss arbitrary: st) (auto split: option.split)
  then show ?thesis by (simp add: send_to_all_login_server_def)
qed

lemma map_filter_map: "List.map_filter f xs = List.map_filter (\<lambda>x. x) (map f xs)"
  by (induction xs) (simp_all add: List.map_filter_simps split: option.split)

text \<open>The report on connect, then one update per entry of the log of \<open>SendUserStatusUpdate\<close>.\<close>

definition login_feed :: "u64 \<Rightarrow> msg_serv_info_pb \<Rightarrow> u32 \<Rightarrow> (u32 \<times> u32) list \<Rightarrow> conn \<Rightarrow> cs_state \<Rightarrow> cs_state" where
  "login_feed tick info cur_cnt new d cs =
     fold (\<lambda>(a, uid). send_to_all_login_server tick (SUserCntUpdate a uid)) new
       (LoginServOnConfirm tick info cur_cnt d cs)"

lemma login_feed_out:
  assumes distinct: "distinct (List.map_filter serv_conn (serv_list cs))"
    and d: "d \<in> set (List.map_filter serv_conn (serv_list cs))" and fresh: "cs_out (cs_conns cs d) = []"
  shows "cs_out (cs_conns (login_feed tick info cur_cnt new d cs) d) =
    SMsgServInfo (info\<lparr>mi_cur_conn_cnt := cur_cnt\<rparr>) # map (\<lambda>(a, uid). SUserCntUpdate a uid) new"
proof -
  let ?c = "LoginServOnConfirm tick info cur_cnt d cs"
  have same: "List.map_filter serv_conn ((serv_list cs)[i := (serv_list cs ! i)\<lparr>reconnect_cnt := r\<rparr>]) =
      List.map_filter serv_conn (serv_list cs)" for i r
  proof (cases "i < length (serv_list cs)")
    case True
    then have "map serv_conn ((serv_list cs)[i := (serv_list cs ! i)\<lparr>reconnect_cnt := r\<rparr>]) = map serv_conn (serv_list cs)"
      by (simp add: map_update list_update_same_conv)
    then show ?thesis by (metis map_filter_map)
  qed (simp add: list_update_beyond)
  have c: "List.map_filter serv_conn (serv_list ?c) = List.map_filter serv_conn (serv_list cs)"
    "cs_open (cs_conns ?c d)" "cs_out (cs_conns ?c d) = [SMsgServInfo (info\<lparr>mi_cur_conn_cnt := cur_cnt\<rparr>)]"
    using fresh by (simp_all add: LoginServOnConfirm_def Let_def same cs_send_def)
  have "cs_out (cs_conns (fold (\<lambda>(a, uid). send_to_all_login_server tick (SUserCntUpdate a uid)) new cs') d) =
      cs_out (cs_conns cs' d) @ map (\<lambda>(a, uid). SUserCntUpdate a uid) new"
    if "List.map_filter serv_conn (serv_list cs') = List.map_filter serv_conn (serv_list cs)" "cs_open (cs_conns cs' d)" for cs'
    using that
  proof (induction new arbitrary: cs')
    case (Cons x new)
    obtain a uid where x: "x = (a, uid)" by (cases x)
    let ?cs = "send_to_all_login_server tick (SUserCntUpdate a uid) cs'"
    have "cs_out (cs_conns ?cs d) = cs_out (cs_conns cs' d) @ [SUserCntUpdate a uid]"
      using send_all_once [of "serv_list cs'" tick "SUserCntUpdate a uid" cs' d] Cons.prems distinct d
      by (simp add: send_to_all_login_server_def)
    then show ?case
      using Cons.IH [of ?cs] Cons.prems send_all_keeps [of tick _ cs'] by (simp add: x)
  qed simp
  from this [OF c(1,2)] c(3) show ?thesis by (simp add: login_feed_def)
qed

subsection \<open>What the login server makes of it\<close>

text \<open>The PDUs of the messages; \<open>ser_info\<close> and \<open>ser_cnt\<close> serialize the two that have a body here.\<close>

definition serv_pdu :: "(msg_serv_info_pb \<Rightarrow> bytes) \<Rightarrow> (u32 \<Rightarrow> u32 \<Rightarrow> bytes) \<Rightarrow> serv_out \<Rightarrow> in_pdu" where
  "serv_pdu ser_info ser_cnt m = (case m of
     SHeartBeat \<Rightarrow> \<lparr>in_cid = CID_OTHER_HEARTBEAT, in_seq = 0, in_body = []\<rparr>
   | SFileServerIPReq \<Rightarrow> \<lparr>in_cid = CID_OTHER_FILE_SERVER_IP_REQ, in_seq = 0, in_body = []\<rparr>
   | SRoleSet r \<Rightarrow> \<lparr>in_cid = CID_OTHER_ROLE_SET, in_seq = 0, in_body = []\<rparr>
   | SOnlineUserInfo us \<Rightarrow> \<lparr>in_cid = CID_OTHER_ONLINE_USER_INFO, in_seq = 0, in_body = []\<rparr>
   | SMsgServInfo i \<Rightarrow> \<lparr>in_cid = CID_OTHER_MSG_SERV_INFO, in_seq = 0, in_body = ser_info i\<rparr>
   | SUserCntUpdate a uid \<Rightarrow> \<lparr>in_cid = CID_OTHER_USER_CNT_UPDATE, in_seq = 0, in_body = ser_cnt a uid\<rparr>)"

lemma updates_tracked:
  assumes "login_inv lst" and "map_of (g_msg_serv_conn_map lst) h = Some c" and "map_of (g_msg_serv_info lst) h = Some i"
    and ser: "\<And>a uid. pb_user_cnt_update pb (ser_cnt a uid) = a"
  shows "\<exists>lst'. login_pdus pb tick c (map (\<lambda>(a, uid). serv_pdu ser_info ser_cnt (SUserCntUpdate a uid)) new) lst = Some lst' \<and>
    login_inv lst' \<and> map_of (g_msg_serv_info lst') h = Some (i\<lparr>cur_conn_cnt := cur_conn_cnt i + of_int (net_count new)\<rparr>)"
  using assms(1-3)
proof (induction new arbitrary: lst i)
  case Nil
  then show ?case by (simp add: net_count_def)
next
  case (Cons x new)
  obtain a uid where x: "x = (a, uid)" by (cases x)
  let ?p = "serv_pdu ser_info ser_cnt (SUserCntUpdate a uid)" and ?d = "if a = USER_CNT_INC then 1 else -1"
  let ?lst = "HandleUserCntUpdate pb c ?p lst" and ?i = "i\<lparr>cur_conn_cnt := cur_conn_cnt i + ?d\<rparr>"
  have h: "lg_handle (lconns lst c) = h" using login_invD(4) [OF Cons.prems(1,2)] by (simp add: serv_ok_def)
  have step: "LoginHandlePdu pb tick c ?p lst = Some ?lst"
    by (simp add: LoginHandlePdu_def serv_pdu_def const_defs)
  have "login_inv ?lst" by (rule HandleUserCntUpdate_ok [OF Cons.prems(1,2)])
  moreover have "g_msg_serv_info ?lst = om_put h ?i (g_msg_serv_info lst)" "g_msg_serv_conn_map ?lst = g_msg_serv_conn_map lst"
    using Cons.prems(3) by (simp_all add: HandleUserCntUpdate_def h serv_pdu_def ser Let_def)
  then have "map_of (g_msg_serv_info ?lst) h = Some ?i" "map_of (g_msg_serv_conn_map ?lst) h = Some c"
    using om.find_put [OF login_invD(3) [OF Cons.prems(1)]] Cons.prems(2) by simp_all
  ultimately obtain lst' where "login_pdus pb tick c (map (\<lambda>(a, uid). serv_pdu ser_info ser_cnt (SUserCntUpdate a uid)) new) ?lst = Some lst'"
    "login_inv lst'" "map_of (g_msg_serv_info lst') h = Some (?i\<lparr>cur_conn_cnt := cur_conn_cnt ?i + of_int (net_count new)\<rparr>)"
    using Cons.IH [of ?lst ?i] by blast
  then show ?case by (simp add: x step net_count_def algebra_simps)
qed

end
