(* ===== verification/Http_Conn.thy ===== *)
theory Http_Conn
  imports Login_Server Str_Util
begin

text \<open>
  The HTTP front end of the login server: \<open>base/HttpParserWrapper.cpp\<close> (the callbacks of the HTTP parser,
  which is third-party code: \<open>http_parser_execute\<close> is a parameter that yields the callbacks it makes) and
  \<open>login_server/HttpConn.cpp\<close>. The two buffers of a connection are their contents (\<open>Simple_Buffer\<close> shows
  \<open>CSimpleBuffer\<close> to be a byte queue). Connections live in a heap (\<open>None\<close>: deleted): \<open>httpconn_callback\<close>
  takes no reference, so \<open>Close\<close> deletes the object at once, and an access after that is the value
  \<open>None\<close>. The printer of JSON values is third-party code too.
\<close>

subsection \<open>CHttpParserWrapper\<close>

text \<open>
  A callback gets a pointer into the buffer, here the bytes from there to the end, and the length of the
  piece.
\<close>

datatype http_callback =
    OnUrl bytes nat
  | OnHeaderField bytes nat
  | OnHeaderValue bytes nat
  | OnHeadersComplete u32 u64
  | OnBody bytes nat
  | OnMessageComplete

record http_parser_wrapper =
  m_read_all :: bool
  m_read_referer :: bool
  m_read_forward_ip :: bool
  m_read_user_agent :: bool
  m_read_content_type :: bool
  m_read_content_len :: bool
  m_read_host :: bool
  m_total_length :: u32
  m_url :: bytes
  m_body_content :: bytes
  m_referer :: bytes
  m_forward_ip :: bytes
  m_user_agent :: bytes
  m_content_type :: bytes
  m_content_len :: u32
  m_host :: bytes

definition parser_cleared :: http_parser_wrapper where
  "parser_cleared = \<lparr>m_read_all = False, m_read_referer = False, m_read_forward_ip = False, m_read_user_agent = False,
     m_read_content_type = False, m_read_content_len = False, m_read_host = False, m_total_length = 0, m_url = [],
     m_body_content = [], m_referer = [], m_forward_ip = [], m_user_agent = [], m_content_type = [],
     m_content_len = 0, m_host = []\<rparr>"

definition tolower :: "u8 \<Rightarrow> u8" where
  "tolower c = (if 65 \<le> c \<and> c \<le> 90 then c + 32 else c)"

text \<open>\<open>strncasecmp(at, name, n) == 0\<close> for a name of \<open>n\<close> letters: the length of the field plays no part.\<close>

definition starts_with_nocase :: "bytes \<Rightarrow> bytes \<Rightarrow> bool" where
  "starts_with_nocase at name \<longleftrightarrow> map tolower (take (length name) at) = map tolower name"

definition header_field :: "bytes \<Rightarrow> http_parser_wrapper \<Rightarrow> http_parser_wrapper" where
  "header_field at p =
     (let p = (if length (m_referer p) = 0 \<and> starts_with_nocase at (str ''Referer'') then p\<lparr>m_read_referer := True\<rparr> else p);
          p = (if length (m_forward_ip p) = 0 \<and> starts_with_nocase at (str ''X-Forwarded-For'')
               then p\<lparr>m_read_forward_ip := True\<rparr> else p);
          p = (if length (m_user_agent p) = 0 \<and> starts_with_nocase at (str ''User-Agent'')
               then p\<lparr>m_read_user_agent := True\<rparr> else p);
          p = (if length (m_content_type p) = 0 \<and> starts_with_nocase at (str ''Content-Type'')
               then p\<lparr>m_read_content_type := True\<rparr> else p);
          p = (if m_content_len p = 0 \<and> starts_with_nocase at (str ''Content-Length'')
               then p\<lparr>m_read_content_len := True\<rparr> else p)
      in if length (m_host p) = 0 \<and> starts_with_nocase at (str ''Host'') then p\<lparr>m_read_host := True\<rparr> else p)"

definition MAX_REFERER_LEN :: nat where "MAX_REFERER_LEN = 32"

definition header_value :: "bytes \<Rightarrow> nat \<Rightarrow> http_parser_wrapper \<Rightarrow> http_parser_wrapper" where
  "header_value at len p =
     (let v = take len at;
          p = (if m_read_referer p then p\<lparr>m_referer := m_referer p @ take (min MAX_REFERER_LEN len) at, m_read_referer := False\<rparr> else p);
          p = (if m_read_forward_ip p then p\<lparr>m_forward_ip := m_forward_ip p @ v, m_read_forward_ip := False\<rparr> else p);
          p = (if m_read_user_agent p then p\<lparr>m_user_agent := m_user_agent p @ v, m_read_user_agent := False\<rparr> else p);
          p = (if m_read_content_type p then p\<lparr>m_content_type := m_content_type p @ v, m_read_content_type := False\<rparr> else p);
          p = (if m_read_content_len p then p\<lparr>m_content_len := string2int (c_str v), m_read_content_len := False\<rparr> else p)
      in if m_read_host p then p\<lparr>m_host := m_host p @ v, m_read_host := False\<rparr> else p)"

fun parser_callback :: "http_callback \<Rightarrow> http_parser_wrapper \<Rightarrow> http_parser_wrapper" where
  "parser_callback (OnUrl at len) p = p\<lparr>m_url := m_url p @ take len at\<rparr>"
| "parser_callback (OnHeaderField at len) p = header_field at p"
| "parser_callback (OnHeaderValue at len) p = header_value at len p"
| "parser_callback (OnHeadersComplete nread content_length) p = p\<lparr>m_total_length := nread + ucast content_length\<rparr>"
| "parser_callback (OnBody at len) p = p\<lparr>m_body_content := m_body_content p @ take len at\<rparr>"
| "parser_callback OnMessageComplete p = p\<lparr>m_read_all := True\<rparr>"

definition ParseHttpContent :: "(bytes \<Rightarrow> http_callback list) \<Rightarrow> bytes \<Rightarrow> http_parser_wrapper" where
  "ParseHttpContent http_parser_execute buf = fold parser_callback (http_parser_execute buf) parser_cleared"

subsection \<open>CHttpConn\<close>

datatype json = JInt int | JStr bytes

type_synonym json_printer = "(string \<times> json) list \<Rightarrow> bytes"

datatype http_conn_state = CONN_STATE_IDLE | CONN_STATE_CONNECTED | CONN_STATE_OPEN | CONN_STATE_CLOSED

record http_conn =
  m_sock_handle :: int
  m_conn_handle :: u32
  hc_busy :: bool
  hc_state :: http_conn_state
  m_peer_ip :: bytes
  hc_in_buf :: bytes
  hc_out_buf :: bytes
  hc_last_send_tick :: u64
  hc_last_recv_tick :: u64

record http_state =
  hconns :: "conn \<Rightarrow> http_conn option"
  g_http_conn_map :: "(u32 \<times> conn) list"
  g_conn_handle_generator :: u32
  hsent :: "conn \<Rightarrow> bytes"
  hservers :: serv_map

record http_config =
  strMsfsUrl :: bytes
  strDiscovery :: bytes
  styled :: json_printer
  http_exec :: "bytes \<Rightarrow> http_callback list"

definition HTTP_CONN_TIMEOUT :: u64 where "HTTP_CONN_TIMEOUT = 60000"
definition HTTP_RESPONSE_HTML_MAX :: nat where "HTTP_RESPONSE_HTML_MAX = 1024"

definition upd_hconn :: "conn \<Rightarrow> (http_conn \<Rightarrow> http_conn) \<Rightarrow> http_state \<Rightarrow> http_state option" where
  "upd_hconn this f st = do {
     c \<leftarrow> hconns st this;
     Some (st\<lparr>hconns := (hconns st)(this \<mapsto> f c)\<rparr>)}"

text \<open>
  The constructor draws a handle from the generator, never 0; \<open>http_callback\<close> makes the object and calls
  \<open>OnConnect\<close>.
\<close>

definition CHttpConn :: "u64 \<Rightarrow> u32 \<Rightarrow> http_conn" where
  "CHttpConn tick g = (let h = g + 1 in
     \<lparr>m_sock_handle = NETLIB_INVALID_HANDLE, m_conn_handle = (if h = 0 then h + 1 else h), hc_busy = False,
      hc_state = CONN_STATE_IDLE, m_peer_ip = [], hc_in_buf = [], hc_out_buf = [],
      hc_last_send_tick = tick, hc_last_recv_tick = tick\<rparr>)"

definition HttpOnConnect :: "u64 \<Rightarrow> conn \<Rightarrow> int \<Rightarrow> bytes \<Rightarrow> http_state \<Rightarrow> http_state" where
  "HttpOnConnect tick this handle ip st =
     (let c = CHttpConn tick (g_conn_handle_generator st); h = m_conn_handle c
      in st\<lparr>g_conn_handle_generator := h,
            hconns := (hconns st)(this \<mapsto> c\<lparr>m_sock_handle := handle, hc_state := CONN_STATE_CONNECTED, m_peer_ip := ip\<rparr>),
            hsent := (hsent st)(this := []),
            g_http_conn_map := cm_insert h this (g_http_conn_map st)\<rparr>)"

text \<open>\<open>Close\<close>: the only reference is released and the object deleted.\<close>

definition HttpClose :: "conn \<Rightarrow> http_state \<Rightarrow> http_state option" where
  "HttpClose this st = do {
     c \<leftarrow> hconns st this;
     Some (st\<lparr>g_http_conn_map := cm_erase (m_conn_handle c) (g_http_conn_map st),
              hconns := (hconns st)(this := None)\<rparr>)}"

definition OnWriteComlete :: "conn \<Rightarrow> http_state \<Rightarrow> http_state option" where
  "OnWriteComlete this st = HttpClose this st"

text \<open>\<open>ret\<close> is the answer of \<open>netlib_send\<close>: the bytes the socket takes.\<close>

definition sent_now :: "conn \<Rightarrow> bytes \<Rightarrow> http_state \<Rightarrow> http_state" where
  "sent_now this data st = st\<lparr>hsent := (hsent st)(this := hsent st this @ data)\<rparr>"

definition HttpSend :: "u64 \<Rightarrow> int \<Rightarrow> bytes \<Rightarrow> conn \<Rightarrow> http_state \<Rightarrow> http_state option" where
  "HttpSend tick ret data this st = do {
     c \<leftarrow> hconns st this;
     st \<leftarrow> upd_hconn this (\<lambda>c. c\<lparr>hc_last_send_tick := tick\<rparr>) st;
     if hc_busy c then upd_hconn this (\<lambda>c. c\<lparr>hc_out_buf := hc_out_buf c @ data\<rparr>) st
     else do {
       let ret = (if ret < 0 then 0 else ret);
       let st = sent_now this (take (nat ret) data) st;
       if ret < int (length data)
       then upd_hconn this (\<lambda>c. c\<lparr>hc_out_buf := hc_out_buf c @ drop (nat ret) data, hc_busy := True\<rparr>) st
       else OnWriteComlete this st}}"

text \<open>After the last byte \<open>OnWriteComlete\<close> deletes the object; then \<open>m_busy\<close> is set in it.\<close>

definition HttpOnWrite :: "int \<Rightarrow> conn \<Rightarrow> http_state \<Rightarrow> http_state option" where
  "HttpOnWrite ret this st = do {
     c \<leftarrow> hconns st this;
     if \<not> hc_busy c then Some st
     else do {
       let ret = (if ret < 0 then 0 else ret);
       let st = sent_now this (take (nat ret) (hc_out_buf c)) st;
       st \<leftarrow> upd_hconn this (\<lambda>c. c\<lparr>hc_out_buf := drop (nat ret) (hc_out_buf c)\<rparr>) st;
       if ret < int (length (hc_out_buf c)) then upd_hconn this (\<lambda>c. c\<lparr>hc_busy := True\<rparr>) st
       else do {
         st \<leftarrow> OnWriteComlete this st;
         upd_hconn this (\<lambda>c. c\<lparr>hc_busy := False\<rparr>) st}}}"

text \<open>The response: the head with the length of the content, and the content, cut at 1023 bytes by \<open>snprintf\<close>.\<close>

definition crlf :: bytes where "crlf = [13, 10]"

definition HTTP_RESPONSE_HTML :: "bytes \<Rightarrow> bytes" where
  "HTTP_RESPONSE_HTML content = str ''HTTP/1.1 200 OK'' @ crlf @ str ''Connection:close'' @ crlf @
     str ''Content-Length:'' @ show_nat (length content) @ crlf @
     str ''Content-Type:text/html;charset=utf-8'' @ crlf @ crlf @ content"

definition http_response :: "bytes \<Rightarrow> bytes" where
  "http_response strContent = c_str (take (HTTP_RESPONSE_HTML_MAX - 1) (HTTP_RESPONSE_HTML strContent))"

text \<open>The messages of the two refusals, in UTF-8.\<close>

definition no_server_text :: bytes where
  "no_server_text = [0xE6, 0xB2, 0xA1, 0xE6, 0x9C, 0x89] @ str ''msg_server''"

definition overloaded_text :: bytes where
  "overloaded_text = [0xE8, 0xB4, 0x9F, 0xE8, 0xBD, 0xBD, 0xE8, 0xBF, 0x87, 0xE9, 0xAB, 0x98]"

definition http_answer :: "http_config \<Rightarrow> bytes \<Rightarrow> serv_map \<Rightarrow> (string \<times> json) list" where
  "http_answer cfg peer_ip m =
     (if length m \<le> 0 then [(''code'', JInt 1), (''msg'', JStr no_server_text)]
      else case min_conn m of
        None \<Rightarrow> [(''code'', JInt 2), (''msg'', JStr overloaded_text)]
      | Some (h, i) \<Rightarrow> [(''code'', JInt 0), (''msg'', JStr [])] @
          (if isTelcome (Some peer_ip)
           then [(''priorIP'', JStr (str (ip_addr1 i))), (''backupIP'', JStr (str (ip_addr2 i)))]
           else [(''priorIP'', JStr (str (ip_addr2 i))), (''backupIP'', JStr (str (ip_addr1 i)))]) @
          [(''msfsPrior'', JStr (strMsfsUrl cfg)), (''msfsBackup'', JStr (strMsfsUrl cfg)),
           (''discovery'', JStr (strDiscovery cfg)), (''port'', JStr (int2string (ucast (port i))))])"

definition HttpHandleMsgServRequest :: "http_config \<Rightarrow> u64 \<Rightarrow> int \<Rightarrow> conn \<Rightarrow> http_state \<Rightarrow> http_state option" where
  "HttpHandleMsgServRequest cfg tick ret this st = do {
     c \<leftarrow> hconns st this;
     HttpSend tick ret (http_response (styled cfg (http_answer cfg (m_peer_ip c) (hservers st)))) this st}"

text \<open>\<open>chunks\<close> is what \<open>netlib_recv\<close> returns until it would block.\<close>

definition HttpOnRead :: "http_config \<Rightarrow> u64 \<Rightarrow> int \<Rightarrow> bytes list \<Rightarrow> conn \<Rightarrow> http_state \<Rightarrow> http_state option" where
  "HttpOnRead cfg tick ret chunks this st = do {
     st \<leftarrow> upd_hconn this (\<lambda>c. c\<lparr>hc_in_buf := hc_in_buf c @ concat chunks,
       hc_last_recv_tick := (if chunks = [] then hc_last_recv_tick c else tick)\<rparr>) st;
     c \<leftarrow> hconns st this;
     if length (hc_in_buf c) > 1024 then HttpClose this st
     else do {
       let p = ParseHttpContent (http_exec cfg) (hc_in_buf c);
       if m_read_all p then
         (if take 11 (c_str (m_url p)) = str ''/msg_server'' then HttpHandleMsgServRequest cfg tick ret this st
          else HttpClose this st)
       else Some st}}"

definition HttpOnTimer :: "u64 \<Rightarrow> conn \<Rightarrow> http_state \<Rightarrow> http_state option" where
  "HttpOnTimer curr_tick this st = do {
     c \<leftarrow> hconns st this;
     if curr_tick > hc_last_recv_tick c + HTTP_CONN_TIMEOUT then HttpClose this st else Some st}"

definition FindHttpConnByHandle :: "u32 \<Rightarrow> http_state \<Rightarrow> conn option" where
  "FindHttpConnByHandle conn_handle st = map_of (g_http_conn_map st) conn_handle"

datatype netlib_msg = MsgRead "bytes list" int | MsgWrite int | MsgClosed

definition httpconn_callback :: "http_config \<Rightarrow> u64 \<Rightarrow> u32 \<Rightarrow> netlib_msg \<Rightarrow> http_state \<Rightarrow> http_state option" where
  "httpconn_callback cfg tick conn_handle msg st =
     (case FindHttpConnByHandle conn_handle st of None \<Rightarrow> Some st
      | Some c \<Rightarrow> (case msg of
            MsgRead chunks ret \<Rightarrow> HttpOnRead cfg tick ret chunks c st
          | MsgWrite ret \<Rightarrow> HttpOnWrite ret c st
          | MsgClosed \<Rightarrow> HttpClose c st))"

fun http_timer_loop :: "u64 \<Rightarrow> (u32 \<times> conn) list \<Rightarrow> http_state \<Rightarrow> http_state option" where
  "http_timer_loop cur_time [] st = Some st"
| "http_timer_loop cur_time ((h, c) # it) st = do {
     st \<leftarrow> HttpOnTimer cur_time c st;
     http_timer_loop cur_time it st}"

definition http_conn_timer_callback :: "u64 \<Rightarrow> http_state \<Rightarrow> http_state option" where
  "http_conn_timer_callback cur_time st = http_timer_loop cur_time (g_http_conn_map st) st"

subsection \<open>The life of a connection\<close>

text \<open>
  What the server can reach: a new connection is a new object, and the loop calls a callback by handle or the
  timer. The invariant: a handle of the map is that of a live connection.
\<close>

definition http_init :: "serv_map \<Rightarrow> http_state" where
  "http_init m = \<lparr>hconns = \<lambda>_. None, g_http_conn_map = [], g_conn_handle_generator = 0, hsent = \<lambda>_. [], hservers = m\<rparr>"

inductive http_reach :: "http_config \<Rightarrow> serv_map \<Rightarrow> http_state \<Rightarrow> bool" for cfg m where
  http_start: "http_reach cfg m (http_init m)"
| http_connect: "http_reach cfg m st \<Longrightarrow> hconns st this = None \<Longrightarrow>
    http_reach cfg m (HttpOnConnect tick this handle ip st)"
| http_callback: "http_reach cfg m st \<Longrightarrow> httpconn_callback cfg tick h msg st = Some st' \<Longrightarrow> http_reach cfg m st'"
| http_timer: "http_reach cfg m st \<Longrightarrow> http_conn_timer_callback tick st = Some st' \<Longrightarrow> http_reach cfg m st'"

definition http_inv :: "http_state \<Rightarrow> bool" where
  "http_inv st \<longleftrightarrow> cm_ok (g_http_conn_map st) \<and>
     (\<forall>(h, c) \<in> set (g_http_conn_map st). \<exists>x. hconns st c = Some x \<and> m_conn_handle x = h)"

named_theorems http_defs "the operations of an HTTP connection"

lemmas [http_defs] = upd_hconn_def HttpClose_def OnWriteComlete_def sent_now_def HttpSend_def HttpOnWrite_def
  HttpHandleMsgServRequest_def HttpOnTimer_def

lemma http_invD:
  assumes "http_inv st" and "(h, c) \<in> set (g_http_conn_map st)"
  obtains x where "hconns st c = Some x" "m_conn_handle x = h"
  using assms by (auto simp: http_inv_def)

lemma http_find_live:
  assumes "http_inv st" and "FindHttpConnByHandle h st = Some c"
  obtains x where "hconns st c = Some x" "m_conn_handle x = h"
  using assms by (auto simp: FindHttpConnByHandle_def dest: map_of_SomeD elim: http_invD)

text \<open>
  A step of one connection: its object is updated or the connection is closed; the others stay.
\<close>

definition http_moved :: "http_state \<Rightarrow> conn \<Rightarrow> http_state \<Rightarrow> bool" where
  "http_moved st c st' \<longleftrightarrow> hservers st' = hservers st \<and> (\<exists>x. hconns st c = Some x \<and>
     ((\<exists>y. m_conn_handle y = m_conn_handle x \<and> hconns st' = (hconns st)(c \<mapsto> y) \<and>
           g_http_conn_map st' = g_http_conn_map st)
      \<or> hconns st' = (hconns st)(c := None) \<and>
        g_http_conn_map st' = cm_erase (m_conn_handle x) (g_http_conn_map st)))"

lemma http_moved_inv:
  assumes "http_moved st c st'" and inv: "http_inv st"
  shows "http_inv st'"
proof -
  obtain x where x: "hconns st c = Some x" and
    alt: "(\<exists>y. m_conn_handle y = m_conn_handle x \<and> hconns st' = (hconns st)(c \<mapsto> y) \<and>
           g_http_conn_map st' = g_http_conn_map st)
      \<or> hconns st' = (hconns st)(c := None) \<and>
        g_http_conn_map st' = cm_erase (m_conn_handle x) (g_http_conn_map st)" (is "?upd \<or> ?closed")
    using assms(1) by (auto simp: http_moved_def)
  from alt show ?thesis
  proof
    assume up: ?upd
    have "\<exists>y. hconns st' d = Some y \<and> m_conn_handle y = h" if "(h, d) \<in> set (g_http_conn_map st)" for h d
      using http_invD [OF inv that] x up by (metis fun_upd_apply option.inject)
    then show ?thesis using inv up by (auto simp: http_inv_def)
  next
    assume cl: ?closed
    have "cm_ok (g_http_conn_map st')"
      using inv cl by (simp add: http_inv_def cm.inv_erase)
    moreover have "\<exists>y. hconns st' d = Some y \<and> m_conn_handle y = h" if "(h, d) \<in> set (g_http_conn_map st')" for h d
    proof -
      have "h \<noteq> m_conn_handle x" "(h, d) \<in> set (g_http_conn_map st)" using that cl by auto
      then obtain y where "hconns st d = Some y" "m_conn_handle y = h" using inv by (blast elim: http_invD)
      with \<open>h \<noteq> m_conn_handle x\<close> show ?thesis using x cl by auto
    qed
    ultimately show ?thesis by (auto simp: http_inv_def)
  qed
qed

lemma upd_same_iff: "f(c := a) = f(c := b) \<longleftrightarrow> a = b"
  by (auto dest: fun_upd_eqD)

lemma http_moved_upd:
  "hconns st c = Some x \<Longrightarrow> m_conn_handle y = m_conn_handle x \<Longrightarrow> hconns st' = (hconns st)(c \<mapsto> y) \<Longrightarrow>
   g_http_conn_map st' = g_http_conn_map st \<Longrightarrow> hservers st' = hservers st \<Longrightarrow> http_moved st c st'"
  by (auto simp: http_moved_def)

lemma http_moved_refl: "hconns st c = Some x \<Longrightarrow> http_moved st c st"
  by (rule http_moved_upd [of st c x x]) (auto simp: fun_upd_idem)

lemma http_moved_after_upd:
  "hconns st c = Some x \<Longrightarrow> m_conn_handle y = m_conn_handle x \<Longrightarrow>
   http_moved (st\<lparr>hconns := (hconns st)(c \<mapsto> y)\<rparr>) c st' \<Longrightarrow> http_moved st c st'"
  by (auto simp: http_moved_def)

lemma HttpClose_moved:
  "hconns st c = Some x \<Longrightarrow> \<exists>st'. HttpClose c st = Some st' \<and> http_moved st c st'"
  by (simp add: HttpClose_def http_moved_def)

lemma HttpSend_moved:
  "hconns st c = Some x \<Longrightarrow> \<exists>st'. HttpSend tick ret d c st = Some st' \<and> http_moved st c st'"
  by (simp add: http_defs http_moved_def Let_def upd_same_iff)

lemma HttpOnWrite_moved:
  assumes "hconns st c = Some x"
  shows "case HttpOnWrite ret c st of
      None \<Rightarrow> hc_busy x \<and> int (length (hc_out_buf x)) \<le> max 0 ret
    | Some st' \<Rightarrow> \<not> (hc_busy x \<and> int (length (hc_out_buf x)) \<le> max 0 ret) \<and> http_moved st c st'"
proof (cases "hc_busy x")
  case True
  then show ?thesis using assms by (auto simp: http_defs http_moved_def Let_def max_def upd_same_iff)
next
  case False
  then show ?thesis using assms http_moved_refl [OF assms] by (simp add: HttpOnWrite_def)
qed

lemma HttpOnRead_moved:
  assumes x: "hconns st c = Some x"
  shows "\<exists>st'. HttpOnRead cfg tick ret chunks c st = Some st' \<and> http_moved st c st'"
proof -
  define y where "y = x\<lparr>hc_in_buf := hc_in_buf x @ concat chunks,
     hc_last_recv_tick := (if chunks = [] then hc_last_recv_tick x else tick)\<rparr>"
  define st1 where "st1 = st\<lparr>hconns := (hconns st)(c \<mapsto> y)\<rparr>"
  have y: "hconns st1 c = Some y" "m_conn_handle y = m_conn_handle x" by (simp_all add: st1_def y_def)
  have "\<exists>st'. HttpOnRead cfg tick ret chunks c st = Some st' \<and> http_moved st1 c st'"
    using x y HttpClose_moved [OF y(1)] HttpSend_moved [OF y(1)] http_moved_refl [OF y(1)]
    by (simp add: HttpOnRead_def HttpHandleMsgServRequest_def upd_hconn_def st1_def [symmetric] y_def [symmetric] Let_def)
  then show ?thesis using http_moved_after_upd [OF x y(2)] by (auto simp: st1_def)
qed

lemma HttpOnTimer_moved:
  "hconns st c = Some x \<Longrightarrow> \<exists>st'. HttpOnTimer tick c st = Some st' \<and> http_moved st c st'"
  using HttpClose_moved [of st c x] http_moved_refl [of st c x] by (simp add: HttpOnTimer_def)

lemma httpconn_callback_moved:
  assumes inv: "http_inv st" and found: "FindHttpConnByHandle h st = Some c" and x: "hconns st c = Some x"
  shows "case httpconn_callback cfg tick h msg st of
      None \<Rightarrow> \<exists>ret. msg = MsgWrite ret \<and> hc_busy x \<and> int (length (hc_out_buf x)) \<le> max 0 ret
    | Some st' \<Rightarrow> \<not> (\<exists>ret. msg = MsgWrite ret \<and> hc_busy x \<and> int (length (hc_out_buf x)) \<le> max 0 ret) \<and> http_moved st c st'"
proof (cases msg)
  case (MsgWrite ret)
  then show ?thesis using found HttpOnWrite_moved [OF x, of ret] by (simp add: httpconn_callback_def split: option.splits)
next
  case (MsgRead chunks ret)
  then show ?thesis using found HttpOnRead_moved [OF x, of cfg tick ret chunks] by (auto simp: httpconn_callback_def)
next
  case MsgClosed
  then show ?thesis using found HttpClose_moved [OF x] by (auto simp: httpconn_callback_def)
qed

text \<open>The timer visits live connections: a step of one leaves the others, whose handles differ.\<close>

lemma http_timer_loop_ok:
  assumes "http_inv st" and "distinct (map fst it)" and "set it \<subseteq> set (g_http_conn_map st)"
  shows "\<exists>st'. http_timer_loop tick it st = Some st' \<and> http_inv st'"
  using assms
proof (induction it arbitrary: st)
  case (Cons p it)
  obtain h c where p: "p = (h, c)" by (cases p)
  obtain x where x: "hconns st c = Some x" "m_conn_handle x = h" using Cons.prems p by (auto elim: http_invD)
  obtain st1 where st1: "HttpOnTimer tick c st = Some st1" "http_moved st c st1" using HttpOnTimer_moved [OF x(1)] by blast
  have "set it \<subseteq> set (g_http_conn_map st1)"
  proof
    fix q assume "q \<in> set it"
    then have q: "q \<in> set (g_http_conn_map st)" "fst q \<noteq> h" using Cons.prems p by auto
    then show "q \<in> set (g_http_conn_map st1)" using st1(2) x by (auto simp: http_moved_def cm_erase_def)
  qed
  moreover have "http_inv st1" using http_moved_inv [OF st1(2)] Cons.prems by blast
  ultimately show ?case using Cons.IH [of st1] Cons.prems p st1(1) by simp
qed simp

lemma http_timer_ok:
  assumes "http_inv st"
  shows "\<exists>st'. http_conn_timer_callback tick st = Some st' \<and> http_inv st'"
  unfolding http_conn_timer_callback_def using assms by (intro http_timer_loop_ok) (auto simp: http_inv_def cm_ok_def)

lemma http_reach_inv: "http_reach cfg m st \<Longrightarrow> http_inv st"
proof (induction rule: http_reach.induct)
  case http_start
  show ?case by (simp add: http_init_def http_inv_def)
next
  case (http_connect st this tick handle ip)
  have fresh: "(h, this) \<notin> set (g_http_conn_map st)" for h
    using http_connect by (auto elim: http_invD)
  show ?case
    using http_connect.IH http_connect.hyps fresh
    by (auto simp: http_inv_def HttpOnConnect_def Let_def cm.inv_insert dest: in_cm_insert)
next
  case (http_callback st tick h msg st')
  show ?case
  proof (cases "FindHttpConnByHandle h st")
    case None
    then show ?thesis using http_callback by (simp add: httpconn_callback_def)
  next
    case (Some c)
    obtain x where x: "hconns st c = Some x" using http_find_live [OF http_callback.IH Some] by blast
    show ?thesis using httpconn_callback_moved [OF http_callback.IH Some x, where cfg = cfg and tick = tick and msg = msg] http_callback
      by (auto intro: http_moved_inv)
  qed
next
  case (http_timer st tick st')
  then show ?case using http_timer_ok [of st tick] by auto
qed

subsection \<open>Properties\<close>

lemma HttpSend_idle:
  assumes "hconns st c = Some x" and "\<not> hc_busy x" and "0 \<le> ret"
  shows "HttpSend tick ret d c st =
    (if ret < int (length d)
     then Some (st\<lparr>hconns := (hconns st)(c \<mapsto> x\<lparr>hc_last_send_tick := tick, hc_out_buf := hc_out_buf x @ drop (nat ret) d, hc_busy := True\<rparr>),
                   hsent := (hsent st)(c := hsent st c @ take (nat ret) d)\<rparr>)
     else Some (st\<lparr>hconns := (hconns st)(c := None), hsent := (hsent st)(c := hsent st c @ d),
                   g_http_conn_map := cm_erase (m_conn_handle x) (g_http_conn_map st)\<rparr>))"
  using assms by (simp add: http_defs)

lemma http_response_cut:
  "length (http_response content) \<le> 1023"
  using length_takeWhile_le [of "\<lambda>c. c \<noteq> 0" "take 1023 (HTTP_RESPONSE_HTML content)"]
  by (simp add: http_response_def c_str_def HTTP_RESPONSE_HTML_MAX_def)

lemma HttpOnRead_request:
  assumes x: "hconns st c = Some x" and idle: "\<not> hc_busy x" "hc_out_buf x = []" and ret: "0 \<le> ret"
    and small: "length (hc_in_buf x @ concat chunks) \<le> 1024"
    and p: "p = ParseHttpContent (http_exec cfg) (hc_in_buf x @ concat chunks)"
    and url: "m_read_all p" "take 11 (c_str (m_url p)) = str ''/msg_server''"
    and r: "r = http_response (styled cfg (http_answer cfg (m_peer_ip x) (hservers st)))"
  obtains st1 y where "HttpOnRead cfg tick ret chunks c st = HttpSend tick ret r c st1"
    "hconns st1 c = Some y" "\<not> hc_busy y" "hc_out_buf y = []" "m_conn_handle y = m_conn_handle x" "hsent st1 = hsent st"
proof -
  define y where "y = x\<lparr>hc_in_buf := hc_in_buf x @ concat chunks,
     hc_last_recv_tick := (if chunks = [] then hc_last_recv_tick x else tick)\<rparr>"
  define st1 where "st1 = st\<lparr>hconns := (hconns st)(c \<mapsto> y)\<rparr>"
  have y: "hconns st1 c = Some y" "\<not> hc_busy y" "hc_out_buf y = []" "m_conn_handle y = m_conn_handle x"
      "hsent st1 = hsent st" "hservers st1 = hservers st" "m_peer_ip y = m_peer_ip x" "hc_in_buf y = hc_in_buf x @ concat chunks"
    using idle by (simp_all add: st1_def y_def)
  have "HttpOnRead cfg tick ret chunks c st = HttpSend tick ret r c st1"
    using x y small url p r
    by (simp add: HttpOnRead_def HttpHandleMsgServRequest_def upd_hconn_def st1_def [symmetric] y_def [symmetric])
  from this y(1-5) show ?thesis by (rule that)
qed

text \<open>What an answer says: no server, all full, or a server of the list with its addresses.\<close>

definition answer_names :: "http_config \<Rightarrow> bytes \<Rightarrow> (string \<times> json) list \<Rightarrow> msg_serv_info \<Rightarrow> bool" where
  "answer_names cfg ip ans i \<longleftrightarrow> map_of ans ''code'' = Some (JInt 0) \<and>
     (let (prior, backup) = (if isTelcome (Some ip) then (ip_addr1 i, ip_addr2 i) else (ip_addr2 i, ip_addr1 i)) in
      map_of ans ''priorIP'' = Some (JStr (str prior)) \<and> map_of ans ''backupIP'' = Some (JStr (str backup))) \<and>
     map_of ans ''port'' = Some (JStr (int2string (ucast (port i))))"

lemma http_answer_least:
  assumes "fst ` set m \<subseteq> S"
  shows "if m = [] then map_of (http_answer cfg ip m) ''code'' = Some (JInt 1)
   else if \<forall>(h, i) \<in> set m. max_conn_cnt i \<le> cur_conn_cnt i then map_of (http_answer cfg ip m) ''code'' = Some (JInt 2)
   else \<exists>(h, i) \<in> set m. h \<in> S \<and> cur_conn_cnt i < max_conn_cnt i \<and> answer_names cfg ip (http_answer cfg ip m) i \<and>
     (\<forall>(k, j) \<in> set m. cur_conn_cnt j < max_conn_cnt j \<longrightarrow> cur_conn_cnt i \<le> cur_conn_cnt j)"
proof (cases "min_conn m")
  case None
  then have "\<forall>(h, i) \<in> set m. max_conn_cnt i \<le> cur_conn_cnt i"
    using lc.pick_None [OF None] by (fastforce simp: has_room_def)
  then show ?thesis using None by (simp add: http_answer_def)
next
  case (Some x)
  obtain h i where x: "x = (h, i)" by (cases x)
  note pick = lc.pick_Some [OF Some [unfolded x]] and least = lc.pick_least [OF Some [unfolded x]]
  have full: "\<not> (\<forall>(h, i) \<in> set m. max_conn_cnt i \<le> cur_conn_cnt i)" "m \<noteq> []"
    using pick by (force simp: has_room_def)+
  have "answer_names cfg ip (http_answer cfg ip m) i"
    using Some full(2) by (simp add: http_answer_def answer_names_def x)
  then have "\<exists>(h, i) \<in> set m. h \<in> S \<and> cur_conn_cnt i < max_conn_cnt i \<and> answer_names cfg ip (http_answer cfg ip m) i \<and>
     (\<forall>(k, j) \<in> set m. cur_conn_cnt j < max_conn_cnt j \<longrightarrow> cur_conn_cnt i \<le> cur_conn_cnt j)"
    using pick least assms by (intro bexI [of _ "(h, i)"]) (force simp: has_room_def)+
  then show ?thesis unfolding if_not_P [OF full(2)] if_not_P [OF full(1)] .
qed

text \<open>
  C14: a client that asks for a message server is sent to the least loaded one, over HTTP. In every reachable state of the
  login server, a complete request on an idle HTTP connection is answered with ``no server'' exactly when none is
  known, ``overloaded'' exactly when every one is full, and otherwise with the addresses and the port of a connected message
  server that has room and carries no more users than any other with room. A request over the client port has no
  effect at all.
\<close>

theorem request_gets_least_loaded:
  assumes "login_reach pb lst" and "hservers st = g_msg_serv_info lst"
    and x: "hconns st c = Some x" and idle: "\<not> hc_busy x" "hc_out_buf x = []" and ret: "0 \<le> ret"
    and small: "length (hc_in_buf x @ concat chunks) \<le> 1024"
    and p: "p = ParseHttpContent (http_exec cfg) (hc_in_buf x @ concat chunks)"
    and url: "m_read_all p" "take 11 (c_str (m_url p)) = str ''/msg_server''"
  shows "\<exists>st' ans. HttpOnRead cfg tick ret chunks c st = Some st' \<and>
    hsent st' c @ (case hconns st' c of None \<Rightarrow> [] | Some y \<Rightarrow> hc_out_buf y) = hsent st c @ http_response (styled cfg ans) \<and>
    (if g_msg_serv_info lst = [] then map_of ans ''code'' = Some (JInt 1)
     else if \<forall>(h, i) \<in> set (g_msg_serv_info lst). max_conn_cnt i \<le> cur_conn_cnt i then map_of ans ''code'' = Some (JInt 2)
     else \<exists>(h, i) \<in> set (g_msg_serv_info lst). h \<in> fst ` set (g_msg_serv_conn_map lst) \<and>
       cur_conn_cnt i < max_conn_cnt i \<and> answer_names cfg (m_peer_ip x) ans i \<and>
       (\<forall>(k, j) \<in> set (g_msg_serv_info lst). cur_conn_cnt j < max_conn_cnt j \<longrightarrow> cur_conn_cnt i \<le> cur_conn_cnt j)) \<and>
    LoginRead pb tick logIN_CONN_TYPE_CLIENT k ps lst = Some lst"
proof -
  let ?ans = "http_answer cfg (m_peer_ip x) (g_msg_serv_info lst)"
  obtain st1 y where y: "HttpOnRead cfg tick ret chunks c st = HttpSend tick ret (http_response (styled cfg ?ans)) c st1"
      "hconns st1 c = Some y" "\<not> hc_busy y" "hc_out_buf y = []" "hsent st1 = hsent st"
    using HttpOnRead_request [OF x idle ret small p url refl, of tick] unfolding assms(2) by metis
  have "\<exists>st'. HttpOnRead cfg tick ret chunks c st = Some st' \<and> hsent st' c @
      (case hconns st' c of None \<Rightarrow> [] | Some y \<Rightarrow> hc_out_buf y) = hsent st c @ http_response (styled cfg ?ans)"
    using HttpSend_idle [OF y(2,3) ret, of tick] y by simp
  moreover have "fst ` set (g_msg_serv_info lst) \<subseteq> fst ` set (g_msg_serv_conn_map lst)"
    using login_reach_inv [OF assms(1)] unfolding login_inv_def by (metis map_of_eq_None_iff subsetI)
  from http_answer_least [OF this, of cfg "m_peer_ip x"] obtain ans where "ans = ?ans"
     "if g_msg_serv_info lst = [] then map_of ans ''code'' = Some (JInt 1)
     else if \<forall>(h, i) \<in> set (g_msg_serv_info lst). max_conn_cnt i \<le> cur_conn_cnt i then map_of ans ''code'' = Some (JInt 2)
     else \<exists>(h, i) \<in> set (g_msg_serv_info lst). h \<in> fst ` set (g_msg_serv_conn_map lst) \<and>
       cur_conn_cnt i < max_conn_cnt i \<and> answer_names cfg (m_peer_ip x) ans i \<and>
       (\<forall>(k, j) \<in> set (g_msg_serv_info lst). cur_conn_cnt j < max_conn_cnt j \<longrightarrow> cur_conn_cnt i \<le> cur_conn_cnt j)"
    by blast
  moreover have "LoginRead pb tick logIN_CONN_TYPE_CLIENT k ps lst = Some lst"
    using client_port_unanswered [OF assms(1)] by blast
  ultimately show ?thesis by blast
qed

text \<open>
  C21: A complete request for the address of a message server that arrives on an idle connection is answered
  with the head and the printed answer. When the socket takes all of it, it has all been sent and the connection is gone, object
  and map entry; otherwise what was sent and what waits in the buffer make up the answer, and
  the write event that sends the rest ends in an access to the deleted object.
\<close>

theorem http_request_answered:
  assumes x: "hconns st c = Some x" and idle: "\<not> hc_busy x" "hc_out_buf x = []" and ret: "0 \<le> ret"
    and small: "length (hc_in_buf x @ concat chunks) \<le> 1024"
    and p: "p = ParseHttpContent (http_exec cfg) (hc_in_buf x @ concat chunks)"
    and url: "m_read_all p" "take 11 (c_str (m_url p)) = str ''/msg_server''"
    and r: "r = http_response (styled cfg (http_answer cfg (m_peer_ip x) (hservers st)))"
  shows "\<exists>st'. HttpOnRead cfg tick ret chunks c st = Some st' \<and>
    (if int (length r) \<le> ret
     then hsent st' c = hsent st c @ r \<and> hconns st' c = None \<and> FindHttpConnByHandle (m_conn_handle x) st' = None
     else (\<exists>y. hconns st' c = Some y \<and> hc_busy y \<and> hsent st' c @ hc_out_buf y = hsent st c @ r \<and>
             HttpOnWrite (int (length (hc_out_buf y))) c st' = None))"
proof -
  obtain st1 y where y: "HttpOnRead cfg tick ret chunks c st = HttpSend tick ret r c st1"
      "hconns st1 c = Some y" "\<not> hc_busy y" "hc_out_buf y = []" "m_conn_handle y = m_conn_handle x" "hsent st1 = hsent st"
    using HttpOnRead_request [OF x idle ret small p url r] by metis
  then show ?thesis
    using HttpSend_idle [OF y(2,3) ret, of tick r] ret
    by (simp add: FindHttpConnByHandle_def map_of_cm_erase HttpOnWrite_def HttpClose_def OnWriteComlete_def
      upd_hconn_def sent_now_def)
qed

definition demo_cfg :: http_config where
  "demo_cfg = \<lparr>strMsfsUrl = [], strDiscovery = [], styled = \<lambda>_. str ''{}'', http_exec = \<lambda>b. [OnUrl b 11, OnMessageComplete]\<rparr>"

lemmas demo_eval = demo_cfg_def http_init_def HttpOnConnect_def CHttpConn_def cm_insert_def str_def ParseHttpContent_def
  parser_cleared_def c_str_def Let_def

lemma http_request_answered_witness:
  "\<exists>st'. HttpOnRead demo_cfg 9 2000 [str ''/msg_server''] 3 (HttpOnConnect 1 3 7 [] (http_init [])) = Some st' \<and>
     hconns st' 3 = None \<and> hsent st' 3 = http_response (str ''{}'')"
proof -
  define st where "st = HttpOnConnect 1 3 7 [] (http_init [])"
  obtain x where x: "hconns st 3 = Some x" "\<not> hc_busy x" "hc_out_buf x = []" "hc_in_buf x = []" "hsent st 3 = []"
    by (simp add: st_def demo_eval)
  have r: "styled demo_cfg (http_answer demo_cfg (m_peer_ip x) (hservers st)) = str ''{}''" by (simp add: demo_cfg_def)
  have "int (length (http_response (str ''{}''))) \<le> 2000"
    using http_response_cut [of "str ''{}''"] by linarith
  then show ?thesis
    using http_request_answered [OF x(1-3) _ _ refl _ _ refl, of 2000 "[str ''/msg_server'']" demo_cfg 9] x(4,5)
    unfolding st_def [symmetric] r by (auto simp: demo_eval)
qed

text \<open>Two message servers, with two users and with one, are known: the client is sent to the second.\<close>

lemma request_gets_least_loaded_witness:
  "\<exists>st' ans i. HttpOnRead demo_cfg 9 2000 [str ''/msg_server''] 3 (HttpOnConnect 1 3 7 [] (http_init (g_msg_serv_info two_servers))) = Some st' \<and>
     hsent st' 3 @ (case hconns st' 3 of None \<Rightarrow> [] | Some y \<Rightarrow> hc_out_buf y) = http_response (styled demo_cfg ans) \<and>
     (6, i) \<in> set (g_msg_serv_info two_servers) \<and> answer_names demo_cfg [] ans i"
proof -
  let ?m = "g_msg_serv_info two_servers"
  define st where "st = HttpOnConnect 1 3 7 [] (http_init ?m)"
  obtain x where x: "hconns st 3 = Some x" "\<not> hc_busy x" "hc_out_buf x = []" "hc_in_buf x = []" "hsent st 3 = []" "m_peer_ip x = []"
    by (simp add: st_def demo_eval)
  have m: "hservers st = ?m" by (simp add: st_def demo_eval)
  let ?p = "ParseHttpContent (http_exec demo_cfg) (hc_in_buf x @ concat [str ''/msg_server''])"
  have p: "length (hc_in_buf x @ concat [str ''/msg_server'']) \<le> 1024" "m_read_all ?p"
    "take 11 (c_str (m_url ?p)) = str ''/msg_server''"
    by (simp_all add: x(4) demo_eval)
  have n: "?m \<noteq> []" "\<not> (\<forall>(h, i) \<in> set ?m. max_conn_cnt i \<le> cur_conn_cnt i)" by (simp_all add: two_servers_def)
  have least: "h = 6" if "(h, i) \<in> set ?m" "\<forall>(k, j) \<in> set ?m. cur_conn_cnt j < max_conn_cnt j \<longrightarrow> cur_conn_cnt i \<le> cur_conn_cnt j" for h i
    using that by (auto simp: two_servers_def word_le_nat_alt)
  from request_gets_least_loaded [OF two_servers_reach m x(1-3) _ p(1) refl p(2,3), of 2000 9 0 "[]"]
  show ?thesis unfolding if_not_P [OF n(1)] if_not_P [OF n(2)] x(5,6) st_def [symmetric] using least by fastforce
qed

text \<open>
  In every reachable state the timer does not fail, and a callback fails, by using a deleted object, exactly when it is the
  write event that sends the rest of an answer.
\<close>

lemma http_fails_on_last_write:
  assumes "http_reach cfg m st"
  shows "(httpconn_callback cfg tick h msg st = None \<longleftrightarrow>
      (\<exists>c x ret. FindHttpConnByHandle h st = Some c \<and> hconns st c = Some x \<and> msg = MsgWrite ret \<and> hc_busy x \<and>
         int (length (hc_out_buf x)) \<le> max 0 ret))
    \<and> http_conn_timer_callback tick st \<noteq> None"
proof -
  have inv: "http_inv st" using assms by (rule http_reach_inv)
  have "httpconn_callback cfg tick h msg st = None \<longleftrightarrow>
      (\<exists>c x ret. FindHttpConnByHandle h st = Some c \<and> hconns st c = Some x \<and> msg = MsgWrite ret \<and> hc_busy x \<and>
         int (length (hc_out_buf x)) \<le> max 0 ret)"
  proof (cases "FindHttpConnByHandle h st")
    case None
    then show ?thesis by (simp add: httpconn_callback_def)
  next
    case (Some c)
    obtain x where x: "hconns st c = Some x" using http_find_live [OF inv Some] by blast
    show ?thesis
      using httpconn_callback_moved [OF inv Some x, where cfg = cfg and tick = tick and msg = msg] Some x
      by (auto split: option.splits)
  qed
  then show ?thesis using http_timer_ok [OF inv, of tick] by auto
qed

lemma http_fails_on_last_write_witness:
  "httpconn_callback demo_cfg 9 1 (MsgWrite 500)
     (the (httpconn_callback demo_cfg 9 1 (MsgRead [str ''/msg_server''] 20) (HttpOnConnect 1 3 7 [] (http_init [])))) = None"
proof -
  define st where "st = HttpOnConnect 1 3 7 [] (http_init [])"
  have r0: "http_reach demo_cfg [] st"
    unfolding st_def by (rule http_connect [OF http_start]) (simp add: http_init_def)
  have len: "20 < length (http_response (str ''{}''))" "length (http_response (str ''{}'')) \<le> 500"
    by (simp_all add: http_response_def HTTP_RESPONSE_HTML_def HTTP_RESPONSE_HTML_MAX_def str_def crlf_def c_str_def
      show_nat.simps digit_char_def)
  obtain x where x: "hconns st 3 = Some x" "\<not> hc_busy x" "hc_out_buf x = []" "hc_in_buf x = []"
      "FindHttpConnByHandle 1 st = Some 3"
    by (simp add: st_def demo_eval FindHttpConnByHandle_def)
  obtain st' y where st': "httpconn_callback demo_cfg 9 1 (MsgRead [str ''/msg_server''] 20) st = Some st'"
      "hconns st' 3 = Some y" "hc_busy y" "length (hc_out_buf y) \<le> 500" "FindHttpConnByHandle 1 st' = Some 3"
    using len HttpSend_idle [of _ 3 _ 20 9 "http_response (str ''{}'')"] x
    by (auto simp: httpconn_callback_def HttpOnRead_def HttpHandleMsgServRequest_def upd_hconn_def demo_eval FindHttpConnByHandle_def)
  have "http_reach demo_cfg [] st'" using http_callback [OF r0 st'(1)] .
  from http_fails_on_last_write [OF this, of 9 1 "MsgWrite 500"]
  have "httpconn_callback demo_cfg 9 1 (MsgWrite 500) st' = None" using st'(2-5) by auto
  then show ?thesis using st'(1) by (simp add: st_def [symmetric])
qed

end
