(* ===== verification/Attach_Data.thy ===== *)
theory Attach_Data
  imports Byte_Stream "HOL-Library.Monad_Syntax"
begin

text \<open>
  \<open>msg_server/AttachData.cpp\<close>: what a message server attaches to a request, so that it recognizes
  the answer: a type, the handle of the client connection, a service type and, in \<open>CPduAttachData\<close>, the
  body of another message. A constructor that writes returns the contents of \<open>m_buf\<close>, \<open>None\<close> where
  a write leaves the allocation; one that reads throws on short data. \<open>junk\<close> is what \<open>realloc\<close> leaves in
  new memory.
\<close>

definition ATTACH_TYPE_HANDLE :: u32 where [const_defs]: "ATTACH_TYPE_HANDLE = 1"
definition ATTACH_TYPE_PDU :: u32 where [const_defs]: "ATTACH_TYPE_PDU = 2"
definition ATTACH_TYPE_HANDLE_AND_PDU :: u32 where [const_defs]: "ATTACH_TYPE_HANDLE_AND_PDU = 3"
definition ATTACH_TYPE_PDU_FOR_PUSH :: u32 where [const_defs]: "ATTACH_TYPE_PDU_FOR_PUSH = 4"
definition ATTACH_TYPE_HANDLE_AND_PDU_FOR_FILE :: u32 where [const_defs]: "ATTACH_TYPE_HANDLE_AND_PDU_FOR_FILE = 5"

definition stream_bytes :: "byte_stream \<Rightarrow> bytes" where
  "stream_bytes os = (case m_pSimpBuf os of Some b \<Rightarrow> contents b | None \<Rightarrow> [])"

definition CDbAttachData :: "(nat \<Rightarrow> u8) \<Rightarrow> u32 \<Rightarrow> u32 \<Rightarrow> u32 \<Rightarrow> bytes option" where
  "CDbAttachData junk type handle service_type = do {
     os \<leftarrow> write_u32 junk (stream_of_simple CSimpleBuffer 0) type;
     os \<leftarrow> write_u32 junk os handle;
     os \<leftarrow> write_u32 junk os service_type;
     Some (stream_bytes os)}"

definition CPduAttachData :: "(nat \<Rightarrow> u8) \<Rightarrow> u32 \<Rightarrow> u32 \<Rightarrow> u32 \<Rightarrow> bytes \<Rightarrow> u32 \<Rightarrow> bytes option" where
  "CPduAttachData junk type handle pduLength pdu service_type = do {
     os \<leftarrow> write_u32 junk (stream_of_simple CSimpleBuffer 0) type;
     os \<leftarrow> write_u32 junk os handle;
     os \<leftarrow> write_u32 junk os service_type;
     os \<leftarrow> WriteData junk os pdu pduLength;
     Some (stream_bytes os)}"

record attach_data =
  ad_type :: u32
  ad_handle :: u32
  ad_service_type :: u32

definition read_attach :: "byte_stream \<Rightarrow> pdu_exception + attach_data \<times> byte_stream" where
  "read_attach is =
     (case read_u32 is of Inl e \<Rightarrow> Inl e | Inr (type, is) \<Rightarrow>
      (case read_u32 is of Inl e \<Rightarrow> Inl e | Inr (handle, is) \<Rightarrow>
       (case read_u32 is of Inl e \<Rightarrow> Inl e | Inr (service_type, is) \<Rightarrow>
          Inr (\<lparr>ad_type = type, ad_handle = handle, ad_service_type = service_type\<rparr>, is))))"

text \<open>The reading constructors; the string they read is as long as its length says.\<close>

definition db_attach_of :: "bytes \<Rightarrow> pdu_exception + attach_data" where
  "db_attach_of attach =
     (case read_attach (stream_of_raw attach (of_nat (length attach))) of
        Inl e \<Rightarrow> Inl e | Inr (a, is) \<Rightarrow> Inr a)"

text \<open>\<open>GetPdu\<close> is a pointer into the attached data: the bytes from there to its end.\<close>

definition pdu_attach_of :: "bytes \<Rightarrow> pdu_exception + attach_data \<times> u32 \<times> bytes" where
  "pdu_attach_of attach =
     (case read_attach (stream_of_raw attach (of_nat (length attach))) of
        Inl e \<Rightarrow> Inl e
      | Inr (a, is) \<Rightarrow> (case ReadData is of Inl e \<Rightarrow> Inl e
          | Inr ((pos, pduLength), is) \<Rightarrow> Inr (a, pduLength, drop (unat pos) attach)))"

subsection \<open>What is written\<close>

definition attach_bytes :: "u32 \<Rightarrow> u32 \<Rightarrow> u32 \<Rightarrow> bytes" where
  "attach_bytes type handle service_type =
     WriteUint32 [0, 0, 0, 0] type @ WriteUint32 [0, 0, 0, 0] handle @ WriteUint32 [0, 0, 0, 0] service_type"

definition pdu_attach_bytes :: "u32 \<Rightarrow> u32 \<Rightarrow> u32 \<Rightarrow> bytes \<Rightarrow> bytes" where
  "pdu_attach_bytes type handle service_type pdu =
     attach_bytes type handle service_type @ WriteUint32 [0, 0, 0, 0] (of_nat (length pdu)) @ pdu"

abbreviation "be4 \<equiv> WriteUint32 [0, 0, 0, 0]"

lemma length_be4 [simp]: "length (be4 v) = 4"
  by (simp add: WriteUint32_def)

lemma length_attach_bytes [simp]: "length (attach_bytes t h s) = 12"
  by (simp add: attach_bytes_def)

definition writing :: "byte_stream \<Rightarrow> bytes \<Rightarrow> bool" where
  "writing os xs \<longleftrightarrow> m_pBuf os = None \<and> (\<exists>b. m_pSimpBuf os = Some b \<and> wf_buffer b \<and> contents b = xs)"

lemma writing_start: "writing (stream_of_simple CSimpleBuffer 0) []"
  by (simp add: writing_def stream_of_simple_def buf_simps)

lemma writing_bytes: "writing os xs \<Longrightarrow> stream_bytes os = xs"
  by (auto simp: writing_def stream_bytes_def)

lemma WriteByte_writing:
  assumes "writing os xs" and "len = of_nat (length data)" and "(length xs + length data) * 2 < 2 ^ 32"
  shows "\<exists>os'. WriteByte junk os data len = Some os' \<and> writing os' (xs @ data)"
proof -
  obtain b where b: "m_pBuf os = None" "m_pSimpBuf os = Some b" "wf_buffer b" "contents b = xs"
    using assms(1) by (auto simp: writing_def)
  have "room b (length data)" using assms(3) b(4) by (simp add: room_def Let_def)
  then obtain b' where "Write junk b (Some data) len = Some b'" "wf_buffer b'" "contents b' = contents b @ data"
    using Write_appends [OF b(3) _ assms(2), of junk] by auto
  then show ?thesis using b by (auto simp: WriteByte_def writing_def)
qed

lemma write_u32_writing:
  assumes "writing os xs" and "length xs \<le> 16"
  shows "\<exists>os'. write_u32 junk os v = Some os' \<and> writing os' (xs @ be4 v)"
  unfolding write_u32_def using assms by (intro WriteByte_writing) simp_all

lemma three_words_written:
  "\<exists>os. (do {os \<leftarrow> write_u32 junk (stream_of_simple CSimpleBuffer 0) t; os \<leftarrow> write_u32 junk os h;
             write_u32 junk os s}) = Some os \<and> writing os (attach_bytes t h s)"
proof -
  obtain a where a: "write_u32 junk (stream_of_simple CSimpleBuffer 0) t = Some a" "writing a (be4 t)"
    using write_u32_writing [OF writing_start, of junk t] by auto
  obtain b where b: "write_u32 junk a h = Some b" "writing b (be4 t @ be4 h)"
    using write_u32_writing [OF a(2), of junk h] by auto
  obtain c where "write_u32 junk b s = Some c" "writing c ((be4 t @ be4 h) @ be4 s)"
    using write_u32_writing [OF b(2), of junk s] by auto
  then show ?thesis using a b by (simp add: attach_bytes_def)
qed

lemma CDbAttachData_bytes: "CDbAttachData junk t h s = Some (attach_bytes t h s)"
  using three_words_written [of junk t h s] by (auto simp: CDbAttachData_def writing_bytes bind_eq_Some_conv)

lemma CPduAttachData_bytes:
  assumes "length pdu < 2 ^ 30"
  shows "CPduAttachData junk t h (of_nat (length pdu)) pdu s = Some (pdu_attach_bytes t h s pdu)"
proof -
  obtain os where os: "do {os \<leftarrow> write_u32 junk (stream_of_simple CSimpleBuffer 0) t; os \<leftarrow> write_u32 junk os h;
             write_u32 junk os s} = Some os" "writing os (attach_bytes t h s)"
    using three_words_written by blast
  obtain a where a: "write_u32 junk os (of_nat (length pdu)) = Some a"
      "writing a (attach_bytes t h s @ be4 (of_nat (length pdu)))"
    using write_u32_writing [OF os(2), of junk "of_nat (length pdu)"] by auto
  obtain b where "WriteByte junk a pdu (of_nat (length pdu)) = Some b"
      "writing b ((attach_bytes t h s @ be4 (of_nat (length pdu))) @ pdu)"
    using WriteByte_writing [OF a(2) refl, of pdu junk] assms by auto
  then show ?thesis
    using os(1) a(1) by (auto simp: CPduAttachData_def WriteData_def writing_bytes pdu_attach_bytes_def bind_eq_Some_conv)
qed

subsection \<open>What is read back\<close>

lemma read_be4:
  assumes "raw_at s (pre @ be4 v @ post) (length pre)" and "length pre + 4 \<le> unat (m_len s)"
  shows "\<exists>s'. read_u32 s = Inr (v, s') \<and> raw_at s' (pre @ be4 v @ post) (length pre + 4) \<and> m_len s' = m_len s"
  using read_u32_raw [OF assms] be32.get_local [of "be4 v" post] by (simp add: be32.get_put)

lemma read_attach_bytes:
  assumes "length post + 12 < 2 ^ 32"
  shows "\<exists>is. read_attach (stream_of_raw (attach_bytes t h s @ post) (of_nat (length post + 12))) =
     Inr (\<lparr>ad_type = t, ad_handle = h, ad_service_type = s\<rparr>, is) \<and>
     raw_at is (attach_bytes t h s @ post) 12 \<and> unat (m_len is) = length post + 12"
proof -
  let ?b = "attach_bytes t h s @ post" and ?n = "of_nat (length post + 12) :: u32"
  have n: "unat ?n = length post + 12" using unat_of_nat_32 [OF assms] by simp
  have "raw_at (stream_of_raw ?b ?n) ?b 0" by (rule raw_at_start) (simp add: n del: of_nat_add)
  then obtain a where a: "read_u32 (stream_of_raw ?b ?n) = Inr (t, a)" "raw_at a ?b 4" "m_len a = ?n"
    using read_be4 [of "stream_of_raw ?b ?n" "[]" t "be4 h @ be4 s @ post"] n
    by (auto simp: attach_bytes_def stream_of_raw_def simp del: of_nat_add)
  obtain b where b: "read_u32 a = Inr (h, b)" "raw_at b ?b 8" "m_len b = ?n"
    using read_be4 [of a "be4 t" h "be4 s @ post"] a n by (auto simp: attach_bytes_def simp del: of_nat_add)
  obtain c where "read_u32 b = Inr (s, c)" "raw_at c ?b 12" "m_len c = ?n"
    using read_be4 [of b "be4 t @ be4 h" s post] b n by (auto simp: attach_bytes_def simp del: of_nat_add)
  then show ?thesis using a b n by (simp add: read_attach_def del: of_nat_add)
qed

lemma db_attach_roundtrip:
  "db_attach_of (attach_bytes t h s) = Inr \<lparr>ad_type = t, ad_handle = h, ad_service_type = s\<rparr>"
  using read_attach_bytes [of "[]" t h s] by (auto simp: db_attach_of_def)

lemma pdu_attach_roundtrip:
  assumes "length pdu < 2 ^ 30"
  shows "pdu_attach_of (pdu_attach_bytes t h s pdu) =
     Inr (\<lparr>ad_type = t, ad_handle = h, ad_service_type = s\<rparr>, of_nat (length pdu), pdu)"
proof -
  let ?l = "of_nat (length pdu) :: u32" and ?b = "pdu_attach_bytes t h s pdu"
  have l: "unat ?l = length pdu" using assms by (simp add: unat_of_nat_32)
  obtain is' where i: "read_attach (stream_of_raw ?b (of_nat (length ?b))) =
       Inr (\<lparr>ad_type = t, ad_handle = h, ad_service_type = s\<rparr>, is')" "raw_at is' ?b 12" "unat (m_len is') = length ?b"
    using read_attach_bytes [of "be4 ?l @ pdu" t h s] assms
    by (auto simp: pdu_attach_bytes_def add_ac simp del: of_nat_add)
  obtain r where r: "read_u32 is' = Inr (?l, r)" "raw_at r ?b 16" "m_len r = m_len is'"
    using read_be4 [of is' "attach_bytes t h s" ?l pdu] i by (auto simp: pdu_attach_bytes_def)
  have p: "m_pos r = 16" using r(2) by (simp add: raw_at_def word_unat_eq_iff)
  have "unat (m_pos r + ?l) = 16 + length pdu"
    using p assms l by (simp add: unat_add_no_wrap)
  then have "Skip r ?l = Inr (r\<lparr>m_pos := m_pos r + ?l\<rparr>)"
    using r(3) i(3) by (simp add: Skip_def word_less_nat_alt pdu_attach_bytes_def)
  then have "ReadData is' = Inr ((16, ?l), r\<lparr>m_pos := m_pos r + ?l\<rparr>)"
    using r(1) p by (simp add: ReadData_def)
  then show ?thesis
    using i(1) by (simp add: pdu_attach_of_def) (simp add: pdu_attach_bytes_def)
qed

text \<open>Short data is an exception, whatever it holds.\<close>

lemma db_attach_short:
  assumes "length xs < 12"
  shows "db_attach_of xs = Inl parse_failed"
proof -
  let ?n = "of_nat (length xs) :: u32" and ?s = "stream_of_raw xs (of_nat (length xs))"
  have n: "unat ?n = length xs" using assms by (simp add: unat_of_nat_32)
  have throw: "read_u32 r = Inl parse_failed" if "raw_at r xs k" "m_len r = ?n" "length xs < k + 4" "k \<le> 12" for r k
    using that assms n unat_add_no_wrap [of "m_pos r" 4]
    by (simp add: read_u32_def ReadByte_def raw_at_def word_less_nat_alt)
  have "raw_at ?s xs 0" by (rule raw_at_start) (simp add: n)
  moreover have "m_len ?s = ?n" by (simp add: stream_of_raw_def)
  ultimately have s: "raw_at ?s xs 0" "m_len ?s = ?n" by simp_all
  show ?thesis
  proof (cases "length xs < 4")
    case True
    then show ?thesis using throw [OF s] by (simp add: db_attach_of_def read_attach_def)
  next
    case False
    then obtain v a where a: "read_u32 ?s = Inr (v, a)" "raw_at a xs 4" "m_len a = ?n"
      using read_u32_raw [OF s(1)] s(2) n by auto
    show ?thesis
    proof (cases "length xs < 8")
      case True
      then show ?thesis using throw [OF a(2,3)] a(1) by (simp add: db_attach_of_def read_attach_def)
    next
      case False
      then obtain w b where "read_u32 a = Inr (w, b)" "raw_at b xs 8" "m_len b = ?n"
        using read_u32_raw [OF a(2)] a(3) n by auto
      then show ?thesis using throw [of b 8] a(1) assms by (simp add: db_attach_of_def read_attach_def)
    qed
  qed
qed

end
