(* ===== verification/Relay_Base.thy ===== *)
theory Relay_Base
  imports Msg_Conn Attach_Data
begin

text \<open>
  What the handlers of a message server share: its environment (which servers are connected, the clock),
  messages to other servers, sending to a user or to the connection a request came from, and the calculus the
  handlers are verified with. A PDU is read with its protobuf type, so that the parsers are
  indexed by the command id. A handler returns \<open>None\<close> where it reads deleted memory; one that reads
  attached data may throw (\<open>Inl\<close>), before it has changed anything.
\<close>

record relay_env =
  en_time :: u32
  en_tick :: u64
  en_db :: bool
  en_login :: bool
  en_route :: bool
  en_route_conn :: bool
  en_push :: bool
  en_file :: "(string \<times> u32) list option"
  en_new :: uptr

definition send_db :: "relay_env \<Rightarrow> in_pdu \<Rightarrow> msg_state \<Rightarrow> msg_state" where
  "send_db en p st = (if en_db en then st\<lparr>to_db := to_db st @ [DbPdu p]\<rparr> else st)"
definition send_route :: "relay_env \<Rightarrow> in_pdu \<Rightarrow> msg_state \<Rightarrow> msg_state" where
  "send_route en p st = (if en_route_conn en then st\<lparr>to_route := to_route st @ [RoutePdu p]\<rparr> else st)"
definition send_push :: "relay_env \<Rightarrow> in_pdu \<Rightarrow> msg_state \<Rightarrow> msg_state" where
  "send_push en p st = (if en_push en then st\<lparr>to_push := to_push st @ [p]\<rparr> else st)"

definition send_file :: "in_pdu \<Rightarrow> msg_state \<Rightarrow> msg_state" where
  "send_file p st = st\<lparr>to_file := to_file st @ [p]\<rparr>"

definition new_pdu :: "u16 \<Rightarrow> u16 \<Rightarrow> bytes \<Rightarrow> in_pdu" where
  "new_pdu cid seq body = \<lparr>in_cid = cid, in_seq = seq, in_body = body\<rparr>"

text \<open>A message to every connection of a user, if the user is on this server.\<close>

definition user_cast :: "(im_user \<Rightarrow> conns \<Rightarrow> conns) \<Rightarrow> u32 \<Rightarrow> msg_state \<Rightarrow> msg_state option" where
  "user_cast f user_id st =
     (case GetImUserById user_id st of
        None \<Rightarrow> Some st
      | Some p \<Rightarrow> do {
          u \<leftarrow> users st p;
          if conns_alive u st then Some (st\<lparr>conns := f u (conns st)\<rparr>) else None})"

text \<open>An answer to the connection found by user and handle, where \<open>P\<close> holds of it.\<close>

definition answer_found :: "(msg_conn \<Rightarrow> bool) \<Rightarrow> client_out \<Rightarrow> conn option \<Rightarrow> msg_state \<Rightarrow> msg_state option" where
  "answer_found P m found st =
     (case found of
        None \<Rightarrow> Some st
      | Some c \<Rightarrow> if c \<in> dead st then None
                  else Some (if P (conns st c) then reply m c st else st))"

definition answer :: "(msg_conn \<Rightarrow> bool) \<Rightarrow> client_out \<Rightarrow> u32 \<Rightarrow> u32 \<Rightarrow> msg_state \<Rightarrow> msg_state option" where
  "answer P m user_id handle st = do {
     found \<leftarrow> GetMsgConnByHandle user_id handle st;
     answer_found P m found st}"

type_synonym outcome = "(pdu_exception + msg_state) option"

definition with_attach :: "bytes \<Rightarrow> (attach_data \<Rightarrow> msg_state option) \<Rightarrow> outcome" where
  "with_attach attach f =
     (case db_attach_of attach of Inl e \<Rightarrow> Some (Inl e) | Inr a \<Rightarrow> map_option Inr (f a))"

definition with_pdu_attach :: "bytes \<Rightarrow> (attach_data \<Rightarrow> u32 \<Rightarrow> bytes \<Rightarrow> msg_state option) \<Rightarrow> outcome" where
  "with_pdu_attach attach f =
     (case pdu_attach_of attach of Inl e \<Rightarrow> Some (Inl e) | Inr (a, len, pdu) \<Rightarrow> map_option Inr (f a len pdu))"

fun run_all :: "('a \<Rightarrow> 's \<Rightarrow> 's option) \<Rightarrow> 'a list \<Rightarrow> 's \<Rightarrow> 's option" where
  "run_all f [] st = Some st"
| "run_all f (x # xs) st = do {st \<leftarrow> f x st; run_all f xs st}"

subsection \<open>Handlers that return and stay in a relation\<close>

definition yields :: "('s \<Rightarrow> 's \<Rightarrow> bool) \<Rightarrow> 's \<Rightarrow> 's option \<Rightarrow> bool" where
  "yields R st r \<longleftrightarrow> (\<exists>st'. r = Some st' \<and> R st st')"

locale steps =
  fixes I :: "'s \<Rightarrow> bool" and R :: "'s \<Rightarrow> 's \<Rightarrow> bool"
  assumes refl: "R s s"
    and trans: "R s t \<Longrightarrow> R t v \<Longrightarrow> R s v"
    and keeps: "I s \<Longrightarrow> R s t \<Longrightarrow> I t"
begin

lemma done_ok [intro]: "R s t \<Longrightarrow> yields R s (Some t)"
  by (simp add: yields_def)

lemma same_ok [simp]: "yields R s (Some s)"
  by (simp add: yields_def refl)

lemma bind_ok:
  assumes "I s" and "yields R s r" and "\<And>t. I t \<Longrightarrow> R s t \<Longrightarrow> yields R t (f t)"
  shows "yields R s (Option.bind r f)"
proof -
  obtain t where t: "r = Some t" "R s t" using assms(2) by (auto simp: yields_def)
  then obtain v where "f t = Some v" "R t v" using assms(3) keeps [OF assms(1) t(2)] by (auto simp: yields_def)
  then show ?thesis using t trans by (auto simp: yields_def)
qed

lemma from_ok: "R s t \<Longrightarrow> yields R t r \<Longrightarrow> yields R s r"
  using trans by (auto simp: yields_def)

lemma run_all_ok:
  assumes "\<And>x t. x \<in> set xs \<Longrightarrow> I t \<Longrightarrow> yields R t (f x t)" and "I s"
  shows "yields R s (run_all f xs s)"
  using assms
proof (induction xs arbitrary: s)
  case (Cons x xs)
  have "yields R s (f x s)" using Cons.prems by simp
  moreover have "yields R t (run_all f xs t)" if "I t" for t
    using Cons.prems(1) that by (intro Cons.IH) simp_all
  ultimately show ?case using bind_ok [OF Cons.prems(2)] by simp
qed simp

end

subsection \<open>What a handler of messages leaves alone\<close>

text \<open>Messages are sent and acknowledged, and a user's PC status is noted; the sessions stay.\<close>

definition same_core :: "im_user \<Rightarrow> im_user \<Rightarrow> bool" where
  "same_core u u' \<longleftrightarrow> u'\<lparr>m_pc_login_status := 0\<rparr> = u\<lparr>m_pc_login_status := 0\<rparr>"

definition quiet :: "msg_state \<Rightarrow> msg_state \<Rightarrow> bool" where
  "quiet st st' \<longleftrightarrow> same_session (conns st) (conns st') \<and> dead st' = dead st \<and>
     m_im_user_map st' = m_im_user_map st \<and> m_im_user_map_by_name st' = m_im_user_map_by_name st \<and>
     g_msg_conn_map st' = g_msg_conn_map st \<and> to_login st' = to_login st \<and>
     (\<forall>p. rel_option same_core (users st p) (users st' p))"

lemma same_core_refl [simp]: "same_core u u"
  by (simp add: same_core_def)

lemma same_coreD:
  assumes "same_core u u'"
  shows "iu_user_id u' = iu_user_id u" "iu_login_name u' = iu_login_name u" "m_bValidate u' = m_bValidate u"
    "m_conn_map u' = m_conn_map u" "m_unvalidate_conn_set u' = m_unvalidate_conn_set u"
  using assms by (cases u; cases u'; simp add: same_core_def)+

lemma rel_option_refl: "(\<And>x. R x x) \<Longrightarrow> rel_option R y y"
  by (cases y) simp_all

lemma quiet_refl [simp]: "quiet st st"
  by (simp add: quiet_def rel_option_refl)

lemma rel_option_trans: "(\<And>x y z. R x y \<Longrightarrow> R y z \<Longrightarrow> R x z) \<Longrightarrow> rel_option R a b \<Longrightarrow> rel_option R b c \<Longrightarrow> rel_option R a c"
  by (cases a; cases b; cases c) auto

lemma quiet_trans:
  assumes "quiet a b" and "quiet b c"
  shows "quiet a c"
proof -
  have "rel_option same_core (users a p) (users c p)" for p
    by (rule rel_option_trans [of same_core _ "users b p"]) (use assms in \<open>auto simp: quiet_def same_core_def\<close>)
  then show ?thesis using assms by (auto simp: quiet_def intro: same_session_trans)
qed

lemma quiet_user:
  assumes "quiet st st'"
  shows "users st' p = None \<longleftrightarrow> users st p = None"
    and "users st' p = Some u' \<Longrightarrow> \<exists>u. users st p = Some u \<and> same_core u u'"
    and "users st p = Some u \<Longrightarrow> \<exists>u'. users st' p = Some u' \<and> same_core u u'"
proof -
  have r: "rel_option same_core (users st p) (users st' p)" using assms by (simp add: quiet_def)
  show "users st' p = None \<longleftrightarrow> users st p = None" using r by (cases "users st p"; cases "users st' p") simp_all
  show "users st' p = Some u' \<Longrightarrow> \<exists>u. users st p = Some u \<and> same_core u u'"
    using r by (cases "users st p") simp_all
  show "users st p = Some u \<Longrightarrow> \<exists>u'. users st' p = Some u' \<and> same_core u u'"
    using r by (cases "users st' p") simp_all
qed

lemma quiet_session_inv:
  assumes inv: "session_inv db None None st" and q: "quiet st st'"
  shows "session_inv db None None st'"
proof (rule session_invI)
  have m: "m_im_user_map st' = m_im_user_map st" "m_im_user_map_by_name st' = m_im_user_map_by_name st"
    "g_msg_conn_map st' = g_msg_conn_map st" "dead st' = dead st" "same_session (conns st) (conns st')"
    using q by (simp_all add: quiet_def)
  show "om_ok (m_im_user_map st')" "cm_ok (g_msg_conn_map st')" using session_invD(1,2) [OF inv] m by simp_all
  fix p u' assume u': "users st' p = Some u'"
  then obtain u where u: "users st p = Some u" "same_core u u'" using quiet_user(2) [OF q] by blast
  show "user_ok db None None st' p u'"
    using session_invD(3) [OF inv u(1)] same_coreD [OF u(2)] m by (simp add: user_ok_def same_session_def)
next
  fix n p assume "m_im_user_map_by_name st' n = Some p"
  then obtain u where u: "users st p = Some u" "iu_login_name u = n"
    using session_invD(4) [OF inv] q by (auto simp: quiet_def)
  then show "\<exists>u'. users st' p = Some u' \<and> iu_login_name u' = n"
    using quiet_user(3) [OF q u(1)] same_coreD(2) by auto
next
  fix i p assume "map_of (m_im_user_map st') i = Some p"
  then obtain u where u: "i \<noteq> 0" "users st p = Some u" "iu_user_id u = i"
    using session_invD(5) [OF inv] q by (fastforce simp: quiet_def)
  then show "i \<noteq> 0 \<and> (\<exists>u'. users st' p = Some u' \<and> iu_user_id u' = i)"
    using quiet_user(3) [OF q u(2)] same_coreD(1) by auto
next
  fix h c assume "map_of (g_msg_conn_map st') h = Some c"
  then have ok: "client_ok st h c" using session_invD(6) [OF inv] q by (simp add: quiet_def)
  have s: "mc_handle (conns st' c) = mc_handle (conns st c)" "mc_login_name (conns st' c) = mc_login_name (conns st c)"
    "mc_user_id (conns st' c) = mc_user_id (conns st c)" "m_bOpen (conns st' c) = m_bOpen (conns st c)"
    "m_bKickOff (conns st' c) \<longrightarrow> m_bKickOff (conns st c) \<or> m_bOpen (conns st c)"
    using q by (simp_all add: quiet_def same_session_def)
  have "\<exists>u'. users st' p = Some u' \<and> map_of (m_conn_map u') h = Some c"
    if "users st p = Some u" "map_of (m_conn_map u) h = Some c" for p u
    using quiet_user(3) [OF q that(1)] that(2) same_coreD(4) by auto
  then show "client_ok st' h c"
    using ok s q by (fastforce simp: client_ok_def quiet_def)
qed

interpretation qs: steps "session_inv db None None" quiet
  by unfold_locales (auto intro: quiet_trans quiet_session_inv)

lemma quiet_sends [simp]:
  "quiet st (send_db en p st)" "quiet st (send_route en p st)" "quiet st (send_push en p st)"
  "quiet st (send_file p st)"
  by (simp_all add: quiet_def send_file_def send_db_def send_route_def send_push_def rel_option_refl)

lemma quiet_conns: "same_session (conns st) cs \<Longrightarrow> quiet st (st\<lparr>conns := cs\<rparr>)"
  by (simp add: quiet_def rel_option_refl)

lemma quiet_reply [simp]: "quiet st (reply m c st)"
  by (simp add: reply_def quiet_conns)

lemma send_fields [simp]:
  "conns (send_db en p st) = conns st" "conns (send_route en p st) = conns st" "conns (send_push en p st) = conns st"
  "conns (send_file p st) = conns st"
  by (simp_all add: send_file_def send_db_def send_route_def send_push_def)

subsection \<open>The sessions of a user\<close>

definition session_of :: "msg_state \<Rightarrow> u32 \<Rightarrow> conn \<Rightarrow> bool" where
  "session_of st user_id c \<longleftrightarrow> map_of (g_msg_conn_map st) (mc_handle (conns st c)) = Some c \<and>
     m_bOpen (conns st c) \<and> mc_user_id (conns st c) = user_id"

lemma quiet_session_of: "quiet st st' \<Longrightarrow> session_of st' = session_of st"
  by (simp add: quiet_def same_session_def session_of_def fun_eq_iff)

lemma user_conns:
  assumes inv: "session_inv db None None st" and g: "GetImUserById user_id st = Some p"
  obtains u where "users st p = Some u" "conns_alive u st" "distinct (map snd (m_conn_map u))"
    "\<And>h c. map_of (m_conn_map u) h = Some c \<longleftrightarrow> session_of st user_id c \<and> mc_handle (conns st c) = h"
    "\<And>c. c \<in> snd ` set (m_conn_map u) \<longleftrightarrow> session_of st user_id c"
proof -
  have p: "map_of (m_im_user_map st) user_id = Some p" using g by (simp add: GetImUserById_def)
  obtain u where u: "users st p = Some u" "iu_user_id u = user_id" using session_invD(5) [OF inv p] by blast
  have ok: "user_ok db None None st p u" by (rule session_invD(3) [OF inv u(1)])
  have dist: "distinct (map fst (m_conn_map u))" using ok by (simp add: user_ok_def om_ok_def)
  have iff: "map_of (m_conn_map u) h = Some c \<longleftrightarrow> session_of st user_id c \<and> mc_handle (conns st c) = h" for h c
  proof
    assume "map_of (m_conn_map u) h = Some c"
    then have c: "map_of (g_msg_conn_map st) h = Some c" "m_bOpen (conns st c)" "mc_user_id (conns st c) = user_id"
      using ok u(2) by (auto simp: user_ok_def)
    with session_invD(6) [OF inv c(1)] show "session_of st user_id c \<and> mc_handle (conns st c) = h"
      by (simp add: session_of_def client_ok_def)
  next
    assume c: "session_of st user_id c \<and> mc_handle (conns st c) = h"
    then have "client_ok st h c" by (intro session_invD(6) [OF inv]) (auto simp: session_of_def)
    then show "map_of (m_conn_map u) h = Some c" using c p u(1) by (auto simp: client_ok_def session_of_def)
  qed
  have mem: "(h, c) \<in> set (m_conn_map u) \<longleftrightarrow> session_of st user_id c \<and> mc_handle (conns st c) = h" for h c
    using iff [of h c] dist by simp
  then have all: "c \<in> snd ` set (m_conn_map u) \<longleftrightarrow> session_of st user_id c" for c by force
  have "inj_on snd (set (m_conn_map u))"
  proof (rule inj_onI)
    fix x y assume xy: "x \<in> set (m_conn_map u)" "y \<in> set (m_conn_map u)" "snd x = snd y"
    have "mc_handle (conns st (snd x)) = fst x" using mem [of "fst x" "snd x"] xy(1) by simp
    moreover have "mc_handle (conns st (snd y)) = fst y" using mem [of "fst y" "snd y"] xy(2) by simp
    ultimately show "x = y" using xy(3) by (simp add: prod_eq_iff)
  qed
  moreover have "distinct (m_conn_map u)" using dist by (simp add: distinct_map)
  ultimately have "distinct (map snd (m_conn_map u))" by (simp add: distinct_map)
  moreover have "conns_alive u st"
    unfolding conns_alive_def list_all_iff
  proof (safe)
    fix h c assume c: "(h, c) \<in> set (m_conn_map u)" "c \<in> dead st"
    then have "session_of st user_id c" using mem by blast
    then have "client_ok st (mc_handle (conns st c)) c" using session_invD(6) [OF inv] by (simp add: session_of_def)
    then show False using c(2) by (simp add: client_ok_def)
  qed
  ultimately show thesis using that [of u] u(1) iff all by blast
qed

lemma no_sessions:
  assumes inv: "session_inv db None None st" and g: "GetImUserById user_id st = None"
  shows "\<not> session_of st user_id c"
proof
  assume c: "session_of st user_id c"
  then have "client_ok st (mc_handle (conns st c)) c" using session_invD(6) [OF inv] by (simp add: session_of_def)
  then show False using c g by (auto simp: client_ok_def session_of_def GetImUserById_def)
qed

lemma session_not_dead:
  assumes "session_inv db None None st" and "session_of st user_id c"
  shows "c \<notin> dead st"
proof -
  have "client_ok st (mc_handle (conns st c)) c" using session_invD(6) assms by (simp add: session_of_def)
  then show ?thesis by (simp add: client_ok_def)
qed

lemma GetMsgConnByHandle_session:
  assumes inv: "session_inv db None None st"
  shows "\<exists>r. GetMsgConnByHandle user_id handle st = Some r \<and>
    (\<forall>c. r = Some c \<longleftrightarrow> session_of st user_id c \<and> mc_handle (conns st c) = handle)"
proof (cases "GetImUserById user_id st")
  case None
  then show ?thesis using no_sessions [OF inv None] by (simp add: GetMsgConnByHandle_def)
next
  case (Some p)
  then show ?thesis
    by (rule user_conns [OF inv]) (simp add: GetMsgConnByHandle_def GetMsgConn_def Some)
qed

text \<open>What sending to a user and answering a request do.\<close>

lemma user_cast_where:
  assumes inv: "session_inv db None None st"
  obtains cs where "user_cast (broadcast_where P m from) user_id st = Some (st\<lparr>conns := cs\<rparr>)"
    "\<And>d. cs d = (if session_of st user_id d \<and> Some d \<noteq> from \<and> P (conns st d)
                 then (conns st d)\<lparr>mc_out := mc_out (conns st d) @ [m]\<rparr> else conns st d)"
proof (cases "GetImUserById user_id st")
  case None
  then show ?thesis using no_sessions [OF inv None] that [of "conns st"] by (simp add: user_cast_def)
next
  case (Some p)
  show ?thesis
  proof (rule user_conns [OF inv Some])
    fix u assume u: "users st p = Some u" "conns_alive u st" "distinct (map snd (m_conn_map u))"
      and s: "\<And>c. c \<in> snd ` set (m_conn_map u) \<longleftrightarrow> session_of st user_id c"
    show ?thesis
      using u that [of "broadcast_where P m from u (conns st)"]
      by (simp add: user_cast_def Some broadcast_where_conn [OF u(3)] s)
  qed
qed

lemma same_session_where:
  assumes "\<And>d. cs d = (if Q d then (cs0 d)\<lparr>mc_out := f d\<rparr> else cs0 d)"
  shows "same_session cs0 cs"
  by (simp add: same_session_def assms)

lemma user_cast_quiet:
  assumes inv: "session_inv db None None st"
  shows "yields quiet st (user_cast (broadcast_where P m from) user_id st)"
proof -
  obtain cs where cs: "user_cast (broadcast_where P m from) user_id st = Some (st\<lparr>conns := cs\<rparr>)"
    "\<And>d. cs d = (if session_of st user_id d \<and> Some d \<noteq> from \<and> P (conns st d)
                 then (conns st d)\<lparr>mc_out := mc_out (conns st d) @ [m]\<rparr> else conns st d)"
    by (rule user_cast_where [OF inv, of P m "from" user_id]) blast
  show ?thesis unfolding cs(1) by (intro qs.done_ok quiet_conns same_session_where [OF cs(2)])
qed

lemma answer_conn:
  assumes inv: "session_inv db None None st"
  obtains cs where "answer P m user_id handle st = Some (st\<lparr>conns := cs\<rparr>)"
    "\<And>d. cs d = (if session_of st user_id d \<and> mc_handle (conns st d) = handle \<and> P (conns st d)
                 then (conns st d)\<lparr>mc_out := mc_out (conns st d) @ [m]\<rparr> else conns st d)"
proof -
  obtain r where r: "GetMsgConnByHandle user_id handle st = Some r"
    "\<And>c. r = Some c \<longleftrightarrow> session_of st user_id c \<and> mc_handle (conns st c) = handle"
    using GetMsgConnByHandle_session [OF inv] by blast
  show ?thesis
  proof (cases r)
    case None
    then show ?thesis using r by (intro that [of "conns st"]) (auto simp: answer_def answer_found_def)
  next
    case (Some c)
    then have c: "session_of st user_id c" "mc_handle (conns st c) = handle" using r(2) by auto
    have "session_of st user_id d \<and> mc_handle (conns st d) = handle \<longleftrightarrow> d = c" for d
      using r(2) [of d] Some by (simp add: eq_commute)
    then have "d \<noteq> c \<Longrightarrow> session_of st user_id d \<Longrightarrow> mc_handle (conns st d) \<noteq> handle" for d by blast
    then show ?thesis
      using r(1) Some session_not_dead [OF inv c(1)] c
      by (intro that [of "if P (conns st c) then client_send m c (conns st) else conns st"])
        (auto simp: answer_def answer_found_def reply_def client_send_def)
  qed
qed

lemma answer_quiet:
  assumes inv: "session_inv db None None st"
  shows "yields quiet st (answer P m user_id handle st)"
proof -
  obtain cs where cs: "answer P m user_id handle st = Some (st\<lparr>conns := cs\<rparr>)"
    "\<And>d. cs d = (if session_of st user_id d \<and> mc_handle (conns st d) = handle \<and> P (conns st d)
                 then (conns st d)\<lparr>mc_out := mc_out (conns st d) @ [m]\<rparr> else conns st d)"
    by (rule answer_conn [OF inv, of P m user_id handle]) blast
  show ?thesis unfolding cs(1) by (intro qs.done_ok quiet_conns same_session_where [OF cs(2)])
qed

text \<open>The two steps as rules for a handler that goes on.\<close>

lemma cast_where_then:
  assumes "session_inv db None None st" and "quiet s0 st"
    and "\<And>t. session_inv db None None t \<Longrightarrow> quiet st t \<Longrightarrow> yields quiet t (f t)"
  shows "yields quiet s0 (Option.bind (user_cast (broadcast_where P m from) uid st) f)"
  using assms by (intro qs.from_ok [OF assms(2)] qs.bind_ok [OF assms(1)] user_cast_quiet [OF assms(1)])

lemmas cast_then = cast_where_then [where P = "\<lambda>_. True", folded BroadcastPdu_def]

lemma answer_then:
  assumes "session_inv db None None st"
    and "\<And>t. session_inv db None None t \<Longrightarrow> quiet st t \<Longrightarrow> yields quiet t (f t)"
  shows "yields quiet st (Option.bind (answer P m uid handle st) f)"
  by (rule qs.bind_ok [OF assms(1) answer_quiet [OF assms(1)] assms(2)])

lemma answer_found_quiet:
  assumes "session_inv db None None st" and "\<And>c. found = Some c \<Longrightarrow> \<exists>uid. session_of st uid c"
  shows "yields quiet st (answer_found P m found st)"
  using assms session_not_dead by (cases found) (auto simp: answer_found_def intro!: qs.done_ok)

text \<open>A handler that may throw: what is required of it is only required when it does not.\<close>

definition quiet_outcome :: "msg_state \<Rightarrow> outcome \<Rightarrow> bool" where
  "quiet_outcome st r \<longleftrightarrow> (\<exists>x. r = Some x \<and> (\<forall>st'. x = Inr st' \<longrightarrow> quiet st st'))"

lemma quiet_outcome_return [simp]: "quiet_outcome st (Some (Inr st)) "
  by (simp add: quiet_outcome_def)

lemma quiet_outcome_map: "yields quiet st r \<Longrightarrow> quiet_outcome st (map_option Inr r)"
  by (auto simp: yields_def quiet_outcome_def)

lemma quiet_with_attach: "(\<And>a. yields quiet st (f a)) \<Longrightarrow> quiet_outcome st (with_attach attach f)"
  by (auto simp: with_attach_def intro: quiet_outcome_map split: sum.split) (simp add: quiet_outcome_def)

lemma quiet_with_pdu_attach:
  "(\<And>a l d. yields quiet st (f a l d)) \<Longrightarrow> quiet_outcome st (with_pdu_attach attach f)"
  by (auto simp: with_pdu_attach_def intro: quiet_outcome_map split: sum.split) (simp add: quiet_outcome_def)

end
