(* ===== verification/Msg_Relay.thy ===== *)
theory Msg_Relay
  imports Relay_Base
begin

text \<open>
  The requests of clients a message server passes on (\<open>msg_server/MsgConn.cpp\<close>): messages, their
  acknowledgements and read marks, and the requests to the database and route servers that are handed
  over with the user and the handle of the connection filled in. \<open>relay_pb\<close> holds the generated
  protobuf code: of a message the fields the server reads or sets, the others in \<open>fw_rest\<close>; an optional field
  that is absent is empty.
\<close>

record IMMsgData =
  md_from_user_id :: u32
  md_to_session_id :: u32
  md_msg_id :: u32
  md_create_time :: u32
  md_msg_type :: u32
  md_msg_data :: bytes
  md_attach_data :: bytes

record fwd_msg =
  fw_user_id :: u32
  fw_attach :: bytes
  fw_rest :: bytes

record read_msg =
  rm_user_id :: u32
  rm_session_id :: u32
  rm_msg_id :: u32
  rm_session_type :: u32

record remove_msg =
  rv_user_id :: u32
  rv_session_type :: u32
  rv_session_id :: u32
  rv_attach :: bytes

record token_msg =
  tk_user_id :: u32
  tk_client_type :: u32
  tk_token :: bytes

record relay_pb =
  pb_fwd :: "u16 \<Rightarrow> bytes \<Rightarrow> fwd_msg option"
  ser_fwd :: "u16 \<Rightarrow> fwd_msg \<Rightarrow> bytes"
  pb_msg_data :: "bytes \<Rightarrow> IMMsgData option"
  ser_msg_data :: "IMMsgData \<Rightarrow> bytes"
  pb_read :: "u16 \<Rightarrow> bytes \<Rightarrow> read_msg option"
  ser_read :: "u16 \<Rightarrow> read_msg \<Rightarrow> bytes"
  pb_p2p :: "bytes \<Rightarrow> (u32 \<times> u32) option"
  pb_remove :: "u16 \<Rightarrow> bytes \<Rightarrow> remove_msg option"
  ser_remove :: "u16 \<Rightarrow> remove_msg \<Rightarrow> bytes"
  pb_token :: "bytes \<Rightarrow> token_msg option"
  ser_token :: "token_msg \<Rightarrow> bytes"
  ser_token_rsp :: bytes
  ser_time :: "u32 \<Rightarrow> bytes"

definition MAX_MSG_CNT_PER_SECOND :: u32 where "MAX_MSG_CNT_PER_SECOND = 20"

subsection \<open>Messages\<close>

definition HandleClientMsgData :: "relay_pb \<Rightarrow> relay_env \<Rightarrow> conn \<Rightarrow> in_pdu \<Rightarrow> msg_state \<Rightarrow> msg_state" where
  "HandleClientMsgData pb en this p st =
     (case pb_msg_data pb (in_body p) of None \<Rightarrow> st
      | Some msg \<Rightarrow>
          if length (md_msg_data msg) = 0 then st
          else if m_msg_cnt_per_sec (conns st this) \<ge> MAX_MSG_CNT_PER_SECOND then st
          else if md_from_user_id msg = md_to_session_id msg \<and> CHECK_MSG_TYPE_SINGLE (md_msg_type msg) then st
          else let st = upd_conn this (\<lambda>c. c\<lparr>m_msg_cnt_per_sec := m_msg_cnt_per_sec c + 1\<rparr>) st;
                   c = conns st this;
                   msg = msg\<lparr>md_from_user_id := mc_user_id c, md_create_time := en_time en,
                             md_attach_data := attach_bytes ATTACH_TYPE_HANDLE (mc_handle c) 0\<rparr>
               in send_db en (p\<lparr>in_body := ser_msg_data pb msg\<rparr>) st)"

definition HandleClientMsgDataAck :: "relay_pb \<Rightarrow> conn \<Rightarrow> in_pdu \<Rightarrow> msg_state \<Rightarrow> msg_state" where
  "HandleClientMsgDataAck pb this p st =
     (case pb_read pb CID_MSG_DATA_ACK (in_body p) of None \<Rightarrow> st
      | Some msg \<Rightarrow>
          if rm_session_type msg = SESSION_TYPE_SINGLE
          then st\<lparr>conns := DelFromSendList (rm_msg_id msg) (rm_session_id msg) this (conns st)\<rparr>
          else st)"

definition HandleClientMsgReadAck :: "relay_pb \<Rightarrow> relay_env \<Rightarrow> conn \<Rightarrow> in_pdu \<Rightarrow> msg_state \<Rightarrow> msg_state option" where
  "HandleClientMsgReadAck pb en this p st =
     (case pb_read pb CID_MSG_READ_ACK (in_body p) of None \<Rightarrow> Some st
      | Some msg \<Rightarrow> do {
          let uid = mc_user_id (conns st this);
          let msg = msg\<lparr>rm_user_id := uid\<rparr>;
          let st = send_db en (p\<lparr>in_body := ser_read pb CID_MSG_READ_ACK msg\<rparr>) st;
          let pdu = new_pdu CID_MSG_READ_NOTIFY 0 (ser_read pb CID_MSG_READ_NOTIFY msg);
          st \<leftarrow> user_cast (BroadcastPdu (MForward pdu) (Some this)) uid st;
          let st = send_route en pdu st;
          Some (if rm_session_type msg = SESSION_TYPE_SINGLE
                then st\<lparr>conns := DelFromSendList (rm_msg_id msg) (rm_session_id msg) this (conns st)\<rparr>
                else st)})"

definition HandleClientP2PCmdMsg :: "relay_pb \<Rightarrow> relay_env \<Rightarrow> conn \<Rightarrow> in_pdu \<Rightarrow> msg_state \<Rightarrow> msg_state option" where
  "HandleClientP2PCmdMsg pb en this p st =
     (case pb_p2p pb (in_body p) of None \<Rightarrow> Some st
      | Some (from_user_id, to_user_id) \<Rightarrow> do {
          st \<leftarrow> user_cast (BroadcastPdu (MForward p) (Some this)) (mc_user_id (conns st this)) st;
          st \<leftarrow> user_cast (BroadcastPdu (MForward p) None) to_user_id st;
          Some (send_route en p st)})"

definition HandleClientRemoveSessionRequest :: "relay_pb \<Rightarrow> relay_env \<Rightarrow> conn \<Rightarrow> in_pdu \<Rightarrow> msg_state \<Rightarrow> msg_state option" where
  "HandleClientRemoveSessionRequest pb en this p st =
     (case pb_remove pb CID_BUDDY_LIST_REMOVE_SESSION_REQ (in_body p) of None \<Rightarrow> Some st
      | Some msg \<Rightarrow>
          (let uid = mc_user_id (conns st this);
               st = send_db en (p\<lparr>in_body := ser_remove pb CID_BUDDY_LIST_REMOVE_SESSION_REQ
                 (msg\<lparr>rv_user_id := uid, rv_attach := attach_bytes ATTACH_TYPE_HANDLE (mc_handle (conns st this)) 0\<rparr>)\<rparr>) st
           in if rv_session_type msg = SESSION_TYPE_SINGLE then do {
                let pdu = new_pdu CID_BUDDY_LIST_REMOVE_SESSION_NOTIFY 0
                  (ser_remove pb CID_BUDDY_LIST_REMOVE_SESSION_NOTIFY (msg\<lparr>rv_user_id := uid, rv_attach := []\<rparr>));
                st \<leftarrow> user_cast (BroadcastPdu (MForward pdu) (Some this)) uid st;
                Some (send_route en pdu st)}
              else Some st))"

subsection \<open>Answers of the server itself\<close>

definition HandleHeartBeat :: "conn \<Rightarrow> in_pdu \<Rightarrow> msg_state \<Rightarrow> msg_state" where
  "HandleHeartBeat this p st = reply (MForward p) this st"

definition HandleClientTimeRequest :: "relay_pb \<Rightarrow> relay_env \<Rightarrow> conn \<Rightarrow> in_pdu \<Rightarrow> msg_state \<Rightarrow> msg_state" where
  "HandleClientTimeRequest pb en this p st =
     reply (MForward (new_pdu CID_MSG_TIME_RESPONSE (in_seq p) (ser_time pb (en_time en)))) this st"

text \<open>The answer is the message \<open>msg2\<close>, of which no field is set.\<close>

definition HandleClientDeviceToken :: "relay_pb \<Rightarrow> relay_env \<Rightarrow> conn \<Rightarrow> in_pdu \<Rightarrow> msg_state \<Rightarrow> msg_state" where
  "HandleClientDeviceToken pb en this p st =
     (let c = conns st this in
      if \<not> CHECK_CLIENT_TYPE_MOBILE (m_client_type c) then st
      else case pb_token pb (in_body p) of None \<Rightarrow> st
        | Some msg \<Rightarrow>
            let msg = msg\<lparr>tk_user_id := mc_user_id c, tk_client_type := m_client_type c\<rparr>;
                st = reply (MForward (new_pdu CID_LOGIN_RES_DEVICETOKEN (in_seq p) (ser_token_rsp pb))) this st
            in send_db en (p\<lparr>in_body := ser_token pb msg\<rparr>) st)"

subsection \<open>Requests handed over\<close>

definition filled_in :: "bytes option \<Rightarrow> conn \<Rightarrow> msg_state \<Rightarrow> fwd_msg \<Rightarrow> fwd_msg" where
  "filled_in attach this st msg =
     (let msg = msg\<lparr>fw_user_id := mc_user_id (conns st this)\<rparr>
      in case attach of None \<Rightarrow> msg | Some a \<Rightarrow> msg\<lparr>fw_attach := a\<rparr>)"

definition forward_request :: "relay_pb \<Rightarrow> (in_pdu \<Rightarrow> msg_state \<Rightarrow> msg_state) \<Rightarrow> bytes option \<Rightarrow> conn \<Rightarrow> in_pdu
    \<Rightarrow> msg_state \<Rightarrow> msg_state" where
  "forward_request pb send attach this p st =
     (case pb_fwd pb (in_cid p) (in_body p) of None \<Rightarrow> st
      | Some msg \<Rightarrow> send (p\<lparr>in_body := ser_fwd pb (in_cid p) (filled_in attach this st msg)\<rparr>) st)"

definition db_handle :: "conn \<Rightarrow> msg_state \<Rightarrow> bytes" where
  "db_handle this st = attach_bytes ATTACH_TYPE_HANDLE (mc_handle (conns st this)) 0"
definition pdu_handle :: "conn \<Rightarrow> msg_state \<Rightarrow> bytes" where
  "pdu_handle this st = pdu_attach_bytes ATTACH_TYPE_HANDLE (mc_handle (conns st this)) 0 []"

type_synonym client_handler = "relay_pb \<Rightarrow> relay_env \<Rightarrow> conn \<Rightarrow> in_pdu \<Rightarrow> msg_state \<Rightarrow> msg_state"

definition HandleClientRecentContactSessionRequest :: client_handler where
  "HandleClientRecentContactSessionRequest pb en this p st =
     (if \<not> en_db en then st else forward_request pb (send_db en) (Some (db_handle this st)) this p st)"
definition HandleClientGetMsgListRequest :: client_handler where
  "HandleClientGetMsgListRequest pb en this p st = forward_request pb (send_db en) (Some (db_handle this st)) this p st"
definition HandleClientGetMsgByMsgIdRequest :: client_handler where
  "HandleClientGetMsgByMsgIdRequest pb en this p st = forward_request pb (send_db en) (Some (db_handle this st)) this p st"
definition HandleClientUnreadMsgCntRequest :: client_handler where
  "HandleClientUnreadMsgCntRequest pb en this p st = forward_request pb (send_db en) (Some (db_handle this st)) this p st"
definition HandleClientGetLatestMsgIDReq :: client_handler where
  "HandleClientGetLatestMsgIDReq pb en this p st = forward_request pb (send_db en) (Some (db_handle this st)) this p st"
definition HandleClientUserInfoRequest :: client_handler where
  "HandleClientUserInfoRequest pb en this p st = forward_request pb (send_db en) (Some (db_handle this st)) this p st"
definition HandleClientAllUserRequest :: client_handler where
  "HandleClientAllUserRequest pb en this p st = forward_request pb (send_db en) (Some (db_handle this st)) this p st"
definition HandleClientDepartmentRequest :: client_handler where
  "HandleClientDepartmentRequest pb en this p st = forward_request pb (send_db en) (Some (db_handle this st)) this p st"
definition HandleChangeAvatarRequest :: client_handler where
  "HandleChangeAvatarRequest pb en this p st = forward_request pb (send_db en) None this p st"
definition HandleChangeSignInfoRequest :: client_handler where
  "HandleChangeSignInfoRequest pb en this p st = forward_request pb (send_db en) (Some (pdu_handle this st)) this p st"
definition HandlePushShieldRequest :: client_handler where
  "HandlePushShieldRequest pb en this p st = forward_request pb (send_db en) (Some (pdu_handle this st)) this p st"
definition HandleQueryPushShieldRequest :: client_handler where
  "HandleQueryPushShieldRequest pb en this p st = forward_request pb (send_db en) (Some (pdu_handle this st)) this p st"
definition HandleClientUsersStatusRequest :: client_handler where
  "HandleClientUsersStatusRequest pb en this p st = forward_request pb (send_route en) (Some (pdu_handle this st)) this p st"

lemmas forward_defs = HandleClientRecentContactSessionRequest_def HandleClientGetMsgListRequest_def
  HandleClientGetMsgByMsgIdRequest_def HandleClientUnreadMsgCntRequest_def HandleClientGetLatestMsgIDReq_def
  HandleClientUserInfoRequest_def HandleClientAllUserRequest_def HandleClientDepartmentRequest_def
  HandleChangeAvatarRequest_def HandleChangeSignInfoRequest_def HandlePushShieldRequest_def
  HandleQueryPushShieldRequest_def HandleClientUsersStatusRequest_def

subsection \<open>No session is touched\<close>

lemma quiet_upd_conn:
  assumes "\<And>c. mc_handle (f c) = mc_handle c \<and> mc_login_name (f c) = mc_login_name c \<and>
     mc_user_id (f c) = mc_user_id c \<and> m_bOpen (f c) = m_bOpen c \<and> m_bKickOff (f c) = m_bKickOff c"
  shows "quiet st (upd_conn c f st)"
  unfolding upd_conn_def by (rule quiet_conns) (simp add: same_session_def assms)

lemma quiet_DelFromSendList [simp]: "quiet st (st\<lparr>conns := DelFromSendList m i c (conns st)\<rparr>)"
  by (rule quiet_conns) (simp add: same_session_def DelFromSendList_def)

lemma quiet_HandleClientMsgData [simp]: "quiet st (HandleClientMsgData pb en this p st)"
  unfolding HandleClientMsgData_def Let_def
  by (auto split: option.split intro!: quiet_trans [OF quiet_upd_conn quiet_sends(1)])

lemma quiet_HandleClientMsgDataAck [simp]: "quiet st (HandleClientMsgDataAck pb this p st)"
  by (simp add: HandleClientMsgDataAck_def split: option.split)

lemma quiet_simple_answers [simp]:
  "quiet st (HandleHeartBeat this p st)" "quiet st (HandleClientTimeRequest pb en this p st)"
  "quiet st (HandleClientDeviceToken pb en this p st)"
  by (auto simp: HandleHeartBeat_def HandleClientTimeRequest_def HandleClientDeviceToken_def Let_def
      split: option.split intro: quiet_trans [OF quiet_reply quiet_sends(1)])

lemma quiet_forward_request [simp]:
  "quiet st (forward_request pb (send_db en) attach this p st)"
  "quiet st (forward_request pb (send_route en) attach this p st)"
  by (simp_all add: forward_request_def split: option.split)

text \<open>The handlers that send to users.\<close>

lemma HandleClientMsgReadAck_quiet:
  assumes inv: "session_inv db None None st"
  shows "yields quiet st (HandleClientMsgReadAck pb en this p st)"
proof (cases "pb_read pb CID_MSG_READ_ACK (in_body p)")
  case (Some msg)
  have "quiet t (let t = send_route en q t in if b then t\<lparr>conns := DelFromSendList m i this (conns t)\<rparr> else t)" for t q b m i
    using quiet_trans [OF quiet_sends(2) quiet_DelFromSendList] by (simp add: Let_def)
  then show ?thesis
    unfolding HandleClientMsgReadAck_def Some option.case
    by (simp only: Let_def) (rule cast_then [OF quiet_session_inv [OF inv quiet_sends(1)] quiet_sends(1)]; simp add: qs.done_ok)
qed (simp add: HandleClientMsgReadAck_def)

lemma HandleClientP2PCmdMsg_quiet:
  assumes inv: "session_inv db None None st"
  shows "yields quiet st (HandleClientP2PCmdMsg pb en this p st)"
proof (cases "pb_p2p pb (in_body p)")
  case (Some ft)
  then show ?thesis
    by (cases ft) (auto simp: HandleClientP2PCmdMsg_def intro!: cast_then [OF inv] cast_then qs.done_ok)
qed (simp add: HandleClientP2PCmdMsg_def)

lemma HandleClientRemoveSessionRequest_quiet:
  assumes inv: "session_inv db None None st"
  shows "yields quiet st (HandleClientRemoveSessionRequest pb en this p st)"
proof (cases "pb_remove pb CID_BUDDY_LIST_REMOVE_SESSION_REQ (in_body p)")
  case (Some msg)
  show ?thesis
    unfolding HandleClientRemoveSessionRequest_def Some option.case Let_def
    by (auto intro!: cast_then [OF quiet_session_inv [OF inv quiet_sends(1)]] qs.done_ok)
qed (simp add: HandleClientRemoveSessionRequest_def)

end
