(* ===== verification/Group_Chat.thy ===== *)
theory Group_Chat
  imports Msg_Relay
begin

text \<open>
  Groups on a message server (\<open>msg_server/GroupChat.cpp\<close>). The server keeps no groups: to deliver a
  group message it asks the database for the members and attaches the message to the question; when the
  answer comes back the message is sent to the members connected here. Other message servers get
  it from the route server and do the same.
\<close>

record group_info_rsp =
  gi_user_id :: u32
  gi_groups :: "(u32 \<times> u32 list) list"
  gi_attach :: bytes
  gi_rest :: bytes

record change_member =
  cg_user_id :: u32
  cg_change_type :: u32
  cg_result :: u32
  cg_group_id :: u32
  cg_chg_users :: "u32 list"
  cg_cur_users :: "u32 list"
  cg_attach :: bytes

record create_req =
  ct_user_id :: u32
  ct_group_type :: u32
  ct_group_name :: bytes
  ct_attach :: bytes
  ct_rest :: bytes

record group_pb =
  pb_group_info :: "bytes \<Rightarrow> group_info_rsp option"
  ser_group_info :: "group_info_rsp \<Rightarrow> bytes"
  ser_group_info_req :: "u32 \<Rightarrow> u32 \<Rightarrow> u32 \<Rightarrow> bytes \<Rightarrow> bytes"
  pb_change :: "u16 \<Rightarrow> bytes \<Rightarrow> change_member option"
  ser_change :: "u16 \<Rightarrow> change_member \<Rightarrow> bytes"
  pb_create :: "bytes \<Rightarrow> create_req option"
  ser_create :: "create_req \<Rightarrow> bytes"
  ser_shield_req :: "u32 \<Rightarrow> u32 list \<Rightarrow> bytes \<Rightarrow> bytes"
  pb_shield_rsp :: "bytes \<Rightarrow> (bytes \<times> (u32 \<times> u32) list) option"
  ser_device_token_req :: "u32 list \<Rightarrow> bytes \<Rightarrow> bytes"
  ser_normal_list_empty :: bytes
  ser_info_empty :: "u32 \<Rightarrow> bytes"
  ser_create_failed :: "u32 \<Rightarrow> u32 \<Rightarrow> bytes \<Rightarrow> bytes"
  ser_change_failed :: "u32 \<Rightarrow> u32 \<Rightarrow> u32 \<Rightarrow> u32 \<Rightarrow> bytes"
  ser_shield_failed :: "u32 \<Rightarrow> u32 \<Rightarrow> bytes"

subsection \<open>Requests of clients\<close>

text \<open>Without a database connection the group list is answered with an empty \<open>msg2\<close>.\<close>

definition HandleClientGroupNormalRequest :: "relay_pb \<Rightarrow> group_pb \<Rightarrow> relay_env \<Rightarrow> conn \<Rightarrow> in_pdu \<Rightarrow> msg_state \<Rightarrow> msg_state" where
  "HandleClientGroupNormalRequest pb gpb en this p st =
     (case pb_fwd pb (in_cid p) (in_body p) of None \<Rightarrow> st
      | Some msg \<Rightarrow>
          if en_db en then forward_request pb (send_db en) (Some (db_handle this st)) this p st
          else reply (MForward (new_pdu CID_GROUP_NORMAL_LIST_RESPONSE (in_seq p) (ser_normal_list_empty gpb))) this st)"

definition HandleClientGroupInfoRequest :: "relay_pb \<Rightarrow> group_pb \<Rightarrow> relay_env \<Rightarrow> conn \<Rightarrow> in_pdu \<Rightarrow> msg_state \<Rightarrow> msg_state" where
  "HandleClientGroupInfoRequest pb gpb en this p st =
     (case pb_fwd pb (in_cid p) (in_body p) of None \<Rightarrow> st
      | Some msg \<Rightarrow>
          if en_db en then forward_request pb (send_db en) (Some (pdu_handle this st)) this p st
          else reply (MForward (new_pdu CID_GROUP_INFO_RESPONSE (in_seq p)
                 (ser_info_empty gpb (mc_user_id (conns st this))))) this st)"

definition HandleClientGroupCreateRequest :: "group_pb \<Rightarrow> relay_env \<Rightarrow> conn \<Rightarrow> in_pdu \<Rightarrow> msg_state \<Rightarrow> msg_state" where
  "HandleClientGroupCreateRequest gpb en this p st =
     (case pb_create gpb (in_body p) of None \<Rightarrow> st
      | Some msg \<Rightarrow>
          if ct_group_type msg = GROUP_TYPE_NORMAL then st
          else let req_user_id = mc_user_id (conns st this) in
            if en_db en then send_db en (p\<lparr>in_body := ser_create gpb
                 (msg\<lparr>ct_user_id := req_user_id, ct_attach := db_handle this st\<rparr>)\<rparr>) st
            else reply (MForward (new_pdu CID_GROUP_CREATE_RESPONSE (in_seq p)
                   (ser_create_failed gpb req_user_id 1 (ct_group_name msg)))) this st)"

definition HandleClientGroupChangeMemberRequest :: "group_pb \<Rightarrow> relay_env \<Rightarrow> conn \<Rightarrow> in_pdu \<Rightarrow> msg_state \<Rightarrow> msg_state" where
  "HandleClientGroupChangeMemberRequest gpb en this p st =
     (case pb_change gpb CID_GROUP_CHANGE_MEMBER_REQUEST (in_body p) of None \<Rightarrow> st
      | Some msg \<Rightarrow>
          let req_user_id = mc_user_id (conns st this) in
          if en_db en then send_db en (p\<lparr>in_body := ser_change gpb CID_GROUP_CHANGE_MEMBER_REQUEST
               (msg\<lparr>cg_user_id := req_user_id, cg_attach := db_handle this st\<rparr>)\<rparr>) st
          else reply (MForward (new_pdu CID_GROUP_CHANGE_MEMBER_RESPONSE (in_seq p)
                 (ser_change_failed gpb req_user_id (cg_change_type msg) 1 (cg_group_id msg)))) this st)"

definition HandleClientGroupShieldGroupRequest :: "relay_pb \<Rightarrow> group_pb \<Rightarrow> relay_env \<Rightarrow> conn \<Rightarrow> in_pdu \<Rightarrow> msg_state \<Rightarrow> msg_state" where
  "HandleClientGroupShieldGroupRequest pb gpb en this p st =
     (case pb_fwd pb (in_cid p) (in_body p) of None \<Rightarrow> st
      | Some msg \<Rightarrow>
          if en_db en then forward_request pb (send_db en) (Some (db_handle this st)) this p st
          else reply (MForward (new_pdu CID_GROUP_SHIELD_GROUP_RESPONSE (in_seq p)
                 (ser_shield_failed gpb (mc_user_id (conns st this)) 1))) this st)"

subsection \<open>Answers of the database\<close>

text \<open>An answer whose attached data names the connection it is for; \<open>P\<close> is asked of it first.\<close>

definition forward_response :: "relay_pb \<Rightarrow> (msg_conn \<Rightarrow> bool) \<Rightarrow> in_pdu \<Rightarrow> msg_state \<Rightarrow> outcome" where
  "forward_response pb P p st =
     (case pb_fwd pb (in_cid p) (in_body p) of None \<Rightarrow> Some (Inr st)
      | Some msg \<Rightarrow> with_attach (fw_attach msg) (\<lambda>a.
          answer P (MForward (p\<lparr>in_body := ser_fwd pb (in_cid p) (msg\<lparr>fw_attach := []\<rparr>)\<rparr>)) (fw_user_id msg) (ad_handle a) st))"

definition HandleGroupNormalResponse :: "relay_pb \<Rightarrow> in_pdu \<Rightarrow> msg_state \<Rightarrow> outcome" where
  "HandleGroupNormalResponse pb p st = forward_response pb (\<lambda>_. True) p st"
definition HandleGroupCreateResponse :: "relay_pb \<Rightarrow> in_pdu \<Rightarrow> msg_state \<Rightarrow> outcome" where
  "HandleGroupCreateResponse pb p st = forward_response pb (\<lambda>_. True) p st"
definition HandleGroupShieldGroupResponse :: "relay_pb \<Rightarrow> in_pdu \<Rightarrow> msg_state \<Rightarrow> outcome" where
  "HandleGroupShieldGroupResponse pb p st = forward_response pb (\<lambda>_. True) p st"

definition send_to_member :: "in_pdu \<Rightarrow> u32 \<Rightarrow> u32 \<Rightarrow> u32 \<Rightarrow> msg_state \<Rightarrow> msg_state option" where
  "send_to_member pdu user_id reqHandle member_user_id st =
     (case GetImUserById member_user_id st of None \<Rightarrow> Some st
      | Some q \<Rightarrow> do {
          pFromConn \<leftarrow> (if member_user_id = user_id \<and> reqHandle \<noteq> 0
                        then GetMsgConnByHandle user_id reqHandle st else Some None);
          user_cast (BroadcastData (MForward pdu) pFromConn) member_user_id st})"

definition HandleGroupInfoResponse :: "relay_pb \<Rightarrow> group_pb \<Rightarrow> relay_env \<Rightarrow> in_pdu \<Rightarrow> msg_state \<Rightarrow> outcome" where
  "HandleGroupInfoResponse pb gpb en p st =
     (case pb_group_info gpb (in_body p) of None \<Rightarrow> Some (Inr st)
      | Some msg \<Rightarrow> with_pdu_attach (gi_attach msg) (\<lambda>a pduLength pdu_data.
          if pduLength > 0 \<and> length (gi_groups msg) > 0 then
            (let (group_id, members) = gi_groups msg ! 0 in
             if gi_user_id msg \<notin> set members then Some st
             else case pb_msg_data pb (take (unat pduLength) pdu_data) of None \<Rightarrow> Some st
               | Some msg2 \<Rightarrow> do {
                   let pdu = new_pdu CID_MSG_DATA 0 (ser_msg_data pb msg2);
                   st \<leftarrow> run_all (send_to_member pdu (gi_user_id msg) (ad_handle a)) members st;
                   Some (send_db en (new_pdu CID_OTHER_GET_SHIELD_REQ 0
                     (ser_shield_req gpb group_id members (in_body pdu))) st)})
          else if pduLength = 0 then
            answer (\<lambda>_. True) (MForward (p\<lparr>in_body := ser_group_info gpb (msg\<lparr>gi_attach := []\<rparr>)\<rparr>))
              (gi_user_id msg) (ad_handle a) st
          else Some st))"

definition group_info_question :: "group_pb \<Rightarrow> u32 \<Rightarrow> IMMsgData \<Rightarrow> in_pdu \<Rightarrow> in_pdu" where
  "group_info_question gpb handle msg p = new_pdu CID_GROUP_INFO_REQUEST 0
     (ser_group_info_req gpb (md_from_user_id msg) (md_to_session_id msg) 0
       (pdu_attach_bytes ATTACH_TYPE_HANDLE_AND_PDU handle 0 (in_body p)))"

definition msg_ack :: "relay_pb \<Rightarrow> u32 \<Rightarrow> IMMsgData \<Rightarrow> in_pdu \<Rightarrow> client_out" where
  "msg_ack pb session_type msg p = MForward (new_pdu CID_MSG_DATA_ACK (in_seq p)
     (ser_read pb CID_MSG_DATA_ACK \<lparr>rm_user_id = md_from_user_id msg, rm_session_id = md_to_session_id msg,
        rm_msg_id = md_msg_id msg, rm_session_type = session_type\<rparr>))"

definition HandleGroupMessage :: "relay_pb \<Rightarrow> group_pb \<Rightarrow> relay_env \<Rightarrow> in_pdu \<Rightarrow> msg_state \<Rightarrow> outcome" where
  "HandleGroupMessage pb gpb en p st =
     (case pb_msg_data pb (in_body p) of None \<Rightarrow> Some (Inr st)
      | Some msg \<Rightarrow>
          if md_msg_id msg = 0 then Some (Inr st)
          else with_attach (md_attach_data msg) (\<lambda>a. do {
            st \<leftarrow> answer (\<lambda>_. True) (msg_ack pb SESSION_TYPE_GROUP msg p) (md_from_user_id msg) (ad_handle a) st;
            let st = send_route en p st;
            Some (send_db en (group_info_question gpb (ad_handle a) msg p) st)}))"

definition HandleGroupMessageBroadcast :: "relay_pb \<Rightarrow> group_pb \<Rightarrow> relay_env \<Rightarrow> in_pdu \<Rightarrow> msg_state \<Rightarrow> msg_state" where
  "HandleGroupMessageBroadcast pb gpb en p st =
     (case pb_msg_data pb (in_body p) of None \<Rightarrow> st
      | Some msg \<Rightarrow> send_db en (group_info_question gpb 0 msg p) st)"

definition SendPduToUser :: "in_pdu \<Rightarrow> conn option \<Rightarrow> u32 \<Rightarrow> msg_state \<Rightarrow> msg_state option" where
  "SendPduToUser pdu pReqConn user_id st = user_cast (BroadcastPdu (MForward pdu) pReqConn) user_id st"

definition HandleGroupChangeMemberResponse :: "group_pb \<Rightarrow> relay_env \<Rightarrow> in_pdu \<Rightarrow> msg_state \<Rightarrow> outcome" where
  "HandleGroupChangeMemberResponse gpb en p st =
     (case pb_change gpb CID_GROUP_CHANGE_MEMBER_RESPONSE (in_body p) of None \<Rightarrow> Some (Inr st)
      | Some msg \<Rightarrow> with_attach (cg_attach msg) (\<lambda>a. do {
          pFromConn \<leftarrow> GetMsgConnByHandle (cg_user_id msg) (ad_handle a) st;
          st \<leftarrow> answer_found (\<lambda>_. True) (MForward (p\<lparr>in_body := ser_change gpb CID_GROUP_CHANGE_MEMBER_RESPONSE
                   (msg\<lparr>cg_attach := []\<rparr>)\<rparr>)) pFromConn st;
          if cg_result msg = 0 then do {
            let pdu = new_pdu CID_GROUP_CHANGE_MEMBER_NOTIFY 0
              (ser_change gpb CID_GROUP_CHANGE_MEMBER_NOTIFY (msg\<lparr>cg_result := 0, cg_attach := []\<rparr>));
            let st = send_route en pdu st;
            st \<leftarrow> run_all (SendPduToUser pdu pFromConn) (cg_chg_users msg) st;
            run_all (SendPduToUser pdu pFromConn) (cg_cur_users msg) st}
          else Some st}))"

definition HandleGroupChangeMemberBroadcast :: "group_pb \<Rightarrow> in_pdu \<Rightarrow> msg_state \<Rightarrow> msg_state option" where
  "HandleGroupChangeMemberBroadcast gpb p st =
     (case pb_change gpb CID_GROUP_CHANGE_MEMBER_NOTIFY (in_body p) of None \<Rightarrow> Some st
      | Some msg \<Rightarrow> do {
          st \<leftarrow> run_all (SendPduToUser p None) (cg_chg_users msg) st;
          run_all (SendPduToUser p None) (cg_cur_users msg) st})"

definition HandleGroupGetShieldByGroupResponse :: "group_pb \<Rightarrow> relay_env \<Rightarrow> in_pdu \<Rightarrow> msg_state \<Rightarrow> msg_state" where
  "HandleGroupGetShieldByGroupResponse gpb en p st =
     (case pb_shield_rsp gpb (in_body p) of None \<Rightarrow> st
      | Some (attach, shield_status_list) \<Rightarrow>
          send_db en (new_pdu CID_OTHER_GET_DEVICE_TOKEN_REQ 0
            (ser_device_token_req gpb (map fst (filter (\<lambda>(user_id, status). status = 0) shield_status_list)) attach)) st)"

subsection \<open>No session is touched\<close>

lemma quiet_group_requests [simp]:
  "quiet st (HandleClientGroupNormalRequest pb gpb en this p st)"
  "quiet st (HandleClientGroupInfoRequest pb gpb en this p st)"
  "quiet st (HandleClientGroupCreateRequest gpb en this p st)"
  "quiet st (HandleClientGroupChangeMemberRequest gpb en this p st)"
  "quiet st (HandleClientGroupShieldGroupRequest pb gpb en this p st)"
  "quiet st (HandleGroupMessageBroadcast pb gpb en p st)"
  "quiet st (HandleGroupGetShieldByGroupResponse gpb en p st)"
  by (simp_all add: HandleClientGroupNormalRequest_def HandleClientGroupInfoRequest_def
      HandleClientGroupCreateRequest_def HandleClientGroupChangeMemberRequest_def
      HandleClientGroupShieldGroupRequest_def HandleGroupMessageBroadcast_def
      HandleGroupGetShieldByGroupResponse_def Let_def split: option.split)

lemma forward_response_quiet:
  "session_inv db None None st \<Longrightarrow> quiet_outcome st (forward_response pb P p st)"
  unfolding forward_response_def by (auto intro: quiet_with_attach answer_quiet split: option.split)

lemma send_to_member_quiet:
  assumes inv: "session_inv db None None st"
  shows "yields quiet st (send_to_member pdu uid h m st)"
proof -
  obtain r where "GetMsgConnByHandle uid h st = Some r" using GetMsgConnByHandle_session [OF inv] by blast
  then show ?thesis
    using user_cast_quiet [OF inv] by (simp add: send_to_member_def BroadcastData_def split: option.split)
qed

lemma SendPduToUser_quiet:
  "session_inv db None None st \<Longrightarrow> yields quiet st (SendPduToUser pdu c uid st)"
  unfolding SendPduToUser_def BroadcastPdu_def by (rule user_cast_quiet)

lemma HandleGroupInfoResponse_quiet:
  assumes inv: "session_inv db None None st"
  shows "quiet_outcome st (HandleGroupInfoResponse pb gpb en p st)"
proof (cases "pb_group_info gpb (in_body p)")
  case (Some msg)
  have "yields quiet st (do {st \<leftarrow> run_all (send_to_member pdu uid h) ms st; Some (send_db en q st)})" for pdu uid h ms q
    by (rule qs.bind_ok [OF inv qs.run_all_ok [OF send_to_member_quiet inv]]) (auto intro: qs.done_ok)
  then show ?thesis
    unfolding HandleGroupInfoResponse_def Some option.case
    by (intro quiet_with_pdu_attach) (simp add: Let_def split_def answer_quiet [OF inv] split: option.split)
qed (simp add: HandleGroupInfoResponse_def)

lemma HandleGroupMessage_quiet:
  assumes inv: "session_inv db None None st"
  shows "quiet_outcome st (HandleGroupMessage pb gpb en p st)"
  unfolding HandleGroupMessage_def
  by (auto simp: Let_def split: option.split
      intro!: quiet_with_attach answer_then [OF inv] qs.done_ok quiet_trans [OF quiet_sends(2) quiet_sends(1)])

lemma HandleGroupChangeMemberBroadcast_quiet:
  assumes inv: "session_inv db None None st"
  shows "yields quiet st (HandleGroupChangeMemberBroadcast gpb p st)"
  unfolding HandleGroupChangeMemberBroadcast_def
  by (auto split: option.split intro!: qs.bind_ok [OF inv] qs.run_all_ok SendPduToUser_quiet inv)

lemma HandleGroupChangeMemberResponse_quiet:
  assumes inv: "session_inv db None None st"
  shows "quiet_outcome st (HandleGroupChangeMemberResponse gpb en p st)"
proof (cases "pb_change gpb CID_GROUP_CHANGE_MEMBER_RESPONSE (in_body p)")
  case (Some msg)
  have notify: "yields quiet t (do {t \<leftarrow> run_all (SendPduToUser pdu c) xs (send_route en pdu t);
      run_all (SendPduToUser pdu c) ys t})" if t: "session_inv db None None t" for t pdu c xs ys
  proof -
    have t': "session_inv db None None (send_route en pdu t)" by (rule quiet_session_inv [OF t quiet_sends(2)])
    show ?thesis
      by (rule qs.from_ok [OF quiet_sends(2)])
        (auto intro!: qs.bind_ok [OF t'] qs.run_all_ok SendPduToUser_quiet t')
  qed
  show ?thesis
    unfolding HandleGroupChangeMemberResponse_def Some option.case
  proof (rule quiet_with_attach)
    fix a
    obtain r where r: "GetMsgConnByHandle (cg_user_id msg) (ad_handle a) st = Some r"
      "\<And>c. r = Some c \<longleftrightarrow> session_of st (cg_user_id msg) c \<and> mc_handle (conns st c) = ad_handle a"
      using GetMsgConnByHandle_session [OF inv] by blast
    have "yields quiet st (answer_found P m r st)" for P m using r(2) by (intro answer_found_quiet [OF inv]) blast
    then show "yields quiet st (do {pFromConn \<leftarrow> GetMsgConnByHandle (cg_user_id msg) (ad_handle a) st;
          st \<leftarrow> answer_found (\<lambda>_. True) (MForward (p\<lparr>in_body := ser_change gpb CID_GROUP_CHANGE_MEMBER_RESPONSE
                   (msg\<lparr>cg_attach := []\<rparr>)\<rparr>)) pFromConn st;
          if cg_result msg = 0 then do {
            let pdu = new_pdu CID_GROUP_CHANGE_MEMBER_NOTIFY 0
              (ser_change gpb CID_GROUP_CHANGE_MEMBER_NOTIFY (msg\<lparr>cg_result := 0, cg_attach := []\<rparr>));
            let st = send_route en pdu st;
            st \<leftarrow> run_all (SendPduToUser pdu pFromConn) (cg_chg_users msg) st;
            run_all (SendPduToUser pdu pFromConn) (cg_cur_users msg) st}
          else Some st})"
      by (auto simp: r(1) Let_def intro!: qs.bind_ok [OF inv] notify)
  qed
qed (simp add: HandleGroupChangeMemberResponse_def)

end
