(* ===== verification/File_Relay.thy ===== *)
theory File_Relay
  imports Msg_Relay
begin

text \<open>
  Files on a message server: \<open>msg_server/FileHandler.cpp\<close>, the requests of the clients, and the answers
  of the file server in \<open>msg_server/FileServConn.cpp\<close>. The messages share their fields (\<open>file_msg\<close>); which
  of them one has is up to its parser and serializer, and a field that is absent is zero or empty.
\<close>

record file_msg =
  fm_result :: u32
  fm_from_user_id :: u32
  fm_to_user_id :: u32
  fm_file_name :: bytes
  fm_file_size :: u32
  fm_task_id :: bytes
  fm_trans_mode :: u32
  fm_offline_ready :: u32
  fm_ip_addr_list :: "(string \<times> u32) list"
  fm_attach :: bytes

record offline_rsp =
  of_user_id :: u32
  of_ip_addr_list :: "(string \<times> u32) list"
  of_attach :: bytes
  of_rest :: bytes

record file_relay_pb =
  pb_file :: "u16 \<Rightarrow> bytes \<Rightarrow> file_msg option"
  ser_file :: "u16 \<Rightarrow> file_msg \<Rightarrow> bytes"
  pb_offline_rsp :: "bytes \<Rightarrow> offline_rsp option"
  ser_offline_rsp :: "offline_rsp \<Rightarrow> bytes"
  ser_users_stat_req :: "u32 \<Rightarrow> u32 list \<Rightarrow> bytes \<Rightarrow> bytes"
  pb_file_ips :: "bytes \<Rightarrow> (string \<times> u32) list option"

definition empty_file_msg :: file_msg where
  "empty_file_msg = \<lparr>fm_result = 0, fm_from_user_id = 0, fm_to_user_id = 0, fm_file_name = [], fm_file_size = 0,
     fm_task_id = [], fm_trans_mode = 0, fm_offline_ready = 0, fm_ip_addr_list = [], fm_attach = []\<rparr>"

definition no_file_server :: "u32 \<Rightarrow> file_msg \<Rightarrow> file_msg" where
  "no_file_server from_id msg = empty_file_msg\<lparr>fm_result := 1, fm_from_user_id := from_id,
     fm_to_user_id := fm_to_user_id msg, fm_file_name := fm_file_name msg, fm_task_id := [],
     fm_trans_mode := fm_trans_mode msg\<rparr>"

subsection \<open>Requests of clients\<close>

text \<open>\<open>GetPCloginStatus\<close> of the receiver decides, as a number: any value but zero counts as logged in.\<close>

definition pc_login_status :: "u32 \<Rightarrow> msg_state \<Rightarrow> u32 option option" where
  "pc_login_status user_id st =
     (case GetImUserById user_id st of None \<Rightarrow> Some None
      | Some p \<Rightarrow> map_option (\<lambda>u. Some (m_pc_login_status u)) (users st p))"

definition HandleClientFileRequest :: "file_relay_pb \<Rightarrow> relay_env \<Rightarrow> conn \<Rightarrow> in_pdu \<Rightarrow> msg_state \<Rightarrow> msg_state option" where
  "HandleClientFileRequest fpb en this p st =
     (case pb_file fpb CID_FILE_REQUEST (in_body p) of None \<Rightarrow> Some st
      | Some msg \<Rightarrow>
          (let from_id = mc_user_id (conns st this) in
           case en_file en of
             None \<Rightarrow> Some (reply (MForward (new_pdu CID_FILE_RESPONSE (in_seq p)
                       (ser_file fpb CID_FILE_RESPONSE (no_file_server from_id msg)))) this st)
           | Some ips \<Rightarrow>
               (let pdu = new_pdu CID_OTHER_FILE_TRANSFER_REQ (in_seq p) (ser_file fpb CID_OTHER_FILE_TRANSFER_REQ
                      (empty_file_msg\<lparr>fm_from_user_id := from_id, fm_to_user_id := fm_to_user_id msg,
                         fm_file_name := fm_file_name msg, fm_file_size := fm_file_size msg,
                         fm_trans_mode := fm_trans_mode msg, fm_attach := db_handle this st\<rparr>))
                in if fm_trans_mode msg = FILE_TYPE_OFFLINE then Some (send_file pdu st)
                   else do {
                     status \<leftarrow> pc_login_status (fm_to_user_id msg) st;
                     if status \<noteq> None \<and> status \<noteq> Some 0 then Some (send_file pdu st)
                     else Some (send_route en (new_pdu CID_BUDDY_LIST_USERS_STATUS_REQUEST (in_seq p)
                            (ser_users_stat_req fpb from_id [fm_to_user_id msg]
                              (pdu_attach_bytes ATTACH_TYPE_HANDLE_AND_PDU_FOR_FILE (mc_handle (conns st this)) 0
                                (in_body pdu)))) st)})))"

definition HandleClientFileHasOfflineReq :: "relay_pb \<Rightarrow> file_relay_pb \<Rightarrow> relay_env \<Rightarrow> conn \<Rightarrow> in_pdu \<Rightarrow> msg_state \<Rightarrow> msg_state" where
  "HandleClientFileHasOfflineReq pb fpb en this p st =
     (if en_db en then forward_request pb (send_db en) (Some (db_handle this st)) this p st
      else reply (MForward (new_pdu CID_FILE_HAS_OFFLINE_RES (in_seq p) (ser_offline_rsp fpb
             \<lparr>of_user_id = mc_user_id (conns st this), of_ip_addr_list = [], of_attach = [], of_rest = []\<rparr>))) this st)"

definition HandleClientFileAddOfflineReq :: "file_relay_pb \<Rightarrow> relay_env \<Rightarrow> conn \<Rightarrow> in_pdu \<Rightarrow> msg_state \<Rightarrow> msg_state option" where
  "HandleClientFileAddOfflineReq fpb en this p st =
     (case pb_file fpb CID_FILE_ADD_OFFLINE_REQ (in_body p) of None \<Rightarrow> Some st
      | Some msg \<Rightarrow>
          (let from_id = mc_user_id (conns st this);
               st = send_db en (p\<lparr>in_body := ser_file fpb CID_FILE_ADD_OFFLINE_REQ (msg\<lparr>fm_from_user_id := from_id\<rparr>)\<rparr>) st
           in case en_file en of
             None \<Rightarrow> Some st
           | Some ips \<Rightarrow> do {
               let pdu = new_pdu CID_FILE_NOTIFY 0 (ser_file fpb CID_FILE_NOTIFY
                 (empty_file_msg\<lparr>fm_from_user_id := from_id, fm_to_user_id := fm_to_user_id msg,
                    fm_file_name := fm_file_name msg, fm_file_size := fm_file_size msg, fm_task_id := fm_task_id msg,
                    fm_trans_mode := FILE_TYPE_OFFLINE, fm_offline_ready := 1, fm_ip_addr_list := ips\<rparr>));
               st \<leftarrow> user_cast (BroadcastPduWithOutMobile (MForward pdu) None) (fm_to_user_id msg) st;
               Some (send_route en pdu st)}))"

text \<open>The sender is the one the client names.\<close>

definition HandleClientFileDelOfflineReq :: "file_relay_pb \<Rightarrow> relay_env \<Rightarrow> in_pdu \<Rightarrow> msg_state \<Rightarrow> msg_state" where
  "HandleClientFileDelOfflineReq fpb en p st =
     (case pb_file fpb CID_FILE_DEL_OFFLINE_REQ (in_body p) of None \<Rightarrow> st
      | Some msg \<Rightarrow> send_db en (p\<lparr>in_body := ser_file fpb CID_FILE_DEL_OFFLINE_REQ
          (msg\<lparr>fm_from_user_id := fm_from_user_id msg\<rparr>)\<rparr>) st)"

subsection \<open>Answers of the database, the file server and the route server\<close>

definition HandleFileHasOfflineRes :: "file_relay_pb \<Rightarrow> relay_env \<Rightarrow> in_pdu \<Rightarrow> msg_state \<Rightarrow> outcome" where
  "HandleFileHasOfflineRes fpb en p st =
     (case pb_offline_rsp fpb (in_body p) of None \<Rightarrow> Some (Inr st)
      | Some msg \<Rightarrow> with_attach (of_attach msg) (\<lambda>a.
          let ips = (case en_file en of None \<Rightarrow> [] | Some ip_list \<Rightarrow> ip_list);
              msg = msg\<lparr>of_ip_addr_list := of_ip_addr_list msg @ ips\<rparr>
          in answer (\<lambda>_. True) (MForward (p\<lparr>in_body := ser_offline_rsp fpb msg\<rparr>)) (of_user_id msg) (ad_handle a) st))"

definition HandleFileNotify :: "file_relay_pb \<Rightarrow> in_pdu \<Rightarrow> msg_state \<Rightarrow> msg_state option" where
  "HandleFileNotify fpb p st =
     (case pb_file fpb CID_FILE_NOTIFY (in_body p) of None \<Rightarrow> Some st
      | Some msg \<Rightarrow> user_cast (BroadcastPdu (MForward p) None) (fm_to_user_id msg) st)"

text \<open>\<open>m_ip_list\<close> are the addresses the file server has reported on this connection.\<close>

definition HandleFileServerIPRsp :: "file_relay_pb \<Rightarrow> in_pdu \<Rightarrow> (string \<times> u32) list \<Rightarrow> (string \<times> u32) list" where
  "HandleFileServerIPRsp fpb p m_ip_list =
     (case pb_file_ips fpb (in_body p) of None \<Rightarrow> m_ip_list | Some ip_addr_list \<Rightarrow> m_ip_list @ ip_addr_list)"

definition HandleFileMsgTransRsp :: "file_relay_pb \<Rightarrow> (string \<times> u32) list \<Rightarrow> relay_env \<Rightarrow> in_pdu \<Rightarrow> msg_state \<Rightarrow> outcome" where
  "HandleFileMsgTransRsp fpb m_ip_list en p st =
     (case pb_file fpb CID_OTHER_FILE_TRANSFER_RSP (in_body p) of None \<Rightarrow> Some (Inr st)
      | Some msg \<Rightarrow> with_attach (fm_attach msg) (\<lambda>a. do {
          let msg2 = empty_file_msg\<lparr>fm_result := fm_result msg, fm_from_user_id := fm_from_user_id msg,
            fm_to_user_id := fm_to_user_id msg, fm_file_name := fm_file_name msg, fm_task_id := fm_task_id msg,
            fm_trans_mode := fm_trans_mode msg, fm_ip_addr_list := m_ip_list\<rparr>;
          st \<leftarrow> answer (\<lambda>_. True) (MForward (new_pdu CID_FILE_RESPONSE (in_seq p) (ser_file fpb CID_FILE_RESPONSE msg2)))
                 (fm_from_user_id msg) (ad_handle a) st;
          if fm_result msg = 0 then do {
            let pdu2 = new_pdu CID_FILE_NOTIFY 0 (ser_file fpb CID_FILE_NOTIFY
              (msg2\<lparr>fm_result := 0, fm_file_size := fm_file_size msg, fm_offline_ready := 0\<rparr>));
            st \<leftarrow> user_cast (BroadcastPduWithOutMobile (MForward pdu2) None) (fm_to_user_id msg) st;
            Some (send_route en pdu2 st)}
          else Some st}))"

subsection \<open>No session is touched\<close>

lemma quiet_file_requests [simp]:
  "quiet st (HandleClientFileHasOfflineReq pb fpb en this p st)"
  "quiet st (HandleClientFileDelOfflineReq fpb en p st)"
  by (simp_all add: HandleClientFileHasOfflineReq_def HandleClientFileDelOfflineReq_def split: option.split)

lemma pc_login_status_some:
  assumes inv: "session_inv db None None st"
  shows "\<exists>r. pc_login_status uid st = Some r"
proof (cases "GetImUserById uid st")
  case (Some p)
  then show ?thesis by (rule user_conns [OF inv]) (simp add: pc_login_status_def Some)
qed (simp add: pc_login_status_def)

lemma HandleClientFileRequest_quiet:
  assumes inv: "session_inv db None None st"
  shows "yields quiet st (HandleClientFileRequest fpb en this p st)"
proof (cases "pb_file fpb CID_FILE_REQUEST (in_body p)")
  case (Some msg)
  obtain r where "pc_login_status (fm_to_user_id msg) st = Some r" using pc_login_status_some [OF inv] by blast
  then show ?thesis
    by (auto simp: HandleClientFileRequest_def Some Let_def qs.done_ok split: option.split)
qed (simp add: HandleClientFileRequest_def)

lemma HandleClientFileAddOfflineReq_quiet:
  assumes inv: "session_inv db None None st"
  shows "yields quiet st (HandleClientFileAddOfflineReq fpb en this p st)"
  unfolding HandleClientFileAddOfflineReq_def Let_def BroadcastPduWithOutMobile_def
  by (auto split: option.split intro!: cast_where_then [OF quiet_session_inv [OF inv quiet_sends(1)]] qs.done_ok)

lemma HandleFileHasOfflineRes_quiet:
  "session_inv db None None st \<Longrightarrow> quiet_outcome st (HandleFileHasOfflineRes fpb en p st)"
  unfolding HandleFileHasOfflineRes_def Let_def by (auto intro: quiet_with_attach answer_quiet split: option.split)

lemma HandleFileNotify_quiet:
  "session_inv db None None st \<Longrightarrow> yields quiet st (HandleFileNotify fpb p st)"
  unfolding HandleFileNotify_def BroadcastPdu_def by (auto intro: user_cast_quiet split: option.split)

lemma HandleFileMsgTransRsp_quiet:
  assumes inv: "session_inv db None None st"
  shows "quiet_outcome st (HandleFileMsgTransRsp fpb ips en p st)"
  unfolding HandleFileMsgTransRsp_def Let_def BroadcastPduWithOutMobile_def
  by (auto split: option.split intro!: quiet_with_attach answer_then [OF inv] cast_where_then qs.done_ok)

end
