(* ===== verification/Aes_Tables.thy ===== *)
theory Aes_Tables
  imports Aes
begin

text \<open>
  What the tables of the block cipher hold: a substitution of bytes \<open>S_box\<close> and its inverse, and linear maps of a byte
  (multiplication by constants in the field of the cipher, built from doubling \<open>x2\<close>). The mix of
  columns and its inverse cancel by linearity alone.
\<close>

subsection \<open>The tables as arithmetic on bytes\<close>

definition is_byte :: "u32 \<Rightarrow> bool" where
  "is_byte x \<longleftrightarrow> unat x < 256"

definition S_box :: "u32 \<Rightarrow> u32" where
  "S_box x = look Te1 x AND 0xFF"

text \<open>Doubling in the field of the cipher.\<close>

definition x2 :: "u32 \<Rightarrow> u32" where
  "x2 s = push_bit 1 s XOR (if bit s 7 then 0x11B else 0)"

definition pack :: "u32 \<Rightarrow> u32 \<Rightarrow> u32 \<Rightarrow> u32 \<Rightarrow> u32" where
  "pack p q r s = push_bit 24 p XOR push_bit 16 q XOR push_bit 8 r XOR s"

lemma byte_ofE: "is_byte x \<Longrightarrow> (\<And>n. x = of_nat n \<Longrightarrow> n < 256 \<Longrightarrow> unat x = n \<Longrightarrow> P) \<Longrightarrow> P"
  by (metis is_byte_def of_nat_unat ucast_id)

lemma table_lengths: "length Te0 = 256" "length Te1 = 256" "length Te2 = 256" "length Te3 = 256"
  "length Td0 = 256" "length Td1 = 256" "length Td2 = 256" "length Td3 = 256" "length Td4 = 256"
  by (simp_all add: Te0_def Te1_def Te2_def Te3_def Td0_def Td1_def Td2_def Td3_def Td4_def)

lemma S_list: "is_byte x \<Longrightarrow> S_box x = map (\<lambda>w. w AND 0xFF) Te1 ! unat x"
  by (simp add: S_box_def look_def is_byte_def table_lengths)

lemma inverse_list: "map (\<lambda>w. ucast (Td4 ! unat (w AND 0xFF))) Te1 = (map of_nat [0..<256] :: u32 list)"
  by (simp add: Te1_def Td4_def upt_rec)

lemma Te_lists:
  "Te0 = map (\<lambda>w. let s = w AND 0xFF in pack (x2 s) s s (x2 s XOR s)) Te1"
  "Te1 = map (\<lambda>w. let s = w AND 0xFF in pack (x2 s XOR s) (x2 s) s s) Te1"
  "Te2 = map (\<lambda>w. let s = w AND 0xFF in pack s (x2 s XOR s) (x2 s) s) Te1"
  "Te3 = map (\<lambda>w. let s = w AND 0xFF in pack s s (x2 s XOR s) (x2 s)) Te1"
  by (simp_all add: Te0_def Te1_def Te2_def Te3_def Let_def pack_def x2_def)

definition U_lin :: "u32 \<Rightarrow> u32 \<times> u32 \<times> u32 \<times> u32" where
  "U_lin x = (let a = x2 x; b = x2 a; c = x2 b in (c XOR b XOR a, c XOR x, c XOR b XOR x, c XOR a XOR x))"

lemma Td0_list: "Td0 = map (\<lambda>y. case U_lin (ucast y) of (e, n, d, b) \<Rightarrow> pack e n d b) Td4"
  unfolding Td0_def Td4_def list.map by (simp add: Let_def pack_def U_lin_def x2_def)

definition rot :: "u32 \<Rightarrow> u32" where
  "rot w = push_bit 24 w XOR drop_bit 8 w"

lemma Td_rot: "Td1 = map rot Td0" "Td2 = map rot Td1" "Td3 = map rot Td2"
  by (simp_all add: Td0_def Td1_def Td2_def Td3_def rot_def)

lemma nth_table: "is_byte x \<Longrightarrow> look (map f Te1) x = f (look Te1 x)"
  by (simp add: look_def is_byte_def table_lengths)

lemma S_inverse:
  assumes "is_byte x"
  shows "look4 (S_box x) = x"
proof -
  have "look4 (S_box x) = look (map (\<lambda>w. ucast (Td4 ! unat (w AND 0xFF))) Te1) x"
    using assms by (simp add: nth_table look4_def S_box_def)
  also have "\<dots> = x" using assms by (simp only: inverse_list) (simp add: look_def is_byte_def)
  finally show ?thesis .
qed

lemma look_Te:
  assumes "is_byte x"
  shows "look Te0 x = pack (x2 (S_box x)) (S_box x) (S_box x) (x2 (S_box x) XOR S_box x)"
    "look Te1 x = pack (x2 (S_box x) XOR S_box x) (x2 (S_box x)) (S_box x) (S_box x)"
    "look Te2 x = pack (S_box x) (x2 (S_box x) XOR S_box x) (x2 (S_box x)) (S_box x)"
    "look Te3 x = pack (S_box x) (S_box x) (x2 (S_box x) XOR S_box x) (x2 (S_box x))"
proof -
  show "look Te0 x = pack (x2 (S_box x)) (S_box x) (S_box x) (x2 (S_box x) XOR S_box x)"
    "look Te2 x = pack (S_box x) (x2 (S_box x) XOR S_box x) (x2 (S_box x)) (S_box x)"
    "look Te3 x = pack (S_box x) (S_box x) (x2 (S_box x) XOR S_box x) (x2 (S_box x))"
    using assms by (simp_all add: Te_lists(1,3,4) nth_table S_box_def Let_def)
  have "look Te1 x = look (map (\<lambda>w. let s = w AND 0xFF in pack (x2 s XOR s) (x2 s) s s) Te1) x"
    by (subst Te_lists(2)) (rule refl)
  then show "look Te1 x = pack (x2 (S_box x) XOR S_box x) (x2 (S_box x)) (S_box x) (S_box x)"
    using assms by (simp add: nth_table S_box_def Let_def)
qed

lemma byte_mask: "is_byte x \<longleftrightarrow> x AND 0xFF = x"
proof -
  have "unat (x AND 0xFF) = unat x AND 0xFF" by (simp only: unsigned_and_eq) simp
  also have "(0xFF :: nat) = mask 8" by (simp add: mask_eq_exp_minus_1)
  also have "unat x AND mask 8 = unat x mod 2 ^ 8" by (simp only: take_bit_eq_mod take_bit_eq_mask [symmetric])
  finally have "unat (x AND 0xFF) = unat x mod 256" by simp
  then show ?thesis by (simp add: is_byte_def word_unat_eq_iff) (metis mod_less mod_less_divisor zero_less_numeral)
qed

lemma is_byte_bits: "is_byte x \<longleftrightarrow> (\<forall>n \<ge> 8. \<not> bit x n)"
proof
  assume "is_byte x"
  then have "x AND 0xFF = x" by (simp add: byte_mask)
  then have "x = take_bit 8 x" by (simp add: take_bit_eq_mask mask_numeral)
  then show "\<forall>n \<ge> 8. \<not> bit x n" by (metis bit_take_bit_iff not_less)
next
  assume a: "\<forall>n \<ge> 8. \<not> bit x n"
  have "x = take_bit 8 x" by (rule bit_word_eqI) (use a in \<open>metis bit_take_bit_iff not_less\<close>)
  then show "is_byte x" by (simp add: byte_mask take_bit_eq_mask mask_numeral)
qed

lemma bytes_of_word [simp]: "is_byte (w AND 0xFF)" "is_byte (drop_bit 24 w)" "is_byte (S_box x)"
proof -
  show m: "is_byte (w AND 0xFF)" for w by (simp add: byte_mask and.assoc)
  then show "is_byte (S_box x)" by (simp add: S_box_def)
  show "is_byte (drop_bit 24 w)" by (auto simp: is_byte_bits bit_drop_bit_eq dest: bit_imp_le_length)
qed

lemma is_byte_xor [simp]: "is_byte x \<Longrightarrow> is_byte y \<Longrightarrow> is_byte (x XOR y)"
  by (auto simp: is_byte_bits bit_xor_iff)

lemma is_byte_x2 [simp]: "is_byte x \<Longrightarrow> is_byte (x2 x)"
proof -
  assume x: "is_byte x"
  have push: "bit (push_bit 1 x) n \<longleftrightarrow> 0 < n \<and> n < 32 \<and> bit x (n - 1)" for n
    by (simp only: bit_push_bit_iff) auto
  have "\<not> bit (x2 x) n" if n: "8 \<le> n" for n
  proof (cases "n = 8")
    case True
    have "bit (0x11B :: u32) 8" by simp
    then show ?thesis unfolding x2_def bit_xor_iff push True by simp
  next
    case False
    then have "8 < n" using n by simp
    then have "\<not> bit x (n - 1)" using x by (simp add: is_byte_bits)
    moreover have "\<not> bit (0x11B :: u32) n"
    proof -
      have "(0x11B :: u32) = take_bit 9 0x11B" by simp
      then have "bit (0x11B :: u32) n \<Longrightarrow> n < 9" by (metis bit_take_bit_iff)
      then show ?thesis using \<open>8 < n\<close> by auto
    qed
    ultimately show ?thesis unfolding x2_def bit_xor_iff push by simp
  qed
  then show ?thesis by (simp add: is_byte_bits)
qed

lemma x2_xor: "x2 (x XOR y) = x2 x XOR x2 y"
  by (auto simp: x2_def push_bit_xor bit_xor_iff xor.assoc xor.left_commute)

subsection \<open>The inverse mix of a column\<close>

definition U0 :: "u32 \<Rightarrow> u32" where "U0 x = (case U_lin x of (e, n, d, b) \<Rightarrow> pack e n d b)"
definition U1 :: "u32 \<Rightarrow> u32" where "U1 x = (case U_lin x of (e, n, d, b) \<Rightarrow> pack b e n d)"
definition U2 :: "u32 \<Rightarrow> u32" where "U2 x = (case U_lin x of (e, n, d, b) \<Rightarrow> pack d b e n)"
definition U3 :: "u32 \<Rightarrow> u32" where "U3 x = (case U_lin x of (e, n, d, b) \<Rightarrow> pack n d b e)"

lemmas U_defs = U0_def U1_def U2_def U3_def U_lin_def Let_def prod.case

lemma xor_cancel: "x XOR (x XOR y) = (y :: u32)" "x XOR x = (0 :: u32)"
  by (simp_all add: xor.assoc [symmetric])

lemmas xor_ac = xor.assoc xor.commute xor.left_commute xor_cancel

lemma push_xor: "push_bit n (x XOR y) = push_bit n x XOR push_bit n (y :: u32)"
  by (rule push_bit_xor)

lemma pack_xor: "pack p q r s XOR pack p' q' r' s' = pack (p XOR p') (q XOR q') (r XOR r') (s XOR s')"
  by (simp only: pack_def push_xor xor_ac)

lemma U_xor: "U0 (x XOR y) = U0 x XOR U0 y" "U1 (x XOR y) = U1 x XOR U1 y" "U2 (x XOR y) = U2 x XOR U2 y"
  "U3 (x XOR y) = U3 x XOR U3 y"
  by (simp_all only: U_defs pack_xor x2_xor xor_ac)

lemma pack_bytes:
  assumes "is_byte p" "is_byte q" "is_byte r" "is_byte s"
  shows "drop_bit 24 (pack p q r s) = p" "drop_bit 16 (pack p q r s) AND 0xFF = q" "drop_bit 8 (pack p q r s) AND 0xFF = r"
    "pack p q r s AND 0xFF = s"
proof -
  have ff: "(0xFF :: u32) = mask 8" by (simp add: mask_eq_exp_minus_1)
  have b: "n < 8" if "bit x n" "is_byte x" for x n using that by (metis is_byte_bits not_less)
  show "drop_bit 24 (pack p q r s) = p"
    by (rule bit_word_eqI) (use assms b in \<open>auto simp: pack_def bit_drop_bit_eq bit_xor_iff bit_push_bit_iff is_byte_bits\<close>)
  show "drop_bit 16 (pack p q r s) AND 0xFF = q" "drop_bit 8 (pack p q r s) AND 0xFF = r" "pack p q r s AND 0xFF = s"
    unfolding ff
    by (rule bit_word_eqI, (use assms b in \<open>auto simp: pack_def bit_drop_bit_eq bit_xor_iff bit_push_bit_iff bit_and_iff bit_mask_iff not_less is_byte_bits\<close>))+
qed

lemma pack_of: "pack (drop_bit 24 w) (drop_bit 16 w AND 0xFF) (drop_bit 8 w AND 0xFF) (w AND 0xFF) = w"
proof (rule bit_word_eqI)
  have ff: "(0xFF :: u32) = mask 8" by (simp add: mask_eq_exp_minus_1)
  fix n assume n: "n < LENGTH(32)"
  consider "n < 8" | "8 \<le> n" "n < 16" | "16 \<le> n" "n < 24" | "24 \<le> n" by linarith
  then show "bit (pack (drop_bit 24 w) (drop_bit 16 w AND 0xFF) (drop_bit 8 w AND 0xFF) (w AND 0xFF)) n = bit w n"
    using n unfolding ff pack_def by cases (simp_all add: bit_simps less_diff_conv2)
qed

lemma rot_pack:
  assumes "is_byte p" "is_byte q" "is_byte r" "is_byte s"
  shows "rot (pack p q r s) = pack s p q r"
proof (rule bit_word_eqI)
  fix n assume n: "n < LENGTH(32)"
  have z: "\<not> bit x m" if "8 \<le> m" "x \<in> {p, q, r, s}" for x m
    using that assms by (auto simp: is_byte_bits)
  consider "n < 8" | "8 \<le> n" "n < 16" | "16 \<le> n" "n < 24" | "24 \<le> n" by linarith
  then show "bit (rot (pack p q r s)) n = bit (pack s p q r) n"
    using n z by cases (auto simp: rot_def pack_def bit_xor_iff bit_push_bit_iff bit_drop_bit_eq)
qed

lemma is_byte_look4 [simp]: "is_byte (look4 y)"
  using bit_imp_le_length by (fastforce simp: look4_def is_byte_bits bit_ucast_iff)

lemma look_Td:
  assumes "is_byte y"
  shows "look Td0 y = U0 (look4 y)" "look Td1 y = U1 (look4 y)" "look Td2 y = U2 (look4 y)" "look Td3 y = U3 (look4 y)"
proof -
  have m: "look (map f T) y = f (look T y)" if "length T = 256" for T f
    using assms that by (simp add: look_def is_byte_def)
  have r1: "look Td1 y = rot (look Td0 y)" by (subst Td_rot(1), rule m) (simp add: table_lengths)
  have r2: "look Td2 y = rot (look Td1 y)" by (subst Td_rot(2), rule m) (simp add: table_lengths)
  have r3: "look Td3 y = rot (look Td2 y)" by (subst Td_rot(3), rule m) (simp add: table_lengths)
  show 0: "look Td0 y = U0 (look4 y)"
    using assms by (simp add: look_def look4_def is_byte_def table_lengths Td0_list U0_def)
  show 1: "look Td1 y = U1 (look4 y)" unfolding r1 0 by (simp add: U_defs rot_pack)
  show 2: "look Td2 y = U2 (look4 y)" unfolding r2 1 by (simp add: U_defs rot_pack)
  show "look Td3 y = U3 (look4 y)" unfolding r3 2 by (simp add: U_defs rot_pack)
qed

lemma inv_mix_U: "inv_mix w = U0 (drop_bit 24 w) XOR U1 (drop_bit 16 w AND 0xFF) XOR U2 (drop_bit 8 w AND 0xFF) XOR U3 (w AND 0xFF)"
  by (simp add: inv_mix_def S_box_def [symmetric] look_Td S_inverse)

lemma and_xor: "(x XOR y) AND m = (x AND m) XOR (y AND (m :: u32))"
  by (rule bit_word_eqI) (auto simp: bit_xor_iff bit_and_iff)

lemma inv_mix_xor: "inv_mix (x XOR y) = inv_mix x XOR inv_mix y"
  by (simp only: inv_mix_U drop_bit_xor and_xor U_xor xor_ac)

lemma inv_mix_pack:
  "is_byte p \<Longrightarrow> is_byte q \<Longrightarrow> is_byte r \<Longrightarrow> is_byte s \<Longrightarrow> inv_mix (pack p q r s) = U0 p XOR U1 q XOR U2 r XOR U3 s"
  by (simp only: inv_mix_U pack_bytes)

lemma U_cols:
  "U0 (x2 s) XOR U1 s XOR U2 s XOR U3 (x2 s XOR s) = push_bit 24 s"
  "U0 (x2 s XOR s) XOR U1 (x2 s) XOR U2 s XOR U3 s = push_bit 16 s"
  "U0 s XOR U1 (x2 s XOR s) XOR U2 (x2 s) XOR U3 s = push_bit 8 s"
  "U0 s XOR U1 s XOR U2 (x2 s XOR s) XOR U3 (x2 s) = s"
  by (simp_all only: U_defs pack_xor x2_xor xor_ac xor.right_neutral xor.left_neutral)
    (simp_all only: pack_def push_bit_of_0 xor.right_neutral xor.left_neutral)

lemma inv_mix_Te:
  assumes "is_byte x"
  shows "inv_mix (look Te0 x) = push_bit 24 (S_box x)" "inv_mix (look Te1 x) = push_bit 16 (S_box x)"
    "inv_mix (look Te2 x) = push_bit 8 (S_box x)" "inv_mix (look Te3 x) = S_box x"
  using assms by (simp_all only: look_Te inv_mix_pack bytes_of_word is_byte_x2 is_byte_xor U_cols)

end
