(* ===== verification/Aes_Inverse.thy ===== *)
theory Aes_Inverse
  imports Aes_Tables
begin

text \<open>
  Decryption inverts encryption, for keys of the three lengths: round by round on the states mixed back, with the
  reversed and mixed round keys \<open>AES_set_decrypt_key\<close> computes; and the example of the standard.
\<close>

subsection \<open>Rounds\<close>

definition sr_col :: "u32 \<Rightarrow> u32 \<Rightarrow> u32 \<Rightarrow> u32 \<Rightarrow> u32" where
  "sr_col a b c d = pack (S_box (drop_bit 24 a)) (S_box (drop_bit 16 b AND 0xFF)) (S_box (drop_bit 8 c AND 0xFF)) (S_box (d AND 0xFF))"

text \<open>The state after substitution and row shift; the key words at a pointer; both also column-mixed back.\<close>

definition sub_shift :: "aes_state \<Rightarrow> aes_state" where
  "sub_shift = (\<lambda>(s0, s1, s2, s3). (sr_col s0 s1 s2 s3, sr_col s1 s2 s3 s0, sr_col s2 s3 s0 s1, sr_col s3 s0 s1 s2))"

definition keys_mixed :: "u32 list \<Rightarrow> u32 list \<Rightarrow> bool" where
  "keys_mixed k k' \<longleftrightarrow> (\<forall>j < 4. k' ! j = inv_mix (k ! j))"

lemma inv_mix_enc_col: "inv_mix (enc_col a b c d k) = sr_col a b c d XOR inv_mix k"
  by (simp only: enc_col_def inv_mix_xor inv_mix_Te bytes_of_word sr_col_def pack_def xor.assoc)

lemma dec_col_sr:
  "dec_col (sr_col a b1 c1 d1) (sr_col a2 a c2 d2) (sr_col a3 b3 a d3) (sr_col a4 b4 c4 a) k = inv_mix a XOR k"
  by (simp only: dec_col_def sr_col_def pack_bytes bytes_of_word look_Td S_inverse inv_mix_U xor.assoc)

text \<open>One round of decryption takes back one round of encryption.\<close>

lemma dec_enc_round:
  assumes "keys_mixed k k'"
  shows "dec_round (sub_shift (enc_round s k)) k' = sub_shift s"
proof -
  obtain s0 s1 s2 s3 where s: "s = (s0, s1, s2, s3)" by (cases s)
  have k: "k' ! 0 = inv_mix (k ! 0)" "k' ! 1 = inv_mix (k ! 1)" "k' ! 2 = inv_mix (k ! 2)" "k' ! 3 = inv_mix (k ! 3)"
    using assms by (simp_all add: keys_mixed_def)
  show ?thesis
    by (simp only: s sub_shift_def enc_round_def dec_round_def prod.case dec_col_sr k
      inv_mix_enc_col xor.assoc xor_cancel xor.right_neutral)
qed

lemma enc_last_sr: "enc_last a b c d k = sr_col a b c d XOR k"
proof -
  have m: "w AND 0xFF000000 = push_bit 24 (drop_bit 24 w)" "w AND 0x00FF0000 = push_bit 16 (drop_bit 16 w AND 0xFF)"
    "w AND 0x0000FF00 = push_bit 8 (drop_bit 8 w AND 0xFF)" for w :: u32
  proof -
    have ff: "(0xFF000000 :: u32) = push_bit 24 (mask 8)" "(0x00FF0000 :: u32) = push_bit 16 (mask 8)"
      "(0x0000FF00 :: u32) = push_bit 8 (mask 8)" "(0xFF :: u32) = mask 8"
      by (simp_all add: mask_eq_exp_minus_1)
    show "w AND 0xFF000000 = push_bit 24 (drop_bit 24 w)" "w AND 0x00FF0000 = push_bit 16 (drop_bit 16 w AND 0xFF)"
      "w AND 0x0000FF00 = push_bit 8 (drop_bit 8 w AND 0xFF)"
      unfolding ff by (rule bit_word_eqI, auto simp: bit_simps)+
  qed
  show ?thesis
    by (simp only: enc_last_def look_Te bytes_of_word m is_byte_x2 is_byte_xor pack_bytes) (simp only: sr_col_def pack_def xor_ac)
qed

lemma dec_last_sr:
  "dec_last (sr_col a b1 c1 d1) (sr_col a2 a c2 d2) (sr_col a3 b3 a d3) (sr_col a4 b4 c4 a) k = a XOR k"
proof -
  have "dec_last (sr_col a b1 c1 d1) (sr_col a2 a c2 d2) (sr_col a3 b3 a d3) (sr_col a4 b4 c4 a) k =
      pack (drop_bit 24 a) (drop_bit 16 a AND 0xFF) (drop_bit 8 a AND 0xFF) (a AND 0xFF) XOR k"
    by (simp only: dec_last_def sr_col_def pack_bytes bytes_of_word S_inverse) (simp only: pack_def xor.assoc)
  then show ?thesis by (simp only: pack_of)
qed

lemma GET_PUT: "GETU32 (PUTU32 w @ r) = w"
proof -
  have "GETU32 (PUTU32 w @ r) = pack (drop_bit 24 w) (drop_bit 16 w AND 0xFF) (drop_bit 8 w AND 0xFF) (w AND 0xFF)"
  proof -
    have "ucast (ucast x :: u8) = (x AND 0xFF :: u32)" for x
    proof -
      have ff: "(0xFF :: u32) = mask 8" by (simp add: mask_eq_exp_minus_1)
      show ?thesis unfolding ff by (rule bit_word_eqI) (auto simp: bit_simps)
    qed
    moreover have "drop_bit 24 w AND 0xFF = drop_bit 24 w" using bytes_of_word(2) [of w] by (simp only: byte_mask)
    ultimately show ?thesis by (simp add: GETU32_def PUTU32_def pack_def)
  qed
  then show ?thesis by (simp only: pack_of)
qed

lemma PUT_GET: "4 \<le> length b \<Longrightarrow> PUTU32 (GETU32 b) = take 4 b"
proof (elim list_all_ge4)
  fix p q r s rest assume b: "b = p # q # r # s # rest"
  have c: "is_byte (ucast (x :: u8))" for x
    using bit_imp_le_length [of x] by (fastforce simp: is_byte_bits bit_ucast_iff)
  have g: "GETU32 b = pack (ucast p) (ucast q) (ucast r) (ucast s)" by (simp add: GETU32_def b pack_def)
  have u: "ucast (w AND 0xFF) = (ucast w :: u8)" for w :: u32
  proof -
    have ff: "(0xFF :: u32) = mask 8" by (simp add: mask_eq_exp_minus_1)
    show ?thesis unfolding ff by (rule bit_word_eqI) (auto simp: bit_simps)
  qed
  have uu: "ucast (ucast x :: u32) = x" for x :: u8
    by (rule bit_word_eqI) (auto simp: bit_simps)
  have "ucast (drop_bit 24 (GETU32 b)) = p" by (simp only: g pack_bytes c uu)
  moreover have "ucast (drop_bit 16 (GETU32 b) AND 0xFF) = q" "ucast (drop_bit 8 (GETU32 b) AND 0xFF) = r" "ucast (GETU32 b AND 0xFF) = s"
    by (simp_all only: g pack_bytes c uu)
  ultimately have "PUTU32 (GETU32 b) = [p, q, r, s]" by (simp only: PUTU32_def u)
  then show ?thesis by (simp add: b)
qed


subsection \<open>The loops\<close>

text \<open>The state after \<open>m\<close> rounds with the round keys 1 to \<open>m\<close>.\<close>

primrec iter_rounds :: "(aes_state \<Rightarrow> u32 list \<Rightarrow> aes_state) \<Rightarrow> u32 list \<Rightarrow> aes_state \<Rightarrow> nat \<Rightarrow> aes_state" where
  "iter_rounds f rk s 0 = s"
| "iter_rounds f rk s (Suc m) = f (iter_rounds f rk s m) (drop (4 * Suc m) rk)"

lemma enc_rounds_iter:
  "enc_rounds (Suc r) (iter_rounds enc_round rk s (2 * k)) (drop (8 * k) rk) =
     Some (iter_rounds enc_round rk s (2 * k + 2 * r + 1), drop (8 * (k + Suc r)) rk)"
proof (induction r arbitrary: k)
  case (Suc r)
  show ?case using Suc [of "Suc k"] by (subst enc_rounds.simps) (simp add: Let_def algebra_simps del: enc_rounds.simps)
qed (simp add: algebra_simps)

lemma dec_rounds_iter:
  "dec_rounds (Suc r) (iter_rounds dec_round rk s (2 * k)) (drop (8 * k) rk) =
     Some (iter_rounds dec_round rk s (2 * k + 2 * r + 1), drop (8 * (k + Suc r)) rk)"
proof (induction r arbitrary: k)
  case (Suc r)
  show ?case using Suc [of "Suc k"] by (subst dec_rounds.simps) (simp add: Let_def algebra_simps del: dec_rounds.simps)
qed (simp add: algebra_simps)

lemma enc_rounds_all: "0 < r \<Longrightarrow> enc_rounds r s rk = Some (iter_rounds enc_round rk s (2 * r - 1), drop (8 * r) rk)"
  using enc_rounds_iter [of "r - 1" rk s 0] by (cases r) simp_all

lemma dec_rounds_all: "0 < r \<Longrightarrow> dec_rounds r s rk = Some (iter_rounds dec_round rk s (2 * r - 1), drop (8 * r) rk)"
  using dec_rounds_iter [of "r - 1" rk s 0] by (cases r) simp_all

text \<open>The rounds of decryption take back those of encryption, when key \<open>i\<close> is key \<open>n - i\<close> with its columns mixed back.\<close>

lemma rounds_inverse:
  assumes "\<And>i. 0 < i \<Longrightarrow> i < n \<Longrightarrow> keys_mixed (drop (4 * (n - i)) rk) (drop (4 * i) rk')" and "m < n"
  shows "iter_rounds dec_round rk' (sub_shift (iter_rounds enc_round rk s (n - 1))) m = sub_shift (iter_rounds enc_round rk s (n - 1 - m))"
  using \<open>m < n\<close>
proof (induction m)
  case (Suc m)
  then have "n - 1 - m = Suc (n - 1 - Suc m)" "n - Suc m = Suc (n - 1 - Suc m)" by linarith+
  moreover have "keys_mixed (drop (4 * (n - Suc m)) rk) (drop (4 * Suc m) rk')" using assms(1) [of "Suc m"] Suc.prems by simp
  ultimately show ?case using Suc by (simp add: dec_enc_round del: mult_Suc_right)
qed simp

subsection \<open>The key of decryption\<close>

lemma swap_block:
  assumes "a < b" "4 * b + 3 < length rk" "l < 4"
  shows "swap_word (4 * a + 3) (4 * b + 3) (swap_word (4 * a + 2) (4 * b + 2) (swap_word (4 * a + 1) (4 * b + 1)
      (swap_word (4 * a) (4 * b) rk))) ! (4 * m + l) =
    (if m = a then rk ! (4 * b + l) else if m = b then rk ! (4 * a + l) else rk ! (4 * m + l))"
proof -
  have ne: "4 * x + j = 4 * y + k \<longleftrightarrow> x = y \<and> j = k" if "j < 4" "k < 4" for x y j k :: nat
    using that by presburger
  have ne0: "4 * x = 4 * y + k \<longleftrightarrow> x = y \<and> 0 = k" "4 * x + k = 4 * y \<longleftrightarrow> x = y \<and> k = 0" if "k < 4" for x y k :: nat
    using that by presburger+
  have lt: "4 * a + j < length rk" "4 * b + j < length rk" if "j < 4" for j using assms that by linarith+
  have lt0: "4 * a < length rk" "4 * b < length rk" using assms by linarith+
  have sw: "swap_word i j xs ! p = (if p = j then xs ! i else if p = i then xs ! j else xs ! p)"
    if "i < length xs" "j < length xs" for i j p and xs :: "u32 list"
    using that by (simp add: swap_word_def nth_list_update)
  have len: "length (swap_word i j xs) = length xs" for i j xs by (simp add: swap_word_def)
  consider "l = 0" | "l = 1" | "l = 2" | "l = 3" using assms(3) by linarith
  then show ?thesis
    using assms(1) by cases (simp_all add: sw len ne ne0 lt lt0 del: add_2_eq_Suc' One_nat_def)
qed

lemma length_swap_loop [simp]: "length (swap_loop i j rk) = length rk"
  by (induction i j rk rule: swap_loop.induct) (subst swap_loop.simps, simp add: swap_word_def)

lemma swap_loop_blocks:
  assumes "4 * b + 3 < length rk" "l < 4"
  shows "swap_loop (4 * a) (4 * b) rk ! (4 * m + l) = (if a \<le> m \<and> m \<le> b then rk ! (4 * (a + b - m) + l) else rk ! (4 * m + l))"
  using assms(1)
proof (induction "b - a" arbitrary: a b rk rule: less_induct)
  case less
  let ?sw = "swap_word (4 * a + 3) (4 * b + 3) (swap_word (4 * a + 2) (4 * b + 2) (swap_word (4 * a + 1) (4 * b + 1)
      (swap_word (4 * a) (4 * b) rk)))"
  show ?case
  proof (cases "a < b")
    case True
    then have e: "4 * a + 4 = 4 * (a + 1)" "4 * b - 4 = 4 * (b - 1)" by simp_all
    have sw: "?sw ! (4 * m + l) = (if m = a then rk ! (4 * b + l) else if m = b then rk ! (4 * a + l) else rk ! (4 * m + l))" for m
      using True less.prems assms(2) by (rule swap_block)
    have "swap_loop (4 * a) (4 * b) rk = swap_loop (4 * (a + 1)) (4 * (b - 1)) ?sw"
      using True by (subst swap_loop.simps) (simp only: e, simp)
    moreover have "4 * (b - 1) + 3 < length ?sw" using less.prems by (simp add: swap_word_def)
    moreover have "b - 1 - (a + 1) < b - a" using True by simp
    ultimately have "swap_loop (4 * a) (4 * b) rk ! (4 * m + l) =
        (if a + 1 \<le> m \<and> m \<le> b - 1 then ?sw ! (4 * (a + 1 + (b - 1) - m) + l) else ?sw ! (4 * m + l))"
      using less.hyps by metis
    moreover have "a + 1 + (b - 1) = a + b" using True by simp
    ultimately show ?thesis using True unfolding sw by auto
  next
    case False
    then have "a + b - m = m" if "a \<le> m" "m \<le> b" using that by simp
    then show ?thesis using False by (subst swap_loop.simps) auto
  qed
qed

lemma length_mix_loop [simp]: "length (mix_loop i n rk) = length rk"
  by (induction i n rk rule: mix_loop.induct) (subst mix_loop.simps, simp)

lemma mix_loop_blocks:
  assumes "4 * n \<le> length rk" "l < 4"
  shows "mix_loop i n rk ! (4 * m + l) = (if i \<le> m \<and> m < n then inv_mix (rk ! (4 * m + l)) else rk ! (4 * m + l))"
  using assms(1)
proof (induction i n rk rule: mix_loop.induct)
  case (1 i n rk)
  show ?case
  proof (cases "i < n")
    case True
    let ?rk = "rk[4 * i := inv_mix (rk ! (4 * i)), 4 * i + 1 := inv_mix (rk ! (4 * i + 1)),
        4 * i + 2 := inv_mix (rk ! (4 * i + 2)), 4 * i + 3 := inv_mix (rk ! (4 * i + 3))]"
    have ne: "4 * x + j = 4 * y + k \<longleftrightarrow> x = y \<and> j = k" if "j < 4" "k < 4" for x y j k :: nat
      using that by presburger
    have ne0: "4 * x = 4 * y + k \<longleftrightarrow> x = y \<and> 0 = k" "4 * x + k = 4 * y \<longleftrightarrow> x = y \<and> k = 0" if "k < 4" for x y k :: nat
      using that by presburger+
    have lt: "4 * i < length rk" "4 * i + 1 < length rk" "4 * i + 2 < length rk" "4 * i + 3 < length rk" using True 1(2) by linarith+
    have upd: "?rk ! (4 * m + l) = (if m = i then inv_mix (rk ! (4 * m + l)) else rk ! (4 * m + l))"
    proof -
      consider "l = 0" | "l = 1" | "l = 2" | "l = 3" using assms(2) by linarith
      then show ?thesis by cases (auto simp: nth_list_update ne ne0 lt simp del: add_2_eq_Suc' One_nat_def)
    qed
    have "mix_loop i n rk = mix_loop (i + 1) n ?rk" using True by (subst mix_loop.simps) simp
    then show ?thesis using 1(1) [OF True] 1(2) upd True by auto
  next
    case False
    then show ?thesis by (subst mix_loop.simps) auto
  qed
qed


lemma length_expand:
  "k \<le> 9 \<Longrightarrow> length (expand_128 (9 - k) a b c d) = 4 * k + 4"
  "k \<le> 7 \<Longrightarrow> length (expand_192 (7 - k) a b c d e f) = 6 * k + 4"
  "k \<le> 6 \<Longrightarrow> length (expand_256 (6 - k) a b c d e f g h) = 8 * k + 4"
proof -
  show "k \<le> 9 \<Longrightarrow> length (expand_128 (9 - k) a b c d) = 4 * k + 4"
  proof (induction k arbitrary: a b c d)
    case (Suc k)
    then have "9 - k = Suc (8 - k)" "k < 9" by simp_all
    then show ?case using Suc.IH by (subst expand_128.simps) (simp add: Let_def)
  qed (subst expand_128.simps, simp add: Let_def)
  show "k \<le> 7 \<Longrightarrow> length (expand_192 (7 - k) a b c d e f) = 6 * k + 4"
  proof (induction k arbitrary: a b c d e f)
    case (Suc k)
    then have "7 - k = Suc (6 - k)" "k < 7" by simp_all
    then show ?case using Suc.IH by (subst expand_192.simps) (simp add: Let_def)
  qed (subst expand_192.simps, simp add: Let_def)
  show "k \<le> 6 \<Longrightarrow> length (expand_256 (6 - k) a b c d e f g h) = 8 * k + 4"
  proof (induction k arbitrary: a b c d e f g h)
    case (Suc k)
    then have "6 - k = Suc (5 - k)" "k < 6" by simp_all
    then show ?case using Suc.IH by (subst expand_256.simps) (simp add: Let_def)
  qed (subst expand_256.simps, simp add: Let_def)
qed

definition rounds_of :: "int \<Rightarrow> nat" where
  "rounds_of bits = (if bits = 128 then 10 else if bits = 192 then 12 else 14)"

lemma length_key_words: "bits \<in> {128, 192, 256} \<Longrightarrow> length (key_words uk bits) = 4 * (rounds_of bits + 1)"
  using length_expand(1) [of 9] length_expand(2) [of 7] length_expand(3) [of 6]
  by (auto simp: key_words_def Let_def rounds_of_def)

definition expanded :: "bytes \<Rightarrow> int \<Rightarrow> AES_KEY \<Rightarrow> u32 list" where
  "expanded uk bits k = key_words uk bits @ drop (length (key_words uk bits)) (rd_key k)"

lemma set_keys:
  assumes "bits \<in> {128, 192, 256}" "bits \<le> 8 * int (length uk)"
  shows "AES_set_encrypt_key (Some uk) bits k = Some (0, k\<lparr>rounds := rounds_of bits, rd_key := expanded uk bits k\<rparr>)"
    "AES_set_decrypt_key (Some uk) bits k = Some (0, k\<lparr>rounds := rounds_of bits,
       rd_key := mix_loop 1 (rounds_of bits) (swap_loop 0 (4 * rounds_of bits) (expanded uk bits k))\<rparr>)"
  using assms by (auto simp: AES_set_encrypt_key_def AES_set_decrypt_key_def rounds_of_def expanded_def)

text \<open>The round keys of decryption are those of encryption in reverse order, the inner ones mixed.\<close>

lemma decrypt_keys:
  assumes "4 * n + 3 < length rk" "rk' = mix_loop 1 n (swap_loop 0 (4 * n) rk)"
  shows "j < 4 \<Longrightarrow> 0 < n \<Longrightarrow> rk' ! j = rk ! (4 * n + j)" "j < 4 \<Longrightarrow> rk' ! (4 * n + j) = rk ! j"
    "0 < i \<Longrightarrow> i < n \<Longrightarrow> keys_mixed (drop (4 * (n - i)) rk) (drop (4 * i) rk')" "length rk' = length rk"
proof -
  have sw: "swap_loop 0 (4 * n) rk ! (4 * m + j) = (if m \<le> n then rk ! (4 * (n - m) + j) else rk ! (4 * m + j))" if "j < 4" for m j
    using swap_loop_blocks [OF assms(1) that, of 0 m] by simp
  have b: "rk' ! (4 * m + j) = (if 1 \<le> m \<and> m < n then inv_mix (rk ! (4 * (n - m) + j)) else rk ! (4 * (n - m) + j))"
    if "j < 4" "m \<le> n" for m j
    using mix_loop_blocks [of n "swap_loop 0 (4 * n) rk" j 1 m] assms that by (simp add: sw)
  show "j < 4 \<Longrightarrow> 0 < n \<Longrightarrow> rk' ! j = rk ! (4 * n + j)" using b [of j 0] by simp
  show "j < 4 \<Longrightarrow> rk' ! (4 * n + j) = rk ! j" using b [of j n] by simp
  show "length rk' = length rk" using assms(2) by simp
  show "keys_mixed (drop (4 * (n - i)) rk) (drop (4 * i) rk')" if "0 < i" "i < n"
    using b [of _ i] that assms by (simp add: keys_mixed_def)
qed

subsection \<open>Encrypting and decrypting a block\<close>

text \<open>Encryption in terms of the rounds, and decryption of the result.\<close>

lemma decrypts:
  assumes rk: "rd_key ek = rk" "4 * n + 3 < length rk" "rounds ek = n" and n: "even n" "0 < n"
    and rk1: "4 * n + 3 < length rk1" "\<And>i. i < 4 * (n + 1) \<Longrightarrow> rk1 ! i = rk ! i"
    and rk': "rd_key dk = mix_loop 1 n (swap_loop 0 (4 * n) rk1)" "rounds dk = n" and b: "16 \<le> length blk"
  shows "\<exists>c. AES_encrypt blk ek = Some c \<and> length c = 16 \<and> AES_decrypt c dk = Some (take 16 blk)"
proof -
  define rk' where "rk' = rd_key dk"
  note keys1 = decrypt_keys [OF rk1(1), of rk', unfolded rk'_def, OF rk'(1), folded rk'_def]
  have keys: "j < 4 \<Longrightarrow> rk' ! j = rk ! (4 * n + j)" "j < 4 \<Longrightarrow> rk' ! (4 * n + j) = rk ! j"
    "0 < i \<Longrightarrow> i < n \<Longrightarrow> keys_mixed (drop (4 * (n - i)) rk) (drop (4 * i) rk')" "4 * (n + 1) \<le> length rk'" for i j
    using keys1(1) [of j] keys1(2) [of j] keys1(3) [of i] keys1(4) n(2) rk1 rk(2) by (simp_all add: keys_mixed_def)
  define s where "s = in_state blk rk"
  define A where "A = iter_rounds enc_round rk s (n - 1)"
  obtain a0 a1 a2 a3 where A: "A = (a0, a1, a2, a3)" by (cases A)
  obtain s0 s1 s2 s3 where s: "s = (s0, s1, s2, s3)" by (cases s)
  obtain h where h: "n = 2 * h" "0 < h" using n by auto
  define c where "c = PUTU32 (enc_last a0 a1 a2 a3 (rk ! (4 * n))) @ PUTU32 (enc_last a1 a2 a3 a0 (rk ! (4 * n + 1))) @
    PUTU32 (enc_last a2 a3 a0 a1 (rk ! (4 * n + 2))) @ PUTU32 (enc_last a3 a0 a1 a2 (rk ! (4 * n + 3)))"
  have "enc_rounds (n div 2) s rk = Some (A, drop (4 * n) rk)"
    using h enc_rounds_all [of h s rk] by (simp add: A_def)
  then have enc: "AES_encrypt blk ek = Some c"
    using rk b by (simp add: AES_encrypt_def s_def A c_def)
  have put: "length (PUTU32 w) = 4" for w by (simp add: PUTU32_def)
  have drops: "drop 4 (PUTU32 x @ r) = r" "drop 8 (PUTU32 x @ PUTU32 y @ r) = r" "drop 12 (PUTU32 x @ PUTU32 y @ PUTU32 z @ r) = r" for x y z r
    by (simp_all add: put)
  have st: "in_state c rk' = sub_shift A"
  proof -
    have k: "rk' ! 0 = rk ! (4 * n)" "rk' ! 1 = rk ! (4 * n + 1)" "rk' ! 2 = rk ! (4 * n + 2)" "rk' ! 3 = rk ! (4 * n + 3)"
      using keys(1) [of 0] keys(1) [of 1] keys(1) [of 2] keys(1) [of 3] by simp_all
    have "GETU32 (drop 12 c) = enc_last a3 a0 a1 a2 (rk ! (4 * n + 3))"
      using GET_PUT [of _ "[]"] by (simp only: c_def drops append_Nil2)
    then show ?thesis unfolding in_state_def k c_def [symmetric]
      by (simp only: A sub_shift_def prod.case) (simp only: c_def drops GET_PUT enc_last_sr xor.assoc xor_cancel xor.right_neutral)
  qed
  have "dec_rounds (n div 2) (sub_shift A) rk' = Some (sub_shift s, drop (4 * n) rk')"
    using h dec_rounds_all [of h "sub_shift A" rk'] rounds_inverse [of n rk rk' "n - 1" s] keys(3) by (simp add: A_def)
  moreover have "length c = 16" by (simp add: c_def put)
  moreover have last: "rk' ! (4 * n) = rk ! 0" "rk' ! (4 * n + 1) = rk ! 1" "rk' ! (4 * n + 2) = rk ! 2" "rk' ! (4 * n + 3) = rk ! 3"
    using keys(2) [of 0] keys(2) [of 1] keys(2) [of 2] keys(2) [of 3] by simp_all
  moreover have cols: "s0 = GETU32 blk XOR rk ! 0" "s1 = GETU32 (drop 4 blk) XOR rk ! 1" "s2 = GETU32 (drop 8 blk) XOR rk ! 2"
    "s3 = GETU32 (drop 12 blk) XOR rk ! 3"
    using s_def s by (simp_all add: in_state_def)
  moreover have "take 16 blk = take 4 blk @ take 4 (drop 4 blk) @ take 4 (drop 8 blk) @ take 4 (drop 12 blk)"
    using take_add [of 4 12 blk] take_add [of 4 8 "drop 4 blk"] take_add [of 4 4 "drop 8 blk"] by simp
  moreover note keys(4)
  ultimately have "AES_decrypt c dk = Some (take 16 blk)"
    using rk'(2) b st
    by (simp add: AES_decrypt_def rk'_def [symmetric] sub_shift_def s dec_last_sr PUT_GET xor.assoc xor_cancel)
  then show ?thesis using enc \<open>length c = 16\<close> by blast
qed

text \<open>The example of the standard (FIPS 197, C.1): the key words, the states of the rounds and the result.\<close>

definition test_key :: bytes where
  "test_key = [0, 1, 2, 3, 4, 5, 6, 7, 8, 9, 10, 11, 12, 13, 14, 15]"
definition test_block :: bytes where
  "test_block = [0x00, 0x11, 0x22, 0x33, 0x44, 0x55, 0x66, 0x77, 0x88, 0x99, 0xaa, 0xbb, 0xcc, 0xdd, 0xee, 0xff]"

lemma test_expand:
  "expand_128 0 0x00010203 0x04050607 0x08090a0b 0x0c0d0e0f = [0xd6aa74fd, 0xd2af72fa, 0xdaa678f1, 0xd6ab76fe] @ expand_128 1 0xd6aa74fd 0xd2af72fa 0xdaa678f1 0xd6ab76fe"
  "expand_128 1 0xd6aa74fd 0xd2af72fa 0xdaa678f1 0xd6ab76fe = [0xb692cf0b, 0x643dbdf1, 0xbe9bc500, 0x6830b3fe] @ expand_128 2 0xb692cf0b 0x643dbdf1 0xbe9bc500 0x6830b3fe"
  "expand_128 2 0xb692cf0b 0x643dbdf1 0xbe9bc500 0x6830b3fe = [0xb6ff744e, 0xd2c2c9bf, 0x6c590cbf, 0x0469bf41] @ expand_128 3 0xb6ff744e 0xd2c2c9bf 0x6c590cbf 0x0469bf41"
  "expand_128 3 0xb6ff744e 0xd2c2c9bf 0x6c590cbf 0x0469bf41 = [0x47f7f7bc, 0x95353e03, 0xf96c32bc, 0xfd058dfd] @ expand_128 4 0x47f7f7bc 0x95353e03 0xf96c32bc 0xfd058dfd"
  "expand_128 4 0x47f7f7bc 0x95353e03 0xf96c32bc 0xfd058dfd = [0x3caaa3e8, 0xa99f9deb, 0x50f3af57, 0xadf622aa] @ expand_128 5 0x3caaa3e8 0xa99f9deb 0x50f3af57 0xadf622aa"
  "expand_128 5 0x3caaa3e8 0xa99f9deb 0x50f3af57 0xadf622aa = [0x5e390f7d, 0xf7a69296, 0xa7553dc1, 0x0aa31f6b] @ expand_128 6 0x5e390f7d 0xf7a69296 0xa7553dc1 0x0aa31f6b"
  "expand_128 6 0x5e390f7d 0xf7a69296 0xa7553dc1 0x0aa31f6b = [0x14f9701a, 0xe35fe28c, 0x440adf4d, 0x4ea9c026] @ expand_128 7 0x14f9701a 0xe35fe28c 0x440adf4d 0x4ea9c026"
  "expand_128 7 0x14f9701a 0xe35fe28c 0x440adf4d 0x4ea9c026 = [0x47438735, 0xa41c65b9, 0xe016baf4, 0xaebf7ad2] @ expand_128 8 0x47438735 0xa41c65b9 0xe016baf4 0xaebf7ad2"
  "expand_128 8 0x47438735 0xa41c65b9 0xe016baf4 0xaebf7ad2 = [0x549932d1, 0xf0855768, 0x1093ed9c, 0xbe2c974e] @ expand_128 9 0x549932d1 0xf0855768 0x1093ed9c 0xbe2c974e"
  "expand_128 9 0x549932d1 0xf0855768 0x1093ed9c 0xbe2c974e = [0x13111d7f, 0xe3944a17, 0xf307a78b, 0x4d2b30c5]"
  by (subst expand_128.simps, simp add: sub_rot_def look_def Te0_def Te1_def Te2_def Te3_def rcon_def)+

definition test_words :: "u32 list" where
  "test_words = [
    0x00010203, 0x04050607, 0x08090a0b, 0x0c0d0e0f,
    0xd6aa74fd, 0xd2af72fa, 0xdaa678f1, 0xd6ab76fe,
    0xb692cf0b, 0x643dbdf1, 0xbe9bc500, 0x6830b3fe,
    0xb6ff744e, 0xd2c2c9bf, 0x6c590cbf, 0x0469bf41,
    0x47f7f7bc, 0x95353e03, 0xf96c32bc, 0xfd058dfd,
    0x3caaa3e8, 0xa99f9deb, 0x50f3af57, 0xadf622aa,
    0x5e390f7d, 0xf7a69296, 0xa7553dc1, 0x0aa31f6b,
    0x14f9701a, 0xe35fe28c, 0x440adf4d, 0x4ea9c026,
    0x47438735, 0xa41c65b9, 0xe016baf4, 0xaebf7ad2,
    0x549932d1, 0xf0855768, 0x1093ed9c, 0xbe2c974e,
    0x13111d7f, 0xe3944a17, 0xf307a78b, 0x4d2b30c5]"

lemma test_key_words: "key_words test_key 128 = test_words"
  by (simp add: key_words_def Let_def GETU32_def test_key_def test_expand test_expand(2) [unfolded One_nat_def] test_words_def)

lemma test_rounds:
  "enc_round (0x00102030, 0x40506070, 0x8090a0b0, 0xc0d0e0f0) (drop 4 test_words) = (0x89d810e8, 0x855ace68, 0x2d1843d8, 0xcb128fe4)"
  "enc_round (0x89d810e8, 0x855ace68, 0x2d1843d8, 0xcb128fe4) (drop 8 test_words) = (0x4915598f, 0x55e5d7a0, 0xdaca94fa, 0x1f0a63f7)"
  "enc_round (0x4915598f, 0x55e5d7a0, 0xdaca94fa, 0x1f0a63f7) (drop 12 test_words) = (0xfa636a28, 0x25b339c9, 0x40668a31, 0x57244d17)"
  "enc_round (0xfa636a28, 0x25b339c9, 0x40668a31, 0x57244d17) (drop 16 test_words) = (0x24724023, 0x6966b3fa, 0x6ed27532, 0x88425b6c)"
  "enc_round (0x24724023, 0x6966b3fa, 0x6ed27532, 0x88425b6c) (drop 20 test_words) = (0xc81677bc, 0x9b7ac93b, 0x25027992, 0xb0261996)"
  "enc_round (0xc81677bc, 0x9b7ac93b, 0x25027992, 0xb0261996) (drop 24 test_words) = (0xc62fe109, 0xf75eedc3, 0xcc79395d, 0x84f9cf5d)"
  "enc_round (0xc62fe109, 0xf75eedc3, 0xcc79395d, 0x84f9cf5d) (drop 28 test_words) = (0xd1876c0f, 0x79c4300a, 0xb45594ad, 0xd66ff41f)"
  "enc_round (0xd1876c0f, 0x79c4300a, 0xb45594ad, 0xd66ff41f) (drop 32 test_words) = (0xfde3bad2, 0x05e5d0d7, 0x3547964e, 0xf1fe37f1)"
  "enc_round (0xfde3bad2, 0x05e5d0d7, 0x3547964e, 0xf1fe37f1) (drop 36 test_words) = (0xbd6e7c3d, 0xf2b5779e, 0x0b61216e, 0x8b10b689)"
  by (simp add: test_words_def enc_round_def enc_col_def look_def Te0_def Te1_def Te2_def Te3_def)+

lemma test_vector: "AES_encrypt test_block \<lparr>rd_key = test_words, rounds = 10\<rparr> =
    Some [0x69, 0xc4, 0xe0, 0xd8, 0x6a, 0x7b, 0x04, 0x30, 0xd8, 0xcd, 0xb7, 0x80, 0x70, 0xb4, 0xc5, 0x5a]"
proof -
  have i: "in_state test_block test_words = (0x00102030, 0x40506070, 0x8090a0b0, 0xc0d0e0f0)"
    by (simp add: in_state_def test_block_def GETU32_def test_words_def)
  have r: "iter_rounds f rk s (numeral v) = f (iter_rounds f rk s (pred_numeral v)) (drop (4 * numeral v) rk)" for f rk s v
    by (simp add: numeral_eq_Suc)
  have e: "enc_rounds 5 (0x00102030, 0x40506070, 0x8090a0b0, 0xc0d0e0f0) test_words = Some ((0xbd6e7c3d, 0xf2b5779e, 0x0b61216e, 0x8b10b689), drop 40 test_words)"
    by (simp add: enc_rounds_all r test_rounds)
  show ?thesis
    by (simp add: AES_encrypt_def i e) (simp add: test_words_def test_block_def enc_last_def look_def PUTU32_def Te0_def Te1_def Te2_def Te3_def)
qed

lemma block_roundtrip:
  assumes bits: "bits \<in> {128, 192, 256}" "bits \<le> 8 * int (length userKey)" and blk: "16 \<le> length blk"
  shows "\<exists>ek dk c. AES_set_encrypt_key (Some userKey) bits k0 = Some (0, ek) \<and>
    AES_set_decrypt_key (Some userKey) bits k1 = Some (0, dk) \<and>
    AES_encrypt blk ek = Some c \<and> length c = 16 \<and> AES_decrypt c dk = Some (take 16 blk)"
proof -
  let ?n = "rounds_of bits" and ?rk = "expanded userKey bits"
  note len = length_key_words [OF bits(1), of userKey]
  have "even ?n" "0 < ?n" by (simp_all add: rounds_of_def)
  moreover have "4 * ?n + 3 < length (?rk k)" for k using len by (simp add: expanded_def)
  moreover have "?rk k1 ! i = ?rk k0 ! i" if "i < 4 * (?n + 1)" for i using that len by (simp add: expanded_def nth_append)
  ultimately obtain c where "AES_encrypt blk (k0\<lparr>rounds := ?n, rd_key := ?rk k0\<rparr>) = Some c" "length c = 16"
    "AES_decrypt c (k1\<lparr>rounds := ?n, rd_key := mix_loop 1 ?n (swap_loop 0 (4 * ?n) (?rk k1))\<rparr>) = Some (take 16 blk)"
    using decrypts [of "k0\<lparr>rounds := ?n, rd_key := ?rk k0\<rparr>" "?rk k0" ?n "?rk k1" "k1\<lparr>rounds := ?n, rd_key := mix_loop 1 ?n (swap_loop 0 (4 * ?n) (?rk k1))\<rparr>" blk] blk
    by auto
  then show ?thesis using set_keys [OF bits] by blast
qed

subsection \<open>Properties\<close>

text \<open>
  C33: a key of 128, 192 or 256 bits is accepted by both key set-ups, every block is encrypted to a
  block, and decryption with the second schedule gives back the block; no read leaves a key array.
\<close>

theorem AES_decrypt_encrypt:
  assumes bits: "bits \<in> {128, 192, 256}" "bits \<le> 8 * int (length userKey)" and blk: "16 \<le> length blk"
  shows "\<exists>ek dk c. AES_set_encrypt_key (Some userKey) bits k0 = Some (0, ek) \<and>
    AES_set_decrypt_key (Some userKey) bits k1 = Some (0, dk) \<and>
    AES_encrypt blk ek = Some c \<and> length c = 16 \<and> AES_decrypt c dk = Some (take 16 blk)"
  using assms by (rule block_roundtrip)

lemma AES_decrypt_encrypt_witness:
  "\<exists>ek dk. AES_set_encrypt_key (Some test_key) 128 \<lparr>rd_key = [], rounds = 0\<rparr> = Some (0, ek) \<and>
    AES_set_decrypt_key (Some test_key) 128 \<lparr>rd_key = [], rounds = 0\<rparr> = Some (0, dk) \<and>
    AES_encrypt test_block ek = Some [0x69, 0xc4, 0xe0, 0xd8, 0x6a, 0x7b, 0x04, 0x30, 0xd8, 0xcd, 0xb7, 0x80, 0x70, 0xb4, 0xc5, 0x5a] \<and>
    AES_decrypt [0x69, 0xc4, 0xe0, 0xd8, 0x6a, 0x7b, 0x04, 0x30, 0xd8, 0xcd, 0xb7, 0x80, 0x70, 0xb4, 0xc5, 0x5a] dk = Some test_block"
proof -
  have len: "length test_key = 16" "length test_block = 16" by (simp_all add: test_key_def test_block_def)
  have "AES_set_encrypt_key (Some test_key) 128 \<lparr>rd_key = [], rounds = 0\<rparr> = Some (0, \<lparr>rd_key = test_words, rounds = 10\<rparr>)"
    using set_keys(1) [of 128 test_key] len by (simp add: expanded_def rounds_of_def test_key_words)
  then show ?thesis
    using AES_decrypt_encrypt [of 128 test_key test_block "\<lparr>rd_key = [], rounds = 0\<rparr>" "\<lparr>rd_key = [], rounds = 0\<rparr>"] len test_vector
    by auto
qed

end
