(* ===== verification/Base64.thy ===== *)
theory Base64
  imports Str_Util
begin

text \<open>
  \<open>base/Base64.cpp\<close> (the same file as \<open>security/base64.cpp\<close>): the encoder and the decoder collect bits in a 32 bit
  accumulator, whose older bits are shifted out. Decoding what was encoded gives back the bytes.
\<close>

definition b64_table :: bytes where
  "b64_table = [65, 66, 67, 68, 69, 70, 71, 72, 73, 74, 75, 76, 77, 78, 79, 80, 81, 82, 83, 84, 85, 86, 87, 88, 89,
     90, 97, 98, 99, 100, 101, 102, 103, 104, 105, 106, 107, 108, 109, 110, 111, 112, 113, 114, 115, 116,
     117, 118, 119, 120, 121, 122, 48, 49, 50, 51, 52, 53, 54, 55, 56, 57, 43, 47]"

definition reverse_table :: bytes where
  "reverse_table = [64, 64, 64, 64, 64, 64, 64, 64, 64, 64, 64, 64, 64, 64, 64, 64, 64, 64, 64, 64, 64, 64, 64, 64, 64,
     64, 64, 64, 64, 64, 64, 64, 64, 64, 64, 64, 64, 64, 64, 64, 64, 64, 64, 62, 64, 64, 64, 63, 52, 53,
     54, 55, 56, 57, 58, 59, 60, 61, 64, 64, 64, 64, 64, 64, 64, 0, 1, 2, 3, 4, 5, 6, 7, 8, 9, 10, 11,
     12, 13, 14, 15, 16, 17, 18, 19, 20, 21, 22, 23, 24, 25, 64, 64, 64, 64, 64, 64, 26, 27, 28, 29, 30,
     31, 32, 33, 34, 35, 36, 37, 38, 39, 40, 41, 42, 43, 44, 45, 46, 47, 48, 49, 50, 51, 64, 64, 64, 64,
     64]"

text \<open>The loops of \<open>base64_encode\<close>: the sextets that are complete, and the bits left.\<close>

fun enc_while :: "u32 \<Rightarrow> nat \<Rightarrow> bytes \<times> nat" where
  "enc_while accumulator bits_collected =
     (if bits_collected \<ge> 6 then
        (let (cs, n) = enc_while accumulator (bits_collected - 6)
         in (b64_table ! unat (drop_bit (bits_collected - 6) accumulator AND 0x3F) # cs, n))
      else ([], bits_collected))"

declare enc_while.simps [simp del]

fun enc_loop :: "u32 \<Rightarrow> nat \<Rightarrow> bytes \<Rightarrow> bytes" where
  "enc_loop accumulator bits_collected [] =
     (if bits_collected > 0 then [b64_table ! unat (push_bit (6 - bits_collected) accumulator AND 0x3F)] else [])"
| "enc_loop accumulator bits_collected (i # is) =
     (let accumulator = push_bit 8 accumulator OR (ucast i AND 0xFF);
          (cs, bits_collected) = enc_while accumulator (bits_collected + 8)
      in cs @ enc_loop accumulator bits_collected is)"

definition base64_encode :: "bytes \<Rightarrow> bytes" where
  "base64_encode bindata =
     (if length bindata > ((2 ^ 64 - 1) div 4) * 3 then []
      else (let out = enc_loop 0 0 bindata; retval = replicate ((length bindata + 2) div 3 * 4) 61
            in out @ drop (length out) retval))"

text \<open>The loop of \<open>base64_decode\<close>; \<open>None\<close>: \<open>return ""\<close>. A \<open>char\<close> is signed, so a byte from 128 is negative.\<close>

fun dec_loop :: "u32 \<Rightarrow> nat \<Rightarrow> bytes \<Rightarrow> bytes option" where
  "dec_loop accumulator bits_collected [] = Some []"
| "dec_loop accumulator bits_collected (c # is) =
     (if is_space c \<or> c = 61 then dec_loop accumulator bits_collected is
      else if c > 127 \<or> reverse_table ! unat c > 63 then None
      else
        (let accumulator = push_bit 6 accumulator OR ucast (reverse_table ! unat c); bits_collected = bits_collected + 6
         in if bits_collected \<ge> 8
            then map_option (\<lambda>r. ucast (drop_bit (bits_collected - 8) accumulator AND 0xFF) # r)
                   (dec_loop accumulator (bits_collected - 8) is)
            else dec_loop accumulator bits_collected is))"

definition base64_decode :: "bytes \<Rightarrow> bytes" where
  "base64_decode ascdata = (case dec_loop 0 0 ascdata of None \<Rightarrow> [] | Some retval \<Rightarrow> retval)"

subsection \<open>The tables\<close>

lemma tables_inverse:
  "v < 64 \<Longrightarrow> (let c = b64_table ! v in \<not> is_space c \<and> c \<noteq> 61 \<and> c \<le> 127 \<and> reverse_table ! unat c = of_nat v)"
proof -
  have "\<forall>v \<in> set [0..<64]. (let c = b64_table ! v in \<not> is_space c \<and> c \<noteq> 61 \<and> c \<le> 127 \<and> reverse_table ! unat c = of_nat v)"
    by (simp add: upt_rec b64_table_def reverse_table_def is_space_def Let_def)
  then show "v < 64 \<Longrightarrow> ?thesis" by simp
qed

subsection \<open>Decoding what was encoded\<close>

lemma low6: "unat (w AND 0x3F :: u32) < 64"
proof -
  have "w AND 0x3F = take_bit 6 w" by (simp add: take_bit_eq_mask mask_numeral)
  then have "unat (w AND 0x3F) = take_bit 6 (unat w)" by (simp add: unsigned_take_bit_eq)
  then show ?thesis by (simp add: take_bit_eq_mod)
qed

lemma dec_sextet:
  "dec_loop d n (b64_table ! unat (w AND 0x3F) # is) =
    (let d = push_bit 6 d OR (w AND 0x3F); n = n + 6
     in if n \<ge> 8 then map_option (\<lambda>r. ucast (drop_bit (n - 8) d AND 0xFF) # r) (dec_loop d (n - 8) is)
        else dec_loop d n is)"
proof -
  let ?v = "unat (w AND 0x3F)" let ?c = "b64_table ! ?v"
  note t = tables_inverse [OF low6 [of w], unfolded Let_def]
  have up: "unat (ucast y :: u32) = unat y" for y :: u8
  proof -
    have "unat y < 256" using unsigned_less [of y] by simp
    then show ?thesis by (simp add: unsigned_ucast_eq take_bit_nat_eq_self)
  qed
  have u8: "unat (of_nat n :: u8) = n" if "n < 64" for n using that by (simp add: unat_of_nat take_bit_nat_eq_self)
  have r: "unat (reverse_table ! unat ?c) = ?v" using t by (simp only: u8 [OF low6])
  have u: "ucast (reverse_table ! unat ?c) = (w AND 0x3F)" by (simp only: word_unat_eq_iff up r)
  have "\<not> reverse_table ! unat ?c > 63" using r low6 [of w] by (simp add: word_less_nat_alt)
  moreover have "\<not> ?c > 127" using t by (simp add: not_less)
  ultimately have c3: "\<not> (?c > 127 \<or> reverse_table ! unat ?c > 63)" by blast
  have c1: "\<not> is_space ?c" "?c \<noteq> 61" using t by blast+
  show ?thesis by (simp only: dec_loop.simps c1 c3 u if_False simp_thms)
qed

lemma sext_masks: "(0x3F :: u32) = mask 6" "(0xFF :: u32) = mask 8" by (simp_all add: mask_numeral)

text \<open>Three bytes give four sextets, and four sextets give them back, whatever bits the accumulators hold.\<close>

lemma enc3:
  "enc_loop acc 0 (a # b # c # is) =
   (let x = push_bit 8 acc OR (ucast a AND 0xFF); y = push_bit 8 x OR (ucast b AND 0xFF); z = push_bit 8 y OR (ucast c AND 0xFF)
    in [b64_table ! unat (drop_bit 2 x AND 0x3F), b64_table ! unat (drop_bit 4 y AND 0x3F),
        b64_table ! unat (drop_bit 6 z AND 0x3F), b64_table ! unat (drop_bit 0 z AND 0x3F)] @ enc_loop z 0 is)"
  by (simp add: Let_def enc_while.simps [of _ 8] enc_while.simps [of _ 2] enc_while.simps [of _ 10] enc_while.simps [of _ 4] enc_while.simps [of _ 12]
     enc_while.simps [of _ 6]  enc_while.simps [of _ 0])

lemma less8: "(n::nat) < 8 \<Longrightarrow> n = 0 \<or> n = 1 \<or> n = 2 \<or> n = 3 \<or> n = 4 \<or> n = 5 \<or> n = 6 \<or> n = 7"
  by presburger

lemma bits_back:
  fixes a b c :: u8 and acc d :: u32
  defines "x \<equiv> push_bit 8 acc OR (ucast a AND 0xFF)"
  defines "y \<equiv> push_bit 8 x OR (ucast b AND 0xFF)" 
  defines "z \<equiv> push_bit 8 y OR (ucast c AND 0xFF)"
  shows "ucast (drop_bit 4 (push_bit 6 (push_bit 6 d OR (drop_bit 2 x AND 0x3F)) OR (drop_bit 4 y AND 0x3F)) AND 0xFF) = a"
   "ucast (drop_bit 2 (push_bit 6 (push_bit 6 e OR (drop_bit 4 y AND 0x3F)) OR (drop_bit 6 z AND 0x3F)) AND 0xFF) = b"
   "ucast ((push_bit 6 (push_bit 6 e OR (drop_bit 6 z AND 0x3F)) OR (drop_bit 0 z AND 0x3F)) AND 0xFF) = c"
   "ucast (drop_bit 4 (push_bit 6 (push_bit 6 d OR (drop_bit 2 x AND 0x3F)) OR (push_bit 4 x AND 0x3F)) AND 0xFF) = a"
   "ucast (drop_bit 2 (push_bit 6 (push_bit 6 e OR (drop_bit 4 y AND 0x3F)) OR (push_bit 2 y AND 0x3F)) AND 0xFF) = b"
  unfolding x_def y_def z_def sext_masks
      by (rule bit_word_eqI; simp; drule less8; elim disjE; simp add: bit_simps)+

lemma enc_tails:
  "enc_loop acc 0 [a] = (let x = push_bit 8 acc OR (ucast a AND 0xFF)
     in [b64_table ! unat (drop_bit 2 x AND 0x3F), b64_table ! unat (push_bit 4 x AND 0x3F)])"
  "enc_loop acc 0 [a, b] = (let x = push_bit 8 acc OR (ucast a AND 0xFF); y = push_bit 8 x OR (ucast b AND 0xFF)
     in [b64_table ! unat (drop_bit 2 x AND 0x3F), b64_table ! unat (drop_bit 4 y AND 0x3F), b64_table ! unat (push_bit 2 y AND 0x3F)])"
  by (simp_all add: Let_def enc_while.simps [of _ 8] enc_while.simps [of _ 2] enc_while.simps [of _ 10] enc_while.simps [of _ 4])

lemma dec_steps:
  "dec_loop d 0 (b64_table ! unat (w AND 0x3F) # is) = dec_loop (push_bit 6 d OR (w AND 0x3F)) 6 is"
  "dec_loop d 6 (b64_table ! unat (w AND 0x3F) # is) =
     map_option (\<lambda>r. ucast (drop_bit 4 (push_bit 6 d OR (w AND 0x3F)) AND 0xFF) # r) (dec_loop (push_bit 6 d OR (w AND 0x3F)) 4 is)"
  "dec_loop d 4 (b64_table ! unat (w AND 0x3F) # is) =
     map_option (\<lambda>r. ucast (drop_bit 2 (push_bit 6 d OR (w AND 0x3F)) AND 0xFF) # r) (dec_loop (push_bit 6 d OR (w AND 0x3F)) 2 is)"
  "dec_loop d 2 (b64_table ! unat (w AND 0x3F) # is) =
     map_option (\<lambda>r. ucast ((push_bit 6 d OR (w AND 0x3F)) AND 0xFF) # r) (dec_loop (push_bit 6 d OR (w AND 0x3F)) 0 is)"
  by (simp_all add: dec_sextet Let_def del: dec_loop.simps push_bit_or drop_bit_or drop_bit_and push_bit_and)

lemma dec_padding: "dec_loop d n (replicate k 61) = Some []"
  by (induction k) auto

fun blocks3 :: "bytes \<Rightarrow> bool" where
  "blocks3 (a # b # c # is) = blocks3 is"
| "blocks3 _ = True"

lemma dec_enc: "dec_loop d 0 (enc_loop acc 0 s @ replicate k 61) = Some s"
proof (induction s arbitrary: acc d rule: blocks3.induct)
  case (1 a b c "is")
  show ?case by (simp only: enc3 Let_def append.simps dec_steps bits_back 1 option.map)
qed (simp add: dec_padding, (simp only: enc_tails Let_def append.simps dec_steps bits_back dec_padding option.map)+)

lemma length_enc_loop: "length (enc_loop acc 0 s) = (4 * length s + 2) div 3"
proof (induction s arbitrary: acc rule: blocks3.induct)
  case (1 a b c "is")
  show ?case by (simp add: enc3 Let_def 1 del: enc_loop.simps)
qed (simp_all add: enc_tails Let_def del: enc_loop.simps(2))

lemma base64_encode_eq:
  assumes "length s \<le> (2 ^ 64 - 1) div 4 * 3"
  shows "base64_encode s = enc_loop 0 0 s @ replicate ((length s + 2) div 3 * 4 - (4 * length s + 2) div 3) 61"
  using assms by (simp add: base64_encode_def Let_def length_enc_loop)

lemma length_base64_encode:
  assumes "length s \<le> (2 ^ 64 - 1) div 4 * 3"
  shows "length (base64_encode s) = (length s + 2) div 3 * 4"
  using assms by (simp add: base64_encode_eq length_enc_loop)

lemma base64_roundtrip:
  assumes "length s \<le> (2 ^ 64 - 1) div 4 * 3"
  shows "base64_decode (base64_encode s) = s"
  by (simp add: base64_decode_def base64_encode_eq [OF assms] dec_enc)

lemma length_dec_loop: "dec_loop d n s = Some r \<Longrightarrow> n < 8 \<Longrightarrow> 8 * length r \<le> n + 6 * length s"
proof (induction d n s arbitrary: r rule: dec_loop.induct)
  case (2 d n c "is")
  have "n - 2 < 8" using 2(5) by simp
  with 2(4,5) show ?case
    using 2(1) [of r] 2(2) [OF _ _ refl refl, of "tl r"] 2(3) [OF _ _ refl refl, of r]
    by (auto simp: Let_def split: if_splits)
qed simp

end
