(* ===== verification/Enc_Dec.thy ===== *)
theory Enc_Dec
  imports Aes_Inverse Base64 Byte_Buffer "HOL-Library.Monad_Syntax"
begin

text \<open>
  Encrypted messages: \<open>CAes\<close> of \<open>base/EncDec.cpp\<close>, and \<open>EncryptMsg\<close>, \<open>DecryptMsg\<close> of \<open>security/security.cpp\<close>, which
  have the same code with a fixed key. A message is padded with zeros to whole blocks, the last four
  bytes hold its length, every block is encrypted by itself and the result is written in base 64.

  The AES of \<open>CAes\<close> is that of OpenSSL (\<open>openssl/aes.h\<close>, linked as \<open>crypto\<close>), which is not part of the repository: it is
  a parameter \<open>lib\<close>, and what the code relies on is the locale \<open>aes_api\<close>. The AES of \<open>security.cpp\<close> is
  \<open>security/aes_core.cpp\<close> (theory \<open>Aes\<close>), for which the locale is interpreted.

  The bytes of fresh memory are arguments (\<open>k0\<close>, \<open>k1\<close>, \<open>junk\<close>). Results: \<open>Inl\<close> the error code, \<open>Inr\<close> the output buffer and
  the length in \<open>nOutLen\<close>; \<open>None\<close> is an access outside of an object.
\<close>

record 'k aes_lib =
  lib_set_encrypt_key :: "bytes option \<Rightarrow> int \<Rightarrow> 'k \<Rightarrow> (int \<times> 'k) option"
  lib_set_decrypt_key :: "bytes option \<Rightarrow> int \<Rightarrow> 'k \<Rightarrow> (int \<times> 'k) option"
  lib_encrypt :: "bytes \<Rightarrow> 'k \<Rightarrow> bytes option"
  lib_decrypt :: "bytes \<Rightarrow> 'k \<Rightarrow> bytes option"

record 'k CAes =
  m_cEncKey :: 'k
  m_cDecKey :: 'k

text \<open>\<open>c_str()\<close> of the key ends with a null byte.\<close>

definition new_CAes :: "'k aes_lib \<Rightarrow> 'k \<Rightarrow> 'k \<Rightarrow> bytes \<Rightarrow> 'k CAes option" where
  "new_CAes lib k0 k1 strKey = do {
     (_, ek) \<leftarrow> lib_set_encrypt_key lib (Some (strKey @ [0])) 256 k0;
     (_, dk) \<leftarrow> lib_set_decrypt_key lib (Some (strKey @ [0])) 256 k1;
     Some \<lparr>m_cEncKey = ek, m_cDecKey = dk\<rparr>}"

text \<open>Reading and writing bytes of an object in memory.\<close>

definition load :: "nat \<Rightarrow> nat \<Rightarrow> bytes \<Rightarrow> bytes option" where
  "load n k mem = (if n + k \<le> length mem then Some (take k (drop n mem)) else None)"

definition store :: "nat \<Rightarrow> bytes \<Rightarrow> bytes \<Rightarrow> bytes option" where
  "store n bs mem = (if n + length bs \<le> length mem then Some (take n mem @ bs @ drop (n + length bs) mem) else None)"

text \<open>The loop over the blocks; \<open>data\<close> is the pointer \<open>pData + i * 16\<close>.\<close>

fun crypt_blocks :: "(bytes \<Rightarrow> bytes option) \<Rightarrow> nat \<Rightarrow> bytes \<Rightarrow> bytes option" where
  "crypt_blocks f 0 data = Some []"
| "crypt_blocks f (Suc n) data = do {
     c \<leftarrow> f data;
     r \<leftarrow> crypt_blocks f n (drop 16 data);
     Some (c @ r)}"

definition block_count :: "u32 \<Rightarrow> u32" where
  "block_count nInLen =
     (let nRemain = nInLen mod 16; nBlocks = (nInLen + 15) div 16
      in if nRemain > 12 \<or> nRemain = 0 then nBlocks + 1 else nBlocks)"

definition encrypt_with :: "(bytes \<Rightarrow> bytes option) \<Rightarrow> bytes option \<Rightarrow> u32 \<Rightarrow> (int + bytes \<times> u32) option" where
  "encrypt_with enc pInData nInLen =
     (case pInData of None \<Rightarrow> Some (Inl (-1))
      | Some p \<Rightarrow>
          if nInLen \<le> 0 then Some (Inl (-1))
          else
            (let nBlocks = block_count nInLen; nEncryptLen = nBlocks * 16; pData = replicate (unat nEncryptLen) 0
             in if length p < unat nInLen \<or> unat nEncryptLen < unat nInLen \<or> nEncryptLen < 4 then None
                else do {
                  let pData = take (unat nInLen) p @ drop (unat nInLen) pData;
                  let pData = write_at (unat (nEncryptLen - 4)) (\<lambda>b. WriteUint32 b nInLen) pData;
                  strEnc \<leftarrow> crypt_blocks enc (unat nBlocks) pData;
                  let strDec = base64_encode strEnc;
                  let nOutLen = (of_nat (length strDec) :: u32);
                  if nOutLen + 1 < nOutLen then None
                  else Some (Inr (take (unat nOutLen) strDec @ [0], nOutLen))}))"

text \<open>The output buffer of \<open>nLen + 1\<close> bytes takes the blocks, is asked for the length in its tail, and is ended with a null byte.\<close>

definition decrypt_with :: "(bytes \<Rightarrow> bytes option) \<Rightarrow> (nat \<Rightarrow> u8) \<Rightarrow> bytes option \<Rightarrow> u32 \<Rightarrow> (int + bytes \<times> u32) option" where
  "decrypt_with dec junk pInData nInLen =
     (case pInData of None \<Rightarrow> Some (Inl (-1))
      | Some p \<Rightarrow>
          if nInLen \<le> 0 then Some (Inl (-1))
          else do {
            strInData \<leftarrow> load 0 (unat nInLen) p;
            let strResult = base64_decode strInData;
            let nLen = (of_nat (length strResult) :: u32);
            if nLen = 0 then Some (Inl (-2))
            else if nLen mod 16 \<noteq> 0 then Some (Inl (-3))
            else do {
              let pTmp = map junk [0..<unat (nLen + 1)];
              blocks \<leftarrow> crypt_blocks dec (unat (nLen div 16)) strResult;
              pTmp \<leftarrow> store 0 blocks pTmp;
              tail \<leftarrow> (if nLen < 4 then None else load (unat (nLen - 4)) 4 pTmp);
              let nOutLen = ReadUint32 tail;
              if nOutLen > nLen then Some (Inl (-4))
              else do {
                pTmp \<leftarrow> store (unat nOutLen) [0] pTmp;
                Some (Inr (pTmp, nOutLen))}}})"

definition CAes_Encrypt :: "'k aes_lib \<Rightarrow> 'k CAes \<Rightarrow> bytes option \<Rightarrow> u32 \<Rightarrow> (int + bytes \<times> u32) option" where
  "CAes_Encrypt lib this = encrypt_with (\<lambda>b. lib_encrypt lib b (m_cEncKey this))"

definition CAes_Decrypt :: "'k aes_lib \<Rightarrow> (nat \<Rightarrow> u8) \<Rightarrow> 'k CAes \<Rightarrow> bytes option \<Rightarrow> u32 \<Rightarrow> (int + bytes \<times> u32) option" where
  "CAes_Decrypt lib junk this = decrypt_with (\<lambda>b. lib_decrypt lib b (m_cDecKey this)) junk"

text \<open>\<open>security.cpp\<close>: the key is part of the program.\<close>

definition msg_key :: bytes where
  "msg_key = [49, 50, 51, 52, 53, 54, 55, 56, 57, 48, 49, 50, 51, 52, 53, 54, 55, 56, 57, 48, 49, 50, 51, 52, 53, 54, 55, 56,
     57, 48, 49, 50]"

definition EncryptMsg :: "AES_KEY \<Rightarrow> bytes option \<Rightarrow> u32 \<Rightarrow> (int + bytes \<times> u32) option" where
  "EncryptMsg k0 pInData nInLen = do {
     (_, aesKey) \<leftarrow> AES_set_encrypt_key (Some (msg_key @ [0])) 256 k0;
     encrypt_with (\<lambda>b. AES_encrypt b aesKey) pInData nInLen}"

definition DecryptMsg :: "AES_KEY \<Rightarrow> (nat \<Rightarrow> u8) \<Rightarrow> bytes option \<Rightarrow> u32 \<Rightarrow> (int + bytes \<times> u32) option" where
  "DecryptMsg k0 junk pInData nInLen = do {
     (_, aesKey) \<leftarrow> AES_set_decrypt_key (Some (msg_key @ [0])) 256 k0;
     decrypt_with (\<lambda>b. AES_decrypt b aesKey) junk pInData nInLen}"

subsection \<open>Blocks\<close>

lemma crypt_blocks_total:
  assumes "\<And>b. 16 \<le> length b \<Longrightarrow> \<exists>c. f b = Some c \<and> length c = 16" and "16 * n \<le> length d"
  shows "\<exists>c. crypt_blocks f n d = Some c \<and> length c = 16 * n"
  using assms(2)
proof (induction n arbitrary: d)
  case (Suc n)
  obtain c where c: "f d = Some c" "length c = 16" using assms(1) [of d] Suc.prems by auto
  have "16 * n \<le> length (drop 16 d)" using Suc.prems by simp
  then obtain r where "crypt_blocks f n (drop 16 d) = Some r" "length r = 16 * n" using Suc.IH by blast
  with c show ?case by simp
qed simp

lemma crypt_blocks_inverse:
  assumes inv: "\<And>b. 16 \<le> length b \<Longrightarrow> \<exists>c. f b = Some c \<and> length c = 16 \<and> g c = Some (take 16 b)"
    and local: "\<And>c r. length c = 16 \<Longrightarrow> g (c @ r) = g c" and d: "length d = 16 * n"
  shows "\<exists>c. crypt_blocks f n d = Some c \<and> length c = 16 * n \<and> crypt_blocks g n c = Some d"
  using d
proof (induction n arbitrary: d)
  case (Suc n)
  obtain c where c: "f d = Some c" "length c = 16" "g c = Some (take 16 d)" using inv [of d] Suc.prems by auto
  obtain r where r: "crypt_blocks f n (drop 16 d) = Some r" "length r = 16 * n" "crypt_blocks g n r = Some (drop 16 d)"
    using Suc.IH [of "drop 16 d"] Suc.prems by auto
  then show ?case using c local [of c r] by simp
qed simp

text \<open>A pair of block functions of which the second takes back the first, on 16 bytes wherever they stand.\<close>

definition decrypts_blocks :: "(bytes \<Rightarrow> bytes option) \<Rightarrow> bool" where
  "decrypts_blocks dec \<longleftrightarrow> (\<forall>b. 16 \<le> length b \<longrightarrow> (\<exists>c. dec b = Some c \<and> length c = 16))"

definition block_pair :: "(bytes \<Rightarrow> bytes option) \<Rightarrow> (bytes \<Rightarrow> bytes option) \<Rightarrow> bool" where
  "block_pair enc dec \<longleftrightarrow>
     (\<forall>b. 16 \<le> length b \<longrightarrow> (\<exists>c. enc b = Some c \<and> length c = 16 \<and> dec c = Some (take 16 b))) \<and>
     (\<forall>b. 16 \<le> length b \<longrightarrow> (\<exists>c. dec b = Some c \<and> length c = 16)) \<and>
     (\<forall>c r. length c = 16 \<longrightarrow> dec (c @ r) = dec c)"

lemma block_pair_decrypts: "block_pair enc dec \<Longrightarrow> decrypts_blocks dec"
  by (simp add: block_pair_def decrypts_blocks_def)

text \<open>
  What an AES library promises: keys of 32 bytes are accepted with 256 bits, a block of 16 bytes is encrypted to 16 bytes,
  which decryption with the key made from the same bytes turns back, and decryption takes any 16 bytes.
\<close>

locale aes_api =
  fixes lib :: "'k aes_lib"
  assumes set_keys_256: "32 \<le> length uk \<Longrightarrow> \<exists>ek dk.
      lib_set_encrypt_key lib (Some uk) 256 k0 = Some (0, ek) \<and> lib_set_decrypt_key lib (Some uk) 256 k1 = Some (0, dk) \<and>
      (\<forall>b. 16 \<le> length b \<longrightarrow> (\<exists>c. lib_encrypt lib b ek = Some c \<and> length c = 16 \<and> lib_decrypt lib c dk = Some (take 16 b))) \<and>
      (\<forall>b. 16 \<le> length b \<longrightarrow> (\<exists>c. lib_decrypt lib b dk = Some c \<and> length c = 16))"
    and decrypt_first_16: "length c = 16 \<Longrightarrow> lib_decrypt lib (c @ r) dk = lib_decrypt lib c dk"
begin

lemma key_pairs:
  assumes "32 \<le> length uk"
  shows "\<exists>ek dk. lib_set_encrypt_key lib (Some uk) 256 k0 = Some (0, ek) \<and> lib_set_decrypt_key lib (Some uk) 256 k1 = Some (0, dk) \<and>
    block_pair (\<lambda>b. lib_encrypt lib b ek) (\<lambda>b. lib_decrypt lib b dk)"
  using set_keys_256 [OF assms, of k0 k1] decrypt_first_16 unfolding block_pair_def by blast

lemma CAes_pair:
  assumes "31 \<le> length strKey"
  shows "\<exists>c. new_CAes lib k0 k1 strKey = Some c \<and>
    block_pair (\<lambda>b. lib_encrypt lib b (m_cEncKey c)) (\<lambda>b. lib_decrypt lib b (m_cDecKey c))"
  using key_pairs [of "strKey @ [0]" k0 k1] assms by (auto simp: new_CAes_def)

lemma CAes_decrypts_blocks:
  assumes "31 \<le> length strKey" and "new_CAes lib k0 k1 strKey = Some c"
  shows "decrypts_blocks (\<lambda>b. lib_decrypt lib b (m_cDecKey c))"
  using CAes_pair [OF assms(1), of k0 k1] assms(2) by (simp add: block_pair_def decrypts_blocks_def)

end

lemma in_state_local: "length c = 16 \<Longrightarrow> in_state (c @ r) rk = in_state c rk"
  by (simp add: in_state_def GETU32_def nth_append)

lemma AES_decrypt_local: "length c = 16 \<Longrightarrow> AES_decrypt (c @ r) k = AES_decrypt c k"
  by (simp add: AES_decrypt_def in_state_local)

lemma AES_decrypt_total:
  assumes "4 * (rounds k + 1) \<le> length (rd_key k)" "56 \<le> 4 * rounds k" "16 \<le> length b"
  shows "\<exists>c. AES_decrypt b k = Some c \<and> length c = 16"
proof -
  obtain t rk where "dec_rounds (rounds k div 2) (in_state b (rd_key k)) (rd_key k) = Some (t, rk)"
    using dec_rounds_all [of "rounds k div 2"] assms(2) by auto
  then show ?thesis using assms by (cases t) (simp add: AES_decrypt_def PUTU32_def)
qed

text \<open>\<open>aes_core.cpp\<close> as such a library.\<close>

definition security_aes :: "AES_KEY aes_lib" where
  "security_aes = \<lparr>lib_set_encrypt_key = AES_set_encrypt_key, lib_set_decrypt_key = AES_set_decrypt_key,
     lib_encrypt = AES_encrypt, lib_decrypt = AES_decrypt\<rparr>"

interpretation sec: aes_api security_aes
proof unfold_locales
  fix uk :: bytes and k0 k1 :: AES_KEY
  assume "32 \<le> length uk"
  then have k: "256 \<in> {128, 192, 256::int}" "256 \<le> 8 * int (length uk)" by simp_all
  obtain ek dk where e: "AES_set_encrypt_key (Some uk) 256 k0 = Some (0, ek)" "AES_set_decrypt_key (Some uk) 256 k1 = Some (0, dk)"
    using set_keys [OF k] by blast
  have r: "rounds dk = 14" "60 \<le> length (rd_key dk)"
    using set_keys(2) [OF k, of k1] e(2) length_key_words [OF k(1), of uk] by (auto simp: rounds_of_def expanded_def)
  have "\<exists>c. AES_encrypt b ek = Some c \<and> length c = 16 \<and> AES_decrypt c dk = Some (take 16 b)" if "16 \<le> length b" for b
    using block_roundtrip [OF k that, of k0 k1] e by auto
  moreover have "\<exists>c. AES_decrypt b dk = Some c \<and> length c = 16" if "16 \<le> length b" for b
    using AES_decrypt_total [OF _ _ that, of dk] r by simp
  ultimately show "\<exists>ek dk. lib_set_encrypt_key security_aes (Some uk) 256 k0 = Some (0, ek) \<and>
      lib_set_decrypt_key security_aes (Some uk) 256 k1 = Some (0, dk) \<and>
      (\<forall>b. 16 \<le> length b \<longrightarrow> (\<exists>c. lib_encrypt security_aes b ek = Some c \<and> length c = 16 \<and>
        lib_decrypt security_aes c dk = Some (take 16 b))) \<and>
      (\<forall>b. 16 \<le> length b \<longrightarrow> (\<exists>c. lib_decrypt security_aes b dk = Some c \<and> length c = 16))"
    using e by (simp add: security_aes_def)
next
  fix c r :: bytes and dk
  assume "length c = 16"
  then show "lib_decrypt security_aes (c @ r) dk = lib_decrypt security_aes c dk"
    by (simp add: security_aes_def AES_decrypt_local)
qed

lemma msg_key_pair:
  "\<exists>ek dk. AES_set_encrypt_key (Some (msg_key @ [0])) 256 k0 = Some (0, ek) \<and>
    AES_set_decrypt_key (Some (msg_key @ [0])) 256 k1 = Some (0, dk) \<and>
    block_pair (\<lambda>b. AES_encrypt b ek) (\<lambda>b. AES_decrypt b dk)"
  using sec.key_pairs [of "msg_key @ [0]" k0 k1] by (simp add: security_aes_def msg_key_def)

subsection \<open>Messages\<close>

lemma block_count:
  assumes "unat n + 32 \<le> 2 ^ 32"
  shows "unat (block_count n) * 16 \<le> unat n + 31" "unat n + 4 \<le> unat (block_count n) * 16"
    "unat (block_count n * 16) = unat (block_count n) * 16"
proof -
  have a: "unat (n + 15) = unat n + 15" using assms by (subst unat_add_no_wrap) simp_all
  have d: "unat ((n + 15) div 16) = (unat n + 15) div 16" by (simp add: unat_div_distrib a)
  have m: "unat (n mod 16) = unat n mod 16" by (simp add: unat_mod_distrib)
  have r: "n mod 16 > 12 \<longleftrightarrow> unat n mod 16 > 12" "n mod 16 = 0 \<longleftrightarrow> unat n mod 16 = 0"
    using m by (simp_all add: word_less_nat_alt word_unat_eq_iff)
  have p: "unat ((n + 15) div 16 + 1) = (unat n + 15) div 16 + 1" using assms by (subst unat_add_no_wrap) (simp_all add: d)
  have c: "unat (block_count n) = (if unat n mod 16 > 12 \<or> unat n mod 16 = 0 then (unat n + 15) div 16 + 1 else (unat n + 15) div 16)"
    by (simp add: block_count_def Let_def r d p)
  show 1: "unat (block_count n) * 16 \<le> unat n + 31" unfolding c by simp linarith
  show "unat n + 4 \<le> unat (block_count n) * 16" unfolding c by (cases "unat n mod 16 > 12 \<or> unat n mod 16 = 0") (simp_all, presburger+)
  show "unat (block_count n * 16) = unat (block_count n) * 16"
    using 1 assms by (simp add: unat_word_ariths)
qed

text \<open>What \<open>Encrypt\<close> puts in the blocks: the message, zeros and the length.\<close>

definition padded :: "bytes \<Rightarrow> bytes" where
  "padded s = (let n = unat (block_count (of_nat (length s))) * 16
     in write_at (n - 4) (\<lambda>b. WriteUint32 b (of_nat (length s))) (s @ replicate (n - length s) 0))"

lemma padded:
  assumes "length s + 32 \<le> 2 ^ 32" and "0 < length s"
  shows "length (padded s) = unat (block_count (of_nat (length s))) * 16" "take (length s) (padded s) = s"
    "ReadUint32 (drop (length (padded s) - 4) (padded s)) = of_nat (length s)"
proof -
  let ?n = "unat (block_count (of_nat (length s))) * 16"
  have l: "unat (of_nat (length s) :: u32) = length s" using assms by simp
  have n: "length s + 4 \<le> ?n" using block_count(2) [of "of_nat (length s)"] assms(1) unfolding l by simp
  show len: "length (padded s) = ?n" using n by (simp add: padded_def Let_def at_simps be32.length_put)
  show "take (length s) (padded s) = s" using n by (simp add: padded_def Let_def at_simps)
  show "ReadUint32 (drop (length (padded s) - 4) (padded s)) = of_nat (length s)"
    unfolding len using n by (simp add: padded_def Let_def be32.get_put_at)
qed

lemma encrypt_message:
  assumes k: "block_pair enc dec" and s: "0 < length s" "length s \<le> 3 * 2 ^ 30 - 64"
  shows "\<exists>e. encrypt_with enc (Some s) (of_nat (length s)) = Some (Inr (e @ [0], of_nat (length e))) \<and> 0 < length e \<and> length e < 2 ^ 32 \<and>
    (\<exists>c. e = base64_encode c \<and> length c = length (padded s) \<and> crypt_blocks dec (length c div 16) c = Some (padded s))"
proof -
  let ?n = "of_nat (length s) :: u32" and ?b = "unat (block_count (of_nat (length s)))"
  have l: "unat ?n = length s" using s by simp
  have w: "unat ?n + 32 \<le> 2 ^ 32" using s l by simp
  note b = block_count [OF w, unfolded l] and p = padded [of s]
  obtain c where c: "crypt_blocks enc ?b (padded s) = Some c" "length c = 16 * ?b" "crypt_blocks dec ?b c = Some (padded s)"
    using crypt_blocks_inverse [of enc dec "padded s" ?b] k p(1) w l s(1) by (auto simp: block_pair_def mult.commute)
  have "length c \<le> 3 * 2 ^ 30 - 33" using c(2) b(1) s(2) by simp
  then have e: "length (base64_encode c) = (length c + 2) div 3 * 4" by (intro length_base64_encode) simp
  then have e': "length (base64_encode c) \<le> 2 ^ 32 - 36" "0 < length (base64_encode c)"
    using \<open>length c \<le> 3 * 2 ^ 30 - 33\<close> c(2) b(2) by simp_all
  have "unat (of_nat (length (base64_encode c)) :: u32) = length (base64_encode c)" using e' by simp
  then have noverflow: "\<not> (of_nat (length (base64_encode c)) + 1 < (of_nat (length (base64_encode c)) :: u32))"
    using e' by (simp add: word_less_nat_alt unat_add_no_wrap)
  have pos: "\<not> ?n \<le> 0" using s(1) l by (simp add: word_le_nat_alt)
  have four: "\<not> block_count ?n * 16 < 4" "unat (block_count ?n * 16 - 4) = ?b * 16 - 4"
    using b by (simp_all add: word_less_nat_alt unat_sub word_le_nat_alt)
  have "encrypt_with enc (Some s) ?n = Some (Inr (base64_encode c @ [0], of_nat (length (base64_encode c))))"
    using pos b four l c(1) noverflow e'
    by (simp add: encrypt_with_def Let_def padded_def)
  then show ?thesis using e' c p(1) w l s(1) by (auto simp: mult.commute)
qed

text \<open>\<open>nOutLen\<close> bytes of the output and the null byte behind them.\<close>

definition output_is :: "bytes \<Rightarrow> (int + bytes \<times> u32) option \<Rightarrow> bool" where
  "output_is s r \<longleftrightarrow> (\<exists>out. r = Some (Inr (out, of_nat (length s))) \<and> length s < length out \<and> take (length s) out = s \<and> out ! length s = 0)"

text \<open>Decryption of a whole number of blocks, when no write leaves the buffer.\<close>

lemma decrypt_blocks:
  assumes p: "\<not> n \<le> 0" "unat n \<le> length p" and d: "base64_decode (take (unat n) p) = d"
    and l: "0 < length d" "length d mod 16 = 0" "length d < 2 ^ 32" and t: "crypt_blocks dec (length d div 16) d = Some t" "length t = length d"
  defines "k \<equiv> ReadUint32 (drop (length t - 4) t)"
  shows "unat k \<le> length d \<Longrightarrow> \<exists>out. decrypt_with dec junk (Some p) n = Some (Inr (out, k)) \<and> length out = Suc (length d) \<and>
      take (unat k) out = take (unat k) t \<and> out ! unat k = 0"
    and "length d < unat k \<Longrightarrow> decrypt_with dec junk (Some p) n = Some (Inl (-4))"
proof -
  let ?m = "of_nat (length d) :: u32"
  have m: "unat ?m = length d" using l(3) by (intro unat_of_nat_32) simp
  have "length d \<noteq> 2 ^ 32 - 1" using l(2) by auto
  then have m1: "unat (?m + 1) = Suc (length d)" using m l(3) by (subst unat_add_no_wrap) simp_all
  have ge: "16 \<le> length d" using l(1,2) by (cases "length d < 16") auto
  have w: "?m \<noteq> 0" "?m mod 16 = 0" "unat (?m div 16) = length d div 16" "\<not> ?m < 4" "unat (?m - 4) = length d - 4"
    using m l(1,2) ge by (simp_all add: word_unat_eq_iff unat_mod_distrib unat_div_distrib word_less_nat_alt unat_sub word_le_nat_alt)
  have s0: "store 0 t (map junk [0..<unat (?m + 1)]) = Some (t @ [junk (length d)])"
    by (simp add: store_def m1 t(2) drop_map)
  have tail: "load (unat (?m - 4)) 4 (t @ [junk (length d)]) = Some (drop (length t - 4) t)"
    using ge t(2) by (simp add: load_def w)
  have pre: "decrypt_with dec junk (Some p) n = (if k > ?m then Some (Inl (-4)) else do {
      pTmp \<leftarrow> store (unat k) [0] (t @ [junk (length d)]);
      Some (Inr (pTmp, k))})"
    using p w t(1) s0 tail by (simp add: decrypt_with_def load_def [of 0] d Let_def k_def)
  show "length d < unat k \<Longrightarrow> decrypt_with dec junk (Some p) n = Some (Inl (-4))"
    by (simp add: pre word_less_nat_alt m)
  show "unat k \<le> length d \<Longrightarrow> \<exists>out. decrypt_with dec junk (Some p) n = Some (Inr (out, k)) \<and> length out = Suc (length d) \<and>
      take (unat k) out = take (unat k) t \<and> out ! unat k = 0"
    using t(2) by (simp add: pre word_less_nat_alt m store_def nth_append)
qed

lemma message_roundtrip:
  assumes k: "block_pair enc dec" and s: "0 < length s" "length s \<le> 3 * 2 ^ 30 - 64"
  shows "\<exists>e. encrypt_with enc (Some s) (of_nat (length s)) = Some (Inr (e @ [0], of_nat (length e))) \<and> length e < 2 ^ 32 \<and>
    output_is s (decrypt_with dec junk (Some e) (of_nat (length e)))"
proof -
  obtain e c where e: "encrypt_with enc (Some s) (of_nat (length s)) = Some (Inr (e @ [0], of_nat (length e)))" "0 < length e" "length e < 2 ^ 32"
    "e = base64_encode c" "length c = length (padded s)" "crypt_blocks dec (length c div 16) c = Some (padded s)"
    using encrypt_message [OF assms] by blast
  let ?n = "of_nat (length s) :: u32"
  have l: "unat ?n = length s" using s by simp
  have w: "unat ?n + 32 \<le> 2 ^ 32" using s l by simp
  note b = block_count [OF w, unfolded l] and p = padded [of s]
  have c: "length c = unat (block_count ?n) * 16" "length c \<le> 2 ^ 32 - 33" "length s + 4 \<le> length c"
    using e(5) p(1) w l s b by simp_all
  have el: "unat (of_nat (length e) :: u32) = length e" using e(3) by (intro unat_of_nat_32) simp
  then have pos: "\<not> (of_nat (length e) :: u32) \<le> 0" using e(2) by (simp add: word_le_nat_alt)
  have dec: "base64_decode (take (unat (of_nat (length e) :: u32)) e) = c" using e(4) c(2) el by (simp add: base64_roundtrip)
  have r: "ReadUint32 (drop (length (padded s) - 4) (padded s)) = ?n" using p(3) w l s(1) by simp
  have "\<exists>out. decrypt_with dec junk (Some e) (of_nat (length e)) = Some (Inr (out, ?n)) \<and> length out = Suc (length c) \<and>
      take (length s) out = take (length s) (padded s) \<and> out ! length s = 0"
    using decrypt_blocks(1) [OF pos _ dec _ _ _ e(6), of junk] el c e(5) r l s(1) by simp
  moreover have "take (length s) (padded s) = s" using p(2) w l s(1) by simp
  ultimately have "output_is s (decrypt_with dec junk (Some e) (of_nat (length e)))"
    using c(3) by (auto simp: output_is_def)
  then show ?thesis using e(1,3) by blast
qed

text \<open>What decryption may answer to any input of \<open>n\<close> bytes.\<close>

definition decrypt_result :: "u32 \<Rightarrow> int + bytes \<times> u32 \<Rightarrow> bool" where
  "decrypt_result n r \<longleftrightarrow> (case r of Inl code \<Rightarrow> code \<in> {-1, -2, -3, -4}
     | Inr (out, nOutLen) \<Rightarrow> unat nOutLen < length out \<and> out ! unat nOutLen = 0 \<and> 4 * unat nOutLen \<le> 3 * unat n)"

lemma decrypt_total:
  assumes k: "decrypts_blocks dec" and p: "unat n \<le> length p"
  shows "\<exists>r. decrypt_with dec junk (Some p) n = Some r \<and> decrypt_result n r"
proof (cases "n \<le> 0")
  case False
  let ?d = "base64_decode (take (unat n) p)" let ?m = "of_nat (length ?d) :: u32"
  have len: "4 * length ?d \<le> 3 * unat n"
    using length_dec_loop [of 0 0 "take (unat n) p"] p by (auto simp: base64_decode_def split: option.split)
  then have small: "length ?d < 2 ^ 32" using unat_u32_lt [of n] by linarith
  then have m: "unat ?m = length ?d" by (intro unat_of_nat_32) simp
  show ?thesis
  proof (cases "length ?d = 0 \<or> length ?d mod 16 \<noteq> 0")
    case True
    then have "?m = 0 \<or> ?m mod 16 \<noteq> 0" using m by (auto simp: word_unat_eq_iff unat_mod_distrib)
    then show ?thesis using p False by (cases "?m = 0") (auto simp: decrypt_with_def load_def Let_def decrypt_result_def)
  next
    case d: False
    obtain t where t: "crypt_blocks dec (length ?d div 16) ?d = Some t" "length t = 16 * (length ?d div 16)"
      using crypt_blocks_total [of dec "length ?d div 16" ?d] k by (auto simp: decrypts_blocks_def)
    have "length t = length ?d" using t(2) d by auto
    note dec = decrypt_blocks [OF False p refl _ _ small t(1) this, of junk]
    let ?k = "ReadUint32 (drop (length t - 4) t)"
    show ?thesis
    proof (cases "unat ?k \<le> length ?d")
      case True
      then obtain out where "decrypt_with dec junk (Some p) n = Some (Inr (out, ?k))" "length out = Suc (length ?d)" "out ! unat ?k = 0"
        using dec(1) d by auto
      then show ?thesis using True len by (auto simp: decrypt_result_def)
    next
      case big: False
      then show ?thesis using dec(2) d by (simp add: decrypt_result_def)
    qed
  qed
qed (simp add: decrypt_with_def decrypt_result_def)

subsection \<open>Properties\<close>

text \<open>
  C32: with an AES library that does what OpenSSL documents and a key of at least 31 bytes, every message of 1 byte to
  almost 3 GiB is encrypted by \<open>CAes\<close> to a text, ended by a null byte, that \<open>CAes\<close> turns back into the message, byte for
  byte and ended by a null byte; and so do \<open>EncryptMsg\<close> and \<open>DecryptMsg\<close> of \<open>security.cpp\<close> with their own AES and key. All
  accesses stay inside of the buffers. A shorter key is read beyond its end, and an empty message is refused.
\<close>

theorem message_encryption_roundtrip:
  assumes "aes_api openssl" and "31 \<le> length strKey" and "0 < length s" and "length s \<le> 3 * 2 ^ 30 - 64"
  shows "(\<exists>c e. new_CAes openssl o0 o1 strKey = Some c \<and>
      CAes_Encrypt openssl c (Some s) (of_nat (length s)) = Some (Inr (e @ [0], of_nat (length e))) \<and>
      output_is s (CAes_Decrypt openssl junk c (Some e) (of_nat (length e)))) \<and>
    (\<exists>e. EncryptMsg k0 (Some s) (of_nat (length s)) = Some (Inr (e @ [0], of_nat (length e))) \<and>
      output_is s (DecryptMsg k1 junk (Some e) (of_nat (length e))))"
proof
  show "\<exists>c e. new_CAes openssl o0 o1 strKey = Some c \<and>
      CAes_Encrypt openssl c (Some s) (of_nat (length s)) = Some (Inr (e @ [0], of_nat (length e))) \<and>
      output_is s (CAes_Decrypt openssl junk c (Some e) (of_nat (length e)))"
    using aes_api.CAes_pair [OF assms(1,2), of o0 o1] message_roundtrip [OF _ assms(3,4)]
    unfolding CAes_Encrypt_def CAes_Decrypt_def by blast
  from msg_key_pair [of k0 k1] obtain ek dk where
    k: "AES_set_encrypt_key (Some (msg_key @ [0])) 256 k0 = Some (0, ek)" "AES_set_decrypt_key (Some (msg_key @ [0])) 256 k1 = Some (0, dk)"
      "block_pair (\<lambda>b. AES_encrypt b ek) (\<lambda>b. AES_decrypt b dk)" by blast
  show "\<exists>e. EncryptMsg k0 (Some s) (of_nat (length s)) = Some (Inr (e @ [0], of_nat (length e))) \<and>
      output_is s (DecryptMsg k1 junk (Some e) (of_nat (length e)))"
    using message_roundtrip [OF k(3) assms(3,4), of junk] k(1,2) by (auto simp: EncryptMsg_def DecryptMsg_def)
qed

definition no_key :: AES_KEY where
  "no_key = \<lparr>rd_key = [], rounds = 0\<rparr>"

lemma message_encryption_roundtrip_witness:
  "\<exists>c e. new_CAes security_aes no_key no_key (replicate 32 65) = Some c \<and>
     CAes_Encrypt security_aes c (Some [104, 105]) 2 = Some (Inr (e @ [0], of_nat (length e))) \<and>
     output_is [104, 105] (CAes_Decrypt security_aes (\<lambda>_. 9) c (Some e) (of_nat (length e)))"
  using message_encryption_roundtrip [OF sec.aes_api_axioms, of "replicate 32 65" "[104, 105]" no_key no_key "\<lambda>_. 9"]
  by simp

text \<open>
  C34: whatever bytes arrive, decryption reads and writes inside of its buffers and ends with one of its four error codes
  or with an output of at most three quarters of the input, whose length is inside of the output buffer and whose
  end is marked by a null byte there: for \<open>CAes\<close> with a key of at least 31 bytes and an AES library that does what
  OpenSSL documents, and for \<open>DecryptMsg\<close>.
\<close>

theorem decryption_of_anything:
  assumes "aes_api openssl" and "31 \<le> length strKey" and "unat n \<le> length p"
  shows "(\<exists>c r. new_CAes openssl o0 o1 strKey = Some c \<and> CAes_Decrypt openssl junk c (Some p) n = Some r \<and> decrypt_result n r) \<and>
    (\<exists>r. DecryptMsg k1 junk (Some p) n = Some r \<and> decrypt_result n r)"
proof
  show "\<exists>c r. new_CAes openssl o0 o1 strKey = Some c \<and> CAes_Decrypt openssl junk c (Some p) n = Some r \<and> decrypt_result n r"
    using aes_api.CAes_pair [OF assms(1,2), of o0 o1] decrypt_total [OF block_pair_decrypts assms(3)] unfolding CAes_Decrypt_def by blast
  show "\<exists>r. DecryptMsg k1 junk (Some p) n = Some r \<and> decrypt_result n r"
    using msg_key_pair [of k1 k1] decrypt_total [OF block_pair_decrypts assms(3), of _ _ junk] by (auto simp: DecryptMsg_def)
qed

text \<open>Sixteen bytes in base 64: they are decrypted to some block, which is refused or whose length is checked.\<close>

lemma decryption_of_anything_witness:
  "\<exists>r. DecryptMsg no_key (\<lambda>_. 9) (Some (replicate 22 65 @ [61, 61])) 24 = Some r \<and> decrypt_result 24 r"
  using decryption_of_anything [OF sec.aes_api_axioms, of "replicate 32 65" 24 "replicate 22 65 @ [61, 61]" no_key no_key "\<lambda>_. 9" no_key]
  by simp

end
