(* ===== verification/Push_Relay.thy ===== *)
theory Push_Relay
  imports Group_Chat File_Relay Enc_Dec
begin

text \<open>
  Push notices for phones: the text of a notice (\<open>build_ios_push_flash\<close> of \<open>msg_server/PushServConn.cpp\<close>), what is
  done with the device tokens the database returns (\<open>CDBServConn::_HandleGetDeviceTokenResponse\<close>) and the
  answer of the route server to a question about a user's status (\<open>CRouteServConn::_HandleUsersStatusResponse\<close>).
  Strings are bytes (UTF-8). \<open>nick\<close> gives the nick name a user object holds, \<open>json_data\<close> is the JSON printer.
  \<open>pe_decrypt_block\<close> is \<open>AES_decrypt\<close> of the AES library under the decryption key of \<open>pAes\<close> (\<open>CAes_Decrypt\<close> is
  \<open>decrypt_with\<close> of it), \<open>pe_junk\<close> what a new buffer holds.
\<close>

definition IM_PUSH_TYPE_NORMAL :: u32 where [const_defs]: "IM_PUSH_TYPE_NORMAL = 1"
definition IM_PUSH_TYPE_SILENT :: u32 where [const_defs]: "IM_PUSH_TYPE_SILENT = 2"
definition IOS_PUSH_FLASH_MAX_LENGTH :: u32 where "IOS_PUSH_FLASH_MAX_LENGTH = 40"

definition pic_prefix :: bytes where
  "pic_prefix = [38, 36, 35, 64, 126, 94, 64, 91, 123, 58]"
definition pic_suffix :: bytes where
  "pic_suffix = [58, 125, 93, 38, 36, 126, 64, 35, 64]"
definition comm_flash :: bytes where
  "comm_flash = [230, 130, 168, 230, 148, 182, 229, 136, 176, 228, 186, 134, 228, 184, 128, 230, 157, 161, 230, 182,
     136, 230, 129, 175]"
definition group_audio_text :: bytes where
  "group_audio_text = [229, 156, 168, 231, 190, 164, 232, 129, 138, 228, 184, 173, 229, 143, 145, 233, 128, 129, 228, 186,
     134, 228, 184, 128, 230, 157, 161, 232, 175, 173, 233, 159, 179, 230, 182, 136, 230, 129, 175]"
definition single_audio_text :: bytes where
  "single_audio_text = [231, 187, 153, 230, 130, 168, 229, 143, 145, 233, 128, 129, 228, 186, 134, 228, 184, 128, 230, 157,
     161, 232, 175, 173, 233, 159, 179, 230, 182, 136, 230, 129, 175]"

definition build_ios_push_flash :: "(uptr \<Rightarrow> bytes) \<Rightarrow> msg_state \<Rightarrow> bytes \<Rightarrow> u32 \<Rightarrow> u32 \<Rightarrow> bytes" where
  "build_ios_push_flash nick st flash msg_type from_id =
     (if (case (find_string pic_prefix flash, find_string pic_suffix flash) of
            (Some pos_prefix, Some pos_suffix) \<Rightarrow> pos_prefix < pos_suffix | _ \<Rightarrow> False)
      then comm_flash
      else case GetImUserById from_id st of
        None \<Rightarrow> comm_flash
      | Some p \<Rightarrow>
          (let msg_tmp = (if msg_type = MSG_TYPE_GROUP_AUDIO then nick p @ group_audio_text
                          else if msg_type = MSG_TYPE_SINGLE_AUDIO then nick p @ single_audio_text
                          else nick p @ [58] @ flash);
               flash_max_length = unat (IOS_PUSH_FLASH_MAX_LENGTH - 3)
           in if length msg_tmp > flash_max_length then take flash_max_length msg_tmp @ [46, 46, 46] else msg_tmp))"

subsection \<open>Device tokens\<close>

record token_info =
  ti_user_id :: u32
  ti_token :: bytes
  ti_push_count :: u32
  ti_user_type :: u32

record push_req =
  pr_flash :: bytes
  pr_data :: bytes
  pr_tokens :: "(token_info \<times> u32) list"

record push_pb =
  pb_device_tokens :: "bytes \<Rightarrow> (token_info list \<times> bytes) option"
  ser_push_req :: "push_req \<Rightarrow> bytes"
  pb_push_req :: "bytes \<Rightarrow> push_req option"
  pb_stat_rsp :: "bytes \<Rightarrow> (u32 \<times> (u32 \<times> u32) list \<times> bytes) option"
  ser_stat_rsp :: "u32 \<times> (u32 \<times> u32) list \<times> bytes \<Rightarrow> bytes"

record push_env =
  pe_nick :: "uptr \<Rightarrow> bytes"
  pe_json_data :: "u32 \<Rightarrow> u32 \<Rightarrow> u32 option \<Rightarrow> bytes"
  pe_decrypt_block :: "bytes \<Rightarrow> bytes option"
  pe_junk :: "nat \<Rightarrow> u8"

definition ask_status :: "push_pb \<Rightarrow> file_relay_pb \<Rightarrow> relay_env \<Rightarrow> push_req \<Rightarrow> token_info \<Rightarrow> msg_state \<Rightarrow> msg_state" where
  "ask_status ppb fpb en req t st =
     (let body = ser_push_req ppb (req\<lparr>pr_tokens := [(t, IM_PUSH_TYPE_NORMAL)]\<rparr>)
      in send_route en (new_pdu CID_BUDDY_LIST_USERS_STATUS_REQUEST 0
           (ser_users_stat_req fpb 0 [ti_user_id t] (pdu_attach_bytes ATTACH_TYPE_PDU_FOR_PUSH 0 0 body))) st)"

text \<open>The loop over the tokens: the requests for users connected here are collected in \<open>msg3\<close>.\<close>

fun token_loop :: "push_pb \<Rightarrow> file_relay_pb \<Rightarrow> relay_env \<Rightarrow> push_req \<Rightarrow> u32 \<Rightarrow> token_info list
    \<Rightarrow> push_req \<times> msg_state \<Rightarrow> (push_req \<times> msg_state) option" where
  "token_loop ppb fpb en req from_id [] (msg3, st) = Some (msg3, st)"
| "token_loop ppb fpb en req from_id (t # ts) (msg3, st) =
     (if from_id = ti_user_id t then token_loop ppb fpb en req from_id ts (msg3, st)
      else do {
        status \<leftarrow> pc_login_status (ti_user_id t) st;
        (case status of
           Some s \<Rightarrow>
             token_loop ppb fpb en req from_id ts
               (req\<lparr>pr_tokens := pr_tokens msg3 @
                  [(t, if s = IM_PC_LOGIN_STATUS_ON then IM_PUSH_TYPE_SILENT else IM_PUSH_TYPE_NORMAL)]\<rparr>, st)
         | None \<Rightarrow> token_loop ppb fpb en req from_id ts (msg3, ask_status ppb fpb en req t st))})"

definition push_text :: "push_env \<Rightarrow> IMMsgData \<Rightarrow> bytes option option" where
  "push_text pe msg2 =
     (if md_msg_type msg2 = MSG_TYPE_SINGLE_TEXT \<or> md_msg_type msg2 = MSG_TYPE_GROUP_TEXT
      then do {
        r \<leftarrow> decrypt_with (pe_decrypt_block pe) (pe_junk pe) (Some (md_msg_data msg2)) (of_nat (length (md_msg_data msg2)));
        (case r of Inl code \<Rightarrow> Some None
         | Inr (msg_out, msg_out_len) \<Rightarrow> map_option Some (load 0 (unat msg_out_len) msg_out))}
      else Some (Some (md_msg_data msg2)))"

definition HandleGetDeviceTokenResponse :: "relay_pb \<Rightarrow> file_relay_pb \<Rightarrow> push_pb \<Rightarrow> push_env \<Rightarrow> relay_env \<Rightarrow> in_pdu
    \<Rightarrow> msg_state \<Rightarrow> msg_state option" where
  "HandleGetDeviceTokenResponse pb fpb ppb pe en p st =
     (case pb_device_tokens ppb (in_body p) of None \<Rightarrow> Some st
      | Some (tokens, attach) \<Rightarrow>
        (case pb_msg_data pb attach of None \<Rightarrow> Some st
         | Some msg2 \<Rightarrow> do {
             text \<leftarrow> push_text pe msg2;
             (case text of None \<Rightarrow> Some st
              | Some msg_data \<Rightarrow> do {
                  let from_id = md_from_user_id msg2;
                  let req = \<lparr>pr_flash = build_ios_push_flash (pe_nick pe) st msg_data (md_msg_type msg2) from_id,
                    pr_data = pe_json_data pe (md_msg_type msg2) from_id
                      (if CHECK_MSG_TYPE_GROUP (md_msg_type msg2) then Some (md_to_session_id msg2) else None),
                    pr_tokens = []\<rparr>;
                  (msg3, st) \<leftarrow> token_loop ppb fpb en req from_id tokens (req, st);
                  Some (if length (pr_tokens msg3) > 0
                        then send_push en (new_pdu CID_OTHER_PUSH_TO_USER_REQ 0 (ser_push_req ppb msg3)) st
                        else st)})}))"

subsection \<open>The status of a user\<close>

text \<open>
  \<open>user_stat_list(0)\<close> and \<open>mutable_user_token_list(0)\<close> of an empty list read outside of it; the value is then
  \<open>None\<close>.
\<close>

definition HandleUsersStatusResponse :: "file_relay_pb \<Rightarrow> push_pb \<Rightarrow> relay_env \<Rightarrow> in_pdu \<Rightarrow> msg_state \<Rightarrow> outcome" where
  "HandleUsersStatusResponse fpb ppb en p st =
     (case pb_stat_rsp ppb (in_body p) of None \<Rightarrow> Some (Inr st)
      | Some (user_id, user_stat_list, attach) \<Rightarrow> with_pdu_attach attach (\<lambda>a len pdu.
          if ad_type a = ATTACH_TYPE_HANDLE then
            answer (\<lambda>_. True) (MForward (p\<lparr>in_body := ser_stat_rsp ppb (user_id, user_stat_list, [])\<rparr>)) user_id (ad_handle a) st
          else if ad_type a = ATTACH_TYPE_PDU_FOR_PUSH then
            (case user_stat_list of [] \<Rightarrow> None
             | (uid, status) # rest \<Rightarrow>
                 (case pb_push_req ppb (take (unat len) pdu) of None \<Rightarrow> Some st
                  | Some msg2 \<Rightarrow>
                      (case pr_tokens msg2 of [] \<Rightarrow> None
                       | (t, push_type) # ts \<Rightarrow>
                           let push_type = (if status = USER_STATUS_ONLINE then IM_PUSH_TYPE_SILENT else IM_PUSH_TYPE_NORMAL)
                           in Some (send_push en (new_pdu CID_OTHER_PUSH_TO_USER_REQ 0
                                (ser_push_req ppb (msg2\<lparr>pr_tokens := (t, push_type) # ts\<rparr>))) st))))
          else if ad_type a = ATTACH_TYPE_HANDLE_AND_PDU_FOR_FILE then
            (case user_stat_list of [] \<Rightarrow> None
             | (uid, status) # rest \<Rightarrow>
                 (case pb_file fpb CID_OTHER_FILE_TRANSFER_REQ (take (unat len) pdu) of None \<Rightarrow> Some st
                  | Some msg3 \<Rightarrow>
                      let trans_mode = (if status = USER_STATUS_ONLINE then FILE_TYPE_ONLINE else FILE_TYPE_OFFLINE);
                          msg3 = msg3\<lparr>fm_trans_mode := trans_mode\<rparr>
                      in if en_file en \<noteq> None then
                           Some (send_file (new_pdu CID_OTHER_FILE_TRANSFER_REQ (in_seq p)
                             (ser_file fpb CID_OTHER_FILE_TRANSFER_REQ msg3)) st)
                         else answer (\<lambda>_. True) (MForward (new_pdu CID_FILE_RESPONSE (in_seq p)
                                (ser_file fpb CID_FILE_RESPONSE (no_file_server (fm_from_user_id msg3) msg3))))
                                (fm_from_user_id msg3) (ad_handle a) st))
          else Some st))"

subsection \<open>No session is touched\<close>

text \<open>The answers of the route server to the questions asked.\<close>

definition stat_rsp_ok :: "push_pb \<Rightarrow> in_pdu \<Rightarrow> bool" where
  "stat_rsp_ok ppb p \<longleftrightarrow> (case pb_stat_rsp ppb (in_body p) of None \<Rightarrow> True
     | Some (user_id, user_stat_list, attach) \<Rightarrow> user_stat_list \<noteq> [] \<and>
         (case pdu_attach_of attach of Inl e \<Rightarrow> True
          | Inr (a, len, pdu) \<Rightarrow> ad_type a = ATTACH_TYPE_PDU_FOR_PUSH \<longrightarrow>
              (case pb_push_req ppb (take (unat len) pdu) of None \<Rightarrow> True | Some msg2 \<Rightarrow> pr_tokens msg2 \<noteq> [])))"

lemma push_text_some:
  assumes "decrypts_blocks (pe_decrypt_block pe)" and "length (md_msg_data msg) < 2 ^ 32"
  shows "\<exists>r. push_text pe msg = Some r"
proof -
  obtain r where "decrypt_with (pe_decrypt_block pe) (pe_junk pe) (Some (md_msg_data msg)) (of_nat (length (md_msg_data msg))) = Some r"
      "decrypt_result (of_nat (length (md_msg_data msg))) r"
    using decrypt_total [OF assms(1), of "of_nat (length (md_msg_data msg))" "md_msg_data msg" "pe_junk pe"] assms(2)
    by (auto simp: unat_of_nat_32)
  then show ?thesis
    by (cases r) (auto simp: push_text_def decrypt_result_def load_def split: if_splits)
qed

lemma token_loop_quiet:
  "session_inv db None None st \<Longrightarrow>
   \<exists>msg3' st'. token_loop ppb fpb en req from_id ts (msg3, st) = Some (msg3', st') \<and> quiet st st'"
proof (induction ts arbitrary: msg3 st)
  case (Cons t ts)
  note inv = Cons.prems
  obtain r where r: "pc_login_status (ti_user_id t) st = Some r" using pc_login_status_some [OF inv] by blast
  have q: "quiet st (ask_status ppb fpb en req t st)" by (simp add: ask_status_def Let_def)
  have "\<exists>msg3' st'. token_loop ppb fpb en req from_id ts (m, ask_status ppb fpb en req t st) = Some (msg3', st') \<and>
      quiet st st'" for m
    using Cons.IH [OF quiet_session_inv [OF inv q], of m] quiet_trans [OF q] by blast
  then show ?case using Cons.IH [OF inv] r by (cases "from_id = ti_user_id t"; cases r) simp_all
qed simp

lemma HandleGetDeviceTokenResponse_quiet:
  assumes inv: "session_inv db None None st" and aes: "decrypts_blocks (pe_decrypt_block pe)"
    and len: "\<And>b msg. pb_msg_data pb b = Some msg \<Longrightarrow> length (md_msg_data msg) < 2 ^ 32"
  shows "yields quiet st (HandleGetDeviceTokenResponse pb fpb ppb pe en p st)"
proof (cases "pb_device_tokens ppb (in_body p)")
  case (Some ta)
  obtain tokens attach where ta: "ta = (tokens, attach)" by (cases ta)
  show ?thesis
  proof (cases "pb_msg_data pb attach")
    case (Some msg2)
    obtain r where r: "push_text pe msg2 = Some r" using push_text_some [OF aes len [OF Some]] by blast
    have "yields quiet st (do {(msg3, st) \<leftarrow> token_loop ppb fpb en req fi tokens (req, st);
        Some (if length (pr_tokens msg3) > 0
              then send_push en (new_pdu CID_OTHER_PUSH_TO_USER_REQ 0 (ser_push_req ppb msg3)) st else st)})" for req fi
    proof -
      obtain msg3 st' where "token_loop ppb fpb en req fi tokens (req, st) = Some (msg3, st')" "quiet st st'"
        using token_loop_quiet [OF inv] by blast
      then show ?thesis by (auto intro: qs.done_ok quiet_trans [OF _ quiet_sends(3)])
    qed
    then show ?thesis
      unfolding HandleGetDeviceTokenResponse_def Let_def
      by (cases r) (simp_all add: \<open>pb_device_tokens ppb (in_body p) = Some ta\<close> ta Some r)
  qed (simp add: HandleGetDeviceTokenResponse_def Some ta)
qed (simp add: HandleGetDeviceTokenResponse_def)

lemma HandleUsersStatusResponse_quiet:
  assumes inv: "session_inv db None None st" and ok: "stat_rsp_ok ppb p"
  shows "quiet_outcome st (HandleUsersStatusResponse fpb ppb en p st)"
proof (cases "pb_stat_rsp ppb (in_body p)")
  case (Some r)
  obtain uid stats attach where r: "r = (uid, stats, attach)" by (cases r)
  show ?thesis
  proof (cases "pdu_attach_of attach")
    case (Inr x)
    obtain a len pdu where x: "x = (a, len, pdu)" by (cases x)
    obtain u s rest where stats: "stats = (u, s) # rest" using ok Some r by (cases stats) (auto simp: stat_rsp_ok_def)
    have toks: "pr_tokens m \<noteq> []" if "ad_type a = ATTACH_TYPE_PDU_FOR_PUSH" "pb_push_req ppb (take (unat len) pdu) = Some m" for m
      using ok that Some r Inr x by (simp add: stat_rsp_ok_def)
    show ?thesis
      unfolding HandleUsersStatusResponse_def Some r option.case prod.case with_pdu_attach_def Inr sum.case x stats list.case Let_def
      by (rule quiet_outcome_map)
        (auto simp: answer_quiet [OF inv] qs.done_ok dest: toks split: option.split list.split)
  qed (simp add: HandleUsersStatusResponse_def Some r with_pdu_attach_def quiet_outcome_def)
qed (simp add: HandleUsersStatusResponse_def)

end
