(* ===== verification/Serv_Relay.thy ===== *)
theory Serv_Relay
  imports Push_Relay
begin

text \<open>
  What a message server does with the PDUs of the database and route servers: the handlers of
  \<open>msg_server/DBServConn.cpp\<close> and \<open>msg_server/RouteServConn.cpp\<close> that deliver messages and notices and pass
  answers on. A message the database has stored goes to the other connections of the sender and to
  the receiver, here and, through the route server, on the other message servers.
\<close>

record sign_rsp =
  sg_user_id :: u32
  sg_result :: u32
  sg_sign_info :: bytes
  sg_attach :: bytes

record serv_pb =
  pb_sign_rsp :: "bytes \<Rightarrow> sign_rsp option"
  ser_sign_rsp :: "sign_rsp \<Rightarrow> bytes"
  ser_sign_notify :: "u32 \<Rightarrow> bytes \<Rightarrow> bytes"
  pb_sign_notify :: "bytes \<Rightarrow> (u32 \<times> bytes) option"
  pb_status_notify :: "bytes \<Rightarrow> (u32 \<times> u32) option"
  pb_pc_status :: "bytes \<Rightarrow> (u32 \<times> u32) option"
  ser_pc_status :: "u32 \<Rightarrow> u32 \<Rightarrow> bytes"

subsection \<open>Messages\<close>

definition client_data :: "relay_pb \<Rightarrow> IMMsgData \<Rightarrow> in_pdu \<Rightarrow> in_pdu" where
  "client_data pb msg p = p\<lparr>in_seq := 0, in_body := ser_msg_data pb (msg\<lparr>md_attach_data := []\<rparr>)\<rparr>"

text \<open>The last PDU goes back over the connection the message came from.\<close>

definition HandleMsgData :: "relay_pb \<Rightarrow> group_pb \<Rightarrow> relay_env \<Rightarrow> in_pdu \<Rightarrow> msg_state \<Rightarrow> outcome" where
  "HandleMsgData pb gpb en p st =
     (case pb_msg_data pb (in_body p) of None \<Rightarrow> Some (Inr st)
      | Some msg \<Rightarrow>
          if CHECK_MSG_TYPE_GROUP (md_msg_type msg) then HandleGroupMessage pb gpb en p st
          else if md_msg_id msg = 0 then Some (Inr st)
          else with_attach (md_attach_data msg) (\<lambda>a. do {
            pMsgConn \<leftarrow> GetMsgConnByHandle (md_from_user_id msg) (ad_handle a) st;
            st \<leftarrow> answer_found (\<lambda>_. True) (msg_ack pb SESSION_TYPE_SINGLE msg p) pMsgConn st;
            let st = send_route en p st;
            let pdu = client_data pb msg p;
            st \<leftarrow> user_cast (BroadcastClientMsgData (en_tick en) (MForward pdu) (md_msg_id msg) pMsgConn
                   (md_from_user_id msg)) (md_from_user_id msg) st;
            st \<leftarrow> user_cast (BroadcastClientMsgData (en_tick en) (MForward pdu) (md_msg_id msg) None
                   (md_from_user_id msg)) (md_to_session_id msg) st;
            Some (st\<lparr>to_db := to_db st @ [DbPdu (new_pdu CID_OTHER_GET_DEVICE_TOKEN_REQ 0
              (ser_device_token_req gpb [md_to_session_id msg] (in_body pdu)))]\<rparr>)}))"

text \<open>\<open>CRouteServConn::_HandleMsgData\<close>: the message as another server has sent it.\<close>

definition RouteHandleMsgData :: "relay_pb \<Rightarrow> group_pb \<Rightarrow> relay_env \<Rightarrow> in_pdu \<Rightarrow> msg_state \<Rightarrow> msg_state option" where
  "RouteHandleMsgData pb gpb en p st =
     (case pb_msg_data pb (in_body p) of None \<Rightarrow> Some st
      | Some msg \<Rightarrow>
          if CHECK_MSG_TYPE_GROUP (md_msg_type msg) then Some (HandleGroupMessageBroadcast pb gpb en p st)
          else do {
            st \<leftarrow> user_cast (BroadcastClientMsgData (en_tick en) (MForward p) (md_msg_id msg) None
                   (md_from_user_id msg)) (md_from_user_id msg) st;
            user_cast (BroadcastClientMsgData (en_tick en) (MForward p) (md_msg_id msg) None
                   (md_from_user_id msg)) (md_to_session_id msg) st})"

subsection \<open>Other PDUs of the database\<close>

definition HandleRecentSessionResponse :: "relay_pb \<Rightarrow> in_pdu \<Rightarrow> msg_state \<Rightarrow> outcome" where
  "HandleRecentSessionResponse pb p st = forward_response pb m_bOpen p st"
definition HandleAllUserResponse :: "relay_pb \<Rightarrow> in_pdu \<Rightarrow> msg_state \<Rightarrow> outcome" where
  "HandleAllUserResponse pb p st = forward_response pb m_bOpen p st"
definition HandleGetMsgListResponse :: "relay_pb \<Rightarrow> in_pdu \<Rightarrow> msg_state \<Rightarrow> outcome" where
  "HandleGetMsgListResponse pb p st = forward_response pb m_bOpen p st"
definition HandleGetMsgByIdResponse :: "relay_pb \<Rightarrow> in_pdu \<Rightarrow> msg_state \<Rightarrow> outcome" where
  "HandleGetMsgByIdResponse pb p st = forward_response pb m_bOpen p st"
definition HandleGetLatestMsgIDRsp :: "relay_pb \<Rightarrow> in_pdu \<Rightarrow> msg_state \<Rightarrow> outcome" where
  "HandleGetLatestMsgIDRsp pb p st = forward_response pb m_bOpen p st"
definition HandleUnreadMsgCountResponse :: "relay_pb \<Rightarrow> in_pdu \<Rightarrow> msg_state \<Rightarrow> outcome" where
  "HandleUnreadMsgCountResponse pb p st = forward_response pb m_bOpen p st"
definition HandleUsersInfoResponse :: "relay_pb \<Rightarrow> in_pdu \<Rightarrow> msg_state \<Rightarrow> outcome" where
  "HandleUsersInfoResponse pb p st = forward_response pb m_bOpen p st"
definition HandleRemoveSessionResponse :: "relay_pb \<Rightarrow> in_pdu \<Rightarrow> msg_state \<Rightarrow> outcome" where
  "HandleRemoveSessionResponse pb p st = forward_response pb m_bOpen p st"
definition HandleDepartmentResponse :: "relay_pb \<Rightarrow> in_pdu \<Rightarrow> msg_state \<Rightarrow> outcome" where
  "HandleDepartmentResponse pb p st = forward_response pb m_bOpen p st"
definition HandlePushShieldResponse :: "relay_pb \<Rightarrow> in_pdu \<Rightarrow> msg_state \<Rightarrow> outcome" where
  "HandlePushShieldResponse pb p st = forward_response pb m_bOpen p st"
definition HandleQueryPushShieldResponse :: "relay_pb \<Rightarrow> in_pdu \<Rightarrow> msg_state \<Rightarrow> outcome" where
  "HandleQueryPushShieldResponse pb p st = forward_response pb m_bOpen p st"

lemmas response_defs = HandleRecentSessionResponse_def HandleAllUserResponse_def HandleGetMsgListResponse_def
  HandleGetMsgByIdResponse_def HandleGetLatestMsgIDRsp_def HandleUnreadMsgCountResponse_def
  HandleUsersInfoResponse_def HandleRemoveSessionResponse_def HandleDepartmentResponse_def
  HandlePushShieldResponse_def HandleQueryPushShieldResponse_def HandleGroupNormalResponse_def
  HandleGroupCreateResponse_def HandleGroupShieldGroupResponse_def

definition HandleChangeAvatarResponse :: "relay_pb \<Rightarrow> in_pdu \<Rightarrow> msg_state \<Rightarrow> msg_state option" where
  "HandleChangeAvatarResponse pb p st =
     (case pb_fwd pb (in_cid p) (in_body p) of None \<Rightarrow> Some st
      | Some msg \<Rightarrow> user_cast (BroadcastPdu (MForward (p\<lparr>in_body := ser_fwd pb (in_cid p) (msg\<lparr>fw_attach := []\<rparr>)\<rparr>)) None)
          (fw_user_id msg) st)"

definition HandleChangeSignInfoResponse :: "serv_pb \<Rightarrow> relay_env \<Rightarrow> in_pdu \<Rightarrow> msg_state \<Rightarrow> outcome" where
  "HandleChangeSignInfoResponse spb en p st =
     (case pb_sign_rsp spb (in_body p) of None \<Rightarrow> Some (Inr st)
      | Some msg \<Rightarrow> with_attach (sg_attach msg) (\<lambda>a. do {
          st \<leftarrow> answer m_bOpen (MForward (p\<lparr>in_body := ser_sign_rsp spb (msg\<lparr>sg_attach := []\<rparr>)\<rparr>))
                 (sg_user_id msg) (ad_handle a) st;
          Some (if sg_result msg = 0
                then send_route en (new_pdu CID_BUDDY_LIST_SIGN_INFO_CHANGED_NOTIFY 0
                       (ser_sign_notify spb (sg_user_id msg) (sg_sign_info msg))) st
                else st)}))"

subsection \<open>Other PDUs of the route server\<close>

definition manager_alive :: "msg_state \<Rightarrow> bool" where
  "manager_alive st \<longleftrightarrow> list_all (\<lambda>(i, p). case users st p of None \<Rightarrow> False | Some u \<Rightarrow> conns_alive u st) (m_im_user_map st)"

definition manager_cast :: "in_pdu \<Rightarrow> u32 \<Rightarrow> msg_state \<Rightarrow> msg_state option" where
  "manager_cast p client_type_flag st =
     (if manager_alive st then Some (ManagerBroadcastPdu (MForward p) client_type_flag st) else None)"

definition HandleStatusNotify :: "serv_pb \<Rightarrow> in_pdu \<Rightarrow> msg_state \<Rightarrow> msg_state option" where
  "HandleStatusNotify spb p st =
     (case pb_status_notify spb (in_body p) of None \<Rightarrow> Some st
      | Some (user_id, status) \<Rightarrow> manager_cast p CLIENT_TYPE_FLAG_PC st)"

definition HandleSignInfoChangedNotify :: "serv_pb \<Rightarrow> in_pdu \<Rightarrow> msg_state \<Rightarrow> msg_state option" where
  "HandleSignInfoChangedNotify spb p st =
     (case pb_sign_notify spb (in_body p) of None \<Rightarrow> Some st
      | Some (user_id, sign_info) \<Rightarrow> manager_cast p CLIENT_TYPE_FLAG_BOTH st)"

definition HandleMsgReadNotify :: "relay_pb \<Rightarrow> in_pdu \<Rightarrow> msg_state \<Rightarrow> msg_state option" where
  "HandleMsgReadNotify pb p st =
     (case pb_read pb CID_MSG_READ_NOTIFY (in_body p) of None \<Rightarrow> Some st
      | Some msg \<Rightarrow> user_cast (BroadcastPdu (MForward p) None) (rm_user_id msg) st)"

definition HandleP2PMsg :: "relay_pb \<Rightarrow> in_pdu \<Rightarrow> msg_state \<Rightarrow> msg_state option" where
  "HandleP2PMsg pb p st =
     (case pb_p2p pb (in_body p) of None \<Rightarrow> Some st
      | Some (from_user_id, to_user_id) \<Rightarrow> do {
          st \<leftarrow> user_cast (BroadcastPdu (MForward p) None) from_user_id st;
          user_cast (BroadcastPdu (MForward p) None) to_user_id st})"

definition HandleRemoveSessionNotify :: "relay_pb \<Rightarrow> in_pdu \<Rightarrow> msg_state \<Rightarrow> msg_state option" where
  "HandleRemoveSessionNotify pb p st =
     (case pb_remove pb CID_BUDDY_LIST_REMOVE_SESSION_NOTIFY (in_body p) of None \<Rightarrow> Some st
      | Some msg \<Rightarrow> user_cast (BroadcastPdu (MForward p) None) (rv_user_id msg) st)"

definition HandlePCloginStatusNotify :: "serv_pb \<Rightarrow> in_pdu \<Rightarrow> msg_state \<Rightarrow> msg_state option" where
  "HandlePCloginStatusNotify spb p st =
     (case pb_pc_status spb (in_body p) of None \<Rightarrow> Some st
      | Some (user_id, login_status) \<Rightarrow>
          (case GetImUserById user_id st of None \<Rightarrow> Some st
           | Some q \<Rightarrow> do {
               st \<leftarrow> upd_user q (\<lambda>u. u\<lparr>m_pc_login_status := login_status\<rparr>) st;
               user_cast (BroadcastPduToMobile (MForward (new_pdu CID_BUDDY_LIST_PC_LOGIN_STATUS_NOTIFY 0
                   (ser_pc_status spb user_id (if IM_PC_LOGIN_STATUS_ON = login_status then USER_STATUS_ONLINE
                                               else USER_STATUS_OFFLINE)))) None) user_id st}))"

subsection \<open>What sending message data to a user does\<close>

definition with_data :: "u64 \<Rightarrow> client_out \<Rightarrow> u32 \<Rightarrow> u32 \<Rightarrow> msg_conn \<Rightarrow> msg_conn" where
  "with_data tick m msg_id from_id c = c\<lparr>mc_out := mc_out c @ [m], m_send_msg_list := m_send_msg_list c @
     [\<lparr>ack_msg_id = msg_id, ack_from_id = from_id, ack_timestamp = tick\<rparr>]\<rparr>"

lemma with_data_sel [simp]:
  "mc_handle (with_data t m i f c) = mc_handle c" "mc_user_id (with_data t m i f c) = mc_user_id c"
  "m_bOpen (with_data t m i f c) = m_bOpen c" "mc_out (with_data t m i f c) = mc_out c @ [m]"
  "mc_login_name (with_data t m i f c) = mc_login_name c" "m_bKickOff (with_data t m i f c) = m_bKickOff c"
  "m_send_msg_list (with_data t m i f c) = m_send_msg_list c @ [\<lparr>ack_msg_id = i, ack_from_id = f, ack_timestamp = t\<rparr>]"
  by (simp_all add: with_data_def)

lemma fold_data:
  "distinct (map snd xs) \<Longrightarrow>
   fold (\<lambda>(h, c) cs. if Some c \<noteq> from then AddToSendList t i f c (client_send m c cs) else cs) xs cs d =
   (if d \<in> snd ` set xs \<and> Some d \<noteq> from then with_data t m i f (cs d) else cs d)"
proof (induction xs arbitrary: cs)
  case (Cons x xs)
  then show ?case by (cases x) (auto simp: client_send_def AddToSendList_def with_data_def)
qed simp

lemma user_cast_data:
  assumes inv: "session_inv db None None st"
  obtains cs where "user_cast (BroadcastClientMsgData t m i from f) user_id st = Some (st\<lparr>conns := cs\<rparr>)"
    "\<And>d. cs d = (if session_of st user_id d \<and> Some d \<noteq> from then with_data t m i f (conns st d) else conns st d)"
proof (cases "GetImUserById user_id st")
  case None
  then show ?thesis using no_sessions [OF inv None] that [of "conns st"] by (simp add: user_cast_def)
next
  case (Some p)
  show ?thesis
  proof (rule user_conns [OF inv Some])
    fix u assume u: "users st p = Some u" "conns_alive u st" "distinct (map snd (m_conn_map u))"
      and s: "\<And>c. c \<in> snd ` set (m_conn_map u) \<longleftrightarrow> session_of st user_id c"
    show ?thesis
      using u by (intro that [of "BroadcastClientMsgData t m i from f u (conns st)"])
        (simp_all add: user_cast_def Some BroadcastClientMsgData_def fold_data [OF u(3)] s)
  qed
qed

lemma user_cast_data_quiet:
  assumes inv: "session_inv db None None st"
  shows "yields quiet st (user_cast (BroadcastClientMsgData t m i from f) uid st)"
proof -
  obtain cs where cs: "user_cast (BroadcastClientMsgData t m i from f) uid st = Some (st\<lparr>conns := cs\<rparr>)"
    "\<And>d. cs d = (if session_of st uid d \<and> Some d \<noteq> from then with_data t m i f (conns st d) else conns st d)"
    by (rule user_cast_data [OF inv, of t m i "from" f uid]) blast
  show ?thesis unfolding cs(1) by (intro qs.done_ok quiet_conns) (simp add: same_session_def cs(2))
qed

subsection \<open>No session is touched\<close>

lemma quiet_to_db [simp]: "quiet st (st\<lparr>to_db := x\<rparr>)"
  by (simp add: quiet_def rel_option_refl)

lemma HandleMsgData_quiet:
  assumes inv: "session_inv db None None st"
  shows "quiet_outcome st (HandleMsgData pb gpb en p st)"
proof (cases "pb_msg_data pb (in_body p)")
  case (Some msg)
  have cont: "yields quiet t (do {
      t \<leftarrow> user_cast (BroadcastClientMsgData tk m i c f) u1 (send_route en p t);
      t \<leftarrow> user_cast (BroadcastClientMsgData tk m i None f) u2 t;
      Some (t\<lparr>to_db := to_db t @ x\<rparr>)})" if t: "session_inv db None None t" for t tk m i c f u1 u2 x
  proof -
    have t': "session_inv db None None (send_route en p t)" by (rule quiet_session_inv [OF t quiet_sends(2)])
    show ?thesis
      by (rule qs.from_ok [OF quiet_sends(2)])
        (auto intro!: qs.bind_ok [OF t'] qs.bind_ok user_cast_data_quiet qs.done_ok t')
  qed
  show ?thesis
  proof (cases "CHECK_MSG_TYPE_GROUP (md_msg_type msg)")
    case True
    then show ?thesis by (simp add: HandleMsgData_def Some HandleGroupMessage_quiet [OF inv])
  next
    case False
    have "yields quiet st (do {
        pMsgConn \<leftarrow> GetMsgConnByHandle uid h st;
        st \<leftarrow> answer_found (\<lambda>_. True) ack pMsgConn st;
        st \<leftarrow> user_cast (BroadcastClientMsgData tk m i pMsgConn f) u1 (send_route en p st);
        st \<leftarrow> user_cast (BroadcastClientMsgData tk m i None f) u2 st;
        Some (st\<lparr>to_db := to_db st @ x\<rparr>)})" for uid h ack tk m i f u1 u2 x
    proof -
      obtain r where r: "GetMsgConnByHandle uid h st = Some r"
        "\<And>c. r = Some c \<longleftrightarrow> session_of st uid c \<and> mc_handle (conns st c) = h"
        using GetMsgConnByHandle_session [OF inv] by blast
      have "yields quiet st (answer_found (\<lambda>_. True) ack r st)"
        using r(2) by (intro answer_found_quiet [OF inv]) blast
      then show ?thesis by (auto simp: r(1) intro!: qs.bind_ok [OF inv] cont)
    qed
    then show ?thesis
      unfolding HandleMsgData_def Some option.case Let_def
      by (simp add: False quiet_with_attach)
  qed
qed (simp add: HandleMsgData_def)

lemma RouteHandleMsgData_quiet:
  assumes inv: "session_inv db None None st"
  shows "yields quiet st (RouteHandleMsgData pb gpb en p st)"
  unfolding RouteHandleMsgData_def
  by (auto split: option.split intro!: qs.bind_ok [OF inv] user_cast_data_quiet qs.done_ok inv)

lemma HandleChangeAvatarResponse_quiet:
  "session_inv db None None st \<Longrightarrow> yields quiet st (HandleChangeAvatarResponse pb p st)"
  unfolding HandleChangeAvatarResponse_def BroadcastPdu_def by (auto intro: user_cast_quiet split: option.split)

lemma HandleChangeSignInfoResponse_quiet:
  assumes inv: "session_inv db None None st"
  shows "quiet_outcome st (HandleChangeSignInfoResponse spb en p st)"
  unfolding HandleChangeSignInfoResponse_def
  by (auto split: option.split intro!: quiet_with_attach answer_then [OF inv] qs.done_ok)

lemma route_notices_quiet:
  assumes inv: "session_inv db None None st"
  shows "yields quiet st (HandleMsgReadNotify pb p st)" "yields quiet st (HandleP2PMsg pb p st)"
    "yields quiet st (HandleRemoveSessionNotify pb p st)"
  using inv unfolding HandleMsgReadNotify_def HandleP2PMsg_def HandleRemoveSessionNotify_def BroadcastPdu_def
  by (auto split: option.split intro: user_cast_quiet qs.bind_ok [OF inv])

lemma HandlePCloginStatusNotify_quiet:
  assumes inv: "session_inv db None None st"
  shows "yields quiet st (HandlePCloginStatusNotify spb p st)"
proof (cases "pb_pc_status spb (in_body p)")
  case (Some us)
  obtain uid status where us: "us = (uid, status)" by (cases us)
  show ?thesis
  proof (cases "GetImUserById uid st")
    case (Some q)
    show ?thesis
    proof (rule user_conns [OF inv Some])
      fix u assume u: "users st q = Some u"
      let ?st = "st\<lparr>users := (users st)(q \<mapsto> u\<lparr>m_pc_login_status := status\<rparr>)\<rparr>"
      have q: "quiet st ?st" using u by (auto simp: quiet_def same_core_def rel_option_refl)
      have "yields quiet ?st (user_cast (BroadcastPduToMobile m None) uid ?st)" for m
        unfolding BroadcastPduToMobile_def by (rule user_cast_quiet [OF quiet_session_inv [OF inv q]])
      then show ?thesis using u Some qs.from_ok [OF q]
        by (simp add: HandlePCloginStatusNotify_def \<open>pb_pc_status spb (in_body p) = Some us\<close> us upd_user_def)
    qed
  qed (simp add: HandlePCloginStatusNotify_def Some us)
qed (simp add: HandlePCloginStatusNotify_def)

lemma manager_alive:
  assumes inv: "session_inv db None None st"
  shows "manager_alive st"
  unfolding manager_alive_def list_all_iff
proof (safe)
  fix i p assume "(i, p) \<in> set (m_im_user_map st)"
  then have "GetImUserById i st = Some p"
    using session_invD(1) [OF inv] by (simp add: GetImUserById_def om_ok_def)
  then show "case users st p of None \<Rightarrow> False | Some u \<Rightarrow> conns_alive u st"
    by (rule user_conns [OF inv]) simp
qed

lemma same_session_cast:
  assumes "distinct (map snd (m_conn_map u))"
  shows "same_session cs (user_broadcast m flag u cs)"
  by (auto simp: same_session_def user_broadcast_def BroadcastPdu_def BroadcastPduWithOutMobile_def
      BroadcastPduToMobile_def broadcast_where_conn [OF assms])

lemma manager_cast_quiet:
  assumes inv: "session_inv db None None st"
  shows "yields quiet st (manager_cast p flag st)"
proof -
  have "same_session cs (fold (\<lambda>(i, p) cs. case users st p of None \<Rightarrow> cs
        | Some u \<Rightarrow> if m_bValidate u then user_broadcast m flag u cs else cs) xs cs)"
    if "set xs \<subseteq> set (m_im_user_map st)" for m xs cs
    using that
  proof (induction xs arbitrary: cs)
    case (Cons x xs)
    obtain i p where x: "x = (i, p)" by (cases x)
    then have "GetImUserById i st = Some p"
      using session_invD(1) [OF inv] Cons.prems by (simp add: GetImUserById_def om_ok_def)
    then have "same_session cs (case users st p of None \<Rightarrow> cs
        | Some u \<Rightarrow> if m_bValidate u then user_broadcast m flag u cs else cs)"
      by (rule user_conns [OF inv]) (auto intro: same_session_cast)
    then show ?case using Cons by (auto simp: x intro: same_session_trans)
  qed simp
  then show ?thesis
    by (auto simp: manager_cast_def manager_alive [OF inv] ManagerBroadcastPdu_def intro!: qs.done_ok quiet_conns)
qed

lemma route_manager_notices_quiet:
  assumes inv: "session_inv db None None st"
  shows "yields quiet st (HandleStatusNotify spb p st)" "yields quiet st (HandleSignInfoChangedNotify spb p st)"
  using manager_cast_quiet [OF inv] by (auto simp: HandleStatusNotify_def HandleSignInfoChangedNotify_def split: option.split)

end
