(* ===== verification/Msg_Server.thy ===== *)
theory Msg_Server
  imports Serv_Relay
begin

text \<open>
  The message server as a whole: the switches over the command id of \<open>CMsgConn::HandlePdu\<close>,
  \<open>CDBServConn::HandlePdu\<close>, \<open>CRouteServConn::HandlePdu\<close> and \<open>CFileServConn::HandlePdu\<close> as tables of handlers, the events
  that reach the server, its reachable states, and what holds of them. A PDU that is not in a table is logged
  and ignored. The handlers run one after the other, as if there was one worker thread.
\<close>

record msg_server_pb =
  sp_relay :: relay_pb
  sp_group :: group_pb
  sp_file :: file_relay_pb
  sp_push :: push_pb
  sp_serv :: serv_pb
  pb_login_req :: "bytes \<Rightarrow> login_req option"
  pb_kick_pc :: "bytes \<Rightarrow> u32 option"
  pb_validate_rsp :: "bytes \<Rightarrow> (validate_rsp \<times> bytes) option"
  pb_kick_user :: "bytes \<Rightarrow> (u32 \<times> u32 \<times> u32) option"

type_synonym pdu_handler = "in_pdu \<Rightarrow> msg_state \<Rightarrow> outcome"

definition always :: "(in_pdu \<Rightarrow> msg_state \<Rightarrow> msg_state) \<Rightarrow> pdu_handler" where
  "always f p st = Some (Inr (f p st))"
definition no_throw :: "(in_pdu \<Rightarrow> msg_state \<Rightarrow> msg_state option) \<Rightarrow> pdu_handler" where
  "no_throw f p st = map_option Inr (f p st)"

definition run_table :: "(u16 \<times> pdu_handler) list \<Rightarrow> pdu_handler" where
  "run_table t p st = (case map_of t (in_cid p) of None \<Rightarrow> Some (Inr st) | Some h \<Rightarrow> h p st)"

subsection \<open>The switches\<close>

text \<open>The request a logout makes to the database: no token, and no client type set.\<close>

definition logout_token :: "relay_pb \<Rightarrow> u32 \<Rightarrow> bytes" where
  "logout_token pb user_id = ser_token pb \<lparr>tk_user_id = user_id, tk_client_type = 0, tk_token = []\<rparr>"

definition client_table :: "msg_server_pb \<Rightarrow> relay_env \<Rightarrow> conn \<Rightarrow> (u16 \<times> pdu_handler) list" where
  "client_table sp en this =
     (let pb = sp_relay sp; gpb = sp_group sp; fpb = sp_file sp in
     [(CID_OTHER_HEARTBEAT, always (HandleHeartBeat this)),
      (CID_LOGIN_REQ_USERLOGIN, no_throw (\<lambda>p. HandleloginRequest (en_db en, en_login en, en_route en) (en_new en)
         (in_seq p) (pb_login_req sp (in_body p)) this)),
      (CID_LOGIN_REQ_LOGINOUT, no_throw (\<lambda>p. HandleloginOutRequest (logout_token pb) (en_db en) (in_seq p) this)),
      (CID_LOGIN_REQ_DEVICETOKEN, always (HandleClientDeviceToken pb en this)),
      (CID_LOGIN_REQ_KICKPCCLIENT, no_throw (\<lambda>p. HandleKickPCClient (en_route_conn en) (in_seq p) (pb_kick_pc sp (in_body p)) this)),
      (CID_LOGIN_REQ_PUSH_SHIELD, always (HandlePushShieldRequest pb en this)),
      (CID_LOGIN_REQ_QUERY_PUSH_SHIELD, always (HandleQueryPushShieldRequest pb en this)),
      (CID_MSG_DATA, always (HandleClientMsgData pb en this)),
      (CID_MSG_DATA_ACK, always (HandleClientMsgDataAck pb this)),
      (CID_MSG_TIME_REQUEST, always (HandleClientTimeRequest pb en this)),
      (CID_MSG_LIST_REQUEST, always (HandleClientGetMsgListRequest pb en this)),
      (CID_MSG_GET_BY_MSG_ID_REQ, always (HandleClientGetMsgByMsgIdRequest pb en this)),
      (CID_MSG_UNREAD_CNT_REQUEST, always (HandleClientUnreadMsgCntRequest pb en this)),
      (CID_MSG_READ_ACK, no_throw (HandleClientMsgReadAck pb en this)),
      (CID_MSG_GET_LATEST_MSG_ID_REQ, always (HandleClientGetLatestMsgIDReq pb en this)),
      (CID_SWITCH_P2P_CMD, no_throw (HandleClientP2PCmdMsg pb en this)),
      (CID_BUDDY_LIST_RECENT_CONTACT_SESSION_REQUEST, always (HandleClientRecentContactSessionRequest pb en this)),
      (CID_BUDDY_LIST_USER_INFO_REQUEST, always (HandleClientUserInfoRequest pb en this)),
      (CID_BUDDY_LIST_REMOVE_SESSION_REQ, no_throw (HandleClientRemoveSessionRequest pb en this)),
      (CID_BUDDY_LIST_ALL_USER_REQUEST, always (HandleClientAllUserRequest pb en this)),
      (CID_BUDDY_LIST_CHANGE_AVATAR_REQUEST, always (HandleChangeAvatarRequest pb en this)),
      (CID_BUDDY_LIST_CHANGE_SIGN_INFO_REQUEST, always (HandleChangeSignInfoRequest pb en this)),
      (CID_BUDDY_LIST_USERS_STATUS_REQUEST, always (HandleClientUsersStatusRequest pb en this)),
      (CID_BUDDY_LIST_DEPARTMENT_REQUEST, always (HandleClientDepartmentRequest pb en this)),
      (CID_GROUP_NORMAL_LIST_REQUEST, always (HandleClientGroupNormalRequest pb gpb en this)),
      (CID_GROUP_INFO_REQUEST, always (HandleClientGroupInfoRequest pb gpb en this)),
      (CID_GROUP_CREATE_REQUEST, always (HandleClientGroupCreateRequest gpb en this)),
      (CID_GROUP_CHANGE_MEMBER_REQUEST, always (HandleClientGroupChangeMemberRequest gpb en this)),
      (CID_GROUP_SHIELD_GROUP_REQUEST, always (HandleClientGroupShieldGroupRequest pb gpb en this)),
      (CID_FILE_REQUEST, no_throw (HandleClientFileRequest fpb en this)),
      (CID_FILE_HAS_OFFLINE_REQ, always (HandleClientFileHasOfflineReq pb fpb en this)),
      (CID_FILE_ADD_OFFLINE_REQ, no_throw (HandleClientFileAddOfflineReq fpb en this)),
      (CID_FILE_DEL_OFFLINE_REQ, always (HandleClientFileDelOfflineReq fpb en))])"

definition ERROR_CODE_WRONG_SERVICE_ID :: u32 where "ERROR_CODE_WRONG_SERVICE_ID = 2"

text \<open>The service id the exception carries is not part of \<open>in_pdu\<close>; it is only logged.\<close>

definition ClientHandlePdu :: "msg_server_pb \<Rightarrow> relay_env \<Rightarrow> conn \<Rightarrow> pdu_handler" where
  "ClientHandlePdu sp en this p st =
     (if not_authorized (in_cid p) (conns st this)
      then Some (Inl (CPduException 0 (ucast (in_cid p)) ERROR_CODE_WRONG_SERVICE_ID ''HandlePdu error, user not login. ''))
      else run_table (client_table sp en this) p st)"

definition HandleValidatePdu :: "msg_server_pb \<Rightarrow> relay_env \<Rightarrow> pdu_handler" where
  "HandleValidatePdu sp en p st =
     (case pb_validate_rsp sp (in_body p) of None \<Rightarrow> Some (Inr st)
      | Some (msg, attach) \<Rightarrow> with_attach attach (\<lambda>a.
          HandleValidateResponse (en_route_conn en) (in_seq p) (Some (msg\<lparr>vr_handle := ad_handle a\<rparr>)) st))"

text \<open>\<open>CID_LOGIN_RES_DEVICETOKEN\<close> is only logged; \<open>CID_OTHER_STOP_RECV_PACKET\<close> closes the connection object for new requests.\<close>

definition db_table :: "msg_server_pb \<Rightarrow> push_env \<Rightarrow> relay_env \<Rightarrow> (u16 \<times> pdu_handler) list" where
  "db_table sp pe en =
     (let pb = sp_relay sp; gpb = sp_group sp; fpb = sp_file sp; ppb = sp_push sp in
     [(CID_OTHER_VALIDATE_RSP, HandleValidatePdu sp en),
      (CID_LOGIN_RES_PUSH_SHIELD, HandlePushShieldResponse pb),
      (CID_LOGIN_RES_QUERY_PUSH_SHIELD, HandleQueryPushShieldResponse pb),
      (CID_MSG_UNREAD_CNT_RESPONSE, HandleUnreadMsgCountResponse pb),
      (CID_MSG_LIST_RESPONSE, HandleGetMsgListResponse pb),
      (CID_MSG_GET_BY_MSG_ID_RES, HandleGetMsgByIdResponse pb),
      (CID_MSG_DATA, HandleMsgData pb gpb en),
      (CID_MSG_GET_LATEST_MSG_ID_RSP, HandleGetLatestMsgIDRsp pb),
      (CID_BUDDY_LIST_RECENT_CONTACT_SESSION_RESPONSE, HandleRecentSessionResponse pb),
      (CID_BUDDY_LIST_ALL_USER_RESPONSE, HandleAllUserResponse pb),
      (CID_BUDDY_LIST_USER_INFO_RESPONSE, HandleUsersInfoResponse pb),
      (CID_BUDDY_LIST_REMOVE_SESSION_RES, HandleRemoveSessionResponse pb),
      (CID_BUDDY_LIST_CHANGE_AVATAR_RESPONSE, no_throw (HandleChangeAvatarResponse pb)),
      (CID_BUDDY_LIST_CHANGE_SIGN_INFO_RESPONSE, HandleChangeSignInfoResponse (sp_serv sp) en),
      (CID_BUDDY_LIST_DEPARTMENT_RESPONSE, HandleDepartmentResponse pb),
      (CID_OTHER_GET_DEVICE_TOKEN_RSP, no_throw (HandleGetDeviceTokenResponse pb fpb ppb pe en)),
      (CID_OTHER_GET_SHIELD_RSP, always (HandleGroupGetShieldByGroupResponse gpb en)),
      (CID_GROUP_NORMAL_LIST_RESPONSE, HandleGroupNormalResponse pb),
      (CID_GROUP_INFO_RESPONSE, HandleGroupInfoResponse pb gpb en),
      (CID_GROUP_CREATE_RESPONSE, HandleGroupCreateResponse pb),
      (CID_GROUP_CHANGE_MEMBER_RESPONSE, HandleGroupChangeMemberResponse gpb en),
      (CID_GROUP_SHIELD_GROUP_RESPONSE, HandleGroupShieldGroupResponse pb),
      (CID_FILE_HAS_OFFLINE_RES, HandleFileHasOfflineRes fpb en)])"

definition HandleKickUserPdu :: "msg_server_pb \<Rightarrow> in_pdu \<Rightarrow> msg_state \<Rightarrow> msg_state option" where
  "HandleKickUserPdu sp p st =
     (case pb_kick_user sp (in_body p) of None \<Rightarrow> Some st
      | Some (user_id, client_type, reason) \<Rightarrow> HandleServerKickUser user_id client_type reason st)"

text \<open>
  The case of \<open>CID_BUDDY_LIST_SIGN_INFO_CHANGED_NOTIFY\<close> has no \<open>break\<close>: the PDU is handled a second time as a change of a
  group.
\<close>

definition sign_info_case :: "msg_server_pb \<Rightarrow> in_pdu \<Rightarrow> msg_state \<Rightarrow> msg_state option" where
  "sign_info_case sp p st = do {
     st \<leftarrow> HandleSignInfoChangedNotify (sp_serv sp) p st;
     HandleGroupChangeMemberBroadcast (sp_group sp) p st}"

definition route_table :: "msg_server_pb \<Rightarrow> relay_env \<Rightarrow> (u16 \<times> pdu_handler) list" where
  "route_table sp en =
     (let pb = sp_relay sp; gpb = sp_group sp in
     [(CID_OTHER_SERVER_KICK_USER, no_throw (HandleKickUserPdu sp)),
      (CID_BUDDY_LIST_STATUS_NOTIFY, no_throw (HandleStatusNotify (sp_serv sp))),
      (CID_BUDDY_LIST_USERS_STATUS_RESPONSE, HandleUsersStatusResponse (sp_file sp) (sp_push sp) en),
      (CID_MSG_READ_NOTIFY, no_throw (HandleMsgReadNotify pb)),
      (CID_MSG_DATA, no_throw (RouteHandleMsgData pb gpb en)),
      (CID_SWITCH_P2P_CMD, no_throw (HandleP2PMsg pb)),
      (CID_OTHER_LOGIN_STATUS_NOTIFY, no_throw (HandlePCloginStatusNotify (sp_serv sp))),
      (CID_BUDDY_LIST_REMOVE_SESSION_NOTIFY, no_throw (HandleRemoveSessionNotify pb)),
      (CID_BUDDY_LIST_SIGN_INFO_CHANGED_NOTIFY, no_throw (sign_info_case sp)),
      (CID_GROUP_CHANGE_MEMBER_NOTIFY, no_throw (HandleGroupChangeMemberBroadcast gpb)),
      (CID_FILE_NOTIFY, no_throw (HandleFileNotify (sp_file sp)))])"

text \<open>\<open>CID_OTHER_FILE_SERVER_IP_RSP\<close> changes the list of addresses of the connection only (\<open>HandleFileServerIPRsp\<close>).\<close>

definition file_table :: "msg_server_pb \<Rightarrow> (string \<times> u32) list \<Rightarrow> relay_env \<Rightarrow> (u16 \<times> pdu_handler) list" where
  "file_table sp m_ip_list en = [(CID_OTHER_FILE_TRANSFER_RSP, HandleFileMsgTransRsp (sp_file sp) m_ip_list en)]"

subsection \<open>Events and reachable states\<close>

datatype server_event =
    SSession msg_event
  | SClient relay_env conn in_pdu
  | SDb push_env relay_env in_pdu
  | SRoute relay_env in_pdu
  | SFile "(string \<times> u32) list" relay_env in_pdu

fun run_server :: "msg_server_pb \<Rightarrow> server_event \<Rightarrow> msg_state \<Rightarrow> outcome" where
  "run_server sp (SSession e) st = map_option Inr (run_event e st)"
| "run_server sp (SClient en c p) st = ClientHandlePdu sp en c p st"
| "run_server sp (SDb pe en p) st = run_table (db_table sp pe en) p st"
| "run_server sp (SRoute en p) st = run_table (route_table sp en) p st"
| "run_server sp (SFile ips en p) st = run_table (file_table sp ips en) p st"

text \<open>
  The environment: a PDU of a client arrives on a registered connection, \<open>new\<close> returns a fresh address, no client
  logs in without a name; the database gives every name one id, which is not zero; the route server
  answers a question with a status; the AES library decrypts any block under the server's key; no string is longer than 4 GB.
\<close>

fun server_env :: "(string \<Rightarrow> u32) \<Rightarrow> msg_server_pb \<Rightarrow> msg_state \<Rightarrow> server_event \<Rightarrow> bool" where
  "server_env db sp st (SSession e) \<longleftrightarrow> env st e \<and> polite db e"
| "server_env db sp st (SClient en c p) \<longleftrightarrow> msg_registered st c \<and> users st (en_new en) = None \<and>
     (\<forall>m. pb_login_req sp (in_body p) = Some m \<longrightarrow> lr_user_name m \<noteq> [])"
| "server_env db sp st (SDb pe en p) \<longleftrightarrow> decrypts_blocks (pe_decrypt_block pe) \<and>
     (\<forall>m a. pb_validate_rsp sp (in_body p) = Some (m, a) \<longrightarrow> vr_result m = 0 \<longrightarrow>
        vr_user_id m = db (vr_user_name m) \<and> vr_user_id m \<noteq> 0) \<and>
     (\<forall>b m. pb_msg_data (sp_relay sp) b = Some m \<longrightarrow> length (md_msg_data m) < 2 ^ 32)"
| "server_env db sp st (SRoute en p) \<longleftrightarrow> stat_rsp_ok (sp_push sp) p"
| "server_env db sp st (SFile ips en p) \<longleftrightarrow> True"

inductive server_reach :: "(string \<Rightarrow> u32) \<Rightarrow> msg_server_pb \<Rightarrow> msg_state \<Rightarrow> bool" for db sp where
  init: "server_reach db sp msg_init"
| step: "server_reach db sp st \<Longrightarrow> server_env db sp st e \<Longrightarrow> run_server sp e st = Some (Inr st') \<Longrightarrow>
    server_reach db sp st'"

subsection \<open>Every handler is safe\<close>

definition safe :: "(string \<Rightarrow> u32) \<Rightarrow> outcome \<Rightarrow> bool" where
  "safe db r \<longleftrightarrow> (\<exists>x. r = Some x \<and> (\<forall>st'. x = Inr st' \<longrightarrow> session_inv db None None st'))"

lemma safe_quiet: "session_inv db None None st \<Longrightarrow> quiet_outcome st r \<Longrightarrow> safe db r"
  by (auto simp: safe_def quiet_outcome_def intro: quiet_session_inv)

lemma safe_always: "session_inv db None None st \<Longrightarrow> quiet st (f p st) \<Longrightarrow> safe db (always f p st)"
  by (auto simp: safe_def always_def intro: quiet_session_inv)

lemma safe_no_throw: "session_inv db None None st \<Longrightarrow> yields quiet st (f p st) \<Longrightarrow> safe db (no_throw f p st)"
  by (auto simp: safe_def no_throw_def yields_def intro: quiet_session_inv)

lemma safe_fine: "fine db st r \<Longrightarrow> safe db (map_option Inr r)"
  by (auto simp: safe_def fine_def)

lemma safe_table:
  assumes "session_inv db None None st" and "\<And>h. map_of t (in_cid p) = Some h \<Longrightarrow> safe db (h p st)"
  shows "safe db (run_table t p st)"
  using assms by (auto simp: run_table_def safe_def split: option.split)

lemma safe_entries:
  assumes "session_inv db None None st" and "list_all (\<lambda>(c, h). c = in_cid p \<longrightarrow> safe db (h p st)) t"
  shows "safe db (run_table t p st)"
  using assms map_of_SomeD by (fastforce intro: safe_table simp: list_all_iff)

lemma fine_event: "session_inv db None None st \<Longrightarrow> env st e \<Longrightarrow> polite db e \<Longrightarrow> (\<And>t c h. e \<noteq> EConnect t c h) \<Longrightarrow>
    run_event e st = r \<Longrightarrow> safe db (map_option Inr r)"
  using event_ok safe_fine by blast

lemma safe_HandleValidatePdu:
  assumes inv: "session_inv db None None st"
    and ok: "\<And>m a. pb_validate_rsp sp (in_body p) = Some (m, a) \<Longrightarrow> vr_result m = 0 \<Longrightarrow>
        vr_user_id m = db (vr_user_name m) \<and> vr_user_id m \<noteq> 0"
  shows "safe db (HandleValidatePdu sp en p st)"
proof (cases "pb_validate_rsp sp (in_body p)")
  case (Some ma)
  obtain m attach where ma: "ma = (m, attach)" by (cases ma)
  show ?thesis
  proof (cases "db_attach_of attach")
    case (Inr a)
    have "safe db (map_option Inr (HandleValidateResponse (en_route_conn en) (in_seq p) (Some (m\<lparr>vr_handle := ad_handle a\<rparr>)) st))"
      by (rule fine_event [OF inv, of "EValidated (en_route_conn en) (in_seq p) (Some (m\<lparr>vr_handle := ad_handle a\<rparr>))"])
        (use ok Some ma in auto)
    then show ?thesis by (simp add: HandleValidatePdu_def Some ma with_attach_def Inr)
  qed (simp add: HandleValidatePdu_def Some ma with_attach_def safe_def)
qed (simp add: HandleValidatePdu_def safe_def inv)

lemma client_pdu_safe:
  assumes inv: "session_inv db None None st" and reg: "msg_registered st c"
    and new: "users st (en_new en) = None"
    and name: "\<And>m. pb_login_req sp (in_body p) = Some m \<Longrightarrow> lr_user_name m \<noteq> []"
  shows "safe db (ClientHandlePdu sp en c p st)"
proof -
  have login: "safe db (no_throw (\<lambda>p. HandleloginRequest (en_db en, en_login en, en_route en) (en_new en)
      (in_seq p) (pb_login_req sp (in_body p)) c) p st)"
    unfolding no_throw_def
    by (rule fine_event [OF inv, of "ELogin (en_db en, en_login en, en_route en) (en_new en) (in_seq p) (pb_login_req sp (in_body p)) c"])
      (use reg new name in \<open>cases "pb_login_req sp (in_body p)"; auto\<close>)+
  have logout: "safe db (no_throw (\<lambda>p. HandleloginOutRequest (logout_token (sp_relay sp)) (en_db en) (in_seq p) c) p st)"
    unfolding no_throw_def by (rule fine_event [OF inv, of "ELogout (logout_token (sp_relay sp)) (en_db en) (in_seq p) c"]) (use reg in auto)
  have kick: "safe db (no_throw (\<lambda>p. HandleKickPCClient (en_route_conn en) (in_seq p) (pb_kick_pc sp (in_body p)) c) p st)"
    unfolding no_throw_def
    by (rule fine_event [OF inv, of "EKickPC (en_route_conn en) (in_seq p) (pb_kick_pc sp (in_body p)) c"]) (use reg in auto)
  have fwd: "quiet st (HandlePushShieldRequest pb en c p st)" "quiet st (HandleQueryPushShieldRequest pb en c p st)"
    "quiet st (HandleClientGetMsgListRequest pb en c p st)" "quiet st (HandleClientGetMsgByMsgIdRequest pb en c p st)"
    "quiet st (HandleClientUnreadMsgCntRequest pb en c p st)" "quiet st (HandleClientGetLatestMsgIDReq pb en c p st)"
    "quiet st (HandleClientRecentContactSessionRequest pb en c p st)" "quiet st (HandleClientUserInfoRequest pb en c p st)"
    "quiet st (HandleClientAllUserRequest pb en c p st)" "quiet st (HandleChangeAvatarRequest pb en c p st)"
    "quiet st (HandleChangeSignInfoRequest pb en c p st)" "quiet st (HandleClientUsersStatusRequest pb en c p st)"
    "quiet st (HandleClientDepartmentRequest pb en c p st)" for pb
    by (simp_all add: forward_defs)
  have "safe db (run_table (client_table sp en c) p st)"
    unfolding client_table_def Let_def
    by (rule safe_entries [OF inv])
      (simp add: login logout kick fwd safe_always [OF inv] safe_no_throw [OF inv] HandleClientMsgReadAck_quiet [OF inv]
        HandleClientP2PCmdMsg_quiet [OF inv] HandleClientRemoveSessionRequest_quiet [OF inv]
        HandleClientFileRequest_quiet [OF inv] HandleClientFileAddOfflineReq_quiet [OF inv])
  then show ?thesis by (simp add: ClientHandlePdu_def safe_def)
qed

lemma db_pdu_safe:
  assumes inv: "session_inv db None None st" and e: "server_env db sp st (SDb pe en p)"
  shows "safe db (run_table (db_table sp pe en) p st)"
proof -
  have aes: "decrypts_blocks (pe_decrypt_block pe)" and len: "\<And>b m. pb_msg_data (sp_relay sp) b = Some m \<Longrightarrow> length (md_msg_data m) < 2 ^ 32"
    using e by auto
  have val: "safe db (HandleValidatePdu sp en p st)" by (rule safe_HandleValidatePdu [OF inv]) (use e in auto)
  have r: "quiet_outcome st (forward_response pb P p st)" for pb P by (rule forward_response_quiet [OF inv])
  show ?thesis
    unfolding db_table_def Let_def
    by (rule safe_entries [OF inv])
      (simp add: val safe_quiet [OF inv] response_defs r safe_always [OF inv] safe_no_throw [OF inv]
        HandleMsgData_quiet [OF inv] HandleChangeAvatarResponse_quiet [OF inv] HandleChangeSignInfoResponse_quiet [OF inv]
        HandleGetDeviceTokenResponse_quiet [OF inv aes len] HandleGroupInfoResponse_quiet [OF inv]
        HandleGroupChangeMemberResponse_quiet [OF inv] HandleFileHasOfflineRes_quiet [OF inv])
qed

lemma route_pdu_safe:
  assumes inv: "session_inv db None None st" and ok: "stat_rsp_ok (sp_push sp) p"
  shows "safe db (run_table (route_table sp en) p st)"
proof -
  have kick: "safe db (no_throw (HandleKickUserPdu sp) p st)"
  proof (cases "pb_kick_user sp (in_body p)")
    case (Some k)
    obtain u t r where k: "k = (u, t, r)" by (cases k)
    have "safe db (map_option Inr (HandleServerKickUser u t r st))"
      by (rule fine_event [OF inv, of "EServerKick u t r"]) auto
    then show ?thesis by (simp add: no_throw_def HandleKickUserPdu_def Some k)
  qed (simp add: no_throw_def HandleKickUserPdu_def safe_def inv)
  have sign: "yields quiet st (sign_info_case sp p st)"
    unfolding sign_info_case_def
    by (rule qs.bind_ok [OF inv route_manager_notices_quiet(2) [OF inv] HandleGroupChangeMemberBroadcast_quiet])
  show ?thesis
    unfolding route_table_def Let_def
    by (rule safe_entries [OF inv])
      (simp add: kick sign safe_quiet [OF inv] safe_no_throw [OF inv] HandleUsersStatusResponse_quiet [OF inv ok]
        route_manager_notices_quiet [OF inv] route_notices_quiet [OF inv] RouteHandleMsgData_quiet [OF inv]
        HandlePCloginStatusNotify_quiet [OF inv] HandleGroupChangeMemberBroadcast_quiet [OF inv] HandleFileNotify_quiet [OF inv])
qed

lemma server_event_safe:
  assumes inv: "session_inv db None None st" and e: "server_env db sp st e"
  shows "safe db (run_server sp e st)"
proof (cases e)
  case (SSession ev)
  show ?thesis
  proof (cases "\<exists>t c h. ev = EConnect t c h")
    case True
    then show ?thesis using e SSession connect_ok [OF inv] by (auto simp: safe_def)
  next
    case False
    then show ?thesis using fine_event [OF inv, of ev] e SSession by simp
  qed
next
  case (SClient en c p)
  then show ?thesis using client_pdu_safe [OF inv, of c en sp p] e by simp
next
  case (SDb pe en p)
  show ?thesis unfolding SDb run_server.simps by (rule db_pdu_safe [OF inv e [unfolded SDb]])
next
  case (SRoute en p)
  then show ?thesis using route_pdu_safe [OF inv, of sp p en] e by simp
next
  case (SFile ips en p)
  then show ?thesis
    unfolding SFile run_server.simps file_table_def
    by (intro safe_entries [OF inv]) (simp add: safe_quiet [OF inv] HandleFileMsgTransRsp_quiet [OF inv])
qed

lemma server_reach_inv: "server_reach db sp st \<Longrightarrow> session_inv db None None st"
proof (induction rule: server_reach.induct)
  case (step st e st')
  then show ?case using server_event_safe [OF step.IH step.hyps(2)] by (simp add: safe_def)
qed (rule session_inv_init)

end
