(* ===== verification/Chat_Run.thy ===== *)
theory Chat_Run
  imports Msg_Server
begin

text \<open>
  A concrete run of the message server: a codec for messages, the remaining protobuf code as constant functions,
  and the state after three logins of two users. The properties of the server are shown at work on it.
\<close>

text \<open>A codec for messages, to run the handlers with.\<close>

definition ser_demo :: "IMMsgData \<Rightarrow> bytes" where
  "ser_demo m = be4 (md_from_user_id m) @ be4 (md_to_session_id m) @ be4 (md_msg_id m) @ be4 (md_create_time m) @
     be4 (md_msg_type m) @ be4 (of_nat (length (md_msg_data m))) @ md_msg_data m @ md_attach_data m"

definition parse_demo :: "bytes \<Rightarrow> IMMsgData option" where
  "parse_demo b = (let n = unat (ReadUint32 (drop 20 b)) in
     Some \<lparr>md_from_user_id = ReadUint32 b, md_to_session_id = ReadUint32 (drop 4 b), md_msg_id = ReadUint32 (drop 8 b),
       md_create_time = ReadUint32 (drop 12 b), md_msg_type = ReadUint32 (drop 16 b),
       md_msg_data = take n (drop 24 b), md_attach_data = drop (24 + n) b\<rparr>)"

lemma ReadUint32_be4: "ReadUint32 (be4 v @ r) = v"
  using be32.get_local [of "be4 v" r] by (simp add: be32.get_put)

lemma parse_ser_demo:
  assumes "length (md_msg_data m) < 2 ^ 32"
  shows "parse_demo (ser_demo m) = Some m"
proof -
  have d: "drop 4 (be4 v @ r) = r" "drop 8 (be4 v @ r) = drop 4 r" "drop 12 (be4 v @ r) = drop 8 r"
    "drop 16 (be4 v @ r) = drop 12 r" "drop 20 (be4 v @ r) = drop 16 r" "drop (24 + n) (be4 v @ r) = drop (20 + n) r"
    "drop (20 + n) (be4 v @ r) = drop (16 + n) r" "drop (16 + n) (be4 v @ r) = drop (12 + n) r"
    "drop (12 + n) (be4 v @ r) = drop (8 + n) r" "drop (8 + n) (be4 v @ r) = drop (4 + n) r"
    "drop (4 + n) (be4 v @ r) = drop n r" "drop 24 (be4 v @ r) = drop 20 r" for v r n
    by simp_all
  show ?thesis
    using unat_of_nat_32 [OF assms] by (simp add: parse_demo_def ser_demo_def Let_def ReadUint32_be4 d del: drop_append)
qed

definition demo_relay :: relay_pb where
  "demo_relay = \<lparr>pb_fwd = \<lambda>cid b. Some \<lparr>fw_user_id = ReadUint32 b, fw_attach = drop 4 b, fw_rest = []\<rparr>,
     ser_fwd = \<lambda>cid m. be4 (fw_user_id m) @ fw_attach m,
     pb_msg_data = parse_demo, ser_msg_data = ser_demo, pb_read = \<lambda>cid b. None,
     ser_read = \<lambda>cid m. be4 (rm_msg_id m), pb_p2p = \<lambda>b. None, pb_remove = \<lambda>cid b. None, ser_remove = \<lambda>cid m. [],
     pb_token = \<lambda>b. None, ser_token = \<lambda>m. [], ser_token_rsp = [], ser_time = be4\<rparr>"

definition demo_group :: group_pb where
  "demo_group = \<lparr>pb_group_info = \<lambda>b. Some \<lparr>gi_user_id = 7, gi_groups = [(3, [7, 8])], gi_attach = b, gi_rest = []\<rparr>,
     ser_group_info = gi_rest,
     ser_group_info_req = \<lambda>u g v a. a, pb_change = \<lambda>c b. None, ser_change = \<lambda>c m. [], pb_create = \<lambda>b. None,
     ser_create = \<lambda>m. [], ser_shield_req = \<lambda>g us a. [], pb_shield_rsp = \<lambda>b. None, ser_device_token_req = \<lambda>us a. [],
     ser_normal_list_empty = [], ser_info_empty = \<lambda>u. [], ser_create_failed = \<lambda>u r n. [],
     ser_change_failed = \<lambda>u t r g. [], ser_shield_failed = \<lambda>u r. []\<rparr>"

definition demo_file :: file_relay_pb where
  "demo_file = \<lparr>pb_file = \<lambda>c b. None, ser_file = \<lambda>c m. [], pb_offline_rsp = \<lambda>b. None, ser_offline_rsp = \<lambda>m. [],
     ser_users_stat_req = \<lambda>u us a. a, pb_file_ips = \<lambda>b. None\<rparr>"

definition demo_push :: push_pb where
  "demo_push = \<lparr>pb_device_tokens = \<lambda>b. None, ser_push_req = pr_flash, pb_push_req = \<lambda>b. None, pb_stat_rsp = \<lambda>b. None,
     ser_stat_rsp = \<lambda>m. []\<rparr>"

definition demo_serv :: serv_pb where
  "demo_serv = \<lparr>pb_sign_rsp = \<lambda>b. None, ser_sign_rsp = \<lambda>m. [], ser_sign_notify = \<lambda>u s. s, pb_sign_notify = \<lambda>b. None,
     pb_status_notify = \<lambda>b. None, pb_pc_status = \<lambda>b. None, ser_pc_status = \<lambda>u s. []\<rparr>"

definition demo_sp :: msg_server_pb where
  "demo_sp = \<lparr>sp_relay = demo_relay, sp_group = demo_group, sp_file = demo_file, sp_push = demo_push, sp_serv = demo_serv,
     pb_login_req = \<lambda>b. None, pb_kick_pc = \<lambda>b. None, pb_validate_rsp = \<lambda>b. None, pb_kick_user = \<lambda>b. None\<rparr>"

definition demo_en :: relay_env where
  "demo_en = \<lparr>en_time = 100, en_tick = 1000, en_db = True, en_login = True, en_route = True, en_route_conn = True,
     en_push = True, en_file = None, en_new = 9\<rparr>"

definition demo_pe :: push_env where
  "demo_pe = \<lparr>pe_nick = \<lambda>_. [], pe_json_data = \<lambda>_ _ _. [],
     pe_decrypt_block = \<lambda>b. Some (take 16 b), pe_junk = \<lambda>_. 0\<rparr>"

text \<open>Two users: bob with two clients, amy with one.\<close>

definition chat_logins :: "msg_event list" where
  "chat_logins = two_logins @
    [EConnect 0 3 7, ELogin (True, True, True) 3 0 (Some (login_as ''amy'')) 3,
     EValidated True 0 (Some \<lparr>vr_user_name = ''amy'', vr_result = 0, vr_handle = 7, vr_user_id = 8\<rparr>)]"

definition chat_state :: msg_state where
  "chat_state = (case run_events chat_logins msg_init of Done st \<Rightarrow> st | _ \<Rightarrow> msg_init)"

definition chat_db :: "string \<Rightarrow> u32" where
  "chat_db n = (if n = ''amy'' then 8 else 7)"

lemma chat_run:
  "\<exists>st. run_events chat_logins msg_init = Done st \<and> g_msg_conn_map st = [(7, 3), (6, 2), (5, 1)] \<and>
     mc_handle (conns st 1) = 5 \<and> mc_handle (conns st 2) = 6 \<and> mc_handle (conns st 3) = 7 \<and>
     m_bOpen (conns st 1) \<and> m_bOpen (conns st 2) \<and> m_bOpen (conns st 3) \<and> m_msg_cnt_per_sec (conns st 1) = 0 \<and>
     mc_user_id (conns st 1) = 7 \<and> mc_user_id (conns st 2) = 7 \<and> mc_user_id (conns st 3) = 8 \<and>
     users st 9 = None \<and> to_db st = [DbValidate ''bob'' 5, DbValidate ''bob'' 6, DbValidate ''amy'' 7]"
  by (simp add: chat_logins_def two_logins_def run_simps insort_insert_key_def open_simps close_simps)

lemma chat_done: "run_events chat_logins msg_init = Done chat_state"
  using chat_run by (auto simp: chat_state_def)

lemma chat_eval:
  "g_msg_conn_map chat_state = [(7, 3), (6, 2), (5, 1)]"
  "mc_handle (conns chat_state 1) = 5" "mc_handle (conns chat_state 2) = 6" "mc_handle (conns chat_state 3) = 7"
  "m_bOpen (conns chat_state 1)" "m_bOpen (conns chat_state 2)" "m_bOpen (conns chat_state 3)"
  "m_msg_cnt_per_sec (conns chat_state 1) = 0"
  "mc_user_id (conns chat_state 1) = 7" "mc_user_id (conns chat_state 2) = 7" "mc_user_id (conns chat_state 3) = 8"
  "users chat_state 9 = None"
  using chat_run by (auto simp: chat_done)

lemma msg_reach_server: "msg_reach db st \<Longrightarrow> server_reach db sp st"
  by (induction rule: msg_reach.induct) (auto intro: server_reach.init server_reach.step [where e = "SSession e" for e])

lemma chat_reach: "server_reach chat_db sp chat_state"
  by (rule msg_reach_server, rule run_reach [OF chat_done msg_reach.init])
    (simp add: chat_logins_def two_logins_def login_as_def chat_db_def)

lemma chat_sessions:
  "session_of chat_state 7 1" "session_of chat_state 7 2" "session_of chat_state 8 3" "\<not> session_of chat_state 8 1"
  "\<not> session_of chat_state 7 3" "\<not> session_of chat_state 8 2"
  by (simp_all add: session_of_def chat_eval chat_eval [unfolded One_nat_def])

end
