(* ===== verification/Delivery.thy ===== *)
theory Delivery
  imports Chat_Run Route_Server
begin

text \<open>
  What the message server guarantees: memory safety of all handlers, the delivery of a message on the server that stores
  it and on the others, the delivery of group messages, that an answer reaches the connection that asked and no
  other, the limit of messages per second, and where the order of queued tasks breaks the first.
\<close>

subsection \<open>Memory safety\<close>

text \<open>
  C2: in every state the message server reaches, whatever the order of connects, logins, logouts, kicks, client requests,
  answers of the database, PDUs of route and file servers, time-outs and closes, the next event does not make it read a
  deleted user or connection - provided that every event meets \<open>server_env\<close>: a PDU comes from a connection that is still
  registered when it is handled, no client logs in with an empty name, the database gives every name one id (not zero),
  the route server answers a question with a status, the AES library decrypts any block. The first two are needed:
  \<open>empty_login_name_reads_deleted_connection\<close> and \<open>queued_login_reads_deleted_connection\<close> show what happens without.
\<close>

theorem message_server_memory_safe:
  assumes "server_reach db sp st" and "server_env db sp st e"
  shows "\<exists>r. run_server sp e st = Some r"
  using server_event_safe [OF server_reach_inv [OF assms(1)] assms(2)] by (auto simp: safe_def)

lemma message_server_memory_safe_witness:
  "\<exists>r. run_server demo_sp (SClient demo_en 1 (new_pdu CID_MSG_DATA 0 [])) chat_state = Some r"
  by (rule message_server_memory_safe [OF chat_reach])
    (simp add: msg_registered_def chat_eval demo_en_def demo_sp_def)

subsection \<open>Messages a client sends\<close>

definition valid_message :: "relay_pb \<Rightarrow> in_pdu \<Rightarrow> bool" where
  "valid_message pb p \<longleftrightarrow> (case pb_msg_data pb (in_body p) of None \<Rightarrow> False
     | Some msg \<Rightarrow> md_msg_data msg \<noteq> [] \<and>
         \<not> (md_from_user_id msg = md_to_session_id msg \<and> CHECK_MSG_TYPE_SINGLE (md_msg_type msg)))"

definition stamped :: "relay_pb \<Rightarrow> relay_env \<Rightarrow> msg_conn \<Rightarrow> in_pdu \<Rightarrow> in_pdu" where
  "stamped pb en c p = (case pb_msg_data pb (in_body p) of None \<Rightarrow> p
     | Some msg \<Rightarrow> p\<lparr>in_body := ser_msg_data pb (msg\<lparr>md_from_user_id := mc_user_id c, md_create_time := en_time en,
         md_attach_data := attach_bytes ATTACH_TYPE_HANDLE (mc_handle c) 0\<rparr>)\<rparr>)"

lemma invalid_ignored: "\<not> valid_message pb p \<Longrightarrow> HandleClientMsgData pb en c p st = st"
  by (auto simp: valid_message_def HandleClientMsgData_def split: option.splits)

lemma at_limit_ignored: "m_msg_cnt_per_sec (conns st c) \<ge> MAX_MSG_CNT_PER_SECOND \<Longrightarrow> HandleClientMsgData pb en c p st = st"
  by (auto simp: HandleClientMsgData_def split: option.splits)

lemma valid_sent:
  assumes "valid_message pb p" and "m_msg_cnt_per_sec (conns st c) < MAX_MSG_CNT_PER_SECOND" and "en_db en"
  shows "HandleClientMsgData pb en c p st =
    st\<lparr>conns := (conns st)(c := (conns st c)\<lparr>m_msg_cnt_per_sec := m_msg_cnt_per_sec (conns st c) + 1\<rparr>),
       to_db := to_db st @ [DbPdu (stamped pb en (conns st c) p)]\<rparr>"
  using assms
  by (auto simp: valid_message_def stamped_def HandleClientMsgData_def upd_conn_def send_db_def Let_def not_le split: option.splits)

lemma stamped_counter: "stamped pb en (c\<lparr>m_msg_cnt_per_sec := n\<rparr>) = stamped pb en c"
  by (simp add: stamped_def fun_eq_iff split: option.split)

subsection \<open>Messages between two users\<close>

lemma answer_found_conn:
  assumes inv: "session_inv db None None st" and g: "GetMsgConnByHandle user_id handle st = Some found"
  obtains cs where "answer_found P m found st = Some (st\<lparr>conns := cs\<rparr>)"
    "\<And>d. cs d = (if session_of st user_id d \<and> mc_handle (conns st d) = handle \<and> P (conns st d)
                 then (conns st d)\<lparr>mc_out := mc_out (conns st d) @ [m]\<rparr> else conns st d)"
proof -
  have "answer P m user_id handle st = answer_found P m found st" by (simp add: answer_def g)
  then show ?thesis using answer_conn [OF inv, of P m user_id handle] that by metis
qed

definition data_ack :: "relay_env \<Rightarrow> IMMsgData \<Rightarrow> msg_ack_t" where
  "data_ack en msg = \<lparr>ack_msg_id = md_msg_id msg, ack_from_id = md_from_user_id msg, ack_timestamp = en_tick en\<rparr>"

definition token_request :: "group_pb \<Rightarrow> relay_pb \<Rightarrow> IMMsgData \<Rightarrow> in_pdu \<Rightarrow> in_pdu" where
  "token_request gpb pb msg p = new_pdu CID_OTHER_GET_DEVICE_TOKEN_REQ 0
     (ser_device_token_req gpb [md_to_session_id msg] (in_body (client_data pb msg p)))"

lemma two_casts:
  assumes inv: "session_inv db None None st"
    and sk: "\<And>d. Some d = skip \<longleftrightarrow> session_of st u1 d \<and> Q d"
  shows "\<exists>cs. (do {
      t \<leftarrow> user_cast (BroadcastClientMsgData (en_tick en) m (md_msg_id msg) skip (md_from_user_id msg)) u1 st;
      user_cast (BroadcastClientMsgData (en_tick en) m (md_msg_id msg) None (md_from_user_id msg)) u2 t})
      = Some (st\<lparr>conns := cs\<rparr>) \<and> quiet st (st\<lparr>conns := cs\<rparr>) \<and>
    (\<forall>d. mc_out (cs d) = mc_out (conns st d) @ (if session_of st u1 d \<and> \<not> Q d then [m] else []) @
           (if session_of st u2 d then [m] else []) \<and>
         m_send_msg_list (cs d) = m_send_msg_list (conns st d) @
           (if session_of st u1 d \<and> \<not> Q d then [data_ack en msg] else []) @ (if session_of st u2 d then [data_ack en msg] else []))"
proof -
  let ?bc = "\<lambda>c. BroadcastClientMsgData (en_tick en) m (md_msg_id msg) c (md_from_user_id msg)"
  let ?wd = "with_data (en_tick en) m (md_msg_id msg) (md_from_user_id msg)"
  obtain cs1 where c1: "user_cast (?bc skip) u1 st = Some (st\<lparr>conns := cs1\<rparr>)"
    "\<And>d. cs1 d = (if session_of st u1 d \<and> Some d \<noteq> skip then ?wd (conns st d) else conns st d)"
    by (rule user_cast_data [OF inv, of "en_tick en" m "md_msg_id msg" skip "md_from_user_id msg" u1]) blast
  let ?st1 = "st\<lparr>conns := cs1\<rparr>"
  have q1: "quiet st ?st1" by (rule quiet_conns) (simp add: same_session_def c1(2))
  note inv1 = quiet_session_inv [OF inv q1]
  obtain cs2 where c2: "user_cast (?bc None) u2 ?st1 = Some (?st1\<lparr>conns := cs2\<rparr>)"
    "\<And>d. cs2 d = (if session_of ?st1 u2 d \<and> Some d \<noteq> None then ?wd (conns ?st1 d) else conns ?st1 d)"
    by (rule user_cast_data [OF inv1, of "en_tick en" m "md_msg_id msg" None "md_from_user_id msg" u2]) blast
  have q2: "quiet st (st\<lparr>conns := cs2\<rparr>)"
    by (rule quiet_conns) (simp add: same_session_def c1(2) c2(2))
  have s: "session_of ?st1 = session_of st" by (rule quiet_session_of [OF q1])
  have "session_of st u1 d \<and> Some d \<noteq> skip \<longleftrightarrow> session_of st u1 d \<and> \<not> Q d" for d using sk [of d] by blast
  then have c1': "cs1 d = (if session_of st u1 d \<and> \<not> Q d then ?wd (conns st d) else conns st d)" for d
    using c1(2) [of d] by presburger
  show ?thesis
    using q2 by (intro exI [of _ cs2]) (simp add: c1(1) c2 s c1' data_ack_def)
qed

lemma HandleMsgData_effect:
  assumes inv: "session_inv db None None st"
    and msg: "pb_msg_data pb (in_body p) = Some msg" "\<not> CHECK_MSG_TYPE_GROUP (md_msg_type msg)" "md_msg_id msg \<noteq> 0"
    and a: "db_attach_of (md_attach_data msg) = Inr a"
  defines "data \<equiv> MForward (client_data pb msg p)" and "ack \<equiv> msg_ack pb SESSION_TYPE_SINGLE msg p"
    and "mine \<equiv> (\<lambda>d. mc_handle (conns st d) = ad_handle a)"
  shows "\<exists>st'. HandleMsgData pb gpb en p st = Some (Inr st') \<and>
    to_route st' = to_route st @ (if en_route_conn en then [RoutePdu p] else []) \<and>
    to_db st' = to_db st @ [DbPdu (token_request gpb pb msg p)] \<and>
    (\<forall>d. mc_out (conns st' d) = mc_out (conns st d) @
           (if session_of st (md_from_user_id msg) d then [if mine d then ack else data] else []) @
           (if session_of st (md_to_session_id msg) d then [data] else []) \<and>
         m_send_msg_list (conns st' d) = m_send_msg_list (conns st d) @
           (if session_of st (md_from_user_id msg) d \<and> \<not> mine d then [data_ack en msg] else []) @
           (if session_of st (md_to_session_id msg) d then [data_ack en msg] else []))"
proof -
  let ?u1 = "md_from_user_id msg" and ?u2 = "md_to_session_id msg"
  obtain r where r: "GetMsgConnByHandle ?u1 (ad_handle a) st = Some r"
    "\<And>c. r = Some c \<longleftrightarrow> session_of st ?u1 c \<and> mc_handle (conns st c) = ad_handle a"
    using GetMsgConnByHandle_session [OF inv] by blast
  obtain cs where cs: "answer_found (\<lambda>_. True) ack r st = Some (st\<lparr>conns := cs\<rparr>)"
    "\<And>d. cs d = (if session_of st ?u1 d \<and> mine d \<and> True then (conns st d)\<lparr>mc_out := mc_out (conns st d) @ [ack]\<rparr> else conns st d)"
    unfolding mine_def by (rule answer_found_conn [OF inv r(1), of "\<lambda>_. True" ack]) blast
  let ?st1 = "send_route en p (st\<lparr>conns := cs\<rparr>)"
  have q: "quiet st ?st1"
    by (rule quiet_trans [OF quiet_conns quiet_sends(2)]) (simp add: same_session_def cs(2))
  have s: "session_of ?st1 = session_of st" by (rule quiet_session_of [OF q])
  have "Some d = r \<longleftrightarrow> session_of ?st1 ?u1 d \<and> mine d" for d unfolding s mine_def using r(2) [of d] by (auto simp: eq_commute)
  from two_casts [OF quiet_session_inv [OF inv q] this, of en data msg ?u2]
  obtain cs' where c: "(do {
      t \<leftarrow> user_cast (BroadcastClientMsgData (en_tick en) data (md_msg_id msg) r ?u1) ?u1 ?st1;
      user_cast (BroadcastClientMsgData (en_tick en) data (md_msg_id msg) None ?u1) ?u2 t}) = Some (?st1\<lparr>conns := cs'\<rparr>)"
    "\<And>d. mc_out (cs' d) = mc_out (conns ?st1 d) @ (if session_of st ?u1 d \<and> \<not> mine d then [data] else []) @
           (if session_of st ?u2 d then [data] else [])"
    "\<And>d. m_send_msg_list (cs' d) = m_send_msg_list (conns ?st1 d) @
           (if session_of st ?u1 d \<and> \<not> mine d then [data_ack en msg] else []) @ (if session_of st ?u2 d then [data_ack en msg] else [])"
    unfolding s by blast
  let ?st2 = "?st1\<lparr>conns := cs', to_db := to_db ?st1 @ [DbPdu (new_pdu CID_OTHER_GET_DEVICE_TOKEN_REQ 0
              (ser_device_token_req gpb [?u2] (in_body (client_data pb msg p))))]\<rparr>"
  have h: "HandleMsgData pb gpb en p st = Some (Inr ?st2)"
    using c(1) by (auto simp: HandleMsgData_def msg with_attach_def a r(1) ack_def [symmetric] cs(1) data_def [symmetric]
        bind_eq_Some_conv)
  show ?thesis
    by (intro exI [of _ ?st2] conjI h) (simp_all add: c(2,3) cs(2) send_route_def token_request_def)
qed

lemma run_db_data: "in_cid p = CID_MSG_DATA \<Longrightarrow>
    run_server sp (SDb pe en p) st = HandleMsgData (sp_relay sp) (sp_group sp) en p st"
  by (simp add: run_table_def db_table_def Let_def const_defs)

text \<open>
  C3: a message between two users that the database has stored (its id is not zero) is delivered on this server: among the
  connections of the sender the one it came from gets one acknowledgement and each other one copy, each connection of
  the receiver gets one copy, no other connection gets anything (when sender and receiver are the same user a
  connection gets both); each copy sent waits for its acknowledgement, the message goes to the route server
  once, and the database is asked once for the push tokens of the receiver.
\<close>

theorem message_delivered_once:
  assumes "server_reach db sp st" and "in_cid p = CID_MSG_DATA"
    and "pb_msg_data (sp_relay sp) (in_body p) = Some msg" "\<not> CHECK_MSG_TYPE_GROUP (md_msg_type msg)" "md_msg_id msg \<noteq> 0"
    and "db_attach_of (md_attach_data msg) = Inr a"
  defines "data \<equiv> MForward (client_data (sp_relay sp) msg p)" and "ack \<equiv> msg_ack (sp_relay sp) SESSION_TYPE_SINGLE msg p"
    and "mine \<equiv> (\<lambda>d. mc_handle (conns st d) = ad_handle a)"
  shows "\<exists>st'. run_server sp (SDb pe en p) st = Some (Inr st') \<and>
    to_route st' = to_route st @ (if en_route_conn en then [RoutePdu p] else []) \<and>
    to_db st' = to_db st @ [DbPdu (token_request (sp_group sp) (sp_relay sp) msg p)] \<and>
    (\<forall>d. mc_out (conns st' d) = mc_out (conns st d) @
           (if session_of st (md_from_user_id msg) d then [if mine d then ack else data] else []) @
           (if session_of st (md_to_session_id msg) d then [data] else []) \<and>
         m_send_msg_list (conns st' d) = m_send_msg_list (conns st d) @
           (if session_of st (md_from_user_id msg) d \<and> \<not> mine d then [data_ack en msg] else []) @
           (if session_of st (md_to_session_id msg) d then [data_ack en msg] else []))"
  unfolding run_db_data [OF assms(2)] data_def ack_def mine_def
  by (rule HandleMsgData_effect [OF server_reach_inv [OF assms(1)] assms(3-6)])

definition hello :: "IMMsgData" where
  "hello = \<lparr>md_from_user_id = 7, md_to_session_id = 8, md_msg_id = 42, md_create_time = 100, md_msg_type = MSG_TYPE_SINGLE_TEXT,
     md_msg_data = [104, 105], md_attach_data = attach_bytes ATTACH_TYPE_HANDLE 5 0\<rparr>"

definition hello_pdu :: in_pdu where
  "hello_pdu = new_pdu CID_MSG_DATA 3 (ser_demo hello)"

lemma hello:
  "in_cid hello_pdu = CID_MSG_DATA" "pb_msg_data (sp_relay demo_sp) (in_body hello_pdu) = Some hello"
  "\<not> CHECK_MSG_TYPE_GROUP (md_msg_type hello)" "md_msg_id hello \<noteq> 0"
  "db_attach_of (md_attach_data hello) = Inr \<lparr>ad_type = ATTACH_TYPE_HANDLE, ad_handle = 5, ad_service_type = 0\<rparr>"
  using parse_ser_demo [of hello]
  by (simp_all add: hello_pdu_def new_pdu_def demo_sp_def demo_relay_def hello_def db_attach_roundtrip CHECK_MSG_TYPE_GROUP_def const_defs)

lemma message_delivered_once_witness:
  "\<exists>st'. run_server demo_sp (SDb demo_pe demo_en hello_pdu) chat_state = Some (Inr st') \<and>
     to_db st' = to_db chat_state @ [DbPdu (token_request (sp_group demo_sp) demo_relay hello hello_pdu)] \<and>
     mc_out (conns st' 1) = mc_out (conns chat_state 1) @ [msg_ack demo_relay SESSION_TYPE_SINGLE hello hello_pdu] \<and>
     mc_out (conns st' 2) = mc_out (conns chat_state 2) @ [MForward (client_data demo_relay hello hello_pdu)] \<and>
     mc_out (conns st' 3) = mc_out (conns chat_state 3) @ [MForward (client_data demo_relay hello hello_pdu)]"
proof -
  have u: "md_from_user_id hello = 7" "md_to_session_id hello = 8" "sp_relay demo_sp = demo_relay"
    by (simp_all add: hello_def demo_sp_def)
  note s = chat_sessions chat_eval(2-4) u
  from message_delivered_once [OF chat_reach hello, of demo_pe demo_en] show ?thesis
    by (auto simp del: run_server.simps simp: s s [unfolded One_nat_def])
qed

subsection \<open>The other message servers\<close>

lemma RouteHandleMsgData_effect:
  assumes inv: "session_inv db None None st"
    and msg: "pb_msg_data pb (in_body p) = Some msg" "\<not> CHECK_MSG_TYPE_GROUP (md_msg_type msg)"
  shows "\<exists>st'. RouteHandleMsgData pb gpb en p st = Some st' \<and>
    (\<forall>d. mc_out (conns st' d) = mc_out (conns st d) @
           (if session_of st (md_from_user_id msg) d then [MForward p] else []) @
           (if session_of st (md_to_session_id msg) d then [MForward p] else []))"
proof -
  have "\<And>d. Some d = None \<longleftrightarrow> session_of st (md_from_user_id msg) d \<and> False" by simp
  from two_casts [OF inv this, of en "MForward p" msg "md_to_session_id msg"] show ?thesis
    by (auto simp: RouteHandleMsgData_def msg)
qed

lemma run_route_data: "in_cid p = CID_MSG_DATA \<Longrightarrow> pb_msg_data (sp_relay sp) (in_body p) = Some msg \<Longrightarrow>
    run_server sp (SRoute en p) st = map_option Inr (RouteHandleMsgData (sp_relay sp) (sp_group sp) en p st)"
  by (simp add: run_table_def route_table_def Let_def no_throw_def const_defs)

lemma RouteRead_data:
  assumes "(route_step rpb)\<^sup>*\<^sup>* route_init rst" and "in_cid p = CID_MSG_DATA"
  shows "outbox (RouteRead rpb now here p rst) c =
    outbox rst c @ (if c \<in> registered rst \<and> c \<noteq> here then [RForward p] else [])"
proof -
  let ?rst = "rst\<lparr>rconn := (rconn rst)(here := (rconn rst here)\<lparr>rc_last_recv_tick := now\<rparr>)\<rparr>"
  have "conns_ok rst" using route_inv_reachable [OF assms(1)] by (simp add: route_inv_def)
  then have "conns_ok ?rst" by (auto simp: conns_ok_def)
  moreover have "RouteRead rpb now here p rst = BroadcastMsg now (RForward p) (Some here) ?rst"
    using assms(2) by (simp add: RouteRead_def HandlePdu_def relayed_cids_def const_defs)
  ultimately show ?thesis by (simp add: BroadcastMsg_outbox registered_def)
qed

text \<open>
  The answer of the database server to a message: the same PDU with the id of the message (\<open>sendMessage\<close> of
  \<open>business/MessageContent.cpp\<close>).
\<close>

definition stored :: "relay_pb \<Rightarrow> u32 \<Rightarrow> in_pdu \<Rightarrow> in_pdu" where
  "stored pb i q = (case pb_msg_data pb (in_body q) of None \<Rightarrow> q
     | Some msg \<Rightarrow> q\<lparr>in_body := ser_msg_data pb (msg\<lparr>md_msg_id := i\<rparr>)\<rparr>)"

lemma run_client_data:
  assumes "in_cid p = CID_MSG_DATA" and "m_bOpen (conns st c)"
  shows "run_server sp (SClient en c p) st = Some (Inr (HandleClientMsgData (sp_relay sp) en c p st))"
  using assms
  by (simp add: ClientHandlePdu_def not_authorized_def run_table_def client_table_def Let_def const_defs always_def)

text \<open>
  C4: a message a client sends reaches every session of its receiver, on whichever message server it is. The server of the
  client passes a valid message below the limit to the database; when the database answers, with the id of the
  message and whatever has happened to the server meanwhile, it serves its own sessions (the connection that sent the
  message gets the acknowledgement, the other ones of the sender and those of the receiver a copy) and hands the
  message to the route server, which puts it once into the outbox of each other message server, and each of these sends
  it once to every session of the sender and of the receiver. \<open>other c\<close> is the state of the server behind the connection
  \<open>c\<close> of the route server.
\<close>

theorem message_reaches_every_session:
  assumes "server_reach db sp st0" "session_of st0 uid c0" "in_cid p0 = CID_MSG_DATA" "valid_message (sp_relay sp) p0"
      "m_msg_cnt_per_sec (conns st0 c0) < MAX_MSG_CNT_PER_SECOND" "en_db en0"
    and "pb_msg_data (sp_relay sp) (in_body p0) = Some msg0" "\<not> CHECK_MSG_TYPE_GROUP (md_msg_type msg0)"
    and "\<And>m. md_msg_data m = md_msg_data msg0 \<Longrightarrow> pb_msg_data (sp_relay sp) (ser_msg_data (sp_relay sp) m) = Some m"
    and "i \<noteq> 0" "server_reach db sp st" "en_route_conn en"
    and "(route_step rpb)\<^sup>*\<^sup>* route_init rst" and "\<And>c. server_reach db sp (other c)"
  defines "sent \<equiv> stamped (sp_relay sp) en0 (conns st0 c0) p0"
    and "p \<equiv> stored (sp_relay sp) i (stamped (sp_relay sp) en0 (conns st0 c0) p0)"
    and "msg \<equiv> msg0\<lparr>md_from_user_id := uid, md_create_time := en_time en0,
      md_attach_data := attach_bytes ATTACH_TYPE_HANDLE (mc_handle (conns st0 c0)) 0, md_msg_id := i\<rparr>" and "to \<equiv> md_to_session_id msg0"
  shows "\<exists>st1 st2. run_server sp (SClient en0 c0 p0) st0 = Some (Inr st1) \<and> to_db st1 = to_db st0 @ [DbPdu sent] \<and>
     run_server sp (SDb pe en p) st = Some (Inr st2) \<and> to_route st2 = to_route st @ [RoutePdu p] \<and>
     (\<forall>d. mc_out (conns st2 d) = mc_out (conns st d) @
        (if session_of st uid d then [if mc_handle (conns st d) = mc_handle (conns st0 c0)
            then msg_ack (sp_relay sp) SESSION_TYPE_SINGLE msg p else MForward (client_data (sp_relay sp) msg p)] else []) @
        (if session_of st to d then [MForward (client_data (sp_relay sp) msg p)] else [])) \<and>
     (\<forall>c \<in> registered rst - {here}. outbox (RouteRead rpb now here p rst) c = outbox rst c @ [RForward p] \<and>
        (\<exists>ot. run_server sp (SRoute (oen c) p) (other c) = Some (Inr ot) \<and>
           (\<forall>d. mc_out (conns ot d) = mc_out (conns (other c) d) @ (if session_of (other c) uid d then [MForward p] else []) @
              (if session_of (other c) to d then [MForward p] else []))))"
proof -
  let ?pb = "sp_relay sp"
  have open0: "m_bOpen (conns st0 c0)" "mc_user_id (conns st0 c0) = uid" using assms(2) by (simp_all add: session_of_def)
  have sent: "sent = p0\<lparr>in_body := ser_msg_data ?pb (msg\<lparr>md_msg_id := md_msg_id msg0\<rparr>)\<rparr>"
    by (simp add: sent_def stamped_def assms(7) msg_def open0(2))
  have p: "p = p0\<lparr>in_body := ser_msg_data ?pb msg\<rparr>"
    using assms(9) by (simp add: p_def sent_def [symmetric] stored_def sent) (simp add: msg_def)
  have m: "pb_msg_data ?pb (in_body p) = Some msg" using assms(9) by (simp add: p msg_def)
  have ids: "in_cid p = CID_MSG_DATA" "\<not> CHECK_MSG_TYPE_GROUP (md_msg_type msg)" "md_msg_id msg \<noteq> 0"
    "md_from_user_id msg = uid" "md_to_session_id msg = to"
    "db_attach_of (md_attach_data msg) = Inr \<lparr>ad_type = ATTACH_TYPE_HANDLE, ad_handle = mc_handle (conns st0 c0), ad_service_type = 0\<rparr>"
    using assms(3,8,10) by (simp_all add: p msg_def to_def db_attach_roundtrip)
  have o: "\<exists>ot. run_server sp (SRoute (oen c) p) (other c) = Some (Inr ot) \<and>
           (\<forall>d. mc_out (conns ot d) = mc_out (conns (other c) d) @ (if session_of (other c) uid d then [MForward p] else []) @
              (if session_of (other c) to d then [MForward p] else []))" for c
    using RouteHandleMsgData_effect [OF server_reach_inv [OF assms(14)] m ids(2), of "sp_group sp" "oen c" c] ids(4,5)
    by (auto simp: run_route_data [OF ids(1) m] simp del: run_server.simps)
  have c: "run_server sp (SClient en0 c0 p0) st0 = Some (Inr (HandleClientMsgData ?pb en0 c0 p0 st0))"
      "to_db (HandleClientMsgData ?pb en0 c0 p0 st0) = to_db st0 @ [DbPdu sent]"
    using run_client_data [OF assms(3) open0(1)] valid_sent [of ?pb p0 st0 c0 en0] assms(4-6) by (simp_all add: sent_def)
  obtain st2 where st2: "run_server sp (SDb pe en p) st = Some (Inr st2)" "to_route st2 = to_route st @ [RoutePdu p]"
     "\<forall>d. mc_out (conns st2 d) = mc_out (conns st d) @
        (if session_of st uid d then [if mc_handle (conns st d) = mc_handle (conns st0 c0)
            then msg_ack ?pb SESSION_TYPE_SINGLE msg p else MForward (client_data ?pb msg p)] else []) @
        (if session_of st to d then [MForward (client_data ?pb msg p)] else [])"
    using HandleMsgData_effect [OF server_reach_inv [OF assms(11)] m ids(2,3,6), of "sp_group sp" en]
    unfolding run_db_data [OF ids(1), of sp pe en st, symmetric] ids(4,5) attach_data.select_convs if_P [OF assms(12)]
    by blast
  have "\<forall>c \<in> registered rst - {here}. outbox (RouteRead rpb now here p rst) c = outbox rst c @ [RForward p]"
    using RouteRead_data [OF assms(13) ids(1)] by simp
  with c st2 o show ?thesis by blast
qed

text \<open>bob writes to amy over his first connection; the database gives the message the id 42.\<close>

definition typed :: "IMMsgData" where
  "typed = hello\<lparr>md_from_user_id := 0, md_msg_id := 0, md_attach_data := []\<rparr>"
definition typed_pdu :: in_pdu where
  "typed_pdu = new_pdu CID_MSG_DATA 3 (ser_demo typed)"

lemma message_reaches_every_session_witness:
  "\<exists>st1 st2. run_server demo_sp (SClient demo_en 1 typed_pdu) chat_state = Some (Inr st1) \<and>
     to_db st1 = to_db chat_state @ [DbPdu (stamped demo_relay demo_en (conns chat_state 1) typed_pdu)] \<and>
     run_server demo_sp (SDb demo_pe demo_en (stored demo_relay 42 (stamped demo_relay demo_en (conns chat_state 1) typed_pdu)))
       chat_state = Some (Inr st2) \<and> length (mc_out (conns st2 3)) = length (mc_out (conns chat_state 3)) + 1"
proof -
  have m: "pb_msg_data (sp_relay demo_sp) (in_body typed_pdu) = Some typed"
    using parse_ser_demo [of typed] by (simp add: typed_pdu_def new_pdu_def demo_sp_def demo_relay_def typed_def hello_def)
  have codec: "pb_msg_data (sp_relay demo_sp) (ser_msg_data (sp_relay demo_sp) m) = Some m"
    if "md_msg_data m = md_msg_data typed" for m
    using parse_ser_demo [of m] that by (simp add: demo_sp_def demo_relay_def typed_def hello_def)
  have u: "in_cid typed_pdu = CID_MSG_DATA" "valid_message (sp_relay demo_sp) typed_pdu" "en_db demo_en" "en_route_conn demo_en"
     "\<not> CHECK_MSG_TYPE_GROUP (md_msg_type typed)" "m_msg_cnt_per_sec (conns chat_state 1) < MAX_MSG_CNT_PER_SECOND"
     "md_to_session_id typed = 8" "sp_relay demo_sp = demo_relay"
    using m hello(3)
    by (simp_all add: typed_pdu_def new_pdu_def valid_message_def typed_def hello_def demo_en_def demo_sp_def chat_eval
        chat_eval [unfolded One_nat_def] MAX_MSG_CNT_PER_SECOND_def)
  from message_reaches_every_session [where other = "\<lambda>_. chat_state" and oen = "\<lambda>_. demo_en" and here = 1 and now = 9 and pe = demo_pe
      and i = 42, OF chat_reach chat_sessions(1) u(1,2,6,3) m u(5) codec _ chat_reach u(4) example_state_reachable chat_reach]
  show ?thesis unfolding u(7,8) using chat_sessions(3,5) by (auto simp del: run_server.simps)
qed

subsection \<open>Group messages\<close>

lemma send_to_member_conn:
  assumes inv: "session_inv db None None st"
  obtains cs where "send_to_member pdu uid h m st = Some (st\<lparr>conns := cs\<rparr>)"
    "\<And>d. cs d = (if session_of st m d \<and> \<not> (m = uid \<and> h \<noteq> 0 \<and> mc_handle (conns st d) = h)
                 then (conns st d)\<lparr>mc_out := mc_out (conns st d) @ [MForward pdu]\<rparr> else conns st d)"
proof (cases "GetImUserById m st")
  case None
  then show ?thesis using no_sessions [OF inv None] by (intro that [of "conns st"]) (auto simp: send_to_member_def)
next
  case (Some q)
  obtain r where r: "GetMsgConnByHandle uid h st = Some r" "\<And>c. r = Some c \<longleftrightarrow> session_of st uid c \<and> mc_handle (conns st c) = h"
    using GetMsgConnByHandle_session [OF inv] by blast
  let ?from = "if m = uid \<and> h \<noteq> 0 then r else None"
  obtain cs where cs: "user_cast (broadcast_where (\<lambda>_. True) (MForward pdu) ?from) m st = Some (st\<lparr>conns := cs\<rparr>)"
    "\<And>d. cs d = (if session_of st m d \<and> Some d \<noteq> ?from \<and> True
                 then (conns st d)\<lparr>mc_out := mc_out (conns st d) @ [MForward pdu]\<rparr> else conns st d)"
    by (rule user_cast_where [OF inv, of "\<lambda>_. True" "MForward pdu" ?from m]) blast
  show ?thesis
  proof (rule that)
    show "send_to_member pdu uid h m st = Some (st\<lparr>conns := cs\<rparr>)"
      using cs(1) r(1) by (auto simp: send_to_member_def Some BroadcastData_def split: if_splits)
    fix d
    have "Some d = r \<longleftrightarrow> session_of st uid d \<and> mc_handle (conns st d) = h" using r(2) [of d] by (auto simp: eq_commute)
    then show "cs d = (if session_of st m d \<and> \<not> (m = uid \<and> h \<noteq> 0 \<and> mc_handle (conns st d) = h)
                 then (conns st d)\<lparr>mc_out := mc_out (conns st d) @ [MForward pdu]\<rparr> else conns st d)"
      unfolding cs(2) by auto
  qed
qed

definition member_copies :: "msg_state \<Rightarrow> u32 \<Rightarrow> u32 \<Rightarrow> u32 list \<Rightarrow> conn \<Rightarrow> nat" where
  "member_copies st uid h ms d =
     (let c = conns st d in
      if session_of st (mc_user_id c) d \<and> \<not> (mc_user_id c = uid \<and> h \<noteq> 0 \<and> mc_handle c = h)
      then count_list ms (mc_user_id c) else 0)"

lemma run_members:
  "session_inv db None None st \<Longrightarrow>
   \<exists>st'. run_all (send_to_member pdu uid h) ms st = Some st' \<and> quiet st st' \<and>
     (\<forall>d. mc_out (conns st' d) = mc_out (conns st d) @ replicate (member_copies st uid h ms d) (MForward pdu))"
proof (induction ms arbitrary: st)
  case Nil
  then show ?case by (auto simp: member_copies_def Let_def)
next
  case (Cons m ms)
  obtain cs where cs: "send_to_member pdu uid h m st = Some (st\<lparr>conns := cs\<rparr>)"
    "\<And>d. cs d = (if session_of st m d \<and> \<not> (m = uid \<and> h \<noteq> 0 \<and> mc_handle (conns st d) = h)
                 then (conns st d)\<lparr>mc_out := mc_out (conns st d) @ [MForward pdu]\<rparr> else conns st d)"
    using send_to_member_conn [OF Cons.prems, of pdu uid h m] by metis
  let ?st = "st\<lparr>conns := cs\<rparr>"
  have q: "quiet st ?st" by (intro quiet_conns same_session_where [OF cs(2)])
  obtain st' where st': "run_all (send_to_member pdu uid h) ms ?st = Some st'" "quiet ?st st'"
     "\<And>d. mc_out (conns st' d) = mc_out (conns ?st d) @ replicate (member_copies ?st uid h ms d) (MForward pdu)"
    using Cons.IH [OF quiet_session_inv [OF Cons.prems q]] by blast
  have same: "mc_user_id (cs d) = mc_user_id (conns st d)" "mc_handle (cs d) = mc_handle (conns st d)" for d by (simp_all add: cs(2))
  have s: "session_of ?st = session_of st" by (rule quiet_session_of [OF q])
  have "mc_out (conns st' d) = mc_out (conns st d) @ replicate (member_copies st uid h (m # ms) d) (MForward pdu)" for d
  proof -
    have m: "session_of st m d \<longleftrightarrow> m = mc_user_id (conns st d) \<and> session_of st (mc_user_id (conns st d)) d"
      by (auto simp: session_of_def)
    have c: "member_copies ?st uid h ms d = member_copies st uid h ms d" unfolding member_copies_def Let_def s by (auto simp: same)
    have "member_copies st uid h (m # ms) d = member_copies st uid h ms d +
        (if session_of st m d \<and> \<not> (m = uid \<and> h \<noteq> 0 \<and> mc_handle (conns st d) = h) then 1 else 0)"
      using m by (cases "m = mc_user_id (conns st d)") (auto simp: member_copies_def Let_def)
    then show ?thesis unfolding st'(3) c by (auto simp: cs(2))
  qed
  then show ?case using cs(1) st'(1) quiet_trans [OF q st'(2)] by auto
qed

text \<open>
  C5: when the database returns the members of a group with a message attached, and the sender is one of them, every
  session of a member on this server gets the message as often as the member is listed, but the connection it
  came from gets nothing, and neither does anyone who is not a member; the list is then passed on to ask who has
  muted the group.
\<close>

theorem group_message_delivered:
  assumes "server_reach db sp st" and "in_cid q = CID_GROUP_INFO_RESPONSE"
    and "pb_group_info (sp_group sp) (in_body q) = Some rsp" "gi_groups rsp = (gid, members) # gs" "gi_user_id rsp \<in> set members"
    and "gi_attach rsp = pdu_attach_bytes ATTACH_TYPE_HANDLE_AND_PDU h 0 body" "0 < length body" "length body < 2 ^ 30"
    and "pb_msg_data (sp_relay sp) body = Some msg"
  defines "pdu \<equiv> new_pdu CID_MSG_DATA 0 (ser_msg_data (sp_relay sp) msg)"
  shows "\<exists>st'. run_server sp (SDb pe en q) st = Some (Inr st') \<and>
    (\<forall>d. mc_out (conns st' d) = mc_out (conns st d) @ replicate (member_copies st (gi_user_id rsp) h members d) (MForward pdu)) \<and>
    to_db st' = to_db st @ (if en_db en then [DbPdu (new_pdu CID_OTHER_GET_SHIELD_REQ 0
      (ser_shield_req (sp_group sp) gid members (in_body pdu)))] else [])"
proof -
  have run: "run_server sp (SDb pe en q) st = HandleGroupInfoResponse (sp_relay sp) (sp_group sp) en q st"
    using assms(2) by (simp add: run_table_def db_table_def Let_def const_defs)
  obtain st1 where st1: "run_all (send_to_member pdu (gi_user_id rsp) h) members st = Some st1" "quiet st st1"
     "\<And>d. mc_out (conns st1 d) = mc_out (conns st d) @ replicate (member_copies st (gi_user_id rsp) h members d) (MForward pdu)"
    using run_members [OF server_reach_inv [OF assms(1)]] by blast
  have "to_db st1 = to_db st"
    using st1(1)
  proof (induction members arbitrary: st)
    case (Cons m ms)
    then obtain st2 where st2: "send_to_member pdu (gi_user_id rsp) h m st = Some st2"
      "run_all (send_to_member pdu (gi_user_id rsp) h) ms st2 = Some st1" by (auto simp: bind_eq_Some_conv)
    then have "to_db st2 = to_db st"
      by (auto simp: send_to_member_def user_cast_def bind_eq_Some_conv split: option.splits if_splits)
    then show ?case using Cons.IH [OF st2(2)] by simp
  qed simp
  moreover have "of_nat (length body) > (0 :: u32)" "unat (of_nat (length body) :: u32) = length body"
    using assms(7,8) unat_of_nat_32 [of "length body"] by (simp_all add: word_less_nat_alt)
  ultimately show ?thesis
    using assms(3-5,9) st1 unfolding run by (auto simp: HandleGroupInfoResponse_def with_pdu_attach_def assms(6) pdu_attach_roundtrip [OF assms(8)]
        Let_def pdu_def [symmetric] send_db_def)
qed

text \<open>The attached data is what the server asked the question with, so the message is the one it stored.\<close>

lemma group_question_attach:
  "in_body (group_info_question gpb h msg p) = ser_group_info_req gpb (md_from_user_id msg) (md_to_session_id msg) 0
     (pdu_attach_bytes ATTACH_TYPE_HANDLE_AND_PDU h 0 (in_body p))"
  by (simp add: group_info_question_def new_pdu_def)

definition group_rsp_pdu :: in_pdu where
  "group_rsp_pdu = new_pdu CID_GROUP_INFO_RESPONSE 0 (pdu_attach_bytes ATTACH_TYPE_HANDLE_AND_PDU 5 0 (ser_demo hello))"

lemma group_message_delivered_witness:
  "\<exists>st'. run_server demo_sp (SDb demo_pe demo_en group_rsp_pdu) chat_state = Some (Inr st') \<and>
     mc_out (conns st' 1) = mc_out (conns chat_state 1) \<and>
     mc_out (conns st' 2) = mc_out (conns chat_state 2) @ [MForward (new_pdu CID_MSG_DATA 0 (ser_demo hello))] \<and>
     mc_out (conns st' 3) = mc_out (conns chat_state 3) @ [MForward (new_pdu CID_MSG_DATA 0 (ser_demo hello))]"
proof -
  let ?body = "ser_demo hello"
  let ?rsp = "\<lparr>gi_user_id = 7, gi_groups = [(3, [7, 8])], gi_attach = in_body group_rsp_pdu, gi_rest = []\<rparr>"
  have len: "0 < length ?body" "length ?body < 2 ^ 30" by (simp_all add: ser_demo_def hello_def)
  have g: "in_cid group_rsp_pdu = CID_GROUP_INFO_RESPONSE" "pb_group_info (sp_group demo_sp) (in_body group_rsp_pdu) = Some ?rsp"
    "gi_groups ?rsp = (3, [7, 8]) # []" "gi_user_id ?rsp \<in> set [7, 8]"
    "gi_attach ?rsp = pdu_attach_bytes ATTACH_TYPE_HANDLE_AND_PDU 5 0 ?body"
    by (simp_all add: group_rsp_pdu_def new_pdu_def demo_sp_def demo_group_def)
  have m: "pb_msg_data (sp_relay demo_sp) ?body = Some hello" "ser_msg_data (sp_relay demo_sp) hello = ?body"
    using hello(2) by (simp_all add: hello_pdu_def new_pdu_def demo_sp_def demo_relay_def)
  have c: "member_copies chat_state 7 5 [7, 8] 1 = 0" "member_copies chat_state 7 5 [7, 8] 2 = 1"
      "member_copies chat_state 7 5 [7, 8] 3 = 1"
    using chat_sessions by (simp_all add: member_copies_def chat_eval chat_eval [unfolded One_nat_def] Let_def)
  from group_message_delivered [OF chat_reach g len m(1), of demo_pe demo_en] c show ?thesis
    unfolding m(2) by (auto simp del: run_server.simps simp: c [unfolded One_nat_def])
qed

subsection \<open>Answers\<close>

text \<open>The requests whose answer goes back to one connection, with the command ids of both.\<close>

definition answered_requests :: "(u16 \<times> u16) list" where
  "answered_requests =
    [(CID_BUDDY_LIST_RECENT_CONTACT_SESSION_REQUEST, CID_BUDDY_LIST_RECENT_CONTACT_SESSION_RESPONSE),
     (CID_BUDDY_LIST_ALL_USER_REQUEST, CID_BUDDY_LIST_ALL_USER_RESPONSE),
     (CID_BUDDY_LIST_USER_INFO_REQUEST, CID_BUDDY_LIST_USER_INFO_RESPONSE),
     (CID_BUDDY_LIST_DEPARTMENT_REQUEST, CID_BUDDY_LIST_DEPARTMENT_RESPONSE),
     (CID_MSG_LIST_REQUEST, CID_MSG_LIST_RESPONSE), (CID_MSG_GET_BY_MSG_ID_REQ, CID_MSG_GET_BY_MSG_ID_RES),
     (CID_MSG_UNREAD_CNT_REQUEST, CID_MSG_UNREAD_CNT_RESPONSE),
     (CID_MSG_GET_LATEST_MSG_ID_REQ, CID_MSG_GET_LATEST_MSG_ID_RSP),
     (CID_GROUP_NORMAL_LIST_REQUEST, CID_GROUP_NORMAL_LIST_RESPONSE),
     (CID_GROUP_SHIELD_GROUP_REQUEST, CID_GROUP_SHIELD_GROUP_RESPONSE)]"

lemma request_forwarded:
  assumes "(req, rsp) \<in> set answered_requests" and "in_cid p = req" and "pb_fwd (sp_relay sp) req (in_body p) = Some m"
    and "en_db en" and "\<not> not_authorized req (conns st c)"
  shows "run_server sp (SClient en c p) st = Some (Inr (st\<lparr>to_db := to_db st @
    [DbPdu (p\<lparr>in_body := ser_fwd (sp_relay sp) req (m\<lparr>fw_user_id := mc_user_id (conns st c), fw_attach := db_handle c st\<rparr>)\<rparr>)]\<rparr>))"
proof -
  have f: "forward_request (sp_relay sp) (send_db en) (Some (db_handle c st)) c p st = st\<lparr>to_db := to_db st @
    [DbPdu (p\<lparr>in_body := ser_fwd (sp_relay sp) req (m\<lparr>fw_user_id := mc_user_id (conns st c), fw_attach := db_handle c st\<rparr>)\<rparr>)]\<rparr>"
    using assms(2-4) by (simp add: forward_request_def filled_in_def send_db_def)
  have "run_table (client_table sp en c) p st = Some (Inr (forward_request (sp_relay sp) (send_db en) (Some (db_handle c st)) c p st))"
    using assms unfolding answered_requests_def
    by (auto simp: run_table_def client_table_def Let_def const_defs always_def forward_defs
        HandleClientGroupNormalRequest_def HandleClientGroupShieldGroupRequest_def)
  then show ?thesis using assms(2,5) by (simp add: ClientHandlePdu_def f)
qed

lemma response_forwarded:
  assumes "(req, rsp) \<in> set answered_requests" and "in_cid q = rsp"
  shows "\<exists>P. run_server sp (SDb pe en q) st = forward_response (sp_relay sp) P q st \<and> (\<forall>c. m_bOpen c \<longrightarrow> P c)"
  using assms unfolding answered_requests_def
  by (auto simp: run_table_def db_table_def Let_def const_defs response_defs)

text \<open>
  C6: a request is passed to the database with the user and the handle of the connection it came from, whatever the client
  wrote there; and an answer that carries them back is sent, in whatever state the server then is, to this session
  of the user if it still exists and to nobody else.
\<close>

theorem answer_reaches_requester:
  assumes "(req, rsp) \<in> set answered_requests" and "in_cid p = req" and "pb_fwd (sp_relay sp) req (in_body p) = Some m"
    and "en_db en" and "server_reach db sp st" and "session_of st uid c"
    and "server_reach db sp st2" and "in_cid q = rsp" and "pb_fwd (sp_relay sp) rsp (in_body q) = Some r"
    and "fw_user_id r = uid" and "fw_attach r = db_handle c st"
  shows "run_server sp (SClient en c p) st = Some (Inr (st\<lparr>to_db := to_db st @
      [DbPdu (p\<lparr>in_body := ser_fwd (sp_relay sp) req (m\<lparr>fw_user_id := uid, fw_attach := db_handle c st\<rparr>)\<rparr>)]\<rparr>)) \<and>
    (\<exists>st3. run_server sp (SDb pe en2 q) st2 = Some (Inr st3) \<and>
      (\<forall>d. mc_out (conns st3 d) = mc_out (conns st2 d) @
         (if session_of st2 uid d \<and> mc_handle (conns st2 d) = mc_handle (conns st c)
          then [MForward (q\<lparr>in_body := ser_fwd (sp_relay sp) rsp (r\<lparr>fw_attach := []\<rparr>)\<rparr>)] else [])))"
proof
  have u: "mc_user_id (conns st c) = uid" "m_bOpen (conns st c)" using assms(6) by (simp_all add: session_of_def)
  then have "\<not> not_authorized req (conns st c)" by (simp add: not_authorized_def)
  from request_forwarded [OF assms(1-4) this]
  show "run_server sp (SClient en c p) st = Some (Inr (st\<lparr>to_db := to_db st @
      [DbPdu (p\<lparr>in_body := ser_fwd (sp_relay sp) req (m\<lparr>fw_user_id := uid, fw_attach := db_handle c st\<rparr>)\<rparr>)]\<rparr>))"
    unfolding u(1) .
  obtain P where P: "run_server sp (SDb pe en2 q) st2 = forward_response (sp_relay sp) P q st2" "\<And>c. m_bOpen c \<Longrightarrow> P c"
    using response_forwarded [OF assms(1,8)] by blast
  let ?m = "MForward (q\<lparr>in_body := ser_fwd (sp_relay sp) rsp (r\<lparr>fw_attach := []\<rparr>)\<rparr>)" and ?h = "mc_handle (conns st c)"
  obtain cs where cs: "answer P ?m uid ?h st2 = Some (st2\<lparr>conns := cs\<rparr>)"
    "\<And>d. cs d = (if session_of st2 uid d \<and> mc_handle (conns st2 d) = ?h \<and> P (conns st2 d)
                 then (conns st2 d)\<lparr>mc_out := mc_out (conns st2 d) @ [?m]\<rparr> else conns st2 d)"
    by (rule answer_conn [OF server_reach_inv [OF assms(7)], of P ?m uid ?h]) blast
  have "session_of st2 uid d \<Longrightarrow> P (conns st2 d)" for d using P(2) by (simp add: session_of_def)
  then show "\<exists>st3. run_server sp (SDb pe en2 q) st2 = Some (Inr st3) \<and>
      (\<forall>d. mc_out (conns st3 d) = mc_out (conns st2 d) @
         (if session_of st2 uid d \<and> mc_handle (conns st2 d) = ?h then [?m] else []))"
    unfolding P(1) using cs assms(8-11)
    by (auto simp: forward_response_def with_attach_def db_handle_def db_attach_roundtrip)
qed

definition list_request :: in_pdu where "list_request = new_pdu CID_MSG_LIST_REQUEST 1 (be4 0)"
definition list_answer :: in_pdu where
  "list_answer = new_pdu CID_MSG_LIST_RESPONSE 1 (be4 7 @ attach_bytes ATTACH_TYPE_HANDLE 5 0)"

lemma answer_reaches_requester_witness:
  "\<exists>st3. run_server demo_sp (SDb demo_pe demo_en list_answer) chat_state = Some (Inr st3) \<and>
     mc_out (conns st3 1) = mc_out (conns chat_state 1) @ [MForward (new_pdu CID_MSG_LIST_RESPONSE 1 (be4 7))] \<and>
     mc_out (conns st3 2) = mc_out (conns chat_state 2) \<and> mc_out (conns st3 3) = mc_out (conns chat_state 3)"
proof -
  let ?r = "\<lparr>fw_user_id = 7, fw_attach = attach_bytes ATTACH_TYPE_HANDLE 5 0, fw_rest = []\<rparr>"
  have m: "pb_fwd (sp_relay demo_sp) CID_MSG_LIST_REQUEST (in_body list_request) = Some \<lparr>fw_user_id = 0, fw_attach = [], fw_rest = []\<rparr>"
    using ReadUint32_be4 [of 0 "[]"] by (simp add: demo_sp_def demo_relay_def list_request_def new_pdu_def)
  have r: "pb_fwd (sp_relay demo_sp) CID_MSG_LIST_RESPONSE (in_body list_answer) = Some ?r"
    using ReadUint32_be4 [of 7] by (simp add: demo_sp_def demo_relay_def list_answer_def new_pdu_def)
  have q: "(CID_MSG_LIST_REQUEST, CID_MSG_LIST_RESPONSE) \<in> set answered_requests" by (simp add: answered_requests_def)
  have a: "fw_attach ?r = db_handle 1 chat_state" by (simp add: db_handle_def chat_eval chat_eval [unfolded One_nat_def])
  have e: "in_cid list_request = CID_MSG_LIST_REQUEST" "in_cid list_answer = CID_MSG_LIST_RESPONSE" "en_db demo_en"
    "list_answer\<lparr>in_body := b\<rparr> = new_pdu CID_MSG_LIST_RESPONSE 1 b"
    "ser_fwd (sp_relay demo_sp) CID_MSG_LIST_RESPONSE (?r\<lparr>fw_attach := []\<rparr>) = be4 7" for b
    by (simp_all add: list_request_def list_answer_def demo_en_def new_pdu_def demo_sp_def demo_relay_def)
  have u: "fw_user_id ?r = 7" by simp
  note s = chat_sessions chat_eval(2-4)
  from answer_reaches_requester [OF q e(1) m e(3) chat_reach chat_sessions(1) chat_reach e(2) r u a, of demo_pe demo_en]
  show ?thesis unfolding e by (auto simp del: run_server.simps simp: s s [unfolded One_nat_def])
qed

subsection \<open>The limit of messages per second\<close>

text \<open>
  C7: of the messages a connection sends between two timer ticks, the server passes on to the database exactly the valid
  ones (not empty, not to oneself) up to the limit of twenty, counting those before, in their order, and each with
  the user id and the handle of the connection in place of whatever sender the client wrote.
\<close>

theorem messages_per_second_limited:
  assumes "en_db en"
  shows "to_db (fold (HandleClientMsgData pb en c) ps st) = to_db st @
    map (DbPdu \<circ> stamped pb en (conns st c)) (take (20 - unat (m_msg_cnt_per_sec (conns st c))) (filter (valid_message pb) ps))"
proof (induction ps arbitrary: st)
  case (Cons p ps)
  let ?n = "m_msg_cnt_per_sec (conns st c)"
  show ?case
  proof (cases "valid_message pb p \<and> ?n < MAX_MSG_CNT_PER_SECOND")
    case True
    then have "unat ?n < 20" by (simp add: MAX_MSG_CNT_PER_SECOND_def word_less_nat_alt)
    moreover from this have "unat (?n + 1) = unat ?n + 1" by (simp add: unat_add_no_wrap)
    moreover from calculation have "20 - unat ?n = Suc (20 - unat (?n + 1))" by simp
    ultimately show ?thesis
      using Cons.IH [of "HandleClientMsgData pb en c p st"] True valid_sent [of pb p st c en] assms
      by (simp add: stamped_counter)
  next
    case False
    then have "HandleClientMsgData pb en c p st = st"
      using invalid_ignored at_limit_ignored by (auto simp: not_less)
    moreover have "\<not> valid_message pb p \<or> 20 \<le> unat ?n"
      using False by (auto simp: MAX_MSG_CNT_PER_SECOND_def word_less_nat_alt)
    ultimately show ?thesis using Cons.IH [of st] by auto
  qed
qed simp

lemma messages_per_second_limited_witness:
  "to_db (fold (HandleClientMsgData demo_relay demo_en 1) (replicate 30 hello_pdu) chat_state) =
     to_db chat_state @ replicate 20 (DbPdu (stamped demo_relay demo_en (conns chat_state 1) hello_pdu))"
proof -
  have "valid_message demo_relay hello_pdu" "en_db demo_en"
    using hello(2) by (simp_all add: valid_message_def demo_sp_def hello_def demo_en_def)
  then show ?thesis
    using messages_per_second_limited [of demo_en demo_relay 1 "replicate 30 hello_pdu" chat_state]
    by (simp add: chat_eval chat_eval [unfolded One_nat_def] map_replicate_const)
qed

text \<open>The test for a message to oneself looks at the sender the client names, not at the user of the connection.\<close>

lemma message_to_oneself_passes:
  assumes "pb_msg_data pb (in_body p) = Some msg" "md_msg_data msg \<noteq> []" "m_msg_cnt_per_sec (conns st c) < MAX_MSG_CNT_PER_SECOND"
    and "md_to_session_id msg = mc_user_id (conns st c)" "md_from_user_id msg \<noteq> mc_user_id (conns st c)" "en_db en"
  shows "to_db (HandleClientMsgData pb en c p st) = to_db st @
    [DbPdu (p\<lparr>in_body := ser_msg_data pb (msg\<lparr>md_from_user_id := md_to_session_id msg, md_create_time := en_time en,
        md_attach_data := attach_bytes ATTACH_TYPE_HANDLE (mc_handle (conns st c)) 0\<rparr>)\<rparr>)]"
proof -
  have "valid_message pb p" using assms by (simp add: valid_message_def)
  then show ?thesis using valid_sent [OF _ assms(3,6)] assms(1,4) by (simp add: stamped_def)
qed

subsection \<open>A task that runs after its connection was closed\<close>

text \<open>
  C36: a PDU of a client waits in the queue of a worker thread, which keeps the object alive but not the connection open.
  When a login waits there while the connection is closed, it is then entered among the waiting connections of the user;
  with the end of the task the object is deleted, and the answer of the database makes the server read it.
\<close>

theorem queued_login_reads_deleted_connection:
  assumes "n \<noteq> []" and "h \<noteq> -1"
  shows "do {
      st \<leftarrow> run_event (EConnect t c h) msg_init;
      st \<leftarrow> MsgClose c st;
      st \<leftarrow> HandleloginRequest (True, True, True) p s1 (Some (login_as n)) c st;
      HandleValidateResponse r s2 (Some \<lparr>vr_user_name = n, vr_result = res, vr_handle = h, vr_user_id = i\<rparr>) st} = None"
  using assms by (simp add: run_simps insort_insert_key_def close_simps HandleValidateResponse_def)

lemma queued_login_reads_deleted_connection_witness:
  "do {
      st \<leftarrow> run_event (EConnect 0 1 5) msg_init;
      st \<leftarrow> MsgClose 1 st;
      st \<leftarrow> HandleloginRequest (True, True, True) 1 0 (Some (login_as ''bob'')) 1 st;
      HandleValidateResponse True 0 (Some \<lparr>vr_user_name = ''bob'', vr_result = 0, vr_handle = 5, vr_user_id = 7\<rparr>) st} = None"
  by (rule queued_login_reads_deleted_connection) simp_all

end
