(* ===== verification/Serv_Pool.thy ===== *)
theory Serv_Pool
  imports Serv_Conn
begin

text \<open>
  The other connections a message server opens over the templates of \<open>base/ServInfo.h\<close>: \<open>CDBServConn\<close>,
  \<open>CFileServConn\<close> and \<open>CPushServConn\<close> (\<open>msg_server/DBServConn.cpp\<close>, \<open>FileServConn.cpp\<close>, \<open>PushServConn.cpp\<close>), and how one of them is
  chosen for a request: at random over \<open>rand ()\<close>, whose \<open>n\<close>-th result is \<open>rnd n\<close>. The classes share
  the state \<open>cs_state\<close>, each with its own list and map; the field \<open>g_master_rs_conn\<close> stands for
  \<open>g_master_push_conn\<close> with the push servers. What the classes share is the locale \<open>serv_class\<close>.
\<close>

subsection \<open>CDBServConn\<close>

text \<open>\<open>Close\<close> does not reset \<open>m_bOpen\<close>. The serialized \<open>_HandleStopReceivePacket\<close> only takes the connection out of use.\<close>

definition DbServClose :: "conn \<Rightarrow> cs_state \<Rightarrow> cs_state option" where
  "DbServClose this st =
     (let st = serv_reset (m_serv_idx (cs_conns st this)) st;
          h = cs_handle (cs_conns st this);
          st = (if h \<noteq> -1 then st\<lparr>serv_conn_map := cm_erase h (serv_conn_map st)\<rparr> else st)
      in if this \<in> cs_dead st then None else Some (st\<lparr>cs_dead := insert this (cs_dead st)\<rparr>))"

definition DbServOnConfirm :: "conn \<Rightarrow> cs_state \<Rightarrow> cs_state" where
  "DbServOnConfirm this st =
     (let st = upd_cs this (\<lambda>c. c\<lparr>cs_open := True\<rparr>) st
      in upd_serv (m_serv_idx (cs_conns st this)) (\<lambda>s. s\<lparr>reconnect_cnt := MIN_RECONNECT_CNT div 2\<rparr>) st)"

definition DbServOnTimer :: "u64 \<Rightarrow> conn \<Rightarrow> cs_state \<Rightarrow> cs_state option" where
  "DbServOnTimer curr_tick this st =
     (let st = (if curr_tick > cs_last_send_tick (cs_conns st this) + SERVER_HEARTBEAT_INTERVAL
                then cs_send curr_tick SHeartBeat this st else st)
      in if curr_tick > cs_last_recv_tick (cs_conns st this) + SERVER_TIMEOUT
         then DbServClose this st else Some st)"

definition HandleStopReceivePacket :: "conn \<Rightarrow> cs_state \<Rightarrow> cs_state" where
  "HandleStopReceivePacket this st = upd_cs this (\<lambda>c. c\<lparr>cs_open := False\<rparr>) st"

text \<open>
  \<open>init_db_serv_conn\<close> splits the connections: the first ones are for logins. There are \<open>concur_conn_cnt\<close>
  connections to each instance; a zero stops the program.
\<close>

definition db_login_count :: "u32 \<Rightarrow> u32 \<Rightarrow> u32 option" where
  "db_login_count server_count concur_conn_cnt =
     (if concur_conn_cnt = 0 then None
      else let total_db_instance = server_count div concur_conn_cnt
           in Some ((total_db_instance div 2) * concur_conn_cnt))"

text \<open>The connection of an entry, if there is one and it is open.\<close>

definition open_conn :: "cs_state \<Rightarrow> nat \<Rightarrow> conn option" where
  "open_conn st i = (case serv_conn (serv_list st ! i) of
     None \<Rightarrow> None | Some c \<Rightarrow> if cs_open (cs_conns st c) then Some c else None)"

text \<open>\<open>while (true)\<close>: a loop that ends when \<open>rand\<close> hits an open connection; the result holds the number of calls so far.\<close>

partial_function (option) random_loop :: "cs_state \<Rightarrow> nat \<Rightarrow> nat \<Rightarrow> (nat \<Rightarrow> nat) \<Rightarrow> nat \<Rightarrow> (conn \<times> nat) option" where
  "random_loop st start_pos stop_pos rnd n =
     (let i = rnd n mod (stop_pos - start_pos) + start_pos
      in case open_conn st i of
           Some pDbConn \<Rightarrow> Some (pDbConn, Suc n)
         | None \<Rightarrow> random_loop st start_pos stop_pos rnd (Suc n))"

definition get_db_server_conn_in_range :: "cs_state \<Rightarrow> (nat \<Rightarrow> nat) \<Rightarrow> nat \<Rightarrow> nat \<Rightarrow> nat \<Rightarrow> (conn option \<times> nat) option" where
  "get_db_server_conn_in_range st rnd start_pos stop_pos n =
     (case find (\<lambda>i. open_conn st i \<noteq> None) [start_pos..<stop_pos] of
        None \<Rightarrow> Some (None, n)
      | Some i \<Rightarrow> do {
          (pDbConn, n) \<leftarrow> random_loop st start_pos stop_pos rnd n;
          Some (Some pDbConn, n)})"

definition get_db_serv_conn_for_login :: "nat \<Rightarrow> cs_state \<Rightarrow> (nat \<Rightarrow> nat) \<Rightarrow> nat \<Rightarrow> (conn option \<times> nat) option" where
  "get_db_serv_conn_for_login login_count st rnd n = do {
     (pDBConn, n) \<leftarrow> get_db_server_conn_in_range st rnd 0 login_count n;
     if pDBConn = None then get_db_server_conn_in_range st rnd login_count (length (serv_list st)) n
     else Some (pDBConn, n)}"

definition get_db_serv_conn :: "nat \<Rightarrow> cs_state \<Rightarrow> (nat \<Rightarrow> nat) \<Rightarrow> nat \<Rightarrow> (conn option \<times> nat) option" where
  "get_db_serv_conn login_count st rnd n = do {
     (pDBConn, n) \<leftarrow> get_db_server_conn_in_range st rnd login_count (length (serv_list st)) n;
     if pDBConn = None then get_db_server_conn_in_range st rnd 0 login_count n
     else Some (pDBConn, n)}"

subsection \<open>CFileServConn\<close>

definition FileServClose :: "conn \<Rightarrow> cs_state \<Rightarrow> cs_state option" where
  "FileServClose this st =
     (let st = serv_reset (m_serv_idx (cs_conns st this)) st;
          st = upd_cs this (\<lambda>c. c\<lparr>cs_open := False\<rparr>) st;
          h = cs_handle (cs_conns st this);
          st = (if h \<noteq> -1 then st\<lparr>serv_conn_map := cm_erase h (serv_conn_map st)\<rparr> else st)
      in if this \<in> cs_dead st then None else Some (st\<lparr>cs_dead := insert this (cs_dead st)\<rparr>))"

definition FileServOnConfirm :: "u64 \<Rightarrow> conn \<Rightarrow> cs_state \<Rightarrow> cs_state" where
  "FileServOnConfirm tick this st =
     (let st = upd_cs this (\<lambda>c. c\<lparr>cs_open := True, m_connect_time := tick\<rparr>) st;
          st = upd_serv (m_serv_idx (cs_conns st this)) (\<lambda>s. s\<lparr>reconnect_cnt := MIN_RECONNECT_CNT div 2\<rparr>) st
      in cs_send tick SFileServerIPReq this st)"

definition FileServOnTimer :: "u64 \<Rightarrow> conn \<Rightarrow> cs_state \<Rightarrow> cs_state option" where
  "FileServOnTimer curr_tick this st =
     (let st = (if curr_tick > cs_last_send_tick (cs_conns st this) + SERVER_HEARTBEAT_INTERVAL
                then cs_send curr_tick SHeartBeat this st else st)
      in if curr_tick > cs_last_recv_tick (cs_conns st this) + SERVER_TIMEOUT
         then FileServClose this st else Some st)"

definition is_file_server_available :: "cs_state \<Rightarrow> bool" where
  "is_file_server_available st \<longleftrightarrow> (\<exists>i \<in> set [0..<length (serv_list st)]. open_conn st i \<noteq> None)"

text \<open>One random entry, then the others in turn.\<close>

definition get_random_file_serv_conn :: "nat \<Rightarrow> cs_state \<Rightarrow> conn option" where
  "get_random_file_serv_conn rnd st =
     (let n = length (serv_list st) in
      if n = 0 then None
      else let random_num = rnd mod n in
        case open_conn st random_num of
          Some pConn \<Rightarrow> Some pConn
        | None \<Rightarrow> (case find (\<lambda>i. open_conn st ((random_num + i + 1) mod n) \<noteq> None) [0..<n] of
              Some i \<Rightarrow> open_conn st ((random_num + i + 1) mod n)
            | None \<Rightarrow> None))"

subsection \<open>CPushServConn\<close>

definition PushServClose :: "conn \<Rightarrow> cs_state \<Rightarrow> cs_state option" where
  "PushServClose this st =
     (let st = serv_reset (m_serv_idx (cs_conns st this)) st;
          st = upd_cs this (\<lambda>c. c\<lparr>cs_open := False\<rparr>) st;
          st = st\<lparr>g_master_rs_conn := None\<rparr>;
          h = cs_handle (cs_conns st this);
          st = (if h \<noteq> -1 then st\<lparr>serv_conn_map := cm_erase h (serv_conn_map st)\<rparr> else st)
      in if this \<in> cs_dead st then None else Some (st\<lparr>cs_dead := insert this (cs_dead st)\<rparr>))"

definition PushServOnConfirm :: "conn \<Rightarrow> cs_state \<Rightarrow> cs_state" where
  "PushServOnConfirm this st =
     (let st = upd_cs this (\<lambda>c. c\<lparr>cs_open := True\<rparr>) st;
          st = upd_serv (m_serv_idx (cs_conns st this)) (\<lambda>s. s\<lparr>reconnect_cnt := MIN_RECONNECT_CNT div 2\<rparr>) st
      in st\<lparr>g_master_rs_conn := Some this\<rparr>)"

definition PushServOnTimer :: "u64 \<Rightarrow> conn \<Rightarrow> cs_state \<Rightarrow> cs_state option" where
  "PushServOnTimer curr_tick this st =
     (let st = (if curr_tick > cs_last_send_tick (cs_conns st this) + SERVER_HEARTBEAT_INTERVAL
                then cs_send curr_tick SHeartBeat this st else st)
      in if curr_tick > cs_last_recv_tick (cs_conns st this) + SERVER_TIMEOUT
         then PushServClose this st else Some st)"

definition get_push_serv_conn :: "cs_state \<Rightarrow> conn option" where
  "get_push_serv_conn st = (case g_master_rs_conn st of
     None \<Rightarrow> None | Some c \<Rightarrow> if cs_open (cs_conns st c) then Some c else None)"

subsection \<open>Timer callbacks and events\<close>

text \<open>
  The timer callbacks of the classes: \<open>OnTimer\<close> of every connection, in the order of the map as it was, then the
  reconnects. With the database and push servers only open connections are asked (\<open>when_open\<close>).
\<close>

definition when_open :: "(u64 \<Rightarrow> conn \<Rightarrow> cs_state \<Rightarrow> cs_state option) \<Rightarrow> u64 \<Rightarrow> conn \<Rightarrow> cs_state \<Rightarrow> cs_state option" where
  "when_open on_timer cur_time pConn st =
     (if cs_open (cs_conns st pConn) then on_timer cur_time pConn st else Some st)"

fun pool_timer_loop :: "(u64 \<Rightarrow> conn \<Rightarrow> cs_state \<Rightarrow> cs_state option) \<Rightarrow> u64 \<Rightarrow> (u32 \<times> conn) list \<Rightarrow> cs_state \<Rightarrow> cs_state option" where
  "pool_timer_loop on_timer cur_time [] st = Some st"
| "pool_timer_loop on_timer cur_time ((h, pConn) # it) st = do {
     st \<leftarrow> on_timer cur_time pConn st;
     pool_timer_loop on_timer cur_time it st}"

definition pool_timer_callback :: "(u64 \<Rightarrow> conn \<Rightarrow> cs_state \<Rightarrow> cs_state option) \<Rightarrow> u64 \<Rightarrow> connect_env \<Rightarrow> cs_state \<Rightarrow> cs_state option" where
  "pool_timer_callback on_timer cur_time env st = do {
     st \<leftarrow> pool_timer_loop on_timer cur_time (serv_conn_map st) st;
     Some (serv_check_reconnect cur_time env st)}"

record serv_ops =
  op_confirm :: "u64 \<Rightarrow> conn \<Rightarrow> cs_state \<Rightarrow> cs_state"
  op_close :: "conn \<Rightarrow> cs_state \<Rightarrow> cs_state option"
  op_timer :: "u64 \<Rightarrow> conn \<Rightarrow> cs_state \<Rightarrow> cs_state option"
  op_stop :: "conn \<Rightarrow> cs_state \<Rightarrow> cs_state"

definition db_ops :: serv_ops where
  "db_ops = \<lparr>op_confirm = \<lambda>_. DbServOnConfirm, op_close = DbServClose, op_timer = when_open DbServOnTimer,
     op_stop = HandleStopReceivePacket\<rparr>"
definition file_ops :: serv_ops where
  "file_ops = \<lparr>op_confirm = FileServOnConfirm, op_close = FileServClose, op_timer = FileServOnTimer, op_stop = \<lambda>_ st. st\<rparr>"
definition push_ops :: serv_ops where
  "push_ops = \<lparr>op_confirm = \<lambda>_. PushServOnConfirm, op_close = PushServClose, op_timer = when_open PushServOnTimer, op_stop = \<lambda>_ st. st\<rparr>"
definition login_ops :: "msg_serv_info_pb \<Rightarrow> u32 \<Rightarrow> serv_ops" where
  "login_ops info cur_cnt = \<lparr>op_confirm = \<lambda>tick. LoginServOnConfirm tick info cur_cnt, op_close = LoginServClose,
     op_timer = LoginServOnTimer, op_stop = \<lambda>_ st. st\<rparr>"

datatype pool_event =
    PConfirm u64 u32
  | PClosed u32
  | PStop u32
  | PTick u64 connect_env

fun run_pool :: "serv_ops \<Rightarrow> pool_event \<Rightarrow> cs_state \<Rightarrow> cs_state option" where
  "run_pool ops (PConfirm tick h) st = (case map_of (serv_conn_map st) h of None \<Rightarrow> Some st
     | Some c \<Rightarrow> Some (op_confirm ops tick c st))"
| "run_pool ops (PClosed h) st = (case map_of (serv_conn_map st) h of None \<Rightarrow> Some st
     | Some c \<Rightarrow> op_close ops c st)"
| "run_pool ops (PStop h) st = (case map_of (serv_conn_map st) h of None \<Rightarrow> Some st
     | Some c \<Rightarrow> Some (op_stop ops c st))"
| "run_pool ops (PTick tick env) st = pool_timer_callback (op_timer ops) tick env st"

text \<open>The environment: the clock has not reached its last tick; what \<open>new\<close> and \<open>netlib_connect\<close> return is not in use.\<close>

fun pool_env :: "serv_ops \<Rightarrow> cs_state \<Rightarrow> pool_event \<Rightarrow> bool" where
  "pool_env ops st (PConfirm tick h) \<longleftrightarrow> tick < -1"
| "pool_env ops st (PClosed h) \<longleftrightarrow> True"
| "pool_env ops st (PStop h) \<longleftrightarrow> True"
| "pool_env ops st (PTick tick env) \<longleftrightarrow> apart env (length (serv_list st)) \<and>
     (\<forall>st'. pool_timer_loop (op_timer ops) tick (serv_conn_map st) st = Some st' \<longrightarrow> (\<forall>j < length (serv_list st). fresh_at env st' j))"

text \<open>The first connects, by \<open>serv_init\<close>.\<close>

inductive pool_reach :: "serv_ops \<Rightarrow> cs_state \<Rightarrow> bool" for ops where
  init: "apart env (length servers) \<Longrightarrow> pool_reach ops (serv_init tick env (servers_init servers))"
| step: "pool_reach ops st \<Longrightarrow> pool_env ops st e \<Longrightarrow> run_pool ops e st = Some st' \<Longrightarrow> pool_reach ops st'"

subsection \<open>What the classes share\<close>

text \<open>\<open>kept h st r\<close>: the operation returns, with every connection but \<open>h\<close> where it was.\<close>

definition kept :: "u32 \<Rightarrow> cs_state \<Rightarrow> cs_state option \<Rightarrow> bool" where
  "kept h st r \<longleftrightarrow> (\<exists>st'. r = Some st' \<and> pool_ok st' \<and> length (serv_list st') = length (serv_list st) \<and>
     (\<forall>k. k \<noteq> h \<longrightarrow> map_of (serv_conn_map st') k = map_of (serv_conn_map st) k))"

lemma pool_ok_fields [simp]:
  "pool_ok (cs_send t m c st) = pool_ok st" "pool_ok (st\<lparr>g_master_rs_conn := x\<rparr>) = pool_ok st"
  by (simp_all add: pool_ok_def)

lemma pool_okD: "pool_ok st \<Longrightarrow> conns_ok st" "pool_ok st \<Longrightarrow> \<forall>s \<in> set (serv_list st). delay_ok s"
  by (simp_all add: pool_ok_def)

lemma kept_same: "pool_ok st \<Longrightarrow> kept h st (Some st)"
  by (simp add: kept_def)

lemma kept_send: "kept h (cs_send t m c st) r = kept h st r"
  by (simp add: kept_def)

lemma kept_dropped:
  assumes "pool_ok st" and "map_of (serv_conn_map st) h = Some c"
    and "\<And>x. cs_handle (f x) = cs_handle x \<and> m_serv_idx (f x) = m_serv_idx x \<and> m_connect_time (f x) = m_connect_time x"
  shows "kept h st (Some (dropped f h c st))"
  using dropped_ok [OF pool_okD [OF assms(1)] assms(2) refl] assms(3) by (simp add: kept_def map_of_cm_erase)

lemma confirmed_ok:
  assumes ok: "pool_ok st" and c: "map_of (serv_conn_map st) h = Some c"
    and f: "\<And>x. cs_handle (f x) = cs_handle x \<and> m_serv_idx (f x) = m_serv_idx x" "\<And>x. m_connect_time x < -1 \<Longrightarrow> m_connect_time (f x) < -1"
  shows "pool_ok (upd_serv (m_serv_idx (cs_conns st c)) (\<lambda>s. s\<lparr>reconnect_cnt := MIN_RECONNECT_CNT div 2\<rparr>) (upd_cs c f st))"
    (is "pool_ok ?st")
proof -
  let ?i = "m_serv_idx (cs_conns st c)"
  have conns: "conns_ok st" by (rule pool_okD [OF ok])
  have h: "h \<noteq> -1" "cs_handle (cs_conns st c) = h" "in_use st ?i c" using conns c by (auto simp: conns_ok_def)
  then have i: "?i < length (serv_list st)" "serv_conn (serv_list st ! ?i) = Some c" by (simp_all add: in_use_def)
  have use: "in_use ?st = in_use st" using i by (auto simp: in_use_def fun_eq_iff nth_list_update)
  have same: "cs_handle (cs_conns ?st d) = cs_handle (cs_conns st d)"
    "m_serv_idx (cs_conns ?st d) = m_serv_idx (cs_conns st d)" for d by (simp_all add: f(1))
  have "sconn_ok ?st j d" if "sconn_ok st j d" for j d
    using that h(1,2) f by (cases "d = c") (simp_all add: sconn_ok_def)
  then have "conns_ok ?st" using conns unfolding conns_ok_def use same by simp
  moreover have "delay_ok ((serv_list st ! ?i)\<lparr>reconnect_cnt := MIN_RECONNECT_CNT div 2\<rparr>)"
    by (simp add: delay_ok_def i(2) delays_def MIN_RECONNECT_CNT_def)
  from delay_ok_upd [OF pool_okD(2) [OF ok] this, of ?i] have "\<forall>s \<in> set (serv_list ?st). delay_ok s"
    by (simp only: upd_serv_fields upd_cs_fields)
  ultimately show ?thesis by (simp add: pool_ok_def)
qed

lemma stopped_ok:
  assumes "pool_ok st"
  shows "pool_ok (upd_cs c (\<lambda>x. x\<lparr>cs_open := False\<rparr>) st)"
  using assms by (auto simp: pool_ok_def conns_ok_def sconn_ok_def in_use_def)

text \<open>The reconnects do not look at the master.\<close>

lemma check_one_master: "check_one t env i (st\<lparr>g_master_rs_conn := m\<rparr>) = (check_one t env i st)\<lparr>g_master_rs_conn := m\<rparr>"
  by (simp add: check_one_def upd_serv_def ServConnect_def Let_def split: option.split prod.split)

lemma check_master: "serv_check_reconnect t env (st\<lparr>g_master_rs_conn := m\<rparr>) = (serv_check_reconnect t env st)\<lparr>g_master_rs_conn := m\<rparr>"
proof -
  have "fold (check_one t env) xs (st\<lparr>g_master_rs_conn := m\<rparr>) = (fold (check_one t env) xs st)\<lparr>g_master_rs_conn := m\<rparr>" for xs st
    by (induction xs arbitrary: st) (simp_all add: check_one_master)
  then show ?thesis by (simp add: serv_check_reconnect_def)
qed

lemma some_master:
  assumes "pool_ok st"
  obtains m where "cs_inv (st\<lparr>g_master_rs_conn := m\<rparr>)"
proof -
  have "master_ok (update_master_route_serv_conn 0 st)" using assms by (simp add: pool_ok_def update_master_ok)
  then have "\<exists>m. master_ok (st\<lparr>g_master_rs_conn := m\<rparr>)"
    by (auto simp: update_master_route_serv_conn_def Let_def split: option.splits)
  then show ?thesis using that assms by (auto simp: cs_inv_pool)
qed

lemma check_pool:
  assumes "pool_ok st" and "apart env (length (serv_list st))" and "\<forall>j < length (serv_list st). fresh_at env st j"
  shows "pool_ok (serv_check_reconnect t env st)" and "length (serv_list (serv_check_reconnect t env st)) = length (serv_list st)"
    and "in_use st j d \<Longrightarrow> in_use (serv_check_reconnect t env st) j d \<and>
      cs_conns (serv_check_reconnect t env st) d = cs_conns st d"
proof -
  obtain m where m: "cs_inv (st\<lparr>g_master_rs_conn := m\<rparr>)" using some_master [OF assms(1)] .
  have "\<forall>j < length (serv_list (st\<lparr>g_master_rs_conn := m\<rparr>)). fresh_at env (st\<lparr>g_master_rs_conn := m\<rparr>) j"
    using assms(3) by (simp add: fresh_at_def)
  note c = serv_check_reconnect_ok [OF m _ this, of t, unfolded check_master]
  show "pool_ok (serv_check_reconnect t env st)" "length (serv_list (serv_check_reconnect t env st)) = length (serv_list st)"
    using c assms(2) by (simp_all add: cs_inv_pool)
  show "in_use (serv_check_reconnect t env st) j d \<and> cs_conns (serv_check_reconnect t env st) d = cs_conns st d"
    if "in_use st j d"
    using c assms(2) that by (auto simp: in_use_def ages_def)
qed

locale serv_class =
  fixes ops :: serv_ops
  assumes confirm_ok: "pool_ok st \<Longrightarrow> map_of (serv_conn_map st) h = Some c \<Longrightarrow> t < -1 \<Longrightarrow> pool_ok (op_confirm ops t c st)"
    and close_ok: "pool_ok st \<Longrightarrow> map_of (serv_conn_map st) h = Some c \<Longrightarrow> kept h st (op_close ops c st)"
    and timer_ok: "pool_ok st \<Longrightarrow> map_of (serv_conn_map st) h = Some c \<Longrightarrow> kept h st (op_timer ops t c st)"
    and stop_ok: "pool_ok st \<Longrightarrow> pool_ok (op_stop ops c st)"
begin

lemma pool_timers_ok:
  "pool_ok st \<Longrightarrow> distinct (map fst xs) \<Longrightarrow> \<forall>(h, c) \<in> set xs. map_of (serv_conn_map st) h = Some c \<Longrightarrow>
   \<exists>st'. pool_timer_loop (op_timer ops) t xs st = Some st' \<and> pool_ok st' \<and> length (serv_list st') = length (serv_list st)"
proof (induction xs arbitrary: st)
  case (Cons x xs)
  obtain h c where x: "x = (h, c)" by (cases x)
  then have "map_of (serv_conn_map st) h = Some c" using Cons.prems(3) by simp
  then obtain st1 where st1: "op_timer ops t c st = Some st1" "pool_ok st1" "length (serv_list st1) = length (serv_list st)"
    "\<And>k. k \<noteq> h \<Longrightarrow> map_of (serv_conn_map st1) k = map_of (serv_conn_map st) k"
    using timer_ok [OF Cons.prems(1), of h c t] unfolding kept_def by blast
  have "\<forall>(k, d) \<in> set xs. map_of (serv_conn_map st1) k = Some d"
    using Cons.prems(2,3) st1(4) by (fastforce simp: x)
  then show ?case using Cons.IH [OF st1(2)] Cons.prems(2) st1 by (auto simp: x)
qed simp

lemma pool_event_ok:
  assumes ok: "pool_ok st" and env: "pool_env ops st e"
  shows "\<exists>st'. run_pool ops e st = Some st' \<and> pool_ok st'"
proof (cases e)
  case (PTick t en)
  have m: "cm_ok (serv_conn_map st)" using ok by (simp add: pool_ok_def conns_ok_def)
  then have "\<forall>(h, c) \<in> set (serv_conn_map st). map_of (serv_conn_map st) h = Some c" by (auto simp: cm_ok_def)
  with pool_timers_ok [OF ok, of "serv_conn_map st" t] m obtain st1 where st1:
    "pool_timer_loop (op_timer ops) t (serv_conn_map st) st = Some st1" "pool_ok st1" "length (serv_list st1) = length (serv_list st)"
    by (auto simp: cm_ok_def)
  then show ?thesis using check_pool(1,2) [OF st1(2), of en t] env by (simp add: PTick pool_timer_callback_def)
next
  case (PClosed h)
  have "\<exists>st'. op_close ops c st = Some st' \<and> pool_ok st'" if "map_of (serv_conn_map st) h = Some c" for c
    using close_ok [OF ok that] unfolding kept_def by blast
  then show ?thesis using ok by (simp add: PClosed split: option.split)
qed (use confirm_ok [OF ok] stop_ok [OF ok] ok env in \<open>auto split: option.split\<close>)

lemma reach_ok: "pool_reach ops st \<Longrightarrow> pool_ok st"
proof (induction rule: pool_reach.induct)
  case (init env servers tick)
  have "rs_reach servers (serv_init tick env (servers_init servers))" using init by (rule rs_reach.init)
  then show ?case using rs_reach_inv by (auto simp: cs_inv_pool)
next
  case (step st e st')
  then show ?case using pool_event_ok [OF step.IH step.hyps(2)] by simp
qed

lemma reach_event: "pool_reach ops st \<Longrightarrow> pool_env ops st e \<Longrightarrow> \<exists>st'. run_pool ops e st = Some st'"
  using pool_event_ok [OF reach_ok] by blast

end

lemma close_dropped:
  assumes "pool_ok st" and "map_of (serv_conn_map st) h = Some c"
  shows "DbServClose c st = Some (dropped (\<lambda>x. x) h c st)" "LoginServClose c st = Some (dropped (\<lambda>x. x) h c st)"
    "FileServClose c st = Some (dropped (\<lambda>x. x\<lparr>cs_open := False\<rparr>) h c st)"
    "PushServClose c st = Some ((dropped (\<lambda>x. x\<lparr>cs_open := False\<rparr>) h c st)\<lparr>g_master_rs_conn := None\<rparr>)"
  using dropped_ok(9-12) [OF pool_okD [OF assms(1)] assms(2) refl, of "\<lambda>x. x", simplified]
  by (simp_all add: DbServClose_def LoginServClose_def FileServClose_def PushServClose_def dropped_def serv_reset_def Let_def upd_cs_def)

lemma kept_close:
  assumes "pool_ok st" and "map_of (serv_conn_map st) h = Some c"
  shows "kept h st (DbServClose c st)" "kept h st (LoginServClose c st)" "kept h st (FileServClose c st)" "kept h st (PushServClose c st)"
  using kept_dropped [OF assms, of "\<lambda>x. x"] kept_dropped [OF assms, of "\<lambda>x. x\<lparr>cs_open := False\<rparr>"]
  by (auto simp: close_dropped [OF assms]) (simp add: kept_def)

lemmas timer_defs = when_open_def DbServOnTimer_def LoginServOnTimer_def FileServOnTimer_def PushServOnTimer_def

lemma kept_timer:
  assumes "pool_ok st" and "map_of (serv_conn_map st) h = Some c"
  shows "kept h st (when_open DbServOnTimer t c st)" "kept h st (LoginServOnTimer t c st)"
    "kept h st (FileServOnTimer t c st)" "kept h st (when_open PushServOnTimer t c st)"
  using kept_close [OF assms] kept_close [of "cs_send t SHeartBeat c st" h c] assms kept_same [OF assms(1)]
  by (simp_all add: timer_defs Let_def kept_send) (simp_all add: kept_def)

lemma kept_confirm:
  assumes "pool_ok st" and "map_of (serv_conn_map st) h = Some c"
  shows "pool_ok (DbServOnConfirm c st)" "pool_ok (PushServOnConfirm c st)" "pool_ok (LoginServOnConfirm t info n c st)"
    "t < -1 \<Longrightarrow> pool_ok (FileServOnConfirm t c st)"
  using confirmed_ok [OF assms, of "\<lambda>x. x\<lparr>cs_open := True\<rparr>"] confirmed_ok [OF assms, of "\<lambda>x. x\<lparr>cs_open := True, m_connect_time := t\<rparr>"]
  by (simp_all add: DbServOnConfirm_def PushServOnConfirm_def LoginServOnConfirm_def FileServOnConfirm_def Let_def)

interpretation db: serv_class db_ops
  by unfold_locales (auto simp: db_ops_def kept_close kept_timer kept_confirm HandleStopReceivePacket_def stopped_ok)

interpretation file_pool: serv_class file_ops
  by unfold_locales (auto simp: file_ops_def kept_close kept_timer kept_confirm)

interpretation push_pool: serv_class push_ops
  by unfold_locales (auto simp: push_ops_def kept_close kept_timer kept_confirm)

interpretation login_pool: serv_class "login_ops info cur_cnt" for info cur_cnt
  by unfold_locales (auto simp: login_ops_def kept_close kept_timer kept_confirm)

subsection \<open>The choice of a connection\<close>

lemma open_conn_iff: "open_conn st i = Some c \<longleftrightarrow> serv_conn (serv_list st ! i) = Some c \<and> cs_open (cs_conns st c)"
  by (auto simp: open_conn_def split: option.splits)

lemma random_loop_hit:
  assumes "n \<le> m" and "open_conn st (rnd m mod (stop_pos - start_pos) + start_pos) \<noteq> None"
  shows "\<exists>k c. n \<le> k \<and> k \<le> m \<and> open_conn st (rnd k mod (stop_pos - start_pos) + start_pos) = Some c \<and>
    random_loop st start_pos stop_pos rnd n = Some (c, Suc k)"
  using assms(1)
proof (induction "m - n" arbitrary: n)
  case 0
  then have "n = m" by simp
  then show ?case using assms(2) by (auto simp: random_loop.simps [of st start_pos stop_pos rnd m] Let_def)
next
  case (Suc d)
  show ?case
  proof (cases "open_conn st (rnd n mod (stop_pos - start_pos) + start_pos)")
    case None
    then have "random_loop st start_pos stop_pos rnd n = random_loop st start_pos stop_pos rnd (Suc n)"
      by (subst random_loop.simps) (simp add: Let_def)
    then show ?thesis using Suc.hyps(1) [of "Suc n"] Suc.hyps(2) Suc.prems by fastforce
  next
    case (Some c)
    then show ?thesis using Suc.prems
      by (simp add: random_loop.simps [of st start_pos stop_pos rnd n] Let_def)
  qed
qed

text \<open>A loop that never hits an open connection does not end.\<close>

lemma random_loop_returns:
  assumes "random_loop st start_pos stop_pos rnd n = Some r"
  shows "\<exists>m \<ge> n. open_conn st (rnd m mod (stop_pos - start_pos) + start_pos) \<noteq> None"
proof (rule random_loop.raw_induct [where P = "\<lambda>st start_pos stop_pos rnd n r.
    \<exists>m \<ge> n. open_conn st (rnd m mod (stop_pos - start_pos) + start_pos) \<noteq> None", OF _ assms])
  fix loop st start_pos stop_pos rnd n r
  assume ih: "\<And>st start_pos stop_pos rnd n r. loop st start_pos stop_pos rnd n = Some r \<Longrightarrow>
      \<exists>m \<ge> n. open_conn st (rnd m mod (stop_pos - start_pos) + start_pos) \<noteq> None"
    and step: "(let i = rnd n mod (stop_pos - start_pos) + start_pos
      in case open_conn st i of Some pDbConn \<Rightarrow> Some (pDbConn, Suc n) | None \<Rightarrow> loop st start_pos stop_pos rnd (Suc n)) = Some r"
  show "\<exists>m \<ge> n. open_conn st (rnd m mod (stop_pos - start_pos) + start_pos) \<noteq> None"
  proof (cases "open_conn st (rnd n mod (stop_pos - start_pos) + start_pos)")
    case None
    then obtain m where "m \<ge> Suc n" "open_conn st (rnd m mod (stop_pos - start_pos) + start_pos) \<noteq> None"
      using ih [of st start_pos stop_pos rnd "Suc n" r] step by (auto simp: Let_def)
    then show ?thesis by (intro exI [of _ m]) simp
  qed auto
qed

text \<open>An open connection is in the range, but no number that \<open>rand\<close> still gives hits one.\<close>

definition starved :: "cs_state \<Rightarrow> (nat \<Rightarrow> nat) \<Rightarrow> nat \<Rightarrow> nat \<Rightarrow> nat \<Rightarrow> bool" where
  "starved st rnd n a b \<longleftrightarrow> (\<exists>i \<in> {a..<b}. open_conn st i \<noteq> None) \<and>
     (\<forall>m \<ge> n. open_conn st (rnd m mod (b - a) + a) = None)"

text \<open>\<open>rand\<close> gives numbers up to \<open>RAND_MAX\<close>, and each of them again and again.\<close>

definition full_range_rand :: "nat \<Rightarrow> (nat \<Rightarrow> nat) \<Rightarrow> bool" where
  "full_range_rand RAND_MAX rnd \<longleftrightarrow> (\<forall>n. rnd n \<le> RAND_MAX) \<and> (\<forall>v \<le> RAND_MAX. \<forall>n. \<exists>m \<ge> n. rnd m = v)"

lemma full_range_not_starved:
  assumes "full_range_rand R rnd" and "b \<le> Suc R"
  shows "\<not> starved st rnd n a b"
proof
  assume "starved st rnd n a b"
  then obtain i where i: "a \<le> i" "i < b" "open_conn st i \<noteq> None" and no: "\<forall>m \<ge> n. open_conn st (rnd m mod (b - a) + a) = None"
    by (auto simp: starved_def)
  have "i - a \<le> R" using i assms(2) by simp
  then obtain m where "m \<ge> n" "rnd m = i - a" using assms(1) unfolding full_range_rand_def by blast
  then show False using i no by (auto dest: spec [of _ m])
qed

lemma in_range_cases:
  "case get_db_server_conn_in_range st rnd a b n of
     None \<Rightarrow> starved st rnd n a b
   | Some (r, n') \<Rightarrow> (case r of None \<Rightarrow> n' = n \<and> (\<forall>i \<in> {a..<b}. open_conn st i = None)
       | Some c \<Rightarrow> \<exists>i \<in> {a..<b}. open_conn st i = Some c)"
proof (cases "find (\<lambda>i. open_conn st i \<noteq> None) [a..<b]")
  case None
  then have "\<forall>i \<in> {a..<b}. open_conn st i = None" by (auto simp: find_None_iff)
  then show ?thesis unfolding get_db_server_conn_in_range_def None by simp
next
  case (Some i)
  then have i: "i \<in> {a..<b}" "open_conn st i \<noteq> None" by (auto simp: find_Some_iff nth_append)
  show ?thesis
  proof (cases "\<exists>m \<ge> n. open_conn st (rnd m mod (b - a) + a) \<noteq> None")
    case True
    then obtain m where m: "n \<le> m" "open_conn st (rnd m mod (b - a) + a) \<noteq> None" by blast
    obtain k c where k: "open_conn st (rnd k mod (b - a) + a) = Some c" "random_loop st a b rnd n = Some (c, Suc k)"
      using random_loop_hit [of n m st rnd b a] m by blast
    moreover have "rnd k mod (b - a) < b - a" using i by simp
    then have "rnd k mod (b - a) + a \<in> {a..<b}" by simp
    ultimately show ?thesis unfolding get_db_server_conn_in_range_def Some
      by (auto intro!: bexI [of _ "rnd k mod (b - a) + a"])
  next
    case False
    then have "random_loop st a b rnd n = None" using random_loop_returns [of st a b rnd n] by (cases "random_loop st a b rnd n") auto
    then show ?thesis using False i unfolding get_db_server_conn_in_range_def Some by (auto simp: starved_def)
  qed
qed

text \<open>What a choice between two ranges yields: a connection of the first range, if there is one, else of the second.\<close>

definition chosen :: "cs_state \<Rightarrow> nat set \<Rightarrow> nat set \<Rightarrow> conn option \<Rightarrow> bool" where
  "chosen st A B r \<longleftrightarrow> (case r of
     None \<Rightarrow> \<forall>i \<in> A \<union> B. open_conn st i = None
   | Some c \<Rightarrow> (\<exists>i \<in> A. open_conn st i = Some c) \<or> (\<forall>i \<in> A. open_conn st i = None) \<and> (\<exists>i \<in> B. open_conn st i = Some c))"

lemma two_ranges:
  "case (do {
     (pDBConn, n) \<leftarrow> get_db_server_conn_in_range st rnd a b n;
     if pDBConn = None then get_db_server_conn_in_range st rnd a2 b2 n
     else Some (pDBConn, n)}) of
     None \<Rightarrow> starved st rnd n a b \<or> (\<forall>i \<in> {a..<b}. open_conn st i = None) \<and> starved st rnd n a2 b2
   | Some (r, n') \<Rightarrow> chosen st {a..<b} {a2..<b2} r"
proof (cases "get_db_server_conn_in_range st rnd a b n")
  case None
  then show ?thesis using in_range_cases [of st rnd n a b] by simp
next
  case (Some x)
  obtain r n1 where x: "x = (r, n1)" by (cases x)
  show ?thesis using in_range_cases [of st rnd n a b] in_range_cases [of st rnd n a2 b2] Some
    by (cases r; cases "get_db_server_conn_in_range st rnd a2 b2 n") (auto simp: x chosen_def split: option.splits)
qed

text \<open>\<open>usable st c\<close>: \<open>c\<close> is registered, open and not deleted.\<close>

definition usable :: "cs_state \<Rightarrow> conn \<Rightarrow> bool" where
  "usable st c \<longleftrightarrow> cs_open (cs_conns st c) \<and> c \<notin> cs_dead st \<and>
     map_of (serv_conn_map st) (cs_handle (cs_conns st c)) = Some c"

lemma open_conn_usable:
  assumes "pool_ok st" and "open_conn st i = Some c" and "i < length (serv_list st)"
  shows "usable st c"
proof -
  have "in_use st i c" using assms(2,3) by (simp add: in_use_def open_conn_iff)
  then have "sconn_ok st i c" using assms(1) by (simp add: pool_ok_def conns_ok_def)
  then show ?thesis using assms(2) by (auto simp: usable_def sconn_ok_def open_conn_iff split: if_splits)
qed

lemma chosen_usable:
  assumes "pool_ok st" and "chosen st A B (Some c)" and "A \<union> B \<subseteq> {..<length (serv_list st)}"
  shows "usable st c"
  using open_conn_usable [OF assms(1)] assms(2,3) by (auto simp: chosen_def)

lemma db_login_count_le:
  assumes "db_login_count n k = Some login_count"
  shows "unat login_count \<le> unat n"
proof -
  have k: "k \<noteq> 0" "login_count = n div k div 2 * k" using assms by (auto simp: db_login_count_def Let_def split: if_splits)
  have "unat n div unat k div 2 * unat k \<le> unat n"
    by (metis div_le_dividend div_times_less_eq_dividend le_trans mult_le_mono1)
  moreover from this have "unat login_count = unat n div unat k div 2 * unat k"
    unfolding k(2) using unat_u32_lt [of n] by (subst unat_mult_lem [THEN iffD1]) (simp_all add: unat_div)
  ultimately show ?thesis by simp
qed

lemma turn_reaches:
  assumes "i < (n::nat)" and "r < n"
  shows "\<exists>k < n. (r + k + 1) mod n = i"
proof (cases "i \<le> r")
  case True
  then have "(r + (i + n - r - 1) + 1) mod n = i" using assms by (simp add: mod_if)
  moreover have "i + n - r - 1 < n" using True assms by simp
  ultimately show ?thesis by blast
next
  case False
  then show ?thesis using assms by (intro exI [of _ "i - r - 1"]) simp
qed

lemma random_file_conn:
  "case get_random_file_serv_conn rnd st of None \<Rightarrow> \<forall>i < length (serv_list st). open_conn st i = None
   | Some c \<Rightarrow> \<exists>i < length (serv_list st). open_conn st i = Some c"
proof -
  let ?n = "length (serv_list st)" and ?r = "rnd mod length (serv_list st)"
  let ?p = "\<lambda>i. open_conn st ((?r + i + 1) mod ?n) \<noteq> None"
  show ?thesis
  proof (cases "?n = 0 \<or> open_conn st ?r \<noteq> None")
    case True
    then show ?thesis by (auto simp: get_random_file_serv_conn_def Let_def intro!: exI [of _ ?r])
  next
    case False
    then have n: "0 < ?n" and r: "?r < ?n" "open_conn st ?r = None" by auto
    show ?thesis
    proof (cases "find ?p [0..<?n]")
      case None
      have "open_conn st i = None" if "i < ?n" for i
        using turn_reaches [OF that r(1)] None unfolding find_None_iff by (metis atLeast0LessThan lessThan_iff set_upt)
      then show ?thesis using n r None by (simp add: get_random_file_serv_conn_def Let_def)
    next
      case (Some i)
      then have "?p i" by (auto simp: find_Some_iff)
      then obtain c where c: "open_conn st ((?r + i + 1) mod ?n) = Some c" by auto
      have "(?r + i + 1) mod ?n < ?n" using n by simp
      moreover have "get_random_file_serv_conn rnd st = Some c"
        using n r Some c by (simp add: get_random_file_serv_conn_def Let_def)
      ultimately show ?thesis using c by auto
    qed
  qed
qed

subsection \<open>Properties\<close>

text \<open>
  C19: what choosing a connection to the database, which draws random numbers until one hits an open connection, comes to.
  When it ends, it has found none only if no connection is open, a connection of the range it is meant for if one is
  open there, and what it has found is registered, open and not deleted. It does not end only if a connection is open
  in the range it searches and no number \<open>rand\<close> ever gives from then on hits one; so it always ends if \<open>rand\<close> gives every
  number up to \<open>RAND_MAX\<close> again and again and there are no more servers than that.
\<close>

theorem db_conn_found:
  assumes "pool_reach db_ops st" and "length (serv_list st) < 2 ^ 32"
    and "db_login_count (of_nat (length (serv_list st))) concur_conn_cnt = Some login_count"
  defines "login \<equiv> unat login_count" and "all \<equiv> length (serv_list st)"
  shows "(case get_db_serv_conn login st rnd n of
        None \<Rightarrow> starved st rnd n login all \<or> (\<forall>i \<in> {login..<all}. open_conn st i = None) \<and> starved st rnd n 0 login
      | Some (r, n') \<Rightarrow> chosen st {login..<all} {0..<login} r \<and> (\<forall>c. r = Some c \<longrightarrow> usable st c)) \<and>
    (case get_db_serv_conn_for_login login st rnd n of
        None \<Rightarrow> starved st rnd n 0 login \<or> (\<forall>i \<in> {0..<login}. open_conn st i = None) \<and> starved st rnd n login all
      | Some (r, n') \<Rightarrow> chosen st {0..<login} {login..<all} r \<and> (\<forall>c. r = Some c \<longrightarrow> usable st c)) \<and>
    (full_range_rand RAND_MAX rnd \<longrightarrow> all \<le> RAND_MAX + 1 \<longrightarrow>
      get_db_serv_conn login st rnd n \<noteq> None \<and> get_db_serv_conn_for_login login st rnd n \<noteq> None)"
proof (intro conjI impI)
  have le: "login \<le> all"
    using db_login_count_le [OF assms(3)] assms(2) by (simp add: unat_of_nat_32 login_def all_def)
  note live = chosen_usable [OF db.reach_ok [OF assms(1)]]
  note other = two_ranges [of st rnd n login all 0 login] and first = two_ranges [of st rnd n 0 login login all]
  show g: "case get_db_serv_conn login st rnd n of
        None \<Rightarrow> starved st rnd n login all \<or> (\<forall>i \<in> {login..<all}. open_conn st i = None) \<and> starved st rnd n 0 login
      | Some (r, n') \<Rightarrow> chosen st {login..<all} {0..<login} r \<and> (\<forall>c. r = Some c \<longrightarrow> usable st c)"
    using other live le unfolding get_db_serv_conn_def all_def [symmetric] by (fastforce split: option.splits simp: all_def)
  show l: "case get_db_serv_conn_for_login login st rnd n of
        None \<Rightarrow> starved st rnd n 0 login \<or> (\<forall>i \<in> {0..<login}. open_conn st i = None) \<and> starved st rnd n login all
      | Some (r, n') \<Rightarrow> chosen st {0..<login} {login..<all} r \<and> (\<forall>c. r = Some c \<longrightarrow> usable st c)"
    using first live le unfolding get_db_serv_conn_for_login_def all_def [symmetric] by (fastforce split: option.splits simp: all_def)
  assume "full_range_rand RAND_MAX rnd" "all \<le> RAND_MAX + 1"
  then have no: "b \<le> all \<Longrightarrow> \<not> starved st rnd n a b" for a b using full_range_not_starved by simp
  show "get_db_serv_conn login st rnd n \<noteq> None" using g no le by (auto split: option.splits)
  show "get_db_serv_conn_for_login login st rnd n \<noteq> None" using l no le by (auto split: option.splits)
qed

lemma push_master:
  assumes "pool_reach push_ops st"
  shows "case g_master_rs_conn st of None \<Rightarrow> True | Some m \<Rightarrow> in_use st (m_serv_idx (cs_conns st m)) m"
  using assms
proof (induction rule: pool_reach.induct)
  case (init env servers tick)
  have "g_master_rs_conn (fold (\<lambda>i st. upd_serv i (\<lambda>s. s\<lparr>serv_conn := Some (fst (env i)), idle_cnt := 0,
      reconnect_cnt := MIN_RECONNECT_CNT div 2\<rparr>) (ServConnect tick i (env i) st)) xs st) = g_master_rs_conn st" for xs st
    by (induction xs arbitrary: st) (simp_all add: ServConnect_def Let_def split_beta)
  then show ?case by (simp add: serv_init_def servers_init_def)
next
  case (step st e st')
  note ok = push_pool.reach_ok [OF step.hyps(1)]
  show ?case
  proof (cases e)
    case (PConfirm t h)
    show ?thesis
    proof (cases "map_of (serv_conn_map st) h")
      case None
      then have "st' = st" using step.hyps(3) by (simp add: PConfirm)
      then show ?thesis using step.IH by (simp only:)
    next
      case (Some c)
      then have "in_use st (m_serv_idx (cs_conns st c)) c" using conns_okD(2) [OF pool_okD(1) [OF ok]] by blast
      then show ?thesis using step.hyps(3) Some
        by (auto simp: PConfirm push_ops_def PushServOnConfirm_def Let_def in_use_def)
    qed
  next
    case (PClosed h)
    show ?thesis
    proof (cases "map_of (serv_conn_map st) h")
      case None
      then have "st' = st" using step.hyps(3) by (simp add: PClosed)
      then show ?thesis using step.IH by (simp only:)
    next
      case (Some c)
      then have "g_master_rs_conn st' = None" using step.hyps(3) by (auto simp: PClosed push_ops_def close_dropped(4) [OF ok Some])
      then show ?thesis by simp
    qed
  next
    case (PStop h)
    then have "st' = st" using step.hyps(3) by (auto simp: push_ops_def split: option.splits)
    then show ?thesis using step.IH by (simp only:)
  next
    case (PTick t env)
    have loop: "pool_timer_loop (when_open PushServOnTimer) t xs st0 = Some st1 \<Longrightarrow> pool_ok st0 \<Longrightarrow>
        distinct (map fst xs) \<Longrightarrow> \<forall>(h, c) \<in> set xs. map_of (serv_conn_map st0) h = Some c \<Longrightarrow>
        case g_master_rs_conn st0 of None \<Rightarrow> True | Some m \<Rightarrow> in_use st0 (m_serv_idx (cs_conns st0 m)) m \<Longrightarrow>
        case g_master_rs_conn st1 of None \<Rightarrow> True | Some m \<Rightarrow> in_use st1 (m_serv_idx (cs_conns st1 m)) m" for xs st0 st1
    proof (induction xs arbitrary: st0)
      case (Cons x xs)
      obtain h c where x: "x = (h, c)" by (cases x)
      then have c: "map_of (serv_conn_map st0) h = Some c" using Cons.prems(4) by simp
      obtain st2 where st2: "when_open PushServOnTimer t c st0 = Some st2" "pool_ok st2"
        "\<And>k. k \<noteq> h \<Longrightarrow> map_of (serv_conn_map st2) k = map_of (serv_conn_map st0) k"
        using kept_timer(4) [OF Cons.prems(2) c, of t] unfolding kept_def by blast
      have "case g_master_rs_conn st2 of None \<Rightarrow> True | Some m \<Rightarrow> in_use st2 (m_serv_idx (cs_conns st2 m)) m"
        using st2(1) Cons.prems(2,5) c close_dropped(4) [OF Cons.prems(2) c]
          close_dropped(4) [of "cs_send t SHeartBeat c st0" h c]
        by (auto simp: when_open_def PushServOnTimer_def Let_def split: if_splits option.splits)
      moreover have "\<forall>(k, d) \<in> set xs. map_of (serv_conn_map st2) k = Some d"
        using Cons.prems(3,4) st2(3) by (fastforce simp: x)
      ultimately show ?case using Cons.IH [of st2] Cons.prems(1,3) st2 by (simp add: x)
    qed simp
    obtain st1 where st1: "pool_timer_loop (when_open PushServOnTimer) t (serv_conn_map st) st = Some st1"
      "st' = serv_check_reconnect t env st1"
      using step.hyps(3) by (auto simp: PTick pool_timer_callback_def push_ops_def bind_eq_Some_conv)
    have m: "cm_ok (serv_conn_map st)" using ok by (simp add: pool_ok_def conns_ok_def)
    then have l: "distinct (map fst (serv_conn_map st))" "\<forall>(h, c) \<in> set (serv_conn_map st). map_of (serv_conn_map st) h = Some c"
      by (auto simp: cm_ok_def)
    obtain st2 where st2: "pool_timer_loop (when_open PushServOnTimer) t (serv_conn_map st) st = Some st2" "pool_ok st2"
      "length (serv_list st2) = length (serv_list st)"
      using push_pool.pool_timers_ok [OF ok l, of t] by (auto simp: push_ops_def)
    then have "apart env (length (serv_list st1))" "\<forall>j < length (serv_list st1). fresh_at env st1 j" "pool_ok st1"
      using step.hyps(2) st1 by (auto simp: PTick push_ops_def)
    note c = check_pool(3) [OF this(3,1,2), of _ _ t]
    have "g_master_rs_conn st' = g_master_rs_conn st1"
      using check_master [where t = t and env = env and st = st1 and m = "g_master_rs_conn st1"] by (simp add: st1(2)) (metis cs_state.select_convs(5) cs_state.surjective cs_state.update_convs(5))
    then show ?thesis using loop [OF st1(1) ok l step.IH] c by (auto simp: st1(2) split: option.splits)
  qed
qed

text \<open>
  C20: over every run of connects, confirmations, closes and timers, a request for a file server gets a
  registered, open connection, if one is open at all, and a push goes over such a connection or nowhere.
\<close>

theorem file_and_push_conn_usable:
  assumes "pool_reach file_ops st" and "pool_reach push_ops pst"
  shows "(case get_random_file_serv_conn rnd st of None \<Rightarrow> \<not> is_file_server_available st | Some c \<Rightarrow> usable st c) \<and>
    (case get_push_serv_conn pst of None \<Rightarrow> True | Some c \<Rightarrow> usable pst c)"
proof
  show "case get_random_file_serv_conn rnd st of None \<Rightarrow> \<not> is_file_server_available st | Some c \<Rightarrow> usable st c"
    using random_file_conn [of st rnd] open_conn_usable [OF file_pool.reach_ok [OF assms(1)]]
    by (auto simp: is_file_server_available_def split: option.splits)
  note ok = push_pool.reach_ok [OF assms(2)]
  have "usable pst c" if "g_master_rs_conn pst = Some c" "cs_open (cs_conns pst c)" for c
  proof -
    have "in_use pst (m_serv_idx (cs_conns pst c)) c" using push_master [OF assms(2)] that(1) by simp
    then show ?thesis using open_conn_usable [OF ok, of "m_serv_idx (cs_conns pst c)" c] that(2)
      by (simp add: in_use_def open_conn_iff)
  qed
  then show "case get_push_serv_conn pst of None \<Rightarrow> True | Some c \<Rightarrow> usable pst c"
    by (auto simp: get_push_serv_conn_def split: option.splits)
qed

subsection \<open>A run\<close>

text \<open>Two servers, connected at once; the first of them is confirmed, then the second, then the first is lost.\<close>

definition pool_connects :: connect_env where
  "pool_connects i = (i + 2, of_nat i + 10)"

definition pool_start :: cs_state where
  "pool_start = serv_init 0 pool_connects (servers_init two_route_servers)"

definition pool_one :: "serv_ops \<Rightarrow> cs_state" where
  "pool_one ops = the (run_pool ops (PConfirm 5 10) pool_start)"

lemmas pool_run_defs = pool_one_def pool_start_def pool_connects_def two_route_servers_def servers_init_def
  serv_init_def ServConnect_def upd_serv_def upd_cs_def cm_insert_def DbServOnConfirm_def FileServOnConfirm_def
  PushServOnConfirm_def cs_send_def MIN_RECONNECT_CNT_def Let_def upt_rec

lemma pool_start_reach: "pool_reach ops pool_start"
  unfolding pool_start_def
  by (rule pool_reach.init) (auto simp: apart_def pool_connects_def two_route_servers_def less_Suc_eq)

lemma pool_one_reach:
  assumes "ops \<in> {db_ops, file_ops, push_ops}"
  shows "pool_reach ops (pool_one ops)"
proof (rule pool_reach.step [OF pool_start_reach, where e = "PConfirm 5 10"])
  show "pool_env ops pool_start (PConfirm 5 10)" by simp
  have "map_of (serv_conn_map pool_start) 10 = Some 2" by (simp add: pool_run_defs)
  then show "run_pool ops (PConfirm 5 10) pool_start = Some (pool_one ops)" by (simp add: pool_one_def)
qed

definition counting :: "nat \<Rightarrow> nat" where
  "counting n = n mod 2 ^ 31"

lemma counting_rand: "full_range_rand (2 ^ 31 - 1) counting"
  unfolding full_range_rand_def
proof (intro conjI allI impI)
  show "counting n \<le> 2 ^ 31 - 1" for n using mod_less_divisor [of "2 ^ 31" n] by (simp add: counting_def)
  fix v n :: nat
  assume v: "v \<le> 2 ^ 31 - 1"
  have "n \<le> n * 2 ^ 31 + v" by simp
  moreover have "counting (n * 2 ^ 31 + v) = v" using v by (simp add: counting_def)
  ultimately show "\<exists>m \<ge> n. counting m = v" by blast
qed

lemma pool_one_db:
  "length (serv_list (pool_one db_ops)) = 2" "open_conn (pool_one db_ops) 0 = Some 2" "open_conn (pool_one db_ops) 1 = None"
  by (simp_all add: pool_run_defs db_ops_def open_conn_def)

lemma db_conn_found_witness:
  "\<exists>n'. get_db_serv_conn 1 (pool_one db_ops) counting 0 = Some (Some 2, n')"
proof -
  have "db_login_count (of_nat (length (serv_list (pool_one db_ops)))) 1 = Some 1"
    by (simp add: pool_one_db db_login_count_def Let_def)
  from db_conn_found [OF pool_one_reach _ this, of counting 0 "2 ^ 31 - 1"] counting_rand obtain r n' where
    "get_db_serv_conn 1 (pool_one db_ops) counting 0 = Some (r, n')" "chosen (pool_one db_ops) {1..<2} {0..<1} r"
    by (auto simp: pool_one_db split: option.splits)
  moreover from this(2) have "r = Some 2"
    using pool_one_db by (auto simp: chosen_def less_2_cases_iff split: option.splits)
  ultimately show ?thesis by blast
qed

lemma file_and_push_conn_usable_witness:
  "get_random_file_serv_conn 1 (pool_one file_ops) = Some 2 \<and> usable (pool_one file_ops) 2 \<and>
   get_push_serv_conn (pool_one push_ops) = Some 2 \<and> usable (pool_one push_ops) 2"
proof -
  have "get_random_file_serv_conn 1 (pool_one file_ops) = Some 2" "get_push_serv_conn (pool_one push_ops) = Some 2"
    by (simp_all add: pool_run_defs file_ops_def push_ops_def open_conn_def get_random_file_serv_conn_def get_push_serv_conn_def)
  then show ?thesis
    using file_and_push_conn_usable [OF pool_one_reach pool_one_reach, of 1] by simp
qed

text \<open>
  \<open>CPushServConn::Close\<close> forgets the master whichever connection closes: here the second connection is the master and
  open, and after the first has closed nothing is pushed any more.
\<close>

lemma push_master_lost:
  "\<exists>st st'. run_pool push_ops (PConfirm 6 11) (pool_one push_ops) = Some st \<and> get_push_serv_conn st = Some 3 \<and>
     run_pool push_ops (PClosed 10) st = Some st' \<and> open_conn st' 1 = Some 3 \<and> get_push_serv_conn st' = None"
  by (simp add: pool_run_defs push_ops_def get_push_serv_conn_def PushServClose_def serv_reset_def cm_erase_def
      open_conn_def MAX_RECONNECT_CNT_def)

end
