(* ===== verification/Conn_Pool.thy ===== *)
theory Conn_Pool
  imports TT_Base
begin

text \<open>
  The connection pools of the database proxy: \<open>CDBPool\<close> of \<open>db_proxy_server/DBPool.cpp\<close> and \<open>CachePool\<close> of
  \<open>db_proxy_server/CachePool.cpp\<close>, as the worker threads use them. The code between \<open>Lock\<close> and \<open>Unlock\<close> (or
  \<open>Wait\<close>, which gives the mutex away) is one step. A thread that waits is \<open>asleep\<close> until a signal or a
  spurious wake up makes it \<open>ready\<close> to take the mutex again and go on with its loop.
\<close>

type_synonym tid = nat
type_synonym pconn = nat

record conn_pool =
  m_free_list :: "pconn list"
  m_cur_conn_cnt :: int
  m_max_conn_cnt :: int

text \<open>What a thread in \<open>GetDBConn\<close> does when it gives the mutex away: it waits, returns \<open>NULL\<close> or a connection.\<close>

datatype got = Waits | GotNull | Got pconn

definition take_front :: "conn_pool \<Rightarrow> got \<times> conn_pool" where
  "take_front p = (case m_free_list p of [] \<Rightarrow> (GotNull, p) | c # cs \<Rightarrow> (Got c, p\<lparr>m_free_list := cs\<rparr>))"

subsection \<open>Database connections\<close>

definition MIN_DB_CONN_CNT :: int where "MIN_DB_CONN_CNT = 2"

definition CDBPool :: "int \<Rightarrow> conn_pool" where
  "CDBPool max_conn_cnt = \<lparr>m_free_list = [], m_cur_conn_cnt = MIN_DB_CONN_CNT, m_max_conn_cnt = max_conn_cnt\<rparr>"

text \<open>\<open>new\<close> is the new connection of each turn, \<open>None\<close> when its \<open>Init\<close> fails.\<close>

fun DBPoolInit_loop :: "pconn option list \<Rightarrow> conn_pool \<Rightarrow> int \<times> conn_pool" where
  "DBPoolInit_loop [] p = (0, p)"
| "DBPoolInit_loop (None # _) p = (1, p)"
| "DBPoolInit_loop (Some c # new) p = DBPoolInit_loop new (p\<lparr>m_free_list := m_free_list p @ [c]\<rparr>)"

definition DBPoolInit :: "(nat \<Rightarrow> pconn option) \<Rightarrow> conn_pool \<Rightarrow> int \<times> conn_pool" where
  "DBPoolInit new p = DBPoolInit_loop (map new [0..<nat (m_cur_conn_cnt p)]) p"

definition GetDBConn_pool :: "pconn option \<Rightarrow> conn_pool \<Rightarrow> got \<times> conn_pool" where
  "GetDBConn_pool new p =
     (if m_free_list p = [] then
        if m_cur_conn_cnt p \<ge> m_max_conn_cnt p then (Waits, p)
        else (case new of
            None \<Rightarrow> (GotNull, p)
          | Some c \<Rightarrow> take_front (p\<lparr>m_free_list := m_free_list p @ [c], m_cur_conn_cnt := m_cur_conn_cnt p + 1\<rparr>))
      else take_front p)"

definition RelDBConn_pool :: "pconn \<Rightarrow> conn_pool \<Rightarrow> conn_pool" where
  "RelDBConn_pool c p = (if c \<in> set (m_free_list p) then p else p\<lparr>m_free_list := m_free_list p @ [c]\<rparr>)"

subsection \<open>Redis connections\<close>

definition MIN_CACHE_CONN_CNT :: int where "MIN_CACHE_CONN_CNT = 2"

definition CachePool :: "int \<Rightarrow> conn_pool" where
  "CachePool max_conn_cnt = \<lparr>m_free_list = [], m_cur_conn_cnt = MIN_CACHE_CONN_CNT, m_max_conn_cnt = max_conn_cnt\<rparr>"

fun CachePoolInit_loop :: "pconn option list \<Rightarrow> conn_pool \<Rightarrow> int \<times> conn_pool" where
  "CachePoolInit_loop [] p = (0, p)"
| "CachePoolInit_loop (None # _) p = (1, p)"
| "CachePoolInit_loop (Some c # new) p = CachePoolInit_loop new (p\<lparr>m_free_list := m_free_list p @ [c]\<rparr>)"

definition CachePoolInit :: "(nat \<Rightarrow> pconn option) \<Rightarrow> conn_pool \<Rightarrow> int \<times> conn_pool" where
  "CachePoolInit new p = CachePoolInit_loop (map new [0..<nat (m_cur_conn_cnt p)]) p"

definition GetCacheConn_pool :: "pconn option \<Rightarrow> conn_pool \<Rightarrow> got \<times> conn_pool" where
  "GetCacheConn_pool new p =
     (if m_free_list p = [] then
        if m_cur_conn_cnt p \<ge> m_max_conn_cnt p then (Waits, p)
        else (case new of
            None \<Rightarrow> (GotNull, p)
          | Some c \<Rightarrow> take_front (p\<lparr>m_free_list := m_free_list p @ [c], m_cur_conn_cnt := m_cur_conn_cnt p + 1\<rparr>))
      else take_front p)"

definition RelCacheConn_pool :: "pconn \<Rightarrow> conn_pool \<Rightarrow> conn_pool" where
  "RelCacheConn_pool c p = (if c \<in> set (m_free_list p) then p else p\<lparr>m_free_list := m_free_list p @ [c]\<rparr>)"

subsection \<open>The managers\<close>

text \<open>
  \<open>CDBManager\<close> and \<open>CacheManager\<close> keep the pools by name; a connection goes back to the pool that made it.
  A pool that fails to connect ends the start of the server; a name that is configured twice keeps its first pool.
\<close>

record pool_config =
  pc_name :: bytes
  pc_max_conn :: int

fun DBManagerInit :: "(bytes \<Rightarrow> nat \<Rightarrow> pconn option) \<Rightarrow> pool_config list \<Rightarrow> (bytes \<rightharpoonup> conn_pool) \<Rightarrow> int \<times> (bytes \<rightharpoonup> conn_pool)" where
  "DBManagerInit new [] m = (0, m)"
| "DBManagerInit new (cfg # cfgs) m =
     (let (ret, p) = DBPoolInit (new (pc_name cfg)) (CDBPool (pc_max_conn cfg))
      in if ret \<noteq> 0 then (1, m)
         else DBManagerInit new cfgs (if pc_name cfg \<in> dom m then m else m(pc_name cfg \<mapsto> p)))"

definition GetDBConn_mgr :: "pconn option \<Rightarrow> bytes \<Rightarrow> (bytes \<rightharpoonup> conn_pool) \<Rightarrow> got \<times> (bytes \<rightharpoonup> conn_pool)" where
  "GetDBConn_mgr new dbpool_name m = (case m dbpool_name of
       None \<Rightarrow> (GotNull, m)
     | Some p \<Rightarrow> (let (g, p') = GetDBConn_pool new p in (g, m(dbpool_name \<mapsto> p'))))"

definition RelDBConn_mgr :: "(pconn \<Rightarrow> bytes) \<Rightarrow> pconn option \<Rightarrow> (bytes \<rightharpoonup> conn_pool) \<Rightarrow> (bytes \<rightharpoonup> conn_pool)" where
  "RelDBConn_mgr GetPoolName pConn m = (case pConn of
       None \<Rightarrow> m
     | Some c \<Rightarrow> (case m (GetPoolName c) of None \<Rightarrow> m | Some p \<Rightarrow> m(GetPoolName c \<mapsto> RelDBConn_pool c p)))"

fun CacheManagerInit :: "(bytes \<Rightarrow> nat \<Rightarrow> pconn option) \<Rightarrow> pool_config list \<Rightarrow> (bytes \<rightharpoonup> conn_pool) \<Rightarrow> int \<times> (bytes \<rightharpoonup> conn_pool)" where
  "CacheManagerInit new [] m = (0, m)"
| "CacheManagerInit new (cfg # cfgs) m =
     (let (ret, p) = CachePoolInit (new (pc_name cfg)) (CachePool (pc_max_conn cfg))
      in if ret \<noteq> 0 then (1, m)
         else CacheManagerInit new cfgs (if pc_name cfg \<in> dom m then m else m(pc_name cfg \<mapsto> p)))"

definition GetCacheConn_mgr :: "pconn option \<Rightarrow> bytes \<Rightarrow> (bytes \<rightharpoonup> conn_pool) \<Rightarrow> got \<times> (bytes \<rightharpoonup> conn_pool)" where
  "GetCacheConn_mgr new pool_name m = (case m pool_name of
       Some p \<Rightarrow> (let (g, p') = GetCacheConn_pool new p in (g, m(pool_name \<mapsto> p')))
     | None \<Rightarrow> (GotNull, m))"

definition RelCacheConn_mgr :: "(pconn \<Rightarrow> bytes) \<Rightarrow> pconn option \<Rightarrow> (bytes \<rightharpoonup> conn_pool) \<Rightarrow> (bytes \<rightharpoonup> conn_pool)" where
  "RelCacheConn_mgr GetPoolName pCacheConn m = (case pCacheConn of
       None \<Rightarrow> m
     | Some c \<Rightarrow> (case m (GetPoolName c) of None \<Rightarrow> m | Some p \<Rightarrow> m(GetPoolName c \<mapsto> RelCacheConn_pool c p)))"

subsection \<open>The threads\<close>

text \<open>
  \<open>has\<close> are the connections handed out, with the thread that has them. \<open>pthread_cond_signal\<close> wakes one of the
  threads that wait, if there are any.
\<close>

record pool_ops =
  op_init :: "(nat \<Rightarrow> pconn option) \<Rightarrow> conn_pool \<Rightarrow> int \<times> conn_pool"
  op_get :: "pconn option \<Rightarrow> conn_pool \<Rightarrow> got \<times> conn_pool"
  op_rel :: "pconn \<Rightarrow> conn_pool \<Rightarrow> conn_pool"
  op_new :: "int \<Rightarrow> conn_pool"

definition db_pool :: pool_ops where
  "db_pool = \<lparr>op_init = DBPoolInit, op_get = GetDBConn_pool, op_rel = RelDBConn_pool, op_new = CDBPool\<rparr>"

definition cache_pool :: pool_ops where
  "cache_pool = \<lparr>op_init = CachePoolInit, op_get = GetCacheConn_pool, op_rel = RelCacheConn_pool, op_new = CachePool\<rparr>"

record pool_threads =
  the_pool :: conn_pool
  asleep :: "tid list"
  ready :: "tid list"
  has :: "(tid \<times> pconn) list"

datatype pool_step =
    PGet tid "pconn option"
  | PResume tid "pconn option"
  | PSpurious tid
  | PRel tid pconn "tid option"

definition enter_get :: "pool_ops \<Rightarrow> tid \<Rightarrow> pconn option \<Rightarrow> pool_threads \<Rightarrow> pool_threads" where
  "enter_get ops t new ts = (case op_get ops new (the_pool ts) of
       (Waits, p) \<Rightarrow> ts\<lparr>the_pool := p, asleep := asleep ts @ [t]\<rparr>
     | (GotNull, p) \<Rightarrow> ts\<lparr>the_pool := p\<rparr>
     | (Got c, p) \<Rightarrow> ts\<lparr>the_pool := p, has := (t, c) # has ts\<rparr>)"

definition wake :: "tid \<Rightarrow> pool_threads \<Rightarrow> pool_threads" where
  "wake t ts = ts\<lparr>asleep := remove1 t (asleep ts), ready := ready ts @ [t]\<rparr>"

fun do_pool_step :: "pool_ops \<Rightarrow> pool_step \<Rightarrow> pool_threads \<Rightarrow> pool_threads" where
  "do_pool_step ops (PGet t new) ts = enter_get ops t new ts"
| "do_pool_step ops (PResume t new) ts = enter_get ops t new (ts\<lparr>ready := remove1 t (ready ts)\<rparr>)"
| "do_pool_step ops (PSpurious t) ts = wake t ts"
| "do_pool_step ops (PRel t c w) ts =
     (let ts' = ts\<lparr>the_pool := op_rel ops c (the_pool ts), has := remove1 (t, c) (has ts)\<rparr>
      in case w of None \<Rightarrow> ts' | Some t' \<Rightarrow> wake t' ts')"

definition in_use :: "pool_threads \<Rightarrow> pconn list" where
  "in_use ts = m_free_list (the_pool ts) @ map snd (has ts)"

definition blocked :: "tid \<Rightarrow> pool_threads \<Rightarrow> bool" where
  "blocked t ts \<longleftrightarrow> t \<in> set (asleep ts) \<or> t \<in> set (ready ts)"

definition fresh_conn :: "pconn option \<Rightarrow> pool_threads \<Rightarrow> bool" where
  "fresh_conn new ts \<longleftrightarrow> (case new of None \<Rightarrow> True | Some c \<Rightarrow> c \<notin> set (in_use ts))"

text \<open>
  The steps that can happen: a thread that runs asks for a connection or returns one it has, a woken thread
  goes on. The address of a new connection is not that of another one.
\<close>

fun pool_may :: "pool_step \<Rightarrow> pool_threads \<Rightarrow> bool" where
  "pool_may (PGet t new) ts \<longleftrightarrow> \<not> blocked t ts \<and> fresh_conn new ts"
| "pool_may (PResume t new) ts \<longleftrightarrow> t \<in> set (ready ts) \<and> fresh_conn new ts"
| "pool_may (PSpurious t) ts \<longleftrightarrow> t \<in> set (asleep ts)"
| "pool_may (PRel t c w) ts \<longleftrightarrow> \<not> blocked t ts \<and> (t, c) \<in> set (has ts) \<and>
     (case w of None \<Rightarrow> asleep ts = [] | Some t' \<Rightarrow> t' \<in> set (asleep ts))"

text \<open>\<open>ask\<close> restricts who asks: any thread, or only threads that have no connection of this pool.\<close>

inductive pool_runs :: "pool_ops \<Rightarrow> int \<Rightarrow> (tid \<Rightarrow> pool_threads \<Rightarrow> bool) \<Rightarrow> pool_threads \<Rightarrow> bool"
  for ops :: pool_ops and max_conn :: int and ask :: "tid \<Rightarrow> pool_threads \<Rightarrow> bool" where
  init: "op_init ops new (op_new ops max_conn) = (0, p) \<Longrightarrow> distinct (m_free_list p) \<Longrightarrow>
    pool_runs ops max_conn ask \<lparr>the_pool = p, asleep = [], ready = [], has = []\<rparr>"
| step: "pool_runs ops max_conn ask ts \<Longrightarrow> pool_may s ts \<Longrightarrow> (\<And>t new. s = PGet t new \<Longrightarrow> ask t ts) \<Longrightarrow>
    pool_runs ops max_conn ask (do_pool_step ops s ts)"

definition any_thread :: "tid \<Rightarrow> pool_threads \<Rightarrow> bool" where
  "any_thread t ts \<longleftrightarrow> True"

definition has_none :: "tid \<Rightarrow> pool_threads \<Rightarrow> bool" where
  "has_none t ts \<longleftrightarrow> t \<notin> fst ` set (has ts)"

subsection \<open>What the two pools share\<close>

locale pool_class =
  fixes ops :: pool_ops and min_cnt :: nat
  assumes new_pool: "op_new ops m = \<lparr>m_free_list = [], m_cur_conn_cnt = int min_cnt, m_max_conn_cnt = m\<rparr>"
    and init_pool: "op_init ops mk p = (0, p') \<Longrightarrow> \<exists>cs. length cs = nat (m_cur_conn_cnt p) \<and>
      p' = p\<lparr>m_free_list := m_free_list p @ cs\<rparr>"
    and get_waits: "op_get ops new p = (Waits, p') \<Longrightarrow> p' = p \<and> m_free_list p = [] \<and> m_max_conn_cnt p \<le> m_cur_conn_cnt p"
    and get_null: "op_get ops new p = (GotNull, p') \<Longrightarrow> p' = p \<and> m_free_list p = [] \<and> m_cur_conn_cnt p < m_max_conn_cnt p"
    and get_got: "op_get ops new p = (Got c, p') \<Longrightarrow>
      m_free_list p = c # m_free_list p' \<and> p' = p\<lparr>m_free_list := m_free_list p'\<rparr> \<or>
      m_free_list p = [] \<and> new = Some c \<and> m_cur_conn_cnt p < m_max_conn_cnt p \<and> p' = p\<lparr>m_cur_conn_cnt := m_cur_conn_cnt p + 1\<rparr>"
    and get_free: "m_free_list p \<noteq> [] \<Longrightarrow> \<exists>c p'. op_get ops new p = (Got c, p')"
    and rel: "op_rel ops c p = (if c \<in> set (m_free_list p) then p else p\<lparr>m_free_list := m_free_list p @ [c]\<rparr>)"
begin

text \<open>
  The invariant: every connection is in the free list or with one thread; there are not more than the
  configuration allows; and a thread sleeps only when all of them exist and every free one is left for a thread
  that has been woken.
\<close>

definition pool_inv :: "int \<Rightarrow> pool_threads \<Rightarrow> bool" where
  "pool_inv m ts \<longleftrightarrow> distinct (in_use ts) \<and> int (length (in_use ts)) = m_cur_conn_cnt (the_pool ts) \<and>
     int min_cnt \<le> m_cur_conn_cnt (the_pool ts) \<and> m_cur_conn_cnt (the_pool ts) \<le> max m (int min_cnt) \<and> m_max_conn_cnt (the_pool ts) = m \<and>
     distinct (asleep ts @ ready ts) \<and>
     (asleep ts \<noteq> [] \<longrightarrow> m \<le> m_cur_conn_cnt (the_pool ts) \<and> length (m_free_list (the_pool ts)) \<le> length (ready ts))"

lemma inv_init:
  assumes "op_init ops new (op_new ops m) = (0, p)" "distinct (m_free_list p)"
  shows "pool_inv m \<lparr>the_pool = p, asleep = [], ready = [], has = []\<rparr>"
  using init_pool [OF assms(1)] assms(2) by (auto simp: pool_inv_def in_use_def new_pool)

lemma inv_enter:
  assumes inv: "pool_inv m ts" and new: "fresh_conn new ts" and t: "\<not> blocked t ts \<or> t \<in> set (ready ts)"
  shows "pool_inv m (enter_get ops t new (ts\<lparr>ready := remove1 t (ready ts)\<rparr>))"
proof (cases "op_get ops new (the_pool ts)")
  case (Pair g p)
  have dist: "distinct (asleep ts @ ready ts)" using inv by (simp add: pool_inv_def)
  then have t': "t \<notin> set (asleep ts)" using t by (auto simp: blocked_def)
  have ds: "distinct ((asleep ts @ [t]) @ remove1 t (ready ts))" "distinct (asleep ts @ remove1 t (ready ts))"
    using dist t' by (auto dest: notin_set_remove1)
  have len: "length (ready ts) \<le> Suc (length (remove1 t (ready ts)))"
    by (cases "t \<in> set (ready ts)") (auto simp: length_remove1)
  show ?thesis
  proof (cases g)
    case Waits
    then show ?thesis using get_waits [of new "the_pool ts" p] Pair inv ds
      by (auto simp: enter_get_def pool_inv_def in_use_def)
  next
    case GotNull
    then show ?thesis using get_null [of new "the_pool ts" p] Pair inv ds
      by (auto simp: enter_get_def pool_inv_def in_use_def)
  next
    case (Got c)
    let ?p = "the_pool ts"
    have ts': "enter_get ops t new (ts\<lparr>ready := remove1 t (ready ts)\<rparr>) =
        ts\<lparr>ready := remove1 t (ready ts), the_pool := p, has := (t, c) # has ts\<rparr>" (is "_ = ?ts")
      using Got Pair by (simp add: enter_get_def)
    from get_got [of new ?p c p] Got Pair
    consider (old) "m_free_list ?p = c # m_free_list p" "p = ?p\<lparr>m_free_list := m_free_list p\<rparr>"
      | (made) "m_free_list ?p = []" "new = Some c" "m_cur_conn_cnt ?p < m_max_conn_cnt ?p"
          "p = ?p\<lparr>m_cur_conn_cnt := m_cur_conn_cnt ?p + 1\<rparr>" by auto
    then show ?thesis
    proof cases
      case old
      then have "m_cur_conn_cnt p = m_cur_conn_cnt ?p" "m_max_conn_cnt p = m_max_conn_cnt ?p" by (metis conn_pool.select_convs conn_pool.surjective conn_pool.update_convs(1))+
      then show ?thesis using inv ds len old(1) unfolding ts' pool_inv_def in_use_def by auto
    next
      case made
      have "asleep ts = []" using inv made(3) by (auto simp: pool_inv_def)
      then show ?thesis using inv new ds made unfolding ts' pool_inv_def in_use_def by (auto simp: fresh_conn_def in_use_def)
    qed
  qed
qed

lemma inv_wake:
  assumes "pool_inv m ts" "t \<in> set (asleep ts)"
  shows "pool_inv m (wake t ts)"
  using assms by (auto simp: pool_inv_def wake_def in_use_def dest: notin_set_remove1)

lemma inv_rel:
  assumes inv: "pool_inv m ts" and c: "(t, c) \<in> set (has ts)"
    and w: "case w of None \<Rightarrow> asleep ts = [] | Some t' \<Rightarrow> t' \<in> set (asleep ts)"
  shows "pool_inv m (do_pool_step ops (PRel t c w) ts)"
proof -
  let ?p = "the_pool ts"
  let ?ts = "ts\<lparr>the_pool := op_rel ops c ?p, has := remove1 (t, c) (has ts)\<rparr>"
  obtain xs ys where has: "has ts = xs @ (t, c) # ys" "(t, c) \<notin> set xs" by (meson c split_list_first)
  have d: "distinct (in_use ts)" using inv by (simp add: pool_inv_def)
  then have "c \<notin> set (m_free_list ?p)" using has by (auto simp: in_use_def)
  then have r: "op_rel ops c ?p = ?p\<lparr>m_free_list := m_free_list ?p @ [c]\<rparr>" "remove1 (t, c) (has ts) = xs @ ys"
    using has by (simp_all add: rel remove1_append)
  have "?ts = ts\<lparr>the_pool := ?p\<lparr>m_free_list := m_free_list ?p @ [c]\<rparr>, has := xs @ ys\<rparr>" by (simp only: r)
  moreover have "pool_inv m (case w of None \<Rightarrow> ts' | Some t' \<Rightarrow> wake t' ts')"
    if "ts' = ts\<lparr>the_pool := ?p\<lparr>m_free_list := m_free_list ?p @ [c]\<rparr>, has := xs @ ys\<rparr>" for ts'
    using inv w has unfolding that
    by (auto simp: pool_inv_def wake_def in_use_def split: option.splits dest: notin_set_remove1)
  ultimately show ?thesis by (simp only: do_pool_step.simps Let_def)
qed

lemma inv_step:
  assumes "pool_inv m ts" "pool_may s ts"
  shows "pool_inv m (do_pool_step ops s ts)"
proof (cases s)
  case (PGet t new)
  then have "t \<notin> set (ready ts)" "\<not> blocked t ts" "fresh_conn new ts" using assms(2) by (auto simp: blocked_def)
  then show ?thesis using inv_enter [OF assms(1), of new t] PGet by (simp add: remove1_idem)
next
  case (PResume t new)
  then show ?thesis using inv_enter [OF assms(1), of new t] assms(2) by simp
next
  case (PSpurious t)
  then show ?thesis using inv_wake assms by simp
next
  case (PRel t c w)
  then show ?thesis using inv_rel [OF assms(1)] assms(2) by (auto simp del: do_pool_step.simps)
qed

lemma runs_inv: "pool_runs ops m ask ts \<Longrightarrow> pool_inv m ts"
  by (induction rule: pool_runs.induct) (auto intro: inv_init inv_step)

text \<open>A woken thread finds a connection in the free list, unless another thread was faster.\<close>

lemma resume_gets:
  assumes "m_free_list (the_pool ts) \<noteq> []"
  shows "\<exists>c. has (do_pool_step ops (PResume t new) ts) = (t, c) # has ts"
proof -
  obtain c p' where "op_get ops new (the_pool ts) = (Got c, p')" using get_free [OF assms] by blast
  then show ?thesis by (simp add: enter_get_def)
qed

lemma runs_exclusive:
  assumes "pool_runs ops m ask ts" "(t, c) \<in> set (has ts)"
  shows "c \<notin> set (m_free_list (the_pool ts))" "(t', c) \<in> set (has ts) \<Longrightarrow> t' = t"
    "int (length (m_free_list (the_pool ts)) + length (has ts)) \<le> max m (int min_cnt)"
  using runs_inv [OF assms(1)] assms(2)
  by (auto simp: pool_inv_def in_use_def distinct_map inj_on_def image_iff) force+

lemma runs_no_lost_wakeup:
  assumes "pool_runs ops m ask ts" "asleep ts \<noteq> []"
  shows "length (m_free_list (the_pool ts)) \<le> length (ready ts)"
    "m_free_list (the_pool ts) \<noteq> [] \<Longrightarrow> \<exists>c. has (do_pool_step ops (PResume t new) ts) = (t, c) # has ts"
  using runs_inv [OF assms(1)] assms(2) resume_gets by (auto simp: pool_inv_def)

text \<open>Threads that ask while they have none: no thread has two, and a blocked thread has none.\<close>

definition single_inv :: "pool_threads \<Rightarrow> bool" where
  "single_inv ts \<longleftrightarrow> (\<forall>t c. (t, c) \<in> set (has ts) \<longrightarrow> \<not> blocked t ts)"

lemma single_enter:
  assumes "single_inv ts" "t \<notin> fst ` set (has ts)" "distinct (asleep ts @ ready ts)" "t \<notin> set (asleep ts)"
  shows "single_inv (enter_get ops t new (ts\<lparr>ready := remove1 t (ready ts)\<rparr>))"
proof -
  have "(t, c) \<notin> set (has ts)" for c using assms(2) by force
  with assms show ?thesis
    by (auto simp: single_inv_def enter_get_def blocked_def split: prod.splits got.splits dest: notin_set_remove1)
qed

lemma single_wake: "single_inv ts \<Longrightarrow> t \<in> set (asleep ts) \<Longrightarrow> single_inv (wake t ts)"
  by (auto simp: single_inv_def wake_def blocked_def dest: notin_set_remove1)

lemma single_step:
  assumes inv: "pool_inv m ts" "single_inv ts" and may: "pool_may s ts" "\<And>t new. s = PGet t new \<Longrightarrow> has_none t ts"
  shows "single_inv (do_pool_step ops s ts)"
proof (cases s)
  case (PGet t new)
  then have "remove1 t (ready ts) = ready ts" "t \<notin> set (asleep ts)" using may(1) by (auto simp: blocked_def remove1_idem)
  then show ?thesis using single_enter [of ts t new] inv may(2) [OF PGet] PGet
    by (auto simp: has_none_def pool_inv_def)
next
  case (PResume t new)
  then have t: "t \<in> set (ready ts)" using may(1) by simp
  then have "t \<notin> fst ` set (has ts)" using inv(2) by (auto simp: single_inv_def blocked_def)
  then show ?thesis using single_enter [of ts t new] inv t PResume by (auto simp: pool_inv_def)
next
  case (PSpurious t)
  then show ?thesis using single_wake inv may by simp
next
  case (PRel t c w)
  have "single_inv (ts\<lparr>the_pool := op_rel ops c (the_pool ts), has := remove1 (t, c) (has ts)\<rparr>)"
    using inv(2) set_remove1_subset [of "(t, c)" "has ts"] unfolding single_inv_def blocked_def by auto
  then show ?thesis using may(1) PRel single_wake by (auto split: option.splits)
qed

lemma runs_single: "pool_runs ops m has_none ts \<Longrightarrow> single_inv ts"
proof (induction rule: pool_runs.induct)
  case (step ts s)
  then show ?case using single_step [OF runs_inv] by blast
qed (simp add: single_inv_def)

lemma runs_progress:
  assumes "pool_runs ops m has_none ts" "asleep ts \<noteq> []" "0 < min_cnt"
  shows "ready ts \<noteq> [] \<or> (\<exists>t c. (t, c) \<in> set (has ts) \<and> \<not> blocked t ts)"
proof (cases "ready ts = [] \<and> has ts = []")
  case True
  then show ?thesis using runs_inv [OF assms(1)] assms(2,3) by (auto simp: pool_inv_def in_use_def)
next
  case False
  then show ?thesis using runs_single [OF assms(1)] by (cases "has ts") (auto simp: single_inv_def)
qed

end

lemma take_front_eq: "take_front p = (if m_free_list p = [] then (GotNull, p)
    else (Got (hd (m_free_list p)), p\<lparr>m_free_list := tl (m_free_list p)\<rparr>))"
  by (simp add: take_front_def split: list.split)

lemma DBPoolInit_some: "DBPoolInit_loop new p = (0, p') \<Longrightarrow> \<exists>cs. length cs = length new \<and> p' = p\<lparr>m_free_list := m_free_list p @ cs\<rparr>"
proof (induction new p rule: DBPoolInit_loop.induct)
  case (3 c new p)
  then obtain cs where "length cs = length new" "p' = p\<lparr>m_free_list := (m_free_list p @ [c]) @ cs\<rparr>" by auto
  then show ?case by (intro exI [of _ "c # cs"]) simp
qed auto

lemma CachePoolInit_same: "CachePoolInit_loop new p = DBPoolInit_loop new p"
  by (induction new p rule: DBPoolInit_loop.induct) auto

lemmas pool_defs = db_pool_def cache_pool_def CDBPool_def CachePool_def MIN_DB_CONN_CNT_def MIN_CACHE_CONN_CNT_def
  GetDBConn_pool_def GetCacheConn_pool_def RelDBConn_pool_def RelCacheConn_pool_def take_front_eq

interpretation dbp: pool_class db_pool 2
proof
  fix mk p p' assume "op_init db_pool mk p = (0, p')"
  then show "\<exists>cs. length cs = nat (m_cur_conn_cnt p) \<and> p' = p\<lparr>m_free_list := m_free_list p @ cs\<rparr>"
    using DBPoolInit_some by (fastforce simp: pool_defs DBPoolInit_def)
next
  fix new p p' c assume "op_get db_pool new p = (Got c, p')"
  then show "m_free_list p = c # m_free_list p' \<and> p' = p\<lparr>m_free_list := m_free_list p'\<rparr> \<or>
      m_free_list p = [] \<and> new = Some c \<and> m_cur_conn_cnt p < m_max_conn_cnt p \<and> p' = p\<lparr>m_cur_conn_cnt := m_cur_conn_cnt p + 1\<rparr>"
    by (auto simp: pool_defs split: if_splits option.splits)
qed (auto simp: pool_defs split: if_splits option.splits)

interpretation cachep: pool_class cache_pool 2
proof
  fix mk p p' assume "op_init cache_pool mk p = (0, p')"
  then show "\<exists>cs. length cs = nat (m_cur_conn_cnt p) \<and> p' = p\<lparr>m_free_list := m_free_list p @ cs\<rparr>"
    using DBPoolInit_some by (fastforce simp: pool_defs CachePoolInit_def CachePoolInit_same)
next
  fix new p p' c assume "op_get cache_pool new p = (Got c, p')"
  then show "m_free_list p = c # m_free_list p' \<and> p' = p\<lparr>m_free_list := m_free_list p'\<rparr> \<or>
      m_free_list p = [] \<and> new = Some c \<and> m_cur_conn_cnt p < m_max_conn_cnt p \<and> p' = p\<lparr>m_cur_conn_cnt := m_cur_conn_cnt p + 1\<rparr>"
    by (auto simp: pool_defs split: if_splits option.splits)
qed (auto simp: pool_defs split: if_splits option.splits)

subsection \<open>Properties\<close>

text \<open>
  C29: a connection of a pool of the database proxy is with one worker thread at a time and never in the free
  list while a thread has it, so that two threads never talk over the same connection; and the pool never opens
  more connections than configured (but at least the two it starts with).
\<close>

theorem pool_connections_exclusive:
  assumes "ops = db_pool \<or> ops = cache_pool" "pool_runs ops m ask ts" "(t, c) \<in> set (has ts)"
  shows "c \<notin> set (m_free_list (the_pool ts)) \<and> (\<forall>(t', c') \<in> set (has ts). c' = c \<longrightarrow> t' = t) \<and>
    int (length (m_free_list (the_pool ts)) + length (has ts)) \<le> max m 2"
  using assms(1)
proof
  assume "ops = db_pool"
  with assms(2) have runs: "pool_runs db_pool m ask ts" by simp
  note ex = dbp.runs_exclusive [OF runs assms(3)]
  show ?thesis using ex(1,3) ex(2) by auto
next
  assume "ops = cache_pool"
  with assms(2) have runs: "pool_runs cache_pool m ask ts" by simp
  note ex = cachep.runs_exclusive [OF runs assms(3)]
  show ?thesis using ex(1,3) ex(2) by auto
qed

text \<open>
  C30: no thread that waits for a connection is forgotten. While threads sleep in a pool, the free connections are
  not more than the threads already woken, and a woken thread that goes on while a connection is free gets one.
  If threads only ask for a connection of the pool while they have none of it, there is always a woken thread
  or a running thread with a connection: the pool does not deadlock.
\<close>

theorem pool_waiters_served:
  assumes "ops = db_pool \<or> ops = cache_pool" "pool_runs ops m ask ts" "asleep ts \<noteq> []"
  shows "length (m_free_list (the_pool ts)) \<le> length (ready ts) \<and>
    (m_free_list (the_pool ts) \<noteq> [] \<longrightarrow> (\<forall>t new. \<exists>c. has (do_pool_step ops (PResume t new) ts) = (t, c) # has ts)) \<and>
    (ask = has_none \<longrightarrow> ready ts \<noteq> [] \<or> (\<exists>t c. (t, c) \<in> set (has ts) \<and> \<not> blocked t ts))"
  using assms(1)
proof
  assume ops: "ops = db_pool"
  note runs = assms(2) [unfolded ops]
  show ?thesis unfolding ops
    using dbp.runs_no_lost_wakeup [OF runs assms(3)] dbp.runs_progress [of m ts] assms(3) runs by auto
next
  assume ops: "ops = cache_pool"
  note runs = assms(2) [unfolded ops]
  show ?thesis unfolding ops
    using cachep.runs_no_lost_wakeup [OF runs assms(3)] cachep.runs_progress [of m ts] assms(3) runs by auto
qed

text \<open>
  Threads that ask for a second connection while they have one can deadlock: when all connections are with
  threads that wait for another one, no thread ever returns one.
\<close>

definition dead :: "pool_threads \<Rightarrow> bool" where
  "dead ts \<longleftrightarrow> m_free_list (the_pool ts) = [] \<and> m_max_conn_cnt (the_pool ts) \<le> m_cur_conn_cnt (the_pool ts) \<and>
     (\<forall>t c. (t, c) \<in> set (has ts) \<longrightarrow> blocked t ts)"

lemma dead_waits:
  assumes "ops = db_pool \<or> ops = cache_pool" "dead ts"
  shows "op_get ops new (the_pool ts) = (Waits, the_pool ts)"
  using assms by (auto simp: dead_def pool_defs)

lemma dead_step:
  assumes "ops = db_pool \<or> ops = cache_pool" "dead ts" "pool_may s ts"
  shows "dead (do_pool_step ops s ts) \<and> has (do_pool_step ops s ts) = has ts"
proof (cases s)
  case (PGet t new)
  then show ?thesis using dead_waits [OF assms(1,2)] assms(2)
    by (auto simp: enter_get_def dead_def blocked_def)
next
  case (PResume t new)
  have "\<And>x. x \<in> set (ready ts) \<Longrightarrow> x = t \<or> x \<in> set (remove1 t (ready ts))" by (metis in_set_remove1)
  then show ?thesis using dead_waits [OF assms(1,2)] assms(2) PResume
    by (auto simp: enter_get_def dead_def blocked_def)
next
  case (PSpurious t)
  have "\<And>x. x \<in> set (asleep ts) \<Longrightarrow> x = t \<or> x \<in> set (remove1 t (asleep ts))" by (metis in_set_remove1)
  then show ?thesis using assms(2) PSpurious by (auto simp: wake_def dead_def blocked_def)
next
  case (PRel t c w)
  then show ?thesis using assms(2,3) by (auto simp: dead_def)
qed

fun pool_path :: "pool_ops \<Rightarrow> pool_step list \<Rightarrow> pool_threads \<Rightarrow> pool_threads option" where
  "pool_path ops [] ts = Some ts"
| "pool_path ops (s # ss) ts = (if pool_may s ts then pool_path ops ss (do_pool_step ops s ts) else None)"

lemma dead_path:
  "ops = db_pool \<or> ops = cache_pool \<Longrightarrow> dead ts \<Longrightarrow> pool_path ops ss ts = Some ts' \<Longrightarrow> dead ts' \<and> has ts' = has ts"
proof (induction ss arbitrary: ts)
  case (Cons s ss)
  then have s: "pool_may s ts" by (simp split: if_splits)
  note step = dead_step [OF Cons.prems(1,2) s]
  from Cons.IH [OF Cons.prems(1) conjunct1 [OF step]] step s Cons.prems(3) show ?case by simp
qed simp

lemma path_runs:
  "pool_path ops ss ts = Some ts' \<Longrightarrow> pool_runs ops m any_thread ts \<Longrightarrow> pool_runs ops m any_thread ts'"
proof (induction ss arbitrary: ts)
  case (Cons s ss)
  then have may: "pool_may s ts" by (simp split: if_splits)
  from pool_runs.step [OF Cons.prems(2) may] have "pool_runs ops m any_thread (do_pool_step ops s ts)"
    unfolding any_thread_def by blast
  then show ?case using Cons.IH Cons.prems(1) may by simp
qed simp

definition two_conns :: pool_threads where
  "two_conns = \<lparr>the_pool = \<lparr>m_free_list = [10, 11], m_cur_conn_cnt = 2, m_max_conn_cnt = 2\<rparr>, asleep = [], ready = [], has = []\<rparr>"

lemma two_conns_reach: "pool_runs db_pool 2 ask two_conns"
proof -
  have new: "op_init db_pool (\<lambda>i. Some (10 + i)) (op_new db_pool 2) =
      (0, \<lparr>m_free_list = [10, 11], m_cur_conn_cnt = 2, m_max_conn_cnt = 2\<rparr>)"
    by (simp add: pool_defs DBPoolInit_def upt_rec)
  show ?thesis unfolding two_conns_def by (rule pool_runs.init [OF new]) simp
qed

definition four_gets :: "pool_step list" where
  "four_gets = [PGet 0 None, PGet 1 None, PGet 0 None, PGet 1 None]"

definition both_wait :: pool_threads where
  "both_wait = \<lparr>the_pool = \<lparr>m_free_list = [], m_cur_conn_cnt = 2, m_max_conn_cnt = 2\<rparr>, asleep = [0, 1], ready = [],
     has = [(1, 11), (0, 10)]\<rparr>"

lemma four_gets_path: "pool_path db_pool four_gets two_conns = Some both_wait"
  by (simp add: four_gets_def two_conns_def both_wait_def pool_defs enter_get_def blocked_def fresh_conn_def)

text \<open>
  C31: two threads that take a database connection each, and then, like the code that stores a group message,
  ask for another one, block the pool of two connections for ever: whatever happens afterwards, both connections
  stay with them and both threads stay blocked.
\<close>

theorem nested_get_deadlocks:
  assumes "pool_path db_pool ss both_wait = Some ts"
  shows "pool_runs db_pool 2 any_thread ts \<and> has ts = [(1, 11), (0, 10)] \<and> blocked 0 ts \<and> blocked 1 ts"
proof -
  have "dead both_wait" by (auto simp: dead_def both_wait_def blocked_def)
  from dead_path [OF _ this assms] have "dead ts" "has ts = [(1, 11), (0, 10)]" by (simp_all add: both_wait_def)
  moreover have "pool_runs db_pool 2 any_thread ts"
    using path_runs [OF assms path_runs [OF four_gets_path two_conns_reach]] .
  ultimately show ?thesis by (auto simp: dead_def)
qed

lemma nested_get_deadlocks_witness:
  "pool_path db_pool [PSpurious 1, PGet 5 None, PResume 1 None] both_wait \<noteq> None \<and>
   blocked 0 (the (pool_path db_pool [PSpurious 1, PGet 5 None, PResume 1 None] both_wait))"
proof -
  have "pool_path db_pool [PSpurious 1, PGet 5 None, PResume 1 None] both_wait =
      Some (both_wait\<lparr>asleep := [0, 5, 1]\<rparr>)"
    by (simp add: both_wait_def pool_defs enter_get_def wake_def blocked_def fresh_conn_def)
  with nested_get_deadlocks [OF this] show ?thesis by simp
qed

lemma one_taken: "pool_path db_pool [PGet 0 None] two_conns = Some (two_conns\<lparr>the_pool :=
    \<lparr>m_free_list = [11], m_cur_conn_cnt = 2, m_max_conn_cnt = 2\<rparr>, has := [(0, 10)]\<rparr>)"
  by (simp add: two_conns_def pool_defs enter_get_def blocked_def fresh_conn_def)

lemma pool_connections_exclusive_witness:
  "10 \<notin> set (m_free_list (the_pool (the (pool_path db_pool [PGet 0 None] two_conns))))"
  using pool_connections_exclusive [OF disjI1 [OF refl] path_runs [OF one_taken two_conns_reach], of 0 10] one_taken
  by simp

lemma pool_waiters_served_witness: "length (m_free_list (the_pool both_wait)) \<le> length (ready both_wait)"
  using pool_waiters_served [OF disjI1 [OF refl] path_runs [OF four_gets_path two_conns_reach]]
  by (simp add: both_wait_def)

end
