(* ===== verification/Db_World.thy ===== *)
theory Db_World
  imports Str_Util Public_Define "HOL-Library.State_Monad"
begin

text \<open>
  What the queries of the database proxy run on: result sets, statements and connections of
  \<open>db_proxy_server/DBPool.cpp\<close>, and the redis commands of \<open>db_proxy_server/CachePool.cpp\<close>. Code is a program of the state
  monad. MySQL, redis, the clock, the HTTP client and the pools as one thread sees them are the functions
  of \<open>services\<close> on an unknown state \<open>'w\<close>. What C++ leaves undefined is recorded in \<open>defects\<close> and the program goes on
  with some value, so that freedom from defects is a theorem. Three fields are for the theorems only:
  \<open>asks\<close> (which connections a thread had when it asked for another one), \<open>executed\<close> (the statements that
  change tables) and \<open>defects\<close>.
\<close>

subsection \<open>Values of the services\<close>

type_synonym row = "(bytes \<times> bytes option) list"

datatype sql_param = PInt u32 | PStr bytes

datatype redis_reply =
    RString bytes
  | RStatus bytes
  | RError bytes
  | RInteger int
  | RNil
  | RArray "redis_reply list"

text \<open>The fields \<open>str\<close> (with \<open>len\<close>) and \<open>integer\<close> of a \<open>redisReply\<close>, which is zero where they are not used.\<close>

definition reply_str :: "redis_reply \<Rightarrow> bytes" where
  "reply_str r = (case r of RString s \<Rightarrow> s | RStatus s \<Rightarrow> s | RError s \<Rightarrow> s | _ \<Rightarrow> [])"

definition reply_integer :: "redis_reply \<Rightarrow> int" where
  "reply_integer r = (case r of RInteger i \<Rightarrow> i | _ \<Rightarrow> 0)"

datatype pool_id = DbP bytes | CacheP bytes

type_synonym conn = "pool_id \<times> nat"

text \<open>
  The services. A query gives its rows (\<open>None\<close> when it fails), a statement the number of rows it changed, the preparation
  of a statement the number of its parameters. A redis connection is a context, which may carry an error.
  \<open>sv_junk\<close> is what an uninitialized variable holds.
\<close>

record 'w services =
  sv_get :: "pool_id \<Rightarrow> 'w \<Rightarrow> nat option \<times> 'w"
  sv_query :: "conn \<Rightarrow> bytes \<Rightarrow> 'w \<Rightarrow> row list option \<times> 'w"
  sv_update :: "conn \<Rightarrow> bytes \<Rightarrow> 'w \<Rightarrow> nat option \<times> 'w"
  sv_prepare :: "conn \<Rightarrow> bytes \<Rightarrow> 'w \<Rightarrow> nat option \<times> 'w"
  sv_execute :: "conn \<Rightarrow> bytes \<Rightarrow> sql_param option list \<Rightarrow> 'w \<Rightarrow> nat option \<times> 'w"
  sv_insert_id :: "conn \<Rightarrow> 'w \<Rightarrow> u64 \<times> 'w"
  sv_escape :: "bytes \<Rightarrow> bytes"
  sv_connect :: "conn \<Rightarrow> 'w \<Rightarrow> (nat \<times> bool) option \<times> 'w"
  sv_db_num :: "bytes \<Rightarrow> u32"
  sv_redis :: "nat \<Rightarrow> bytes list \<Rightarrow> 'w \<Rightarrow> redis_reply option \<times> 'w"
  sv_redis_format :: "nat \<Rightarrow> bytes \<Rightarrow> 'w \<Rightarrow> redis_reply option \<times> 'w"
  sv_time :: "'w \<Rightarrow> u64 \<times> 'w"
  sv_upload :: "bytes \<Rightarrow> bytes \<Rightarrow> 'w \<Rightarrow> bytes \<times> 'w"
  sv_download :: "bytes \<Rightarrow> 'w \<Rightarrow> bytes list option \<times> 'w"
  sv_hour :: "u64 \<Rightarrow> int"
  sv_junk :: u32

datatype defect =
    NullString
  | UseAfterRelease
  | ReleaseTwice
  | FreedContext
  | Uninitialized
  | OutOfRange

record cache_obj =
  m_pContext :: "nat option"
  m_last_connect_time :: u64

text \<open>An answer: the connection of the request by its id, and the header fields and body of the PDU.\<close>

record 'm answer =
  an_uuid :: u32
  an_seq :: u16
  an_service :: u16
  an_cid :: u16
  an_msg :: 'm

record ('w, 'm) dbp =
  world :: 'w
  cobj :: "conn \<Rightarrow> cache_obj"
  freed :: "nat list"
  held :: "conn list"
  asks :: "(conn list \<times> pool_id) list"
  executed :: "(bytes \<times> sql_param option list) list"
  answers :: "'m answer list"
  defects :: "defect list"
  m_nLastUpdate :: u32
  m_nLastUpdateGroup :: u32
  g_hmLimits :: "bytes \<Rightarrow> u32 list"

type_synonym ('w, 'm, 'a) db = "(('w, 'm) dbp, 'a) state"

abbreviation ret :: "'a \<Rightarrow> ('s, 'a) state" where
  "ret \<equiv> State_Monad.return"

abbreviation change :: "('s \<Rightarrow> 's) \<Rightarrow> ('s, unit) state" where
  "change \<equiv> State_Monad.update"

lemma run_change [simp]: "run_state (change f) s = ((), f s)"
  by (simp add: State_Monad.update_def)

text \<open>Loops over lists with an accumulator.\<close>

primrec foldM :: "('a \<Rightarrow> 'b \<Rightarrow> ('s, 'a) state) \<Rightarrow> 'a \<Rightarrow> 'b list \<Rightarrow> ('s, 'a) state" where
  "foldM f a [] = ret a"
| "foldM f a (x # xs) = do { a \<leftarrow> f a x; foldM f a xs }"

definition service :: "('w \<Rightarrow> 'a \<times> 'w) \<Rightarrow> ('w, 'm, 'a) db" where
  "service f = State (\<lambda>s. (let (x, w) = f (world s) in (x, s\<lparr>world := w\<rparr>)))"

definition defect :: "defect \<Rightarrow> ('w, 'm, unit) db" where
  "defect d = change (\<lambda>s. s\<lparr>defects := defects s @ [d]\<rparr>)"

text \<open>A use of a connection that the thread does not have (any more).\<close>

definition touch :: "conn \<Rightarrow> ('w, 'm, unit) db" where
  "touch c = do { s \<leftarrow> State_Monad.get; if c \<in> set (held s) then ret () else defect UseAfterRelease }"

definition use_var :: "'w services \<Rightarrow> u32 option \<Rightarrow> ('w, 'm, u32) db" where
  "use_var sv v = (case v of Some x \<Rightarrow> ret x | None \<Rightarrow> do { defect Uninitialized; ret (sv_junk sv) })"

text \<open>A \<open>char*\<close> made into a \<open>std::string\<close>.\<close>

definition to_string :: "bytes option \<Rightarrow> ('w, 'm, bytes) db" where
  "to_string p = (case p of Some x \<Rightarrow> ret (c_str x) | None \<Rightarrow> do { defect NullString; ret [] })"

definition time_now :: "'w services \<Rightarrow> ('w, 'm, u32) db" where
  "time_now sv = do { t \<leftarrow> service (sv_time sv); ret (ucast t) }"

subsection \<open>Taking and returning connections\<close>

text \<open>
  The pools (theory \<open>Conn_Pool\<close>) as one thread sees them: a request gives a connection or \<open>NULL\<close>.
\<close>

definition take_conn :: "'w services \<Rightarrow> pool_id \<Rightarrow> ('w, 'm, conn option) db" where
  "take_conn sv p = do {
     change (\<lambda>s. s\<lparr>asks := asks s @ [(held s, p)]\<rparr>);
     r \<leftarrow> service (sv_get sv p);
     (case r of
        None \<Rightarrow> ret None
      | Some i \<Rightarrow> do { change (\<lambda>s. s\<lparr>held := (p, i) # held s\<rparr>); ret (Some (p, i)) }) }"

definition GetDBConn :: "'w services \<Rightarrow> string \<Rightarrow> ('w, 'm, conn option) db" where
  "GetDBConn sv name = take_conn sv (DbP (str name))"

definition GetCacheConn :: "'w services \<Rightarrow> string \<Rightarrow> ('w, 'm, conn option) db" where
  "GetCacheConn sv name = take_conn sv (CacheP (str name))"

definition rel_conn :: "conn \<Rightarrow> ('w, 'm, unit) db" where
  "rel_conn c = do {
     s \<leftarrow> State_Monad.get;
     if c \<in> set (held s) then change (\<lambda>s. s\<lparr>held := remove1 c (held s)\<rparr>) else defect ReleaseTwice }"

subsection \<open>MySQL\<close>

text \<open>\<open>CResultSet\<close>: a column that the result does not have reads as 0 or \<open>NULL\<close>; \<open>atoi\<close> of an SQL null fails.\<close>

definition GetInt :: "row \<Rightarrow> string \<Rightarrow> ('w, 'm, u32) db" where
  "GetInt row key = (case map_of row (str key) of
       None \<Rightarrow> ret 0
     | Some None \<Rightarrow> do { defect NullString; ret 0 }
     | Some (Some v) \<Rightarrow> ret (string2int v))"

definition GetString :: "row \<Rightarrow> string \<Rightarrow> bytes option" where
  "GetString row key = (case map_of row (str key) of None \<Rightarrow> None | Some p \<Rightarrow> p)"

definition GetText :: "row \<Rightarrow> string \<Rightarrow> ('w, 'm, bytes) db" where
  "GetText row key = to_string (GetString row key)"

definition ExecuteQuery :: "'w services \<Rightarrow> conn \<Rightarrow> bytes \<Rightarrow> ('w, 'm, row list option) db" where
  "ExecuteQuery sv c sql_query = do { touch c; service (sv_query sv c sql_query) }"

definition ExecuteUpdate :: "'w services \<Rightarrow> conn \<Rightarrow> bytes \<Rightarrow> ('w, 'm, bool) db" where
  "ExecuteUpdate sv c sql_query = do {
     touch c;
     change (\<lambda>s. s\<lparr>executed := executed s @ [(sql_query, [])]\<rparr>);
     r \<leftarrow> service (sv_update sv c sql_query);
     ret (case r of None \<Rightarrow> False | Some n \<Rightarrow> n > 0) }"

definition MAX_ESCAPE_STRING_LEN :: nat where "MAX_ESCAPE_STRING_LEN = 10240"

definition EscapeString :: "'w services \<Rightarrow> bytes \<Rightarrow> bytes" where
  "EscapeString sv content =
     (if length content > MAX_ESCAPE_STRING_LEN div 2 then [] else sv_escape sv content)"

definition GetInsertId :: "'w services \<Rightarrow> conn \<Rightarrow> ('w, 'm, u32) db" where
  "GetInsertId sv c = do { touch c; i \<leftarrow> service (sv_insert_id sv c); ret (ucast i) }"

text \<open>\<open>CPrepareStatement\<close>. A parameter with a number that the statement does not have is left out.\<close>

record prepared =
  st_conn :: conn
  st_sql :: bytes
  m_param_bind :: "sql_param option list"

definition StmtInit :: "'w services \<Rightarrow> conn \<Rightarrow> bytes \<Rightarrow> ('w, 'm, prepared option) db" where
  "StmtInit sv c sql = do {
     touch c;
     r \<leftarrow> service (sv_prepare sv c sql);
     ret (case r of None \<Rightarrow> None
          | Some m_param_cnt \<Rightarrow> Some \<lparr>st_conn = c, st_sql = sql, m_param_bind = replicate m_param_cnt None\<rparr>) }"

definition SetParam :: "nat \<Rightarrow> sql_param \<Rightarrow> prepared \<Rightarrow> prepared" where
  "SetParam index v st =
     (if index \<ge> length (m_param_bind st) then st else st\<lparr>m_param_bind := (m_param_bind st)[index := Some v]\<rparr>)"

definition SetParams :: "sql_param list \<Rightarrow> prepared \<Rightarrow> prepared" where
  "SetParams vs st = fold (\<lambda>(i, v). SetParam i v) (List.enumerate 0 vs) st"

definition StmtExecuteUpdate :: "'w services \<Rightarrow> prepared \<Rightarrow> ('w, 'm, bool) db" where
  "StmtExecuteUpdate sv st = do {
     touch (st_conn st);
     change (\<lambda>s. s\<lparr>executed := executed s @ [(st_sql st, m_param_bind st)]\<rparr>);
     r \<leftarrow> service (sv_execute sv (st_conn st) (st_sql st) (m_param_bind st));
     ret (case r of None \<Rightarrow> False | Some n \<Rightarrow> n \<noteq> 0) }"

text \<open>The steps of an insertion: \<open>None\<close> when the statement cannot be prepared.\<close>

definition insert_row :: "'w services \<Rightarrow> conn \<Rightarrow> bytes \<Rightarrow> sql_param list \<Rightarrow> ('w, 'm, bool option) db" where
  "insert_row sv c sql vs = do {
     st \<leftarrow> StmtInit sv c sql;
     (case st of
        None \<Rightarrow> ret None
      | Some st \<Rightarrow> do { b \<leftarrow> StmtExecuteUpdate sv (SetParams vs st); ret (Some b) }) }"

end
