(* ===== verification/Cache_Conn.thy ===== *)
theory Cache_Conn
  imports Db_World
begin

text \<open>
  \<open>CacheConn\<close> of \<open>db_proxy_server/CachePool.cpp\<close>: the redis commands. A connection object keeps a hiredis context, connects
  again when it has none (at most every four seconds), and gives the context up when a command gets no reply.
  A \<open>map<string, string>\<close> is a list sorted by its keys.
\<close>

definition get_obj :: "conn \<Rightarrow> ('w, 'm, cache_obj) db" where
  "get_obj c = do { s \<leftarrow> State_Monad.get; ret (cobj s c) }"

definition set_obj :: "conn \<Rightarrow> cache_obj \<Rightarrow> ('w, 'm, unit) db" where
  "set_obj c ob = change (\<lambda>s. s\<lparr>cobj := (cobj s)(c := ob)\<rparr>)"

definition pool_name :: "conn \<Rightarrow> bytes" where
  "pool_name c = (case fst c of DbP n \<Rightarrow> n | CacheP n \<Rightarrow> n)"

text \<open>A use of a context, and \<open>redisFree\<close>: the memory may not have been freed before.\<close>

definition use_context :: "nat \<Rightarrow> ('w, 'm, unit) db" where
  "use_context ctx = do { s \<leftarrow> State_Monad.get; if ctx \<in> set (freed s) then defect FreedContext else ret () }"

definition redisFree :: "nat \<Rightarrow> ('w, 'm, unit) db" where
  "redisFree ctx = do { use_context ctx; change (\<lambda>s. s\<lparr>freed := ctx # freed s\<rparr>) }"

definition redisConnect :: "'w services \<Rightarrow> conn \<Rightarrow> ('w, 'm, (nat \<times> bool) option) db" where
  "redisConnect sv c = do {
     r \<leftarrow> service (sv_connect sv c);
     (case r of
        None \<Rightarrow> ret None
      | Some (ctx, err) \<Rightarrow> do { change (\<lambda>s. s\<lparr>freed := removeAll ctx (freed s)\<rparr>); ret (Some (ctx, err)) }) }"

definition redisCommand :: "'w services \<Rightarrow> nat \<Rightarrow> bytes list \<Rightarrow> ('w, 'm, redis_reply option) db" where
  "redisCommand sv ctx args = do { use_context ctx; service (sv_redis sv ctx args) }"

definition redisCommandFormat :: "'w services \<Rightarrow> nat \<Rightarrow> bytes \<Rightarrow> ('w, 'm, redis_reply option) db" where
  "redisCommandFormat sv ctx fmt = do { use_context ctx; service (sv_redis_format sv ctx fmt) }"

definition CacheInit :: "'w services \<Rightarrow> conn \<Rightarrow> ('w, 'm, int) db" where
  "CacheInit sv c = do {
     touch c;
     ob \<leftarrow> get_obj c;
     if m_pContext ob \<noteq> None then ret 0
     else do {
       cur_time \<leftarrow> service (sv_time sv);
       if cur_time < m_last_connect_time ob + 4 then ret 1
       else do {
         set_obj c (ob\<lparr>m_last_connect_time := cur_time\<rparr>);
         r \<leftarrow> redisConnect sv c;
         (case r of
            None \<Rightarrow> ret 1
          | Some (ctx, err) \<Rightarrow>
              if err then do { redisFree ctx; ret 1 }
              else do {
                set_obj c (ob\<lparr>m_last_connect_time := cur_time, m_pContext := Some ctx\<rparr>);
                reply \<leftarrow> redisCommand sv ctx [str ''SELECT'', int2string (sv_db_num sv (pool_name c))];
                ret (case reply of Some (RStatus s) \<Rightarrow> if take 2 s = str ''OK'' then 0 else 2 | _ \<Rightarrow> 2) }) } } }"

text \<open>
  The commands: \<open>if (Init()) return dflt\<close>; a missing reply frees the context. \<open>cmd\<close> sends the command, \<open>answer\<close> reads
  the reply. A C string argument ends at its null byte.
\<close>

definition with_reply :: "'w services \<Rightarrow> conn \<Rightarrow> (nat \<Rightarrow> ('w, 'm, redis_reply option) db) \<Rightarrow> 'a \<Rightarrow>
    (redis_reply \<Rightarrow> ('w, 'm, 'a) db) \<Rightarrow> ('w, 'm, 'a) db" where
  "with_reply sv c cmd dflt answer = do {
     r \<leftarrow> CacheInit sv c;
     if r \<noteq> 0 then ret dflt
     else do {
       ob \<leftarrow> get_obj c;
       (case m_pContext ob of
          None \<Rightarrow> do { defect FreedContext; ret dflt }
        | Some ctx \<Rightarrow> do {
            reply \<leftarrow> cmd ctx;
            (case reply of
               None \<Rightarrow> do { redisFree ctx; set_obj c (ob\<lparr>m_pContext := None\<rparr>); ret dflt }
             | Some rep \<Rightarrow> answer rep) }) } }"

definition command :: "'w services \<Rightarrow> conn \<Rightarrow> bytes list \<Rightarrow> 'a \<Rightarrow> (redis_reply \<Rightarrow> 'a) \<Rightarrow> ('w, 'm, 'a) db" where
  "command sv c args dflt f = with_reply sv c (\<lambda>ctx. redisCommand sv ctx (map c_str args)) dflt (\<lambda>r. ret (f r))"

definition string_reply :: "redis_reply \<Rightarrow> bytes" where
  "string_reply r = (case r of RString s \<Rightarrow> s | _ \<Rightarrow> [])"

definition cache_get :: "'w services \<Rightarrow> conn \<Rightarrow> bytes \<Rightarrow> ('w, 'm, bytes) db" where
  "cache_get sv c key = command sv c [str ''GET'', key] [] string_reply"

definition cache_setex :: "'w services \<Rightarrow> conn \<Rightarrow> bytes \<Rightarrow> u32 \<Rightarrow> bytes \<Rightarrow> ('w, 'm, bytes) db" where
  "cache_setex sv c key timeout val = command sv c [str ''SETEX'', key, int2string timeout, val] [] reply_str"

definition cache_set :: "'w services \<Rightarrow> conn \<Rightarrow> bytes \<Rightarrow> bytes \<Rightarrow> ('w, 'm, bytes) db" where
  "cache_set sv c key val = command sv c [str ''SET'', key, val] [] reply_str"

definition hdel :: "'w services \<Rightarrow> conn \<Rightarrow> bytes \<Rightarrow> bytes \<Rightarrow> ('w, 'm, int) db" where
  "hdel sv c key field = command sv c [str ''HDEL'', key, field] 0 reply_integer"

definition hget :: "'w services \<Rightarrow> conn \<Rightarrow> bytes \<Rightarrow> bytes \<Rightarrow> ('w, 'm, bytes) db" where
  "hget sv c key field = command sv c [str ''HGET'', key, field] [] string_reply"

definition hset :: "'w services \<Rightarrow> conn \<Rightarrow> bytes \<Rightarrow> bytes \<Rightarrow> bytes \<Rightarrow> ('w, 'm, int) db" where
  "hset sv c key field val = command sv c [str ''HSET'', key, field, val] (-1) reply_integer"

definition show_long :: "int \<Rightarrow> bytes" where
  "show_long v = (if v < 0 then 45 # show_nat (nat (- v)) else show_nat (nat v))"

definition hincrBy :: "'w services \<Rightarrow> conn \<Rightarrow> bytes \<Rightarrow> bytes \<Rightarrow> int \<Rightarrow> ('w, 'm, int) db" where
  "hincrBy sv c key field v = command sv c [str ''HINCRBY'', key, field, show_long v] (-1) reply_integer"

definition incrBy :: "'w services \<Rightarrow> conn \<Rightarrow> bytes \<Rightarrow> int \<Rightarrow> ('w, 'm, int) db" where
  "incrBy sv c key v = command sv c [str ''INCRBY'', key, show_long v] (-1) reply_integer"

definition incr :: "'w services \<Rightarrow> conn \<Rightarrow> bytes \<Rightarrow> ('w, 'm, int) db" where
  "incr sv c key = command sv c [str ''INCR'', key] (-1) reply_integer"

definition decr :: "'w services \<Rightarrow> conn \<Rightarrow> bytes \<Rightarrow> ('w, 'm, int) db" where
  "decr sv c key = command sv c [str ''DECR'', key] (-1) reply_integer"

definition lpush :: "'w services \<Rightarrow> conn \<Rightarrow> bytes \<Rightarrow> bytes \<Rightarrow> ('w, 'm, int) db" where
  "lpush sv c key val = command sv c [str ''LPUSH'', key, val] (-1) reply_integer"

definition rpush :: "'w services \<Rightarrow> conn \<Rightarrow> bytes \<Rightarrow> bytes \<Rightarrow> ('w, 'm, int) db" where
  "rpush sv c key val = command sv c [str ''RPUSH'', key, val] (-1) reply_integer"

definition llen :: "'w services \<Rightarrow> conn \<Rightarrow> bytes \<Rightarrow> ('w, 'm, int) db" where
  "llen sv c key = command sv c [str ''LLEN'', key] (-1) reply_integer"

subsection \<open>Maps of strings\<close>

text \<open>\<open>insert\<close> keeps the value of a key that is there, \<open>operator[]\<close> replaces it.\<close>

fun smap_put :: "bool \<Rightarrow> bytes \<Rightarrow> bytes \<Rightarrow> (bytes \<times> bytes) list \<Rightarrow> (bytes \<times> bytes) list" where
  "smap_put over k v [] = [(k, v)]"
| "smap_put over k v ((k', v') # m) =
     (if k = k' then (if over then (k, v) # m else (k', v') # m)
      else if ord_class.lexordp k k' then (k, v) # (k', v') # m else (k', v') # smap_put over k v m)"

definition smap_insert :: "bytes \<Rightarrow> bytes \<Rightarrow> (bytes \<times> bytes) list \<Rightarrow> (bytes \<times> bytes) list" where
  "smap_insert = smap_put False"

definition smap_assign :: "bytes \<Rightarrow> bytes \<Rightarrow> (bytes \<times> bytes) list \<Rightarrow> (bytes \<times> bytes) list" where
  "smap_assign = smap_put True"

fun insert_pairs :: "redis_reply list \<Rightarrow> (bytes \<times> bytes) list \<Rightarrow> (bytes \<times> bytes) list" where
  "insert_pairs (f # v # rs) m = insert_pairs rs (smap_insert (reply_str f) (reply_str v) m)"
| "insert_pairs _ m = m"

text \<open>The map and list arguments of the callers are empty; \<open>None\<close> is the result \<open>false\<close>.\<close>

definition hgetAll :: "'w services \<Rightarrow> conn \<Rightarrow> bytes \<Rightarrow> ('w, 'm, (bytes \<times> bytes) list option) db" where
  "hgetAll sv c key = command sv c [str ''HGETALL'', key] None
     (\<lambda>r. Some (case r of RArray rs \<Rightarrow> if even (length rs) then insert_pairs rs [] else [] | _ \<Rightarrow> []))"

definition hmset :: "'w services \<Rightarrow> conn \<Rightarrow> bytes \<Rightarrow> (bytes \<times> bytes) list \<Rightarrow> ('w, 'm, bytes) db" where
  "hmset sv c key hash =
     command sv c (str ''HMSET'' # key # concat (map (\<lambda>(f, v). [f, v]) hash)) [] reply_str"

definition hmget :: "'w services \<Rightarrow> conn \<Rightarrow> bytes \<Rightarrow> bytes list \<Rightarrow> ('w, 'm, bytes list option) db" where
  "hmget sv c key names = command sv c (str ''HMGET'' # key # names) None
     (\<lambda>r. Some (case r of RArray rs \<Rightarrow> map reply_str rs | _ \<Rightarrow> []))"

definition lrange :: "'w services \<Rightarrow> conn \<Rightarrow> bytes \<Rightarrow> int \<Rightarrow> int \<Rightarrow> ('w, 'm, bytes list option) db" where
  "lrange sv c key start stop = command sv c [str ''LRANGE'', key, show_long start, show_long stop] None
     (\<lambda>r. Some (case r of RArray rs \<Rightarrow> map reply_str rs | _ \<Rightarrow> []))"

text \<open>\<open>MGET\<close> is sent as one format string; the reply is read with the keys of the same positions.\<close>

definition join_keys :: "bytes list \<Rightarrow> bytes" where
  "join_keys keys = (case keys of [] \<Rightarrow> [] | k # ks \<Rightarrow> k @ concat (map (\<lambda>x. 32 # x) ks))"

definition mget_reply :: "bytes list \<Rightarrow> redis_reply list \<Rightarrow> ('w, 'm, (bytes \<times> bytes) list option) db" where
  "mget_reply keys rs = do {
     m \<leftarrow> foldM (\<lambda>m (i, r). (case r of
         RString s \<Rightarrow> if i < length keys then ret (smap_assign (keys ! i) (c_str s) m)
                      else do { defect OutOfRange; ret m }
       | _ \<Rightarrow> ret m)) [] (List.enumerate 0 rs);
     ret (Some m) }"

definition mget :: "'w services \<Rightarrow> conn \<Rightarrow> bytes list \<Rightarrow> ('w, 'm, (bytes \<times> bytes) list option) db" where
  "mget sv c keys = do {
     r \<leftarrow> CacheInit sv c;
     if r \<noteq> 0 then ret None
     else if keys = [] then ret None
     else if join_keys keys = [] then ret None
     else with_reply sv c (\<lambda>ctx. redisCommandFormat sv ctx (c_str (str ''MGET '' @ join_keys keys))) None
       (\<lambda>r. (case r of RArray rs \<Rightarrow> mget_reply keys rs | _ \<Rightarrow> ret (Some []))) }"

text \<open>\<open>isExists\<close> frees the context of a failed command, but keeps the pointer.\<close>

definition isExists :: "'w services \<Rightarrow> conn \<Rightarrow> bytes \<Rightarrow> ('w, 'm, bool) db" where
  "isExists sv c key = do {
     r \<leftarrow> CacheInit sv c;
     if r \<noteq> 0 then ret False
     else do {
       ob \<leftarrow> get_obj c;
       (case m_pContext ob of
          None \<Rightarrow> do { defect FreedContext; ret False }
        | Some ctx \<Rightarrow> do {
            reply \<leftarrow> redisCommand sv ctx [str ''EXISTS'', c_str key];
            (case reply of
               None \<Rightarrow> do { redisFree ctx; ret False }
             | Some rep \<Rightarrow> ret (reply_integer rep \<noteq> 0)) }) } }"

end
