(* ===== verification/Db_Message.thy ===== *)
theory Db_Message
  imports Cache_Conn Byte_Buffer
begin

text \<open>
  Messages between two users (\<open>db_proxy_server/business\<close>): \<open>AudioModel.cpp\<close>, \<open>RelationModel.cpp\<close>, \<open>MessageModel.cpp\<close>
  and the queries of \<open>SessionModel.cpp\<close>. A list the caller passes by reference is returned.
\<close>

definition INVALID_VALUE :: u32 where "INVALID_VALUE = 0"

definition MsgType_IsValid :: "u32 \<Rightarrow> bool" where
  "MsgType_IsValid t \<longleftrightarrow> t \<in> {0, MSG_TYPE_SINGLE_TEXT, MSG_TYPE_SINGLE_AUDIO, MSG_TYPE_GROUP_TEXT, MSG_TYPE_GROUP_AUDIO}"

definition SessionType_IsValid :: "u32 \<Rightarrow> bool" where
  "SessionType_IsValid t \<longleftrightarrow> t \<in> {0, SESSION_TYPE_SINGLE, SESSION_TYPE_GROUP}"

record msg_info =
  dm_msg_id :: u32
  dm_from_session_id :: u32
  dm_create_time :: u32
  dm_msg_type :: u32
  dm_msg_data :: bytes

record unread_info =
  un_session_id :: u32
  un_session_type :: u32
  un_unread_cnt :: u32
  un_latest_msg_id :: u32
  un_latest_msg_data :: bytes
  un_latest_msg_type :: u32
  un_latest_msg_from :: u32

text \<open>An id list as the text of an SQL \<open>in\<close> clause.\<close>

definition id_clause :: "u32 list \<Rightarrow> bytes" where
  "id_clause ids = (case ids of [] \<Rightarrow> []
     | i # is \<Rightarrow> int2string i @ concat (map (\<lambda>j. str '','' @ int2string j) is))"

subsection \<open>Audio messages\<close>

text \<open>What \<open>write_data_binary\<close> makes of a received part: it is dropped when it does not fit.\<close>

definition write_data_binary :: "u32 \<Rightarrow> bytes \<Rightarrow> bytes \<Rightarrow> bytes" where
  "write_data_binary fileSize buf part =
     (if length buf + length part \<le> unat (fileSize + 4) then buf @ part else buf)"

definition readAudioContent :: "'w services \<Rightarrow> u32 \<Rightarrow> u32 \<Rightarrow> bytes \<Rightarrow> msg_info \<Rightarrow> ('w, 'm, msg_info) db" where
  "readAudioContent sv nCostTime nSize strPath cMsg =
     (if strPath = [] \<or> nCostTime = 0 \<or> nSize = 0 then ret cMsg
      else do {
        (if unat (4 + nSize) < 4 then defect OutOfRange else ret ());
        r \<leftarrow> service (sv_download sv strPath);
        (case r of
           None \<Rightarrow> ret cMsg
         | Some parts \<Rightarrow> ret (cMsg\<lparr>dm_msg_data :=
             fold (\<lambda>part buf. write_data_binary nSize buf part) parts (WriteUint32 [0, 0, 0, 0] nCostTime)\<rparr>)) })"

definition audio_type :: "u32 \<Rightarrow> bool" where
  "audio_type t \<longleftrightarrow> t = MSG_TYPE_GROUP_AUDIO \<or> t = MSG_TYPE_SINGLE_AUDIO"

definition read_audio :: "'w services \<Rightarrow> conn \<Rightarrow> msg_info list \<Rightarrow> msg_info \<Rightarrow> ('w, 'm, msg_info list) db" where
  "read_audio sv c out cMsg =
     (if audio_type (dm_msg_type cMsg) then do {
        r \<leftarrow> ExecuteQuery sv c (c_str (str ''select * from IMAudio where id='' @ dm_msg_data cMsg));
        (case r of
           None \<Rightarrow> ret out
         | Some rows \<Rightarrow> do {
             cMsg \<leftarrow> foldM (\<lambda>cMsg row. do {
               nCostTime \<leftarrow> GetInt row ''duration'';
               nSize \<leftarrow> GetInt row ''size'';
               strPath \<leftarrow> GetText row ''path'';
               readAudioContent sv nCostTime nSize strPath cMsg }) cMsg rows;
             ret (out @ [cMsg]) }) }
      else ret (out @ [cMsg]))"

definition readAudios :: "'w services \<Rightarrow> msg_info list \<Rightarrow> ('w, 'm, msg_info list) db" where
  "readAudios sv lsMsg =
     (if lsMsg = [] then ret lsMsg
      else do {
        pDBConn \<leftarrow> GetDBConn sv ''teamtalk_slave'';
        (case pDBConn of
           None \<Rightarrow> ret lsMsg
         | Some c \<Rightarrow> do { out \<leftarrow> foldM (read_audio sv c) [] lsMsg; rel_conn c; ret out }) })"

text \<open>The id of the stored audio, \<open>None\<close> for \<open>-1\<close>. \<open>site\<close> is the URL of the picture server.\<close>

definition saveAudioInfo :: "'w services \<Rightarrow> bytes \<Rightarrow> u32 \<Rightarrow> u32 \<Rightarrow> u32 \<Rightarrow> bytes \<Rightarrow> u32 \<Rightarrow> ('w, 'm, u32 option) db" where
  "saveAudioInfo sv site nFromId nToId nCreateTime pAudioData nAudioLen = do {
     strPath \<leftarrow> service (sv_upload sv site (drop 4 pAudioData));
     if strPath = [] then ret None
     else do {
       pDBConn \<leftarrow> GetDBConn sv ''teamtalk_master'';
       (case pDBConn of
          None \<Rightarrow> ret None
        | Some c \<Rightarrow> do {
            ok \<leftarrow> ExecuteUpdate sv c (c_str (fst (fold replace_mark
              [MarkInt nFromId, MarkInt nToId, MarkStr strPath, MarkInt (nAudioLen - 4),
               MarkInt (ReadUint32 pAudioData), MarkInt nCreateTime]
              (str ''insert into IMAudio(`fromId`, `toId`, `path`, `size`, `duration`, `created`) values(?, ?, ?, ?, ?, ?)'', 0))));
            nAudioId \<leftarrow> (if ok then do { i \<leftarrow> GetInsertId sv c; ret (Some i) } else ret None);
            rel_conn c;
            ret (if nAudioId = Some (-1) then None else nAudioId) }) } }"

subsection \<open>Message ids\<close>

definition resetMsgId :: "'w services \<Rightarrow> u32 \<Rightarrow> ('w, 'm, bool) db" where
  "resetMsgId sv nRelateId = do {
     pCacheConn \<leftarrow> GetCacheConn sv ''unread'';
     (case pCacheConn of
        None \<Rightarrow> ret False
      | Some c \<Rightarrow> do {
          strReply \<leftarrow> cache_set sv c (str ''msg_id_'' @ int2string nRelateId) (str ''0'');
          rel_conn c;
          ret (strReply = str ''0'') }) }"

definition getMsgId :: "'w services \<Rightarrow> u32 \<Rightarrow> ('w, 'm, u32) db" where
  "getMsgId sv nRelateId = do {
     pCacheConn \<leftarrow> GetCacheConn sv ''unread'';
     (case pCacheConn of
        None \<Rightarrow> ret 0
      | Some c \<Rightarrow> do {
          nMsgId \<leftarrow> incrBy sv c (str ''msg_id_'' @ int2string nRelateId) 1;
          rel_conn c;
          ret (of_int nMsgId) }) }"

subsection \<open>Relations\<close>

definition addRelation :: "'w services \<Rightarrow> u32 \<Rightarrow> u32 \<Rightarrow> ('w, 'm, u32) db" where
  "addRelation sv nSmallId nBigId = do {
     pDBConn \<leftarrow> GetDBConn sv ''teamtalk_master'';
     (case pDBConn of
        None \<Rightarrow> ret INVALID_VALUE
      | Some c \<Rightarrow> do {
          nTimeNow \<leftarrow> time_now sv;
          r \<leftarrow> ExecuteQuery sv c (str ''select id from IMRelationShip where smallId='' @ int2string nSmallId @
            str '' and bigId='' @ int2string nBigId);
          nRelationId \<leftarrow> (case r of
              Some (row # _) \<Rightarrow> do {
                nRelationId \<leftarrow> GetInt row ''id'';
                bRet \<leftarrow> ExecuteUpdate sv c (str ''update IMRelationShip set status=0, updated='' @ int2string nTimeNow @
                  str '' where id='' @ int2string nRelationId);
                ret (if \<not> bRet then INVALID_VALUE else nRelationId) }
            | _ \<Rightarrow> do {
                bRet \<leftarrow> insert_row sv c
                  (str ''insert into IMRelationShip (`smallId`,`bigId`,`status`,`created`,`updated`) values(?,?,?,?,?)'')
                  [PInt nSmallId, PInt nBigId, PInt 0, PInt nTimeNow, PInt nTimeNow];
                nRelationId \<leftarrow> (if bRet = Some True then GetInsertId sv c else ret INVALID_VALUE);
                (if nRelationId \<noteq> INVALID_VALUE then do { resetMsgId sv nRelationId; ret () } else ret ());
                ret nRelationId });
          rel_conn c;
          ret nRelationId }) }"

definition getRelationId :: "'w services \<Rightarrow> u32 \<Rightarrow> u32 \<Rightarrow> bool \<Rightarrow> ('w, 'm, u32) db" where
  "getRelationId sv nUserAId nUserBId bAdd =
     (if nUserAId = 0 \<or> nUserBId = 0 then ret INVALID_VALUE
      else do {
        pDBConn \<leftarrow> GetDBConn sv ''teamtalk_slave'';
        (case pDBConn of
           None \<Rightarrow> ret INVALID_VALUE
         | Some c \<Rightarrow> do {
             let nBigId = (if nUserAId > nUserBId then nUserAId else nUserBId);
             let nSmallId = (if nUserAId > nUserBId then nUserBId else nUserAId);
             r \<leftarrow> ExecuteQuery sv c (str ''select id from IMRelationShip where smallId='' @ int2string nSmallId @
               str '' and bigId='' @ int2string nBigId @ str '' and status = 0'');
             nRelationId \<leftarrow> (case r of
                 None \<Rightarrow> ret INVALID_VALUE
               | Some rows \<Rightarrow> foldM (\<lambda>_ row. GetInt row ''id'') INVALID_VALUE rows);
             rel_conn c;
             (if nRelationId = INVALID_VALUE \<and> bAdd then addRelation sv nSmallId nBigId else ret nRelationId) }) })"

definition master_update :: "'w services \<Rightarrow> bytes \<Rightarrow> ('w, 'm, bool) db" where
  "master_update sv sql = do {
     pDBConn \<leftarrow> GetDBConn sv ''teamtalk_master'';
     (case pDBConn of
        None \<Rightarrow> ret False
      | Some c \<Rightarrow> do { bRet \<leftarrow> ExecuteUpdate sv c sql; rel_conn c; ret bRet }) }"

definition updateRelation :: "'w services \<Rightarrow> u32 \<Rightarrow> u32 \<Rightarrow> ('w, 'm, bool) db" where
  "updateRelation sv nRelationId nUpdateTime =
     master_update sv (str ''update IMRelationShip set `updated`='' @ int2string nUpdateTime @ str '' where id='' @
       int2string nRelationId)"

definition removeRelation :: "'w services \<Rightarrow> u32 \<Rightarrow> ('w, 'm, bool) db" where
  "removeRelation sv nRelationId = do {
     pDBConn \<leftarrow> GetDBConn sv ''teamtalk_master'';
     (case pDBConn of
        None \<Rightarrow> ret False
      | Some c \<Rightarrow> do {
          nNow \<leftarrow> time_now sv;
          bRet \<leftarrow> ExecuteUpdate sv c (str ''update IMRelationShip set status = 1, updated='' @ int2string nNow @
            str '' where id='' @ int2string nRelationId);
          rel_conn c;
          ret bRet }) }"

subsection \<open>Messages\<close>

definition message_table :: "u32 \<Rightarrow> bytes" where
  "message_table nRelateId = str ''IMMessage_'' @ int2string (nRelateId mod 8)"

text \<open>The rows of a message table as messages; \<open>sender\<close> is the column of the sender.\<close>

definition read_message :: "string \<Rightarrow> msg_info list \<Rightarrow> row \<Rightarrow> ('w, 'm, msg_info list) db" where
  "read_message sender lsMsg row = do {
     msg_id \<leftarrow> GetInt row ''msgId'';
     from_id \<leftarrow> GetInt row sender;
     created \<leftarrow> GetInt row ''created'';
     nMsgType \<leftarrow> GetInt row ''type'';
     if MsgType_IsValid nMsgType then do {
       content \<leftarrow> GetText row ''content'';
       ret (lsMsg @ [\<lparr>dm_msg_id = msg_id, dm_from_session_id = from_id, dm_create_time = created,
         dm_msg_type = nMsgType, dm_msg_data = content\<rparr>]) }
     else ret lsMsg }"

definition query_messages :: "'w services \<Rightarrow> conn \<Rightarrow> string \<Rightarrow> bytes \<Rightarrow> ('w, 'm, msg_info list) db" where
  "query_messages sv c sender sql = do {
     r \<leftarrow> ExecuteQuery sv c sql;
     (case r of None \<Rightarrow> ret [] | Some rows \<Rightarrow> foldM (read_message sender) [] rows) }"

definition getMessage_sql :: "u32 \<Rightarrow> u32 \<Rightarrow> u32 \<Rightarrow> bytes" where
  "getMessage_sql nRelateId nMsgId nMsgCnt =
     str ''select * from '' @ message_table nRelateId @
     str '' force index (idx_relateId_status_created) where relateId= '' @ int2string nRelateId @ str '' and status = 0'' @
     (if nMsgId = 0 then [] else str '' and msgId <='' @ int2string nMsgId) @
     str '' order by created desc, id desc limit '' @ int2string nMsgCnt"

definition getMessage :: "'w services \<Rightarrow> u32 \<Rightarrow> u32 \<Rightarrow> u32 \<Rightarrow> u32 \<Rightarrow> ('w, 'm, msg_info list) db" where
  "getMessage sv nUserId nPeerId nMsgId nMsgCnt = do {
     nRelateId \<leftarrow> getRelationId sv nUserId nPeerId False;
     if nRelateId \<noteq> INVALID_VALUE then do {
       pDBConn \<leftarrow> GetDBConn sv ''teamtalk_slave'';
       (case pDBConn of
          None \<Rightarrow> ret []
        | Some c \<Rightarrow> do {
            lsMsg \<leftarrow> query_messages sv c ''fromId'' (getMessage_sql nRelateId nMsgId nMsgCnt);
            rel_conn c;
            (if lsMsg \<noteq> [] then readAudios sv lsMsg else ret lsMsg) }) }
     else ret [] }"

definition incMsgCount :: "'w services \<Rightarrow> u32 \<Rightarrow> u32 \<Rightarrow> ('w, 'm, unit) db" where
  "incMsgCount sv nFromId nToId = do {
     pCacheConn \<leftarrow> GetCacheConn sv ''unread'';
     (case pCacheConn of
        None \<Rightarrow> ret ()
      | Some c \<Rightarrow> do {
          hincrBy sv c (str ''unread_'' @ int2string nToId) (int2string nFromId) 1;
          rel_conn c }) }"

definition sendMessage_sql :: "u32 \<Rightarrow> bytes" where
  "sendMessage_sql nRelateId = str ''insert into '' @ message_table nRelateId @
     str '' (`relateId`, `fromId`, `toId`, `msgId`, `content`, `status`, `type`, `created`, `updated`) values(?, ?, ?, ?, ?, ?, ?, ?, ?)''"

definition sendMessage :: "'w services \<Rightarrow> u32 \<Rightarrow> u32 \<Rightarrow> u32 \<Rightarrow> u32 \<Rightarrow> u32 \<Rightarrow> u32 \<Rightarrow> bytes \<Rightarrow> ('w, 'm, bool) db" where
  "sendMessage sv nRelateId nFromId nToId nMsgType nCreateTime nMsgId strMsgContent =
     (if nFromId = 0 \<or> nToId = 0 then ret False
      else do {
        pDBConn \<leftarrow> GetDBConn sv ''teamtalk_master'';
        (case pDBConn of
           None \<Rightarrow> ret False
         | Some c \<Rightarrow> do {
             r \<leftarrow> insert_row sv c (sendMessage_sql nRelateId)
               [PInt nRelateId, PInt nFromId, PInt nToId, PInt nMsgId, PStr strMsgContent, PInt 0, PInt nMsgType,
                PInt nCreateTime, PInt nCreateTime];
             rel_conn c;
             (if r = Some True then do { time_now sv; incMsgCount sv nFromId nToId } else ret ());
             ret (r = Some True) }) })"

definition sendAudioMessage ::
  "'w services \<Rightarrow> bytes \<Rightarrow> u32 \<Rightarrow> u32 \<Rightarrow> u32 \<Rightarrow> u32 \<Rightarrow> u32 \<Rightarrow> u32 \<Rightarrow> bytes \<Rightarrow> u32 \<Rightarrow> ('w, 'm, bool) db" where
  "sendAudioMessage sv site nRelateId nFromId nToId nMsgType nCreateTime nMsgId pMsgContent nMsgLen =
     (if nMsgLen \<le> 4 then ret False
      else do {
        nAudioId \<leftarrow> saveAudioInfo sv site nFromId nToId nCreateTime pMsgContent nMsgLen;
        (case nAudioId of
           Some i \<Rightarrow> sendMessage sv nRelateId nFromId nToId nMsgType nCreateTime nMsgId (int2string i)
         | None \<Rightarrow> ret False) })"

text \<open>
  The last message: id, text and type, which stay what the caller had (\<open>None\<close>: uninitialized) when there is
  none. \<open>strAudioEnc\<close> stands for an audio message.
\<close>

type_synonym last_msg = "u32 option \<times> bytes \<times> u32 option \<times> u32 option"

definition read_last :: "u32 \<Rightarrow> bytes \<Rightarrow> string option \<Rightarrow> last_msg \<Rightarrow> row \<Rightarrow> ('w, 'm, last_msg) db" where
  "read_last audio strAudioEnc sender = (\<lambda>(_, _, _, from_id) row. do {
     msg_id \<leftarrow> GetInt row ''msgId'';
     nMsgType \<leftarrow> GetInt row ''type'';
     from_id \<leftarrow> (case sender of None \<Rightarrow> ret from_id | Some k \<Rightarrow> do { i \<leftarrow> GetInt row k; ret (Some i) });
     content \<leftarrow> (if nMsgType = audio then ret strAudioEnc else GetText row ''content'');
     ret (Some msg_id, content, Some nMsgType, from_id) })"

definition getLastMsg :: "'w services \<Rightarrow> bytes \<Rightarrow> u32 \<Rightarrow> u32 \<Rightarrow> last_msg \<Rightarrow> ('w, 'm, last_msg) db" where
  "getLastMsg sv strAudioEnc nFromId nToId lst = do {
     nRelateId \<leftarrow> getRelationId sv nFromId nToId False;
     if nRelateId \<noteq> INVALID_VALUE then do {
       pDBConn \<leftarrow> GetDBConn sv ''teamtalk_slave'';
       (case pDBConn of
          None \<Rightarrow> ret lst
        | Some c \<Rightarrow> do {
            r \<leftarrow> ExecuteQuery sv c (str ''select msgId,type,content from '' @ message_table nRelateId @
              str '' force index (idx_relateId_status_created) where relateId= '' @ int2string nRelateId @
              str '' and status = 0 order by created desc, id desc limit 1'');
            lst \<leftarrow> (case r of
                None \<Rightarrow> ret lst
              | Some rows \<Rightarrow> foldM (read_last MSG_TYPE_SINGLE_AUDIO strAudioEnc None) lst rows);
            rel_conn c;
            ret lst }) }
     else ret lst }"

text \<open>The unread messages from other users; the total is the caller's.\<close>

definition add_unread :: "'w services \<Rightarrow> bytes \<Rightarrow> u32 \<Rightarrow> u32 \<times> unread_info list \<Rightarrow> bytes \<times> bytes \<Rightarrow>
    ('w, 'm, u32 \<times> unread_info list) db" where
  "add_unread sv strAudioEnc nUserId = (\<lambda>(nTotalCnt, lsUnreadCount) (k, v). do {
     let session = string2int k;
     let cnt = string2int v;
     l \<leftarrow> getLastMsg sv strAudioEnc session nUserId (Some 0, [], None, None);
     (case l of (nMsgId, strMsgData, nMsgType, _) \<Rightarrow> do {
        nMsgType \<leftarrow> use_var sv nMsgType;
        nMsgId \<leftarrow> use_var sv nMsgId;
        if MsgType_IsValid nMsgType then
          ret (nTotalCnt + cnt, lsUnreadCount @ [\<lparr>un_session_id = session, un_session_type = SESSION_TYPE_SINGLE,
            un_unread_cnt = cnt, un_latest_msg_id = nMsgId, un_latest_msg_data = strMsgData,
            un_latest_msg_type = nMsgType, un_latest_msg_from = session\<rparr>])
        else ret (nTotalCnt, lsUnreadCount) }) })"

definition getUnreadMsgCount :: "'w services \<Rightarrow> bytes \<Rightarrow> u32 \<Rightarrow> u32 \<times> unread_info list \<Rightarrow> ('w, 'm, u32 \<times> unread_info list) db" where
  "getUnreadMsgCount sv strAudioEnc nUserId acc = do {
     pCacheConn \<leftarrow> GetCacheConn sv ''unread'';
     (case pCacheConn of
        None \<Rightarrow> ret acc
      | Some c \<Rightarrow> do {
          m \<leftarrow> hgetAll sv c (str ''unread_'' @ int2string nUserId);
          rel_conn c;
          (case m of None \<Rightarrow> ret acc | Some m \<Rightarrow> foldM (add_unread sv strAudioEnc nUserId) acc m) }) }"

definition getUnReadCntAll :: "'w services \<Rightarrow> u32 \<Rightarrow> u32 \<Rightarrow> ('w, 'm, u32) db" where
  "getUnReadCntAll sv nUserId nTotalCnt = do {
     pCacheConn \<leftarrow> GetCacheConn sv ''unread'';
     (case pCacheConn of
        None \<Rightarrow> ret nTotalCnt
      | Some c \<Rightarrow> do {
          m \<leftarrow> hgetAll sv c (str ''unread_'' @ int2string nUserId);
          rel_conn c;
          ret (case m of None \<Rightarrow> nTotalCnt | Some m \<Rightarrow> fold (\<lambda>(k, v) n. n + string2int v) m nTotalCnt) }) }"

definition getMsgByMsgId :: "'w services \<Rightarrow> u32 \<Rightarrow> u32 \<Rightarrow> u32 list \<Rightarrow> ('w, 'm, msg_info list) db" where
  "getMsgByMsgId sv nUserId nPeerId lsMsgId =
     (if lsMsgId = [] then ret []
      else do {
        nRelateId \<leftarrow> getRelationId sv nUserId nPeerId False;
        if nRelateId = INVALID_VALUE then ret []
        else do {
          pDBConn \<leftarrow> GetDBConn sv ''teamtalk_slave'';
          (case pDBConn of
             None \<Rightarrow> ret []
           | Some c \<Rightarrow> do {
               lsMsg \<leftarrow> query_messages sv c ''fromId'' (str ''select * from '' @ message_table nRelateId @
                 str '' where relateId='' @ int2string nRelateId @ str ''  and status=0 and msgId in ('' @ id_clause lsMsgId @
                 str '') order by created desc, id desc limit 100'');
               rel_conn c;
               (if lsMsg \<noteq> [] then readAudios sv lsMsg else ret lsMsg) }) } })"

subsection \<open>Sessions\<close>

definition getSessionId :: "'w services \<Rightarrow> u32 \<Rightarrow> u32 \<Rightarrow> u32 \<Rightarrow> bool \<Rightarrow> ('w, 'm, u32) db" where
  "getSessionId sv nUserId nPeerId nType isAll = do {
     pDBConn \<leftarrow> GetDBConn sv ''teamtalk_slave'';
     (case pDBConn of
        None \<Rightarrow> ret INVALID_VALUE
      | Some c \<Rightarrow> do {
          r \<leftarrow> ExecuteQuery sv c (str ''select id from IMRecentSession where userId='' @ int2string nUserId @
            str '' and peerId='' @ int2string nPeerId @ str '' and type='' @ int2string nType @
            (if isAll then [] else str '' and status=0''));
          nSessionId \<leftarrow> (case r of
              None \<Rightarrow> ret INVALID_VALUE
            | Some rows \<Rightarrow> foldM (\<lambda>_ row. GetInt row ''id'') INVALID_VALUE rows);
          rel_conn c;
          ret nSessionId }) }"

definition updateSession :: "'w services \<Rightarrow> u32 \<Rightarrow> u32 \<Rightarrow> ('w, 'm, bool) db" where
  "updateSession sv nSessionId nUpdateTime =
     master_update sv (str ''update IMRecentSession set `updated`='' @ int2string nUpdateTime @ str '' where id='' @
       int2string nSessionId)"

definition removeSession :: "'w services \<Rightarrow> u32 \<Rightarrow> ('w, 'm, bool) db" where
  "removeSession sv nSessionId = do {
     pDBConn \<leftarrow> GetDBConn sv ''teamtalk_master'';
     (case pDBConn of
        None \<Rightarrow> ret False
      | Some c \<Rightarrow> do {
          nNow \<leftarrow> time_now sv;
          bRet \<leftarrow> ExecuteUpdate sv c (str ''update IMRecentSession set status = 1, updated='' @ int2string nNow @
            str '' where id='' @ int2string nSessionId);
          rel_conn c;
          ret bRet }) }"

definition addSession :: "'w services \<Rightarrow> u32 \<Rightarrow> u32 \<Rightarrow> u32 \<Rightarrow> ('w, 'm, u32) db" where
  "addSession sv nUserId nPeerId nType = do {
     nSessionId \<leftarrow> getSessionId sv nUserId nPeerId nType True;
     nTimeNow \<leftarrow> time_now sv;
     pDBConn \<leftarrow> GetDBConn sv ''teamtalk_master'';
     (case pDBConn of
        None \<Rightarrow> ret nSessionId
      | Some c \<Rightarrow> do {
          nSessionId \<leftarrow>
            (if INVALID_VALUE \<noteq> nSessionId then do {
               bRet \<leftarrow> ExecuteUpdate sv c (str ''update IMRecentSession set status=0, updated='' @ int2string nTimeNow @
                 str '' where id='' @ int2string nSessionId);
               ret (if \<not> bRet then INVALID_VALUE else nSessionId) }
             else do {
               bRet \<leftarrow> insert_row sv c
                 (str ''insert into IMRecentSession (`userId`,`peerId`,`type`,`status`,`created`,`updated`) values(?,?,?,?,?,?)'')
                 [PInt nUserId, PInt nPeerId, PInt nType, PInt 0, PInt nTimeNow, PInt nTimeNow];
               (if bRet = Some True then GetInsertId sv c else ret INVALID_VALUE) });
          rel_conn c;
          ret nSessionId }) }"

end
