(* ===== verification/Db_Group.thy ===== *)
theory Db_Group
  imports Db_Message
begin

text \<open>
  Groups (\<open>db_proxy_server/business\<close>): \<open>GroupModel.cpp\<close>, \<open>GroupMessageModel.cpp\<close>, the unread counters of \<open>UserModel.cpp\<close>
  and the recent sessions of \<open>SessionModel.cpp\<close>, which read messages of both kinds. A \<open>set<uint32_t>\<close> is a list sorted
  in ascending order without repetitions, a \<open>map<uint32_t, T>\<close> such a list of pairs.
\<close>

definition GROUP_TYPE_TMP :: u32 where "GROUP_TYPE_TMP = 2"
definition GROUP_MODIFY_TYPE_ADD :: u32 where "GROUP_MODIFY_TYPE_ADD = 1"
definition GROUP_MODIFY_TYPE_DEL :: u32 where "GROUP_MODIFY_TYPE_DEL = 2"
definition IM_GROUP_SETTING_PUSH :: u32 where "IM_GROUP_SETTING_PUSH = 1"

definition GroupType_IsValid :: "u32 \<Rightarrow> bool" where
  "GroupType_IsValid t \<longleftrightarrow> t \<in> {0, GROUP_TYPE_NORMAL, GROUP_TYPE_TMP}"

definition GroupModifyType_IsValid :: "u32 \<Rightarrow> bool" where
  "GroupModifyType_IsValid t \<longleftrightarrow> t \<in> {0, GROUP_MODIFY_TYPE_ADD, GROUP_MODIFY_TYPE_DEL}"

definition GROUP_TOTAL_MSG_COUNTER_REDIS_KEY_SUFFIX :: bytes where
  "GROUP_TOTAL_MSG_COUNTER_REDIS_KEY_SUFFIX = str ''_im_group_msg''"
definition GROUP_USER_MSG_COUNTER_REDIS_KEY_SUFFIX :: bytes where
  "GROUP_USER_MSG_COUNTER_REDIS_KEY_SUFFIX = str ''_im_user_group''"
definition GROUP_COUNTER_SUBKEY_COUNTER_FIELD :: bytes where
  "GROUP_COUNTER_SUBKEY_COUNTER_FIELD = str ''count''"

definition group_key :: "u32 \<Rightarrow> bytes" where
  "group_key nGroupId = int2string nGroupId @ GROUP_TOTAL_MSG_COUNTER_REDIS_KEY_SUFFIX"

definition user_group_key :: "u32 \<Rightarrow> u32 \<Rightarrow> bytes" where
  "user_group_key nUserId nGroupId =
     int2string nUserId @ str ''_'' @ int2string nGroupId @ GROUP_USER_MSG_COUNTER_REDIS_KEY_SUFFIX"

definition member_key :: "u32 \<Rightarrow> bytes" where
  "member_key nGroupId = str ''group_member_'' @ int2string nGroupId"

definition set_key :: "u32 \<Rightarrow> bytes" where
  "set_key nGroupId = str ''group_set_'' @ int2string nGroupId"

record group_version =
  gv_group_id :: u32
  gv_version :: u32

record group_info =
  gi_group_id :: u32
  gi_version :: u32
  gi_group_name :: bytes
  gi_group_avatar :: bytes
  gi_group_type :: u32
  gi_group_creator_id :: u32
  gi_shield_status :: u32
  gi_group_member_list :: "u32 list"

record shield_status =
  sh_user_id :: u32
  sh_group_id :: u32
  sh_shield_status :: u32

subsection \<open>Reading groups\<close>

definition getUserGroupIds :: "'w services \<Rightarrow> u32 \<Rightarrow> u32 \<Rightarrow> ('w, 'm, u32 list) db" where
  "getUserGroupIds sv nUserId nLimited = do {
     pDBConn \<leftarrow> GetDBConn sv ''teamtalk_slave'';
     (case pDBConn of
        None \<Rightarrow> ret []
      | Some c \<Rightarrow> do {
          r \<leftarrow> ExecuteQuery sv c (str ''select groupId from IMGroupMember where userId='' @ int2string nUserId @
            str '' and status = 0 order by updated desc, id desc'' @
            (if nLimited \<noteq> 0 then str '' limit '' @ int2string nLimited else []));
          ids \<leftarrow> (case r of
              None \<Rightarrow> ret []
            | Some rows \<Rightarrow> foldM (\<lambda>ids row. do { i \<leftarrow> GetInt row ''groupId''; ret (ids @ [i]) }) [] rows);
          rel_conn c;
          ret ids }) }"

definition getGroupVersion :: "'w services \<Rightarrow> u32 list \<Rightarrow> u32 \<Rightarrow> ('w, 'm, group_version list) db" where
  "getGroupVersion sv lsGroupId nGroupType =
     (if lsGroupId = [] then ret []
      else do {
        pDBConn \<leftarrow> GetDBConn sv ''teamtalk_slave'';
        (case pDBConn of
           None \<Rightarrow> ret []
         | Some c \<Rightarrow> do {
             r \<leftarrow> ExecuteQuery sv c (str ''select id,version from IMGroup where id in ('' @ id_clause lsGroupId @ str '')'' @
               (if 0 \<noteq> nGroupType then str '' and type='' @ int2string nGroupType else []) @
               str '' order by updated desc'');
             lsGroup \<leftarrow> (case r of
                 None \<Rightarrow> ret []
               | Some rows \<Rightarrow> foldM (\<lambda>ls row. do {
                   i \<leftarrow> GetInt row ''id'';
                   v \<leftarrow> GetInt row ''version'';
                   ret (ls @ [\<lparr>gv_group_id = i, gv_version = v\<rparr>]) }) [] rows);
             rel_conn c;
             ret lsGroup }) })"

definition getUserGroup :: "'w services \<Rightarrow> u32 \<Rightarrow> u32 \<Rightarrow> ('w, 'm, group_version list) db" where
  "getUserGroup sv nUserId nGroupType = do {
     lsGroupId \<leftarrow> getUserGroupIds sv nUserId 0;
     if lsGroupId \<noteq> [] then getGroupVersion sv lsGroupId nGroupType else ret [] }"

text \<open>A query or command on one redis connection of a pool, or \<open>dflt\<close> when the pool gives none.\<close>

definition with_cache :: "'w services \<Rightarrow> string \<Rightarrow> 'a \<Rightarrow> (conn \<Rightarrow> ('w, 'm, 'a) db) \<Rightarrow> ('w, 'm, 'a) db" where
  "with_cache sv name dflt body = do {
     pCacheConn \<leftarrow> GetCacheConn sv name;
     (case pCacheConn of
        None \<Rightarrow> ret dflt
      | Some c \<Rightarrow> do { x \<leftarrow> body c; rel_conn c; ret x }) }"

definition getGroupUser :: "'w services \<Rightarrow> u32 \<Rightarrow> ('w, 'm, u32 list) db" where
  "getGroupUser sv nGroupId = do {
     m \<leftarrow> with_cache sv ''group_member'' None (\<lambda>c. hgetAll sv c (member_key nGroupId));
     ret (case m of None \<Rightarrow> [] | Some mapAllUser \<Rightarrow> map (\<lambda>(k, _). string2int k) mapAllUser) }"

definition fillGroupMember :: "'w services \<Rightarrow> group_info list \<Rightarrow> ('w, 'm, group_info list) db" where
  "fillGroupMember sv lsGroups = foldM (\<lambda>out g. do {
     lsUserIds \<leftarrow> getGroupUser sv (gi_group_id g);
     ret (out @ [g\<lparr>gi_group_member_list := gi_group_member_list g @ lsUserIds\<rparr>]) }) [] lsGroups"

definition read_group :: "(u32 \<times> u32) list \<Rightarrow> group_info list \<Rightarrow> row \<Rightarrow> ('w, 'm, group_info list) db" where
  "read_group mapGroupId lsGroupInfo row = do {
     nGroupId \<leftarrow> GetInt row ''id'';
     nVersion \<leftarrow> GetInt row ''version'';
     if (case map_of mapGroupId nGroupId of None \<Rightarrow> 0 | Some v \<Rightarrow> v) < nVersion then do {
       name \<leftarrow> GetText row ''name'';
       avatar \<leftarrow> GetText row ''avatar'';
       nGroupType \<leftarrow> GetInt row ''type'';
       if GroupType_IsValid nGroupType then do {
         creator \<leftarrow> GetInt row ''creator'';
         ret (lsGroupInfo @ [\<lparr>gi_group_id = nGroupId, gi_version = nVersion, gi_group_name = name,
           gi_group_avatar = avatar, gi_group_type = nGroupType, gi_group_creator_id = creator,
           gi_shield_status = 0, gi_group_member_list = []\<rparr>]) }
       else ret lsGroupInfo }
     else ret lsGroupInfo }"

definition getGroupInfo :: "'w services \<Rightarrow> (u32 \<times> u32) list \<Rightarrow> ('w, 'm, group_info list) db" where
  "getGroupInfo sv mapGroupId =
     (if mapGroupId = [] then ret []
      else do {
        pDBConn \<leftarrow> GetDBConn sv ''teamtalk_slave'';
        (case pDBConn of
           None \<Rightarrow> ret []
         | Some c \<Rightarrow> do {
             r \<leftarrow> ExecuteQuery sv c (str ''select * from IMGroup where id in ('' @ id_clause (map fst mapGroupId) @
               str '') order by updated desc'');
             lsGroupInfo \<leftarrow> (case r of None \<Rightarrow> ret [] | Some rows \<Rightarrow> foldM (read_group mapGroupId) [] rows);
             rel_conn c;
             (if lsGroupInfo \<noteq> [] then fillGroupMember sv lsGroupInfo else ret lsGroupInfo) }) })"

definition isInGroup :: "'w services \<Rightarrow> u32 \<Rightarrow> u32 \<Rightarrow> ('w, 'm, bool) db" where
  "isInGroup sv nUserId nGroupId = do {
     strValue \<leftarrow> with_cache sv ''group_member'' [] (\<lambda>c. hget sv c (member_key nGroupId) (int2string nUserId));
     ret (strValue \<noteq> []) }"

definition isValidateGroupId :: "'w services \<Rightarrow> u32 \<Rightarrow> ('w, 'm, bool) db" where
  "isValidateGroupId sv nGroupId =
     with_cache sv ''group_member'' False (\<lambda>c. isExists sv c (member_key nGroupId))"

definition getUserJoinTime :: "'w services \<Rightarrow> u32 \<Rightarrow> u32 \<Rightarrow> ('w, 'm, u32) db" where
  "getUserJoinTime sv nGroupId nUserId = do {
     strValue \<leftarrow> with_cache sv ''group_member'' [] (\<lambda>c. hget sv c (member_key nGroupId) (int2string nUserId));
     ret (if strValue \<noteq> [] then string2int strValue else 0) }"

text \<open>The rows up to the first one that permits the change.\<close>

fun permission_loop :: "u32 \<Rightarrow> u32 \<Rightarrow> row list \<Rightarrow> ('w, 'm, bool) db" where
  "permission_loop nUserId nType [] = ret False"
| "permission_loop nUserId nType (row # rows) = do {
     nCreator \<leftarrow> GetInt row ''creator'';
     nGroupType \<leftarrow> GetInt row ''type'';
     if GroupType_IsValid nGroupType \<and>
        (GROUP_TYPE_TMP = nGroupType \<and> GROUP_MODIFY_TYPE_ADD = nType \<or> nCreator = nUserId)
     then ret True else permission_loop nUserId nType rows }"

definition hasModifyPermission :: "'w services \<Rightarrow> u32 \<Rightarrow> u32 \<Rightarrow> u32 \<Rightarrow> ('w, 'm, bool) db" where
  "hasModifyPermission sv nUserId nGroupId nType =
     (if nUserId = 0 then ret True
      else do {
        pDBConn \<leftarrow> GetDBConn sv ''teamtalk_slave'';
        (case pDBConn of
           None \<Rightarrow> ret False
         | Some c \<Rightarrow> do {
             r \<leftarrow> ExecuteQuery sv c (str ''select creator, type from IMGroup where id='' @ int2string nGroupId);
             bRet \<leftarrow> (case r of None \<Rightarrow> ret False | Some rows \<Rightarrow> permission_loop nUserId nType rows);
             rel_conn c;
             ret bRet }) })"

subsection \<open>Changing groups\<close>

definition insertNewGroup :: "'w services \<Rightarrow> u32 \<Rightarrow> bytes \<Rightarrow> bytes \<Rightarrow> u32 \<Rightarrow> u32 \<Rightarrow> ('w, 'm, bool \<times> u32) db" where
  "insertNewGroup sv nUserId strGroupName strGroupAvatar nGroupType nMemberCnt = do {
     pDBConn \<leftarrow> GetDBConn sv ''teamtalk_master'';
     (case pDBConn of
        None \<Rightarrow> ret (False, INVALID_VALUE)
      | Some c \<Rightarrow> do {
          st \<leftarrow> StmtInit sv c (str ''insert into IMGroup(`name`, `avatar`, `creator`, `type`,`userCnt`, `status`, `version`, `lastChated`, `updated`, `created`) values(?, ?, ?, ?, ?, ?, ?, ?, ?, ?)'');
          r \<leftarrow> (case st of
              None \<Rightarrow> ret (False, INVALID_VALUE)
            | Some st \<Rightarrow> do {
                nCreated \<leftarrow> time_now sv;
                bRet \<leftarrow> StmtExecuteUpdate sv (SetParams [PStr strGroupName, PStr strGroupAvatar, PInt nUserId, PInt nGroupType,
                  PInt nMemberCnt, PInt 0, PInt 1, PInt 0, PInt nCreated, PInt nCreated] st);
                (if bRet then do { nGroupId \<leftarrow> GetInsertId sv c; ret (True, nGroupId) } else ret (False, INVALID_VALUE)) });
          rel_conn c;
          ret r }) }"

definition clearGroupMember :: "'w services \<Rightarrow> u32 \<Rightarrow> ('w, 'm, unit) db" where
  "clearGroupMember sv nGroupId = do {
     master_update sv (str ''delete from IMGroupMember where groupId='' @ int2string nGroupId);
     with_cache sv ''group_member'' () (\<lambda>c. do {
       m \<leftarrow> hgetAll sv c (member_key nGroupId);
       (case m of
          None \<Rightarrow> ret ()
        | Some mapRet \<Rightarrow> foldM (\<lambda>_ (k, _). do { hdel sv c (member_key nGroupId) k; ret () }) () mapRet) }) }"

text \<open>One user of the loop that inserts new members: the count of insertions and the users kept.\<close>

definition insert_member :: "'w services \<Rightarrow> conn \<Rightarrow> u32 \<Rightarrow> u32 \<Rightarrow> u32 list \<Rightarrow> u32 \<times> u32 list \<Rightarrow> u32 \<Rightarrow>
    ('w, 'm, u32 \<times> u32 list) db" where
  "insert_member sv c nGroupId nCreated setHasUser = (\<lambda>(nIncMemberCnt, setUsers) nUserId.
     (if nUserId \<notin> set setHasUser then do {
        r \<leftarrow> insert_row sv c (str ''insert into IMGroupMember(`groupId`, `userId`, `status`, `created`, `updated`) values                    (?,?,?,?,?)'')
          [PInt nGroupId, PInt nUserId, PInt 0, PInt nCreated, PInt nCreated];
        (case r of
           Some _ \<Rightarrow> ret (nIncMemberCnt + 1, setUsers @ [nUserId])
         | None \<Rightarrow> ret (nIncMemberCnt, setUsers)) }
      else ret (nIncMemberCnt, setUsers @ [nUserId])))"

definition insertNewMember :: "'w services \<Rightarrow> u32 \<Rightarrow> u32 list \<Rightarrow> ('w, 'm, bool \<times> u32 list) db" where
  "insertNewMember sv nGroupId setUsers =
     (if nGroupId \<noteq> INVALID_VALUE \<and> of_nat (length setUsers) > (0 :: u32) then do {
        pDBConn \<leftarrow> GetDBConn sv ''teamtalk_slave'';
        (case pDBConn of
           None \<Rightarrow> ret (False, setUsers)
         | Some c \<Rightarrow> do {
             nCreated \<leftarrow> time_now sv;
             r \<leftarrow> ExecuteQuery sv c (str ''select userId from IMGroupMember where groupId='' @ int2string nGroupId @
               str '' and userId in ('' @ id_clause setUsers @ str '')'');
             setHasUser \<leftarrow> (case r of
                 None \<Rightarrow> ret []
               | Some rows \<Rightarrow> foldM (\<lambda>ids row. do { i \<leftarrow> GetInt row ''userId''; ret (insort_insert i ids) }) [] rows);
             rel_conn c;
             pDBConn \<leftarrow> GetDBConn sv ''teamtalk_master'';
             (case pDBConn of
                None \<Rightarrow> ret (False, setUsers)
              | Some c \<Rightarrow> do {
                  pCacheConn \<leftarrow> GetCacheConn sv ''group_member'';
                  r \<leftarrow> (case pCacheConn of
                      None \<Rightarrow> ret (False, setUsers)
                    | Some cc \<Rightarrow> do {
                        (if setHasUser \<noteq> [] then do {
                           ExecuteUpdate sv c (str ''update IMGroupMember set status=0, updated='' @ int2string nCreated @
                             str '' where groupId='' @ int2string nGroupId @ str '' and userId in ('' @ id_clause setHasUser @ str '')'');
                           ret () } else ret ());
                        r \<leftarrow> foldM (insert_member sv c nGroupId nCreated setHasUser) (0, []) setUsers;
                        (case r of (nIncMemberCnt, setUsers) \<Rightarrow> do {
                           (if nIncMemberCnt \<noteq> 0 then do {
                              ExecuteUpdate sv c (str ''update IMGroup set userCnt=userCnt+'' @ int2string nIncMemberCnt @
                                str '' where id='' @ int2string nGroupId);
                              ret () } else ret ());
                           foldM (\<lambda>_ u. do { hset sv cc (member_key nGroupId) (int2string u) (int2string nCreated); ret () }) () setUsers;
                           rel_conn cc;
                           ret (True, setUsers) }) });
                  rel_conn c;
                  ret r }) }) }
      else ret (False, setUsers))"

definition group_resetMsgId :: "'w services \<Rightarrow> u32 \<Rightarrow> ('w, 'm, bool) db" where
  "group_resetMsgId sv nGroupId = with_cache sv ''unread'' False (\<lambda>c. do {
     strReply \<leftarrow> cache_set sv c (str ''group_msg_id_'' @ int2string nGroupId) (str ''0'');
     ret (strReply = str ''0'') })"

definition createGroup :: "'w services \<Rightarrow> u32 \<Rightarrow> bytes \<Rightarrow> bytes \<Rightarrow> u32 \<Rightarrow> u32 list \<Rightarrow> ('w, 'm, u32 \<times> u32 list) db" where
  "createGroup sv nUserId strGroupName strGroupAvatar nGroupType setMember =
     (if strGroupName = [] then ret (INVALID_VALUE, setMember)
      else if setMember = [] then ret (INVALID_VALUE, setMember)
      else do {
        r \<leftarrow> insertNewGroup sv nUserId strGroupName strGroupAvatar nGroupType (of_nat (length setMember));
        (case r of
           (False, nGroupId) \<Rightarrow> ret (nGroupId, setMember)
         | (True, nGroupId) \<Rightarrow> do {
             group_resetMsgId sv nGroupId;
             clearGroupMember sv nGroupId;
             m \<leftarrow> insertNewMember sv nGroupId setMember;
             ret (nGroupId, snd m) }) })"

definition removeMember :: "'w services \<Rightarrow> u32 \<Rightarrow> u32 list \<Rightarrow> ('w, 'm, bool \<times> u32 list) db" where
  "removeMember sv nGroupId setUser =
     (if setUser = [] then ret (True, [])
      else do {
        pDBConn \<leftarrow> GetDBConn sv ''teamtalk_master'';
        (case pDBConn of
           None \<Rightarrow> ret (False, [])
         | Some c \<Rightarrow> do {
             bRet \<leftarrow> with_cache sv ''group_member'' False (\<lambda>cc. do {
               ExecuteUpdate sv c (str ''update IMGroupMember set status=1 where  groupId ='' @ int2string nGroupId @
                 str '' and userId in('' @ id_clause setUser @ str '')'');
               foldM (\<lambda>_ u. do { hdel sv cc (member_key nGroupId) (int2string u); ret () }) () setUser;
               ret True });
             rel_conn c;
             lsCurUserId \<leftarrow> (if bRet then getGroupUser sv nGroupId else ret []);
             ret (bRet, lsCurUserId) }) })"

text \<open>\<open>nCreator\<close> is uninitialized when the group has no row.\<close>

definition removeGroup :: "'w services \<Rightarrow> u32 \<Rightarrow> u32 \<Rightarrow> ('w, 'm, bool \<times> u32 list) db" where
  "removeGroup sv nUserId nGroupId = do {
     pDBConn \<leftarrow> GetDBConn sv ''teamtalk_master'';
     r \<leftarrow> (case pDBConn of
         None \<Rightarrow> ret (False, [])
       | Some c \<Rightarrow> do {
           q \<leftarrow> ExecuteQuery sv c (str ''select creator from IMGroup where id='' @ int2string nGroupId);
           bRet \<leftarrow> (case q of
               None \<Rightarrow> ret False
             | Some rows \<Rightarrow> do {
                 nCreator \<leftarrow> foldM (\<lambda>_ row. do { i \<leftarrow> GetInt row ''creator''; ret (Some i) }) None rows;
                 nCreator \<leftarrow> use_var sv nCreator;
                 if 0 = nCreator \<or> nCreator = nUserId
                 then ExecuteUpdate sv c (str ''update IMGroup set status=0 where id='' @ int2string nGroupId)
                 else ret False });
           setGroupUsers \<leftarrow>
             (if bRet then do {
                q \<leftarrow> ExecuteQuery sv c (str ''select userId from IMGroupMember where groupId='' @ int2string nGroupId);
                (case q of
                   None \<Rightarrow> ret []
                 | Some rows \<Rightarrow> foldM (\<lambda>ids row. do { i \<leftarrow> GetInt row ''userId''; ret (insort_insert i ids) }) [] rows) }
              else ret []);
           rel_conn c;
           ret (bRet, setGroupUsers) });
     (case r of (bRet, setGroupUsers) \<Rightarrow>
        if bRet then removeMember sv nGroupId setGroupUsers else ret (False, [])) }"

definition removeRepeatUser :: "'w services \<Rightarrow> u32 \<Rightarrow> u32 list \<Rightarrow> ('w, 'm, u32 list) db" where
  "removeRepeatUser sv nGroupId setUser = with_cache sv ''group_member'' setUser (\<lambda>c.
     foldM (\<lambda>kept u. do {
       strValue \<leftarrow> hget sv c (member_key nGroupId) (int2string u);
       ret (if strValue \<noteq> [] then kept else kept @ [u]) }) [] setUser)"

definition addMember :: "'w services \<Rightarrow> u32 \<Rightarrow> u32 list \<Rightarrow> ('w, 'm, bool \<times> u32 list \<times> u32 list) db" where
  "addMember sv nGroupId setUser = do {
     setUser \<leftarrow> removeRepeatUser sv nGroupId setUser;
     r \<leftarrow> insertNewMember sv nGroupId setUser;
     lsCurUserId \<leftarrow> getGroupUser sv nGroupId;
     ret (fst r, snd r, lsCurUserId) }"

definition group_removeSession :: "'w services \<Rightarrow> u32 \<Rightarrow> u32 list \<Rightarrow> ('w, 'm, unit) db" where
  "group_removeSession sv nGroupId setUser = foldM (\<lambda>_ nUserId. do {
     nSessionId \<leftarrow> getSessionId sv nUserId nGroupId SESSION_TYPE_GROUP False;
     removeSession sv nSessionId;
     ret () }) () setUser"

definition incGroupVersion :: "'w services \<Rightarrow> u32 \<Rightarrow> ('w, 'm, bool) db" where
  "incGroupVersion sv nGroupId =
     master_update sv (str ''update IMGroup set version=version+1 where id='' @ int2string nGroupId)"

text \<open>\<open>CUserModel::clearUserCounter\<close>.\<close>

definition clearUserCounter :: "'w services \<Rightarrow> u32 \<Rightarrow> u32 \<Rightarrow> u32 \<Rightarrow> ('w, 'm, unit) db" where
  "clearUserCounter sv nUserId nPeerId nSessionType =
     (if SessionType_IsValid nSessionType then with_cache sv ''unread'' () (\<lambda>c.
        if nSessionType = SESSION_TYPE_SINGLE then do {
          hdel sv c (str ''unread_'' @ int2string nUserId) (int2string nPeerId);
          ret () }
        else if nSessionType = SESSION_TYPE_GROUP then do {
          m \<leftarrow> hgetAll sv c (group_key nPeerId);
          (case m of
             None \<Rightarrow> ret ()
           | Some mapGroupCount \<Rightarrow> do { hmset sv c (user_group_key nUserId nPeerId) mapGroupCount; ret () }) }
        else ret ())
      else ret ())"

definition modifyGroupMember :: "'w services \<Rightarrow> u32 \<Rightarrow> u32 \<Rightarrow> u32 \<Rightarrow> u32 list \<Rightarrow> ('w, 'm, bool \<times> u32 list \<times> u32 list) db" where
  "modifyGroupMember sv nUserId nGroupId nType setUserId = do {
     p \<leftarrow> hasModifyPermission sv nUserId nGroupId nType;
     if p then do {
       r \<leftarrow> (if nType = GROUP_MODIFY_TYPE_ADD then addMember sv nGroupId setUserId
            else if nType = GROUP_MODIFY_TYPE_DEL then do {
              r \<leftarrow> removeMember sv nGroupId setUserId;
              group_removeSession sv nGroupId setUserId;
              ret (fst r, setUserId, snd r) }
            else ret (False, setUserId, []));
       (case r of (bRet, setUserId, lsCurUserId) \<Rightarrow> do {
          (if bRet then do {
             incGroupVersion sv nGroupId;
             foldM (\<lambda>_ u. clearUserCounter sv u nGroupId SESSION_TYPE_GROUP) () setUserId }
           else ret ());
          ret (bRet, setUserId, lsCurUserId) }) }
     else ret (False, setUserId, []) }"

definition setPush :: "'w services \<Rightarrow> u32 \<Rightarrow> u32 \<Rightarrow> u32 \<Rightarrow> u32 \<Rightarrow> ('w, 'm, bool) db" where
  "setPush sv nUserId nGroupId nType nStatus = do {
     b \<leftarrow> isInGroup sv nUserId nGroupId;
     if \<not> b then ret False
     else with_cache sv ''group_set'' False (\<lambda>c. do {
       nRet \<leftarrow> hset sv c (set_key nGroupId) (int2string nUserId @ str ''_'' @ int2string nType) (int2string nStatus);
       ret ((of_int nRet :: u32) \<noteq> -1) }) }"

definition getPush :: "'w services \<Rightarrow> u32 \<Rightarrow> u32 list \<Rightarrow> ('w, 'm, shield_status list) db" where
  "getPush sv nGroupId lsUser =
     (if lsUser = [] then ret []
      else do {
        m \<leftarrow> with_cache sv ''group_set'' None (\<lambda>c. hgetAll sv c (set_key nGroupId));
        ret (case m of None \<Rightarrow> []
             | Some mapResult \<Rightarrow> map (\<lambda>u. \<lparr>sh_user_id = u, sh_group_id = nGroupId, sh_shield_status =
                 (case map_of mapResult (int2string u @ str ''_'' @ int2string IM_GROUP_SETTING_PUSH) of
                    None \<Rightarrow> 0 | Some v \<Rightarrow> string2int v)\<rparr>) lsUser) })"

definition updateGroupChat :: "'w services \<Rightarrow> u32 \<Rightarrow> ('w, 'm, unit) db" where
  "updateGroupChat sv nGroupId = do {
     pDBConn \<leftarrow> GetDBConn sv ''teamtalk_master'';
     (case pDBConn of
        None \<Rightarrow> ret ()
      | Some c \<Rightarrow> do {
          nNow \<leftarrow> time_now sv;
          ExecuteUpdate sv c (str ''update IMGroup set lastChated='' @ int2string nNow @ str '' where id='' @
            int2string nGroupId);
          rel_conn c }) }"

subsection \<open>Group messages\<close>

definition group_table :: "u32 \<Rightarrow> bytes" where
  "group_table nGroupId = str ''IMGroupMessage_'' @ int2string (nGroupId mod 8)"

text \<open>
  The result of the two counters is the outer \<open>bRet\<close>, which stays false, and \<open>clearMessageCount\<close> writes
  over the connection it has just returned to the pool.
\<close>

definition clearMessageCount :: "'w services \<Rightarrow> u32 \<Rightarrow> u32 \<Rightarrow> ('w, 'm, bool) db" where
  "clearMessageCount sv nUserId nGroupId = do {
     pCacheConn \<leftarrow> GetCacheConn sv ''unread'';
     (case pCacheConn of
        None \<Rightarrow> ret False
      | Some c \<Rightarrow> do {
          m \<leftarrow> hgetAll sv c (group_key nGroupId);
          rel_conn c;
          (case m of
             None \<Rightarrow> ret False
           | Some mapGroupCount \<Rightarrow> do {
               hmset sv c (user_group_key nUserId nGroupId) mapGroupCount;
               ret False }) }) }"

definition incMessageCount :: "'w services \<Rightarrow> u32 \<Rightarrow> u32 \<Rightarrow> ('w, 'm, bool) db" where
  "incMessageCount sv nUserId nGroupId = with_cache sv ''unread'' False (\<lambda>c. do {
     hincrBy sv c (group_key nGroupId) GROUP_COUNTER_SUBKEY_COUNTER_FIELD 1;
     m \<leftarrow> hgetAll sv c (group_key nGroupId);
     (case m of
        None \<Rightarrow> ret False
      | Some mapGroupCount \<Rightarrow> do {
          hmset sv c (user_group_key nUserId nGroupId) mapGroupCount;
          ret False }) })"

definition group_sendMessage :: "'w services \<Rightarrow> u32 \<Rightarrow> u32 \<Rightarrow> u32 \<Rightarrow> u32 \<Rightarrow> u32 \<Rightarrow> bytes \<Rightarrow> ('w, 'm, bool) db" where
  "group_sendMessage sv nFromId nGroupId nMsgType nCreateTime nMsgId strMsgContent = do {
     b \<leftarrow> isInGroup sv nFromId nGroupId;
     if b then do {
       pDBConn \<leftarrow> GetDBConn sv ''teamtalk_master'';
       (case pDBConn of
          None \<Rightarrow> ret False
        | Some c \<Rightarrow> do {
            bRet \<leftarrow> insert_row sv c (str ''insert into '' @ group_table nGroupId @
              str '' (`groupId`, `userId`, `msgId`, `content`, `type`, `status`, `updated`, `created`) values(?, ?, ?, ?, ?, ?, ?, ?)'')
              [PInt nGroupId, PInt nFromId, PInt nMsgId, PStr strMsgContent, PInt nMsgType, PInt 0, PInt nCreateTime,
               PInt nCreateTime];
            (if bRet = Some True then do {
               updateGroupChat sv nGroupId;
               incMessageCount sv nFromId nGroupId;
               clearMessageCount sv nFromId nGroupId;
               ret () }
             else ret ());
            rel_conn c;
            ret False }) }
     else ret False }"

definition group_sendAudioMessage ::
  "'w services \<Rightarrow> bytes \<Rightarrow> u32 \<Rightarrow> u32 \<Rightarrow> u32 \<Rightarrow> u32 \<Rightarrow> u32 \<Rightarrow> bytes \<Rightarrow> u32 \<Rightarrow> ('w, 'm, bool) db" where
  "group_sendAudioMessage sv site nFromId nGroupId nMsgType nCreateTime nMsgId pMsgContent nMsgLen =
     (if nMsgLen \<le> 4 then ret False
      else do {
        b \<leftarrow> isInGroup sv nFromId nGroupId;
        if \<not> b then ret False
        else do {
          nAudioId \<leftarrow> saveAudioInfo sv site nFromId nGroupId nCreateTime pMsgContent nMsgLen;
          (case nAudioId of
             Some i \<Rightarrow> group_sendMessage sv nFromId nGroupId nMsgType nCreateTime nMsgId (int2string i)
           | None \<Rightarrow> ret False) } })"

definition group_getMessage :: "'w services \<Rightarrow> u32 \<Rightarrow> u32 \<Rightarrow> u32 \<Rightarrow> u32 \<Rightarrow> ('w, 'm, msg_info list) db" where
  "group_getMessage sv nUserId nGroupId nMsgId nMsgCnt = do {
     pDBConn \<leftarrow> GetDBConn sv ''teamtalk_slave'';
     (case pDBConn of
        None \<Rightarrow> ret []
      | Some c \<Rightarrow> do {
          nUpdated \<leftarrow> getUserJoinTime sv nGroupId nUserId;
          lsMsg \<leftarrow> query_messages sv c ''userId'' (str ''select * from '' @ group_table nGroupId @
            str '' where groupId = '' @ int2string nGroupId @
            (if nMsgId = 0 then [] else str '' and msgId<='' @ int2string nMsgId) @
            str '' and status = 0 and created>='' @ int2string nUpdated @
            str '' order by created desc, id desc limit '' @ int2string nMsgCnt);
          rel_conn c;
          (if lsMsg \<noteq> [] then readAudios sv lsMsg else ret lsMsg) }) }"

definition group_getMsgId :: "'w services \<Rightarrow> u32 \<Rightarrow> ('w, 'm, u32) db" where
  "group_getMsgId sv nGroupId = with_cache sv ''unread'' 0 (\<lambda>c. do {
     nMsgId \<leftarrow> incrBy sv c (str ''group_msg_id_'' @ int2string nGroupId) 1;
     ret (of_int nMsgId) })"

definition group_getLastMsg :: "'w services \<Rightarrow> bytes \<Rightarrow> u32 \<Rightarrow> last_msg \<Rightarrow> ('w, 'm, last_msg) db" where
  "group_getLastMsg sv strAudioEnc nGroupId lst = do {
     pDBConn \<leftarrow> GetDBConn sv ''teamtalk_slave'';
     (case pDBConn of
        None \<Rightarrow> ret lst
      | Some c \<Rightarrow> do {
          r \<leftarrow> ExecuteQuery sv c (str ''select msgId, type,userId, content from '' @ group_table nGroupId @
            str '' where groupId = '' @ int2string nGroupId @ str '' and status = 0 order by created desc, id desc limit 1'');
          lst \<leftarrow> (case r of
              None \<Rightarrow> ret lst
            | Some rows \<Rightarrow> foldM (read_last MSG_TYPE_GROUP_AUDIO strAudioEnc (Some ''userId'')) lst rows);
          rel_conn c;
          ret lst }) }"

text \<open>
  One turn of the loops that count the unread messages of a user's groups. \<open>nCount\<close> is carried from one
  group to the next; \<open>None\<close> is the early \<open>continue\<close>.
\<close>

definition group_count :: "'w services \<Rightarrow> conn \<Rightarrow> u32 \<Rightarrow> u32 \<Rightarrow> u32 \<Rightarrow> ('w, 'm, u32 option) db" where
  "group_count sv c nUserId nCount nGroupId = do {
     strGroupCnt \<leftarrow> hget sv c (group_key nGroupId) GROUP_COUNTER_SUBKEY_COUNTER_FIELD;
     if strGroupCnt = [] then ret None
     else do {
       strUserCnt \<leftarrow> hget sv c (user_group_key nUserId nGroupId) GROUP_COUNTER_SUBKEY_COUNTER_FIELD;
       let nGroupCnt = string2int strGroupCnt;
       let nUserCnt = (if strUserCnt = [] then 0 else string2int strUserCnt);
       ret (Some (if nGroupCnt \<ge> nUserCnt then nGroupCnt - nUserCnt else nCount)) } }"

definition group_getUnReadCntAll :: "'w services \<Rightarrow> u32 \<Rightarrow> u32 \<Rightarrow> ('w, 'm, u32) db" where
  "group_getUnReadCntAll sv nUserId nTotalCnt = do {
     lsGroupId \<leftarrow> getUserGroupIds sv nUserId 0;
     with_cache sv ''unread'' nTotalCnt (\<lambda>c. do {
       r \<leftarrow> foldM (\<lambda>(nCount, nTotalCnt) nGroupId. do {
         n \<leftarrow> group_count sv c nUserId nCount nGroupId;
         ret (case n of None \<Rightarrow> (nCount, nTotalCnt)
              | Some nCount \<Rightarrow> (nCount, if nCount > 0 then nTotalCnt + nCount else nTotalCnt)) }) (0, nTotalCnt) lsGroupId;
       ret (snd r) }) }"

definition group_unread :: "'w services \<Rightarrow> bytes \<Rightarrow> conn \<Rightarrow> u32 \<Rightarrow> u32 \<times> u32 \<times> unread_info list \<Rightarrow> u32 \<Rightarrow>
    ('w, 'm, u32 \<times> u32 \<times> unread_info list) db" where
  "group_unread sv strAudioEnc c nUserId = (\<lambda>(nCount, nTotalCnt, lsUnreadCount) nGroupId. do {
     n \<leftarrow> group_count sv c nUserId nCount nGroupId;
     (case n of
        None \<Rightarrow> ret (nCount, nTotalCnt, lsUnreadCount)
      | Some nCount \<Rightarrow>
          if nCount > 0 then do {
            l \<leftarrow> group_getLastMsg sv strAudioEnc nGroupId (None, [], None, None);
            (case l of (nMsgId, strMsgData, nType, nFromId) \<Rightarrow> do {
               nType \<leftarrow> use_var sv nType;
               if MsgType_IsValid nType then do {
                 nMsgId \<leftarrow> use_var sv nMsgId;
                 nFromId \<leftarrow> use_var sv nFromId;
                 ret (nCount, nTotalCnt + nCount, lsUnreadCount @ [\<lparr>un_session_id = nGroupId,
                   un_session_type = SESSION_TYPE_GROUP, un_unread_cnt = nCount, un_latest_msg_id = nMsgId,
                   un_latest_msg_data = strMsgData, un_latest_msg_type = nType, un_latest_msg_from = nFromId\<rparr>]) }
               else ret (nCount, nTotalCnt + nCount, lsUnreadCount) }) }
          else ret (nCount, nTotalCnt, lsUnreadCount)) })"

definition group_getUnreadMsgCount :: "'w services \<Rightarrow> bytes \<Rightarrow> u32 \<Rightarrow> u32 \<times> unread_info list \<Rightarrow>
    ('w, 'm, u32 \<times> unread_info list) db" where
  "group_getUnreadMsgCount sv strAudioEnc nUserId acc = do {
     lsGroupId \<leftarrow> getUserGroupIds sv nUserId 0;
     with_cache sv ''unread'' acc (\<lambda>c. do {
       r \<leftarrow> foldM (group_unread sv strAudioEnc c nUserId) (0, acc) lsGroupId;
       ret (snd r) }) }"

definition group_getMsgByMsgId :: "'w services \<Rightarrow> u32 \<Rightarrow> u32 \<Rightarrow> u32 list \<Rightarrow> ('w, 'm, msg_info list) db" where
  "group_getMsgByMsgId sv nUserId nGroupId lsMsgId =
     (if lsMsgId = [] then ret []
      else do {
        b \<leftarrow> isInGroup sv nUserId nGroupId;
        if \<not> b then ret []
        else do {
          pDBConn \<leftarrow> GetDBConn sv ''teamtalk_slave'';
          (case pDBConn of
             None \<Rightarrow> ret []
           | Some c \<Rightarrow> do {
               nUpdated \<leftarrow> getUserJoinTime sv nGroupId nUserId;
               lsMsg \<leftarrow> query_messages sv c ''userId'' (str ''select * from '' @ group_table nGroupId @
                 str '' where groupId='' @ int2string nGroupId @ str '' and msgId in ('' @ id_clause lsMsgId @
                 str '') and status=0 and created >= '' @ int2string nUpdated @
                 str '' order by created desc, id desc limit 100'');
               rel_conn c;
               (if lsMsg \<noteq> [] then readAudios sv lsMsg else ret lsMsg) }) } })"

subsection \<open>Recent sessions\<close>

record contact_info =
  ct_session_id :: u32
  ct_session_status :: u32
  ct_session_type :: u32
  ct_updated_time :: u32
  ct_latest_msg_id :: u32
  ct_latest_msg_data :: bytes
  ct_latest_msg_type :: u32
  ct_latest_msg_from :: u32

definition fill_session :: "'w services \<Rightarrow> bytes \<Rightarrow> u32 \<Rightarrow> contact_info list \<Rightarrow> contact_info \<Rightarrow> ('w, 'm, contact_info list) db" where
  "fill_session sv strAudioEnc nUserId out ct = do {
     l \<leftarrow> (if ct_session_type ct = SESSION_TYPE_SINGLE
          then getLastMsg sv strAudioEnc (ct_session_id ct) nUserId (Some 0, [], None, Some (ct_session_id ct))
          else group_getLastMsg sv strAudioEnc (ct_session_id ct) (Some 0, [], None, Some 0));
     (case l of (nMsgId, strMsgData, nMsgType, nFromId) \<Rightarrow> do {
        nMsgType \<leftarrow> use_var sv nMsgType;
        nMsgId \<leftarrow> use_var sv nMsgId;
        nFromId \<leftarrow> use_var sv nFromId;
        ret (if \<not> MsgType_IsValid nMsgType then out
             else out @ [ct\<lparr>ct_latest_msg_from := nFromId, ct_latest_msg_id := nMsgId,
               ct_latest_msg_data := strMsgData, ct_latest_msg_type := nMsgType\<rparr>]) }) }"

definition fillSessionMsg :: "'w services \<Rightarrow> bytes \<Rightarrow> u32 \<Rightarrow> contact_info list \<Rightarrow> ('w, 'm, contact_info list) db" where
  "fillSessionMsg sv strAudioEnc nUserId lsContact = foldM (fill_session sv strAudioEnc nUserId) [] lsContact"

definition read_session :: "contact_info list \<Rightarrow> row \<Rightarrow> ('w, 'm, contact_info list) db" where
  "read_session lsContact row = do {
     nPeerId \<leftarrow> GetInt row ''peerId'';
     status \<leftarrow> GetInt row ''status'';
     nSessionType \<leftarrow> GetInt row ''type'';
     if SessionType_IsValid nSessionType then do {
       updated \<leftarrow> GetInt row ''updated'';
       ret (lsContact @ [\<lparr>ct_session_id = nPeerId, ct_session_status = status, ct_session_type = nSessionType,
         ct_updated_time = updated, ct_latest_msg_id = 0, ct_latest_msg_data = [], ct_latest_msg_type = 0,
         ct_latest_msg_from = 0\<rparr>]) }
     else ret lsContact }"

definition getRecentSession :: "'w services \<Rightarrow> bytes \<Rightarrow> u32 \<Rightarrow> u32 \<Rightarrow> ('w, 'm, contact_info list) db" where
  "getRecentSession sv strAudioEnc nUserId lastTime = do {
     pDBConn \<leftarrow> GetDBConn sv ''teamtalk_slave'';
     (case pDBConn of
        None \<Rightarrow> ret []
      | Some c \<Rightarrow> do {
          r \<leftarrow> ExecuteQuery sv c (str ''select * from IMRecentSession where userId = '' @ int2string nUserId @
            str '' and status = 0 and updated >'' @ int2string lastTime @ str '' order by updated desc limit 100'');
          lsContact \<leftarrow> (case r of None \<Rightarrow> ret [] | Some rows \<Rightarrow> foldM read_session [] rows);
          rel_conn c;
          (if lsContact \<noteq> [] then fillSessionMsg sv strAudioEnc nUserId lsContact else ret lsContact) }) }"

end
