(* ===== verification/Db_User.thy ===== *)
theory Db_User
  imports Db_Group
begin

text \<open>
  Users, departments and offline files (\<open>db_proxy_server/business\<close>: \<open>UserModel.cpp\<close>, \<open>DepartModel.cpp\<close>, \<open>FileModel.cpp\<close>,
  \<open>InterLogin.cpp\<close>) and the times of \<open>db_proxy_server/SyncCenter.cpp\<close>.
\<close>

definition ClientType_IsValid :: "u32 \<Rightarrow> bool" where
  "ClientType_IsValid t \<longleftrightarrow>
     t \<in> {0, CLIENT_TYPE_WINDOWS, CLIENT_TYPE_MAC, CLIENT_TYPE_IOS, CLIENT_TYPE_ANDROID}"

definition DepartmentStatusType_IsValid :: "u32 \<Rightarrow> bool" where
  "DepartmentStatusType_IsValid t \<longleftrightarrow> t \<in> {0, 1}"

record im_user_info =
  ui_user_id :: u32
  ui_user_gender :: u32
  ui_user_nick_name :: bytes
  ui_avatar_url :: bytes
  ui_department_id :: u32
  ui_email :: bytes
  ui_user_real_name :: bytes
  ui_user_tel :: bytes
  ui_user_domain :: bytes
  ui_status :: u32
  ui_sign_info :: bytes

record DBUserInfo_t =
  du_nId :: u32
  du_nSex :: u8
  du_nStatus :: u8
  du_nDeptId :: u32
  du_strNick :: bytes
  du_strDomain :: bytes
  du_strName :: bytes
  du_strTel :: bytes
  du_strEmail :: bytes
  du_strAvatar :: bytes
  du_sign_info :: bytes

record depart_info =
  di_dept_id :: u32
  di_priority :: u32
  di_dept_name :: bytes
  di_parent_dept_id :: u32
  di_dept_status :: u32

record offline_file_info =
  of_from_user_id :: u32
  of_task_id :: bytes
  of_file_name :: bytes
  of_file_size :: u32

text \<open>A query on one connection to the slave, or \<open>dflt\<close> when there is no connection or no result.\<close>

definition slave_query :: "'w services \<Rightarrow> bytes \<Rightarrow> 'a \<Rightarrow> ('a \<Rightarrow> row \<Rightarrow> ('w, 'm, 'a) db) \<Rightarrow> ('w, 'm, 'a) db" where
  "slave_query sv sql dflt f = do {
     pDBConn \<leftarrow> GetDBConn sv ''teamtalk_slave'';
     (case pDBConn of
        None \<Rightarrow> ret dflt
      | Some c \<Rightarrow> do {
          r \<leftarrow> ExecuteQuery sv c sql;
          x \<leftarrow> (case r of None \<Rightarrow> ret dflt | Some rows \<Rightarrow> foldM f dflt rows);
          rel_conn c;
          ret x }) }"

subsection \<open>Users\<close>

definition changed_row :: "u32 \<times> u32 list \<Rightarrow> row \<Rightarrow> ('w, 'm, u32 \<times> u32 list) db" where
  "changed_row = (\<lambda>(nLastTime, lsIds) row. do {
     i \<leftarrow> GetInt row ''id'';
     nUpdated \<leftarrow> GetInt row ''updated'';
     ret (if nLastTime < nUpdated then nUpdated else nLastTime, lsIds @ [i]) })"

definition getChangedId :: "'w services \<Rightarrow> u32 \<Rightarrow> ('w, 'm, u32 \<times> u32 list) db" where
  "getChangedId sv nLastTime = slave_query sv
     (if nLastTime = 0 then str ''select id, updated from IMUser where status != 3''
      else str ''select id, updated from IMUser where updated>='' @ int2string nLastTime)
     (nLastTime, []) changed_row"

definition read_user :: "im_user_info list \<Rightarrow> row \<Rightarrow> ('w, 'm, im_user_info list) db" where
  "read_user lsUsers row = do {
     i \<leftarrow> GetInt row ''id'';
     sex \<leftarrow> GetInt row ''sex'';
     nick \<leftarrow> GetText row ''nick'';
     domain \<leftarrow> GetText row ''domain'';
     name \<leftarrow> GetText row ''name'';
     phone \<leftarrow> GetText row ''phone'';
     email \<leftarrow> GetText row ''email'';
     avatar \<leftarrow> GetText row ''avatar'';
     sign_info \<leftarrow> GetText row ''sign_info'';
     departId \<leftarrow> GetInt row ''departId'';
     status \<leftarrow> GetInt row ''status'';
     ret (lsUsers @ [\<lparr>ui_user_id = i, ui_user_gender = sex, ui_user_nick_name = nick, ui_avatar_url = avatar,
       ui_department_id = departId, ui_email = email, ui_user_real_name = name, ui_user_tel = phone,
       ui_user_domain = domain, ui_status = status, ui_sign_info = sign_info\<rparr>]) }"

definition getUsers :: "'w services \<Rightarrow> u32 list \<Rightarrow> ('w, 'm, im_user_info list) db" where
  "getUsers sv lsIds =
     (if lsIds = [] then ret []
      else slave_query sv (str ''select * from IMUser where id in ('' @ id_clause lsIds @ str '')'') [] read_user)"

definition getUser :: "'w services \<Rightarrow> u32 \<Rightarrow> ('w, 'm, DBUserInfo_t option) db" where
  "getUser sv nUserId = slave_query sv (str ''select * from IMUser where id='' @ int2string nUserId) None (\<lambda>_ row. do {
     i \<leftarrow> GetInt row ''id'';
     sex \<leftarrow> GetInt row ''sex'';
     nick \<leftarrow> GetText row ''nick'';
     domain \<leftarrow> GetText row ''domain'';
     name \<leftarrow> GetText row ''name'';
     phone \<leftarrow> GetText row ''phone'';
     email \<leftarrow> GetText row ''email'';
     avatar \<leftarrow> GetText row ''avatar'';
     sign_info \<leftarrow> GetText row ''sign_info'';
     departId \<leftarrow> GetInt row ''departId'';
     status \<leftarrow> GetInt row ''status'';
     ret (Some \<lparr>du_nId = i, du_nSex = ucast sex, du_nStatus = ucast status, du_nDeptId = departId, du_strNick = nick,
       du_strDomain = domain, du_strName = name, du_strTel = phone, du_strEmail = email, du_strAvatar = avatar,
       du_sign_info = sign_info\<rparr>) })"

definition quoted :: "bytes \<Rightarrow> bytes" where
  "quoted s = [39] @ s @ [39]"

definition updateUser_sql :: "DBUserInfo_t \<Rightarrow> u32 \<Rightarrow> bytes" where
  "updateUser_sql cUser nNow = str ''update IMUser set `sex`='' @ int2string (ucast (du_nSex cUser)) @
     str '', `nick`='' @ quoted (du_strNick cUser) @ str '', `domain`='' @ quoted (du_strDomain cUser) @
     str '', `name`='' @ quoted (du_strName cUser) @ str '', `phone`='' @ quoted (du_strTel cUser) @
     str '', `email`='' @ quoted (du_strEmail cUser) @ str '', `avatar`='' @ quoted (du_strAvatar cUser) @
     str '', `sign_info`='' @ quoted (du_sign_info cUser) @
     str '', `departId`='' @ quoted (int2string (du_nDeptId cUser)) @ str '', `status`='' @ int2string (ucast (du_nStatus cUser)) @
     str '', `updated`='' @ int2string nNow @ str '' where id='' @ int2string (du_nId cUser)"

text \<open>A statement that carries the time at which the connection was taken.\<close>

definition master_update_at :: "'w services \<Rightarrow> (u32 \<Rightarrow> bytes) \<Rightarrow> ('w, 'm, bool) db" where
  "master_update_at sv sql = do {
     pDBConn \<leftarrow> GetDBConn sv ''teamtalk_master'';
     (case pDBConn of
        None \<Rightarrow> ret False
      | Some c \<Rightarrow> do { nNow \<leftarrow> time_now sv; bRet \<leftarrow> ExecuteUpdate sv c (c_str (sql nNow)); rel_conn c; ret bRet }) }"

definition updateUser :: "'w services \<Rightarrow> DBUserInfo_t \<Rightarrow> ('w, 'm, bool) db" where
  "updateUser sv cUser = master_update_at sv (updateUser_sql cUser)"

text \<open>An insertion on one connection to the master: the parameters carry the time after the preparation.\<close>

definition master_insert_at :: "'w services \<Rightarrow> bytes \<Rightarrow> (u32 \<Rightarrow> sql_param list) \<Rightarrow> ('w, 'm, bool) db" where
  "master_insert_at sv sql vs = do {
     pDBConn \<leftarrow> GetDBConn sv ''teamtalk_master'';
     (case pDBConn of
        None \<Rightarrow> ret False
      | Some c \<Rightarrow> do {
          st \<leftarrow> StmtInit sv c sql;
          bRet \<leftarrow> (case st of
              None \<Rightarrow> ret False
            | Some st \<Rightarrow> do { nNow \<leftarrow> time_now sv; StmtExecuteUpdate sv (SetParams (vs nNow) st) });
          rel_conn c;
          ret bRet }) }"

definition insertUser :: "'w services \<Rightarrow> DBUserInfo_t \<Rightarrow> ('w, 'm, bool) db" where
  "insertUser sv cUser = master_insert_at sv
     (str ''insert into IMUser(`id`,`sex`,`nick`,`domain`,`name`,`phone`,`email`,`avatar`,`sign_info`,`departId`,`status`,`created`,`updated`) values(?,?,?,?,?,?,?,?,?,?,?,?)'')
     (\<lambda>nNow. [PInt (du_nId cUser), PInt (ucast (du_nSex cUser)), PStr (du_strNick cUser), PStr (du_strDomain cUser), PStr (du_strName cUser),
       PStr (du_strTel cUser), PStr (du_strEmail cUser), PStr (du_strAvatar cUser), PStr (du_sign_info cUser),
       PInt (du_nDeptId cUser), PInt (ucast (du_nStatus cUser)), PInt nNow, PInt nNow])"

definition setCallReport :: "'w services \<Rightarrow> u32 \<Rightarrow> u32 \<Rightarrow> u32 \<Rightarrow> ('w, 'm, unit) db" where
  "setCallReport sv nUserId nPeerId nClientType =
     (if ClientType_IsValid nClientType then do {
        master_insert_at sv
          (str ''insert into IMCallSPDLOG_ERROR`userId`, `peerId`, `clientType`,`created`,`updated`) values(?,?,?,?,?)'')
          (\<lambda>nNow. [PInt nUserId, PInt nPeerId, PInt nClientType, PInt nNow, PInt nNow]);
        ret () }
      else ret ())"

text \<open>\<open>CSyncCenter\<close>: the time of the last change, kept in redis too.\<close>

definition updateTotalUpdate :: "'w services \<Rightarrow> u32 \<Rightarrow> ('w, 'm, unit) db" where
  "updateTotalUpdate sv nUpdated = with_cache sv ''unread'' () (\<lambda>c. do {
     change (\<lambda>s. s\<lparr>m_nLastUpdate := nUpdated\<rparr>);
     cache_set sv c (str ''total_user_update'') (int2string nUpdated);
     ret () })"

definition updateLastUpdateGroup :: "'w services \<Rightarrow> u32 \<Rightarrow> ('w, 'm, unit) db" where
  "updateLastUpdateGroup sv nUpdated = with_cache sv ''unread'' () (\<lambda>c. do {
     change (\<lambda>s. s\<lparr>m_nLastUpdateGroup := nUpdated\<rparr>);
     cache_set sv c (str ''last_update_group'') (int2string nUpdated);
     ret () })"

definition updateUserSignInfo :: "'w services \<Rightarrow> u32 \<Rightarrow> bytes \<Rightarrow> ('w, 'm, bool) db" where
  "updateUserSignInfo sv user_id sign_info =
     (if length sign_info > 128 then ret False
      else do {
        pDBConn \<leftarrow> GetDBConn sv ''teamtalk_master'';
        (case pDBConn of
           None \<Rightarrow> ret False
         | Some c \<Rightarrow> do {
             t \<leftarrow> time_now sv;
             rv \<leftarrow> ExecuteUpdate sv c (c_str (str ''update IMUser set `sign_info`='' @ quoted sign_info @
               str '', `updated`='' @ int2string t @ str '' where id='' @ int2string user_id));
             (if \<not> rv then ret () else updateTotalUpdate sv t);
             rel_conn c;
             ret rv }) })"

definition first_row :: "'w services \<Rightarrow> bytes \<Rightarrow> (row \<Rightarrow> ('w, 'm, 'a) db) \<Rightarrow> ('w, 'm, 'a option) db" where
  "first_row sv sql f = do {
     pDBConn \<leftarrow> GetDBConn sv ''teamtalk_slave'';
     (case pDBConn of
        None \<Rightarrow> ret None
      | Some c \<Rightarrow> do {
          r \<leftarrow> ExecuteQuery sv c sql;
          x \<leftarrow> (case r of Some (row # _) \<Rightarrow> do { x \<leftarrow> f row; ret (Some x) } | _ \<Rightarrow> ret None);
          rel_conn c;
          ret x }) }"

definition getUserSingInfo :: "'w services \<Rightarrow> u32 \<Rightarrow> ('w, 'm, bytes option) db" where
  "getUserSingInfo sv user_id = first_row sv (str ''select sign_info from IMUser where id='' @ int2string user_id)
     (\<lambda>row. GetText row ''sign_info'')"

definition updatePushShield :: "'w services \<Rightarrow> u32 \<Rightarrow> u32 \<Rightarrow> ('w, 'm, bool) db" where
  "updatePushShield sv user_id shield_status = master_update_at sv (\<lambda>t.
     str ''update IMUser set `push_shield_status`='' @ int2string shield_status @ str '', `updated`='' @ int2string t @
     str '' where id='' @ int2string user_id)"

definition getPushShield :: "'w services \<Rightarrow> u32 \<Rightarrow> ('w, 'm, u32 option) db" where
  "getPushShield sv user_id = first_row sv (str ''select push_shield_status from IMUser where id='' @ int2string user_id)
     (\<lambda>row. GetInt row ''push_shield_status'')"

subsection \<open>Departments and offline files\<close>

definition getChgedDeptId :: "'w services \<Rightarrow> u32 \<Rightarrow> ('w, 'm, u32 \<times> u32 list) db" where
  "getChgedDeptId sv nLastTime = slave_query sv (str ''select id, updated from IMDepart where updated > '' @ int2string nLastTime)
     (nLastTime, []) changed_row"

definition read_dept :: "depart_info list \<Rightarrow> row \<Rightarrow> ('w, 'm, depart_info list) db" where
  "read_dept lsDepts row = do {
     i \<leftarrow> GetInt row ''id'';
     parent \<leftarrow> GetInt row ''parentId'';
     name \<leftarrow> GetText row ''departName'';
     status \<leftarrow> GetInt row ''status'';
     priority \<leftarrow> GetInt row ''priority'';
     ret (if DepartmentStatusType_IsValid status then lsDepts @ [\<lparr>di_dept_id = i, di_priority = priority,
       di_dept_name = name, di_parent_dept_id = parent, di_dept_status = status\<rparr>] else lsDepts) }"

definition getDepts :: "'w services \<Rightarrow> u32 list \<Rightarrow> ('w, 'm, depart_info list) db" where
  "getDepts sv lsDeptIds =
     (if lsDeptIds = [] then ret []
      else slave_query sv (str ''select * from IMDepart where id in ( '' @ id_clause lsDeptIds @ str '' )'') [] read_dept)"

text \<open>One department, over the caller's; the last row with a valid status counts.\<close>

definition getDept :: "'w services \<Rightarrow> u32 \<Rightarrow> depart_info \<Rightarrow> ('w, 'm, depart_info) db" where
  "getDept sv nDeptId cDept = slave_query sv (str ''select * from IMDepart where id = '' @ int2string nDeptId) cDept
     (\<lambda>cDept row. do {
        ds \<leftarrow> read_dept [] row;
        ret (case ds of [] \<Rightarrow> cDept | d # _ \<Rightarrow> d) })"

definition read_offline :: "offline_file_info list \<Rightarrow> row \<Rightarrow> ('w, 'm, offline_file_info list) db" where
  "read_offline lsOffline row = do {
     i \<leftarrow> GetInt row ''fromId'';
     taskId \<leftarrow> GetText row ''taskId'';
     fileName \<leftarrow> GetText row ''fileName'';
     size \<leftarrow> GetInt row ''size'';
     ret (lsOffline @ [\<lparr>of_from_user_id = i, of_task_id = taskId, of_file_name = fileName, of_file_size = size\<rparr>]) }"

definition getOfflineFile :: "'w services \<Rightarrow> u32 \<Rightarrow> ('w, 'm, offline_file_info list) db" where
  "getOfflineFile sv userId = slave_query sv (str ''select * from IMTransmitFile where toId='' @ int2string userId @
     str '' and status=0 order by created'') [] read_offline"

definition model_addOfflineFile :: "'w services \<Rightarrow> u32 \<Rightarrow> u32 \<Rightarrow> bytes \<Rightarrow> bytes \<Rightarrow> u32 \<Rightarrow> ('w, 'm, unit) db" where
  "model_addOfflineFile sv fromId toId taskId fileName fileSize = do {
     master_insert_at sv
       (str ''insert into IMTransmitFile (`fromId`,`toId`,`fileName`,`size`,`taskId`,`status`,`created`,`updated`) values(?,?,?,?,?,?,?,?)'')
       (\<lambda>nCreated. [PInt fromId, PInt toId, PStr fileName, PInt fileSize, PStr taskId, PInt 0, PInt nCreated, PInt nCreated]);
     ret () }"

definition model_delOfflineFile :: "'w services \<Rightarrow> u32 \<Rightarrow> u32 \<Rightarrow> bytes \<Rightarrow> ('w, 'm, unit) db" where
  "model_delOfflineFile sv fromId toId taskId = do {
     master_update sv (c_str (str ''delete from IMTransmitFile where  fromId='' @ int2string fromId @ str '' and toId='' @
       int2string toId @ str '' and taskId='' @ quoted taskId));
     ret () }"

subsection \<open>Login\<close>

text \<open>
  \<open>CInterloginStrategy::dologin\<close>. The last row counts; \<open>md5\<close> is the hexadecimal digest. Without a row the password is
  compared with the empty text, and the user, should it match, is uninitialized.
\<close>

definition junk_user :: "'w services \<Rightarrow> im_user_info" where
  "junk_user sv = \<lparr>ui_user_id = sv_junk sv, ui_user_gender = sv_junk sv, ui_user_nick_name = [], ui_avatar_url = [],
     ui_department_id = sv_junk sv, ui_email = [], ui_user_real_name = [], ui_user_tel = [], ui_user_domain = [],
     ui_status = sv_junk sv, ui_sign_info = []\<rparr>"

definition check_password :: "'w services \<Rightarrow> (bytes \<Rightarrow> bytes) \<Rightarrow> bytes \<Rightarrow> row list \<Rightarrow> ('w, 'm, im_user_info option) db" where
  "check_password sv md5 pass rows = do {
     found \<leftarrow> foldM (\<lambda>_ row. do {
       result \<leftarrow> GetText row ''password'';
       salt \<leftarrow> GetText row ''salt'';
       us \<leftarrow> read_user [] row;
       ret (result, salt, Some (hd us)) }) ([], [], None) rows;
     (case found of (result, salt, user) \<Rightarrow>
        if c_str (md5 (pass @ salt)) = result then
          (case user of Some u \<Rightarrow> ret (Some u) | None \<Rightarrow> do { defect Uninitialized; ret (Some (junk_user sv)) })
        else ret None) }"

definition dologin_strategy :: "'w services \<Rightarrow> (bytes \<Rightarrow> bytes) \<Rightarrow> bytes \<Rightarrow> bytes \<Rightarrow> ('w, 'm, im_user_info option) db" where
  "dologin_strategy sv md5 name pass = do {
     pDBConn \<leftarrow> GetDBConn sv ''teamtalk_slave'';
     (case pDBConn of
        None \<Rightarrow> ret None
      | Some c \<Rightarrow> do {
          r \<leftarrow> ExecuteQuery sv c (str ''select * from IMUser where name='' @ quoted (c_str (EscapeString sv name)) @
            str '' and status=0'');
          u \<leftarrow> (case r of None \<Rightarrow> ret None | Some rows \<Rightarrow> check_password sv md5 pass rows);
          rel_conn c;
          ret u }) }"

end
