(* ===== verification/Db_Action.thy ===== *)
theory Db_Action
  imports Db_User
begin

text \<open>
  The requests of the database proxy (\<open>db_proxy_server/business\<close>: \<open>Login.cpp\<close>, \<open>RecentSession.cpp\<close>, \<open>UserAction.cpp\<close>,
  \<open>DepartAction.cpp\<close>, \<open>MessageContent.cpp\<close>, \<open>MessageCounter.cpp\<close>, \<open>GroupAction.cpp\<close>, \<open>FileAction.cpp\<close>) and the table of
  \<open>db_proxy_server/HandlerMap.cpp\<close>. A handler parses the body of a PDU, runs the queries, and leaves its answer for the
  connection of the request. The parsers of the generated protobuf code are the fields of \<open>db_parsers\<close>.
\<close>

definition SID_LOGIN :: u16 where "SID_LOGIN = 1"
definition SID_BUDDY_LIST :: u16 where "SID_BUDDY_LIST = 2"
definition SID_MSG :: u16 where "SID_MSG = 3"
definition SID_GROUP :: u16 where "SID_GROUP = 4"
definition SID_FILE :: u16 where "SID_FILE = 5"
definition SID_OTHER :: u16 where "SID_OTHER = 7"

record im_msg_data =
  im_from_user_id :: u32
  im_to_session_id :: u32
  im_msg_id :: u32
  im_create_time :: u32
  im_msg_type :: u32
  im_msg_data :: bytes
  im_attach_data :: bytes

record user_token =
  ut_user_id :: u32
  ut_token :: bytes
  ut_user_type :: u32
  ut_push_count :: u32
  ut_push_type :: u32

text \<open>The fields of a request in the order in which its handler reads them, the attached data last.\<close>

record db_parsers =
  p_validate :: "bytes \<Rightarrow> (bytes \<times> bytes \<times> bytes) option"
  p_push_shield :: "bytes \<Rightarrow> (u32 \<times> u32 \<times> bytes) option"
  p_query_push_shield :: "bytes \<Rightarrow> (u32 \<times> bytes) option"
  p_recent_session :: "bytes \<Rightarrow> (u32 \<times> u32 \<times> bytes) option"
  p_remove_session :: "bytes \<Rightarrow> (u32 \<times> u32 \<times> u32 \<times> bytes) option"
  p_users_info :: "bytes \<Rightarrow> (u32 \<times> u32 list \<times> bytes) option"
  p_all_user :: "bytes \<Rightarrow> (u32 \<times> u32 \<times> bytes) option"
  p_department :: "bytes \<Rightarrow> (u32 \<times> u32 \<times> bytes) option"
  p_sign_info :: "bytes \<Rightarrow> (u32 \<times> bytes \<times> bytes) option"
  p_msg_data :: "bytes \<Rightarrow> im_msg_data option"
  p_msg_list :: "bytes \<Rightarrow> (u32 \<times> u32 \<times> u32 \<times> u32 \<times> u32 \<times> bytes) option"
  p_unread :: "bytes \<Rightarrow> (u32 \<times> bytes) option"
  p_read_ack :: "bytes \<Rightarrow> (u32 \<times> u32 \<times> u32) option"
  p_msg_by_id :: "bytes \<Rightarrow> (u32 \<times> u32 \<times> u32 \<times> u32 list \<times> bytes) option"
  p_latest_msg_id :: "bytes \<Rightarrow> (u32 \<times> u32 \<times> u32 \<times> bytes) option"
  p_device_token :: "bytes \<Rightarrow> (u32 \<times> bytes \<times> u32 \<times> bytes) option"
  p_get_device_token :: "bytes \<Rightarrow> (u32 list \<times> bytes) option"
  p_group_list :: "bytes \<Rightarrow> (u32 \<times> bytes) option"
  p_group_info :: "bytes \<Rightarrow> (u32 \<times> group_version list \<times> bytes) option"
  p_group_create :: "bytes \<Rightarrow> (u32 \<times> bytes \<times> u32 \<times> bytes \<times> u32 list \<times> bytes) option"
  p_group_change :: "bytes \<Rightarrow> (u32 \<times> u32 \<times> u32 \<times> u32 list \<times> bytes) option"
  p_group_shield :: "bytes \<Rightarrow> (u32 \<times> u32 \<times> u32 \<times> bytes) option"
  p_get_shield :: "bytes \<Rightarrow> (u32 \<times> u32 list \<times> bytes) option"
  p_has_offline :: "bytes \<Rightarrow> (u32 \<times> bytes) option"
  p_add_offline :: "bytes \<Rightarrow> (u32 \<times> u32 \<times> bytes \<times> bytes \<times> u32) option"
  p_del_offline :: "bytes \<Rightarrow> (u32 \<times> u32 \<times> bytes) option"

record db_config =
  strFileSite :: bytes
  strAudioEnc :: bytes
  md5_hex :: "bytes \<Rightarrow> bytes"

datatype db_rsp =
    RspValidate bytes u32 bytes "im_user_info option" bytes
  | RspPushShield u32 u32 u32 bytes
  | RspQueryPushShield u32 u32 u32 bytes
  | RspRecentSession u32 "contact_info list" bytes
  | RspRemoveSession u32 u32 u32 u32 bytes
  | RspUsersInfo u32 "im_user_info list" bytes
  | RspAllUser u32 u32 "im_user_info list" bytes
  | RspDepartment u32 u32 "depart_info list" bytes
  | RspSignInfo u32 u32 bytes bytes
  | RspMsgData im_msg_data
  | RspMsgList u32 u32 u32 u32 "msg_info list" bytes
  | RspUnread u32 u32 "unread_info list" bytes
  | RspMsgById u32 u32 u32 "msg_info list" bytes
  | RspLatestMsgId u32 u32 u32 u32 bytes
  | RspDeviceToken u32 bytes
  | RspGetDeviceToken "user_token list" bytes
  | RspGroupList u32 "group_version list" bytes
  | RspGroupInfo u32 "group_info list" bytes
  | RspGroupCreate u32 u32 u32 bytes "u32 list" bytes
  | RspGroupChange u32 u32 u32 u32 "u32 list" "u32 list" bytes
  | RspGroupShield u32 u32 u32 bytes
  | RspGetShield u32 "shield_status list" bytes
  | RspHasOffline u32 "offline_file_info list" bytes

type_synonym 'w handler = "in_pdu \<Rightarrow> u32 \<Rightarrow> ('w, db_rsp, unit) db"

definition AddResponsePdu :: "u32 \<Rightarrow> in_pdu \<Rightarrow> u16 \<Rightarrow> u16 \<Rightarrow> db_rsp \<Rightarrow> ('w, db_rsp, unit) db" where
  "AddResponsePdu conn_uuid pPdu sid cid m = change (\<lambda>s. s\<lparr>answers := answers s @
     [\<lparr>an_uuid = conn_uuid, an_seq = in_seq pPdu, an_service = sid, an_cid = cid, an_msg = m\<rparr>]\<rparr>)"

subsection \<open>Login\<close>

definition too_many_errors_text :: bytes where
  "too_many_errors_text = [231, 148, 168, 230, 136, 183, 229, 144, 141, 47, 229, 175, 134, 231, 160, 129, 233, 148, 153,
     232, 175, 175, 230, 172, 161, 230, 149, 176, 229, 164, 170, 229, 164, 154]"
definition success_text :: bytes where
  "success_text = [230, 136, 144, 229, 138, 159]"
definition wrong_password_text :: bytes where
  "wrong_password_text = [231, 148, 168, 230, 136, 183, 229, 144, 141, 47, 229, 175, 134, 231, 160, 129, 233, 148, 153,
     232, 175, 175]"
definition internal_error_text :: bytes where
  "internal_error_text = [230, 156, 141, 229, 138, 161, 231, 171, 175, 229, 134, 133, 233, 131, 168, 233, 148, 153, 232,
     175, 175]"

definition kTimeLimit :: u32 where "kTimeLimit = 300"

text \<open>
  The times of the failed logins of a name, the latest first. With more than ten of them, the login is refused
  when the latest is not older than five minutes. The front of an empty list is undefined.
\<close>

definition check_limit :: "'w services \<Rightarrow> bytes \<Rightarrow> ('w, 'm, bool) db" where
  "check_limit sv strDomain = do {
     tmNow \<leftarrow> time_now sv;
     s \<leftarrow> State_Monad.get;
     let lsErrorTime = g_hmLimits s strDomain;
     if length lsErrorTime > 10 then do {
       let temp_list = filter (\<lambda>t. tmNow - t < kTimeLimit) lsErrorTime;
       last_error_time \<leftarrow> (case temp_list of
           [] \<Rightarrow> do { defect OutOfRange; ret (sv_junk sv) }
         | t # _ \<Rightarrow> ret t);
       if tmNow - last_error_time \<le> kTimeLimit then do {
         let temp_list = (if length temp_list > 10 then butlast temp_list else temp_list);
         change (\<lambda>s. s\<lparr>g_hmLimits := (g_hmLimits s)(strDomain := tmNow # temp_list)\<rparr>);
         ret True }
       else do { change (\<lambda>s. s\<lparr>g_hmLimits := (g_hmLimits s)(strDomain := [])\<rparr>); ret False } }
     else ret False }"

definition dologin :: "'w services \<Rightarrow> db_config \<Rightarrow> db_parsers \<Rightarrow> 'w handler" where
  "dologin sv cf dp pPdu conn_uuid = (case p_validate dp (in_body pPdu) of
       None \<Rightarrow> AddResponsePdu conn_uuid pPdu SID_OTHER CID_OTHER_VALIDATE_RSP (RspValidate [] 2 internal_error_text None [])
     | Some (strDomain, strPass, attach_data) \<Rightarrow> do {
         refused \<leftarrow> check_limit sv strDomain;
         if refused then
           AddResponsePdu conn_uuid pPdu SID_OTHER CID_OTHER_VALIDATE_RSP
             (RspValidate strDomain 6 too_many_errors_text None attach_data)
         else do {
           u \<leftarrow> dologin_strategy sv (md5_hex cf) strDomain strPass;
           (case u of
              Some cUser \<Rightarrow> do {
                change (\<lambda>s. s\<lparr>g_hmLimits := (g_hmLimits s)(strDomain := [])\<rparr>);
                AddResponsePdu conn_uuid pPdu SID_OTHER CID_OTHER_VALIDATE_RSP
                  (RspValidate strDomain 0 success_text (Some (cUser\<lparr>ui_status := 0\<rparr>)) attach_data) }
            | None \<Rightarrow> do {
                tmCurrent \<leftarrow> time_now sv;
                change (\<lambda>s. s\<lparr>g_hmLimits := (g_hmLimits s)(strDomain := tmCurrent # g_hmLimits s strDomain)\<rparr>);
                AddResponsePdu conn_uuid pPdu SID_OTHER CID_OTHER_VALIDATE_RSP
                  (RspValidate strDomain 1 wrong_password_text None attach_data) }) } })"

definition doPushShield :: "'w services \<Rightarrow> db_parsers \<Rightarrow> 'w handler" where
  "doPushShield sv dp pPdu conn_uuid = (case p_push_shield dp (in_body pPdu) of
       None \<Rightarrow> ret ()
     | Some (user_id, shield_status, attach_data) \<Rightarrow> do {
         result \<leftarrow> updatePushShield sv user_id shield_status;
         AddResponsePdu conn_uuid pPdu SID_LOGIN CID_LOGIN_RES_PUSH_SHIELD
           (RspPushShield user_id (if result then 0 else 1) (if result then shield_status else 0) attach_data) })"

definition doQueryPushShield :: "'w services \<Rightarrow> db_parsers \<Rightarrow> 'w handler" where
  "doQueryPushShield sv dp pPdu conn_uuid = (case p_query_push_shield dp (in_body pPdu) of
       None \<Rightarrow> ret ()
     | Some (user_id, attach_data) \<Rightarrow> do {
         result \<leftarrow> getPushShield sv user_id;
         AddResponsePdu conn_uuid pPdu SID_LOGIN CID_LOGIN_RES_QUERY_PUSH_SHIELD
           (RspQueryPushShield user_id (if result \<noteq> None then 0 else 1)
             (case result of Some shield_status \<Rightarrow> shield_status | None \<Rightarrow> 0) attach_data) })"

subsection \<open>Sessions and users\<close>

definition do_getRecentSession :: "'w services \<Rightarrow> db_config \<Rightarrow> db_parsers \<Rightarrow> 'w handler" where
  "do_getRecentSession sv cf dp pPdu conn_uuid = (case p_recent_session dp (in_body pPdu) of
       None \<Rightarrow> ret ()
     | Some (nUserId, nLastTime, attach_data) \<Rightarrow> do {
         lsContactList \<leftarrow> getRecentSession sv (strAudioEnc cf) nUserId nLastTime;
         AddResponsePdu conn_uuid pPdu SID_BUDDY_LIST CID_BUDDY_LIST_RECENT_CONTACT_SESSION_RESPONSE
           (RspRecentSession nUserId lsContactList attach_data) })"

definition deleteRecentSession :: "'w services \<Rightarrow> db_parsers \<Rightarrow> 'w handler" where
  "deleteRecentSession sv dp pPdu conn_uuid = (case p_remove_session dp (in_body pPdu) of
       None \<Rightarrow> ret ()
     | Some (nUserId, nPeerId, nType, attach_data) \<Rightarrow>
         if SessionType_IsValid nType then do {
           nSessionId \<leftarrow> getSessionId sv nUserId nPeerId nType False;
           bRet \<leftarrow> (if nSessionId \<noteq> INVALID_VALUE then do {
               bRet \<leftarrow> removeSession sv nSessionId;
               (if bRet then clearUserCounter sv nUserId nPeerId nType else ret ());
               ret bRet }
             else ret False);
           AddResponsePdu conn_uuid pPdu SID_BUDDY_LIST CID_BUDDY_LIST_REMOVE_SESSION_RES
             (RspRemoveSession nUserId nPeerId nType (if bRet then 0 else 1) attach_data) }
         else ret ())"

definition do_getUserInfo :: "'w services \<Rightarrow> db_parsers \<Rightarrow> 'w handler" where
  "do_getUserInfo sv dp pPdu conn_uuid = (case p_users_info dp (in_body pPdu) of
       None \<Rightarrow> ret ()
     | Some (from_user_id, idList, attach_data) \<Rightarrow> do {
         lsUser \<leftarrow> getUsers sv idList;
         AddResponsePdu conn_uuid pPdu SID_BUDDY_LIST CID_BUDDY_LIST_USER_INFO_RESPONSE
           (RspUsersInfo from_user_id lsUser attach_data) })"

definition getChangedUser :: "'w services \<Rightarrow> db_parsers \<Rightarrow> 'w handler" where
  "getChangedUser sv dp pPdu conn_uuid = (case p_all_user dp (in_body pPdu) of
       None \<Rightarrow> ret ()
     | Some (nReqId, nLastTime, attach_data) \<Rightarrow> do {
         s \<leftarrow> State_Monad.get;
         r \<leftarrow> (if m_nLastUpdate s > nLastTime then do {
             c \<leftarrow> getChangedId sv nLastTime;
             lsUsers \<leftarrow> getUsers sv (snd c);
             ret (fst c, lsUsers) }
           else ret (nLastTime, []));
         AddResponsePdu conn_uuid pPdu SID_BUDDY_LIST CID_BUDDY_LIST_ALL_USER_RESPONSE
           (RspAllUser nReqId (fst r) (snd r) attach_data) })"

definition getChgedDepart :: "'w services \<Rightarrow> db_parsers \<Rightarrow> 'w handler" where
  "getChgedDepart sv dp pPdu conn_uuid = (case p_department dp (in_body pPdu) of
       None \<Rightarrow> ret ()
     | Some (nUserId, nLastUpdate, attach_data) \<Rightarrow> do {
         c \<leftarrow> getChgedDeptId sv nLastUpdate;
         lsDeparts \<leftarrow> getDepts sv (snd c);
         AddResponsePdu conn_uuid pPdu SID_BUDDY_LIST CID_BUDDY_LIST_DEPARTMENT_RESPONSE
           (RspDepartment nUserId (fst c) lsDeparts attach_data) })"

definition changeUserSignInfo :: "'w services \<Rightarrow> db_parsers \<Rightarrow> 'w handler" where
  "changeUserSignInfo sv dp pPdu conn_uuid = (case p_sign_info dp (in_body pPdu) of
       None \<Rightarrow> ret ()
     | Some (user_id, sign_info, attach_data) \<Rightarrow> do {
         result \<leftarrow> updateUserSignInfo sv user_id sign_info;
         AddResponsePdu conn_uuid pPdu SID_BUDDY_LIST CID_BUDDY_LIST_CHANGE_SIGN_INFO_RESPONSE
           (RspSignInfo user_id (if result then 0 else 1) (if result then sign_info else []) attach_data) })"

subsection \<open>Messages\<close>

definition do_getMessage :: "'w services \<Rightarrow> db_parsers \<Rightarrow> 'w handler" where
  "do_getMessage sv dp pPdu conn_uuid = (case p_msg_list dp (in_body pPdu) of
       None \<Rightarrow> ret ()
     | Some (nUserId, nPeerId, nMsgId, nMsgCnt, nSessionType, attach_data) \<Rightarrow>
         if SessionType_IsValid nSessionType then do {
           lsMsg \<leftarrow> (if nSessionType = SESSION_TYPE_SINGLE then getMessage sv nUserId nPeerId nMsgId nMsgCnt
               else if nSessionType = SESSION_TYPE_GROUP then do {
                 b \<leftarrow> isInGroup sv nUserId nPeerId;
                 (if b then group_getMessage sv nUserId nPeerId nMsgId nMsgCnt else ret []) }
               else ret []);
           AddResponsePdu conn_uuid pPdu SID_MSG CID_MSG_LIST_RESPONSE
             (RspMsgList nUserId nPeerId nMsgId nSessionType lsMsg attach_data) }
         else ret ())"

text \<open>
  The two kinds of messages; the result is the id of the message, \<open>None\<close> when there is no answer. \<open>send\<close> stores the
  message under its id. In the branch for single users the new session of the peer is assigned to \<open>nSessionId\<close>.
\<close>

definition send_to_group :: "'w services \<Rightarrow> u32 \<Rightarrow> u32 \<Rightarrow> u32 \<Rightarrow> (u32 \<Rightarrow> ('w, 'm, bool) db) \<Rightarrow> ('w, 'm, u32 option) db" where
  "send_to_group sv nFromId nToId nNow send = do {
     valid \<leftarrow> isValidateGroupId sv nToId;
     inside \<leftarrow> (if valid then isInGroup sv nFromId nToId else ret False);
     if valid \<and> inside then do {
       nSessionId \<leftarrow> getSessionId sv nFromId nToId SESSION_TYPE_GROUP False;
       nSessionId \<leftarrow> (if INVALID_VALUE = nSessionId then addSession sv nFromId nToId SESSION_TYPE_GROUP else ret nSessionId);
       if nSessionId \<noteq> INVALID_VALUE then do {
         nMsgId \<leftarrow> group_getMsgId sv nToId;
         (if nMsgId \<noteq> INVALID_VALUE then do { send nMsgId; updateSession sv nSessionId nNow; ret () } else ret ());
         ret (Some nMsgId) }
       else ret (Some INVALID_VALUE) }
     else ret None }"

definition send_to_user :: "'w services \<Rightarrow> u32 \<Rightarrow> u32 \<Rightarrow> u32 \<Rightarrow> (u32 \<Rightarrow> u32 \<Rightarrow> ('w, 'm, bool) db) \<Rightarrow> ('w, 'm, u32 option) db" where
  "send_to_user sv nFromId nToId nNow send =
     (if nFromId \<noteq> nToId then do {
        nSessionId \<leftarrow> getSessionId sv nFromId nToId SESSION_TYPE_SINGLE False;
        nSessionId \<leftarrow> (if INVALID_VALUE = nSessionId then addSession sv nFromId nToId SESSION_TYPE_SINGLE else ret nSessionId);
        nPeerSessionId \<leftarrow> getSessionId sv nToId nFromId SESSION_TYPE_SINGLE False;
        nSessionId \<leftarrow> (if INVALID_VALUE = nPeerSessionId then addSession sv nToId nFromId SESSION_TYPE_SINGLE else ret nSessionId);
        nRelateId \<leftarrow> getRelationId sv nFromId nToId True;
        if nSessionId \<noteq> INVALID_VALUE \<and> nRelateId \<noteq> INVALID_VALUE then do {
          nMsgId \<leftarrow> getMsgId sv nRelateId;
          (if nMsgId \<noteq> INVALID_VALUE then do {
             send nRelateId nMsgId;
             updateSession sv nSessionId nNow;
             updateSession sv nPeerSessionId nNow;
             ret () }
           else ret ());
          ret (Some nMsgId) }
        else ret (Some INVALID_VALUE) }
      else ret (Some INVALID_VALUE))"

definition do_sendMessage :: "'w services \<Rightarrow> db_config \<Rightarrow> db_parsers \<Rightarrow> 'w handler" where
  "do_sendMessage sv cf dp pPdu conn_uuid = (case p_msg_data dp (in_body pPdu) of
       None \<Rightarrow> ret ()
     | Some msg \<Rightarrow> do {
         let nFromId = im_from_user_id msg;
         let nToId = im_to_session_id msg;
         let nCreateTime = im_create_time msg;
         let nMsgType = im_msg_type msg;
         let nMsgLen = (of_nat (length (im_msg_data msg)) :: u32);
         nNow \<leftarrow> time_now sv;
         if MsgType_IsValid nMsgType then
           if nMsgLen \<noteq> 0 then do {
             r \<leftarrow>
               (if nMsgType = MSG_TYPE_GROUP_TEXT then send_to_group sv nFromId nToId nNow (\<lambda>nMsgId.
                  group_sendMessage sv nFromId nToId nMsgType nCreateTime nMsgId (im_msg_data msg))
                else if nMsgType = MSG_TYPE_GROUP_AUDIO then send_to_group sv nFromId nToId nNow (\<lambda>nMsgId.
                  group_sendAudioMessage sv (strFileSite cf) nFromId nToId nMsgType nCreateTime nMsgId (im_msg_data msg) nMsgLen)
                else if nMsgType = MSG_TYPE_SINGLE_TEXT then send_to_user sv nFromId nToId nNow (\<lambda>nRelateId nMsgId.
                  sendMessage sv nRelateId nFromId nToId nMsgType nCreateTime nMsgId (im_msg_data msg))
                else if nMsgType = MSG_TYPE_SINGLE_AUDIO then send_to_user sv nFromId nToId nNow (\<lambda>nRelateId nMsgId.
                  sendAudioMessage sv (strFileSite cf) nRelateId nFromId nToId nMsgType nCreateTime nMsgId (im_msg_data msg) nMsgLen)
                else ret (Some INVALID_VALUE));
             (case r of
                None \<Rightarrow> ret ()
              | Some nMsgId \<Rightarrow>
                  AddResponsePdu conn_uuid pPdu SID_MSG CID_MSG_DATA (RspMsgData (msg\<lparr>im_msg_id := nMsgId\<rparr>))) }
           else ret ()
         else ret () })"

text \<open>The second test of \<open>getMessageById\<close> is of the constant \<open>SESSION_TYPE_GROUP\<close>, which is true.\<close>

definition getMessageById :: "'w services \<Rightarrow> db_parsers \<Rightarrow> 'w handler" where
  "getMessageById sv dp pPdu conn_uuid = (case p_msg_by_id dp (in_body pPdu) of
       None \<Rightarrow> ret ()
     | Some (nUserId, nType, nPeerId, lsMsgId, attach_data) \<Rightarrow>
         if SessionType_IsValid nType then do {
           lsMsg \<leftarrow> (if SESSION_TYPE_SINGLE = nType then getMsgByMsgId sv nUserId nPeerId lsMsgId
               else if SESSION_TYPE_GROUP \<noteq> 0 then group_getMsgByMsgId sv nUserId nPeerId lsMsgId
               else ret []);
           AddResponsePdu conn_uuid pPdu SID_MSG CID_MSG_GET_BY_MSG_ID_RES
             (RspMsgById nUserId nPeerId nType lsMsg attach_data) }
         else ret ())"

definition getLatestMsgId :: "'w services \<Rightarrow> db_config \<Rightarrow> db_parsers \<Rightarrow> 'w handler" where
  "getLatestMsgId sv cf dp pPdu conn_uuid = (case p_latest_msg_id dp (in_body pPdu) of
       None \<Rightarrow> ret ()
     | Some (nUserId, nType, nPeerId, attach_data) \<Rightarrow>
         if SessionType_IsValid nType then do {
           l \<leftarrow> (if SESSION_TYPE_SINGLE = nType
                then getLastMsg sv (strAudioEnc cf) nUserId nPeerId (Some INVALID_VALUE, [], None, None)
                else group_getLastMsg sv (strAudioEnc cf) nPeerId (Some INVALID_VALUE, [], None, Some INVALID_VALUE));
           nMsgId \<leftarrow> use_var sv (fst l);
           AddResponsePdu conn_uuid pPdu SID_MSG CID_MSG_GET_LATEST_MSG_ID_RSP
             (RspLatestMsgId nUserId nType nPeerId nMsgId attach_data) }
         else ret ())"

subsection \<open>Counters and device tokens\<close>

definition getUnreadMsgCounter :: "'w services \<Rightarrow> db_config \<Rightarrow> db_parsers \<Rightarrow> 'w handler" where
  "getUnreadMsgCounter sv cf dp pPdu conn_uuid = (case p_unread dp (in_body pPdu) of
       None \<Rightarrow> ret ()
     | Some (nUserId, attach_data) \<Rightarrow> do {
         acc \<leftarrow> getUnreadMsgCount sv (strAudioEnc cf) nUserId (0, []);
         acc \<leftarrow> group_getUnreadMsgCount sv (strAudioEnc cf) nUserId acc;
         AddResponsePdu conn_uuid pPdu SID_MSG CID_MSG_UNREAD_CNT_RESPONSE
           (RspUnread nUserId (fst acc) (snd acc) attach_data) })"

definition clearUnreadMsgCounter :: "'w services \<Rightarrow> db_parsers \<Rightarrow> 'w handler" where
  "clearUnreadMsgCounter sv dp pPdu conn_uuid = (case p_read_ack dp (in_body pPdu) of
       None \<Rightarrow> ret ()
     | Some (nUserId, nFromId, nSessionType) \<Rightarrow> clearUserCounter sv nUserId nFromId nSessionType)"

definition device_key :: "bytes \<Rightarrow> bytes" where
  "device_key x = str ''device_'' @ x"

definition setDevicesToken :: "'w services \<Rightarrow> db_parsers \<Rightarrow> 'w handler" where
  "setDevicesToken sv dp pPdu conn_uuid = (case p_device_token dp (in_body pPdu) of
       None \<Rightarrow> ret ()
     | Some (nUserId, strToken, nClientType, attach_data) \<Rightarrow> do {
         with_cache sv ''token'' () (\<lambda>c. do {
           let strValue = (if CLIENT_TYPE_IOS = nClientType then str ''ios:'' @ strToken
               else if CLIENT_TYPE_ANDROID = nClientType then str ''android:'' @ strToken else strToken);
           strOldValue \<leftarrow> cache_get sv c (device_key (int2string nUserId));
           (if strOldValue \<noteq> [] then
              (case find_string (str '':'') strOldValue of
                 None \<Rightarrow> ret ()
               | Some nPos \<Rightarrow> do {
                   let strOldToken = drop (nPos + 1) strOldValue;
                   strReply \<leftarrow> cache_get sv c (device_key strOldToken);
                   (if strReply \<noteq> [] then do { cache_set sv c (device_key strOldToken) []; ret () } else ret ()) })
            else ret ());
           cache_set sv c (device_key (int2string nUserId)) strValue;
           cache_set sv c (device_key strToken) (int2string nUserId);
           ret () });
         AddResponsePdu conn_uuid pPdu SID_LOGIN CID_LOGIN_RES_DEVICETOKEN (RspDeviceToken nUserId attach_data) })"

text \<open>The entry of one token: \<open>None\<close> when it is left out.\<close>

definition token_entry :: "'w services \<Rightarrow> bool \<Rightarrow> bytes \<Rightarrow> bytes \<Rightarrow> ('w, 'm, user_token option) db" where
  "token_entry sv is_check_shield_status strKey strValue =
     (case find_string (str ''device_'') strKey of
        None \<Rightarrow> ret None
      | Some nPos \<Rightarrow> do {
          let nUserId = string2int (drop (nPos + length (str ''device_'')) strKey);
          (case find_string (str '':'') strValue of
             None \<Rightarrow> ret None
           | Some nPos \<Rightarrow> do {
               let strType = take nPos strValue;
               let strToken = drop (nPos + 1) strValue;
               nClientType \<leftarrow>
                 (if strType = str ''ios'' then do {
                    shield \<leftarrow> (if is_check_shield_status then getPushShield sv nUserId else ret None);
                    ret (if shield = Some 1 then None else Some CLIENT_TYPE_IOS) }
                  else ret (Some (if strType = str ''android'' then CLIENT_TYPE_ANDROID else 0)));
               (case nClientType of
                  None \<Rightarrow> ret None
                | Some nClientType \<Rightarrow>
                    if ClientType_IsValid nClientType then do {
                      nTotalCnt \<leftarrow> getUnReadCntAll sv nUserId 0;
                      nTotalCnt \<leftarrow> group_getUnReadCntAll sv nUserId nTotalCnt;
                      ret (Some \<lparr>ut_user_id = nUserId, ut_token = strToken, ut_user_type = nClientType,
                        ut_push_count = nTotalCnt, ut_push_type = 1\<rparr>) }
                    else ret None) }) })"

definition getDevicesToken :: "'w services \<Rightarrow> db_parsers \<Rightarrow> 'w handler" where
  "getDevicesToken sv dp pPdu conn_uuid = (case p_get_device_token dp (in_body pPdu) of
       None \<Rightarrow> ret ()
     | Some (user_ids, attach_data) \<Rightarrow> do {
         pCacheConn \<leftarrow> GetCacheConn sv ''token'';
         t \<leftarrow> service (sv_time sv);
         let is_check_shield_status = (sv_hour sv t \<ge> 22 \<or> sv_hour sv t \<le> 7);
         tokens \<leftarrow> (case pCacheConn of
             None \<Rightarrow> ret []
           | Some c \<Rightarrow> do {
               m \<leftarrow> mget sv c (map (\<lambda>u. device_key (int2string u)) user_ids);
               rel_conn c;
               (case m of
                  None \<Rightarrow> ret []
                | Some mapTokens \<Rightarrow> foldM (\<lambda>out (strKey, strValue). do {
                    e \<leftarrow> token_entry sv is_check_shield_status strKey strValue;
                    ret (case e of None \<Rightarrow> out | Some e \<Rightarrow> out @ [e]) }) [] mapTokens) });
         AddResponsePdu conn_uuid pPdu SID_OTHER CID_OTHER_GET_DEVICE_TOKEN_RSP (RspGetDeviceToken tokens attach_data) })"

subsection \<open>Groups\<close>

definition to_set :: "u32 list \<Rightarrow> u32 list" where
  "to_set xs = fold insort_insert xs []"

definition do_createGroup :: "'w services \<Rightarrow> db_parsers \<Rightarrow> 'w handler" where
  "do_createGroup sv dp pPdu conn_uuid = (case p_group_create dp (in_body pPdu) of
       None \<Rightarrow> ret ()
     | Some (nUserId, strGroupName, nGroupType, strGroupAvatar, member_id_list, attach_data) \<Rightarrow>
         if GroupType_IsValid nGroupType then do {
           r \<leftarrow> createGroup sv nUserId strGroupName strGroupAvatar nGroupType (to_set member_id_list);
           (case r of (nGroupId, setMember) \<Rightarrow>
              AddResponsePdu conn_uuid pPdu SID_GROUP CID_GROUP_CREATE_RESPONSE
                (if nGroupId \<noteq> INVALID_VALUE then RspGroupCreate nUserId 0 nGroupId strGroupName setMember attach_data
                 else RspGroupCreate nUserId 1 0 strGroupName setMember attach_data)) }
         else ret ())"

definition getNormalGroupList :: "'w services \<Rightarrow> db_parsers \<Rightarrow> 'w handler" where
  "getNormalGroupList sv dp pPdu conn_uuid = (case p_group_list dp (in_body pPdu) of
       None \<Rightarrow> ret ()
     | Some (nUserId, attach_data) \<Rightarrow> do {
         lsGroup \<leftarrow> getUserGroup sv nUserId GROUP_TYPE_NORMAL;
         AddResponsePdu conn_uuid pPdu SID_GROUP CID_GROUP_NORMAL_LIST_RESPONSE (RspGroupList nUserId lsGroup attach_data) })"

fun put_version :: "u32 \<Rightarrow> u32 \<Rightarrow> (u32 \<times> u32) list \<Rightarrow> (u32 \<times> u32) list" where
  "put_version k v [] = [(k, v)]"
| "put_version k v ((k', v') # m) =
     (if k = k' then (k, v) # m else if k < k' then (k, v) # (k', v') # m else (k', v') # put_version k v m)"

definition do_getGroupInfo :: "'w services \<Rightarrow> db_parsers \<Rightarrow> 'w handler" where
  "do_getGroupInfo sv dp pPdu conn_uuid = (case p_group_info dp (in_body pPdu) of
       None \<Rightarrow> ret ()
     | Some (nUserId, group_version_list, attach_data) \<Rightarrow> do {
         mapGroupId \<leftarrow> foldM (\<lambda>m g. do {
           b \<leftarrow> isValidateGroupId sv (gv_group_id g);
           ret (if b then put_version (gv_group_id g) (gv_version g) m else m) }) [] group_version_list;
         lsGroupInfo \<leftarrow> getGroupInfo sv mapGroupId;
         AddResponsePdu conn_uuid pPdu SID_GROUP CID_GROUP_INFO_RESPONSE (RspGroupInfo nUserId lsGroupInfo attach_data) })"

definition modifyMember :: "'w services \<Rightarrow> db_parsers \<Rightarrow> 'w handler" where
  "modifyMember sv dp pPdu conn_uuid = (case p_group_change dp (in_body pPdu) of
       None \<Rightarrow> ret ()
     | Some (nUserId, nGroupId, nType, member_id_list, attach_data) \<Rightarrow> do {
         valid \<leftarrow> (if GroupModifyType_IsValid nType then isValidateGroupId sv nGroupId else ret False);
         if valid then do {
           r \<leftarrow> modifyGroupMember sv nUserId nGroupId nType (to_set member_id_list);
           (case r of (bRet, setUserId, lsCurUserId) \<Rightarrow>
              AddResponsePdu conn_uuid pPdu SID_GROUP CID_GROUP_CHANGE_MEMBER_RESPONSE
                (RspGroupChange nUserId nGroupId nType (if bRet then 0 else 1) (if bRet then setUserId else [])
                  (if bRet then lsCurUserId else []) attach_data)) }
         else ret () })"

definition setGroupPush :: "'w services \<Rightarrow> db_parsers \<Rightarrow> 'w handler" where
  "setGroupPush sv dp pPdu conn_uuid = (case p_group_shield dp (in_body pPdu) of
       None \<Rightarrow> ret ()
     | Some (nUserId, nGroupId, nStatus, attach_data) \<Rightarrow> do {
         valid \<leftarrow> isValidateGroupId sv nGroupId;
         if valid then do {
           bRet \<leftarrow> setPush sv nUserId nGroupId IM_GROUP_SETTING_PUSH nStatus;
           AddResponsePdu conn_uuid pPdu SID_GROUP CID_GROUP_SHIELD_GROUP_RESPONSE
             (RspGroupShield nUserId nGroupId (if bRet then 0 else 1) attach_data) }
         else ret () })"

definition getGroupPush :: "'w services \<Rightarrow> db_parsers \<Rightarrow> 'w handler" where
  "getGroupPush sv dp pPdu conn_uuid = (case p_get_shield dp (in_body pPdu) of
       None \<Rightarrow> ret ()
     | Some (nGroupId, lsUser, attach_data) \<Rightarrow> do {
         valid \<leftarrow> isValidateGroupId sv nGroupId;
         if valid then do {
           lsPush \<leftarrow> getPush sv nGroupId lsUser;
           AddResponsePdu conn_uuid pPdu SID_OTHER CID_OTHER_GET_SHIELD_RSP (RspGetShield nGroupId lsPush attach_data) }
         else ret () })"

subsection \<open>Offline files\<close>

definition hasOfflineFile :: "'w services \<Rightarrow> db_parsers \<Rightarrow> 'w handler" where
  "hasOfflineFile sv dp pPdu conn_uuid = (case p_has_offline dp (in_body pPdu) of
       None \<Rightarrow> ret ()
     | Some (nUserId, attach_data) \<Rightarrow> do {
         lsOffline \<leftarrow> getOfflineFile sv nUserId;
         AddResponsePdu conn_uuid pPdu SID_FILE CID_FILE_HAS_OFFLINE_RES (RspHasOffline nUserId lsOffline attach_data) })"

definition addOfflineFile :: "'w services \<Rightarrow> db_parsers \<Rightarrow> 'w handler" where
  "addOfflineFile sv dp pPdu conn_uuid = (case p_add_offline dp (in_body pPdu) of
       None \<Rightarrow> ret ()
     | Some (nUserId, nToId, strTaskId, strFileName, nFileSize) \<Rightarrow>
         model_addOfflineFile sv nUserId nToId strTaskId strFileName nFileSize)"

definition delOfflineFile :: "'w services \<Rightarrow> db_parsers \<Rightarrow> 'w handler" where
  "delOfflineFile sv dp pPdu conn_uuid = (case p_del_offline dp (in_body pPdu) of
       None \<Rightarrow> ret ()
     | Some (nUserId, nToId, strTaskId) \<Rightarrow> model_delOfflineFile sv nUserId nToId strTaskId)"

subsection \<open>The table of handlers\<close>

definition handler_map :: "'w services \<Rightarrow> db_config \<Rightarrow> db_parsers \<Rightarrow> (u16 \<times> 'w handler) list" where
  "handler_map sv cf dp =
     [(CID_OTHER_VALIDATE_REQ, dologin sv cf dp),
      (CID_LOGIN_REQ_PUSH_SHIELD, doPushShield sv dp),
      (CID_LOGIN_REQ_QUERY_PUSH_SHIELD, doQueryPushShield sv dp),
      (CID_BUDDY_LIST_RECENT_CONTACT_SESSION_REQUEST, do_getRecentSession sv cf dp),
      (CID_BUDDY_LIST_REMOVE_SESSION_REQ, deleteRecentSession sv dp),
      (CID_BUDDY_LIST_USER_INFO_REQUEST, do_getUserInfo sv dp),
      (CID_BUDDY_LIST_ALL_USER_REQUEST, getChangedUser sv dp),
      (CID_BUDDY_LIST_DEPARTMENT_REQUEST, getChgedDepart sv dp),
      (CID_BUDDY_LIST_CHANGE_SIGN_INFO_REQUEST, changeUserSignInfo sv dp),
      (CID_MSG_DATA, do_sendMessage sv cf dp),
      (CID_MSG_LIST_REQUEST, do_getMessage sv dp),
      (CID_MSG_UNREAD_CNT_REQUEST, getUnreadMsgCounter sv cf dp),
      (CID_MSG_READ_ACK, clearUnreadMsgCounter sv dp),
      (CID_MSG_GET_BY_MSG_ID_REQ, getMessageById sv dp),
      (CID_MSG_GET_LATEST_MSG_ID_REQ, getLatestMsgId sv cf dp),
      (CID_LOGIN_REQ_DEVICETOKEN, setDevicesToken sv dp),
      (CID_OTHER_GET_DEVICE_TOKEN_REQ, getDevicesToken sv dp),
      (CID_GROUP_SHIELD_GROUP_REQUEST, setGroupPush sv dp),
      (CID_OTHER_GET_SHIELD_REQ, getGroupPush sv dp),
      (CID_GROUP_NORMAL_LIST_REQUEST, getNormalGroupList sv dp),
      (CID_GROUP_INFO_REQUEST, do_getGroupInfo sv dp),
      (CID_GROUP_CREATE_REQUEST, do_createGroup sv dp),
      (CID_GROUP_CHANGE_MEMBER_REQUEST, modifyMember sv dp),
      (CID_FILE_HAS_OFFLINE_REQ, hasOfflineFile sv dp),
      (CID_FILE_ADD_OFFLINE_REQ, addOfflineFile sv dp),
      (CID_FILE_DEL_OFFLINE_REQ, delOfflineFile sv dp)]"

definition GetHandler :: "'w services \<Rightarrow> db_config \<Rightarrow> db_parsers \<Rightarrow> u16 \<Rightarrow> 'w handler option" where
  "GetHandler sv cf dp pdu_type = map_of (handler_map sv cf dp) pdu_type"

end
