(* ===== verification/Db_Calculus.thy ===== *)
theory Db_Calculus
  imports Db_Action
begin

text \<open>
  A calculus for the discipline of connections: \<open>disc st h m h'\<close> says that the program \<open>m\<close>, started by a thread that has
  the connections \<open>h\<close>, ends with the connections \<open>h'\<close>, returns no connection twice and gives no answer. When \<open>st\<close> holds,
  it also uses no connection that it does not have, and asks for connections in the order \<open>rank\<close> of the pools. The rules
  follow the programs, so that the lemma of an operation is proved by applying them.
\<close>

definition rank :: "pool_id \<Rightarrow> nat" where
  "rank p = (case p of
       DbP n \<Rightarrow> if n = str ''teamtalk_master'' then 0 else 2
     | CacheP n \<Rightarrow> if n = str ''unread'' then 1 else if n = str ''group_member'' then 3 else 4)"

definition above :: "conn list \<Rightarrow> pool_id \<Rightarrow> bool" where
  "above h p \<longleftrightarrow> (\<forall>c \<in> set h. rank (fst c) < rank p)"

definition calm :: "bool \<Rightarrow> ('w, 'm) dbp \<Rightarrow> ('w, 'm) dbp \<Rightarrow> bool" where
  "calm st s s' \<longleftrightarrow>
     (\<exists>ds. defects s' = defects s @ ds \<and> ReleaseTwice \<notin> set ds \<and> (st \<longrightarrow> UseAfterRelease \<notin> set ds)) \<and>
     (\<exists>as. asks s' = asks s @ as \<and> (st \<longrightarrow> (\<forall>(hs, p) \<in> set as. above hs p)))"

definition disc :: "bool \<Rightarrow> conn list \<Rightarrow> ('w, 'm, 'a) db \<Rightarrow> conn list \<Rightarrow> bool" where
  "disc st h m h' \<longleftrightarrow> (\<forall>s. held s = h \<longrightarrow> held (snd (run_state m s)) = h' \<and>
     answers (snd (run_state m s)) = answers s \<and> calm st s (snd (run_state m s)))"

lemma calm_same: "defects s' = defects s \<Longrightarrow> asks s' = asks s \<Longrightarrow> calm st s s'"
  by (simp add: calm_def)

lemma calm_trans:
  assumes "calm st s s1" "calm st s1 s2"
  shows "calm st s s2"
proof -
  from assms obtain d1 d2 where "defects s1 = defects s @ d1" "ReleaseTwice \<notin> set d1" "st \<longrightarrow> UseAfterRelease \<notin> set d1"
    "defects s2 = defects s1 @ d2" "ReleaseTwice \<notin> set d2" "st \<longrightarrow> UseAfterRelease \<notin> set d2"
    unfolding calm_def by blast
  then have "\<exists>ds. defects s2 = defects s @ ds \<and> ReleaseTwice \<notin> set ds \<and> (st \<longrightarrow> UseAfterRelease \<notin> set ds)"
    by (intro exI [of _ "d1 @ d2"]) auto
  moreover from assms obtain a1 a2 where "asks s1 = asks s @ a1" "st \<longrightarrow> (\<forall>(hs, p) \<in> set a1. above hs p)"
    "asks s2 = asks s1 @ a2" "st \<longrightarrow> (\<forall>(hs, p) \<in> set a2. above hs p)"
    unfolding calm_def by blast
  then have "\<exists>as. asks s2 = asks s @ as \<and> (st \<longrightarrow> (\<forall>(hs, p) \<in> set as. above hs p))"
    by (intro exI [of _ "a1 @ a2"]) auto
  ultimately show ?thesis unfolding calm_def by blast
qed

lemma discI:
  "(\<And>s. held s = h \<Longrightarrow> held (snd (run_state m s)) = h' \<and> answers (snd (run_state m s)) = answers s \<and>
    calm st s (snd (run_state m s))) \<Longrightarrow> disc st h m h'"
  by (simp add: disc_def)

lemma discD:
  "disc st h m h' \<Longrightarrow> held s = h \<Longrightarrow> run_state m s = (x, s') \<Longrightarrow> held s' = h' \<and> answers s' = answers s \<and> calm st s s'"
  by (auto simp: disc_def)

lemma disc_pure:
  assumes "\<And>s. held (snd (run_state m s)) = held s \<and> answers (snd (run_state m s)) = answers s \<and>
    defects (snd (run_state m s)) = defects s \<and> asks (snd (run_state m s)) = asks s"
  shows "disc st h m h"
  by (rule discI) (use assms calm_same in auto)

subsection \<open>Rules\<close>

lemma disc_ret: "disc st h (ret x) h"
  by (rule disc_pure) simp

lemma disc_get: "disc st h State_Monad.get h"
  by (rule disc_pure) simp

lemma disc_service: "disc st h (service f) h"
  by (rule disc_pure) (simp add: service_def split: prod.split)

lemma disc_defect: "d \<noteq> ReleaseTwice \<Longrightarrow> d \<noteq> UseAfterRelease \<Longrightarrow> disc st h (defect d) h"
  by (rule discI) (auto simp: defect_def calm_def)

lemma disc_touch: "(st \<Longrightarrow> c \<in> set h) \<Longrightarrow> disc st h (touch c) h"
  by (rule discI) (auto simp: touch_def defect_def calm_def)

lemma disc_seq:
  assumes "disc st h m h1" "\<And>x. disc st h1 (f x) h2"
  shows "disc st h (m \<bind> f) h2"
proof (rule discI)
  fix s :: "('a, 'b) dbp" assume s: "held s = h"
  obtain x s1 where m: "run_state m s = (x, s1)" by fastforce
  from discD [OF assms(1) s m] assms(2) [of x] show "held (snd (run_state (m \<bind> f) s)) = h2 \<and>
      answers (snd (run_state (m \<bind> f) s)) = answers s \<and> calm st s (snd (run_state (m \<bind> f) s))"
    using m by (auto simp: disc_def intro: calm_trans)
qed

lemma disc_bind: "disc st h m h \<Longrightarrow> (\<And>x. disc st h (f x) h') \<Longrightarrow> disc st h (m \<bind> f) h'"
  by (rule disc_seq)

lemma run_take_conn: "run_state (take_conn sv p) s = (case sv_get sv p (world s) of
     (None, w) \<Rightarrow> (None, s\<lparr>asks := asks s @ [(held s, p)], world := w\<rparr>)
   | (Some i, w) \<Rightarrow> (Some (p, i), s\<lparr>asks := asks s @ [(held s, p)], world := w, held := (p, i) # held s\<rparr>))"
  by (auto simp: take_conn_def service_def split: prod.split option.split)

lemma disc_take:
  assumes "st \<Longrightarrow> above h p" "disc st h (f None) h'" "\<And>c. fst c = p \<Longrightarrow> disc st (c # h) (f (Some c)) h'"
  shows "disc st h (take_conn sv p \<bind> f) h'"
proof -
  have ask: "disc st h (change (\<lambda>s. s\<lparr>asks := asks s @ [(held s, p)]\<rparr>)) h"
    by (rule discI) (use assms(1) in \<open>auto simp: calm_def\<close>)
  have hold: "disc st h (change (\<lambda>s. s\<lparr>held := c # held s\<rparr>)) (c # h)" for c
    by (rule discI) (auto intro: calm_same)
  let ?m = "change (\<lambda>s. s\<lparr>asks := asks s @ [(held s, p)]\<rparr>) \<bind> (\<lambda>_. service (sv_get sv p) \<bind> (\<lambda>r. case r of
      None \<Rightarrow> f None
    | Some i \<Rightarrow> change (\<lambda>s. s\<lparr>held := (p, i) # held s\<rparr>) \<bind> (\<lambda>_. f (Some (p, i)))))"
  have "take_conn sv p \<bind> f = ?m"
    unfolding take_conn_def
    by (intro state.expand ext) (simp add: State_Monad.bind_def State_Monad.return_def State_Monad.update_def
        split: prod.split option.split)
  moreover have "disc st h ?m h'"
    by (intro disc_seq [OF ask] disc_seq [OF disc_service])
      (auto split: option.split intro!: assms(2) disc_seq [OF hold] assms(3))
  ultimately show ?thesis by (simp only:)
qed

lemmas disc_take_db = disc_take [where p = "DbP (str n)" for n, folded GetDBConn_def]
lemmas disc_take_cache = disc_take [where p = "CacheP (str n)" for n, folded GetCacheConn_def]

lemma disc_rel: "disc st (c # h) (rel_conn c) h"
  by (rule discI) (auto simp: rel_conn_def intro: calm_same)

lemma disc_rel_bind: "disc st h (f ()) h' \<Longrightarrow> disc st (c # h) (rel_conn c \<bind> f) h'"
  by (rule disc_seq [OF disc_rel]) simp

lemma disc_if: "(b \<Longrightarrow> disc st h x h') \<Longrightarrow> (\<not> b \<Longrightarrow> disc st h y h') \<Longrightarrow> disc st h (if b then x else y) h'"
  by simp

lemma disc_option:
  "(r = None \<Longrightarrow> disc st h x h') \<Longrightarrow> (\<And>z. r = Some z \<Longrightarrow> disc st h (f z) h') \<Longrightarrow>
    disc st h (case r of None \<Rightarrow> x | Some z \<Rightarrow> f z) h'"
  by (simp split: option.split)

lemma disc_None: "disc st h x h' \<Longrightarrow> disc st h (case None of None \<Rightarrow> x | Some z \<Rightarrow> f z) h'"
  by simp

lemma disc_Some: "disc st h (f c) h' \<Longrightarrow> disc st h (case Some c of None \<Rightarrow> x | Some z \<Rightarrow> f z) h'"
  by simp

lemma disc_None_bind: "disc st h (x \<bind> g) h' \<Longrightarrow> disc st h ((case None of None \<Rightarrow> x | Some z \<Rightarrow> f z) \<bind> g) h'"
  by simp

lemma disc_Some_bind: "disc st h (f c \<bind> g) h' \<Longrightarrow> disc st h ((case Some c of None \<Rightarrow> x | Some z \<Rightarrow> f z) \<bind> g) h'"
  by simp

lemma disc_prod_bind:
  "(\<And>a b. r = (a, b) \<Longrightarrow> disc st h (f a b \<bind> g) h') \<Longrightarrow> disc st h ((case r of (a, b) \<Rightarrow> f a b) \<bind> g) h'"
  by (simp split: prod.split)

lemma disc_assoc: "disc st h (m \<bind> (\<lambda>x. f x \<bind> g)) h' \<Longrightarrow> disc st h ((m \<bind> f) \<bind> g) h'"
  by (simp add: bind_assoc)

lemma disc_prod: "(\<And>a b. r = (a, b) \<Longrightarrow> disc st h (f a b) h') \<Longrightarrow> disc st h (case r of (a, b) \<Rightarrow> f a b) h'"
  by (simp split: prod.split)

lemma disc_prod_fun: "(\<And>a b. r = (a, b) \<Longrightarrow> disc st h (f a b z) h') \<Longrightarrow> disc st h ((case r of (a, b) \<Rightarrow> f a b) z) h'"
  by (simp split: prod.split)

lemma disc_list:
  "(xs = [] \<Longrightarrow> disc st h x h') \<Longrightarrow> (\<And>y ys. xs = y # ys \<Longrightarrow> disc st h (f y ys) h') \<Longrightarrow>
    disc st h (case xs of [] \<Rightarrow> x | y # ys \<Rightarrow> f y ys) h'"
  by (simp split: list.split)

lemma disc_bool: "(b \<Longrightarrow> disc st h x h') \<Longrightarrow> (\<not> b \<Longrightarrow> disc st h y h') \<Longrightarrow> disc st h (case b of True \<Rightarrow> x | False \<Rightarrow> y) h'"
  by (simp split: bool.split)

lemma disc_reply:
  "(\<And>x. disc st h (f1 x) h') \<Longrightarrow> (\<And>x. disc st h (f2 x) h') \<Longrightarrow> (\<And>x. disc st h (f3 x) h') \<Longrightarrow>
   (\<And>x. disc st h (f4 x) h') \<Longrightarrow> disc st h f5 h' \<Longrightarrow> (\<And>x. disc st h (f6 x) h') \<Longrightarrow>
   disc st h (case r of RString x \<Rightarrow> f1 x | RStatus x \<Rightarrow> f2 x | RError x \<Rightarrow> f3 x | RInteger x \<Rightarrow> f4 x | RNil \<Rightarrow> f5
     | RArray x \<Rightarrow> f6 x) h'"
  by (simp split: redis_reply.split)

lemma disc_let: "disc st h (f x) h' \<Longrightarrow> disc st h (let y = x in f y) h'"
  by simp

lemma disc_foldM: "(\<And>a x. disc st h (f a x) h) \<Longrightarrow> disc st h (foldM f a xs) h"
  by (induction xs arbitrary: a) (auto intro: disc_ret disc_seq)

lemma disc_change:
  assumes "\<And>s. held (f s) = held s \<and> answers (f s) = answers s \<and> defects (f s) = defects s \<and> asks (f s) = asks s"
  shows "disc st h (change f) h"
  by (rule disc_pure) (use assms in simp)

lemmas disc_rules = disc_rel disc_rel_bind disc_take_db disc_take_cache disc_ret disc_get disc_service disc_if
  disc_None disc_Some disc_option disc_prod disc_prod_fun disc_list disc_bool disc_reply disc_let disc_foldM disc_change disc_bind

lemma rank_simps [simp]:
  "rank (DbP (str ''teamtalk_master'')) = 0" "rank (CacheP (str ''unread'')) = Suc 0"
  "rank (DbP (str ''teamtalk_slave'')) = 2" "rank (CacheP (str ''group_member'')) = 3"
  "rank (CacheP (str ''token'')) = 4" "rank (CacheP (str ''group_set'')) = 4"
  by (simp_all add: rank_def str_def)

lemma above_simps [simp]: "above [] p" "above (c # h) p \<longleftrightarrow> rank (fst c) < rank p \<and> above h p"
  by (simp_all add: above_def)

named_theorems disc_ops

subsection \<open>MySQL and redis\<close>

lemma disc_use_var [disc_ops]: "disc st h (use_var sv v) h"
  unfolding use_var_def by (intro disc_rules disc_defect; simp)

lemma disc_to_string [disc_ops]: "disc st h (to_string p) h"
  unfolding to_string_def by (intro disc_rules disc_defect; simp)

lemma disc_time_now [disc_ops]: "disc st h (time_now sv) h"
  unfolding time_now_def by (intro disc_rules)

lemma disc_GetInt [disc_ops]: "disc st h (GetInt row k) h"
  unfolding GetInt_def by (intro disc_rules disc_defect; simp)

lemma disc_GetText [disc_ops]: "disc st h (GetText row k) h"
  unfolding GetText_def by (intro disc_ops)

lemma disc_ExecuteQuery [disc_ops]: "(st \<Longrightarrow> c \<in> set h) \<Longrightarrow> disc st h (ExecuteQuery sv c q) h"
  unfolding ExecuteQuery_def by (intro disc_rules disc_touch)

lemma disc_ExecuteUpdate [disc_ops]: "(st \<Longrightarrow> c \<in> set h) \<Longrightarrow> disc st h (ExecuteUpdate sv c q) h"
  unfolding ExecuteUpdate_def by (intro disc_rules disc_touch; simp)

lemma disc_GetInsertId [disc_ops]: "(st \<Longrightarrow> c \<in> set h) \<Longrightarrow> disc st h (GetInsertId sv c) h"
  unfolding GetInsertId_def by (intro disc_rules disc_touch)

lemma disc_StmtInit [disc_ops]: "(st \<Longrightarrow> c \<in> set h) \<Longrightarrow> disc st h (StmtInit sv c q) h"
  unfolding StmtInit_def by (intro disc_rules disc_touch)

lemma disc_StmtExecuteUpdate [disc_ops]: "(st \<Longrightarrow> st_conn p \<in> set h) \<Longrightarrow> disc st h (StmtExecuteUpdate sv p) h"
  unfolding StmtExecuteUpdate_def by (intro disc_rules disc_touch; simp)

lemma conn_SetParams [simp]: "st_conn (SetParams vs p) = st_conn p"
proof -
  have "st_conn (fold (\<lambda>(i, v). SetParam i v) ws p) = st_conn p" for ws
    by (induction ws arbitrary: p) (auto simp: SetParam_def)
  then show ?thesis by (simp add: SetParams_def)
qed

lemma run_StmtInit: "run_state (StmtInit sv c q) s = (Some p, s') \<Longrightarrow> st_conn p = c"
  by (auto simp: StmtInit_def State_Monad.bind_def State_Monad.return_def split: prod.splits option.splits)

lemma disc_with_stmt:
  assumes "st \<Longrightarrow> c \<in> set h" "disc st h (f None) h'" "\<And>p. st_conn p = c \<Longrightarrow> disc st h (f (Some p)) h'"
  shows "disc st h (StmtInit sv c q \<bind> f) h'"
proof -
  have "disc st h (StmtInit sv c q \<bind> (\<lambda>r. (case r of None \<Rightarrow> f None | Some p \<Rightarrow> f (Some (p\<lparr>st_conn := c\<rparr>))))) h'"
    by (intro disc_bind disc_StmtInit disc_option assms) auto
  moreover have "StmtInit sv c q \<bind> f = StmtInit sv c q \<bind> (\<lambda>r. (case r of None \<Rightarrow> f None | Some p \<Rightarrow> f (Some (p\<lparr>st_conn := c\<rparr>))))"
  proof (rule state.expand, rule ext)
    fix s :: "('a, 'b) dbp"
    obtain r s1 where r: "run_state (StmtInit sv c q) s = (r, s1)" by fastforce
    have "f r = (case r of None \<Rightarrow> f None | Some p \<Rightarrow> f (Some (p\<lparr>st_conn := c\<rparr>)))"
      using run_StmtInit [of sv c q s] r by (cases r) auto
    then show "run_state (StmtInit sv c q \<bind> f) s =
        run_state (StmtInit sv c q \<bind> (\<lambda>r. (case r of None \<Rightarrow> f None | Some p \<Rightarrow> f (Some (p\<lparr>st_conn := c\<rparr>))))) s"
      using r by (simp cong: if_cong)
  qed
  ultimately show ?thesis by (simp only:)
qed

lemma disc_insert_row [disc_ops]: "(st \<Longrightarrow> c \<in> set h) \<Longrightarrow> disc st h (insert_row sv c q vs) h"
  unfolding insert_row_def by (intro disc_with_stmt disc_rules disc_ops; simp)

lemma disc_get_obj [disc_ops]: "disc st h (get_obj c) h"
  unfolding get_obj_def by (intro disc_rules)

lemma disc_set_obj [disc_ops]: "disc st h (set_obj c ob) h"
  unfolding set_obj_def by (intro disc_rules; simp)

lemma disc_use_context [disc_ops]: "disc st h (use_context ctx) h"
  unfolding use_context_def by (intro disc_rules disc_defect; simp)

lemma disc_redisFree [disc_ops]: "disc st h (redisFree ctx) h"
  unfolding redisFree_def by (intro disc_ops disc_rules; simp)

lemma disc_redisConnect [disc_ops]: "disc st h (redisConnect sv c) h"
  unfolding redisConnect_def by (intro disc_ops disc_rules; simp)

lemma disc_redisCommand [disc_ops]: "disc st h (redisCommand sv ctx args) h"
  unfolding redisCommand_def by (intro disc_ops disc_rules)

lemma disc_redisCommandFormat [disc_ops]: "disc st h (redisCommandFormat sv ctx fmt) h"
  unfolding redisCommandFormat_def by (intro disc_ops disc_rules)

lemma disc_CacheInit [disc_ops]: "(st \<Longrightarrow> c \<in> set h) \<Longrightarrow> disc st h (CacheInit sv c) h"
  unfolding CacheInit_def by (intro disc_touch disc_ops disc_rules)

lemma disc_with_reply:
  assumes "st \<Longrightarrow> c \<in> set h" "\<And>ctx. disc st h (cmd ctx) h" "\<And>r. disc st h (answer r) h"
  shows "disc st h (with_reply sv c cmd d answer) h"
  unfolding with_reply_def by (intro assms disc_ops disc_defect disc_rules; simp)

lemma disc_command [disc_ops]: "(st \<Longrightarrow> c \<in> set h) \<Longrightarrow> disc st h (command sv c args d f) h"
  unfolding command_def by (intro disc_with_reply disc_ops disc_rules)

lemma disc_isExists [disc_ops]: "(st \<Longrightarrow> c \<in> set h) \<Longrightarrow> disc st h (isExists sv c k) h"
  unfolding isExists_def by (intro disc_ops disc_defect disc_rules; simp)

lemma disc_mget_reply [disc_ops]: "disc st h (mget_reply ks rs) h"
  unfolding mget_reply_def by (intro disc_ops disc_defect disc_rules; simp)

lemma disc_mget [disc_ops]: "(st \<Longrightarrow> c \<in> set h) \<Longrightarrow> disc st h (mget sv c ks) h"
  unfolding mget_def by (intro disc_with_reply disc_ops disc_rules)

lemmas command_defs = cache_get_def cache_setex_def cache_set_def hdel_def hget_def hset_def hincrBy_def incrBy_def
  incr_def decr_def lpush_def rpush_def llen_def hgetAll_def hmset_def hmget_def lrange_def

end
