(* ===== verification/Db_Discipline.thy ===== *)
theory Db_Discipline
  imports Db_Calculus
begin

text \<open>
  Every operation of the business code returns the connections that it takes (theory \<open>Db_Calculus\<close>): one lemma per
  operation, in the order of the code. The operations that store a group message are the exception; their lemmas are
  about the weaker form of \<open>disc\<close>.
\<close>

lemma disc_with_cache:
  assumes "st \<Longrightarrow> above h (CacheP (str n))" "\<And>c. fst c = CacheP (str n) \<Longrightarrow> disc st (c # h) (body c) (c # h)"
  shows "disc st h (with_cache sv n d body) h"
  unfolding with_cache_def by (intro disc_take_cache disc_None disc_Some disc_seq [OF assms(2)] disc_rel_bind disc_ret; use assms(1) in simp)

lemma disc_slave_query:
  assumes "\<And>a row c. disc st [c] (f a row) [c]"
  shows "disc st [] (slave_query sv sql d f) []"
  unfolding slave_query_def by (intro assms disc_ops disc_rules; simp)

lemma disc_first_row:
  assumes "\<And>row c. disc st [c] (f row) [c]"
  shows "disc st [] (first_row sv sql f) []"
  unfolding first_row_def by (intro assms disc_ops disc_rules; simp)

lemmas disc_flat = disc_Some_bind disc_None_bind disc_prod_bind disc_assoc

lemmas disc_code = disc_with_cache disc_slave_query disc_first_row disc_with_stmt disc_rules

lemma disc_readAudioContent [disc_ops]: "disc st h (readAudioContent sv nCostTime nSize strPath cMsg) h"
  unfolding readAudioContent_def command_defs by (intro disc_ops disc_code disc_defect; simp)

lemma disc_read_audio [disc_ops]: "(st \<Longrightarrow> c \<in> set h) \<Longrightarrow> disc st h (read_audio sv c out cMsg) h"
  unfolding read_audio_def command_defs by (intro disc_ops disc_code disc_defect; simp)

lemma disc_readAudios [disc_ops]: "disc st [] (readAudios sv lsMsg) []"
  unfolding readAudios_def command_defs by (intro disc_ops disc_code disc_defect; simp)

lemma disc_saveAudioInfo [disc_ops]: "disc st [] (saveAudioInfo sv site nFromId nToId nCreateTime pAudioData nAudioLen) []"
  unfolding saveAudioInfo_def command_defs by (intro disc_ops disc_code disc_defect; simp)

lemma disc_resetMsgId [disc_ops]: "(st \<Longrightarrow> above h (CacheP (str ''unread''))) \<Longrightarrow> disc st h (resetMsgId sv nRelateId) h"
  unfolding resetMsgId_def command_defs by (intro disc_ops disc_code disc_defect; simp)

lemma disc_getMsgId [disc_ops]: "disc st [] (getMsgId sv nRelateId) []"
  unfolding getMsgId_def command_defs by (intro disc_ops disc_code disc_defect; simp)

lemma disc_addRelation [disc_ops]: "disc st [] (addRelation sv nSmallId nBigId) []"
  unfolding addRelation_def command_defs by (intro disc_ops disc_code disc_defect; simp)

lemma disc_getRelationId [disc_ops]: "disc st [] (getRelationId sv nUserAId nUserBId bAdd) []"
  unfolding getRelationId_def command_defs by (intro disc_ops disc_code disc_defect; simp)

lemma disc_master_update [disc_ops]: "disc st [] (master_update sv sql) []"
  unfolding master_update_def command_defs by (intro disc_ops disc_code disc_defect; simp)

lemma disc_updateRelation [disc_ops]: "disc st [] (updateRelation sv nRelationId nUpdateTime) []"
  unfolding updateRelation_def command_defs by (intro disc_ops disc_code disc_defect; simp)

lemma disc_removeRelation [disc_ops]: "disc st [] (removeRelation sv nRelationId) []"
  unfolding removeRelation_def command_defs by (intro disc_ops disc_code disc_defect; simp)

lemma disc_read_message [disc_ops]: "disc st h (read_message sender lsMsg row) h"
  unfolding read_message_def command_defs by (intro disc_ops disc_code disc_defect; simp)

lemma disc_query_messages [disc_ops]: "(st \<Longrightarrow> c \<in> set h) \<Longrightarrow> disc st h (query_messages sv c sender sql) h"
  unfolding query_messages_def command_defs by (intro disc_ops disc_code disc_defect; simp)

lemma disc_getMessage [disc_ops]: "disc st [] (getMessage sv nUserId nPeerId nMsgId nMsgCnt) []"
  unfolding getMessage_def command_defs by (intro disc_ops disc_code disc_defect; simp)

lemma disc_incMsgCount [disc_ops]: "disc st [] (incMsgCount sv nFromId nToId) []"
  unfolding incMsgCount_def command_defs by (intro disc_ops disc_code disc_defect; simp)

lemma disc_sendMessage [disc_ops]: "disc st [] (sendMessage sv nRelateId nFromId nToId nMsgType nCreateTime nMsgId strMsgContent) []"
  unfolding sendMessage_def command_defs by (intro disc_ops disc_code disc_defect; simp)

lemma disc_sendAudioMessage [disc_ops]: "disc st [] (sendAudioMessage sv site nRelateId nFromId nToId nMsgType nCreateTime nMsgId pMsgContent nMsgLen) []"
  unfolding sendAudioMessage_def command_defs by (intro disc_ops disc_code disc_defect; simp)

lemma disc_read_last [disc_ops]: "disc st h (read_last audio enc sender l row) h"
  unfolding read_last_def command_defs by (intro disc_ops disc_code disc_defect; simp)

lemma disc_getLastMsg [disc_ops]: "disc st [] (getLastMsg sv enc nFromId nToId lst) []"
  unfolding getLastMsg_def command_defs by (intro disc_ops disc_code disc_defect; simp)

lemma disc_add_unread [disc_ops]: "disc st [] (add_unread sv enc nUserId acc kv) []"
  unfolding add_unread_def command_defs by (intro disc_ops disc_code disc_defect; simp)

lemma disc_getUnreadMsgCount [disc_ops]: "disc st [] (getUnreadMsgCount sv enc nUserId acc) []"
  unfolding getUnreadMsgCount_def command_defs by (intro disc_ops disc_code disc_defect; simp)

lemma disc_getUnReadCntAll [disc_ops]: "disc st [] (getUnReadCntAll sv nUserId nTotalCnt) []"
  unfolding getUnReadCntAll_def command_defs by (intro disc_ops disc_code disc_defect; simp)

lemma disc_getMsgByMsgId [disc_ops]: "disc st [] (getMsgByMsgId sv nUserId nPeerId lsMsgId) []"
  unfolding getMsgByMsgId_def command_defs by (intro disc_ops disc_code disc_defect; simp)

lemma disc_getSessionId [disc_ops]: "disc st [] (getSessionId sv nUserId nPeerId nType isAll) []"
  unfolding getSessionId_def command_defs by (intro disc_ops disc_code disc_defect; simp)

lemma disc_updateSession [disc_ops]: "disc st [] (updateSession sv nSessionId nUpdateTime) []"
  unfolding updateSession_def command_defs by (intro disc_ops disc_code disc_defect; simp)

lemma disc_removeSession [disc_ops]: "disc st [] (removeSession sv nSessionId) []"
  unfolding removeSession_def command_defs by (intro disc_ops disc_code disc_defect; simp)

lemma disc_addSession [disc_ops]: "disc st [] (addSession sv nUserId nPeerId nType) []"
  unfolding addSession_def command_defs by (intro disc_ops disc_code disc_defect; simp)

lemma disc_getUserGroupIds [disc_ops]: "disc st [] (getUserGroupIds sv nUserId nLimited) []"
  unfolding getUserGroupIds_def command_defs by (intro disc_ops disc_code disc_defect; simp)

lemma disc_getGroupVersion [disc_ops]: "disc st [] (getGroupVersion sv lsGroupId nGroupType) []"
  unfolding getGroupVersion_def command_defs by (intro disc_ops disc_code disc_defect; simp)

lemma disc_getUserGroup [disc_ops]: "disc st [] (getUserGroup sv nUserId nGroupType) []"
  unfolding getUserGroup_def command_defs by (intro disc_ops disc_code disc_defect; simp)

lemma disc_getGroupUser [disc_ops]: "disc st [] (getGroupUser sv nGroupId) []"
  unfolding getGroupUser_def command_defs by (intro disc_ops disc_code disc_defect; simp)

lemma disc_fillGroupMember [disc_ops]: "disc st [] (fillGroupMember sv lsGroups) []"
  unfolding fillGroupMember_def command_defs by (intro disc_ops disc_code disc_defect; simp)

lemma disc_read_group [disc_ops]: "disc st h (read_group mapGroupId lsGroupInfo row) h"
  unfolding read_group_def command_defs by (intro disc_ops disc_code disc_defect; simp)

lemma disc_getGroupInfo [disc_ops]: "disc st [] (getGroupInfo sv mapGroupId) []"
  unfolding getGroupInfo_def command_defs by (intro disc_ops disc_code disc_defect; simp)

lemma disc_isInGroup [disc_ops]: "disc st [] (isInGroup sv nUserId nGroupId) []"
  unfolding isInGroup_def command_defs by (intro disc_ops disc_code disc_defect; simp)

lemma disc_isValidateGroupId [disc_ops]: "disc st [] (isValidateGroupId sv nGroupId) []"
  unfolding isValidateGroupId_def command_defs by (intro disc_ops disc_code disc_defect; simp)

lemma disc_getUserJoinTime [disc_ops]: "(st \<Longrightarrow> above h (CacheP (str ''group_member''))) \<Longrightarrow> disc st h (getUserJoinTime sv nGroupId nUserId) h"
  unfolding getUserJoinTime_def command_defs by (intro disc_ops disc_code disc_defect; simp)

lemma disc_permission_loop [disc_ops]: "disc st h (permission_loop nUserId nType rows) h"
  by (induction rows) (simp_all only: permission_loop.simps, (intro disc_ops disc_code)+)

lemma disc_hasModifyPermission [disc_ops]: "disc st [] (hasModifyPermission sv nUserId nGroupId nType) []"
  unfolding hasModifyPermission_def command_defs by (intro disc_ops disc_code disc_defect; simp)

lemma disc_insertNewGroup [disc_ops]: "disc st [] (insertNewGroup sv nUserId strGroupName strGroupAvatar nGroupType nMemberCnt) []"
  unfolding insertNewGroup_def command_defs by (intro disc_ops disc_code disc_defect; simp)

lemma disc_clearGroupMember [disc_ops]: "disc st [] (clearGroupMember sv nGroupId) []"
  unfolding clearGroupMember_def command_defs by (intro disc_ops disc_code disc_defect; simp)

lemma disc_insert_member [disc_ops]: "(st \<Longrightarrow> c \<in> set h) \<Longrightarrow> disc st h (insert_member sv c nGroupId nCreated setHasUser acc u) h"
  unfolding insert_member_def command_defs by (intro disc_ops disc_code disc_defect; simp)

lemma disc_insertNewMember [disc_ops]: "disc st [] (insertNewMember sv nGroupId setUsers) []"
  unfolding insertNewMember_def command_defs by (intro disc_ops disc_flat disc_code disc_defect; simp)

lemma disc_group_resetMsgId [disc_ops]: "disc st [] (group_resetMsgId sv nGroupId) []"
  unfolding group_resetMsgId_def command_defs by (intro disc_ops disc_code disc_defect; simp)

lemma disc_createGroup [disc_ops]: "disc st [] (createGroup sv nUserId strGroupName strGroupAvatar nGroupType setMember) []"
  unfolding createGroup_def command_defs by (intro disc_ops disc_code disc_defect; simp)

lemma disc_removeMember [disc_ops]: "disc st [] (removeMember sv nGroupId setUser) []"
  unfolding removeMember_def command_defs by (intro disc_ops disc_code disc_defect; simp)

lemma disc_removeGroup [disc_ops]: "disc st [] (removeGroup sv nUserId nGroupId) []"
  unfolding removeGroup_def command_defs by (intro disc_ops disc_flat disc_code disc_defect; simp)

lemma disc_removeRepeatUser [disc_ops]: "disc st [] (removeRepeatUser sv nGroupId setUser) []"
  unfolding removeRepeatUser_def command_defs by (intro disc_ops disc_code disc_defect; simp)

lemma disc_addMember [disc_ops]: "disc st [] (addMember sv nGroupId setUser) []"
  unfolding addMember_def command_defs by (intro disc_ops disc_code disc_defect; simp)

lemma disc_group_removeSession [disc_ops]: "disc st [] (group_removeSession sv nGroupId setUser) []"
  unfolding group_removeSession_def command_defs by (intro disc_ops disc_code disc_defect; simp)

lemma disc_incGroupVersion [disc_ops]: "disc st [] (incGroupVersion sv nGroupId) []"
  unfolding incGroupVersion_def command_defs by (intro disc_ops disc_code disc_defect; simp)

lemma disc_clearUserCounter [disc_ops]: "disc st [] (clearUserCounter sv nUserId nPeerId nSessionType) []"
  unfolding clearUserCounter_def command_defs by (intro disc_ops disc_code disc_defect; simp)

lemma disc_modifyGroupMember [disc_ops]: "disc st [] (modifyGroupMember sv nUserId nGroupId nType setUserId) []"
  unfolding modifyGroupMember_def command_defs by (intro disc_ops disc_code disc_defect; simp)

lemma disc_setPush [disc_ops]: "disc st [] (setPush sv nUserId nGroupId nType nStatus) []"
  unfolding setPush_def command_defs by (intro disc_ops disc_code disc_defect; simp)

lemma disc_getPush [disc_ops]: "disc st [] (getPush sv nGroupId lsUser) []"
  unfolding getPush_def command_defs by (intro disc_ops disc_code disc_defect; simp)

lemma disc_updateGroupChat [disc_ops]: "disc False h (updateGroupChat sv nGroupId) h"
  unfolding updateGroupChat_def command_defs by (intro disc_ops disc_code disc_defect; simp)

lemma disc_clearMessageCount [disc_ops]: "disc False h (clearMessageCount sv nUserId nGroupId) h"
  unfolding clearMessageCount_def command_defs by (intro disc_ops disc_code disc_defect; simp)

lemma disc_incMessageCount [disc_ops]: "(st \<Longrightarrow> above h (CacheP (str ''unread''))) \<Longrightarrow> disc st h (incMessageCount sv nUserId nGroupId) h"
  unfolding incMessageCount_def command_defs by (intro disc_ops disc_code disc_defect; simp)

lemma disc_group_sendMessage [disc_ops]: "disc False [] (group_sendMessage sv nFromId nGroupId nMsgType nCreateTime nMsgId strMsgContent) []"
  unfolding group_sendMessage_def command_defs by (intro disc_ops disc_code disc_defect; simp)

lemma disc_group_sendAudioMessage [disc_ops]: "disc False [] (group_sendAudioMessage sv site nFromId nGroupId nMsgType nCreateTime nMsgId pMsgContent nMsgLen) []"
  unfolding group_sendAudioMessage_def command_defs by (intro disc_ops disc_code disc_defect; simp)

lemma disc_group_getMessage [disc_ops]: "disc st [] (group_getMessage sv nUserId nGroupId nMsgId nMsgCnt) []"
  unfolding group_getMessage_def command_defs by (intro disc_ops disc_code disc_defect; simp)

lemma disc_group_getMsgId [disc_ops]: "disc st [] (group_getMsgId sv nGroupId) []"
  unfolding group_getMsgId_def command_defs by (intro disc_ops disc_code disc_defect; simp)

lemma disc_group_getLastMsg [disc_ops]: "(st \<Longrightarrow> above h (DbP (str ''teamtalk_slave''))) \<Longrightarrow> disc st h (group_getLastMsg sv enc nGroupId lst) h"
  unfolding group_getLastMsg_def command_defs by (intro disc_ops disc_code disc_defect; simp)

lemma disc_group_count [disc_ops]: "(st \<Longrightarrow> c \<in> set h) \<Longrightarrow> disc st h (group_count sv c nUserId nCount nGroupId) h"
  unfolding group_count_def command_defs by (intro disc_ops disc_code disc_defect; simp)

lemma disc_group_getUnReadCntAll [disc_ops]: "disc st [] (group_getUnReadCntAll sv nUserId nTotalCnt) []"
  unfolding group_getUnReadCntAll_def command_defs by (intro disc_ops disc_code disc_defect; simp)

lemma disc_group_unread [disc_ops]: "(st \<Longrightarrow> c \<in> set h) \<Longrightarrow> (st \<Longrightarrow> above h (DbP (str ''teamtalk_slave''))) \<Longrightarrow> disc st h (group_unread sv enc c nUserId acc g) h"
  unfolding group_unread_def command_defs by (intro disc_ops disc_code disc_defect; simp)

lemma disc_group_getUnreadMsgCount [disc_ops]: "disc st [] (group_getUnreadMsgCount sv enc nUserId acc) []"
  unfolding group_getUnreadMsgCount_def command_defs by (intro disc_ops disc_code disc_defect; simp)

lemma disc_group_getMsgByMsgId [disc_ops]: "disc st [] (group_getMsgByMsgId sv nUserId nGroupId lsMsgId) []"
  unfolding group_getMsgByMsgId_def command_defs by (intro disc_ops disc_code disc_defect; simp)

lemma disc_fill_session [disc_ops]: "disc st [] (fill_session sv enc nUserId out ct) []"
  unfolding fill_session_def command_defs by (intro disc_ops disc_code disc_defect; simp)

lemma disc_fillSessionMsg [disc_ops]: "disc st [] (fillSessionMsg sv enc nUserId lsContact) []"
  unfolding fillSessionMsg_def command_defs by (intro disc_ops disc_code disc_defect; simp)

lemma disc_read_session [disc_ops]: "disc st h (read_session lsContact row) h"
  unfolding read_session_def command_defs by (intro disc_ops disc_code disc_defect; simp)

lemma disc_getRecentSession [disc_ops]: "disc st [] (getRecentSession sv enc nUserId lastTime) []"
  unfolding getRecentSession_def command_defs by (intro disc_ops disc_code disc_defect; simp)

lemma disc_changed_row [disc_ops]: "disc st h (changed_row  acc row) h"
  unfolding changed_row_def command_defs by (intro disc_ops disc_code disc_defect; simp)

lemma disc_getChangedId [disc_ops]: "disc st [] (getChangedId sv nLastTime) []"
  unfolding getChangedId_def command_defs by (intro disc_ops disc_code disc_defect; simp)

lemma disc_read_user [disc_ops]: "disc st h (read_user lsUsers row) h"
  unfolding read_user_def command_defs by (intro disc_ops disc_code disc_defect; simp)

lemma disc_getUsers [disc_ops]: "disc st [] (getUsers sv lsIds) []"
  unfolding getUsers_def command_defs by (intro disc_ops disc_code disc_defect; simp)

lemma disc_getUser [disc_ops]: "disc st [] (getUser sv nUserId) []"
  unfolding getUser_def command_defs by (intro disc_ops disc_code disc_defect; simp)

lemma disc_master_update_at [disc_ops]: "disc st [] (master_update_at sv sql) []"
  unfolding master_update_at_def command_defs by (intro disc_ops disc_code disc_defect; simp)

lemma disc_updateUser [disc_ops]: "disc st [] (updateUser sv cUser) []"
  unfolding updateUser_def command_defs by (intro disc_ops disc_code disc_defect; simp)

lemma disc_master_insert_at [disc_ops]: "disc st [] (master_insert_at sv sql vs) []"
  unfolding master_insert_at_def command_defs by (intro disc_ops disc_code disc_defect; simp)

lemma disc_insertUser [disc_ops]: "disc st [] (insertUser sv cUser) []"
  unfolding insertUser_def command_defs by (intro disc_ops disc_code disc_defect; simp)

lemma disc_setCallReport [disc_ops]: "disc st [] (setCallReport sv nUserId nPeerId nClientType) []"
  unfolding setCallReport_def command_defs by (intro disc_ops disc_code disc_defect; simp)

lemma disc_updateTotalUpdate [disc_ops]: "(st \<Longrightarrow> above h (CacheP (str ''unread''))) \<Longrightarrow> disc st h (updateTotalUpdate sv nUpdated) h"
  unfolding updateTotalUpdate_def command_defs by (intro disc_ops disc_code disc_defect; simp)

lemma disc_updateLastUpdateGroup [disc_ops]: "(st \<Longrightarrow> above h (CacheP (str ''unread''))) \<Longrightarrow> disc st h (updateLastUpdateGroup sv nUpdated) h"
  unfolding updateLastUpdateGroup_def command_defs by (intro disc_ops disc_code disc_defect; simp)

lemma disc_updateUserSignInfo [disc_ops]: "disc st [] (updateUserSignInfo sv user_id sign_info) []"
  unfolding updateUserSignInfo_def command_defs by (intro disc_ops disc_code disc_defect; simp)

lemma disc_getUserSingInfo [disc_ops]: "disc st [] (getUserSingInfo sv user_id) []"
  unfolding getUserSingInfo_def command_defs by (intro disc_ops disc_code disc_defect; simp)

lemma disc_updatePushShield [disc_ops]: "disc st [] (updatePushShield sv user_id shield_status) []"
  unfolding updatePushShield_def command_defs by (intro disc_ops disc_code disc_defect; simp)

lemma disc_getPushShield [disc_ops]: "disc st [] (getPushShield sv user_id) []"
  unfolding getPushShield_def command_defs by (intro disc_ops disc_code disc_defect; simp)

lemma disc_getChgedDeptId [disc_ops]: "disc st [] (getChgedDeptId sv nLastTime) []"
  unfolding getChgedDeptId_def command_defs by (intro disc_ops disc_code disc_defect; simp)

lemma disc_read_dept [disc_ops]: "disc st h (read_dept lsDepts row) h"
  unfolding read_dept_def command_defs by (intro disc_ops disc_code disc_defect; simp)

lemma disc_getDepts [disc_ops]: "disc st [] (getDepts sv lsDeptIds) []"
  unfolding getDepts_def command_defs by (intro disc_ops disc_code disc_defect; simp)

lemma disc_getDept [disc_ops]: "disc st [] (getDept sv nDeptId cDept) []"
  unfolding getDept_def command_defs by (intro disc_ops disc_code disc_defect; simp)

lemma disc_read_offline [disc_ops]: "disc st h (read_offline lsOffline row) h"
  unfolding read_offline_def command_defs by (intro disc_ops disc_code disc_defect; simp)

lemma disc_getOfflineFile [disc_ops]: "disc st [] (getOfflineFile sv userId) []"
  unfolding getOfflineFile_def command_defs by (intro disc_ops disc_code disc_defect; simp)

lemma disc_model_addOfflineFile [disc_ops]: "disc st [] (model_addOfflineFile sv fromId toId taskId fileName fileSize) []"
  unfolding model_addOfflineFile_def command_defs by (intro disc_ops disc_code disc_defect; simp)

lemma disc_model_delOfflineFile [disc_ops]: "disc st [] (model_delOfflineFile sv fromId toId taskId) []"
  unfolding model_delOfflineFile_def command_defs by (intro disc_ops disc_code disc_defect; simp)

lemma disc_check_password [disc_ops]: "disc st h (check_password sv md5 pass rows) h"
  unfolding check_password_def command_defs by (intro disc_ops disc_code disc_defect; simp)

lemma disc_dologin_strategy [disc_ops]: "disc st [] (dologin_strategy sv md5 name pass) []"
  unfolding dologin_strategy_def command_defs by (intro disc_ops disc_code disc_defect; simp)

lemma disc_check_limit [disc_ops]: "disc st [] (check_limit sv strDomain) []"
  unfolding check_limit_def command_defs by (intro disc_ops disc_code disc_defect; simp)

end
