(* ===== verification/Db_Sync.thy ===== *)
theory Db_Sync
  imports Db_Discipline Conn_Map
begin

text \<open>
  The synchronization of \<open>db_proxy_server/SyncCenter.cpp\<close>: what it loads when the process starts, and the thread that brings the
  recent sessions of the members of a group up to date with the chat of the group. The thread sleeps for five seconds
  between its rounds; \<open>n\<close> is how often it wakes up before it is stopped.
\<close>

text \<open>The time of the last synchronization of groups: the test for a stored value is the wrong way round.\<close>

definition init_groups :: "'w services \<Rightarrow> bytes \<Rightarrow> ('w, 'm, unit) db" where
  "init_groups sv strLastUpdateGroup =
     (if strLastUpdateGroup = [] then change (\<lambda>s. s\<lparr>m_nLastUpdateGroup := string2int strLastUpdateGroup\<rparr>)
      else do { t \<leftarrow> time_now sv; updateLastUpdateGroup sv t })"

definition sync_init :: "'w services \<Rightarrow> ('w, 'm, unit) db" where
  "sync_init sv = do {
     pCacheConn \<leftarrow> GetCacheConn sv ''unread'';
     (case pCacheConn of
        None \<Rightarrow> ret ()
      | Some c \<Rightarrow> do {
          strTotalUpdate \<leftarrow> cache_get sv c (str ''total_user_updated'');
          strLastUpdateGroup \<leftarrow> cache_get sv c (str ''last_update_group'');
          rel_conn c;
          (if strTotalUpdate \<noteq> [] then change (\<lambda>s. s\<lparr>m_nLastUpdate := string2int strTotalUpdate\<rparr>)
           else do { t \<leftarrow> time_now sv; updateTotalUpdate sv t });
          init_groups sv strLastUpdateGroup }) }"

definition read_changed :: "(u32 \<times> u32) list \<Rightarrow> row \<Rightarrow> ('w, 'm, (u32 \<times> u32) list) db" where
  "read_changed mapChangedGroup row = do {
     nGroupId \<leftarrow> GetInt row ''id'';
     nLastChat \<leftarrow> GetInt row ''lastChated'';
     ret (if nLastChat \<noteq> 0 then om_put nGroupId nLastChat mapChangedGroup else mapChangedGroup) }"

definition changed_groups :: "'w services \<Rightarrow> ('w, 'm, (u32 \<times> u32) list) db" where
  "changed_groups sv = do {
     pDBConn \<leftarrow> GetDBConn sv ''teamtalk_slave'';
     (case pDBConn of
        None \<Rightarrow> ret []
      | Some c \<Rightarrow> do {
          s \<leftarrow> State_Monad.get;
          r \<leftarrow> ExecuteQuery sv c (str ''select id, lastChated from IMGroup where status=0 and lastChated >='' @
            int2string (m_nLastUpdateGroup s));
          m \<leftarrow> (case r of None \<Rightarrow> ret [] | Some rows \<Rightarrow> foldM read_changed [] rows);
          rel_conn c;
          ret m }) }"

definition sync_member :: "'w services \<Rightarrow> u32 \<Rightarrow> u32 \<Rightarrow> u32 \<Rightarrow> ('w, 'm, unit) db" where
  "sync_member sv nGroupId nUpdate nUserId = do {
     nSessionId \<leftarrow> getSessionId sv nUserId nGroupId SESSION_TYPE_GROUP True;
     (if nSessionId \<noteq> INVALID_VALUE then do { updateSession sv nSessionId nUpdate; ret () }
      else do { addSession sv nUserId nGroupId SESSION_TYPE_GROUP; ret () }) }"

definition sync_group :: "'w services \<Rightarrow> u32 \<times> u32 \<Rightarrow> ('w, 'm, unit) db" where
  "sync_group sv = (\<lambda>(nGroupId, nUpdate). do {
     lsUsers \<leftarrow> getGroupUser sv nGroupId;
     foldM (\<lambda>_. sync_member sv nGroupId nUpdate) () lsUsers })"

definition sync_round :: "'w services \<Rightarrow> ('w, 'm, unit) db" where
  "sync_round sv = do {
     mapChangedGroup \<leftarrow> changed_groups sv;
     t \<leftarrow> time_now sv;
     updateLastUpdateGroup sv t;
     foldM (\<lambda>_. sync_group sv) () mapChangedGroup }"

primrec doSyncGroupChat :: "'w services \<Rightarrow> nat \<Rightarrow> ('w, 'm, unit) db" where
  "doSyncGroupChat sv 0 = sync_round sv"
| "doSyncGroupChat sv (Suc n) = do { sync_round sv; doSyncGroupChat sv n }"

subsection \<open>Discipline\<close>

lemma disc_init_groups [disc_ops]: "disc st [] (init_groups sv b) []"
  unfolding init_groups_def by (intro disc_ops disc_code; simp)

lemma disc_sync_init [disc_ops]: "disc st [] (sync_init sv) []"
  unfolding sync_init_def command_defs by (intro disc_ops disc_code; simp)

lemma disc_read_changed [disc_ops]: "disc st h (read_changed m row) h"
  unfolding read_changed_def by (intro disc_ops disc_code; simp)

lemma disc_changed_groups [disc_ops]: "disc st [] (changed_groups sv) []"
  unfolding changed_groups_def by (intro disc_ops disc_code; simp)

lemma disc_sync_member [disc_ops]: "disc st [] (sync_member sv nGroupId nUpdate nUserId) []"
  unfolding sync_member_def by (intro disc_ops disc_code; simp)

lemma disc_sync_group [disc_ops]: "disc st [] (sync_group sv g) []"
  unfolding sync_group_def by (cases g; simp only: prod.case) (intro disc_ops disc_code; simp)

lemma disc_sync_round [disc_ops]: "disc st [] (sync_round sv) []"
  unfolding sync_round_def by (intro disc_ops disc_code; simp)

lemma disc_doSyncGroupChat [disc_ops]: "disc st [] (doSyncGroupChat sv n) []"
  by (induction n) (simp_all only: doSyncGroupChat.simps disc_sync_round, intro disc_rules disc_sync_round)

end
