(* ===== verification/Db_Safety.thy ===== *)
theory Db_Safety
  imports Db_Sync
begin

text \<open>
  What holds for every request of the database proxy, whatever MySQL, redis and the parsers do: the worker returns
  the connections it took, and gives at most one answer, to the connection and with the sequence number of the
  request. All requests but \<open>CID_MSG_DATA\<close> keep the order of the pools, so that they cannot deadlock.
\<close>

subsection \<open>Handlers\<close>

definition one_answer :: "in_pdu \<Rightarrow> u32 \<Rightarrow> 'm answer list \<Rightarrow> bool" where
  "one_answer pPdu uuid as \<longleftrightarrow> as = [] \<or> (\<exists>a. as = [a] \<and> an_uuid a = uuid \<and> an_seq a = in_seq pPdu)"

definition serves :: "bool \<Rightarrow> in_pdu \<Rightarrow> u32 \<Rightarrow> ('w, 'm, unit) db \<Rightarrow> bool" where
  "serves st pPdu uuid m \<longleftrightarrow> (\<forall>s. held s = [] \<longrightarrow> held (snd (run_state m s)) = [] \<and>
     (\<exists>as. answers (snd (run_state m s)) = answers s @ as \<and> one_answer pPdu uuid as) \<and> calm st s (snd (run_state m s)))"

lemma serves_disc: "disc st [] m [] \<Longrightarrow> serves st p u m"
  by (auto simp: serves_def disc_def one_answer_def)

lemma serves_answer: "serves st p u (AddResponsePdu u p sid cid m)"
  by (auto simp: serves_def AddResponsePdu_def one_answer_def calm_def)

lemma serves_bind:
  assumes "disc st [] m []" "\<And>x. serves st p u (f x)"
  shows "serves st p u (m \<bind> f)"
  unfolding serves_def
proof (intro allI impI)
  fix s :: "('a, 'b) dbp" assume s: "held s = []"
  obtain x s1 where m: "run_state m s = (x, s1)" by fastforce
  from discD [OF assms(1) s m] assms(2) [of x] show "held (snd (run_state (m \<bind> f) s)) = [] \<and>
     (\<exists>as. answers (snd (run_state (m \<bind> f) s)) = answers s @ as \<and> one_answer p u as) \<and>
     calm st s (snd (run_state (m \<bind> f) s))"
    using m by (auto simp: serves_def intro: calm_trans)
qed

lemma serves_if: "(b \<Longrightarrow> serves st p u x) \<Longrightarrow> (\<not> b \<Longrightarrow> serves st p u y) \<Longrightarrow> serves st p u (if b then x else y)"
  by simp

lemma serves_option:
  "serves st p u x \<Longrightarrow> (\<And>z. serves st p u (f z)) \<Longrightarrow> serves st p u (case r of None \<Rightarrow> x | Some z \<Rightarrow> f z)"
  by (simp split: option.split)

lemma serves_prod: "(\<And>a b. serves st p u (f a b)) \<Longrightarrow> serves st p u (case r of (a, b) \<Rightarrow> f a b)"
  by (simp split: prod.split)

lemma serves_let: "serves st p u (f x) \<Longrightarrow> serves st p u (let y = x in f y)"
  by simp

lemmas serves_rules = serves_answer serves_if serves_option serves_prod serves_let serves_bind serves_disc [OF disc_ret]

lemma disc_send_to_group [disc_ops]:
  assumes "\<And>i. disc st [] (send i) []"
  shows "disc st [] (send_to_group sv a b t send) []"
  unfolding send_to_group_def by (intro assms disc_ops disc_code; simp)

lemma disc_send_to_user [disc_ops]:
  assumes "\<And>r i. disc st [] (send r i) []"
  shows "disc st [] (send_to_user sv a b t send) []"
  unfolding send_to_user_def by (intro assms disc_ops disc_code; simp)

lemma disc_token_entry [disc_ops]: "disc st [] (token_entry sv chk k v) []"
  unfolding token_entry_def by (intro disc_ops disc_code; simp)

text \<open>The list of tokens is read while the connection of the request before it has gone back.\<close>

lemma serves_getDevicesToken: "serves st p u (getDevicesToken sv dp p u)"
proof -
  have tokens: "disc st [] (GetCacheConn sv ''token'' \<bind> (\<lambda>pCacheConn. service (sv_time sv) \<bind> (\<lambda>t. case pCacheConn of
      None \<Rightarrow> ret []
    | Some c \<Rightarrow> mget sv c ks \<bind> (\<lambda>m. rel_conn c \<bind> (\<lambda>_. (case m of
         None \<Rightarrow> ret []
       | Some mapTokens \<Rightarrow> foldM (\<lambda>out (strKey, strValue). token_entry sv (chk t) strKey strValue \<bind>
           (\<lambda>e. ret (case e of None \<Rightarrow> out | Some e \<Rightarrow> out @ [e]))) [] mapTokens)))))) []" for ks chk
    by (intro disc_ops disc_code; simp)
  have "serves st p u ((GetCacheConn sv ''token'' \<bind> (\<lambda>pCacheConn. service (sv_time sv) \<bind> (\<lambda>t. case pCacheConn of
      None \<Rightarrow> ret []
    | Some c \<Rightarrow> mget sv c ks \<bind> (\<lambda>m. rel_conn c \<bind> (\<lambda>_. (case m of
         None \<Rightarrow> ret []
       | Some mapTokens \<Rightarrow> foldM (\<lambda>out (strKey, strValue). token_entry sv (chk t) strKey strValue \<bind>
           (\<lambda>e. ret (case e of None \<Rightarrow> out | Some e \<Rightarrow> out @ [e]))) [] mapTokens)))))) \<bind>
      (\<lambda>tokens. AddResponsePdu u p SID_OTHER CID_OTHER_GET_DEVICE_TOKEN_RSP (RspGetDeviceToken tokens ad)))" for ks chk ad
    by (intro serves_bind tokens serves_answer)
  note this [unfolded bind_assoc]
  then show ?thesis unfolding getDevicesToken_def Let_def
    by (intro serves_option serves_prod serves_disc [OF disc_ret])
qed

text \<open>Each handler in the order of the table.\<close>

lemma serves_dologin: "serves st p u (dologin sv cf dp p u)"
  unfolding dologin_def command_defs by (intro disc_ops disc_code serves_rules serves_disc; simp)

lemma serves_doPushShield: "serves st p u (doPushShield sv dp p u)"
  unfolding doPushShield_def command_defs by (intro disc_ops disc_code serves_rules serves_disc; simp)

lemma serves_doQueryPushShield: "serves st p u (doQueryPushShield sv dp p u)"
  unfolding doQueryPushShield_def command_defs by (intro disc_ops disc_code serves_rules serves_disc; simp)

lemma serves_do_getRecentSession: "serves st p u (do_getRecentSession sv cf dp p u)"
  unfolding do_getRecentSession_def command_defs by (intro disc_ops disc_code serves_rules serves_disc; simp)

lemma serves_deleteRecentSession: "serves st p u (deleteRecentSession sv dp p u)"
  unfolding deleteRecentSession_def command_defs by (intro disc_ops disc_code serves_rules serves_disc; simp)

lemma serves_do_getUserInfo: "serves st p u (do_getUserInfo sv dp p u)"
  unfolding do_getUserInfo_def command_defs by (intro disc_ops disc_code serves_rules serves_disc; simp)

lemma serves_getChangedUser: "serves st p u (getChangedUser sv dp p u)"
  unfolding getChangedUser_def command_defs by (intro disc_ops disc_code serves_rules serves_disc; simp)

lemma serves_getChgedDepart: "serves st p u (getChgedDepart sv dp p u)"
  unfolding getChgedDepart_def command_defs by (intro disc_ops disc_code serves_rules serves_disc; simp)

lemma serves_changeUserSignInfo: "serves st p u (changeUserSignInfo sv dp p u)"
  unfolding changeUserSignInfo_def command_defs by (intro disc_ops disc_code serves_rules serves_disc; simp)

lemma serves_do_sendMessage: "serves False p u (do_sendMessage sv cf dp p u)"
  unfolding do_sendMessage_def command_defs by (intro disc_ops disc_code serves_rules serves_disc; simp)

lemma serves_do_getMessage: "serves st p u (do_getMessage sv dp p u)"
  unfolding do_getMessage_def command_defs by (intro disc_ops disc_code serves_rules serves_disc; simp)

lemma serves_getUnreadMsgCounter: "serves st p u (getUnreadMsgCounter sv cf dp p u)"
  unfolding getUnreadMsgCounter_def command_defs by (intro disc_ops disc_code serves_rules serves_disc; simp)

lemma serves_clearUnreadMsgCounter: "serves st p u (clearUnreadMsgCounter sv dp p u)"
  unfolding clearUnreadMsgCounter_def command_defs by (intro disc_ops disc_code serves_rules serves_disc; simp)

lemma serves_getMessageById: "serves st p u (getMessageById sv dp p u)"
  unfolding getMessageById_def command_defs by (intro disc_ops disc_code serves_rules serves_disc; simp)

lemma serves_getLatestMsgId: "serves st p u (getLatestMsgId sv cf dp p u)"
  unfolding getLatestMsgId_def command_defs by (intro disc_ops disc_code serves_rules serves_disc; simp)

lemma serves_setDevicesToken: "serves st p u (setDevicesToken sv dp p u)"
  unfolding setDevicesToken_def command_defs by (intro disc_ops disc_code serves_rules serves_disc; simp)

lemma serves_setGroupPush: "serves st p u (setGroupPush sv dp p u)"
  unfolding setGroupPush_def command_defs by (intro disc_ops disc_code serves_rules serves_disc; simp)

lemma serves_getGroupPush: "serves st p u (getGroupPush sv dp p u)"
  unfolding getGroupPush_def command_defs by (intro disc_ops disc_code serves_rules serves_disc; simp)

lemma serves_getNormalGroupList: "serves st p u (getNormalGroupList sv dp p u)"
  unfolding getNormalGroupList_def command_defs by (intro disc_ops disc_code serves_rules serves_disc; simp)

lemma serves_do_getGroupInfo: "serves st p u (do_getGroupInfo sv dp p u)"
  unfolding do_getGroupInfo_def command_defs by (intro disc_ops disc_code serves_rules serves_disc; simp)

lemma serves_do_createGroup: "serves st p u (do_createGroup sv dp p u)"
  unfolding do_createGroup_def command_defs by (intro disc_ops disc_code serves_rules serves_disc; simp)

lemma serves_modifyMember: "serves st p u (modifyMember sv dp p u)"
  unfolding modifyMember_def command_defs by (intro disc_ops disc_code serves_rules serves_disc; simp)

lemma serves_hasOfflineFile: "serves st p u (hasOfflineFile sv dp p u)"
  unfolding hasOfflineFile_def command_defs by (intro disc_ops disc_code serves_rules serves_disc; simp)

lemma serves_addOfflineFile: "serves st p u (addOfflineFile sv dp p u)"
  unfolding addOfflineFile_def command_defs by (intro disc_ops disc_code serves_rules serves_disc; simp)

lemma serves_delOfflineFile: "serves st p u (delOfflineFile sv dp p u)"
  unfolding delOfflineFile_def command_defs by (intro disc_ops disc_code serves_rules serves_disc; simp)

lemmas serves_handlers =
  serves_dologin serves_doPushShield serves_doQueryPushShield serves_do_getRecentSession serves_deleteRecentSession serves_do_getUserInfo serves_getChangedUser serves_getChgedDepart serves_changeUserSignInfo serves_do_getMessage serves_getUnreadMsgCounter serves_clearUnreadMsgCounter serves_getMessageById serves_getLatestMsgId serves_setDevicesToken serves_getDevicesToken serves_setGroupPush serves_getGroupPush serves_getNormalGroupList serves_do_getGroupInfo serves_do_createGroup serves_modifyMember serves_hasOfflineFile serves_addOfflineFile serves_delOfflineFile

lemma serves_weaken: "serves True p u m \<Longrightarrow> serves st p u m"
  unfolding serves_def calm_def by blast

lemma table_serves:
  assumes "GetHandler sv cf dp cid = Some h"
  shows "serves (cid \<noteq> CID_MSG_DATA) p u (h p u)"
proof -
  have "(cid, h) \<in> set (handler_map sv cf dp)" using assms by (auto simp: GetHandler_def dest: map_of_SomeD)
  then have "\<exists>h'. h = h' \<and> (cid \<noteq> CID_MSG_DATA \<longrightarrow> serves True p u (h' p u)) \<and> serves False p u (h' p u)"
    unfolding handler_map_def list.set(2) insert_iff prod.inject list.set(1) empty_iff
    by (elim disjE conjE FalseE; intro exI [of _ h] conjI impI refl)
      (simp_all only: simp_thms serves_handlers serves_do_sendMessage)
  then show ?thesis by (cases "cid = CID_MSG_DATA") auto
qed

subsection \<open>Properties\<close>

text \<open>Services without connections, and a request that deletes an offline file.\<close>

definition no_services :: "nat services" where
  "no_services = \<lparr>sv_get = \<lambda>_ w. (None, w), sv_query = \<lambda>_ _ w. (None, w), sv_update = \<lambda>_ _ w. (None, w),
     sv_prepare = \<lambda>_ _ w. (None, w), sv_execute = \<lambda>_ _ _ w. (None, w), sv_insert_id = \<lambda>_ w. (0, w), sv_escape = \<lambda>x. x,
     sv_connect = \<lambda>_ w. (None, w), sv_db_num = \<lambda>_. 0, sv_redis = \<lambda>_ _ w. (None, w), sv_redis_format = \<lambda>_ _ w. (None, w),
     sv_time = \<lambda>w. (of_nat w, w), sv_upload = \<lambda>_ _ w. ([], w), sv_download = \<lambda>_ w. (None, w), sv_hour = \<lambda>_. 12, sv_junk = 0\<rparr>"

definition no_parsers :: db_parsers where
  "no_parsers = \<lparr>p_validate = \<lambda>_. None, p_push_shield = \<lambda>_. None, p_query_push_shield = \<lambda>_. None, p_recent_session = \<lambda>_. None,
     p_remove_session = \<lambda>_. None, p_users_info = \<lambda>_. None, p_all_user = \<lambda>_. None, p_department = \<lambda>_. None,
     p_sign_info = \<lambda>_. None, p_msg_data = \<lambda>_. None, p_msg_list = \<lambda>_. None, p_unread = \<lambda>_. None, p_read_ack = \<lambda>_. None,
     p_msg_by_id = \<lambda>_. None, p_latest_msg_id = \<lambda>_. None, p_device_token = \<lambda>_. None, p_get_device_token = \<lambda>_. None,
     p_group_list = \<lambda>_. None, p_group_info = \<lambda>_. None, p_group_create = \<lambda>_. None, p_group_change = \<lambda>_. None,
     p_group_shield = \<lambda>_. None, p_get_shield = \<lambda>_. None, p_has_offline = \<lambda>_. None, p_add_offline = \<lambda>_. None,
     p_del_offline = \<lambda>_. None\<rparr>"

definition plain_config :: db_config where
  "plain_config = \<lparr>strFileSite = [], strAudioEnc = [], md5_hex = \<lambda>x. x\<rparr>"

definition fresh_dbp :: "nat \<Rightarrow> (nat, db_rsp) dbp" where
  "fresh_dbp now = \<lparr>world = now, cobj = \<lambda>_. \<lparr>m_pContext = None, m_last_connect_time = 0\<rparr>, freed = [], held = [], asks = [],
     executed = [], answers = [], defects = [], m_nLastUpdate = 0, m_nLastUpdateGroup = 0, g_hmLimits = \<lambda>_. []\<rparr>"

definition del_parsers :: db_parsers where
  "del_parsers = no_parsers\<lparr>p_del_offline := \<lambda>_. Some (1, 2, [])\<rparr>"

definition del_pdu :: in_pdu where
  "del_pdu = \<lparr>in_cid = CID_FILE_DEL_OFFLINE_REQ, in_seq = 0, in_body = []\<rparr>"

lemma del_handler: "GetHandler sv cf dp CID_FILE_DEL_OFFLINE_REQ = Some (delOfflineFile sv dp)"
  by (simp add: GetHandler_def handler_map_def const_defs)

text \<open>
  C25: whatever MySQL, redis and the parsers return, a worker of the database proxy that has finished a request holds no
  connection of a pool, and it has returned none twice. Except for \<open>CID_MSG_DATA\<close>, it has used none after
  returning it.
\<close>

theorem requests_return_connections:
  assumes "GetHandler sv cf dp cid = Some h" "held s = []"
  shows "held (snd (run_state (h pPdu conn_uuid) s)) = [] \<and>
    (\<exists>ds. defects (snd (run_state (h pPdu conn_uuid) s)) = defects s @ ds \<and> ReleaseTwice \<notin> set ds \<and>
      (cid \<noteq> CID_MSG_DATA \<longrightarrow> UseAfterRelease \<notin> set ds))"
  using table_serves [OF assms(1), of pPdu conn_uuid] assms(2) unfolding serves_def calm_def by blast

lemma requests_return_connections_witness:
  "held (snd (run_state (delOfflineFile no_services del_parsers del_pdu 1) (fresh_dbp 0))) = []"
  using requests_return_connections [OF del_handler, of "fresh_dbp 0" no_services del_parsers del_pdu 1]
  by (simp add: fresh_dbp_def)

text \<open>
  C26: a request of the database proxy gets at most one answer, whatever fails on the way, and the answer carries the id
  of the connection and the sequence number of the request, by which the message server finds who asked.
\<close>

theorem requests_answered_once:
  assumes "GetHandler sv cf dp cid = Some h" "held s = []"
  shows "answers (snd (run_state (h pPdu conn_uuid) s)) = answers s \<or>
    (\<exists>a. answers (snd (run_state (h pPdu conn_uuid) s)) = answers s @ [a] \<and>
      an_uuid a = conn_uuid \<and> an_seq a = in_seq pPdu)"
  using table_serves [OF assms(1), of pPdu conn_uuid] assms(2) unfolding serves_def one_answer_def by fastforce

lemma requests_answered_once_witness:
  "length (answers (snd (run_state (delOfflineFile no_services del_parsers del_pdu 1) (fresh_dbp 0)))) \<le> 1"
  using requests_answered_once [OF del_handler, of "fresh_dbp 0" no_services del_parsers del_pdu 1]
  by (auto simp: fresh_dbp_def)

text \<open>
  What a thread of the process runs: a worker a request, the thread of \<open>CSyncCenter\<close> its rounds. A thread with the connections
  \<open>hs\<close> asks for one of \<open>p\<close> on the way.
\<close>

datatype db_thread = Serving u16 in_pdu u32 | Syncing nat

definition thread_program :: "'w services \<Rightarrow> db_config \<Rightarrow> db_parsers \<Rightarrow> db_thread \<Rightarrow> ('w, db_rsp, unit) db option" where
  "thread_program sv cf dp th = (case th of
       Serving cid pPdu conn_uuid \<Rightarrow> map_option (\<lambda>h. h pPdu conn_uuid) (GetHandler sv cf dp cid)
     | Syncing n \<Rightarrow> Some (doSyncGroupChat sv n))"

definition asks_for :: "'w services \<Rightarrow> db_config \<Rightarrow> db_parsers \<Rightarrow> ('w, db_rsp) dbp \<Rightarrow> db_thread \<Rightarrow> (pool_id \<times> nat) list \<Rightarrow>
    pool_id \<Rightarrow> bool" where
  "asks_for sv cf dp s th hs p \<longleftrightarrow> held s = [] \<and> asks s = [] \<and>
     (\<exists>m. thread_program sv cf dp th = Some m \<and> (hs, p) \<in> set (asks (snd (run_state m s))))"

lemma thread_serves:
  assumes "thread_program sv cf dp th = Some m" "\<And>pPdu u. th \<noteq> Serving CID_MSG_DATA pPdu u"
  shows "\<exists>p u. serves True p u m"
proof (cases th)
  case (Serving cid pPdu u)
  with assms(1) obtain h where h: "GetHandler sv cf dp cid = Some h" "m = h pPdu u" by (auto simp: thread_program_def)
  have "cid \<noteq> CID_MSG_DATA" using assms(2) [of pPdu u] Serving by simp
  with table_serves [OF h(1), of pPdu u] h(2) show ?thesis by auto
next
  case (Syncing n)
  with assms(1) have "m = doSyncGroupChat sv n" by (simp add: thread_program_def)
  then show ?thesis by (blast intro: serves_disc disc_doSyncGroupChat)
qed

lemma asks_above:
  assumes "asks_for sv cf dp s th hs p" "\<And>pPdu u. th \<noteq> Serving CID_MSG_DATA pPdu u"
  shows "above hs p"
proof -
  obtain m where m: "thread_program sv cf dp th = Some m" "held s = []" "asks s = []" "(hs, p) \<in> set (asks (snd (run_state m s)))"
    using assms(1) unfolding asks_for_def by blast
  from thread_serves [OF m(1) assms(2)] m(2)
  obtain as where as: "asks (snd (run_state m s)) = asks s @ as" "\<forall>(hs, p) \<in> set as. above hs p"
    unfolding serves_def calm_def by blast
  from m(3,4) as show ?thesis by auto
qed

text \<open>
  C27: the workers of the database proxy and its synchronization thread cannot deadlock on the pools with requests other
  than \<open>CID_MSG_DATA\<close>. If some threads wait for connections, each at an ask its program makes with what it then has, and a
  thread waits in a pool only while other threads have connections of it, then a thread that does not wait has
  a connection, and will return it.
\<close>

theorem workers_never_deadlock:
  assumes "finite T" "t0 \<in> T" "waits t0 \<noteq> None"
    and ask: "\<And>t p. t \<in> T \<Longrightarrow> waits t = Some p \<Longrightarrow>
      (\<forall>pPdu u. th t \<noteq> Serving CID_MSG_DATA pPdu u) \<and> asks_for (sv t) (cf t) (dp t) (st t) (th t) (holds t) p"
    and taken: "\<And>t p. t \<in> T \<Longrightarrow> waits t = Some p \<Longrightarrow> \<exists>t' \<in> T. \<exists>i. (p, i) \<in> set (holds t')"
  shows "\<exists>t \<in> T. waits t = None \<and> holds t \<noteq> []"
proof -
  let ?W = "{t \<in> T. waits t \<noteq> None}"
  have W: "finite ?W" "t0 \<in> ?W" using assms(1-3) by simp_all
  let ?r = "\<lambda>t. rank (the (waits t))"
  from W have "Max (?r ` ?W) \<in> ?r ` ?W" by (intro Max_in) auto
  then obtain t where t: "t \<in> ?W" "?r t = Max (?r ` ?W)" by (metis (no_types, lifting) image_iff)
  then have max: "\<forall>t' \<in> ?W. ?r t' \<le> ?r t" using W(1) by simp
  from t(1) obtain p where p: "t \<in> T" "waits t = Some p" by auto
  from taken [OF p] obtain t' i where t': "t' \<in> T" "(p, i) \<in> set (holds t')" by blast
  have "waits t' = None"
  proof (rule ccontr)
    assume "waits t' \<noteq> None"
    then obtain q where q: "waits t' = Some q" by blast
    from asks_above [of "sv t'" "cf t'" "dp t'" "st t'" "th t'" "holds t'" q] ask [OF t'(1) q]
    have "above (holds t') q" by blast
    with t'(2) have "rank p < rank q" by (auto simp: above_def)
    moreover have "rank q \<le> rank p" using max t'(1) q p(2) by force
    ultimately show False by simp
  qed
  with t' show ?thesis by force
qed

lemma del_asks: "asks_for no_services plain_config del_parsers (fresh_dbp 0) (Serving CID_FILE_DEL_OFFLINE_REQ del_pdu 0)
    [] (DbP (str ''teamtalk_master''))"
proof -
  have "([], DbP (str ''teamtalk_master'')) \<in> set (asks (snd (run_state
      (delOfflineFile no_services del_parsers del_pdu 0) (fresh_dbp 0))))"
    by (simp add: delOfflineFile_def del_parsers_def no_parsers_def model_delOfflineFile_def master_update_def GetDBConn_def
        run_take_conn no_services_def fresh_dbp_def)
  moreover have "thread_program no_services plain_config del_parsers (Serving CID_FILE_DEL_OFFLINE_REQ del_pdu 0) =
      Some (delOfflineFile no_services del_parsers del_pdu 0)" by (simp add: thread_program_def del_handler)
  ultimately show ?thesis unfolding asks_for_def by (simp add: fresh_dbp_def)
qed

lemma workers_never_deadlock_witness:
  "\<exists>t \<in> {0, 1 :: nat}. (if t = 0 then Some (DbP (str ''teamtalk_master'')) else None) = None \<and>
     (if t = 0 then [] else [(DbP (str ''teamtalk_master''), 7 :: nat)]) \<noteq> []"
  by (rule workers_never_deadlock [where ?t0.0 = 0 and th = "\<lambda>_. Serving CID_FILE_DEL_OFFLINE_REQ del_pdu 0"
      and sv = "\<lambda>_. no_services" and cf = "\<lambda>_. plain_config" and dp = "\<lambda>_. del_parsers" and st = "\<lambda>_. fresh_dbp 0"])
    (use del_asks in \<open>auto simp: const_defs split: if_splits\<close>)

text \<open>The asks of a program stay in the list while it goes on.\<close>

lemma asks_grow: "disc False (held s) m h' \<Longrightarrow> x \<in> set (asks s) \<Longrightarrow> x \<in> set (asks (snd (run_state m s)))"
  unfolding disc_def calm_def by fastforce

lemma asks_bind:
  assumes "x \<in> set (asks (snd (run_state m s)))" "disc False (held s) m h1" "\<And>y. disc False h1 (f y) h2"
  shows "x \<in> set (asks (snd (run_state (m \<bind> f) s)))"
proof -
  obtain y s1 where m: "run_state m s = (y, s1)" by fastforce
  then have "held s1 = h1" using discD [OF assms(2) refl m] by simp
  then show ?thesis using asks_grow [of s1 "f y" h2 x] assms(1,3) m by simp
qed

lemma take_asks:
  assumes "disc False (held s) (f None) h'" "\<And>c. disc False (c # held s) (f (Some c)) h'"
  shows "(held s, p) \<in> set (asks (snd (run_state (take_conn sv p \<bind> f) s)))"
proof -
  obtain r w where g: "sv_get sv p (world s) = (r, w)" by fastforce
  show ?thesis
  proof (cases r)
    case None
    let ?s = "s\<lparr>asks := asks s @ [(held s, p)], world := w\<rparr>"
    show ?thesis using g None asks_grow [of ?s "f None" h' "(held s, p)"] assms(1) by (simp add: run_take_conn)
  next
    case (Some i)
    let ?s = "s\<lparr>asks := asks s @ [(held s, p)], world := w, held := (p, i) # held s\<rparr>"
    show ?thesis using g Some asks_grow [of ?s "f (Some (p, i))" h' "(held s, p)"] assms(2) by (simp add: run_take_conn)
  qed
qed

lemma updateGroupChat_asks:
  "(held s, DbP (str ''teamtalk_master'')) \<in> set (asks (snd (run_state (updateGroupChat sv g) s)))"
  unfolding updateGroupChat_def GetDBConn_def by (rule take_asks [where h' = "held s"]) (intro disc_ops disc_code; simp)+

lemma insert_row_works:
  assumes rows: "\<And>c q w. \<exists>n w'. sv_prepare sv c q w = (Some n, w')" "\<And>c q vs w. \<exists>n w'. sv_execute sv c q vs w = (Some (Suc n), w')"
  shows "fst (run_state (insert_row sv c q vs) s) = Some True"
proof -
  have t: "\<exists>s1. run_state (touch c) s = ((), s1)" for c and s :: "('a, 'b) dbp"
    by (intro exI [of _ "snd (run_state (touch c) s)"]) (simp add: prod_eq_iff)
  have upd: "fst (run_state (StmtExecuteUpdate sv st) s') = True" for st and s' :: "('a, 'b) dbp"
  proof -
    obtain s1 where s1: "run_state (touch (st_conn st)) s' = ((), s1)" using t by blast
    obtain k w' where "sv_execute sv (st_conn st) (st_sql st) (m_param_bind st) (world s1) = (Some (Suc k), w')"
      using rows(2) by blast
    with s1 show ?thesis by (simp add: StmtExecuteUpdate_def service_def)
  qed
  obtain s1 where s1: "run_state (touch c) s = ((), s1)" using t by blast
  obtain n w where "sv_prepare sv c q (world s1) = (Some n, w)" using rows(1) by blast
  with s1 upd show ?thesis
    by (simp add: insert_row_def StmtInit_def service_def split: prod.split) (metis fst_conv)
qed

text \<open>
  C28: the code that stores a group message breaks the order of the pools. When the sender is in the group, the pools have
  connections and the row can be inserted, \<open>sendMessage\<close> of the group messages asks for a connection to the master
  while it already has one; this is the pattern that blocks a pool for ever.
\<close>

theorem group_message_asks_twice:
  assumes pools: "\<And>p w. \<exists>i w'. sv_get sv p w = (Some i, w')"
    and rows: "\<And>c q w. \<exists>n w'. sv_prepare sv c q w = (Some n, w')" "\<And>c q vs w. \<exists>n w'. sv_execute sv c q vs w = (Some (Suc n), w')"
    and member: "fst (run_state (isInGroup sv nFromId nGroupId) s)" and none: "held s = []"
  shows "\<exists>i. ([(DbP (str ''teamtalk_master''), i)], DbP (str ''teamtalk_master'')) \<in>
    set (asks (snd (run_state (group_sendMessage sv nFromId nGroupId nMsgType nCreateTime nMsgId strMsgContent) s)))"
proof -
  let ?m = "DbP (str ''teamtalk_master'')"
  obtain s1 where s1: "run_state (isInGroup sv nFromId nGroupId) s = (True, s1)" "held s1 = []"
    using member discD [OF disc_isInGroup [of False] none] by (metis prod.collapse)
  obtain i s2 where s2: "run_state (GetDBConn sv ''teamtalk_master'') s1 = (Some (?m, i), s2)" "held s2 = [(?m, i)]"
    using pools [of ?m "world s1"] s1(2) by (auto simp: GetDBConn_def run_take_conn)
  let ?rest = "\<lambda>_. rel_conn (?m, i) \<bind> (\<lambda>_. ret False)"
  have ins: "\<exists>s3. run_state (insert_row sv (?m, i) q vs) s2 = (Some True, s3) \<and> held s3 = [(?m, i)]" for q vs
    using insert_row_works [OF rows, of "(?m, i)" q vs s2] discD [OF disc_insert_row [of False "(?m, i)" "[(?m, i)]"] s2(2)]
    by (metis list.set_intros(1) prod.collapse)
  have chat: "(held s3, ?m) \<in> set (asks (snd (run_state ((updateGroupChat sv nGroupId \<bind> (\<lambda>_.
      incMessageCount sv nFromId nGroupId \<bind> (\<lambda>_. clearMessageCount sv nFromId nGroupId \<bind> (\<lambda>_. ret ())))) \<bind> ?rest) s3)))"
    if "held s3 = [(?m, i)]" for s3 :: "('a, 'b) dbp"
  proof (rule asks_bind)
    show "(held s3, ?m) \<in> set (asks (snd (run_state (updateGroupChat sv nGroupId \<bind> (\<lambda>_.
        incMessageCount sv nFromId nGroupId \<bind> (\<lambda>_. clearMessageCount sv nFromId nGroupId \<bind> (\<lambda>_. ret ())))) s3)))"
      by (rule asks_bind [OF updateGroupChat_asks disc_updateGroupChat, where ?h2.0 = "held s3"]) (intro disc_ops disc_code; simp)
    show "disc False (held s3) (updateGroupChat sv nGroupId \<bind> (\<lambda>_. incMessageCount sv nFromId nGroupId \<bind>
        (\<lambda>_. clearMessageCount sv nFromId nGroupId \<bind> (\<lambda>_. ret ())))) [(?m, i)]"
      unfolding that by (intro disc_ops disc_code; simp)
    show "disc False [(?m, i)] (?rest y) []" for y by (intro disc_ops disc_code)
  qed
  obtain s3 where s3: "run_state (insert_row sv (?m, i) (str ''insert into '' @ group_table nGroupId @
      str '' (`groupId`, `userId`, `msgId`, `content`, `type`, `status`, `updated`, `created`) values(?, ?, ?, ?, ?, ?, ?, ?)'')
      [PInt nGroupId, PInt nFromId, PInt nMsgId, PStr strMsgContent, PInt nMsgType, PInt 0, PInt nCreateTime,
       PInt nCreateTime]) s2 = (Some True, s3)" "held s3 = [(?m, i)]"
    using ins by blast
  have "run_state (group_sendMessage sv nFromId nGroupId nMsgType nCreateTime nMsgId strMsgContent) s =
      run_state ((updateGroupChat sv nGroupId \<bind> (\<lambda>_. incMessageCount sv nFromId nGroupId \<bind>
        (\<lambda>_. clearMessageCount sv nFromId nGroupId \<bind> (\<lambda>_. ret ())))) \<bind> ?rest) s3"
    unfolding group_sendMessage_def using s1 s2 s3 by (simp split: prod.split)
  with chat [OF s3(2)] s3(2) show ?thesis by auto
qed

text \<open>Services that always work: the answer of redis is 1.\<close>

definition good_services :: "nat services" where
  "good_services = no_services\<lparr>sv_get := \<lambda>_ w. (Some 0, w), sv_query := \<lambda>_ _ w. (Some [], w), sv_update := \<lambda>_ _ w. (Some 1, w),
     sv_prepare := \<lambda>_ _ w. (Some 9, w), sv_execute := \<lambda>_ _ _ w. (Some 1, w), sv_insert_id := \<lambda>_ w. (1, w),
     sv_connect := \<lambda>_ w. (Some (0, False), w),
     sv_redis := \<lambda>_ args w. (Some (if hd args = str ''SELECT'' then RStatus (str ''OK'') else RString [49]), w)\<rparr>"

lemma good_member: "fst (run_state (isInGroup good_services u g) (fresh_dbp 10))"
  by (simp add: isInGroup_def with_cache_def GetCacheConn_def run_take_conn good_services_def no_services_def fresh_dbp_def
      hget_def command_def with_reply_def CacheInit_def touch_def get_obj_def set_obj_def service_def redisConnect_def
      redisCommand_def use_context_def str_def string_reply_def rel_conn_def c_str_def)

lemma group_message_asks_twice_witness:
  "\<exists>i. ([(DbP (str ''teamtalk_master''), i)], DbP (str ''teamtalk_master'')) \<in>
    set (asks (snd (run_state (group_sendMessage good_services 1 2 MSG_TYPE_GROUP_TEXT 5 6 [65]) (fresh_dbp 10))))"
  by (rule group_message_asks_twice [OF _ _ _ good_member]) (simp_all add: good_services_def no_services_def fresh_dbp_def)

end
