(* ===== verification/Proxy_Conn.thy ===== *)
theory Proxy_Conn
  imports Db_Safety Im_Conn Conn_Map
begin

text \<open>
  The connections of the database proxy (\<open>db_proxy_server/ProxyConn.cpp\<close>, \<open>ProxyTask.cpp\<close> and \<open>base/ThreadPool.cpp\<close>). The
  event loop reads requests and puts tasks into the queues of the workers; a worker runs a handler, which leaves its
  answer in a list; the event loop sends the answers. Since a socket handle can be used again meanwhile, an answer
  finds its connection by a number that only grows, the uuid. Objects are numbered by the order of their creation; an
  access to a deleted connection or through a null pointer makes an event return \<open>None\<close>. A connection holds the bytes it
  has received, the contents of its \<open>m_in_buf\<close> (the buffer itself is that of theory \<open>Byte_Buffer\<close>); requests are cut from
  them as \<open>CProxyConn::OnRead\<close> does. A worker runs a whole handler as one step.
\<close>

type_synonym cptr = nat

record proxy_conn =
  px_handle :: handle
  m_uuid :: u32
  px_last_send_tick :: u64
  px_last_recv_tick :: u64
  px_in_buf :: bytes

record 'w proxy_task =
  m_conn_uuid :: u32
  m_pdu_handler :: "'w handler"
  m_pPdu :: "in_pdu option"

datatype proxy_msg = PxAnswer "db_rsp answer" | PxHeartBeat | PxStopReceive

record 'w proxy_state =
  s_uuid_alloctor :: u32
  g_proxy_conn_map :: "(handle \<times> cptr) list"
  g_uuid_conn_map :: "(u32 \<times> cptr) list"
  pobj :: "cptr \<Rightarrow> proxy_conn option"
  m_worker_list :: "'w proxy_task list list"
  s_response_pdu_list :: "(u32 \<times> db_rsp answer option) list"
  the_db :: "('w, db_rsp) dbp"
  proxy_out :: "(cptr \<times> proxy_msg) list"
  proxy_in :: "(cptr \<times> in_pdu) list"
  uuids :: "u32 list"

text \<open>
  \<open>proxy_in\<close>, the requests read, and \<open>uuids\<close>, the number of each connection in the order of their creation, are for
  the theorems only.
\<close>

subsection \<open>The thread pool\<close>

definition PushTask :: "nat \<Rightarrow> 't \<Rightarrow> 't list list \<Rightarrow> 't list list" where
  "PushTask i t ws = ws[i := ws ! i @ [t]]"

text \<open>A random worker; without workers the code divides by zero.\<close>

definition AddTask :: "nat \<Rightarrow> 't \<Rightarrow> 't list list \<Rightarrow> 't list list option" where
  "AddTask random t ws = (if length ws = 0 then None else Some (PushTask (random mod length ws) t ws))"

definition PoolInit :: "nat \<Rightarrow> 't list list" where
  "PoolInit worker_size = replicate worker_size []"

subsection \<open>Connections\<close>

definition next_uuid :: "u32 \<Rightarrow> u32" where
  "next_uuid a = (if a + 1 = 0 then a + 1 + 1 else a + 1)"

definition new_CProxyConn :: "u64 \<Rightarrow> 'w proxy_state \<Rightarrow> cptr \<times> 'w proxy_state" where
  "new_CProxyConn tick st =
     (let u = next_uuid (s_uuid_alloctor st); this = length (uuids st) in
      (this, st\<lparr>s_uuid_alloctor := u, g_uuid_conn_map := cm_insert u this (g_uuid_conn_map st),
         pobj := (pobj st)(this \<mapsto> \<lparr>px_handle = NETLIB_INVALID_HANDLE, m_uuid = u, px_last_send_tick = tick,
           px_last_recv_tick = tick, px_in_buf = []\<rparr>),
         uuids := uuids st @ [u]\<rparr>))"

definition ProxyOnConnect :: "cptr \<Rightarrow> handle \<Rightarrow> 'w proxy_state \<Rightarrow> 'w proxy_state option" where
  "ProxyOnConnect this h st = (case pobj st this of
       None \<Rightarrow> None
     | Some ob \<Rightarrow> Some (st\<lparr>pobj := (pobj st)(this \<mapsto> ob\<lparr>px_handle := h\<rparr>),
         g_proxy_conn_map := cm_insert h this (g_proxy_conn_map st)\<rparr>))"

text \<open>\<open>Close\<close> gives up the reference of the loop, after which the object is deleted.\<close>

definition ProxyClose :: "cptr \<Rightarrow> 'w proxy_state \<Rightarrow> 'w proxy_state option" where
  "ProxyClose this st = (case pobj st this of
       None \<Rightarrow> None
     | Some ob \<Rightarrow>
         (let st = (if px_handle ob \<noteq> NETLIB_INVALID_HANDLE
              then st\<lparr>g_proxy_conn_map := cm_erase (px_handle ob) (g_proxy_conn_map st),
                g_uuid_conn_map := cm_erase (m_uuid ob) (g_uuid_conn_map st)\<rparr>
              else st)
          in Some (st\<lparr>pobj := (pobj st)(this := None)\<rparr>)))"

definition ProxySendPdu :: "u64 \<Rightarrow> proxy_msg \<Rightarrow> cptr \<Rightarrow> 'w proxy_state \<Rightarrow> 'w proxy_state option" where
  "ProxySendPdu tick m this st = (case pobj st this of
       None \<Rightarrow> None
     | Some ob \<Rightarrow> Some (st\<lparr>pobj := (pobj st)(this \<mapsto> ob\<lparr>px_last_send_tick := tick\<rparr>),
         proxy_out := proxy_out st @ [(this, m)]\<rparr>))"

definition ProxyOnTimer :: "u64 \<Rightarrow> cptr \<Rightarrow> 'w proxy_state \<Rightarrow> 'w proxy_state option" where
  "ProxyOnTimer curr_tick this st = do {
     ob \<leftarrow> pobj st this;
     st \<leftarrow> (if curr_tick > px_last_send_tick ob + SERVER_HEARTBEAT_INTERVAL
          then ProxySendPdu curr_tick PxHeartBeat this st else Some st);
     if curr_tick > px_last_recv_tick ob + SERVER_TIMEOUT then ProxyClose this st else Some st }"

definition for_conns :: "(cptr \<Rightarrow> 'w proxy_state \<Rightarrow> 'w proxy_state option) \<Rightarrow> (handle \<times> cptr) list \<Rightarrow> 'w proxy_state \<Rightarrow>
    'w proxy_state option" where
  "for_conns f m st = fold (\<lambda>(h, c) s. Option.bind s (f c)) m (Some st)"

definition proxy_timer_callback :: "u64 \<Rightarrow> 'w proxy_state \<Rightarrow> 'w proxy_state option" where
  "proxy_timer_callback cur_time st = for_conns (ProxyOnTimer cur_time) (g_proxy_conn_map st) st"

text \<open>
  At \<open>SIGTERM\<close> the message servers are told to send no more requests; the thread of \<open>CSyncCenter\<close> that the code stops here, and
  the exit four seconds later, are left out.
\<close>

definition sig_handler :: "u64 \<Rightarrow> 'w proxy_state \<Rightarrow> 'w proxy_state option" where
  "sig_handler tick st = for_conns (ProxySendPdu tick PxStopReceive) (g_proxy_conn_map st) st"

subsection \<open>Requests and answers\<close>

text \<open>The second half of \<open>HandlePduBuf\<close>: a request that has been read.\<close>

definition HandleRequest :: "'w services \<Rightarrow> db_config \<Rightarrow> db_parsers \<Rightarrow> cptr \<Rightarrow> in_pdu \<Rightarrow> nat \<Rightarrow> 'w proxy_state \<Rightarrow>
    'w proxy_state option" where
  "HandleRequest sv cf dp this pPdu random st = do {
     ob \<leftarrow> pobj st this;
     let st = st\<lparr>proxy_in := proxy_in st @ [(this, pPdu)]\<rparr>;
     if in_cid pPdu = CID_OTHER_HEARTBEAT then Some st
     else (case GetHandler sv cf dp (in_cid pPdu) of
         None \<Rightarrow> Some st
       | Some h \<Rightarrow> do {
           ws \<leftarrow> AddTask random \<lparr>m_conn_uuid = m_uuid ob, m_pdu_handler = h, m_pPdu = Some pPdu\<rparr> (m_worker_list st);
           Some (st\<lparr>m_worker_list := ws\<rparr>) }) }"

definition request_of :: "pdu \<Rightarrow> in_pdu" where
  "request_of p = \<lparr>in_cid = ph_command_id (m_pdu_header p), in_seq = ph_seq_num (m_pdu_header p),
     in_body = take (unat (GetBodyLength p)) (GetBodyData p)\<rparr>"

text \<open>
  What an \<open>OnRead\<close> finds: the time, what new memory holds, the length in a new PDU header, and the numbers that \<open>rand\<close> gives.
\<close>

record read_env =
  re_tick :: u64
  re_junk :: "nat \<Rightarrow> u8"
  re_len0 :: u32
  re_random :: "nat \<Rightarrow> nat"

text \<open>
  \<open>True\<close>: an exception. \<open>ReadPdu\<close> returns \<open>NULL\<close> when the PDU it is given is shorter than a header, and the code reads the
  command id of it.
\<close>

definition HandlePduBuf :: "'w services \<Rightarrow> db_config \<Rightarrow> db_parsers \<Rightarrow> read_env \<Rightarrow> cptr \<Rightarrow> bytes \<Rightarrow> u32 \<Rightarrow> nat \<Rightarrow> 'w proxy_state \<Rightarrow>
    (bool \<times> 'w proxy_state) option" where
  "HandlePduBuf sv cf dp e this pdu_buf pdu_len random st =
     (case ReadPdu (re_junk e) (re_len0 e) pdu_buf pdu_len of
        Ret (Some pPdu) \<Rightarrow> map_option (Pair False) (HandleRequest sv cf dp this (request_of pPdu) random st)
      | Ret None \<Rightarrow> None
      | Throw ex \<Rightarrow> Some (True, st)
      | Undef \<Rightarrow> None)"

lemma available_rest:
  assumes "IsPduAvailable buf (of_nat (length buf)) = Inr (Some n)"
  shows "length (drop (unat n) buf) < length buf"
proof -
  have "n \<noteq> 0" "buf \<noteq> []" using assms by (auto simp: IsPduAvailable_def IM_PDU_HEADER_LEN_def Let_def split: if_splits)
  then show ?thesis by (simp add: unat_gt_0)
qed

text \<open>The loop over the bytes received; \<open>m_in_buf.Read (NULL, pdu_len)\<close> drops a request that has been handled.\<close>

function read_pdus :: "'w services \<Rightarrow> db_config \<Rightarrow> db_parsers \<Rightarrow> read_env \<Rightarrow> cptr \<Rightarrow> nat \<Rightarrow> bytes \<Rightarrow> 'w proxy_state \<Rightarrow>
    (bool \<times> bytes \<times> 'w proxy_state) option" where
  "read_pdus sv cf dp e this i buf st =
     (case IsPduAvailable buf (of_nat (length buf)) of
        Inl ex \<Rightarrow> Some (True, buf, st)
      | Inr None \<Rightarrow> Some (False, buf, st)
      | Inr (Some pdu_len) \<Rightarrow>
          (case HandlePduBuf sv cf dp e this buf pdu_len (re_random e i) st of
             None \<Rightarrow> None
           | Some (thrown, st) \<Rightarrow> if thrown then Some (True, buf, st)
               else read_pdus sv cf dp e this (Suc i) (drop (unat pdu_len) buf) st))"
  by pat_completeness auto
termination
  by (relation "measure (\<lambda>(sv, cf, dp, e, this, i, buf, st). length buf)") (auto dest: available_rest)

declare read_pdus.simps [simp del]

text \<open>\<open>chunks\<close> is what \<open>netlib_recv\<close> returns until it would block; the catch block closes the connection.\<close>

definition ProxyOnRead :: "'w services \<Rightarrow> db_config \<Rightarrow> db_parsers \<Rightarrow> read_env \<Rightarrow> bytes list \<Rightarrow> cptr \<Rightarrow>
    'w proxy_state \<Rightarrow> 'w proxy_state option" where
  "ProxyOnRead sv cf dp e chunks this st = do {
     ob \<leftarrow> pobj st this;
     let ob = (if chunks = [] then ob else ob\<lparr>px_last_recv_tick := re_tick e\<rparr>);
     let buf = px_in_buf ob @ concat chunks;
     (thrown, rest, st) \<leftarrow> read_pdus sv cf dp e this 0 buf (st\<lparr>pobj := (pobj st)(this \<mapsto> ob\<lparr>px_in_buf := buf\<rparr>)\<rparr>);
     ob \<leftarrow> pobj st this;
     let st = st\<lparr>pobj := (pobj st)(this \<mapsto> ob\<lparr>px_in_buf := rest\<rparr>)\<rparr>;
     if thrown then ProxyClose this st else Some st }"

definition CProxyTask_run :: "'w proxy_task \<Rightarrow> 'w proxy_state \<Rightarrow> 'w proxy_state" where
  "CProxyTask_run t st = (case m_pPdu t of
       None \<Rightarrow> st\<lparr>s_response_pdu_list := s_response_pdu_list st @ [(m_conn_uuid t, None)]\<rparr>
     | Some p \<Rightarrow>
         (let db = snd (run_state (m_pdu_handler t p (m_conn_uuid t)) ((the_db st)\<lparr>answers := []\<rparr>)) in
          st\<lparr>the_db := db, s_response_pdu_list := s_response_pdu_list st @ map (\<lambda>a. (an_uuid a, Some a)) (answers db)\<rparr>))"

definition WorkerExecute :: "nat \<Rightarrow> 'w proxy_state \<Rightarrow> 'w proxy_state" where
  "WorkerExecute i st = (case m_worker_list st ! i of
       [] \<Rightarrow> st
     | t # ts \<Rightarrow> CProxyTask_run t (st\<lparr>m_worker_list := (m_worker_list st)[i := ts]\<rparr>))"

definition get_proxy_conn_by_uuid :: "u32 \<Rightarrow> 'w proxy_state \<Rightarrow> cptr option" where
  "get_proxy_conn_by_uuid uuid st = map_of (g_uuid_conn_map st) uuid"

definition send_response :: "u64 \<Rightarrow> u32 \<times> db_rsp answer option \<Rightarrow> 'w proxy_state \<Rightarrow> 'w proxy_state option" where
  "send_response tick = (\<lambda>(conn_uuid, pPdu) st. (case get_proxy_conn_by_uuid conn_uuid st of
       None \<Rightarrow> Some st
     | Some pConn \<Rightarrow> (case pPdu of
           Some a \<Rightarrow> ProxySendPdu tick (PxAnswer a) pConn st
         | None \<Rightarrow> ProxyClose pConn st)))"

fun response_loop :: "u64 \<Rightarrow> (u32 \<times> db_rsp answer option) list \<Rightarrow> 'w proxy_state \<Rightarrow> 'w proxy_state option" where
  "response_loop tick [] st = Some st"
| "response_loop tick (r # rs) st = do {
     st \<leftarrow> send_response tick r (st\<lparr>s_response_pdu_list := rs\<rparr>);
     response_loop tick rs st }"

definition SendResponsePduList :: "u64 \<Rightarrow> 'w proxy_state \<Rightarrow> 'w proxy_state option" where
  "SendResponsePduList tick st = response_loop tick (s_response_pdu_list st) st"

subsection \<open>The events of the process\<close>

datatype proxy_event =
    PxAccept u64 handle
  | PxRead read_env handle "bytes list"
  | PxHangup handle
  | PxTimer u64
  | PxLoop u64
  | PxWork nat
  | PxTerm u64

definition with_conn :: "handle \<Rightarrow> (cptr \<Rightarrow> 'w proxy_state \<Rightarrow> 'w proxy_state option) \<Rightarrow> 'w proxy_state \<Rightarrow> 'w proxy_state option" where
  "with_conn h f st = (case map_of (g_proxy_conn_map st) h of None \<Rightarrow> Some st | Some c \<Rightarrow> f c st)"

fun proxy_event_do :: "'w services \<Rightarrow> db_config \<Rightarrow> db_parsers \<Rightarrow> proxy_event \<Rightarrow> 'w proxy_state \<Rightarrow> 'w proxy_state option" where
  "proxy_event_do sv cf dp (PxAccept tick h) st = (case new_CProxyConn tick st of (this, st) \<Rightarrow> ProxyOnConnect this h st)"
| "proxy_event_do sv cf dp (PxRead e h chunks) st = with_conn h (ProxyOnRead sv cf dp e chunks) st"
| "proxy_event_do sv cf dp (PxHangup h) st = with_conn h ProxyClose st"
| "proxy_event_do sv cf dp (PxTimer tick) st = proxy_timer_callback tick st"
| "proxy_event_do sv cf dp (PxLoop tick) st = SendResponsePduList tick st"
| "proxy_event_do sv cf dp (PxWork i) st = Some (WorkerExecute i st)"
| "proxy_event_do sv cf dp (PxTerm tick) st = sig_handler tick st"

definition proxy_start :: "nat \<Rightarrow> ('w, db_rsp) dbp \<Rightarrow> 'w proxy_state" where
  "proxy_start thread_num db = \<lparr>s_uuid_alloctor = 0, g_proxy_conn_map = [], g_uuid_conn_map = [], pobj = \<lambda>_. None,
     m_worker_list = PoolInit thread_num, s_response_pdu_list = [], the_db = db, proxy_out = [], proxy_in = [], uuids = []\<rparr>"

text \<open>A new socket has a handle that no open connection has; a worker is one of the pool.\<close>

fun proxy_may :: "proxy_event \<Rightarrow> 'w proxy_state \<Rightarrow> bool" where
  "proxy_may (PxAccept tick h) st \<longleftrightarrow> h \<noteq> NETLIB_INVALID_HANDLE \<and> map_of (g_proxy_conn_map st) h = None"
| "proxy_may (PxWork i) st \<longleftrightarrow> i < length (m_worker_list st)"
| "proxy_may _ st \<longleftrightarrow> True"

text \<open>
  What the clients of the proxy, the servers of the system, keep to: less than 3 GiB of a connection wait to be read, and no
  request has a length field of 1 to 15.
\<close>

function whole_frames :: "bytes \<Rightarrow> bool" where
  "whole_frames buf = (case IsPduAvailable buf (of_nat (length buf)) of
     Inr (Some n) \<Rightarrow> 16 \<le> n \<and> whole_frames (drop (unat n) buf) | _ \<Rightarrow> True)"
  by pat_completeness auto
termination
  by (relation "measure length") (auto dest: available_rest)

declare whole_frames.simps [simp del]

fun well_framed :: "proxy_event \<Rightarrow> 'w proxy_state \<Rightarrow> bool" where
  "well_framed (PxRead e h chunks) st \<longleftrightarrow>
     (case Option.bind (map_of (g_proxy_conn_map st) h) (pobj st) of None \<Rightarrow> True
      | Some ob \<Rightarrow> length (px_in_buf ob @ concat chunks) < 3 * 2 ^ 30 \<and> whole_frames (px_in_buf ob @ concat chunks))"
| "well_framed _ st \<longleftrightarrow> True"

inductive proxy_reach :: "'w services \<Rightarrow> db_config \<Rightarrow> db_parsers \<Rightarrow> 'w proxy_state \<Rightarrow> bool"
  for sv :: "'w services" and cf :: db_config and dp :: db_parsers where
  start: "thread_num > 0 \<Longrightarrow> held db = [] \<Longrightarrow> proxy_reach sv cf dp (proxy_start thread_num db)"
| event: "proxy_reach sv cf dp st \<Longrightarrow> proxy_may ev st \<Longrightarrow> proxy_event_do sv cf dp ev st = Some st' \<Longrightarrow> proxy_reach sv cf dp st'"

subsection \<open>Invariant\<close>

text \<open>
  An object that is alive is in the map of handles under its own handle, and the maps lead to objects that are alive.
\<close>

definition px_ok :: "'w proxy_state \<Rightarrow> bool" where
  "px_ok st \<longleftrightarrow> cm_ok (g_proxy_conn_map st) \<and> cm_ok (g_uuid_conn_map st) \<and> m_worker_list st \<noteq> [] \<and>
     (\<forall>h c. map_of (g_proxy_conn_map st) h = Some c \<longrightarrow> (\<exists>ob. pobj st c = Some ob \<and> px_handle ob = h)) \<and>
     (\<forall>u c. map_of (g_uuid_conn_map st) u = Some c \<longrightarrow> (\<exists>ob. pobj st c = Some ob \<and> m_uuid ob = u)) \<and>
     (\<forall>c ob. pobj st c = Some ob \<longrightarrow> c < length (uuids st) \<and> uuids st ! c = m_uuid ob \<and>
       px_handle ob \<noteq> NETLIB_INVALID_HANDLE \<and> map_of (g_proxy_conn_map st) (px_handle ob) = Some c)"

lemma px_okD:
  assumes "px_ok st"
  shows "cm_ok (g_proxy_conn_map st)" "cm_ok (g_uuid_conn_map st)" "m_worker_list st \<noteq> []"
    "map_of (g_proxy_conn_map st) h = Some c \<Longrightarrow> \<exists>ob. pobj st c = Some ob \<and> px_handle ob = h"
    "map_of (g_uuid_conn_map st) u = Some c \<Longrightarrow> \<exists>ob. pobj st c = Some ob \<and> m_uuid ob = u"
    "pobj st c = Some ob \<Longrightarrow> c < length (uuids st) \<and> uuids st ! c = m_uuid ob \<and>
       px_handle ob \<noteq> NETLIB_INVALID_HANDLE \<and> map_of (g_proxy_conn_map st) (px_handle ob) = Some c"
  using assms unfolding px_ok_def by blast+

text \<open>What the answers depend on.\<close>

definition answers_out :: "'w proxy_state \<Rightarrow> (cptr \<times> db_rsp answer) list" where
  "answers_out st = List.map_filter (\<lambda>(c, m). case m of PxAnswer a \<Rightarrow> Some (c, a) | _ \<Rightarrow> None) (proxy_out st)"

definition same_answers :: "'w proxy_state \<Rightarrow> 'w proxy_state \<Rightarrow> bool" where
  "same_answers st st' \<longleftrightarrow> answers_out st' = answers_out st \<and> proxy_in st' = proxy_in st \<and> uuids st' = uuids st \<and>
     m_worker_list st' = m_worker_list st \<and> s_response_pdu_list st' = s_response_pdu_list st \<and> the_db st' = the_db st \<and>
     s_uuid_alloctor st' = s_uuid_alloctor st"

lemma same_answers_refl [simp]: "same_answers st st"
  by (simp add: same_answers_def)

lemma same_answers_trans: "same_answers st s1 \<Longrightarrow> same_answers s1 s2 \<Longrightarrow> same_answers st s2"
  by (simp add: same_answers_def)

text \<open>An operation on one connection that keeps the others alive.\<close>

definition local_op :: "(cptr \<Rightarrow> 'w proxy_state \<Rightarrow> 'w proxy_state option) \<Rightarrow> bool" where
  "local_op f \<longleftrightarrow> (\<forall>c st. px_ok st \<longrightarrow> pobj st c \<noteq> None \<longrightarrow> (\<exists>st'. f c st = Some st' \<and> px_ok st' \<and> same_answers st st' \<and>
     (\<forall>c'. c' \<noteq> c \<longrightarrow> pobj st' c' = pobj st c')))"

lemma local_opE:
  assumes "local_op f" "px_ok st" "pobj st c \<noteq> None"
  obtains st' where "f c st = Some st'" "px_ok st'" "same_answers st st'" "\<And>c'. c' \<noteq> c \<Longrightarrow> pobj st' c' = pobj st c'"
  using assms unfolding local_op_def by blast

lemma local_close: "local_op ProxyClose"
  unfolding local_op_def
proof (intro allI impI)
  fix c and st :: "'w proxy_state" assume ok: "px_ok st" and "pobj st c \<noteq> None"
  then obtain ob where ob: "pobj st c = Some ob" by blast
  note c = px_okD(6) [OF ok ob]
  let ?st = "st\<lparr>g_proxy_conn_map := cm_erase (px_handle ob) (g_proxy_conn_map st),
      g_uuid_conn_map := cm_erase (m_uuid ob) (g_uuid_conn_map st), pobj := (pobj st)(c := None)\<rparr>"
  have "px_ok ?st"
    unfolding px_ok_def
  proof (intro conjI allI impI)
    show "cm_ok (g_proxy_conn_map ?st)" "cm_ok (g_uuid_conn_map ?st)" "m_worker_list ?st \<noteq> []"
      using px_okD(1-3) [OF ok] by (simp_all add: cm.inv_erase)
  next
    fix h c' assume "map_of (g_proxy_conn_map ?st) h = Some c'"
    then have h: "h \<noteq> px_handle ob" "map_of (g_proxy_conn_map st) h = Some c'" by (auto simp: map_of_cm_erase split: if_splits)
    with px_okD(4) [OF ok h(2)] ob show "\<exists>o'. pobj ?st c' = Some o' \<and> px_handle o' = h" by auto
  next
    fix u c' assume "map_of (g_uuid_conn_map ?st) u = Some c'"
    then have u: "u \<noteq> m_uuid ob" "map_of (g_uuid_conn_map st) u = Some c'" by (auto simp: map_of_cm_erase split: if_splits)
    with px_okD(5) [OF ok u(2)] ob show "\<exists>o'. pobj ?st c' = Some o' \<and> m_uuid o' = u" by auto
  next
    fix c' o' assume "pobj ?st c' = Some o'"
    then have c': "c' \<noteq> c" "pobj st c' = Some o'" by (auto split: if_splits)
    note f = px_okD(6) [OF ok c'(2)]
    then show "c' < length (uuids ?st)" "uuids ?st ! c' = m_uuid o'" "px_handle o' \<noteq> NETLIB_INVALID_HANDLE" by simp_all
    have "px_handle o' \<noteq> px_handle ob" using f c c'(1) by auto
    then show "map_of (g_proxy_conn_map ?st) (px_handle o') = Some c'" using f by (simp add: map_of_cm_erase)
  qed
  moreover have "ProxyClose c st = Some ?st" using ob c by (simp add: ProxyClose_def)
  ultimately show "\<exists>st'. ProxyClose c st = Some st' \<and> px_ok st' \<and> same_answers st st' \<and> (\<forall>c'. c' \<noteq> c \<longrightarrow> pobj st' c' = pobj st c')"
    by (auto simp: same_answers_def answers_out_def)
qed

lemma px_ok_ticks:
  assumes "px_ok st" "pobj st c = Some ob" "px_handle ob' = px_handle ob" "m_uuid ob' = m_uuid ob"
  shows "px_ok (st\<lparr>pobj := (pobj st)(c \<mapsto> ob')\<rparr>)"
  using assms unfolding px_ok_def by (auto split: if_splits; metis option.inject)

lemma px_ok_cong:
  "px_ok st \<Longrightarrow> g_proxy_conn_map st' = g_proxy_conn_map st \<Longrightarrow> g_uuid_conn_map st' = g_uuid_conn_map st \<Longrightarrow>
    pobj st' = pobj st \<Longrightarrow> uuids st' = uuids st \<Longrightarrow> m_worker_list st' \<noteq> [] \<Longrightarrow> px_ok st'"
  unfolding px_ok_def by simp

lemma send_ok:
  assumes "px_ok st" "pobj st c = Some ob"
  shows "\<exists>st'. ProxySendPdu tick m c st = Some st' \<and> px_ok st' \<and> (\<forall>c'. c' \<noteq> c \<longrightarrow> pobj st' c' = pobj st c') \<and> pobj st' c \<noteq> None \<and>
    st' = st\<lparr>pobj := pobj st', proxy_out := proxy_out st @ [(c, m)]\<rparr>"
proof -
  let ?ob = "ob\<lparr>px_last_send_tick := tick\<rparr>"
  have "px_ok (st\<lparr>pobj := (pobj st)(c \<mapsto> ?ob)\<rparr>)" by (rule px_ok_ticks [OF assms]) simp_all
  then have "px_ok (st\<lparr>pobj := (pobj st)(c \<mapsto> ?ob), proxy_out := proxy_out st @ [(c, m)]\<rparr>)"
    by (rule px_ok_cong) (use px_okD(3) [OF assms(1)] in simp_all)
  with assms(2) show ?thesis by (simp add: ProxySendPdu_def)
qed

lemma local_send:
  assumes "\<And>a. m \<noteq> PxAnswer a"
  shows "local_op (ProxySendPdu tick m)"
  unfolding local_op_def
proof (intro allI impI)
  fix c and st :: "'w proxy_state" assume ok: "px_ok st" and "pobj st c \<noteq> None"
  then obtain ob where ob: "pobj st c = Some ob" by blast
  from send_ok [OF ok ob, of tick m] obtain st' where st': "ProxySendPdu tick m c st = Some st'" "px_ok st'"
    "\<forall>c'. c' \<noteq> c \<longrightarrow> pobj st' c' = pobj st c'" "st' = st\<lparr>pobj := pobj st', proxy_out := proxy_out st @ [(c, m)]\<rparr>" by blast
  have "same_answers st (st\<lparr>pobj := pobj st', proxy_out := proxy_out st @ [(c, m)]\<rparr>)"
    using assms by (simp add: same_answers_def answers_out_def List.map_filter_def split: proxy_msg.split)
  with st' show "\<exists>st'. ProxySendPdu tick m c st = Some st' \<and> px_ok st' \<and> same_answers st st' \<and>
      (\<forall>c'. c' \<noteq> c \<longrightarrow> pobj st' c' = pobj st c')" by metis
qed

lemma local_timer: "local_op (ProxyOnTimer tick)"
  unfolding local_op_def
proof (intro allI impI)
  fix c and st :: "'w proxy_state" assume ok: "px_ok st" and "pobj st c \<noteq> None"
  then obtain ob where ob: "pobj st c = Some ob" by blast
  let ?s = "if tick > px_last_send_tick ob + SERVER_HEARTBEAT_INTERVAL then ProxySendPdu tick PxHeartBeat c st else Some st"
  obtain s1 where s1: "?s = Some s1" "px_ok s1" "same_answers st s1" "\<And>c'. c' \<noteq> c \<Longrightarrow> pobj s1 c' = pobj st c'" "pobj s1 c \<noteq> None"
  proof (cases "tick > px_last_send_tick ob + SERVER_HEARTBEAT_INTERVAL")
    case True
    from local_opE [OF local_send [of PxHeartBeat tick] ok, of c] ob obtain s1 where
      s1: "ProxySendPdu tick PxHeartBeat c st = Some s1" "px_ok s1" "same_answers st s1" "\<And>c'. c' \<noteq> c \<Longrightarrow> pobj s1 c' = pobj st c'"
      by auto
    moreover have "pobj s1 c \<noteq> None" using send_ok [OF ok ob, of tick PxHeartBeat] s1(1) by auto
    ultimately show ?thesis using True that by simp
  qed (use that ok ob in auto)
  obtain s2 where s2: "(if tick > px_last_recv_tick ob + SERVER_TIMEOUT then ProxyClose c s1 else Some s1) = Some s2" "px_ok s2"
    "same_answers s1 s2" "\<And>c'. c' \<noteq> c \<Longrightarrow> pobj s2 c' = pobj s1 c'"
  proof (cases "tick > px_last_recv_tick ob + SERVER_TIMEOUT")
    case True
    from local_opE [OF local_close s1(2,5)] show ?thesis using True that by (metis (full_types))
  qed (use that s1(2) in auto)
  have "ProxyOnTimer tick c st = Some s2" using ob s1(1) s2(1) by (simp add: ProxyOnTimer_def)
  with s1 s2 show "\<exists>st'. ProxyOnTimer tick c st = Some st' \<and> px_ok st' \<and> same_answers st st' \<and>
      (\<forall>c'. c' \<noteq> c \<longrightarrow> pobj st' c' = pobj st c')" by (auto intro: same_answers_trans)
qed

lemma for_conns_local:
  "local_op f \<Longrightarrow> px_ok st \<Longrightarrow> distinct (map snd m) \<Longrightarrow> \<forall>(h, c) \<in> set m. pobj st c \<noteq> None \<Longrightarrow>
    \<exists>st'. for_conns f m st = Some st' \<and> px_ok st' \<and> same_answers st st'"
proof (induction m arbitrary: st)
  case (Cons x m)
  obtain h c where x: "x = (h, c)" by fastforce
  from local_opE [OF Cons.prems(1,2), of c] Cons.prems(4) x obtain s1 where
    s1: "f c st = Some s1" "px_ok s1" "same_answers st s1" "\<And>c'. c' \<noteq> c \<Longrightarrow> pobj s1 c' = pobj st c'" by auto
  have "\<forall>(h, c) \<in> set m. pobj s1 c \<noteq> None" using Cons.prems(3,4) x s1(4) by force
  from Cons.IH [OF Cons.prems(1) s1(2) _ this] Cons.prems(3) obtain st' where
    "for_conns f m s1 = Some st'" "px_ok st'" "same_answers s1 st'" by auto
  moreover have "for_conns f (x # m) st = for_conns f m s1" using x s1(1) by (simp add: for_conns_def)
  ultimately show ?case using s1(3) same_answers_trans by metis
qed (simp add: for_conns_def)

lemma proxy_map_conns:
  assumes "px_ok st"
  shows "distinct (map snd (g_proxy_conn_map st))" "\<forall>(h, c) \<in> set (g_proxy_conn_map st). pobj st c \<noteq> None"
proof -
  note ok = px_okD [OF assms]
  have in_map: "(h, c) \<in> set (g_proxy_conn_map st) \<longleftrightarrow> map_of (g_proxy_conn_map st) h = Some c" for h c
    using ok(1) by (simp add: cm_ok_def)
  then show "\<forall>(h, c) \<in> set (g_proxy_conn_map st). pobj st c \<noteq> None" using ok(4) by fastforce
  have "inj_on snd (set (g_proxy_conn_map st))"
    using ok(4) by (auto simp: inj_on_def in_map) (metis option.inject)
  moreover have "distinct (g_proxy_conn_map st)" using ok(1) by (simp add: cm_ok_def distinct_map)
  ultimately show "distinct (map snd (g_proxy_conn_map st))" by (simp add: distinct_map)
qed

subsection \<open>Counting requests and answers\<close>

definition answered :: "cptr \<Rightarrow> u16 \<Rightarrow> 'w proxy_state \<Rightarrow> nat" where
  "answered c q st = length (filter (\<lambda>(c', a). c' = c \<and> an_seq a = q) (answers_out st))"

definition waiting :: "u32 \<Rightarrow> u16 \<Rightarrow> 'w proxy_state \<Rightarrow> nat" where
  "waiting u q st = length (filter (\<lambda>(u', r). u' = u \<and> (\<exists>a. r = Some a \<and> an_seq a = q)) (s_response_pdu_list st))"

definition task_for :: "u32 \<Rightarrow> u16 \<Rightarrow> 'w proxy_task \<Rightarrow> bool" where
  "task_for u q t \<longleftrightarrow> m_conn_uuid t = u \<and> (\<exists>p. m_pPdu t = Some p \<and> in_seq p = q)"

definition queued :: "u32 \<Rightarrow> u16 \<Rightarrow> 'w proxy_state \<Rightarrow> nat" where
  "queued u q st = length (filter (task_for u q) (concat (m_worker_list st)))"

definition asked :: "cptr \<Rightarrow> u16 \<Rightarrow> 'w proxy_state \<Rightarrow> nat" where
  "asked c q st = length (filter (\<lambda>(c', p). c' = c \<and> in_seq p = q) (proxy_in st))"

definition px_cnt :: "'w proxy_state \<Rightarrow> bool" where
  "px_cnt st \<longleftrightarrow> (distinct (uuids st) \<longrightarrow> (\<forall>c < length (uuids st). \<forall>q.
     answered c q st + waiting (uuids st ! c) q st + queued (uuids st ! c) q st \<le> asked c q st))"

definition px_known :: "'w services \<Rightarrow> db_config \<Rightarrow> db_parsers \<Rightarrow> 'w proxy_state \<Rightarrow> bool" where
  "px_known sv cf dp st \<longleftrightarrow> held (the_db st) = [] \<and>
     (\<forall>t \<in> set (concat (m_worker_list st)). m_conn_uuid t \<in> set (uuids st) \<and>
       (\<exists>p. m_pPdu t = Some p \<and> GetHandler sv cf dp (in_cid p) = Some (m_pdu_handler t))) \<and>
     (\<forall>r \<in> set (s_response_pdu_list st). fst r \<in> set (uuids st)) \<and>
     (\<forall>x \<in> set (answers_out st). fst x < length (uuids st))"

definition px_num :: "'w proxy_state \<Rightarrow> bool" where
  "px_num st \<longleftrightarrow> (length (uuids st) < 2 ^ 32 \<longrightarrow>
     s_uuid_alloctor st = of_nat (length (uuids st)) \<and> uuids st = map (\<lambda>i. of_nat (Suc i)) [0..<length (uuids st)])"

definition px_inv :: "'w services \<Rightarrow> db_config \<Rightarrow> db_parsers \<Rightarrow> 'w proxy_state \<Rightarrow> bool" where
  "px_inv sv cf dp st \<longleftrightarrow> px_ok st \<and> px_cnt st \<and> px_known sv cf dp st \<and> px_num st"

lemma px_inv_same: "px_inv sv cf dp st \<Longrightarrow> same_answers st st' \<Longrightarrow> px_ok st' \<Longrightarrow> px_inv sv cf dp st'"
  by (simp add: px_inv_def px_cnt_def px_known_def px_num_def same_answers_def answered_def waiting_def queued_def asked_def)

lemma filter_concat_update:
  "i < length ws \<Longrightarrow> length (filter P (concat (ws[i := x]))) + length (filter P (ws ! i)) =
    length (filter P (concat ws)) + length (filter P x)"
proof (induction ws arbitrary: i)
  case (Cons w ws)
  then show ?case by (cases i) auto
qed simp

lemma uuids_distinct:
  assumes "px_num st" "length (uuids st) < 2 ^ 32"
  shows "distinct (uuids st)"
proof -
  let ?n = "length (uuids st)"
  have "inj_on (\<lambda>i. of_nat (Suc i) :: u32) {0..<?n}"
  proof (rule inj_onI)
    fix i j assume "i \<in> {0..<?n}" "j \<in> {0..<?n}" and eq: "(of_nat (Suc i) :: u32) = of_nat (Suc j)"
    with assms(2) have "Suc i < 2 ^ 32" "Suc j < 2 ^ 32" by simp_all
    then show "i = j" using arg_cong [OF eq, of unat] unat_of_nat_32 by (metis Suc_inject)
  qed
  then have "distinct (map (\<lambda>i. of_nat (Suc i) :: u32) [0..<?n])" by (simp only: distinct_map distinct_upt set_upt)
  with assms show ?thesis by (simp add: px_num_def)
qed

lemma px_invD:
  assumes "px_inv sv cf dp st"
  shows "px_ok st" "px_cnt st" "px_known sv cf dp st" "px_num st"
  using assms by (auto simp: px_inv_def)

lemma px_cntI:
  assumes "px_cnt st" "uuids st' = uuids st"
    and "\<And>c q. distinct (uuids st) \<Longrightarrow> c < length (uuids st) \<Longrightarrow>
      answered c q st' + waiting (uuids st ! c) q st' + queued (uuids st ! c) q st' + asked c q st \<le>
      answered c q st + waiting (uuids st ! c) q st + queued (uuids st ! c) q st + asked c q st'"
  shows "px_cnt st'"
  unfolding px_cnt_def assms(2)
proof (intro impI allI)
  fix c q assume d: "distinct (uuids st)" and c: "c < length (uuids st)"
  then have "answered c q st + waiting (uuids st ! c) q st + queued (uuids st ! c) q st \<le> asked c q st"
    using assms(1) by (simp add: px_cnt_def)
  with assms(3) [OF d c, of q]
  show "answered c q st' + waiting (uuids st ! c) q st' + queued (uuids st ! c) q st' \<le> asked c q st'" by linarith
qed

lemma HandleRequest_inv:
  assumes inv: "px_inv sv cf dp st" and ob: "pobj st c = Some ob"
  shows "\<exists>st'. HandleRequest sv cf dp c p r st = Some st' \<and> px_inv sv cf dp st' \<and> pobj st' = pobj st"
proof -
  note inv' = px_invD [OF inv] and c = px_okD(6) [OF px_invD(1) [OF inv] ob]
  let ?st = "st\<lparr>proxy_in := proxy_in st @ [(c, p)]\<rparr>"
  have ask: "asked c' q ?st = asked c' q st + (if c' = c \<and> in_seq p = q then 1 else 0)" for c' q by (simp add: asked_def)
  have st: "px_inv sv cf dp ?st"
    unfolding px_inv_def
  proof (intro conjI)
    show "px_ok ?st" by (rule px_ok_cong [OF inv'(1)]) (use px_okD(3) [OF inv'(1)] in simp_all)
    show "px_cnt ?st" by (rule px_cntI [OF inv'(2)]) (simp_all add: ask, simp_all add: answered_def answers_out_def waiting_def queued_def)
    show "px_known sv cf dp ?st" "px_num ?st" using inv'(3,4) by (simp_all add: px_known_def px_num_def answers_out_def)
  qed
  show ?thesis
  proof (cases "in_cid p = CID_OTHER_HEARTBEAT \<or> GetHandler sv cf dp (in_cid p) = None")
    case True
    then show ?thesis using ob st by (auto simp: HandleRequest_def Let_def)
  next
    case False
    then obtain h where h: "in_cid p \<noteq> CID_OTHER_HEARTBEAT" "GetHandler sv cf dp (in_cid p) = Some h" by auto
    let ?t = "\<lparr>m_conn_uuid = m_uuid ob, m_pdu_handler = h, m_pPdu = Some p\<rparr>" and ?ws = "m_worker_list st"
    let ?i = "r mod length ?ws"
    let ?st' = "?st\<lparr>m_worker_list := PushTask ?i ?t ?ws\<rparr>"
    have i: "?i < length ?ws" using px_okD(3) [OF inv'(1)] by simp
    have q: "queued u q ?st' = queued u q st + (if u = m_uuid ob \<and> in_seq p = q then 1 else 0)" for u q
      using filter_concat_update [OF i, of "task_for u q" "?ws ! ?i @ [?t]"] by (auto simp: queued_def PushTask_def task_for_def)
    have "px_inv sv cf dp ?st'"
      unfolding px_inv_def
    proof (intro conjI)
      show "px_ok ?st'" by (rule px_ok_cong [OF inv'(1)]) (use px_okD(3) [OF inv'(1)] in \<open>simp_all add: PushTask_def\<close>)
      show "px_cnt ?st'"
      proof (rule px_cntI [OF inv'(2)])
        fix c' q' assume "distinct (uuids st)" "c' < length (uuids st)"
        then have u: "uuids st ! c' = m_uuid ob \<longleftrightarrow> c' = c" using c nth_eq_iff_index_eq by metis
        have same: "answered c' q' ?st' = answered c' q' st" "waiting (uuids st ! c') q' ?st' = waiting (uuids st ! c') q' st"
          "asked c' q' ?st' = asked c' q' ?st" by (simp_all add: answered_def answers_out_def waiting_def asked_def)
        show "answered c' q' ?st' + waiting (uuids st ! c') q' ?st' + queued (uuids st ! c') q' ?st' + asked c' q' st \<le>
            answered c' q' st + waiting (uuids st ! c') q' st + queued (uuids st ! c') q' st + asked c' q' ?st'"
          unfolding same q ask by (simp add: u)
      qed simp
      have t: "set (concat (PushTask ?i ?t ?ws)) \<subseteq> insert ?t (set (concat ?ws))"
        using i set_update_subset_insert [of ?ws ?i "?ws ! ?i @ [?t]"] nth_mem [OF i] by (auto simp: PushTask_def)
      have "m_uuid ob \<in> set (uuids st)" using c nth_mem by metis
      with inv'(3) t h(2) show "px_known sv cf dp ?st'" by (auto simp: px_known_def answers_out_def)
      show "px_num ?st'" using inv'(4) by (simp add: px_num_def)
    qed
    moreover have "HandleRequest sv cf dp c p r st = Some ?st'"
      using ob h px_okD(3) [OF inv'(1)] by (simp add: HandleRequest_def Let_def AddTask_def)
    ultimately show ?thesis by auto
  qed
qed

text \<open>A request that is at least a header long is read; a shorter one is not, and the null pointer is used.\<close>

lemma ReadPdu_frame:
  assumes av: "IsPduAvailable buf (of_nat (length buf)) = Inr (Some n)" and small: "length buf < 3 * 2 ^ 30" and n: "16 \<le> n"
  shows "\<exists>h p. buf = encode_header h @ drop 16 buf \<and> ReadPdu junk len0 buf n = Ret (Some p) \<and> m_pdu_header p = h \<and>
    wf_buffer (m_buf p) \<and> contents (m_buf p) = take (unat n) buf"
proof -
  have len: "unat (of_nat (length buf) :: u32) = length buf" using small by (intro unat_of_nat_32) simp
  have b: "16 \<le> length buf" "unat n \<le> length buf" "ReadUint32 buf = n" "n \<noteq> 0"
    using av len by (auto simp: IsPduAvailable_def IM_PDU_HEADER_LEN_def Let_def word_less_nat_alt split: if_splits)
  obtain h where h: "buf = encode_header h @ drop 16 buf" using split_header [OF b(1)] by blast
  have nh: "ph_length h = n" using b(3) by (subst (asm) h) (simp add: encode_header_def)
  have "unat n + unat n div 4 < 2 ^ 32" using b(2) small by (intro quarter_fits) simp
  with ReadPdu_Got [OF h n b(2), of junk len0] nh b(4) h show ?thesis by auto
qed

lemma HandlePduBuf_inv:
  assumes inv: "px_inv sv cf dp st" and "pobj st c \<noteq> None"
  shows "case HandlePduBuf sv cf dp e c buf n r st of None \<Rightarrow> True | Some (t, st') \<Rightarrow> px_inv sv cf dp st' \<and> pobj st' = pobj st"
    and "ReadPdu (re_junk e) (re_len0 e) buf n = Ret (Some p) \<Longrightarrow> \<exists>st'. HandlePduBuf sv cf dp e c buf n r st = Some (False, st')"
proof -
  obtain ob where "pobj st c = Some ob" using assms(2) by blast
  from HandleRequest_inv [OF inv this] have q: "\<exists>st'. HandleRequest sv cf dp c x r st = Some st' \<and> px_inv sv cf dp st' \<and> pobj st' = pobj st" for x
    by blast
  show "case HandlePduBuf sv cf dp e c buf n r st of None \<Rightarrow> True | Some (t, st') \<Rightarrow> px_inv sv cf dp st' \<and> pobj st' = pobj st"
    using q inv by (auto simp: HandlePduBuf_def split: outcome.split option.split) (metis option.inject)+
  show "\<exists>st'. HandlePduBuf sv cf dp e c buf n r st = Some (False, st')" if "ReadPdu (re_junk e) (re_len0 e) buf n = Ret (Some p)"
    using q [of "request_of p"] that by (auto simp: HandlePduBuf_def)
qed

lemma read_pdus_inv:
  "px_inv sv cf dp st \<Longrightarrow> pobj st c \<noteq> None \<Longrightarrow>
    (case read_pdus sv cf dp e c i buf st of None \<Rightarrow> \<not> (length buf < 3 * 2 ^ 30 \<and> whole_frames buf)
     | Some (t, rest, st') \<Rightarrow> px_inv sv cf dp st' \<and> pobj st' c \<noteq> None)"
proof (induction sv cf dp e c i buf st rule: read_pdus.induct)
  case (1 sv cf dp e c i buf st)
  note eq = read_pdus.simps [of sv cf dp e c i buf st]
  show ?case
  proof (cases "IsPduAvailable buf (of_nat (length buf))")
    case (Inl ex)
    then show ?thesis using "1.prems" by (simp add: eq)
  next
    case av: (Inr r)
    show ?thesis
    proof (cases r)
      case None
      then show ?thesis using av "1.prems" by (simp add: eq)
    next
      case (Some n)
      note av = av [unfolded Some] and frames = whole_frames.simps [of buf]
      show ?thesis
      proof (cases "HandlePduBuf sv cf dp e c buf n (re_random e i) st")
        case None
        have "\<not> (length buf < 3 * 2 ^ 30 \<and> whole_frames buf)"
        proof
          assume "length buf < 3 * 2 ^ 30 \<and> whole_frames buf"
          then have b: "length buf < 3 * 2 ^ 30" "16 \<le> n" using av frames by simp_all
          from ReadPdu_frame [OF av this] obtain p where "ReadPdu (re_junk e) (re_len0 e) buf n = Ret (Some p)" by blast
          from HandlePduBuf_inv(2) [OF "1.prems" this, of "re_random e i"] None show False by auto
        qed
        then show ?thesis using None av by (simp add: eq)
      next
        case h: (Some x)
        obtain t st1 where x: "x = (t, st1)" by (cases x)
        have s1: "px_inv sv cf dp st1" "pobj st1 c \<noteq> None"
          using HandlePduBuf_inv(1) [OF "1.prems", of e buf n "re_random e i"] h "1.prems"(2) by (simp_all add: x)
        have "length buf < 3 * 2 ^ 30 \<and> whole_frames buf \<Longrightarrow> length (drop (unat n) buf) < 3 * 2 ^ 30 \<and> whole_frames (drop (unat n) buf)"
          using av frames by (simp add: less_imp_diff_less)
        then show ?thesis
          using "1.IH" [OF av refl h [unfolded x] refl _ s1] av h s1 by (auto simp: eq x split: option.splits)
      qed
    qed
  qed
qed

lemma ProxyOnRead_inv:
  assumes inv: "px_inv sv cf dp st" and ob: "pobj st c = Some ob"
  shows "case ProxyOnRead sv cf dp e chunks c st of
      None \<Rightarrow> \<not> (length (px_in_buf ob @ concat chunks) < 3 * 2 ^ 30 \<and> whole_frames (px_in_buf ob @ concat chunks))
    | Some st' \<Rightarrow> px_inv sv cf dp st'"
proof -
  let ?buf = "px_in_buf ob @ concat chunks"
  let ?ob = "(if chunks = [] then ob else ob\<lparr>px_last_recv_tick := re_tick e\<rparr>)\<lparr>px_in_buf := ?buf\<rparr>"
  let ?st = "st\<lparr>pobj := (pobj st)(c \<mapsto> ?ob)\<rparr>"
  have touched: "px_inv sv cf dp (s\<lparr>pobj := (pobj s)(c \<mapsto> o2)\<rparr>)"
    if "px_inv sv cf dp s" "pobj s c = Some o1" "px_handle o2 = px_handle o1" "m_uuid o2 = m_uuid o1" for s o1 o2
    by (rule px_inv_same [OF that(1) _ px_ok_ticks [OF px_invD(1) [OF that(1)] that(2-4)]]) (simp add: same_answers_def answers_out_def)
  have st: "px_inv sv cf dp ?st" by (rule touched [OF inv ob]) simp_all
  have same: "px_in_buf (if chunks = [] then ob else ob\<lparr>px_last_recv_tick := re_tick e\<rparr>) = px_in_buf ob" by simp
  show ?thesis
  proof (cases "read_pdus sv cf dp e c 0 ?buf ?st")
    case None
    then show ?thesis using read_pdus_inv [OF st, of c ?buf e 0] ob by (simp add: ProxyOnRead_def Let_def same)
  next
    case (Some x)
    obtain t rest s1 where x: "x = (t, rest, s1)" by (cases x)
    obtain o1 where s1: "px_inv sv cf dp s1" "pobj s1 c = Some o1"
      using read_pdus_inv [OF st, of c ?buf e 0] Some by (auto simp: x)
    let ?s2 = "s1\<lparr>pobj := (pobj s1)(c \<mapsto> o1\<lparr>px_in_buf := rest\<rparr>)\<rparr>"
    have s2: "px_inv sv cf dp ?s2" by (rule touched [OF s1]) simp_all
    have read: "ProxyOnRead sv cf dp e chunks c st = (if t then ProxyClose c ?s2 else Some ?s2)"
      using ob s1(2) Some by (simp add: ProxyOnRead_def Let_def same x)
    have "pobj ?s2 c \<noteq> None" by simp
    from local_opE [OF local_close px_invD(1) [OF s2] this] obtain s3 where "ProxyClose c ?s2 = Some s3" "px_ok s3" "same_answers ?s2 s3"
      by blast
    with px_inv_same [OF s2] s2 show ?thesis by (simp add: read)
  qed
qed

lemma WorkerExecute_inv:
  assumes inv: "px_inv sv cf dp st" and i: "i < length (m_worker_list st)"
  shows "px_inv sv cf dp (WorkerExecute i st)"
proof (cases "m_worker_list st ! i")
  case Nil
  with inv show ?thesis by (simp add: WorkerExecute_def)
next
  case (Cons t ts)
  note inv' = px_invD [OF inv]
  let ?ws = "(m_worker_list st)[i := ts]"
  have "t \<in> set (concat (m_worker_list st))" using i Cons nth_mem by force
  with inv'(3) have "m_conn_uuid t \<in> set (uuids st) \<and> (\<exists>p. m_pPdu t = Some p \<and> GetHandler sv cf dp (in_cid p) = Some (m_pdu_handler t))"
    and held: "held (the_db st) = []" unfolding px_known_def by blast+
  then obtain p where t: "m_pPdu t = Some p" "GetHandler sv cf dp (in_cid p) = Some (m_pdu_handler t)"
    "m_conn_uuid t \<in> set (uuids st)" by blast
  let ?db = "snd (run_state (m_pdu_handler t p (m_conn_uuid t)) ((the_db st)\<lparr>answers := []\<rparr>))"
  have db: "held ?db = []" "one_answer p (m_conn_uuid t) (answers ?db)"
    using table_serves [OF t(2), of p "m_conn_uuid t", unfolded serves_def, rule_format, of "(the_db st)\<lparr>answers := []\<rparr>"] held
    by auto
  let ?st' = "st\<lparr>m_worker_list := ?ws, the_db := ?db,
    s_response_pdu_list := s_response_pdu_list st @ map (\<lambda>a. (an_uuid a, Some a)) (answers ?db)\<rparr>"
  have st': "WorkerExecute i st = ?st'" using Cons t(1) by (simp add: WorkerExecute_def CProxyTask_run_def Let_def)
  have ws: "set (concat ?ws) \<subseteq> set (concat (m_worker_list st))"
  proof
    fix x assume "x \<in> set (concat ?ws)"
    then obtain w where w: "w \<in> set ?ws" "x \<in> set w" by auto
    have "set ts \<subseteq> set (concat (m_worker_list st))" using nth_mem [OF i] by (auto simp: Cons)
    moreover have "w = ts \<or> w \<in> set (m_worker_list st)" using w(1) set_update_subset_insert by (metis insert_iff subsetD)
    ultimately show "x \<in> set (concat (m_worker_list st))" using w(2) by auto
  qed
  have q: "queued u q' ?st' + (if task_for u q' t then 1 else 0) = queued u q' st" for u q'
    using filter_concat_update [OF i, of "task_for u q'" ts] Cons by (simp add: queued_def split: if_splits)
  have w: "waiting u q' ?st' \<le> waiting u q' st + (if task_for u q' t then 1 else 0)" for u q'
    using db(2) t(1) by (auto simp: waiting_def one_answer_def task_for_def)
  have "px_inv sv cf dp ?st'"
    unfolding px_inv_def
  proof (intro conjI)
    show "px_ok ?st'" by (rule px_ok_cong [OF inv'(1)]) (use px_okD(3) [OF inv'(1)] in simp_all)
    show "px_cnt ?st'"
    proof (rule px_cntI [OF inv'(2)])
      fix c q' assume "c < length (uuids st)"
      have same: "answered c q' ?st' = answered c q' st" "asked c q' ?st' = asked c q' st"
        by (simp_all add: answered_def answers_out_def asked_def)
      show "answered c q' ?st' + waiting (uuids st ! c) q' ?st' + queued (uuids st ! c) q' ?st' + asked c q' st \<le>
          answered c q' st + waiting (uuids st ! c) q' st + queued (uuids st ! c) q' st + asked c q' ?st'"
        unfolding same using q [of "uuids st ! c" q'] w [of "uuids st ! c" q'] by linarith
    qed simp
    show "px_num ?st'" using inv'(4) by (simp add: px_num_def)
    have "\<forall>a \<in> set (answers ?db). an_uuid a \<in> set (uuids st)" using db(2) t(3) by (auto simp: one_answer_def)
    then have "\<forall>r \<in> set (s_response_pdu_list ?st'). fst r \<in> set (uuids st)" using inv'(3) by (auto simp: px_known_def)
    moreover have "\<forall>t \<in> set (concat ?ws). m_conn_uuid t \<in> set (uuids st) \<and>
        (\<exists>p. m_pPdu t = Some p \<and> GetHandler sv cf dp (in_cid p) = Some (m_pdu_handler t))"
      using inv'(3) ws unfolding px_known_def by blast
    moreover have "\<forall>x \<in> set (answers_out ?st'). fst x < length (uuids st)" using inv'(3) by (simp add: px_known_def answers_out_def)
    ultimately show "px_known sv cf dp ?st'" using db(1) by (simp add: px_known_def del: set_concat)
  qed
  then show ?thesis by (simp add: st')
qed

lemma send_response_inv:
  assumes inv: "px_inv sv cf dp st" and rs: "s_response_pdu_list st = r # rs"
  shows "\<exists>st'. send_response tick r (st\<lparr>s_response_pdu_list := rs\<rparr>) = Some st' \<and> px_inv sv cf dp st' \<and> s_response_pdu_list st' = rs"
proof -
  note inv' = px_invD [OF inv]
  obtain u m where r: "r = (u, m)" by fastforce
  let ?st = "st\<lparr>s_response_pdu_list := rs\<rparr>"
  have w: "waiting u' q st = waiting u' q ?st + (if u' = u \<and> (\<exists>a. m = Some a \<and> an_seq a = q) then 1 else 0)" for u' q
    using rs r by (simp add: waiting_def)
  have same: "answered c q ?st = answered c q st" "queued u' q ?st = queued u' q st" "asked c q ?st = asked c q st" for c q u'
    by (simp_all add: answered_def answers_out_def queued_def asked_def)
  have st: "px_inv sv cf dp ?st"
    unfolding px_inv_def
  proof (intro conjI)
    show ok: "px_ok ?st" by (rule px_ok_cong [OF inv'(1)]) (use px_okD(3) [OF inv'(1)] in simp_all)
    show "px_cnt ?st" by (rule px_cntI [OF inv'(2)]) (simp_all add: same w)
    show "px_known sv cf dp ?st" "px_num ?st" using inv'(3,4) rs by (simp_all add: px_known_def px_num_def answers_out_def)
  qed
  show ?thesis
  proof (cases "get_proxy_conn_by_uuid u ?st")
    case None
    with st r show ?thesis by (simp add: send_response_def)
  next
    case (Some c)
    then have "map_of (g_uuid_conn_map ?st) u = Some c" by (simp add: get_proxy_conn_by_uuid_def)
    from px_okD(5) [OF px_invD(1) [OF st] this] obtain ob where ob: "pobj ?st c = Some ob" "m_uuid ob = u" by blast
    note c = px_okD(6) [OF px_invD(1) [OF st] ob(1)]
    show ?thesis
    proof (cases m)
      case None
      have "pobj ?st c \<noteq> None" using ob(1) by simp
      from local_opE [OF local_close px_invD(1) [OF st] this] obtain s2 where
        s2: "ProxyClose c ?st = Some s2" "px_ok s2" "same_answers ?st s2" by blast
      with px_inv_same [OF st] have "px_inv sv cf dp s2" "s_response_pdu_list s2 = rs" by (auto simp: same_answers_def)
      with s2(1) Some None r show ?thesis by (simp add: send_response_def)
    next
      case (Some a)
      from send_ok [OF px_invD(1) [OF st] ob(1), of tick "PxAnswer a"] obtain s2 where
        s2: "ProxySendPdu tick (PxAnswer a) c ?st = Some s2" "px_ok s2"
        "s2 = ?st\<lparr>pobj := pobj s2, proxy_out := proxy_out ?st @ [(c, PxAnswer a)]\<rparr>" by blast
      have frame: "proxy_in s2 = proxy_in ?st" "uuids s2 = uuids ?st" "m_worker_list s2 = m_worker_list ?st"
        "s_response_pdu_list s2 = rs" "the_db s2 = the_db ?st" "s_uuid_alloctor s2 = s_uuid_alloctor ?st"
        "answers_out s2 = answers_out ?st @ [(c, a)]"
        by (subst s2(3), simp add: answers_out_def List.map_filter_def)+
      have cnt: "answered c' q s2 = answered c' q st + (if c' = c \<and> an_seq a = q then 1 else 0)"
        "queued u' q s2 = queued u' q st" "asked c' q s2 = asked c' q st" "waiting u' q s2 = waiting u' q ?st" for c' u' q
        using frame by (simp_all add: answered_def queued_def asked_def waiting_def answers_out_def)
      have "px_inv sv cf dp s2"
        unfolding px_inv_def
      proof (intro conjI)
        show "px_cnt s2"
        proof (rule px_cntI [OF inv'(2)])
          fix c' q assume d: "distinct (uuids st)" "c' < length (uuids st)"
          then have "uuids st ! c' = u \<longleftrightarrow> c' = c" using c ob(2) nth_eq_iff_index_eq [OF d(1), of c' c] by auto
          then show "answered c' q s2 + waiting (uuids st ! c') q s2 + queued (uuids st ! c') q s2 + asked c' q st \<le>
              answered c' q st + waiting (uuids st ! c') q st + queued (uuids st ! c') q st + asked c' q s2"
            unfolding cnt w [of "uuids st ! c'"] using Some by simp
        qed (simp add: frame)
        show "px_ok s2" "px_num s2" using s2(2) inv'(4) frame by (simp_all add: px_num_def)
        show "px_known sv cf dp s2" using px_invD(3) [OF st] c by (simp add: px_known_def frame)
      qed
      then show ?thesis using s2(1) frame(4) Some r \<open>get_proxy_conn_by_uuid u ?st = Some c\<close> by (simp add: send_response_def)
    qed
  qed
qed

lemma response_loop_inv:
  "px_inv sv cf dp st \<Longrightarrow> s_response_pdu_list st = rs \<Longrightarrow> \<exists>st'. response_loop tick rs st = Some st' \<and> px_inv sv cf dp st'"
proof (induction rs arbitrary: st)
  case (Cons r rs)
  from send_response_inv [OF Cons.prems] obtain s1 where
    "send_response tick r (st\<lparr>s_response_pdu_list := rs\<rparr>) = Some s1" "px_inv sv cf dp s1" "s_response_pdu_list s1 = rs" by blast
  with Cons.IH [of s1] show ?case by simp
qed simp

lemma accept_inv:
  assumes inv: "px_inv sv cf dp st" and may: "h \<noteq> NETLIB_INVALID_HANDLE" "map_of (g_proxy_conn_map st) h = None"
  shows "\<exists>st'. proxy_event_do sv cf dp (PxAccept tick h) st = Some st' \<and> px_inv sv cf dp st'"
proof -
  note inv' = px_invD [OF inv] and ok = px_okD [OF px_invD(1) [OF inv]]
  let ?u = "next_uuid (s_uuid_alloctor st)" and ?n = "length (uuids st)"
  let ?ob = "\<lparr>px_handle = h, m_uuid = ?u, px_last_send_tick = tick, px_last_recv_tick = tick, px_in_buf = []\<rparr>"
  let ?st = "st\<lparr>s_uuid_alloctor := ?u, g_uuid_conn_map := cm_insert ?u ?n (g_uuid_conn_map st),
    pobj := (pobj st)(?n \<mapsto> ?ob), uuids := uuids st @ [?u], g_proxy_conn_map := cm_insert h ?n (g_proxy_conn_map st)\<rparr>"
  have new: "pobj st ?n = None" using ok(6) [of ?n] by (metis less_irrefl not_None_eq)
  have "px_inv sv cf dp ?st"
    unfolding px_inv_def
  proof (intro conjI)
    show "px_ok ?st"
      unfolding px_ok_def
    proof (intro conjI allI impI)
      show "cm_ok (g_proxy_conn_map ?st)" "cm_ok (g_uuid_conn_map ?st)" "m_worker_list ?st \<noteq> []"
        using ok(1-3) by (simp_all add: cm.inv_insert)
    next
      fix h' c assume "map_of (g_proxy_conn_map ?st) h' = Some c"
      with may(2) new ok(4) [of h' c] show "\<exists>ob. pobj ?st c = Some ob \<and> px_handle ob = h'"
        by (auto simp: cm_insert_def split: if_splits)
    next
      fix u c assume "map_of (g_uuid_conn_map ?st) u = Some c"
      with new ok(5) [of u c] show "\<exists>ob. pobj ?st c = Some ob \<and> m_uuid ob = u"
        by (auto simp: cm_insert_def split: if_splits)
    next
      fix c ob assume "pobj ?st c = Some ob"
      then consider "c = ?n" "ob = ?ob" | "c \<noteq> ?n" "pobj st c = Some ob" by (auto split: if_splits)
      then have "c < length (uuids ?st) \<and> uuids ?st ! c = m_uuid ob \<and> px_handle ob \<noteq> NETLIB_INVALID_HANDLE \<and>
        map_of (g_proxy_conn_map ?st) (px_handle ob) = Some c"
        by cases (use may ok(6) [of c ob] in \<open>auto simp: cm_insert_def nth_append\<close>)
      then show "c < length (uuids ?st)" "uuids ?st ! c = m_uuid ob" "px_handle ob \<noteq> NETLIB_INVALID_HANDLE"
        "map_of (g_proxy_conn_map ?st) (px_handle ob) = Some c" by blast+
    qed
    show "px_cnt ?st"
      unfolding px_cnt_def
    proof (intro impI allI)
      fix c q assume d: "distinct (uuids ?st)" and c: "c < length (uuids ?st)"
      have same: "answered c q ?st = answered c q st" "waiting u q ?st = waiting u q st" "queued u q ?st = queued u q st"
        "asked c q ?st = asked c q st" for u by (simp_all add: answered_def answers_out_def waiting_def queued_def asked_def)
      show "answered c q ?st + waiting (uuids ?st ! c) q ?st + queued (uuids ?st ! c) q ?st \<le> asked c q ?st"
      proof (cases "c < ?n")
        case True
        with d inv'(2) show ?thesis unfolding same by (simp add: px_cnt_def nth_append)
      next
        case False
        then have c: "c = ?n" "?u \<notin> set (uuids st)" using c d by auto
        have "\<forall>x \<in> set (answers_out st). fst x \<noteq> c" using inv'(3) c(1) by (auto simp: px_known_def)
        moreover have "\<forall>r \<in> set (s_response_pdu_list st). fst r \<noteq> ?u" using inv'(3) c(2) unfolding px_known_def by metis
        moreover have "\<forall>t \<in> set (concat (m_worker_list st)). m_conn_uuid t \<noteq> ?u" using inv'(3) c(2) unfolding px_known_def by metis
        ultimately have "answered c q st = 0" "waiting ?u q st = 0" "queued ?u q st = 0"
          by (auto simp: answered_def waiting_def queued_def task_for_def filter_empty_conv)
        then show ?thesis unfolding same by (simp add: c(1))
      qed
    qed
    show "px_known sv cf dp ?st" using inv'(3) by (auto simp: px_known_def answers_out_def less_SucI)
    show "px_num ?st"
      unfolding px_num_def
    proof
      assume "length (uuids ?st) < 2 ^ 32"
      then have n: "Suc ?n < 2 ^ 32" by simp
      with inv'(4) have o: "s_uuid_alloctor st = of_nat ?n" "uuids st = map (\<lambda>i. of_nat (Suc i)) [0..<?n]" by (simp_all add: px_num_def)
      have "(of_nat (Suc ?n) :: u32) \<noteq> 0" using unat_of_nat_32 [OF n] by (metis nat.distinct(1) unsigned_0)
      then have u: "?u = of_nat (Suc ?n)" using o(1) by (simp add: next_uuid_def add.commute)
      have "uuids st @ [of_nat (Suc ?n)] = map (\<lambda>i. of_nat (Suc i)) [0..<Suc ?n]" by (subst o(2)) simp
      then show "s_uuid_alloctor ?st = of_nat (length (uuids ?st)) \<and>
          uuids ?st = map (\<lambda>i. of_nat (Suc i)) [0..<length (uuids ?st)]" unfolding u by simp
    qed
  qed
  moreover have "proxy_event_do sv cf dp (PxAccept tick h) st = Some ?st"
    by (simp add: new_CProxyConn_def ProxyOnConnect_def Let_def)
  ultimately show ?thesis by blast
qed

text \<open>After an event that has run to its end the invariant holds, and it does so if the bytes read are well framed.\<close>

definition event_inv :: "'w services \<Rightarrow> db_config \<Rightarrow> db_parsers \<Rightarrow> bool \<Rightarrow> 'w proxy_state option \<Rightarrow> bool" where
  "event_inv sv cf dp ok r \<longleftrightarrow> (case r of None \<Rightarrow> \<not> ok | Some st' \<Rightarrow> px_inv sv cf dp st')"

lemma event_invI: "\<exists>st'. r = Some st' \<and> px_inv sv cf dp st' \<Longrightarrow> event_inv sv cf dp ok r"
  by (auto simp: event_inv_def)

lemma with_conn_inv:
  assumes "px_inv sv cf dp st" "\<And>c. pobj st c \<noteq> None \<Longrightarrow> \<exists>st'. f c st = Some st' \<and> px_inv sv cf dp st'"
  shows "\<exists>st'. with_conn h f st = Some st' \<and> px_inv sv cf dp st'"
proof (cases "map_of (g_proxy_conn_map st) h")
  case (Some c)
  with px_okD(4) [OF px_invD(1) [OF assms(1)], of h c] assms(2) [of c] show ?thesis by (auto simp: with_conn_def)
qed (simp add: with_conn_def assms(1))

lemma read_inv:
  assumes inv: "px_inv sv cf dp st"
  shows "event_inv sv cf dp (well_framed (PxRead e h chunks) st) (with_conn h (ProxyOnRead sv cf dp e chunks) st)"
proof (cases "map_of (g_proxy_conn_map st) h")
  case (Some c)
  with px_okD(4) [OF px_invD(1) [OF inv], of h c] obtain ob where "pobj st c = Some ob" by blast
  from ProxyOnRead_inv [OF inv this, where e = e and chunks = chunks] this Some show ?thesis
    by (auto simp: event_inv_def with_conn_def split: option.splits)
qed (simp add: event_inv_def with_conn_def inv)

lemma local_inv:
  assumes "local_op f" "px_inv sv cf dp st"
  shows "pobj st c \<noteq> None \<Longrightarrow> \<exists>st'. f c st = Some st' \<and> px_inv sv cf dp st'"
    and "\<exists>st'. for_conns f (g_proxy_conn_map st) st = Some st' \<and> px_inv sv cf dp st'"
  using local_opE [OF assms(1) px_invD(1) [OF assms(2)], of c] px_inv_same [OF assms(2)]
    for_conns_local [OF assms(1) px_invD(1) [OF assms(2)] proxy_map_conns [OF px_invD(1) [OF assms(2)]]]
  by metis+

lemma proxy_event_inv:
  assumes "px_inv sv cf dp st" "proxy_may ev st"
  shows "event_inv sv cf dp (well_framed ev st) (proxy_event_do sv cf dp ev st)"
proof (cases ev)
  case (PxAccept tick h)
  with assms(2) accept_inv [OF assms(1), of h tick] show ?thesis by (auto intro: event_invI)
next
  case (PxRead e h chunks)
  with read_inv [OF assms(1), of e h chunks] show ?thesis by (simp del: well_framed.simps)
next
  case (PxWork i)
  with WorkerExecute_inv [OF assms(1)] assms(2) show ?thesis by (simp add: event_inv_def)
qed (use assms in \<open>auto simp: SendResponsePduList_def proxy_timer_callback_def sig_handler_def
    intro!: event_invI with_conn_inv local_inv local_close local_timer local_send response_loop_inv\<close>)

lemma proxy_start_inv:
  assumes "thread_num > 0" "held db = []"
  shows "px_inv sv cf dp (proxy_start thread_num db)"
  using assms by (simp add: px_inv_def px_ok_def px_cnt_def px_known_def px_num_def proxy_start_def PoolInit_def answers_out_def
    List.map_filter_def)

lemma proxy_reach_inv: "proxy_reach sv cf dp st \<Longrightarrow> px_inv sv cf dp st"
proof (induction rule: proxy_reach.induct)
  case (event st ev st')
  with proxy_event_inv [OF event.IH event.hyps(2)] show ?case by (simp add: event_inv_def)
qed (rule proxy_start_inv)

subsection \<open>Runs\<close>

fun proxy_run :: "'w services \<Rightarrow> db_config \<Rightarrow> db_parsers \<Rightarrow> proxy_event list \<Rightarrow> 'w proxy_state \<Rightarrow> 'w proxy_state option" where
  "proxy_run sv cf dp [] st = Some st"
| "proxy_run sv cf dp (ev # evs) st =
     (if proxy_may ev st then Option.bind (proxy_event_do sv cf dp ev st) (proxy_run sv cf dp evs) else None)"

lemma proxy_run_reach: "proxy_run sv cf dp evs st = Some st' \<Longrightarrow> proxy_reach sv cf dp st \<Longrightarrow> proxy_reach sv cf dp st'"
  by (induction evs arbitrary: st) (auto simp: bind_eq_Some_conv split: if_splits intro: proxy_reach.event)

text \<open>
  A connection asks for the changed users and is closed; the next one has the same handle, asks with the same sequence number,
  and the workers answer both.
\<close>

definition user_parsers :: db_parsers where
  "user_parsers = no_parsers\<lparr>p_all_user := \<lambda>_. Some (1, 0, [])\<rparr>"

definition user_pdu :: in_pdu where
  "user_pdu = \<lparr>in_cid = CID_BUDDY_LIST_ALL_USER_REQUEST, in_seq = 3, in_body = []\<rparr>"

definition user_header :: pdu_header where
  "user_header = \<lparr>ph_length = 16, ph_version = 1, ph_flag = 0, ph_service_id = 2, ph_command_id = CID_BUDDY_LIST_ALL_USER_REQUEST,
     ph_seq_num = 3, ph_reversed = 0\<rparr>"
definition user_bytes :: bytes where "user_bytes = encode_header user_header"
definition demo_env :: read_env where
  "demo_env = \<lparr>re_tick = 0, re_junk = \<lambda>_. 0, re_len0 = 0, re_random = \<lambda>_. 0\<rparr>"

lemma user_frame:
  "length user_bytes = 16" "IsPduAvailable user_bytes 16 = Inr (Some 16)" "\<exists>p. ReadPdu junk len0 user_bytes 16 = Ret (Some p) \<and> request_of p = user_pdu"
proof -
  have h: "user_bytes = encode_header user_header @ []" by (simp add: user_bytes_def)
  show len: "length user_bytes = 16" by (simp add: user_bytes_def)
  show "IsPduAvailable user_bytes 16 = Inr (Some 16)"
    by (simp add: IsPduAvailable_def IM_PDU_HEADER_LEN_def user_bytes_def encode_header_def user_header_def Let_def)
  obtain p where p: "ReadPdu junk len0 user_bytes 16 = Ret (Some p)" "m_pdu_header p = user_header" "wf_buffer (m_buf p)"
      "contents (m_buf p) = user_bytes"
    using ReadPdu_Got [OF h, of 16 junk len0] len by (auto simp: user_header_def)
  have "unat (m_write_offset (m_buf p)) = 16" using length_contents [OF p(3)] p(4) len by simp
  then have "m_write_offset (m_buf p) = 16" by (simp add: word_unat_eq_iff)
  then have "request_of p = user_pdu" by (simp add: request_of_def p(2) user_header_def user_pdu_def GetBodyLength_def)
  with p(1) show "\<exists>p. ReadPdu junk len0 user_bytes 16 = Ret (Some p) \<and> request_of p = user_pdu" by blast
qed

lemma read_user:
  "read_pdus sv cf dp e c i user_bytes st = map_option (\<lambda>st. (False, [], st)) (HandleRequest sv cf dp c user_pdu (re_random e i) st)"
proof -
  obtain p where p: "ReadPdu (re_junk e) (re_len0 e) user_bytes 16 = Ret (Some p)" "request_of p = user_pdu" using user_frame(3) by blast
  have "IsPduAvailable [] 0 = Inr None" by (simp add: IsPduAvailable_def IM_PDU_HEADER_LEN_def)
  then have "read_pdus sv cf dp e c (Suc i) [] s = Some (False, [], s)" for s by (subst read_pdus.simps) simp
  then show ?thesis
    by (subst read_pdus.simps) (simp add: user_frame HandlePduBuf_def p split: option.split)
qed

definition reuse_run :: "proxy_event list \<Rightarrow> nat proxy_state option" where
  "reuse_run evs = proxy_run no_services plain_config user_parsers
     ([PxAccept 0 5, PxRead demo_env 5 [user_bytes], PxHangup 5, PxAccept 0 5, PxWork 0] @ evs) (proxy_start 1 (fresh_dbp 0))"

lemma reuse_run_reach:
  "reuse_run evs = Some st \<Longrightarrow> proxy_reach no_services plain_config user_parsers st"
  unfolding reuse_run_def by (erule proxy_run_reach) (rule proxy_reach.start; simp add: fresh_dbp_def)

lemma user_handler: "GetHandler sv cf dp CID_BUDDY_LIST_ALL_USER_REQUEST = Some (getChangedUser sv dp)"
  by (simp add: GetHandler_def handler_map_def const_defs)

lemma user_not_heartbeat: "CID_BUDDY_LIST_ALL_USER_REQUEST \<noteq> CID_OTHER_HEARTBEAT"
  by (simp add: const_defs)

lemmas run_code = reuse_run_def proxy_start_def PoolInit_def new_CProxyConn_def ProxyOnConnect_def ProxyOnRead_def HandleRequest_def read_user demo_env_def
  ProxyClose_def ProxySendPdu_def with_conn_def AddTask_def PushTask_def WorkerExecute_def CProxyTask_run_def SendResponsePduList_def
  send_response_def get_proxy_conn_by_uuid_def next_uuid_def cm_insert_def cm_erase_def NETLIB_INVALID_HANDLE_def user_pdu_def
  user_parsers_def fresh_dbp_def getChangedUser_def AddResponsePdu_def no_parsers_def user_handler
  user_not_heartbeat

lemma reuse_run_stale:
  "\<exists>st. reuse_run [] = Some st \<and> (\<forall>c ob. pobj st c = Some ob \<longrightarrow> px_in_buf ob = [])"
  by (simp add: run_code Let_def)

lemma reuse_run_answered:
  "\<exists>st. reuse_run [PxLoop 0, PxRead demo_env 5 [user_bytes], PxWork 0, PxLoop 0] = Some st \<and> length (uuids st) = 2 \<and>
     answered 0 3 st = 0 \<and> answered 1 3 st = 1 \<and> asked 1 3 st = 1"
  by (simp add: run_code Let_def answered_def asked_def answers_out_def List.map_filter_def)

subsection \<open>Properties\<close>

text \<open>A length field of 1 to 15 ends the process, on any connection and as soon as 16 bytes are there.\<close>

lemma short_length_is_fatal:
  assumes "map_of (g_proxy_conn_map st) h = Some c" and "pobj st c = Some ob"
    and "IsPduAvailable (px_in_buf ob @ concat chunks) (of_nat (length (px_in_buf ob @ concat chunks))) = Inr (Some n)" and "n < 16"
  shows "proxy_event_do sv cf dp (PxRead e h chunks) st = None"
proof -
  have "HandlePduBuf sv cf dp e c b n r s = None" for b r s using assms(4) by (simp add: HandlePduBuf_def ReadPdu_short)
  then have "read_pdus sv cf dp e c i (px_in_buf ob @ concat chunks) s = None" for i s
    using assms(3) by (subst read_pdus.simps) simp
  moreover have "px_in_buf (if chunks = [] then ob else ob\<lparr>px_last_recv_tick := re_tick e\<rparr>) = px_in_buf ob" by simp
  ultimately show ?thesis using assms(1,2) by (simp only: proxy_event_do.simps with_conn_def ProxyOnRead_def Let_def option.case bind.simps)
qed

text \<open>
  C24: whatever order its events come in, and whatever the workers' requests do, the event loop of the database proxy never
  uses a connection that was deleted or a null pointer and always finds a worker for a request: every event that may happen
  runs to its end, so also for an answer whose connection has been closed or whose handle was given to a new connection -
  provided that the bytes read from a connection contain no length field of 1 to 15 and are less than 3 GiB wait to be
  handled (\<open>well_framed\<close>; \<open>short_length_is_fatal\<close> shows what happens otherwise).
\<close>

theorem proxy_memory_safe:
  assumes "proxy_reach sv cf dp st" "proxy_may ev st" "well_framed ev st"
  shows "proxy_event_do sv cf dp ev st \<noteq> None"
  using proxy_event_inv [OF proxy_reach_inv [OF assms(1)] assms(2)] assms(3) by (auto simp: event_inv_def split: option.splits)

lemma proxy_memory_safe_witness:
  "\<exists>st. reuse_run [] = Some st \<and> proxy_event_do no_services plain_config user_parsers (PxRead demo_env 5 [user_bytes]) st \<noteq> None"
proof -
  obtain st where st: "reuse_run [] = Some st" "\<forall>c ob. pobj st c = Some ob \<longrightarrow> px_in_buf ob = []" using reuse_run_stale by blast
  have "whole_frames []" by (subst whole_frames.simps) (simp add: IsPduAvailable_def IM_PDU_HEADER_LEN_def)
  then have "whole_frames user_bytes" by (subst whole_frames.simps) (simp add: user_frame)
  with st(2) have "well_framed (PxRead demo_env 5 [user_bytes]) st" by (auto simp: user_frame bind_eq_Some_conv split: option.split)
  then have "proxy_event_do no_services plain_config user_parsers (PxRead demo_env 5 [user_bytes]) st \<noteq> None"
    using proxy_memory_safe [OF reuse_run_reach [OF st(1)], of "PxRead demo_env 5 [user_bytes]"] by simp
  with st(1) show ?thesis by blast
qed

text \<open>
  C23: while the numbers of the connections have not wrapped around, an answer goes to the connection that asked for it and
  goes there once: of the answers sent on a connection, as many carry a sequence number as requests with this number
  have come from it, at most. So a new connection never receives an answer meant for the one before it.
\<close>

theorem answers_reach_requester:
  assumes "proxy_reach sv cf dp st" "length (uuids st) < 2 ^ 32"
  shows "answered c q st \<le> asked c q st"
proof (cases "c < length (uuids st)")
  case True
  note inv = px_invD [OF proxy_reach_inv [OF assms(1)]]
  from True inv(2) uuids_distinct [OF inv(4) assms(2)]
  have "answered c q st + waiting (uuids st ! c) q st + queued (uuids st ! c) q st \<le> asked c q st" by (simp add: px_cnt_def)
  then show ?thesis by simp
next
  case False
  then have "\<forall>x \<in> set (answers_out st). fst x \<noteq> c" using px_invD(3) [OF proxy_reach_inv [OF assms(1)]] by (auto simp: px_known_def)
  then have "answered c q st = 0" by (auto simp: answered_def filter_empty_conv)
  then show ?thesis by simp
qed

lemma answers_reach_requester_witness:
  "\<exists>st. reuse_run [PxLoop 0, PxRead demo_env 5 [user_bytes], PxWork 0, PxLoop 0] = Some st \<and>
     answered 1 3 st \<le> asked 1 3 st \<and> answered 1 3 st = 1"
  using reuse_run_answered answers_reach_requester [OF reuse_run_reach, of "[PxLoop 0, PxRead demo_env 5 [user_bytes], PxWork 0, PxLoop 0]" _ 1 3]
  by auto

end
