(* ===== verification/Spec2Isabelle.thy ===== *)
theory Spec2Isabelle
  imports Route_Server Url_Id File_Safety Session_Count Http_Conn Delivery Serv_Pool Conn_Pool Proxy_Conn
begin

text \<open>
  TeamTalk is an instant messaging service of several server processes, under \<open>src/teamtalk\<close>. Clients ask
  the login server (\<open>login_server\<close>) for a message server, keep a TCP connection to this message server
  (\<open>msg_server\<close>), and send it protobuf messages in PDUs. Message servers find each other's users through
  the route server (\<open>route_server\<close>) and keep their data behind the database proxy (\<open>db_proxy_server\<close>). Files
  go through the file server (\<open>file_server\<close>) and pictures through \<open>msfs\<close>; \<open>http_msg_server\<close> and
  \<open>push_server\<close> are bridges to HTTP clients and to the push service of mobile phones. The processes are
  event loops over \<open>base\<close>: a socket event calls a method of a connection object. The message server hands the PDUs
  of clients to worker threads; its handlers are modelled as running one after the other.

  Foundations (\<open>base\<close>).
  \<^item> \<open>TT_Base\<close>: integer types, field codecs (locale \<open>fixed_codec\<close>), list and word lemmas.
  \<^item> \<open>Byte_Buffer\<close>, \<open>Simple_Buffer\<close>, \<open>Byte_Stream\<close>, \<open>Url_Id\<close>: \<open>UtilPdu.cpp\<close>. \<open>CSimpleBuffer\<close> is shown to be a byte
    queue (locale \<open>byte_queue\<close>), with its 32 bit allocation arithmetic; the streams throw as values.
  \<^item> \<open>Pdu\<close>, \<open>Framing\<close>, \<open>Im_Conn\<close>: \<open>ImPduBase.cpp\<close> and \<open>imconn.cpp\<close>. A PDU survives building and reading;
    the receive loop cuts the same PDUs from a stream however the network splits it (locale
    \<open>frame_reader\<close>) and stops at the same place; sending loses and reorders nothing below 2 GiB, where the \<open>int\<close>
    lengths of \<open>Send\<close> and \<open>OnWrite\<close> turn negative.
  \<^item> \<open>Public_Define\<close>: the constants of the protocol. \<open>Conn_Map\<close>: the maps (locales \<open>finite_map\<close>, \<open>handle_map\<close>,
    \<open>key_map\<close>). \<open>Str_Util\<close>: \<open>util.cpp\<close>.

  Security (\<open>security\<close>, \<open>base/EncDec.cpp\<close>, \<open>base/Base64.cpp\<close>).
  \<^item> \<open>Aes\<close>, \<open>Aes_Tables\<close>, \<open>Aes_Inverse\<close>: \<open>aes_core.cpp\<close>. The tables are those of the field operations, and
    decryption inverts encryption for every key size. \<open>Base64\<close>. \<open>Enc_Dec\<close>: encrypted messages, those of \<open>security\<close> over
    this AES, those of \<open>CAes\<close> over the AES of OpenSSL, a parameter with the laws of the locale \<open>aes_api\<close>, which the
    AES of the repository is shown to keep.

  Servers.
  \<^item> \<open>Route_Server\<close>: \<open>route_server/RouteConn.cpp\<close>, \<open>UserInfo.cpp\<close>.
  \<^item> \<open>Im_User\<close>, \<open>Msg_Conn\<close>: \<open>msg_server/ImUser.cpp\<close> and the life of a session in \<open>MsgConn.cpp\<close>, \<open>DBServConn.cpp\<close> and
    \<open>RouteServConn.cpp\<close>.
  \<^item> \<open>Attach_Data\<close>, \<open>Relay_Base\<close>, \<open>Msg_Relay\<close>, \<open>Group_Chat\<close>, \<open>File_Relay\<close>, \<open>Push_Relay\<close>, \<open>Serv_Relay\<close>: the handlers that relay
    messages, requests and answers (\<open>AttachData.cpp\<close>, \<open>MsgConn.cpp\<close>, \<open>GroupChat.cpp\<close>, \<open>FileHandler.cpp\<close>,
    \<open>FileServConn.cpp\<close>, \<open>PushServConn.cpp\<close>, \<open>DBServConn.cpp\<close>, \<open>RouteServConn.cpp\<close>). \<open>Relay_Base\<close> has the calculus they are
    verified with (locale \<open>steps\<close>): a handler returns and leaves the sessions alone (\<open>quiet\<close>).
  \<^item> \<open>Msg_Server\<close>: the switches over the command id, the events of the whole message server and its reachable
    states. \<open>Chat_Run\<close>: a codec and a state with three sessions. \<open>Delivery\<close>: where messages and answers go.
  \<^item> \<open>Serv_Conn\<close>, \<open>Serv_Pool\<close>: \<open>base/ServInfo.h\<close>, the connections of a message server to the other servers: route
    and login servers in the first, database, file and push servers in the second (locale \<open>serv_class\<close> for the
    part the classes share), with the random choice of a database connection.
  \<^item> \<open>Login_Server\<close>, \<open>Http_Conn\<close>: \<open>login_server/LoginConn.cpp\<close>, \<open>HttpConn.cpp\<close> with \<open>base/HttpParserWrapper.cpp\<close>. Requests over
    the client port are never answered (\<open>client_port_unanswered\<close>); the HTTP port names the least loaded message server.
  \<^item> \<open>Session_Count\<close> and this theory: the count of sessions on its way from a message server to the login server.
  \<^item> \<open>Offline_File\<close>, \<open>Transfer_Task\<close>, \<open>File_Server\<close>, \<open>File_Safety\<close>: \<open>file_server\<close>.

  Database proxy (\<open>db_proxy_server\<close>).
  \<^item> \<open>Conn_Pool\<close>: \<open>DBPool.cpp\<close> and \<open>CachePool.cpp\<close>, the pools and the threads that wait in them (locale \<open>pool_class\<close>):
    connections are exclusive, waiting threads are served, and nested requests can deadlock.
  \<^item> \<open>Db_World\<close>, \<open>Cache_Conn\<close>: result sets, statements and redis commands, programs of a state monad over the
    functions \<open>services\<close> that stand for MySQL, redis, the clock and libcurl.
  \<^item> \<open>Db_Message\<close>, \<open>Db_Group\<close>, \<open>Db_User\<close>, \<open>Db_Action\<close>: the queries and requests of \<open>business\<close>, in which a program that C++
    leaves undefined goes on with a recorded defect. \<open>Db_Action\<close> has the table of handlers. \<open>Db_Sync\<close>: \<open>SyncCenter.cpp\<close>.
  \<^item> \<open>Db_Calculus\<close>, \<open>Db_Discipline\<close>, \<open>Db_Safety\<close>: a calculus for connections taken and returned, a lemma per operation, and
    what follows for all requests and for the synchronization thread.
  \<^item> \<open>Proxy_Conn\<close>: \<open>ProxyConn.cpp\<close>, \<open>ProxyTask.cpp\<close> and \<open>base/ThreadPool.cpp\<close>. Requests go from the event loop to the queues of the
    workers and answers come back in a list; whatever the order of the events, an answer reaches who asked. Requests are cut from
    the bytes received; a length field of 1 to 15 makes the code use a null pointer, so memory safety assumes there is none.

  How state is represented. Each server has a record of its global variables and objects; a handler takes it
  and returns it updated. Objects are heap entries: an access to a deleted object, a double close or a copy
  outside an allocation makes the handler return \<open>None\<close>, so that memory safety is a theorem about
  reachable states (\<open>login_reach\<close>, \<open>msg_reach\<close>, \<open>server_reach\<close>, \<open>file_reach\<close>, \<open>rs_reach\<close>, \<open>http_reach\<close>, \<open>proxy_reach\<close>: inductive relations over the
  events of the loop). Messages sent are appended to a log per connection. Errors of the code are values
  of a sum or option type. Integers have their C width where they can wrap. Loops are structural or have a
  termination proof; no fuel is used. The retry of a random choice (\<open>random_loop\<close>) is a \<open>partial_function\<close> into an
  option: what it returns is right, it fails to return only if no number still drawn hits an open connection, and it does return
  if \<open>rand\<close> gives every number up to \<open>RAND_MAX\<close> again and again.

  Parameters. The socket (what a send accepts, what a receive returns), the clock, addresses from \<open>new\<close>,
  the bytes \<open>realloc\<close> and \<open>new\<close> leave uninitialized, the numbers of \<open>rand\<close>, generated protobuf code (parsers and serializers),
  the AES of OpenSSL, the third-party HTTP parser and JSON printer are arguments of the definitions; where a theorem relies on
  them, its hypotheses say how.

  Not modelled: \<open>netlib\<close>, \<open>BaseSocket\<close>, \<open>EventDispatch\<close> and the threads and locks (system calls);
  \<open>http_parser\<close>, \<open>jsonxx\<close>, \<open>sigslot\<close> (third-party code); main programs and configuration;
  \<open>msfs\<close>, \<open>http_msg_server\<close> and \<open>push_server\<close>; races between the worker threads of a message server, or inside the
  requests of the database proxy.
\<close>

section \<open>Message server and login server\<close>

text \<open>
  C1: the load the login server balances on is right across the two servers: when a message server
  connects it reports its sessions, and after any further sessions have opened and closed the login
  server, having read the report and the updates off the connection, holds for this server exactly the
  number of client sessions open there. \<open>ser_info\<close>, \<open>ser_cnt\<close> and the parsers are the protobuf code.
\<close>

theorem login_server_tracks_sessions:
  assumes msg: "msg_reach db st0" "msg_reach db st1" "to_login st1 = to_login st0 @ new"
    and feed: "distinct (List.map_filter serv_conn (serv_list cs))" "d \<in> set (List.map_filter serv_conn (serv_list cs))"
      "cs_out (cs_conns cs d) = []"
    and pb: "\<And>m. pb_msg_serv_info pb (ser_info m) = m" "\<And>a uid. pb_user_cnt_update pb (ser_cnt a uid) = a"
    and login: "login_reach pb lst" "map_of (g_msg_serv_conn_map lst) h = Some c" "map_of (g_msg_serv_info lst) h = None"
  shows "\<exists>lst' i. login_pdus pb tick c (map (serv_pdu ser_info ser_cnt)
      (cs_out (cs_conns (login_feed now info (snd (GetUserConnCnt st0)) new d cs) d))) lst = Some lst' \<and>
    map_of (g_msg_serv_info lst') h = Some i \<and> cur_conn_cnt i = of_nat (card (all_open_handles st1))"
proof -
  let ?info = "info\<lparr>mi_cur_conn_cnt := snd (GetUserConnCnt st0)\<rparr>"
  let ?p = "serv_pdu ser_info ser_cnt (SMsgServInfo ?info)"
  let ?lst = "HandleMsgServInfo pb c ?p lst"
  note inv = login_reach_inv [OF login(1)]
  have "lg_handle (lconns lst c) = h" using login_invD(4) [OF inv login(2)] by (simp add: serv_ok_def)
  then obtain i where i: "map_of (g_msg_serv_info ?lst) h = Some i" "cur_conn_cnt i = snd (GetUserConnCnt st0)"
    "g_msg_serv_conn_map ?lst = g_msg_serv_conn_map lst"
    using login(3) om.find_put [OF login_invD(3) [OF inv]]
    by (simp add: HandleMsgServInfo_def serv_pdu_def pb(1) Let_def)
  have "login_inv ?lst" by (rule HandleMsgServInfo_ok [OF inv login(2,3)])
  from updates_tracked [OF this, of h c i pb ser_cnt tick ser_info new] i login(2) pb(2) obtain lst' where
    "login_pdus pb tick c (map (\<lambda>(a, uid). serv_pdu ser_info ser_cnt (SUserCntUpdate a uid)) new) ?lst = Some lst'"
    "map_of (g_msg_serv_info lst') h = Some (i\<lparr>cur_conn_cnt := cur_conn_cnt i + of_int (net_count new)\<rparr>)" by auto
  moreover have "LoginHandlePdu pb tick c ?p lst = Some ?lst" by (simp add: LoginHandlePdu_def serv_pdu_def const_defs)
  moreover have "cur_conn_cnt i + of_int (net_count new) = of_nat (card (all_open_handles st1))"
  proof -
    have "int (card (all_open_handles st0)) + net_count new = int (card (all_open_handles st1))"
      using net_count_open [OF msg(1)] net_count_open [OF msg(2)] by (simp add: msg(3))
    then have "of_int (int (card (all_open_handles st0)) + net_count new) = (of_nat (card (all_open_handles st1)) :: u32)" by simp
    then show ?thesis by (simp add: i(2) reported_count [OF msg(1)])
  qed
  ultimately show ?thesis
    by (simp add: login_feed_out [OF feed] split_def comp_def)
qed

text \<open>
  A run of both servers: a serialization of the two messages, a login server with one message server
  connected, and the message server before and after the two logins of \<open>two_logins_state\<close>.
\<close>

fun ser_str :: "string \<Rightarrow> bytes" where
  "ser_str [] = [0]"
| "ser_str (c # cs) = 1 # of_nat (of_char c) # ser_str cs"

fun parse_str :: "bytes \<Rightarrow> string \<times> bytes" where
  "parse_str (x # c # r) = (if x = 0 then ([], c # r) else (let (s, r') = parse_str r in (char_of (unat c) # s, r')))"
| "parse_str _ = ([], [])"

lemma parse_ser_str: "parse_str (ser_str s @ y # r) = (s, y # r)"
proof (induction s)
  case (Cons c s)
  have "of_char c < (256::nat)" by simp
  then have "unat (of_nat (of_char c) :: u8) = of_char c" by (simp add: unat_of_nat take_bit_nat_eq_self)
  then show ?case using Cons by simp
qed simp

definition u32_bytes :: "u32 \<Rightarrow> bytes" where
  "u32_bytes v = WriteUint32 [0, 0, 0, 0] v"

lemma u32_bytes: "length (u32_bytes v) = 4" "ReadUint32 (u32_bytes v @ r) = v" "ReadUint32 (u32_bytes v) = v"
proof -
  show l: "length (u32_bytes v) = 4" by (simp add: u32_bytes_def be32.length_put)
  show r: "ReadUint32 (u32_bytes v) = v" by (simp add: u32_bytes_def be32.get_put)
  show "ReadUint32 (u32_bytes v @ r) = v" using be32.get_local [of "u32_bytes v" r] l r by simp
qed

definition ser_info :: "msg_serv_info_pb \<Rightarrow> bytes" where
  "ser_info m = ser_str (mi_ip1 m) @ ser_str (mi_ip2 m) @ ser_str (mi_host_name m) @ u32_bytes (mi_port m) @
     u32_bytes (mi_max_conn_cnt m) @ u32_bytes (mi_cur_conn_cnt m)"

definition parse_info :: "bytes \<Rightarrow> msg_serv_info_pb" where
  "parse_info b = (let (ip1, r) = parse_str b; (ip2, r) = parse_str r; (host, r) = parse_str r in
     \<lparr>mi_ip1 = ip1, mi_ip2 = ip2, mi_port = ReadUint32 r, mi_max_conn_cnt = ReadUint32 (drop 4 r),
      mi_cur_conn_cnt = ReadUint32 (drop 8 r), mi_host_name = host\<rparr>)"

lemma ser_str_Cons: "\<exists>y r. ser_str s = y # r"
  by (cases s) auto

lemma parse_ser_info: "parse_info (ser_info m) = m"
proof -
  have p: "parse_str (ser_str s @ r) = (s, r)" if "r \<noteq> []" for s r
    using parse_ser_str that by (cases r) auto
  have n: "ser_str s \<noteq> []" for s using ser_str_Cons [of s] by auto
  have w: "u32_bytes v \<noteq> []" for v using u32_bytes(1) [of v] by auto
  have d: "drop 4 (u32_bytes v @ r) = r" "drop 8 (u32_bytes v @ r) = drop 4 r" for v r
    using u32_bytes(1) [of v] by simp_all
  show ?thesis by (simp add: parse_info_def ser_info_def p n w d u32_bytes)
qed

definition wire_pb :: login_pb where
  "wire_pb = \<lparr>pb_msg_serv_info = parse_info, pb_user_cnt_update = ReadUint32\<rparr>"

definition one_server :: login_state where
  "one_server = OnConnect2 0 2 5 logIN_CONN_TYPE_MSG_SERV login_init"

definition login_side :: cs_state where
  "login_side = (servers_init [])\<lparr>serv_list := [\<lparr>server_name = ''l'', server_ip = ''10.0.0.9'', server_port = 8100,
     idle_cnt = 0, reconnect_cnt = 2, serv_conn = Some 9\<rparr>]\<rparr>"

definition demo_info :: msg_serv_info_pb where
  "demo_info = \<lparr>mi_ip1 = ''10.0.0.1'', mi_ip2 = ''10.0.0.2'', mi_port = 8000, mi_max_conn_cnt = 1000,
     mi_cur_conn_cnt = 0, mi_host_name = ''msg''\<rparr>"

lemma login_server_tracks_sessions_witness:
  "\<exists>lst' i. login_pdus wire_pb 0 2 (map (serv_pdu ser_info (\<lambda>a uid. u32_bytes a))
      (cs_out (cs_conns (login_feed 0 demo_info (snd (GetUserConnCnt msg_init)) [(USER_CNT_INC, 7), (USER_CNT_INC, 7)] 9 login_side) 9)))
      one_server = Some lst' \<and> map_of (g_msg_serv_info lst') 5 = Some i \<and> cur_conn_cnt i = 2"
proof -
  have reach: "login_reach wire_pb one_server"
    by (rule login_reach.step [OF login_reach.init, where e = "LConnect 0 2 5 logIN_CONN_TYPE_MSG_SERV"])
      (simp_all add: one_server_def login_init_def)
  have "all_open_handles two_logins_state = {5, 6}"
    using two_logins_eval by (auto simp: all_open_handles_def split: if_splits)
  then have two: "card (all_open_handles two_logins_state) = 2" by simp
  have new: "to_login two_logins_state = to_login msg_init @ [(USER_CNT_INC, 7), (USER_CNT_INC, 7)]"
    by (simp add: two_logins_eval msg_init_def)
  have cs: "distinct (List.map_filter serv_conn (serv_list login_side))"
    "9 \<in> set (List.map_filter serv_conn (serv_list login_side))" "cs_out (cs_conns login_side 9) = []"
    by (simp_all add: login_side_def servers_init_def List.map_filter_simps)
  have pb: "pb_msg_serv_info wire_pb (ser_info m) = m" "pb_user_cnt_update wire_pb (u32_bytes a) = a" for m a
    by (simp_all add: wire_pb_def parse_ser_info u32_bytes)
  have one: "map_of (g_msg_serv_conn_map one_server) 5 = Some 2" "map_of (g_msg_serv_info one_server) 5 = None"
    by (simp_all add: one_server_def OnConnect2_def login_init_def cm_insert_def)
  from login_server_tracks_sessions [where ser_cnt = "\<lambda>a uid. u32_bytes a", OF msg_reach.init two_logins_reach new cs
      pb reach one, of 0 0 demo_info] two
  show ?thesis by simp
qed

end
